(* ===== verification/Prelude.thy ===== *)
theory Prelude imports Main "HOL-Library.Char_ord" "HOL-Library.List_Lexorder" "HOL-Library.Product_Lexorder"
begin

text \<open>
  Shared vocabulary of the development: the errors the Python code raises and the sum type that
  carries them, Python string predicates, the trailing slice \<open>xs[-n:]\<close>, keyed collections (tuples of
  records that are searched, replaced and evicted by an identifier) and the interface they share.
\<close>

named_theorems res_simps and slice_simps

section \<open>Errors as values\<close>

text \<open>
  One constructor per exception class of \<^verbatim>\<open>alice_brain_hermes/errors.py\<close> that the modelled code
  raises, and one per built-in, pydantic or sqlite3 exception that escapes from it (\<open>IdentityNameNormalizationError\<close>
  is the one of \<^verbatim>\<open>protocol/identity.py\<close>). \<open>DomainCapacityError\<close> is a
  subclass of \<open>DomainInvariantError\<close>.
\<close>

datatype py_error =
    DomainInvariantError string
  | DomainCapacityError string
  | SchemaVersionError string
  | EventConflictError string
  | ExpectedSequenceError string
  | LedgerIntegrityError string
  | SnapshotConflictError string
  | RuntimeOwnershipError string
  | SchedulerShutdownError string
  | BridgeBindingError string
  | BridgeClosedError string
  | BridgeCleanClosedError string
  | BridgeAbandonedError string
  | CaptureGapRequiredError string
  | CaptureSequenceError string
  | IdempotencyConflictError string
  | FrameSizeError string
  | ResponseSizeError string
  | ValidationError string
  | PyValueError string
  | PyTypeError string
  | PyOverflowError
  | PyKeyError string
  | PyRuntimeError string
  | IdentityNameNormalizationError string
  | SqliteIntegrityError string

type_synonym 'a res = "py_error + 'a"

definition is_domain_error :: "py_error \<Rightarrow> bool" where
  "is_domain_error e = (case e of DomainInvariantError _ \<Rightarrow> True | DomainCapacityError _ \<Rightarrow> True | _ \<Rightarrow> False)"

definition rbind :: "'a res \<Rightarrow> ('a \<Rightarrow> 'b res) \<Rightarrow> 'b res" where
  "rbind m f = (case m of Inl e \<Rightarrow> Inl e | Inr x \<Rightarrow> f x)"

definition require :: "bool \<Rightarrow> py_error \<Rightarrow> 'a res \<Rightarrow> 'a res" where
  "require b e m = (if b then m else Inl e)"

text \<open>The \<open>try: ... except Exception: raise DomainInvariantError(msg)\<close> idiom.\<close>

definition rewrap :: "string \<Rightarrow> 'a res \<Rightarrow> 'a res" where
  "rewrap msg m = (case m of Inl _ \<Rightarrow> Inl (DomainInvariantError msg) | Inr x \<Rightarrow> Inr x)"

definition of_option :: "py_error \<Rightarrow> 'a option \<Rightarrow> 'a res" where
  "of_option e x = (case x of None \<Rightarrow> Inl e | Some v \<Rightarrow> Inr v)"

fun rmap :: "('a \<Rightarrow> 'b res) \<Rightarrow> 'a list \<Rightarrow> 'b list res" where
  "rmap f [] = Inr []"
| "rmap f (x # xs) = rbind (f x) (\<lambda>y. rbind (rmap f xs) (\<lambda>ys. Inr (y # ys)))"

fun rfold :: "('s \<Rightarrow> 'x \<Rightarrow> 's res) \<Rightarrow> 's \<Rightarrow> 'x list \<Rightarrow> 's res" where
  "rfold f s [] = Inr s"
| "rfold f s (x # xs) = rbind (f s x) (\<lambda>s'. rfold f s' xs)"

lemma rbind_simps [simp, res_simps]:
  "rbind (Inl e) f = Inl e" "rbind (Inr x) f = f x"
  by (simp_all add: rbind_def)

lemma require_simps [simp, res_simps]:
  "require True e m = m" "require False e m = Inl e"
  by (simp_all add: require_def)

lemma rewrap_simps [simp, res_simps]:
  "rewrap msg (Inl e) = Inl (DomainInvariantError msg)" "rewrap msg (Inr x) = Inr x"
  by (simp_all add: rewrap_def)

lemma of_option_simps [simp, res_simps]:
  "of_option e None = Inl e" "of_option e (Some x) = Inr x"
  by (simp_all add: of_option_def)

lemma rbind_eq_Inr [res_simps]: "rbind m f = Inr y \<longleftrightarrow> (\<exists>x. m = Inr x \<and> f x = Inr y)"
  by (cases m) auto

lemma rbind_eq_Inl [res_simps]: "rbind m f = Inl e \<longleftrightarrow> m = Inl e \<or> (\<exists>x. m = Inr x \<and> f x = Inl e)"
  by (cases m) auto

lemma require_eq_Inr [res_simps]: "require b e m = Inr y \<longleftrightarrow> b \<and> m = Inr y"
  by (simp add: require_def)

lemma require_eq_Inl [res_simps]: "require b e m = Inl e' \<longleftrightarrow> (\<not> b \<and> e' = e) \<or> (b \<and> m = Inl e')"
  by (auto simp: require_def)

lemma rewrap_eq_Inr [res_simps]: "rewrap msg m = Inr y \<longleftrightarrow> m = Inr y"
  by (cases m) auto

lemma rewrap_eq_Inl [res_simps]:
  "rewrap msg m = Inl e \<longleftrightarrow> e = DomainInvariantError msg \<and> (\<exists>e'. m = Inl e')"
  by (cases m) auto

lemma of_option_eq_Inr [res_simps]: "of_option e x = Inr y \<longleftrightarrow> x = Some y"
  by (cases x) auto

lemma of_option_eq_Inl [res_simps]: "of_option e x = Inl e' \<longleftrightarrow> x = None \<and> e' = e"
  by (cases x) auto

lemma if_raise_eq_Inr [res_simps]: "(if b then Inl e else m) = Inr y \<longleftrightarrow> \<not> b \<and> m = Inr y"
  by simp

lemma if_raise_eq_Inl [res_simps]: "(if b then Inl e else m) = Inl e' \<longleftrightarrow> (b \<and> e = e') \<or> (\<not> b \<and> m = Inl e')"
  by simp

lemma if_return_eq_Inr [res_simps]: "(if b then m else Inl e) = Inr y \<longleftrightarrow> b \<and> m = Inr y"
  by simp

lemma if_return_eq_Inl [res_simps]: "(if b then m else Inl e) = Inl e' \<longleftrightarrow> (b \<and> m = Inl e') \<or> (\<not> b \<and> e = e')"
  by auto

lemma rmap_length: "rmap f xs = Inr ys \<Longrightarrow> length ys = length xs"
  by (induction xs arbitrary: ys) (auto simp: res_simps)

lemma rmap_set: "rmap f xs = Inr ys \<Longrightarrow> y \<in> set ys \<Longrightarrow> \<exists>x \<in> set xs. f x = Inr y"
  by (induction xs arbitrary: ys) (auto simp: res_simps)

lemma rmap_map: "(\<And>x. x \<in> set xs \<Longrightarrow> f (g x) = Inr (h x)) \<Longrightarrow> rmap f (map g xs) = Inr (map h xs)"
  by (induction xs) auto

lemma rfold_invariant:
  "rfold f s xs = Inr s' \<Longrightarrow> P s \<Longrightarrow> (\<And>s x s'. x \<in> set xs \<Longrightarrow> P s \<Longrightarrow> f s x = Inr s' \<Longrightarrow> P s') \<Longrightarrow> P s'"
proof (induction xs arbitrary: s)
  case (Cons x xs)
  then obtain t where "f s x = Inr t" "rfold f t xs = Inr s'" by (auto simp: rbind_eq_Inr)
  with Cons show ?case by (meson list.set_intros)
qed simp

lemma rfold_append: "rfold f s (xs @ ys) = rbind (rfold f s xs) (\<lambda>t. rfold f t ys)"
proof (induction xs arbitrary: s)
  case (Cons x xs)
  then show ?case by (cases "f s x") simp_all
qed simp

lemma rfold_Inl: "rfold f s xs = Inl err \<Longrightarrow> (\<And>s x err. f s x = Inl err \<Longrightarrow> P err) \<Longrightarrow> P err"
  by (induction xs arbitrary: s) (auto simp: rbind_eq_Inl)

lemma is_domain_error_simps [simp]:
  "is_domain_error (DomainInvariantError m)" "is_domain_error (DomainCapacityError m)"
  "\<not> is_domain_error (SchemaVersionError m)" "\<not> is_domain_error (ValidationError m)"
  "\<not> is_domain_error PyOverflowError"
  by (simp_all add: is_domain_error_def)

section \<open>Reducers\<close>

text \<open>
  The interface every reducer of the core offers to a replay of a ledger: a good event keeps a good
  state good, and a refused event is refused with a domain error. Runs inherit both.
\<close>

locale reducer =
  fixes ok :: "'s \<Rightarrow> bool"
    and good :: "'e \<Rightarrow> bool"
    and step :: "'s \<Rightarrow> 'e \<Rightarrow> 's res"
  assumes step_keeps: "ok s \<Longrightarrow> good e \<Longrightarrow> step s e = Inr s' \<Longrightarrow> ok s'"
    and step_refuses: "ok s \<Longrightarrow> good e \<Longrightarrow> step s e = Inl err \<Longrightarrow> is_domain_error err"
begin

lemma run_keeps_also:
  "ok s \<Longrightarrow> P s \<Longrightarrow> list_all good es \<Longrightarrow> rfold step s es = Inr s' \<Longrightarrow>
   (\<And>s e s'. ok s \<Longrightarrow> good e \<Longrightarrow> step s e = Inr s' \<Longrightarrow> P s \<Longrightarrow> P s') \<Longrightarrow> ok s' \<and> P s'"
proof (induction es arbitrary: s)
  case (Cons e es)
  then obtain t where t: "step s e = Inr t" "rfold step t es = Inr s'" by (auto simp: rbind_eq_Inr)
  with Cons.prems have "ok t" "P t" using step_keeps by auto
  with Cons t show ?case by auto
qed simp

lemma run_keeps: "ok s \<Longrightarrow> list_all good es \<Longrightarrow> rfold step s es = Inr s' \<Longrightarrow> ok s'"
  using run_keeps_also [of s "\<lambda>_. True"] by blast

lemma run_refuses: "ok s \<Longrightarrow> list_all good es \<Longrightarrow> rfold step s es = Inl err \<Longrightarrow> is_domain_error err"
proof (induction es arbitrary: s)
  case (Cons e es)
  then show ?case by (auto simp: rbind_eq_Inl intro: step_refuses step_keeps)
qed simp

end

section \<open>Python strings\<close>

text \<open>
  Python strings are modelled by HOL strings, so code points above 255 are not represented.
  \<open>py_space\<close> is \<open>str.isspace\<close> on that range and \<open>py_strip\<close> is \<open>str.strip\<close>.
\<close>

definition py_space :: "char \<Rightarrow> bool" where
  "py_space c = (let n = (of_char c :: int) in
     9 \<le> n \<and> n \<le> 13 \<or> 28 \<le> n \<and> n \<le> 32 \<or> n = 133 \<or> n = 160)"

definition py_strip :: "string \<Rightarrow> string" where
  "py_strip s = rev (dropWhile py_space (rev (dropWhile py_space s)))"

definition blank :: "string \<Rightarrow> bool" where
  "blank s = (py_strip s = [])"

lemma blank_Nil [simp]: "blank []"
  by (simp add: blank_def py_strip_def)

lemma blank_iff: "blank s \<longleftrightarrow> list_all py_space s"
proof -
  have "blank s \<longleftrightarrow> (\<forall>c \<in> set (dropWhile py_space s). py_space c)"
    by (simp add: blank_def py_strip_def dropWhile_eq_Nil_conv)
  also have "\<dots> \<longleftrightarrow> (\<forall>c \<in> set s. py_space c)"
    by (metis dropWhile_eq_Nil_conv set_dropWhileD hd_dropWhile hd_in_set)
  finally show ?thesis by (simp add: list_all_iff)
qed

lemma blank_Cons: "blank (c # s) \<longleftrightarrow> py_space c \<and> blank s"
  by (simp add: blank_iff)

section \<open>Trailing slices\<close>

text \<open>\<open>last_n n xs\<close> is Python's \<open>xs[-n:]\<close> for a positive \<open>n\<close>.\<close>

definition last_n :: "nat \<Rightarrow> 'a list \<Rightarrow> 'a list" where
  "last_n n xs = drop (length xs - n) xs"

lemma length_last_n [simp, slice_simps]: "length (last_n n xs) = min n (length xs)"
  by (simp add: last_n_def)

lemma set_last_n: "set (last_n n xs) \<subseteq> set xs"
  by (simp add: last_n_def set_drop_subset)

lemma in_set_last_n: "x \<in> set (last_n n xs) \<Longrightarrow> x \<in> set xs"
  using set_last_n by fastforce

lemma last_n_all [slice_simps]: "length xs \<le> n \<Longrightarrow> last_n n xs = xs"
  by (simp add: last_n_def)

lemma map_last_n: "map f (last_n n xs) = last_n n (map f xs)"
  by (simp add: last_n_def drop_map)

lemma distinct_last_n: "distinct xs \<Longrightarrow> distinct (last_n n xs)"
  by (simp add: last_n_def)

lemma last_n_snoc: "0 < n \<Longrightarrow> last_n n (xs @ [x]) = last_n (n - 1) xs @ [x]"
  by (cases n) (auto simp: last_n_def)

lemma list_all_last_n: "list_all P xs \<Longrightarrow> list_all P (last_n n xs)"
  by (auto simp: list_all_iff dest: in_set_last_n)

section \<open>Keyed collections\<close>

text \<open>
  The state keeps its records in tuples and finds them by an identifier. \<open>put_last\<close> is the code's
  replace idiom: drop every record with the identifier, append the new one.
\<close>

definition lookup :: "('r \<Rightarrow> 'k) \<Rightarrow> 'r list \<Rightarrow> 'k \<Rightarrow> 'r option" where
  "lookup key xs k = find (\<lambda>r. key r = k) xs"

definition put_last :: "('r \<Rightarrow> 'k) \<Rightarrow> 'r list \<Rightarrow> 'r \<Rightarrow> 'r list" where
  "put_last key xs x = filter (\<lambda>r. key r \<noteq> key x) xs @ [x]"

lemma lookup_simps [simp]:
  "lookup key [] k = None"
  "lookup key (x # xs) k = (if key x = k then Some x else lookup key xs k)"
  by (simp_all add: lookup_def)

lemma lookup_append: "lookup key (xs @ ys) k = (case lookup key xs k of None \<Rightarrow> lookup key ys k | Some r \<Rightarrow> Some r)"
  by (induction xs) auto

lemma lookup_SomeD: "lookup key xs k = Some r \<Longrightarrow> r \<in> set xs \<and> key r = k"
  by (induction xs) (auto split: if_splits)

lemma lookup_None_iff: "lookup key xs k = None \<longleftrightarrow> k \<notin> key ` set xs"
  by (induction xs) auto

lemma lookup_filter_other: "k \<noteq> k' \<Longrightarrow> lookup key (filter (\<lambda>r. key r \<noteq> k') xs) k = lookup key xs k"
  by (induction xs) auto

lemma lookup_filter_same: "lookup key (filter (\<lambda>r. key r \<noteq> k) xs) k = None"
  by (induction xs) auto

lemma lookup_distinct: "distinct (map key xs) \<Longrightarrow> x \<in> set xs \<Longrightarrow> lookup key xs (key x) = Some x"
  by (induction xs) (auto simp: image_iff)

lemma Suc_length_pred: "x \<in> set xs \<Longrightarrow> Suc (length xs - Suc 0) = length xs"
  by (cases xs) auto

lemma length_filter_key:
  "distinct (map key xs) \<Longrightarrow>
   length (filter (\<lambda>r. key r \<noteq> k) xs) = (if k \<in> key ` set xs then length xs - 1 else length xs)"
proof (induction xs)
  case (Cons x xs)
  then show ?case
    by (cases "key x = k") (auto simp: filter_id_conv Suc_length_pred)
qed simp

text \<open>
  The interface of such a collection, as the reducers use it: what a search finds after a
  replacement, that identifiers stay unique, where records come from, and how the size moves.
\<close>

locale keyed_collection =
  fixes key :: "'r \<Rightarrow> 'k"
    and put :: "'r list \<Rightarrow> 'r \<Rightarrow> 'r list"
  assumes put_same: "lookup key (put xs x) (key x) = Some x"
    and put_other: "k \<noteq> key x \<Longrightarrow> lookup key (put xs x) k = lookup key xs k"
    and put_distinct: "distinct (map key xs) \<Longrightarrow> distinct (map key (put xs x))"
    and put_set: "set (put xs x) \<subseteq> insert x (set xs)"
    and put_length: "distinct (map key xs) \<Longrightarrow>
      length (put xs x) = (if key x \<in> key ` set xs then length xs else Suc (length xs))"
begin

lemma put_keys: "key ` set (put xs x) = insert (key x) (key ` set xs)"
proof -
  have "k \<in> key ` set (put xs x) \<longleftrightarrow> k = key x \<or> k \<in> key ` set xs" for k
    by (metis lookup_None_iff not_None_eq put_other put_same)
  then show ?thesis by auto
qed

lemma put_idem_lookup: "lookup key (put (put xs x) x) k = lookup key (put xs x) k"
  by (metis put_other put_same)

lemma put_pred: "list_all P xs \<Longrightarrow> P x \<Longrightarrow> list_all P (put xs x)"
  using put_set by (fastforce simp: list_all_iff)

lemma fold_put_distinct: "distinct (map key xs) \<Longrightarrow> distinct (map key (foldl put xs rs))"
  by (induction rs arbitrary: xs) (auto simp: put_distinct)

lemma fold_put_other: "k \<notin> key ` set rs \<Longrightarrow> lookup key (foldl put xs rs) k = lookup key xs k"
  by (induction rs arbitrary: xs) (auto simp: put_other)

lemma fold_put_last: "lookup key (foldl put xs (rs @ [x])) (key x) = Some x"
  by (simp add: put_same)

end

lemma put_last_same: "lookup key (put_last key xs x) (key x) = Some x"
  by (simp add: put_last_def lookup_append lookup_filter_same)

lemma put_last_other: "k \<noteq> key x \<Longrightarrow> lookup key (put_last key xs x) k = lookup key xs k"
  by (auto simp: put_last_def lookup_append lookup_filter_other split: option.splits)

lemma put_last_distinct: "distinct (map key xs) \<Longrightarrow> distinct (map key (put_last key xs x))"
  by (auto simp: put_last_def distinct_map_filter)

lemma put_last_set: "set (put_last key xs x) \<subseteq> insert x (set xs)"
  by (auto simp: put_last_def)

lemma put_last_length:
  assumes "distinct (map key xs)"
  shows "length (put_last key xs x) = (if key x \<in> key ` set xs then length xs else Suc (length xs))"
  using assms by (auto simp: put_last_def length_filter_key Suc_length_pred)

lemmas put_last_laws = put_last_same put_last_other put_last_distinct put_last_set put_last_length

text \<open>
  A bounded collection keeps the last \<open>cap\<close> records of the replaced collection: the oldest record is
  evicted when a new identifier would exceed the bound.
\<close>

locale bounded_collection = keyed_collection +
  fixes cap :: nat
    and bput :: "'a list \<Rightarrow> 'a \<Rightarrow> 'a list"
  assumes cap_pos: "0 < cap"
    and put_ends: "\<exists>ys. put xs x = ys @ [x]"
    and bput_eq: "bput xs x = last_n cap (put xs x)"
begin

lemma bput_bound: "length (bput xs x) \<le> cap"
  by (simp add: bput_eq)

lemma bput_distinct: "distinct (map key xs) \<Longrightarrow> distinct (map key (bput xs x))"
  by (simp add: bput_eq map_last_n distinct_last_n put_distinct)

lemma bput_last: "bput xs x \<noteq> [] \<and> last (bput xs x) = x"
proof -
  obtain ys where "put xs x = ys @ [x]" using put_ends by blast
  with cap_pos show ?thesis by (simp add: bput_eq last_n_snoc)
qed

lemma bput_mem: "x \<in> set (bput xs x)"
  using bput_last [of xs x] last_in_set by metis

lemma bput_set: "set (bput xs x) \<subseteq> insert x (set xs)"
  using put_set [of xs x] in_set_last_n by (fastforce simp: bput_eq)

lemma bput_pred: "list_all P xs \<Longrightarrow> P x \<Longrightarrow> list_all P (bput xs x)"
  using bput_set [of xs x] by (auto simp: list_all_iff)

lemma bput_same: "distinct (map key xs) \<Longrightarrow> lookup key (bput xs x) (key x) = Some x"
  by (rule lookup_distinct [OF bput_distinct bput_mem])

lemma bput_below_cap:
  "distinct (map key xs) \<Longrightarrow> length xs < cap \<Longrightarrow> bput xs x = put xs x"
  by (auto simp: bput_eq put_length intro!: last_n_all)

end

lemma put_last_keyed: "keyed_collection key (put_last key)"
  by unfold_locales (auto simp: put_last_same put_last_other put_last_distinct put_last_length
      dest: subsetD [OF put_last_set])

lemma put_last_bounded:
  assumes "0 < cap" "\<And>xs x. bput xs x = last_n cap (put_last key xs x)"
  shows "bounded_collection key (put_last key) cap bput"
proof -
  show ?thesis using assms
    by (intro bounded_collection.intro put_last_keyed bounded_collection_axioms.intro)
       (auto simp: put_last_def)
qed

end
