(* ===== verification/Floats.thy ===== *)
theory Floats imports Prelude Complex_Main
begin

text \<open>
  Python's numbers as the program uses them. A finite binary64 value is represented by the rational
  it denotes (negative zero is identified with zero); \<open>rnd64\<close> is IEEE round-to-nearest-even, with
  \<open>None\<close> for overflow to infinity, and every float operation of the code is the exact rational
  operation followed by \<open>rnd64\<close>. \<open>dec_of\<close> is \<open>Decimal(str(x))\<close>, the shortest decimal that rounds
  back to \<open>x\<close>; the code's decimal contexts are wide enough for its sums, differences and products to
  be exact, so those are rational arithmetic.
\<close>

section \<open>Round half to even\<close>

definition rhe :: "rat \<Rightarrow> int" where
  "rhe x = (let f = \<lfloor>x\<rfloor>; d = x - of_int f in
     if 2 * d < 1 then f else if 1 < 2 * d then f + 1 else if even f then f else f + 1)"

lemma rhe_bounds: "\<lfloor>x\<rfloor> \<le> rhe x" "rhe x \<le> \<lfloor>x\<rfloor> + 1"
  by (simp_all add: rhe_def Let_def)

lemma rhe_of_int [simp]: "rhe (of_int n) = n"
  by (simp add: rhe_def)

lemma rhe_numerals [simp]: "rhe 0 = 0" "rhe 1 = 1"
  using rhe_of_int [of 0] rhe_of_int [of 1] by simp_all

lemma rhe_mono:
  assumes "x \<le> y"
  shows "rhe x \<le> rhe y"
proof (cases "\<lfloor>x\<rfloor> = \<lfloor>y\<rfloor>")
  case True
  with assms show ?thesis by (auto simp: rhe_def Let_def)
next
  case False
  with floor_mono [OF assms] have "\<lfloor>x\<rfloor> + 1 \<le> \<lfloor>y\<rfloor>" by linarith
  with rhe_bounds(2) [of x] rhe_bounds(1) [of y] show ?thesis by linarith
qed

lemma rhe_le_of_int: "x \<le> of_int n \<Longrightarrow> rhe x \<le> n"
  using rhe_mono [of x "of_int n"] by simp

lemma rhe_ge_of_int: "of_int n \<le> x \<Longrightarrow> n \<le> rhe x"
  using rhe_mono [of "of_int n" x] by simp

lemma rhe_nonneg: "0 \<le> x \<Longrightarrow> 0 \<le> rhe x"
  using rhe_ge_of_int [of 0 x] by simp

section \<open>Bit length\<close>

function bitlen :: "int \<Rightarrow> int" where
  "bitlen n = (if n \<le> 0 then 0 else if n < 4294967296 then 1 + bitlen (n div 2)
     else 32 + bitlen (n div 4294967296))"
  by pat_completeness auto
termination
  by (relation "measure nat") auto

declare bitlen.simps [simp del]

lemma bitlen_0 [simp]: "bitlen 0 = 0"
  by (simp add: bitlen.simps)

lemma bitlen_nonneg: "0 \<le> bitlen n"
proof (induction n rule: bitlen.induct)
  case (1 n)
  then show ?case by (simp add: bitlen.simps [of n])
qed

lemma bitlen_step:
  "0 < n \<Longrightarrow> n < 4294967296 \<Longrightarrow> nat (bitlen n) = Suc (nat (bitlen (n div 2)))"
  "4294967296 \<le> n \<Longrightarrow> nat (bitlen n) = 32 + nat (bitlen (n div 4294967296))"
  using bitlen_nonneg [of "n div 2"] bitlen_nonneg [of "n div 4294967296"]
  by (simp_all add: bitlen.simps [of n] nat_add_distrib)

lemma bitlen_less: "n < 2 ^ nat (bitlen n)"
proof (induction n rule: bitlen.induct)
  case (1 n)
  consider "n \<le> 0" | "0 < n" "n < 4294967296" | "4294967296 \<le> n" by linarith
  then show ?case
  proof cases
    case 1
    then show ?thesis by (simp add: bitlen.simps [of n])
  next
    case 2
    then have "n div 2 < 2 ^ nat (bitlen (n div 2))" using 1(1) by simp
    then have "n < 2 * 2 ^ nat (bitlen (n div 2))" by linarith
    then show ?thesis by (simp only: bitlen_step(1) [OF 2] power_Suc)
  next
    case 3
    then have "n div 4294967296 < 2 ^ nat (bitlen (n div 4294967296))" using 1(2) by simp
    then have "n < 2 ^ 32 * 2 ^ nat (bitlen (n div 4294967296))" by simp
    then show ?thesis by (simp only: bitlen_step(2) [OF 3] power_add)
  qed
qed

lemma bitlen_ge: "0 < n \<Longrightarrow> 2 ^ nat (bitlen n) \<le> 2 * n"
proof (induction n rule: bitlen.induct)
  case (1 n)
  consider "n = 1" | "1 < n" "n < 4294967296" | "4294967296 \<le> n" using 1(3) by linarith
  then show ?case
  proof cases
    case 1
    then show ?thesis by (simp add: bitlen.simps)
  next
    case 2
    then have "2 ^ nat (bitlen (n div 2)) \<le> 2 * (n div 2)" using 1(1) by simp
    then have "2 * 2 ^ nat (bitlen (n div 2)) \<le> 2 * n" by linarith
    then show ?thesis using bitlen_step(1) [of n] 2 by simp
  next
    case 3
    then have "2 ^ nat (bitlen (n div 4294967296)) \<le> 2 * (n div 4294967296)" using 1(2) by simp
    then have "2 ^ 32 * 2 ^ nat (bitlen (n div 4294967296)) \<le> 2 * n" by simp
    then show ?thesis by (simp only: bitlen_step(2) [OF 3] power_add)
  qed
qed

lemma bitlen_pos: "0 < n \<Longrightarrow> 0 < bitlen n"
  using bitlen_less [of n] bitlen_nonneg [of n] by (cases "bitlen n = 0") auto

section \<open>Rounding to binary64\<close>

text \<open>
  \<open>f64_exp\<close> is the binary exponent of a positive value, \<open>f64_ulp\<close> the exponent of the last place of
  its binade (never below -1074, the subnormal range), and \<open>rnd_mag\<close> rounds to that place.
\<close>

definition f64_exp :: "rat \<Rightarrow> int" where
  "f64_exp x = (if 1 \<le> x then bitlen \<lfloor>x\<rfloor> - 1 else - bitlen (\<lceil>1 / x\<rceil> - 1))"

definition f64_ulp :: "rat \<Rightarrow> int" where
  "f64_ulp x = max (f64_exp x - 52) (- 1074)"

definition rnd_mag :: "rat \<Rightarrow> rat" where
  "rnd_mag x = (let p = 2 powi f64_ulp x in of_int (rhe (x / p)) * p)"

definition rndq :: "rat \<Rightarrow> rat" where
  "rndq x = (if x = 0 then 0 else if x < 0 then - rnd_mag (- x) else rnd_mag x)"

definition rnd64 :: "rat \<Rightarrow> rat option" where
  "rnd64 x = (let r = rndq x in if 2 ^ 1024 \<le> \<bar>r\<bar> then None else Some r)"

definition is_f64 :: "rat \<Rightarrow> bool" where
  "is_f64 x = (rnd64 x = Some x)"

lemma powi2_pos [simp]: "0 < (2::rat) powi e" "0 \<le> (2::rat) powi e" "(2::rat) powi e \<noteq> 0"
  by simp_all

lemma powi2_mono: "a \<le> b \<Longrightarrow> (2::rat) powi a \<le> 2 powi b"
  by (rule power_int_increasing) simp_all

lemma powi2_less_imp: "(2::rat) powi a < 2 powi b \<Longrightarrow> a < b"
  using powi2_mono [of b a] by (cases "b \<le> a") auto

lemma powi2_add: "(2::rat) powi (a + b) = 2 powi a * 2 powi b"
  by (rule power_int_add) simp

lemma powi2_nat: "0 \<le> e \<Longrightarrow> (2::rat) powi e = of_int (2 ^ nat e)"
  by (simp add: power_int_nonneg_exp)

lemma f64_exp_spec:
  assumes "0 < x"
  shows "2 powi f64_exp x \<le> x" "x < 2 powi (f64_exp x + 1)"
proof -
  have "2 powi f64_exp x \<le> x \<and> x < 2 powi (f64_exp x + 1)"
  proof (cases "1 \<le> x")
    case True
    define b where "b = bitlen \<lfloor>x\<rfloor>"
    have f: "0 < \<lfloor>x\<rfloor>" using True by simp
    then have b: "0 < b" unfolding b_def by (rule bitlen_pos)
    have "\<lfloor>x\<rfloor> < 2 ^ nat b" unfolding b_def by (rule bitlen_less)
    then have 1: "x < 2 powi b" using b by (simp add: powi2_nat floor_less_iff)
    have "2 ^ nat b \<le> 2 * \<lfloor>x\<rfloor>" unfolding b_def by (rule bitlen_ge [OF f])
    moreover have "nat b = Suc (nat (b - 1))" using b by simp
    ultimately have "2 ^ nat (b - 1) \<le> \<lfloor>x\<rfloor>" by simp
    then have "2 powi (b - 1) \<le> x" using b by (simp add: powi2_nat le_floor_iff)
    with 1 True show ?thesis by (simp add: f64_exp_def b_def)
  next
    case False
    define m where "m = \<lceil>1 / x\<rceil> - 1"
    define b where "b = bitlen m"
    have "1 < 1 / x" using assms False by simp
    then have m: "0 < m" by (simp add: m_def less_ceiling_iff)
    then have b: "0 < b" unfolding b_def by (rule bitlen_pos)
    have "m < 2 ^ nat b" unfolding b_def by (rule bitlen_less)
    then have "\<lceil>1 / x\<rceil> \<le> 2 ^ nat b" by (simp add: m_def)
    then have "1 / x \<le> 2 powi b" using b by (simp add: powi2_nat ceiling_le_iff)
    then have 1: "2 powi (- b) \<le> x" using assms by (simp add: power_int_minus field_simps)
    have "2 ^ nat b \<le> 2 * m" unfolding b_def by (rule bitlen_ge [OF m])
    moreover have "nat b = Suc (nat (b - 1))" using b by simp
    ultimately have "2 ^ nat (b - 1) < \<lceil>1 / x\<rceil>" by (simp add: m_def)
    then have "2 powi (b - 1) < 1 / x" using b by (simp add: powi2_nat less_ceiling_iff)
    moreover have "(2::rat) powi (- b + 1) = inverse (2 powi (b - 1))"
      by (simp add: power_int_minus [symmetric])
    moreover have "x < inverse (2 powi (b - 1))" if "2 powi (b - 1) < 1 / x"
      using that assms by (simp add: field_simps)
    ultimately have "x < 2 powi (- b + 1)" by simp
    with 1 False show ?thesis by (simp add: f64_exp_def b_def m_def)
  qed
  then show "2 powi f64_exp x \<le> x" "x < 2 powi (f64_exp x + 1)" by simp_all
qed

lemma f64_exp_mono: "0 < x \<Longrightarrow> x \<le> y \<Longrightarrow> f64_exp x \<le> f64_exp y"
  using f64_exp_spec [of x] f64_exp_spec [of y] powi2_less_imp [of "f64_exp x" "f64_exp y + 1"]
  by linarith

lemma f64_ulp_mono: "0 < x \<Longrightarrow> x \<le> y \<Longrightarrow> f64_ulp x \<le> f64_ulp y"
  using f64_exp_mono [of x y] by (simp add: f64_ulp_def)

lemma less_ulp:
  assumes "0 < x"
  shows "x / 2 powi f64_ulp x < 2 ^ 53"
proof -
  have "x < 2 powi (53 + f64_ulp x)"
    using f64_exp_spec(2) [OF assms] powi2_mono [of "f64_exp x + 1" "53 + f64_ulp x"]
    by (simp add: f64_ulp_def less_le_trans)
  then show ?thesis by (simp add: powi2_add divide_less_eq)
qed

lemma ulp_ge:
  assumes "0 < x" "- 1074 < f64_ulp x"
  shows "2 ^ 52 \<le> x / 2 powi f64_ulp x"
proof -
  have "f64_exp x = 52 + f64_ulp x" using assms(2) by (simp add: f64_ulp_def split: if_splits)
  then have "2 powi (52 + f64_ulp x) \<le> x" using f64_exp_spec(1) [OF assms(1)] by simp
  then show ?thesis by (simp add: powi2_add le_divide_eq)
qed

lemma rnd_mag_le: "0 < x \<Longrightarrow> rnd_mag x \<le> 2 powi (53 + f64_ulp x)"
proof -
  assume "0 < x"
  then have "rhe (x / 2 powi f64_ulp x) \<le> 2 ^ 53"
    using less_ulp [of x] by (intro rhe_le_of_int) simp
  then have "(of_int (rhe (x / 2 powi f64_ulp x)) :: rat) \<le> of_int (2 ^ 53)"
    by (simp only: of_int_le_iff)
  then show ?thesis by (simp add: rnd_mag_def Let_def powi2_add)
qed

lemma rnd_mag_nonneg: "0 < x \<Longrightarrow> 0 \<le> rnd_mag x"
  by (simp add: rnd_mag_def Let_def rhe_nonneg)

lemma rnd_mag_mono:
  assumes "0 < x" "x \<le> y"
  shows "rnd_mag x \<le> rnd_mag y"
proof (cases "f64_ulp x = f64_ulp y")
  case True
  have "rhe (x / 2 powi f64_ulp x) \<le> rhe (y / 2 powi f64_ulp x)"
    by (rule rhe_mono) (simp add: divide_right_mono assms)
  with True show ?thesis by (simp add: rnd_mag_def Let_def)
next
  case False
  with f64_ulp_mono [OF assms] have lt: "f64_ulp x < f64_ulp y" by simp
  then have "2 ^ 52 \<le> rhe (y / 2 powi f64_ulp y)"
    using ulp_ge [of y] assms by (intro rhe_ge_of_int) (auto simp: f64_ulp_def)
  then have "of_int (2 ^ 52) \<le> (of_int (rhe (y / 2 powi f64_ulp y)) :: rat)"
    by (simp only: of_int_le_iff)
  then have "2 powi (52 + f64_ulp y) \<le> rnd_mag y" by (simp add: rnd_mag_def Let_def powi2_add)
  moreover have "rnd_mag x \<le> 2 powi (53 + f64_ulp x)" using assms(1) by (rule rnd_mag_le)
  moreover have "(2::rat) powi (53 + f64_ulp x) \<le> 2 powi (52 + f64_ulp y)"
    using lt by (intro powi2_mono) simp
  ultimately show ?thesis by linarith
qed

lemma rnd_mag_exact:
  assumes "0 < k" "k < 2 ^ 53" "- 1074 \<le> s"
  shows "rnd_mag (of_int k * 2 powi s) = of_int k * 2 powi s"
proof -
  define y :: rat where "y = of_int k * 2 powi s"
  have y: "0 < y" using assms(1) by (simp add: y_def)
  have "(of_int k :: rat) < of_int (2 ^ 53)" using assms(2) by (simp only: of_int_less_iff)
  then have "y < 2 powi (53 + s)" by (simp add: y_def powi2_add)
  with f64_exp_spec(1) [OF y] have "2 powi f64_exp y < (2::rat) powi (53 + s)" by linarith
  then have "f64_ulp y \<le> s" using powi2_less_imp [of "f64_exp y" "53 + s"] assms(3)
    by (simp add: f64_ulp_def)
  then obtain d where d: "s = f64_ulp y + int d" by (metis zle_iff_zadd)
  have e: "y = of_int (k * 2 ^ d) * 2 powi f64_ulp y"
    by (subst y_def, subst d) (simp add: powi2_add)
  then have "y / 2 powi f64_ulp y = of_int (k * 2 ^ d)"
    by (metis nonzero_mult_div_cancel_right powi2_pos(3))
  then have "rhe (y / 2 powi f64_ulp y) = k * 2 ^ d" by (simp only: rhe_of_int)
  then have "rnd_mag y = y" using e by (simp only: rnd_mag_def Let_def)
  then show ?thesis by (simp only: y_def)
qed

lemma rnd_mag_idem:
  assumes "0 < x" "rnd_mag x \<noteq> 0"
  shows "rnd_mag (rnd_mag x) = rnd_mag x"
proof -
  define k where "k = rhe (x / 2 powi f64_ulp x)"
  have r: "rnd_mag x = of_int k * 2 powi f64_ulp x" by (simp add: rnd_mag_def Let_def k_def)
  have s: "- 1074 \<le> f64_ulp x" by (simp add: f64_ulp_def)
  have "0 \<le> k" using assms(1) by (simp add: k_def rhe_nonneg)
  with r assms(2) have "0 < k" by (cases "k = 0") auto
  have "k \<le> 2 ^ 53"
    using less_ulp [OF assms(1)] unfolding k_def by (intro rhe_le_of_int) simp
  then consider "k < 2 ^ 53" | "k = 2 ^ 53" by linarith
  then show ?thesis
  proof cases
    case 1
    with r s \<open>0 < k\<close> show ?thesis by (simp add: rnd_mag_exact)
  next
    case 2
    have "rnd_mag x = of_int (2 ^ 52) * 2 powi (f64_ulp x + 1)" by (simp add: r 2 powi2_add)
    then show ?thesis using rnd_mag_exact [of "2 ^ 52" "f64_ulp x + 1"] s by simp
  qed
qed

lemma rndq_0 [simp]: "rndq 0 = 0"
  by (simp add: rndq_def)

lemma rndq_minus: "rndq (- x) = - rndq x"
  by (simp add: rndq_def)

lemma rndq_nonneg: "0 \<le> x \<Longrightarrow> 0 \<le> rndq x"
  by (simp add: rndq_def rnd_mag_nonneg)

lemma rndq_mono_nonneg: "0 \<le> x \<Longrightarrow> x \<le> y \<Longrightarrow> rndq x \<le> rndq y"
  by (auto simp: rndq_def rnd_mag_nonneg rnd_mag_mono)

lemma rndq_mono:
  assumes "x \<le> y"
  shows "rndq x \<le> rndq y"
proof -
  consider "0 \<le> x" | "x < 0" "0 \<le> y" | "y < 0" by linarith
  then show ?thesis
  proof cases
    case 1
    with assms show ?thesis by (simp add: rndq_mono_nonneg)
  next
    case 2
    then have "0 \<le> rndq (- x)" "0 \<le> rndq y" by (simp_all add: rndq_nonneg)
    then show ?thesis by (simp add: rndq_minus)
  next
    case 3
    with assms have "rndq (- y) \<le> rndq (- x)" by (intro rndq_mono_nonneg) simp_all
    then show ?thesis by (simp add: rndq_minus)
  qed
qed

lemma rndq_idem_nonneg: "0 \<le> x \<Longrightarrow> rndq (rndq x) = rndq x"
  using rnd_mag_nonneg [of x] rnd_mag_idem [of x] by (auto simp: rndq_def [of x] rndq_def [of "rnd_mag x"])

lemma rndq_idem: "rndq (rndq x) = rndq x"
  using rndq_idem_nonneg [of x] rndq_idem_nonneg [of "- x"] by (cases "0 \<le> x") (simp_all add: rndq_minus)

lemma rndq_dyadic:
  assumes "\<bar>n\<bar> < 2 ^ 53" "- 1074 \<le> s"
  shows "rndq (of_int n * 2 powi s) = of_int n * 2 powi s"
proof -
  consider "n = 0" | "0 < n" | "n < 0" by linarith
  then show ?thesis
  proof cases
    case 2
    then have "\<not> (of_int n :: rat) * 2 powi s < 0" by (simp add: mult_less_0_iff not_less)
    with 2 show ?thesis using rnd_mag_exact [of n s] assms by (simp add: rndq_def)
  next
    case 3
    then show ?thesis using rnd_mag_exact [of "- n" s] assms by (simp add: rndq_def mult_less_0_iff)
  qed simp
qed

lemma rnd64_SomeD: "rnd64 x = Some a \<Longrightarrow> a = rndq x \<and> \<bar>a\<bar> < 2 ^ 1024"
  by (simp add: rnd64_def Let_def split: if_splits)

lemma is_f64_iff: "is_f64 x \<longleftrightarrow> rndq x = x \<and> \<bar>x\<bar> < 2 ^ 1024"
  by (auto simp: is_f64_def rnd64_def Let_def)

lemma rnd64_f64: "rnd64 x = Some a \<Longrightarrow> is_f64 a"
  by (auto dest!: rnd64_SomeD simp: is_f64_iff rndq_idem)

lemma rnd64_mono: "x \<le> y \<Longrightarrow> rnd64 x = Some a \<Longrightarrow> rnd64 y = Some b \<Longrightarrow> a \<le> b"
  by (auto dest!: rnd64_SomeD simp: rndq_mono)

lemma f64_le_rnd: "is_f64 x \<Longrightarrow> x \<le> y \<Longrightarrow> rnd64 y = Some b \<Longrightarrow> x \<le> b"
  by (metis is_f64_def rnd64_mono)

lemma f64_ge_rnd: "is_f64 x \<Longrightarrow> y \<le> x \<Longrightarrow> rnd64 y = Some b \<Longrightarrow> b \<le> x"
  by (metis is_f64_def rnd64_mono)

lemma f64_dyadic: "\<bar>n\<bar> < 2 ^ 53 \<Longrightarrow> - 1074 \<le> s \<Longrightarrow> s \<le> 0 \<Longrightarrow> is_f64 (of_int n * 2 powi s)"
proof -
  assume n: "\<bar>n\<bar> < 2 ^ 53" and s: "- 1074 \<le> s" "s \<le> 0"
  have "\<bar>of_int n * 2 powi s\<bar> = \<bar>of_int n :: rat\<bar> * 2 powi s" by (simp add: abs_mult)
  also have "\<dots> \<le> \<bar>of_int n :: rat\<bar> * 1" using powi2_mono [of s 0] s by (intro mult_left_mono) simp_all
  also have "\<dots> < of_int (2 ^ 53)" using n by (simp only: of_int_abs [symmetric] mult_1_right of_int_less_iff)
  also have "\<dots> < 2 ^ 1024" by simp
  finally show ?thesis using rndq_dyadic [OF n s(1)] by (simp add: is_f64_iff)
qed

lemma f64_of_int: "\<bar>n\<bar> < 2 ^ 53 \<Longrightarrow> is_f64 (of_int n)"
  using f64_dyadic [of n 0] by simp

lemma f64_numerals [simp]: "is_f64 0" "is_f64 1" "is_f64 (- 1)" "is_f64 (1 / 2)"
  using f64_of_int [of 0] f64_of_int [of 1] f64_of_int [of "- 1"] f64_dyadic [of 1 "- 1"]
  by (simp_all add: power_int_minus)

lemma f64_minus: "is_f64 x \<Longrightarrow> is_f64 (- x)"
  by (simp add: is_f64_iff rndq_minus)

text \<open>Rounding a value between two binary64 values cannot overflow and stays between them.\<close>

lemma rnd64_between:
  assumes "is_f64 lo" "is_f64 hi" "lo \<le> x" "x \<le> hi"
  obtains a where "rnd64 x = Some a" "lo \<le> a" "a \<le> hi" "is_f64 a"
proof -
  from assms have b: "lo \<le> rndq x" "rndq x \<le> hi" "\<bar>lo\<bar> < 2 ^ 1024" "\<bar>hi\<bar> < 2 ^ 1024"
    using rndq_mono [of lo x] rndq_mono [of x hi] by (auto simp: is_f64_iff)
  then have "\<bar>rndq x\<bar> < 2 ^ 1024" by linarith
  then have "rnd64 x = Some (rndq x)" by (simp add: rnd64_def)
  with b show ?thesis by (intro that) (auto intro: rnd64_f64)
qed

lemma rnd64_sandwich:
  assumes "rnd64 x = Some lo" "rnd64 y = Some hi" "x \<le> z" "z \<le> y"
  obtains a where "rnd64 z = Some a" "lo \<le> a" "a \<le> hi" "is_f64 a"
proof -
  from assms have b: "lo \<le> rndq z" "rndq z \<le> hi" "\<bar>lo\<bar> < 2 ^ 1024" "\<bar>hi\<bar> < 2 ^ 1024"
    using rndq_mono [of x z] rndq_mono [of z y] by (auto dest!: rnd64_SomeD)
  then have "\<bar>rndq z\<bar> < 2 ^ 1024" by linarith
  then have "rnd64 z = Some (rndq z)" by (simp add: rnd64_def)
  with b show ?thesis by (intro that) (auto intro: rnd64_f64)
qed

section \<open>Shortest decimals\<close>

function dec_len :: "int \<Rightarrow> int" where
  "dec_len n = (if n \<le> 0 then 0 else if n < 1000000000 then 1 + dec_len (n div 10)
     else 9 + dec_len (n div 1000000000))"
  by pat_completeness auto
termination
  by (relation "measure nat") auto

declare dec_len.simps [simp del]

text \<open>\<open>10 powi (dec_exp x - 1) \<le> \<bar>x\<bar> < 10 powi dec_exp x\<close> up to one, for every nonzero value.\<close>

definition dec_exp :: "rat \<Rightarrow> int" where
  "dec_exp x = (if 1 \<le> \<bar>x\<bar> then dec_len \<lfloor>\<bar>x\<bar>\<rfloor> else 1 - dec_len (\<lceil>1 / \<bar>x\<bar>\<rceil> - 1))"

text \<open>
  \<open>repr\<close> of a float: the shortest digit string that rounds back, the closest one of that length.
  \<open>(m, p)\<close> stands for \<open>m / 10 powi p\<close>. Seventeen digits always suffice for binary64.
\<close>

definition dec_find :: "rat \<Rightarrow> (int \<times> int) option" where
  "dec_find x = (let e = dec_exp x in
     find (\<lambda>(m, p). rnd64 (of_int m / 10 powi p) = Some x)
       (concat (map (\<lambda>k. let p = int k - e; u = x * 10 powi p in [(rhe u, p), (\<lfloor>u\<rfloor>, p), (\<lceil>u\<rceil>, p)])
         [1..<18])))"

definition dec_of :: "rat \<Rightarrow> rat" where
  "dec_of x = (if x = 0 then 0 else case dec_find x of Some (m, p) \<Rightarrow> of_int m / 10 powi p | None \<Rightarrow> x)"

lemma dec_of_0 [simp]: "dec_of 0 = 0"
  by (simp add: dec_of_def)

lemma rnd64_dec_of: "is_f64 x \<Longrightarrow> rnd64 (dec_of x) = Some x"
proof -
  assume x: "is_f64 x"
  show ?thesis
  proof (cases "dec_find x")
    case None
    with x show ?thesis by (auto simp: dec_of_def is_f64_def)
  next
    case (Some mp)
    obtain m p where mp: "mp = (m, p)" by (cases mp)
    from Some have "rnd64 (of_int m / 10 powi p) = Some x"
      unfolding dec_find_def Let_def by (auto simp: find_Some_iff mp)
    with Some x mp show ?thesis by (auto simp: dec_of_def is_f64_def)
  qed
qed

lemma dec_of_less: "is_f64 x \<Longrightarrow> is_f64 y \<Longrightarrow> x < y \<Longrightarrow> dec_of x < dec_of y"
  using rnd64_mono [of "dec_of y" "dec_of x" y x] by (force simp: rnd64_dec_of)

lemma dec_of_mono: "is_f64 x \<Longrightarrow> is_f64 y \<Longrightarrow> x \<le> y \<Longrightarrow> dec_of x \<le> dec_of y"
  using dec_of_less [of x y] by (cases "x = y") auto

lemma dec_of_nonneg: "is_f64 x \<Longrightarrow> 0 \<le> x \<Longrightarrow> 0 \<le> dec_of x"
  using dec_of_mono [of 0 x] by simp

text \<open>The one-digit candidate decides the shortest decimal of short literals.\<close>

lemma dec_of_one_digit:
  assumes "x \<noteq> 0" "dec_exp x = e" "rhe (x * 10 powi (1 - e)) = m" "rnd64 (of_int m / 10 powi (1 - e)) = Some x"
  shows "dec_of x = of_int m / 10 powi (1 - e)"
proof -
  have r: "[1..<18] = 1 # [2..<18]" by (simp add: upt_conv_Cons)
  have "dec_find x = Some (m, 1 - e)"
    using assms(2-4) unfolding dec_find_def r by (simp add: Let_def del: upt_Suc upt_rec_numeral)
  with assms(1) show ?thesis by (simp add: dec_of_def)
qed

lemma dec_of_units: "dec_of 1 = 1" "dec_of (- 1) = - 1"
proof -
  have "dec_exp 1 = 1" "dec_exp (- 1) = 1" by code_simp+
  moreover have "rhe (- 1) = - 1" by (metis rhe_of_int of_int_1 of_int_minus)
  moreover have "rnd64 1 = Some 1" "rnd64 (- 1) = Some (- 1)"
    using f64_numerals by (simp_all add: is_f64_def)
  ultimately show "dec_of 1 = 1" "dec_of (- 1) = - 1"
    using dec_of_one_digit [of 1 1 1] dec_of_one_digit [of "- 1" 1 "- 1"] by simp_all
qed

lemma rnd64_unit: "0 \<le> x \<Longrightarrow> x \<le> 1 \<Longrightarrow> rnd64 x = Some (rndq x)"
  using rnd64_between [OF f64_numerals(1,2)] rnd64_SomeD by metis

lemma dec_of_tenths:
  "dec_of (rndq (1 / 20)) = 1 / 20" "dec_of (rndq (1 / 10)) = 1 / 10" "dec_of (rndq (1 / 5)) = 1 / 5"
proof -
  have e: "dec_exp (rndq (1 / 20)) = - 1" "dec_exp (rndq (1 / 10)) = 0" "dec_exp (rndq (1 / 5)) = 0"
    by code_simp+
  have m: "rhe (rndq (1 / 20) * 10 powi (1 - - 1)) = 5" "rhe (rndq (1 / 10) * 10 powi (1 - 0)) = 1"
    "rhe (rndq (1 / 5) * 10 powi (1 - 0)) = 2"
    by code_simp+
  have n: "rndq (1 / 20) \<noteq> 0" "rndq (1 / 10) \<noteq> 0" "rndq (1 / 5) \<noteq> 0" by code_simp+
  have s: "(of_int 5 / 10 powi (1 - - 1) :: rat) = 1 / 20" "(of_int 1 / 10 powi (1 - 0) :: rat) = 1 / 10"
    "(of_int 2 / 10 powi (1 - 0) :: rat) = 1 / 5" by simp_all
  have r: "rnd64 (of_int 5 / 10 powi (1 - - 1)) = Some (rndq (1 / 20))"
    "rnd64 (of_int 1 / 10 powi (1 - 0)) = Some (rndq (1 / 10))"
    "rnd64 (of_int 2 / 10 powi (1 - 0)) = Some (rndq (1 / 5))"
    unfolding s by (simp_all add: rnd64_unit)
  show "dec_of (rndq (1 / 20)) = 1 / 20" "dec_of (rndq (1 / 10)) = 1 / 10" "dec_of (rndq (1 / 5)) = 1 / 5"
    using dec_of_one_digit [OF n(1) e(1) m(1) r(1)] dec_of_one_digit [OF n(2) e(2) m(2) r(2)]
      dec_of_one_digit [OF n(3) e(3) m(3) r(3)] unfolding s .
qed

section \<open>Float operations\<close>

text \<open>\<open>round(x, n)\<close> and \<open>math.fsum\<close>; \<open>float(i)\<close> of an integer raises \<open>OverflowError\<close> where \<open>None\<close>.\<close>

definition py_round :: "nat \<Rightarrow> rat \<Rightarrow> rat option" where
  "py_round n x = rnd64 (of_int (rhe (x * 10 ^ n)) / 10 ^ n)"

definition py_fsum :: "rat list \<Rightarrow> rat option" where
  "py_fsum xs = rnd64 (sum_list xs)"

definition float_of_int :: "int \<Rightarrow> rat option" where
  "float_of_int n = rnd64 (of_int n)"

lemma py_round_between:
  assumes "of_int lo \<le> x" "x \<le> of_int hi" "\<bar>lo\<bar> < 2 ^ 53" "\<bar>hi\<bar> < 2 ^ 53"
  obtains a where "py_round n x = Some a" "of_int lo \<le> a" "a \<le> of_int hi" "is_f64 a"
proof -
  let ?q = "rhe (x * 10 ^ n)"
  have "of_int (lo * 10 ^ n) \<le> x * 10 ^ n" "x * 10 ^ n \<le> of_int (hi * 10 ^ n)"
    using assms by (simp_all add: mult_right_mono)
  then have "lo * 10 ^ n \<le> ?q" "?q \<le> hi * 10 ^ n" by (auto intro: rhe_ge_of_int rhe_le_of_int)
  then have "(of_int (lo * 10 ^ n) :: rat) \<le> of_int ?q" "(of_int ?q :: rat) \<le> of_int (hi * 10 ^ n)"
    by (simp_all only: of_int_le_iff)
  then have "of_int lo \<le> (of_int ?q :: rat) / 10 ^ n" "(of_int ?q :: rat) / 10 ^ n \<le> of_int hi"
    by (simp_all add: le_divide_eq divide_le_eq)
  then show ?thesis
    using rnd64_between [OF f64_of_int f64_of_int, OF assms(3,4)] that by (metis py_round_def)
qed

end
