(* ===== verification/Json.thy ===== *)
theory Json imports Floats
begin

text \<open>
  JSON values as \<^verbatim>\<open>core/events.py\<close> freezes them: \<open>FrozenJsonDict\<close> is \<open>JObj\<close> with its keys sorted and
  distinct, a frozen array is \<open>JArr\<close>, and integers and floats stay apart as in Python. Arrays are one
  constructor, so \<open>thaw_json\<close> (tuples back to lists) is the identity here. The canonical serializer,
  Python's conversions \<open>float(x)\<close>, \<open>int(x)\<close>, \<open>tuple(x)\<close> and the pydantic field checks follow.
\<close>

datatype json =
    JNull
  | JBool bool
  | JInt int
  | JFloat rat
  | JStr string
  | JArr "json list"
  | JObj "(string \<times> json) list"

type_synonym jobj = "(string \<times> json) list"

section \<open>Objects\<close>

text \<open>\<open>jget m k\<close> is \<open>m.get(k)\<close>, \<open>jget_or m k d\<close> is \<open>m.get(k, d)\<close> and \<open>jitem m k\<close> is \<open>m[k]\<close>.\<close>

definition jget_or :: "jobj \<Rightarrow> string \<Rightarrow> json \<Rightarrow> json" where
  "jget_or m k d = (case map_of m k of None \<Rightarrow> d | Some v \<Rightarrow> v)"

definition jget :: "jobj \<Rightarrow> string \<Rightarrow> json" where
  "jget m k = jget_or m k JNull"

definition jitem :: "jobj \<Rightarrow> string \<Rightarrow> json res" where
  "jitem m k = of_option (PyKeyError k) (map_of m k)"

fun jput :: "string \<Rightarrow> 'v \<Rightarrow> (string \<times> 'v) list \<Rightarrow> (string \<times> 'v) list" where
  "jput k v [] = [(k, v)]"
| "jput k v ((k', v') # m) =
     (if k < k' then (k, v) # (k', v') # m else if k = k' then (k, v) # m else (k', v') # jput k v m)"

definition sorted_keys :: "(string \<times> 'v) list \<Rightarrow> bool" where
  "sorted_keys m = sorted_wrt (<) (map fst m)"

lemma map_of_jput: "map_of (jput k v m) k' = (if k' = k then Some v else map_of m k')"
  by (induction m) auto

lemma fst_jput: "fst ` set (jput k v m) = insert k (fst ` set m)"
proof (induction m)
  case (Cons p m)
  then show ?case by (cases p) (simp add: insert_commute)
qed simp

lemma set_jput: "set (jput k v m) \<subseteq> insert (k, v) (set m)"
proof (induction m)
  case (Cons p m)
  then show ?case by (cases p) (auto split: if_splits)
qed simp

lemma sorted_keys_jput: "sorted_keys m \<Longrightarrow> sorted_keys (jput k v m)"
proof (induction m)
  case (Cons p m)
  obtain k' v' where p: "p = (k', v')" by (cases p)
  from Cons.prems have m: "sorted_keys m" "\<forall>x \<in> fst ` set m. k' < x" by (auto simp: sorted_keys_def p)
  show ?case
  proof (cases "k < k'")
    case True
    with Cons.prems show ?thesis by (auto simp: sorted_keys_def p intro: less_trans)
  next
    case False
    show ?thesis
    proof (cases "k = k'")
      case True
      with Cons.prems show ?thesis by (simp add: sorted_keys_def p)
    next
      case ne: False
      with False have "k' < k" by simp
      with m Cons.IH have "sorted_keys (jput k v m)" "\<forall>x \<in> fst ` set (jput k v m). k' < x"
        by (auto simp: fst_jput)
      with ne False show ?thesis by (auto simp: sorted_keys_def p)
    qed
  qed
qed (simp add: sorted_keys_def)

lemma sorted_keys_distinct: "sorted_keys m \<Longrightarrow> distinct (map fst m)"
  by (simp add: sorted_keys_def strict_sorted_iff)

lemma sorted_keys_simps [simp]: "sorted_keys []" "sorted_keys [p]"
  by (simp_all add: sorted_keys_def)

lemma length_jput:
  "sorted_keys m \<Longrightarrow> length (jput k v m) = (if k \<in> fst ` set m then length m else Suc (length m))"
proof (induction m)
  case (Cons p m)
  obtain k' v' where p: "p = (k', v')" by (cases p)
  from Cons.prems have "sorted_keys m" "\<forall>x \<in> fst ` set m. k' < x" by (auto simp: sorted_keys_def p)
  with Cons.IH show ?case by (auto simp: p)
qed simp

section \<open>Freezing\<close>

text \<open>
  \<open>_freeze_json\<close> and the \<open>FrozenJsonDict\<close> constructor: every object is rebuilt with sorted keys. A
  Python dict has distinct keys, so inserting them one by one is sorting them.
\<close>

fun freeze :: "json \<Rightarrow> json" and freeze_items :: "jobj \<Rightarrow> jobj" where
  "freeze (JArr xs) = JArr (map freeze xs)"
| "freeze (JObj m) = JObj (freeze_items m)"
| "freeze JNull = JNull"
| "freeze (JBool b) = JBool b"
| "freeze (JInt i) = JInt i"
| "freeze (JFloat q) = JFloat q"
| "freeze (JStr s) = JStr s"
| "freeze_items [] = []"
| "freeze_items ((k, v) # m) = jput k (freeze v) (freeze_items m)"

fun frozen :: "json \<Rightarrow> bool" where
  "frozen (JArr xs) = list_all frozen xs"
| "frozen (JObj m) = (sorted_keys m \<and> list_all (\<lambda>p. frozen (snd p)) m)"
| "frozen (JFloat q) = is_f64 q"
| "frozen _ = True"

lemma sorted_keys_freeze_items: "sorted_keys (freeze_items m)"
  by (induction m) (auto simp: sorted_keys_jput)

lemma jput_below: "\<forall>x \<in> fst ` set m. k < x \<Longrightarrow> jput k v m = (k, v) # m"
  by (cases m) auto

lemma freeze_frozen: "frozen v \<Longrightarrow> freeze v = v"
  and freeze_items_frozen: "frozen (JObj m) \<Longrightarrow> freeze_items m = m"
proof (induction v and m rule: freeze_freeze_items.induct)
  case (1 xs)
  then show ?case by (auto simp: list_all_iff intro: map_idI)
next
  case (9 k v m)
  then have "freeze_items m = m" "\<forall>x \<in> fst ` set m. k < x" "freeze v = v"
    by (auto simp: sorted_keys_def)
  then show ?case by (simp add: jput_below)
qed auto

section \<open>Serializing\<close>

function nat_digits :: "int \<Rightarrow> string" where
  "nat_digits n = (if n < 10 then [char_of (48 + n)] else nat_digits (n div 10) @ [char_of (48 + n mod 10)])"
  by pat_completeness auto
termination
  by (relation "measure nat") auto

declare nat_digits.simps [simp del]

definition int_text :: "int \<Rightarrow> string" where
  "int_text i = (if i < 0 then CHR ''-'' # nat_digits (- i) else nat_digits i)"

fun strip_zeros :: "string \<Rightarrow> string" where
  "strip_zeros s = rev (dropWhile (\<lambda>c. c = CHR ''0'') (rev s))"

text \<open>\<open>float.__repr__\<close>: fixed notation while the decimal point is within \<open>-4 < decpt \<le> 16\<close>.\<close>

definition float_text :: "rat \<Rightarrow> string" where
  "float_text q = (case dec_find q of
     None \<Rightarrow> ''0.0''
   | Some (m, p) \<Rightarrow>
       let all = nat_digits \<bar>m\<bar>; ds = strip_zeros all; n = int (length ds);
         decpt = int (length all) - p; sign = (if q < 0 then ''-'' else '''');
         zeros = (\<lambda>k. replicate (nat k) (CHR ''0''))
       in sign @
         (if decpt \<le> - 4 \<or> 16 < decpt then
            let e = decpt - 1; es = nat_digits \<bar>e\<bar>
            in take 1 ds @ (if n = 1 then '''' else ''.'' @ drop 1 ds) @ ''e'' @
               (if e < 0 then ''-'' else ''+'') @ (if length es < 2 then ''0'' @ es else es)
          else if decpt \<le> 0 then ''0.'' @ zeros (- decpt) @ ds
          else if n \<le> decpt then ds @ zeros (decpt - n) @ ''.0''
          else take (nat decpt) ds @ ''.'' @ drop (nat decpt) ds))"

definition hex_char :: "int \<Rightarrow> char" where
  "hex_char n = (if n < 10 then char_of (48 + n) else char_of (87 + n))"

definition escape_char :: "char \<Rightarrow> string" where
  "escape_char c = (let n = (of_char c :: int) in
     if n = 34 then [char_of (92::nat), char_of (34::nat)]
     else if n = 92 then [char_of (92::nat), char_of (92::nat)]
     else if n = 8 then [char_of (92::nat), CHR ''b'']
     else if n = 9 then [char_of (92::nat), CHR ''t'']
     else if n = 10 then [char_of (92::nat), CHR ''n'']
     else if n = 12 then [char_of (92::nat), CHR ''f'']
     else if n = 13 then [char_of (92::nat), CHR ''r'']
     else if n < 32 then [char_of (92::nat)] @ ''u00'' @ [hex_char (n div 16), hex_char (n mod 16)]
     else [c])"

definition quoted :: "string \<Rightarrow> string" where
  "quoted s = [char_of (34::nat)] @ concat (map escape_char s) @ [char_of (34::nat)]"

text \<open>\<open>repr\<close> of a string, as the \<open>!r\<close> of an error message prints it.\<close>

definition repr_char :: "char \<Rightarrow> char \<Rightarrow> string" where
  "repr_char q c = (let n = (of_char c :: int) in
     if n = 92 \<or> c = q then [char_of (92::nat), c]
     else if n = 9 then [char_of (92::nat), CHR ''t'']
     else if n = 10 then [char_of (92::nat), CHR ''n'']
     else if n = 13 then [char_of (92::nat), CHR ''r'']
     else if n < 32 \<or> 127 \<le> n \<and> n \<le> 160 \<or> n = 173 then
       [char_of (92::nat), CHR ''x'', hex_char (n div 16), hex_char (n mod 16)]
     else [c])"

definition py_repr :: "string \<Rightarrow> string" where
  "py_repr s = (let q = (if char_of (39::nat) \<in> set s \<and> char_of (34::nat) \<notin> set s
       then char_of (34::nat) else char_of (39::nat))
     in [q] @ concat (map (repr_char q) s) @ [q])"

fun join :: "string list \<Rightarrow> string" where
  "join [] = ''''"
| "join [s] = s"
| "join (s # ss) = s @ '','' @ join ss"

text \<open>\<open>json.dumps(..., separators=(",", ":"), sort_keys=True)\<close> of a frozen value.\<close>

fun canonical_json :: "json \<Rightarrow> string" where
  "canonical_json JNull = ''null''"
| "canonical_json (JBool b) = (if b then ''true'' else ''false'')"
| "canonical_json (JInt i) = int_text i"
| "canonical_json (JFloat q) = float_text q"
| "canonical_json (JStr s) = quoted s"
| "canonical_json (JArr xs) = ''['' @ join (map canonical_json xs) @ '']''"
| "canonical_json (JObj m) = ''{'' @ join (map (\<lambda>p. quoted (fst p) @ '':'' @ canonical_json (snd p)) m) @ ''}''"

text \<open>\<open>FrozenJsonDict.__eq__\<close> compares canonical texts.\<close>

definition json_eq :: "json \<Rightarrow> json \<Rightarrow> bool" where
  "json_eq a b = (canonical_json a = canonical_json b)"

section \<open>Python conversions\<close>

text \<open>\<open>tuple(v)\<close>: a string is a sequence of one-character strings, an object the sequence of its keys.\<close>

fun py_tuple :: "json \<Rightarrow> json list option" where
  "py_tuple (JArr xs) = Some xs"
| "py_tuple (JStr s) = Some (map (\<lambda>c. JStr [c]) s)"
| "py_tuple (JObj m) = Some (map (\<lambda>p. JStr (fst p)) m)"
| "py_tuple _ = None"

definition digit_val :: "char \<Rightarrow> int option" where
  "digit_val c = (let n = (of_char c :: nat) in if 48 \<le> n \<and> n \<le> 57 then Some (int n - 48) else None)"

text \<open>
  \<open>take_digits\<close> reads a maximal digit run with single underscores between digits, as Python's number
  syntax allows: the value, the number of digits and the rest of the text.
\<close>

fun take_digits :: "int \<Rightarrow> nat \<Rightarrow> string \<Rightarrow> int \<times> nat \<times> string" where
  "take_digits v n [] = (v, n, [])"
| "take_digits v n (c # s) = (case digit_val c of
     Some d \<Rightarrow> take_digits (10 * v + d) (Suc n) s
   | None \<Rightarrow>
       if c = CHR ''_'' \<and> 0 < n then
         (case s of c' # s' \<Rightarrow> (case digit_val c' of
              Some d \<Rightarrow> take_digits (10 * v + d) (Suc n) s'
            | None \<Rightarrow> (v, n, c # s))
          | [] \<Rightarrow> (v, n, c # s))
       else (v, n, c # s))"

definition take_sign :: "string \<Rightarrow> int \<times> string" where
  "take_sign s = (case s of
     [] \<Rightarrow> (1, s)
   | c # s' \<Rightarrow> if c = CHR ''-'' then (-1, s') else if c = CHR ''+'' then (1, s') else (1, s))"

definition parse_int :: "string \<Rightarrow> int option" where
  "parse_int s = (let (sg, t) = take_sign (py_strip s); (v, n, r) = take_digits 0 0 t in
     if 0 < n \<and> r = [] then Some (sg * v) else None)"

text \<open>
  \<open>float(text)\<close>: \<open>None\<close> when Python raises or the result is infinite or not a number; every use in the
  source rejects those next. Integer part, fraction and exponent are decimal digit runs.
\<close>

definition parse_float :: "string \<Rightarrow> rat option" where
  "parse_float s = (let (sg, t) = take_sign (py_strip s); (v, n, r) = take_digits 0 0 t;
      (f, k, r') = (case r of c # r1 \<Rightarrow> (if c = CHR ''.'' then take_digits 0 0 r1 else (0, 0, r)) | [] \<Rightarrow> (0, 0, r));
      (e, ok) = (case r' of
          [] \<Rightarrow> (0, True)
        | c # r2 \<Rightarrow> (if c = CHR ''e'' \<or> c = CHR ''E''
            then (let (es, r3) = take_sign r2; (x, j, r4) = take_digits 0 0 r3 in (es * x, 0 < j \<and> r4 = []))
            else (0, False)))
    in if ok \<and> 0 < n + k then rnd64 (of_int sg * (of_int v + of_int f / 10 ^ k) * 10 powi e) else None)"

fun py_float :: "json \<Rightarrow> rat option" where
  "py_float (JBool b) = Some (if b then 1 else 0)"
| "py_float (JInt i) = float_of_int i"
| "py_float (JFloat q) = Some q"
| "py_float (JStr s) = parse_float s"
| "py_float _ = None"

fun py_int :: "json \<Rightarrow> int option" where
  "py_int (JBool b) = Some (if b then 1 else 0)"
| "py_int (JInt i) = Some i"
| "py_int (JFloat q) = Some (if 0 \<le> q then \<lfloor>q\<rfloor> else \<lceil>q\<rceil>)"
| "py_int (JStr s) = parse_int s"
| "py_int _ = None"

section \<open>Strict field checks\<close>

text \<open>
  What pydantic's strict mode accepts for the field types the models declare: a \<open>str\<close> field takes
  strings only, a \<open>float\<close> field takes floats and integers but no booleans, a \<open>FrozenJsonDict\<close> field
  takes objects, a tuple field takes arrays.
\<close>

fun as_str :: "json \<Rightarrow> string option" where
  "as_str (JStr s) = Some s"
| "as_str _ = None"

fun as_opt_str :: "json \<Rightarrow> string option option" where
  "as_opt_str JNull = Some None"
| "as_opt_str (JStr s) = Some (Some s)"
| "as_opt_str _ = None"

fun as_float :: "json \<Rightarrow> rat option" where
  "as_float (JInt i) = float_of_int i"
| "as_float (JFloat q) = Some q"
| "as_float _ = None"

fun as_obj :: "json \<Rightarrow> jobj option" where
  "as_obj (JObj m) = Some m"
| "as_obj _ = None"

fun as_arr :: "json \<Rightarrow> json list option" where
  "as_arr (JArr xs) = Some xs"
| "as_arr _ = None"

fun as_strs :: "json list \<Rightarrow> string list option" where
  "as_strs [] = Some []"
| "as_strs (v # vs) = (case as_str v of None \<Rightarrow> None | Some s \<Rightarrow>
     (case as_strs vs of None \<Rightarrow> None | Some ss \<Rightarrow> Some (s # ss)))"

text \<open>\<open>isinstance(v, (int, float)) and not isinstance(v, bool)\<close>, with the exact value.\<close>

fun json_number :: "json \<Rightarrow> rat option" where
  "json_number (JInt i) = Some (of_int i)"
| "json_number (JFloat q) = Some q"
| "json_number _ = None"

definition str_len :: "nat \<Rightarrow> nat \<Rightarrow> string \<Rightarrow> bool" where
  "str_len lo hi s = (lo \<le> length s \<and> length s \<le> hi)"

definition in_range :: "rat \<Rightarrow> rat \<Rightarrow> rat \<Rightarrow> bool" where
  "in_range lo hi q = (lo \<le> q \<and> q \<le> hi)"

lemma as_str_Some: "as_str v = Some s \<longleftrightarrow> v = JStr s"
  by (cases v) auto

lemma as_obj_Some: "as_obj v = Some m \<longleftrightarrow> v = JObj m"
  by (cases v) auto

lemma as_arr_Some: "as_arr v = Some m \<longleftrightarrow> v = JArr m"
  by (cases v) auto

lemma as_strs_map [simp]: "as_strs (map JStr ss) = Some ss"
  by (induction ss) auto

lemma as_strs_SomeD: "as_strs vs = Some ss \<Longrightarrow> vs = map JStr ss"
  by (induction vs arbitrary: ss) (auto simp: as_str_Some split: option.splits)

lemma as_strs_Some: "as_strs vs = Some ss \<longleftrightarrow> vs = map JStr ss"
  using as_strs_SomeD by auto

lemma as_strs_length: "as_strs vs = Some ss \<Longrightarrow> length ss = length vs"
  by (auto simp: as_strs_Some)

lemma as_float_f64: "frozen v \<Longrightarrow> as_float v = Some q \<Longrightarrow> is_f64 q"
  by (cases v) (auto simp: float_of_int_def rnd64_f64)

lemma jget_or_frozen: "frozen (JObj m) \<Longrightarrow> frozen d \<Longrightarrow> frozen (jget_or m k d)"
  by (auto simp: jget_or_def list_all_iff split: option.splits dest!: map_of_SomeD)

lemma jget_frozen: "frozen (JObj m) \<Longrightarrow> frozen (jget m k)"
  by (simp add: jget_def jget_or_frozen)

end
