(* ===== verification/Digest.thy ===== *)
theory Digest imports Json "HOL-Library.Word"
begin

text \<open>
  The digests the program names things by: \<^verbatim>\<open>hashlib.sha256(text.encode("utf-8"))\<close> as FIPS 180-4
  defines it, over 32-bit words, and its hexadecimal text. Nothing is assumed about collisions.
\<close>

unbundle bit_operations_syntax

section \<open>SHA-256\<close>

definition sha_k :: "32 word list" where
  "sha_k = [
     1116352408, 1899447441, 3049323471, 3921009573, 961987163, 1508970993, 2453635748, 2870763221,
     3624381080, 310598401, 607225278, 1426881987, 1925078388, 2162078206, 2614888103, 3248222580,
     3835390401, 4022224774, 264347078, 604807628, 770255983, 1249150122, 1555081692, 1996064986,
     2554220882, 2821834349, 2952996808, 3210313671, 3336571891, 3584528711, 113926993, 338241895,
     666307205, 773529912, 1294757372, 1396182291, 1695183700, 1986661051, 2177026350, 2456956037,
     2730485921, 2820302411, 3259730800, 3345764771, 3516065817, 3600352804, 4094571909, 275423344,
     430227734, 506948616, 659060556, 883997877, 958139571, 1322822218, 1537002063, 1747873779,
     1955562222, 2024104815, 2227730452, 2361852424, 2428436474, 2756734187, 3204031479, 3329325298]"

definition sha_init :: "32 word list" where
  "sha_init = [
     1779033703, 3144134277, 1013904242, 2773480762, 1359893119, 2600822924, 528734635, 1541459225]"

definition sig0 :: "32 word \<Rightarrow> 32 word" where
  "sig0 x = word_rotr 7 x XOR word_rotr 18 x XOR drop_bit 3 x"

definition sig1 :: "32 word \<Rightarrow> 32 word" where
  "sig1 x = word_rotr 17 x XOR word_rotr 19 x XOR drop_bit 10 x"

definition Sig0 :: "32 word \<Rightarrow> 32 word" where
  "Sig0 x = word_rotr 2 x XOR word_rotr 13 x XOR word_rotr 22 x"

definition Sig1 :: "32 word \<Rightarrow> 32 word" where
  "Sig1 x = word_rotr 6 x XOR word_rotr 11 x XOR word_rotr 25 x"

text \<open>The message schedule, newest word first.\<close>

fun extend :: "nat \<Rightarrow> 32 word list \<Rightarrow> 32 word list" where
  "extend 0 w = w"
| "extend (Suc n) w = extend n ((sig1 (w ! 1) + w ! 6 + sig0 (w ! 14) + w ! 15) # w)"

fun sha_round :: "32 word list \<Rightarrow> 32 word \<times> 32 word \<Rightarrow> 32 word list" where
  "sha_round [a, b, c, d, e, f, g, h] (k, w) =
     (let t1 = h + Sig1 e + ((e AND f) XOR (NOT e AND g)) + k + w;
          t2 = Sig0 a + ((a AND b) XOR (a AND c) XOR (b AND c))
      in [t1 + t2, a, b, c, d + t1, e, f, g])"
| "sha_round v _ = v"

definition sha_block :: "32 word list \<Rightarrow> 32 word list \<Rightarrow> 32 word list" where
  "sha_block hs block = map2 (+) hs (foldl sha_round hs (zip sha_k (rev (extend 48 (rev block)))))"

fun be_word :: "int list \<Rightarrow> int" where
  "be_word bs = foldl (\<lambda>v b. 256 * v + b) 0 bs"

fun chunks :: "nat \<Rightarrow> nat \<Rightarrow> 'a list \<Rightarrow> 'a list list" where
  "chunks 0 n xs = []"
| "chunks (Suc k) n xs = (if xs = [] then [] else take n xs # chunks k n (drop n xs))"

fun be_bytes :: "nat \<Rightarrow> int \<Rightarrow> int list" where
  "be_bytes 0 v = []"
| "be_bytes (Suc n) v = be_bytes n (v div 256) @ [v mod 256]"

definition sha_pad :: "int list \<Rightarrow> int list" where
  "sha_pad bs = (let n = length bs in
     bs @ [128] @ replicate ((119 - n mod 64) mod 64) 0 @ be_bytes 8 (8 * int n))"

definition sha256 :: "int list \<Rightarrow> int list" where
  "sha256 bs = (let p = sha_pad bs; blocks = chunks (length p) 64 p in
     concat (map (\<lambda>w. be_bytes 4 (uint w))
       (foldl (\<lambda>hs b. sha_block hs (map (\<lambda>q. word_of_int (be_word q)) (chunks 16 4 b))) sha_init blocks)))"

definition utf8 :: "string \<Rightarrow> int list" where
  "utf8 s = concat (map (\<lambda>c. let n = (of_char c :: int) in
     if n < 128 then [n] else [192 + n div 64, 128 + n mod 64]) s)"

definition hex_text :: "int list \<Rightarrow> string" where
  "hex_text bs = concat (map (\<lambda>b. [hex_char (b div 16), hex_char (b mod 16)]) bs)"

definition sha256_hex :: "string \<Rightarrow> string" where
  "sha256_hex s = hex_text (sha256 (utf8 s))"

section \<open>The shape of a digest\<close>

definition is_hex :: "char \<Rightarrow> bool" where
  "is_hex c = (let n = (of_char c :: int) in 48 \<le> n \<and> n \<le> 57 \<or> 97 \<le> n \<and> n \<le> 102)"

definition is_sha256 :: "string \<Rightarrow> bool" where
  "is_sha256 s = (length s = 64 \<and> list_all is_hex s)"

lemma length_be_bytes [simp]: "length (be_bytes n v) = n"
  by (induction n arbitrary: v) auto

lemma be_bytes_range: "b \<in> set (be_bytes n v) \<Longrightarrow> 0 \<le> b \<and> b < 256"
  by (induction n arbitrary: v) auto

lemma length_sha_round: "length (sha_round v kw) = length v"
  by (induction v kw rule: sha_round.induct) (auto simp: Let_def)

lemma length_sha_rounds: "length (foldl sha_round v kws) = length v"
  by (induction kws arbitrary: v) (auto simp: length_sha_round)

lemma length_sha_block: "length (sha_block hs b) = length hs"
  by (simp add: sha_block_def length_sha_rounds)

lemma length_sha_blocks: "length (foldl (\<lambda>hs b. sha_block hs (f b)) hs bs) = length hs"
  by (induction bs arbitrary: hs) (auto simp: length_sha_block)

lemma length_concat_const: "(\<And>x. x \<in> set xs \<Longrightarrow> length (f x) = n) \<Longrightarrow> length (concat (map f xs)) = n * length xs"
  by (induction xs) auto

lemma length_sha256: "length (sha256 bs) = 32"
  by (simp add: sha256_def Let_def length_concat_const [where n = 4] length_sha_blocks sha_init_def)

lemma sha256_range: "b \<in> set (sha256 bs) \<Longrightarrow> 0 \<le> b \<and> b < 256"
  by (auto simp: sha256_def Let_def dest: be_bytes_range)

lemma of_char_char_of_int: "0 \<le> n \<Longrightarrow> n < 256 \<Longrightarrow> (of_char (char_of n :: char) :: int) = n"
  by simp

lemma is_hex_hex_char: "0 \<le> n \<Longrightarrow> n < 16 \<Longrightarrow> is_hex (hex_char n)"
  by (auto simp: is_hex_def hex_char_def Let_def)

lemma is_sha256_hex: "is_sha256 (sha256_hex s)"
proof -
  have "is_hex c" if "c \<in> set (hex_text (sha256 (utf8 s)))" for c
    using that by (auto simp: hex_text_def dest!: sha256_range intro!: is_hex_hex_char)
  moreover have "length (hex_text (sha256 (utf8 s))) = 64"
    by (simp add: hex_text_def length_concat_const [where n = 2] length_sha256)
  ultimately show ?thesis by (simp add: is_sha256_def sha256_hex_def list_all_iff)
qed

lemma sha256_hex_length [simp]: "length (sha256_hex s) = 64"
  using is_sha256_hex [of s] by (simp add: is_sha256_def)

end
