(* ===== verification/Events.thy ===== *)
theory Events imports Digest
begin

text \<open>
  \<^verbatim>\<open>core/events.py\<close> and \<^verbatim>\<open>ids.py\<close>: identifiers, the event envelope with its field constraints, its
  canonical text and fingerprints, and the constructor \<open>new_event\<close>. The wall time is kept as the
  canonical UTC text the envelope serializes.
\<close>

section \<open>Identifiers\<close>

definition lower_hex :: "char \<Rightarrow> bool" where
  "lower_hex c = is_hex c"

text \<open>
  A canonical RFC 4122 version 4 UUID: \<open>str(UUID(value)) == value\<close> forces the dashed lower-case form,
  and the version and variant are read off positions 14 and 19.
\<close>

definition is_uuid4 :: "string \<Rightarrow> bool" where
  "is_uuid4 v = (length v = 36 \<and>
     list_all (\<lambda>(i, c). if i \<in> {8, 13, 18, 23} then c = CHR ''-'' else lower_hex c) (enumerate 0 v) \<and>
     v ! 14 = CHR ''4'' \<and> v ! 19 \<in> set ''89ab'')"

definition validate_id :: "string \<Rightarrow> string res" where
  "validate_id v = (if is_uuid4 v then Inr v
     else Inl (PyValueError ''identifier must be a canonical UUID4 string''))"

section \<open>The event envelope\<close>

definition EVENT_SCHEMA_VERSION :: int where
  "EVENT_SCHEMA_VERSION = 1"

record event_envelope =
  ev_schema_version :: int
  ev_event_id :: string
  ev_event_type :: string
  ev_brain_id :: string
  ev_sequence :: "int option"
  ev_wall_time :: string
  ev_monotonic_ns :: int
  ev_actor_id :: string
  ev_adapter_id :: "string option"
  ev_session_id :: "string option"
  ev_turn_id :: "string option"
  ev_action_id :: "string option"
  ev_causation_id :: "string option"
  ev_correlation_id :: "string option"
  ev_payload :: jobj

definition type_char :: "char \<Rightarrow> bool" where
  "type_char c = (let n = (of_char c :: int) in
     97 \<le> n \<and> n \<le> 122 \<or> 48 \<le> n \<and> n \<le> 57 \<or> c \<in> set ''_.-'')"

text \<open>\<open>min_length=1, max_length=160, pattern=^[a-z][a-z0-9_.-]*$\<close>.\<close>

definition valid_event_type :: "string \<Rightarrow> bool" where
  "valid_event_type t = (case t of [] \<Rightarrow> False
     | c # s \<Rightarrow> length t \<le> 160 \<and> 97 \<le> (of_char c :: int) \<and> (of_char c :: int) \<le> 122 \<and> list_all type_char s)"

definition valid_provenance :: "string option \<Rightarrow> bool" where
  "valid_provenance v = (case v of None \<Rightarrow> True | Some s \<Rightarrow> \<not> blank s \<and> length s \<le> 512)"

definition valid_event :: "event_envelope \<Rightarrow> bool" where
  "valid_event e = (ev_schema_version e = EVENT_SCHEMA_VERSION \<and>
     is_uuid4 (ev_event_id e) \<and> is_uuid4 (ev_brain_id e) \<and> is_uuid4 (ev_actor_id e) \<and>
     valid_event_type (ev_event_type e) \<and>
     (case ev_sequence e of None \<Rightarrow> True | Some n \<Rightarrow> 1 \<le> n) \<and>
     0 \<le> ev_monotonic_ns e \<and>
     list_all valid_provenance [ev_adapter_id e, ev_session_id e, ev_turn_id e, ev_action_id e,
       ev_causation_id e, ev_correlation_id e] \<and>
     frozen (JObj (ev_payload e)))"

text \<open>\<open>revalidated\<close>: the values an unchecked \<open>model_copy\<close> produced go through the validators again.\<close>

definition event_revalidated :: "event_envelope \<Rightarrow> event_envelope res" where
  "event_revalidated e = (if valid_event e then Inr e else Inl (ValidationError ''EventEnvelope''))"

section \<open>Canonical text and fingerprints\<close>

definition opt_json :: "('a \<Rightarrow> json) \<Rightarrow> 'a option \<Rightarrow> json" where
  "opt_json f x = (case x of None \<Rightarrow> JNull | Some v \<Rightarrow> f v)"

text \<open>\<open>canonical_data(exclude_sequence=...)\<close>, keys in sorted order.\<close>

definition canonical_data :: "bool \<Rightarrow> event_envelope \<Rightarrow> json" where
  "canonical_data exclude_sequence e = JObj (
     [(''action_id'', opt_json JStr (ev_action_id e)),
      (''actor_id'', JStr (ev_actor_id e)),
      (''adapter_id'', opt_json JStr (ev_adapter_id e)),
      (''brain_id'', JStr (ev_brain_id e)),
      (''causation_id'', opt_json JStr (ev_causation_id e)),
      (''correlation_id'', opt_json JStr (ev_correlation_id e)),
      (''event_id'', JStr (ev_event_id e)),
      (''event_type'', JStr (ev_event_type e)),
      (''monotonic_ns'', JInt (ev_monotonic_ns e)),
      (''payload'', JObj (ev_payload e)),
      (''schema_version'', JInt (ev_schema_version e))] @
     (if exclude_sequence then [] else [(''sequence'', opt_json JInt (ev_sequence e))]) @
     [(''session_id'', opt_json JStr (ev_session_id e)),
      (''turn_id'', opt_json JStr (ev_turn_id e)),
      (''wall_time'', JStr (ev_wall_time e))])"

definition event_text :: "bool \<Rightarrow> event_envelope \<Rightarrow> string" where
  "event_text exclude_sequence e = canonical_json (canonical_data exclude_sequence e)"

definition body_fingerprint :: "event_envelope \<Rightarrow> string" where
  "body_fingerprint e = sha256_hex (event_text True e)"

definition envelope_fingerprint :: "event_envelope \<Rightarrow> string" where
  "envelope_fingerprint e = sha256_hex (event_text False e)"

text \<open>\<open>EventEnvelope.__eq__\<close>.\<close>

definition event_eq :: "event_envelope \<Rightarrow> event_envelope \<Rightarrow> bool" where
  "event_eq a b = (event_text False a = event_text False b)"

section \<open>Construction\<close>

text \<open>
  \<open>new_event\<close> with the keyword arguments the model's callers pass; the fresh identifier, the wall time
  and the monotonic reading the code takes from the environment are arguments.
\<close>

record event_provenance =
  pv_adapter_id :: "string option"
  pv_session_id :: "string option"
  pv_turn_id :: "string option"
  pv_action_id :: "string option"
  pv_causation_id :: "string option"
  pv_correlation_id :: "string option"

definition no_provenance :: event_provenance where
  "no_provenance = \<lparr>pv_adapter_id = None, pv_session_id = None, pv_turn_id = None, pv_action_id = None,
     pv_causation_id = None, pv_correlation_id = None\<rparr>"

definition new_event ::
  "string \<Rightarrow> string \<Rightarrow> string \<Rightarrow> jobj \<Rightarrow> string \<Rightarrow> string \<Rightarrow> int \<Rightarrow> event_provenance \<Rightarrow> event_envelope res" where
  "new_event event_type brain_id actor_id payload event_id wall_time monotonic_ns pv =
     event_revalidated \<lparr>
       ev_schema_version = EVENT_SCHEMA_VERSION,
       ev_event_id = event_id,
       ev_event_type = event_type,
       ev_brain_id = brain_id,
       ev_sequence = None,
       ev_wall_time = wall_time,
       ev_monotonic_ns = monotonic_ns,
       ev_actor_id = actor_id,
       ev_adapter_id = pv_adapter_id pv,
       ev_session_id = pv_session_id pv,
       ev_turn_id = pv_turn_id pv,
       ev_action_id = pv_action_id pv,
       ev_causation_id = pv_causation_id pv,
       ev_correlation_id = pv_correlation_id pv,
       ev_payload = freeze_items payload\<rparr>"

section \<open>Lemmas\<close>

lemma event_revalidated_Inr [simp]: "event_revalidated e = Inr e' \<longleftrightarrow> valid_event e \<and> e' = e"
  by (auto simp: event_revalidated_def)

lemma validate_id_Inr [simp]: "validate_id v = Inr w \<longleftrightarrow> is_uuid4 v \<and> w = v"
  by (auto simp: validate_id_def)

lemma valid_event_payload: "valid_event e \<Longrightarrow> frozen (JObj (ev_payload e))"
  by (simp add: valid_event_def)

lemma valid_event_payload_get: "valid_event e \<Longrightarrow> frozen (jget (ev_payload e) k)"
  by (simp add: valid_event_payload jget_frozen del: frozen.simps)

lemma valid_event_ids:
  "valid_event e \<Longrightarrow> is_uuid4 (ev_event_id e) \<and> is_uuid4 (ev_brain_id e) \<and> is_uuid4 (ev_actor_id e)"
  by (simp add: valid_event_def)

lemma uuid4_length: "is_uuid4 v \<Longrightarrow> length v = 36"
  by (simp add: is_uuid4_def)

lemma lower_hex_not_space: "lower_hex c \<Longrightarrow> \<not> py_space c"
proof -
  assume "lower_hex c"
  then have "48 \<le> (of_char c :: int)" "(of_char c :: int) \<le> 57 \<or> 97 \<le> (of_char c :: int)"
    "(of_char c :: int) \<le> 102" by (auto simp: lower_hex_def is_hex_def Let_def)
  then show ?thesis by (auto simp: py_space_def Let_def)
qed

lemma uuid4_not_blank: "is_uuid4 v \<Longrightarrow> \<not> blank v"
proof -
  assume v: "is_uuid4 v"
  then have "v \<noteq> []" by (auto simp: is_uuid4_def)
  then obtain c s where cs: "v = c # s" by (cases v) auto
  with v have "lower_hex c" by (simp add: is_uuid4_def)
  then show ?thesis by (simp add: cs blank_Cons lower_hex_not_space)
qed

text \<open>Sequencing an event changes nothing but its sequence: the body fingerprint is stable.\<close>

lemma body_fingerprint_sequence: "body_fingerprint (e\<lparr>ev_sequence := n\<rparr>) = body_fingerprint e"
  by (simp add: body_fingerprint_def event_text_def canonical_data_def)

lemma event_text_sequence: "event_text True (e\<lparr>ev_sequence := n\<rparr>) = event_text True e"
  by (simp add: event_text_def canonical_data_def)

lemma valid_event_sequenced: "valid_event e \<Longrightarrow> 1 \<le> n \<Longrightarrow> valid_event (e\<lparr>ev_sequence := Some n\<rparr>)"
  by (simp add: valid_event_def)

lemma new_event_valid: "new_event t b a p i w m pv = Inr e \<Longrightarrow> valid_event e \<and> ev_sequence e = None"
  by (auto simp: new_event_def)

section \<open>A sample envelope\<close>

text \<open>A valid unsequenced envelope of any type and payload, used by the witnesses.\<close>

definition sample_id :: string where
  "sample_id = ''11111111-1111-4111-8111-111111111111''"

definition sample_event :: "string \<Rightarrow> jobj \<Rightarrow> event_envelope" where
  "sample_event t p = \<lparr>ev_schema_version = 1, ev_event_id = sample_id, ev_event_type = t,
     ev_brain_id = sample_id, ev_sequence = None, ev_wall_time = ''2026-01-01T00:00:00Z'',
     ev_monotonic_ns = 0, ev_actor_id = sample_id, ev_adapter_id = None, ev_session_id = None,
     ev_turn_id = None, ev_action_id = None, ev_causation_id = None, ev_correlation_id = None,
     ev_payload = p\<rparr>"

lemma sample_id_uuid [simp]: "is_uuid4 sample_id"
  by code_simp

lemma sample_event_simps [simp]:
  "ev_event_type (sample_event t p) = t" "ev_payload (sample_event t p) = p"
  "ev_event_id (sample_event t p) = sample_id" "ev_actor_id (sample_event t p) = sample_id"
  "ev_brain_id (sample_event t p) = sample_id" "ev_adapter_id (sample_event t p) = None"
  "ev_action_id (sample_event t p) = None" "ev_sequence (sample_event t p) = None"
  "ev_schema_version (sample_event t p) = 1"
  by (simp_all add: sample_event_def)

lemma sample_event_valid:
  "valid_event_type t \<Longrightarrow> frozen (JObj p) \<Longrightarrow> valid_event (sample_event t p)"
  by (simp add: valid_event_def sample_event_def EVENT_SCHEMA_VERSION_def valid_provenance_def)

end
