(* ===== verification/Capacity.thy ===== *)
theory Capacity imports Events
begin

text \<open>
  \<^verbatim>\<open>core/limits.py\<close>: the capacities of the bounded working set. Kept as constants, so that the
  bounds in the other theories read as in the code.
\<close>

definition MAX_ACTION_RECORDS :: nat where "MAX_ACTION_RECORDS = 256"
definition MAX_ENERGY_RECORDS :: nat where "MAX_ENERGY_RECORDS = 256"
definition MAX_THOUGHT_BRANCHES :: nat where "MAX_THOUGHT_BRANCHES = 256"
definition MAX_MEMORY_RECORDS :: nat where "MAX_MEMORY_RECORDS = 256"
definition MAX_COGNITION_REFLECTIONS :: nat where "MAX_COGNITION_REFLECTIONS = 128"
definition MAX_WORLD_PROPOSITIONS_PER_LAYER :: nat where "MAX_WORLD_PROPOSITIONS_PER_LAYER = 256"
definition MAX_IDENTITY_ACTORS :: nat where "MAX_IDENTITY_ACTORS = 256"
definition MAX_PROVENANCE_AUTHORIZATIONS :: nat where "MAX_PROVENANCE_AUTHORIZATIONS = 256"
definition MAX_PERSONALITY_VALUES_PER_LAYER :: nat where "MAX_PERSONALITY_VALUES_PER_LAYER = 2048"
definition MAX_RAW_LIFECYCLE_KEYS :: nat where "MAX_RAW_LIFECYCLE_KEYS = 256"
definition MAX_CAPABILITIES :: nat where "MAX_CAPABILITIES = 256"
definition MAX_WORKSPACE_BROADCAST :: nat where "MAX_WORKSPACE_BROADCAST = 64"

lemmas limits = MAX_ACTION_RECORDS_def MAX_ENERGY_RECORDS_def MAX_THOUGHT_BRANCHES_def
  MAX_MEMORY_RECORDS_def MAX_COGNITION_REFLECTIONS_def MAX_WORLD_PROPOSITIONS_PER_LAYER_def
  MAX_IDENTITY_ACTORS_def MAX_PROVENANCE_AUTHORIZATIONS_def MAX_PERSONALITY_VALUES_PER_LAYER_def
  MAX_RAW_LIFECYCLE_KEYS_def MAX_CAPABILITIES_def MAX_WORKSPACE_BROADCAST_def

lemma limits_pos [simp]:
  "0 < MAX_ACTION_RECORDS" "0 < MAX_ENERGY_RECORDS" "0 < MAX_THOUGHT_BRANCHES" "0 < MAX_MEMORY_RECORDS"
  "0 < MAX_COGNITION_REFLECTIONS" "0 < MAX_WORLD_PROPOSITIONS_PER_LAYER" "0 < MAX_IDENTITY_ACTORS"
  "0 < MAX_PROVENANCE_AUTHORIZATIONS" "0 < MAX_RAW_LIFECYCLE_KEYS" "0 < MAX_WORKSPACE_BROADCAST"
  by (simp_all add: limits)

end
