(* ===== verification/World.thy ===== *)
theory World imports Capacity
begin

text \<open>
  \<^verbatim>\<open>core/world.py\<close>: the four epistemic layers of the world model and \<open>reduce_world\<close>. An event's type
  fixes the layer it may write; the observed layer takes trusted observations and the grounded
  observations of a receipt only.
\<close>

section \<open>Data\<close>

datatype world_layer = Observed | Believed | Simulated | Ideal

record world_proposition =
  wp_proposition_id :: string
  wp_content :: jobj
  wp_layer :: world_layer
  wp_source_event_id :: string
  wp_source_actor_id :: string
  wp_action_id :: "string option"
  wp_confidence :: rat

record world_model =
  wm_observed :: "world_proposition list"
  wm_believed :: "world_proposition list"
  wm_simulated :: "world_proposition list"
  wm_ideal :: "world_proposition list"

definition valid_proposition :: "world_proposition \<Rightarrow> bool" where
  "valid_proposition p = (str_len 1 256 (wp_proposition_id p) \<and> \<not> blank (wp_proposition_id p) \<and>
     frozen (JObj (wp_content p)) \<and>
     (case wp_action_id p of None \<Rightarrow> True | Some a \<Rightarrow> str_len 1 512 a) \<and>
     is_f64 (wp_confidence p) \<and> in_range 0 1 (wp_confidence p))"

definition valid_layer :: "world_proposition list \<Rightarrow> bool" where
  "valid_layer ps = (length ps \<le> MAX_WORLD_PROPOSITIONS_PER_LAYER \<and> list_all valid_proposition ps)"

definition valid_world :: "world_model \<Rightarrow> bool" where
  "valid_world w = (valid_layer (wm_observed w) \<and> valid_layer (wm_believed w) \<and>
     valid_layer (wm_simulated w) \<and> valid_layer (wm_ideal w))"

definition world_revalidated :: "world_model \<Rightarrow> world_model res" where
  "world_revalidated w = (if valid_world w then Inr w else Inl (ValidationError ''WorldModel''))"

definition empty_world :: world_model where
  "empty_world = \<lparr>wm_observed = [], wm_believed = [], wm_simulated = [], wm_ideal = []\<rparr>"

text \<open>\<open>getattr(world, field)\<close> and \<open>model_copy(update={field: ...})\<close>.\<close>

fun world_get :: "world_layer \<Rightarrow> world_model \<Rightarrow> world_proposition list" where
  "world_get Observed w = wm_observed w"
| "world_get Believed w = wm_believed w"
| "world_get Simulated w = wm_simulated w"
| "world_get Ideal w = wm_ideal w"

fun world_set :: "world_layer \<Rightarrow> world_proposition list \<Rightarrow> world_model \<Rightarrow> world_model" where
  "world_set Observed ps w = w\<lparr>wm_observed := ps\<rparr>"
| "world_set Believed ps w = w\<lparr>wm_believed := ps\<rparr>"
| "world_set Simulated ps w = w\<lparr>wm_simulated := ps\<rparr>"
| "world_set Ideal ps w = w\<lparr>wm_ideal := ps\<rparr>"

section \<open>Operations\<close>

definition event_layer :: "string \<Rightarrow> world_layer option" where
  "event_layer t = (if t = ''observation.recorded'' then Some Observed
     else if t = ''belief.updated'' then Some Believed
     else if t = ''simulation.created'' then Some Simulated
     else if t = ''ideal.updated'' then Some Ideal else None)"

definition mk_proposition :: "world_proposition \<Rightarrow> world_proposition res" where
  "mk_proposition p = (if valid_proposition p then Inr p else Inl (ValidationError ''WorldProposition''))"

definition proposition_of ::
  "event_envelope \<Rightarrow> json \<Rightarrow> world_layer \<Rightarrow> string option \<Rightarrow> world_proposition res" where
  "proposition_of e item layer action_id = (case item of
     JObj m \<Rightarrow> rewrap ''invalid world proposition''
       (rbind (jitem m ''proposition_id'') (\<lambda>pid.
        rbind (jitem m ''content'') (\<lambda>content.
        rbind (of_option (ValidationError ''proposition_id'') (as_str pid)) (\<lambda>pid.
        rbind (of_option (PyTypeError ''payload must be a JSON object'') (as_obj content)) (\<lambda>content.
        rbind (of_option (ValidationError ''confidence'') (as_float (jget_or m ''confidence'' (JFloat 1)))) (\<lambda>c.
        mk_proposition \<lparr>wp_proposition_id = pid, wp_content = content, wp_layer = layer,
          wp_source_event_id = ev_event_id e, wp_source_actor_id = ev_actor_id e,
          wp_action_id = action_id, wp_confidence = c\<rparr>))))))
   | _ \<Rightarrow> Inl (DomainInvariantError ''world proposition must be an object''))"

definition world_upsert :: "world_proposition list \<Rightarrow> world_proposition \<Rightarrow> world_proposition list" where
  "world_upsert items p = last_n MAX_WORLD_PROPOSITIONS_PER_LAYER
     (filter (\<lambda>i. wp_proposition_id i \<noteq> wp_proposition_id p) items @ [p])"

text \<open>One round of the receipt's observation loop: items that are not grounded are skipped.\<close>

definition ground_observation ::
  "event_envelope \<Rightarrow> string list \<Rightarrow> world_proposition list \<Rightarrow> json \<Rightarrow> world_proposition list res" where
  "ground_observation e grounded observed item =
     (let pid = (case item of JObj m \<Rightarrow> as_str (jget m ''proposition_id'') | _ \<Rightarrow> None)
      in if (case pid of None \<Rightarrow> True | Some s \<Rightarrow> s \<notin> set grounded) then Inr observed
         else rbind (proposition_of e item Observed (as_str (jget (ev_payload e) ''action_id'')))
           (\<lambda>p. Inr (world_upsert observed p)))"

definition reduce_world ::
  "world_model \<Rightarrow> event_envelope \<Rightarrow> bool \<Rightarrow> string list \<Rightarrow> world_model res" where
  "reduce_world w e trusted_provenance grounded_receipt = (case event_layer (ev_event_type e) of
     Some layer \<Rightarrow>
       if layer = Observed \<and> \<not> trusted_provenance then Inr w
       else rbind (proposition_of e (JObj (ev_payload e)) layer None) (\<lambda>p.
         world_revalidated (world_set layer (world_upsert (world_get layer w) p) w))
   | None \<Rightarrow>
       if ev_event_type e = ''action.receipt'' \<and> grounded_receipt \<noteq> [] then
         (case jget_or (ev_payload e) ''observations'' (JArr []) of
            JArr items \<Rightarrow>
              rbind (rfold (ground_observation e grounded_receipt) (wm_observed w) items) (\<lambda>observed.
                world_revalidated (w\<lparr>wm_observed := observed\<rparr>))
          | _ \<Rightarrow> Inl (DomainInvariantError ''receipt observations must be an array''))
       else Inr w)"

section \<open>Lemmas\<close>

interpretation world_store: bounded_collection wp_proposition_id "put_last wp_proposition_id"
  MAX_WORLD_PROPOSITIONS_PER_LAYER world_upsert
  by (rule put_last_bounded) (simp_all add: world_upsert_def put_last_def)

lemma all_world_layer: "(\<forall>l. P l) \<longleftrightarrow> P Observed \<and> P Believed \<and> P Simulated \<and> P Ideal"
  by (metis world_layer.exhaust)

lemma world_get_set [simp]:
  "world_get l (world_set l' ps w) = (if l = l' then ps else world_get l w)"
  by (cases l; cases l') auto

lemma world_get_observed [simp]:
  "world_get l (w\<lparr>wm_observed := ps\<rparr>) = (if l = Observed then ps else world_get l w)"
  by (cases l) auto

lemma valid_world_iff: "valid_world w \<longleftrightarrow> (\<forall>l. valid_layer (world_get l w))"
  by (simp add: valid_world_def all_world_layer)

lemma world_revalidated_Inr [simp]: "world_revalidated w = Inr w' \<longleftrightarrow> valid_world w \<and> w' = w"
  by (auto simp: world_revalidated_def)

lemma valid_layer_upsert: "valid_layer ps \<Longrightarrow> valid_proposition p \<Longrightarrow> valid_layer (world_upsert ps p)"
  by (simp add: valid_layer_def world_store.bput_bound world_store.bput_pred)

lemma proposition_of_Inr:
  assumes "proposition_of e item layer a = Inr p"
  shows "valid_proposition p \<and> wp_layer p = layer \<and> wp_source_event_id p = ev_event_id e \<and>
    wp_source_actor_id p = ev_actor_id e \<and> wp_action_id p = a \<and>
    (\<exists>m. item = JObj m \<and> map_of m ''proposition_id'' = Some (JStr (wp_proposition_id p)) \<and>
      map_of m ''content'' = Some (JObj (wp_content p)))"
  using assms
  by (auto simp: proposition_of_def mk_proposition_def jitem_def res_simps as_str_Some as_obj_Some
      split: json.splits if_splits)

lemma proposition_of_Inl: "proposition_of e item layer a = Inl err \<Longrightarrow> is_domain_error err"
  by (auto simp: proposition_of_def rewrap_eq_Inl split: json.splits)

lemma ground_observation_Inr:
  assumes "ground_observation e g obs item = Inr obs'"
  shows "obs' = obs \<or> (\<exists>p m. obs' = world_upsert obs p \<and> valid_proposition p \<and> wp_layer p = Observed \<and>
    wp_proposition_id p \<in> set g \<and> wp_source_event_id p = ev_event_id e \<and> item = JObj m)"
  using assms
  by (auto simp: ground_observation_def Let_def rbind_eq_Inr jget_def jget_or_def as_str_Some
      split: if_splits option.splits json.splits dest!: proposition_of_Inr)

lemma ground_observation_Inl: "ground_observation e g obs item = Inl err \<Longrightarrow> is_domain_error err"
  by (auto simp: ground_observation_def Let_def rbind_eq_Inl proposition_of_Inl split: if_splits)

lemma rfold_ground_valid:
  "rfold (ground_observation e g) obs items = Inr obs' \<Longrightarrow> valid_layer obs \<Longrightarrow> valid_layer obs'"
  by (erule rfold_invariant) (auto dest!: ground_observation_Inr simp: valid_layer_upsert)



text \<open>What one reduction can do to each layer.\<close>

lemma reduce_world_cases:
  assumes "reduce_world w e t g = Inr w'"
  shows "w' = w \<or>
    (\<exists>l p. event_layer (ev_event_type e) = Some l \<and> (l = Observed \<longrightarrow> t) \<and>
      proposition_of e (JObj (ev_payload e)) l None = Inr p \<and> valid_world w' \<and>
      w' = world_set l (world_upsert (world_get l w) p) w) \<or>
    (\<exists>items obs. ev_event_type e = ''action.receipt'' \<and> g \<noteq> [] \<and> valid_world w' \<and>
      rfold (ground_observation e g) (wm_observed w) items = Inr obs \<and> w' = world_set Observed obs w)"
  using assms
  by (fastforce simp: reduce_world_def rbind_eq_Inr split: option.splits if_splits json.splits)

lemma reduce_world_valid: "reduce_world w e t g = Inr w' \<Longrightarrow> valid_world w \<Longrightarrow> valid_world w'"
  by (auto dest!: reduce_world_cases)

lemma valid_world_set: "valid_world w \<Longrightarrow> valid_layer ps \<Longrightarrow> valid_world (world_set l ps w)"
  by (simp add: valid_world_iff)

lemma reduce_world_errors:
  assumes "reduce_world w e t g = Inl err" "valid_world w"
  shows "is_domain_error err"
proof -
  have "world_revalidated (world_set l (world_upsert (world_get l w) p) w) \<noteq> Inl err"
    if "proposition_of e item l a = Inr p" for l p item a
    using that assms(2) proposition_of_Inr [OF that]
    by (simp add: world_revalidated_def valid_world_set valid_layer_upsert valid_world_iff)
  moreover have "world_revalidated (w\<lparr>wm_observed := obs\<rparr>) \<noteq> Inl err"
    if "rfold (ground_observation e g) (wm_observed w) items = Inr obs" for items obs
    using rfold_ground_valid [OF that] assms(2) valid_world_set [of w obs Observed]
    by (simp add: world_revalidated_def valid_world_def)
  ultimately show ?thesis using assms(1)
    by (auto simp: reduce_world_def rbind_eq_Inl proposition_of_Inl
        split: option.splits if_splits json.splits elim!: rfold_Inl dest: ground_observation_Inl)
qed

section \<open>Properties\<close>

text \<open>
  A layer of the world model is only written by the event type that owns it: if a reduction
  changes the contents of a layer, the event's type is the one mapped to that layer (and, for the
  observed layer, its provenance is trusted), or the layer is the observed one and the event is a
  receipt with grounded observations.
\<close>

theorem world_write_authority:
  assumes "reduce_world w e trusted grounded = Inr w'"
    and "world_get l w' \<noteq> world_get l w"
  shows "event_layer (ev_event_type e) = Some l \<and> (l = Observed \<longrightarrow> trusted) \<or>
    l = Observed \<and> ev_event_type e = ''action.receipt'' \<and> grounded \<noteq> []"
  using reduce_world_cases [OF assms(1)] assms(2) by (auto split: if_splits)

definition door_event :: event_envelope where
  "door_event = sample_event ''observation.recorded''
     [(''content'', JObj []), (''proposition_id'', JStr ''door'')]"

lemma reduce_door_event: "reduce_world empty_world door_event True [] =
  Inr (empty_world\<lparr>wm_observed := [\<lparr>wp_proposition_id = ''door'', wp_content = [], wp_layer = Observed,
    wp_source_event_id = sample_id, wp_source_actor_id = sample_id, wp_action_id = None,
    wp_confidence = 1\<rparr>]\<rparr>)"
  by (simp add: reduce_world_def event_layer_def door_event_def proposition_of_def jitem_def jget_or_def
      mk_proposition_def valid_proposition_def str_len_def blank_Cons py_space_def in_range_def
      world_upsert_def last_n_def empty_world_def world_revalidated_def valid_world_def valid_layer_def limits)

lemma world_write_authority_witness:
  "\<exists>w'. reduce_world empty_world door_event True [] = Inr w' \<and>
     world_get Observed w' \<noteq> world_get Observed empty_world \<and>
     event_layer (ev_event_type door_event) = Some Observed"
  using world_write_authority [OF reduce_door_event, of Observed] reduce_door_event
  by (simp add: empty_world_def door_event_def)

definition layers_separate :: "world_model \<Rightarrow> bool" where
  "layers_separate w = list_all (\<lambda>l. list_all (\<lambda>p. wp_layer p = l) (world_get l w))
     [Observed, Believed, Simulated, Ideal]"

lemma layers_separate_iff: "layers_separate w \<longleftrightarrow> (\<forall>l. \<forall>p \<in> set (world_get l w). wp_layer p = l)"
  by (simp add: layers_separate_def list_all_iff all_world_layer)

lemma rfold_ground_layer:
  "rfold (ground_observation e g) obs items = Inr obs' \<Longrightarrow>
   \<forall>p \<in> set obs. wp_layer p = Observed \<Longrightarrow> \<forall>p \<in> set obs'. wp_layer p = Observed"
  by (erule rfold_invariant)
    (auto dest!: ground_observation_Inr dest: subsetD [OF world_store.bput_set])

text \<open>
  The four layers never alias: a reduction of a world whose propositions all carry the tag of
  the layer they sit in gives such a world again, within the capacities and field constraints of
  the model.
\<close>

theorem world_layers_separate:
  assumes "reduce_world w e trusted grounded = Inr w'"
    and "valid_world w" "layers_separate w"
  shows "valid_world w' \<and> layers_separate w'"
proof -
  have sep: "\<forall>p \<in> set (world_get l w). wp_layer p = l" for l
    using assms(3) by (simp add: layers_separate_iff)
  have set_sep: "layers_separate (world_set l ps w)" if "\<forall>p \<in> set ps. wp_layer p = l" for l ps
    using that sep by (simp add: layers_separate_iff)
  have "layers_separate (world_set l (world_upsert (world_get l w) p) w)"
    if "proposition_of e item l a = Inr p" for l p item a
    using proposition_of_Inr [OF that] sep
    by (intro set_sep) (auto dest: subsetD [OF world_store.bput_set])
  moreover have "layers_separate (world_set Observed obs w)"
    if "rfold (ground_observation e grounded) (wm_observed w) items = Inr obs" for items obs
    using rfold_ground_layer [OF that] sep [of Observed] by (intro set_sep) simp
  ultimately have "layers_separate w'"
    using reduce_world_cases [OF assms(1)] assms(3) by blast
  with reduce_world_valid [OF assms(1,2)] show ?thesis by simp
qed

lemma world_layers_separate_witness:
  "\<exists>w'. reduce_world empty_world door_event True [] = Inr w' \<and> valid_world w' \<and> layers_separate w'"
proof -
  have "valid_world empty_world" "layers_separate empty_world"
    by (simp_all add: empty_world_def valid_world_def valid_layer_def layers_separate_def)
  with world_layers_separate [OF reduce_door_event] reduce_door_event show ?thesis by blast
qed

text \<open>
  Effects reach the observed layer only through linked evidence: after a receipt, every
  observed proposition was there before or has one of the grounded identifiers and cites the
  receipt event as its source.
\<close>

theorem receipt_observations_grounded:
  assumes "reduce_world w e trusted grounded = Inr w'"
    and "ev_event_type e = ''action.receipt''"
    and "p \<in> set (wm_observed w')"
  shows "p \<in> set (wm_observed w) \<or>
    wp_proposition_id p \<in> set grounded \<and> wp_source_event_id p = ev_event_id e"
proof -
  let ?P = "\<lambda>obs. \<forall>p \<in> set obs. p \<in> set (wm_observed w) \<or>
    wp_proposition_id p \<in> set grounded \<and> wp_source_event_id p = ev_event_id e"
  have R: "?P obs" if "rfold (ground_observation e grounded) (wm_observed w) items = Inr obs" for items obs
    using that
    by (rule rfold_invariant [where P = ?P])
      (auto dest!: ground_observation_Inr dest: subsetD [OF world_store.bput_set])
  have "p \<in> set (wm_observed w) \<or> (\<exists>items obs. p \<in> set obs \<and>
      rfold (ground_observation e grounded) (wm_observed w) items = Inr obs)"
    using reduce_world_cases [OF assms(1)] assms(2,3) by (auto simp: event_layer_def)
  with R show ?thesis by blast
qed

definition receipt_event :: event_envelope where
  "receipt_event = sample_event ''action.receipt''
     [(''observations'', JArr [JObj [(''content'', JObj []), (''proposition_id'', JStr ''door'')],
       JObj [(''content'', JObj []), (''proposition_id'', JStr ''wall'')]])]"

lemma receipt_observations_grounded_witness:
  "\<exists>w' p. reduce_world empty_world receipt_event True [''door''] = Inr w' \<and> p \<in> set (wm_observed w') \<and>
     (p \<in> set (wm_observed empty_world) \<or>
      wp_proposition_id p \<in> set [''door''] \<and> wp_source_event_id p = ev_event_id receipt_event)"
proof -
  define p where "p = \<lparr>wp_proposition_id = ''door'', wp_content = [], wp_layer = Observed,
    wp_source_event_id = sample_id, wp_source_actor_id = sample_id, wp_action_id = None, wp_confidence = 1\<rparr>"
  have r: "reduce_world empty_world receipt_event True [''door''] = Inr (empty_world\<lparr>wm_observed := [p]\<rparr>)"
    by (simp add: reduce_world_def event_layer_def receipt_event_def ground_observation_def proposition_of_def
        jitem_def jget_or_def jget_def mk_proposition_def valid_proposition_def str_len_def blank_Cons
        py_space_def in_range_def world_upsert_def last_n_def empty_world_def world_revalidated_def
        valid_world_def valid_layer_def limits p_def)
  have "ev_event_type receipt_event = ''action.receipt''" by (simp add: receipt_event_def)
  from receipt_observations_grounded [OF r this, of p] r show ?thesis by auto
qed

end
