(* ===== verification/Identity.thy ===== *)
theory Identity imports Capacity
begin

text \<open>
  \<^verbatim>\<open>core/identity.py\<close>: the self/other boundary. Actors, provenance authorizations, the exact-self
  validator, \<open>is_authorized\<close> and \<open>reduce_identity\<close>.
\<close>

section \<open>Data\<close>

datatype actor_kind = KSelf | KHuman | KExternalAgent | KToolAdapter | KSystem

definition actor_kind_of :: "string \<Rightarrow> actor_kind option" where
  "actor_kind_of s = map_of [(''self'', KSelf), (''human'', KHuman), (''external_agent'', KExternalAgent),
     (''tool_adapter'', KToolAdapter), (''system'', KSystem)] s"

record actor_record =
  ac_actor_id :: string
  ac_kind :: actor_kind
  ac_display_name :: "string option"
  ac_parent_actor_id :: "string option"
  ac_attributes :: jobj

record provenance_authorization =
  pa_actor_id :: string
  pa_adapter_id :: "string option"

record identity_state =
  id_self_actor_id :: string
  id_name :: "string option"
  id_actors :: "actor_record list"
  id_authorizations :: "provenance_authorization list"

definition valid_name :: "string option \<Rightarrow> bool" where
  "valid_name n = (case n of None \<Rightarrow> True | Some s \<Rightarrow> length s \<le> 160 \<and> \<not> blank s)"

definition valid_actor :: "actor_record \<Rightarrow> bool" where
  "valid_actor a = (is_uuid4 (ac_actor_id a) \<and> valid_name (ac_display_name a) \<and>
     (case ac_parent_actor_id a of None \<Rightarrow> True | Some p \<Rightarrow> is_uuid4 p) \<and>
     frozen (JObj (ac_attributes a)))"

definition valid_authorization :: "provenance_authorization \<Rightarrow> bool" where
  "valid_authorization p = (is_uuid4 (pa_actor_id p) \<and>
     (case pa_adapter_id p of None \<Rightarrow> True | Some a \<Rightarrow> str_len 1 512 a))"

text \<open>\<open>_exact_self_actor_boundary\<close>: one record at the self identifier, one of kind self, the same one.\<close>

definition self_boundary :: "identity_state \<Rightarrow> bool" where
  "self_boundary i = (let ids = filter (\<lambda>a. ac_actor_id a = id_self_actor_id i) (id_actors i);
       kinds = filter (\<lambda>a. ac_kind a = KSelf) (id_actors i)
     in length ids = 1 \<and> length kinds = 1 \<and> hd ids = hd kinds)"

definition valid_identity :: "identity_state \<Rightarrow> bool" where
  "valid_identity i = (is_uuid4 (id_self_actor_id i) \<and> valid_name (id_name i) \<and>
     list_all valid_actor (id_actors i) \<and> list_all valid_authorization (id_authorizations i) \<and>
     self_boundary i)"

definition identity_revalidated :: "identity_state \<Rightarrow> identity_state res" where
  "identity_revalidated i = (if valid_identity i then Inr i else Inl (ValidationError ''IdentityState''))"

definition identity_genesis :: "string \<Rightarrow> identity_state" where
  "identity_genesis brain_id = \<lparr>id_self_actor_id = brain_id, id_name = None,
     id_actors = [\<lparr>ac_actor_id = brain_id, ac_kind = KSelf, ac_display_name = None,
       ac_parent_actor_id = None, ac_attributes = []\<rparr>],
     id_authorizations = []\<rparr>"

section \<open>Operations\<close>

definition is_authorized :: "identity_state \<Rightarrow> string \<Rightarrow> string option \<Rightarrow> bool" where
  "is_authorized i actor_id adapter_id = (actor_id = id_self_actor_id i \<or>
     list_ex (\<lambda>p. pa_actor_id p = actor_id \<and> pa_adapter_id p = adapter_id) (id_authorizations i))"

definition replace_actor :: "actor_record list \<Rightarrow> actor_record \<Rightarrow> actor_record list" where
  "replace_actor actors a = filter (\<lambda>x. ac_actor_id x \<noteq> ac_actor_id a) actors @ [a]"

definition actor_of_payload :: "jobj \<Rightarrow> actor_record res" where
  "actor_of_payload p =
     rbind (jitem p ''actor_id'') (\<lambda>aid.
     rbind (jitem p ''kind'') (\<lambda>kind.
     rbind (of_option (PyValueError ''kind'') (Option.bind (as_str kind) actor_kind_of)) (\<lambda>kind.
     rbind (of_option (ValidationError ''actor_id'') (as_str aid)) (\<lambda>aid.
     rbind (of_option (ValidationError ''display_name'') (as_opt_str (jget p ''display_name''))) (\<lambda>name.
     rbind (of_option (ValidationError ''parent'') (as_opt_str (jget p ''parent_actor_id''))) (\<lambda>parent.
     rbind (of_option (PyTypeError ''payload'') (as_obj (jget_or p ''attributes'' (JObj [])))) (\<lambda>attrs.
       let a = \<lparr>ac_actor_id = aid, ac_kind = kind, ac_display_name = name, ac_parent_actor_id = parent,
         ac_attributes = attrs\<rparr>
       in if valid_actor a then Inr a else Inl (ValidationError ''ActorRecord''))))))))"

definition authorization_of_payload :: "jobj \<Rightarrow> provenance_authorization res" where
  "authorization_of_payload p =
     rbind (jitem p ''actor_id'') (\<lambda>aid.
     rbind (of_option (ValidationError ''actor_id'') (as_str aid)) (\<lambda>aid.
     rbind (of_option (ValidationError ''adapter_id'') (as_opt_str (jget p ''adapter_id''))) (\<lambda>adapter.
       let a = \<lparr>pa_actor_id = aid, pa_adapter_id = adapter\<rparr>
       in if valid_authorization a then Inr a else Inl (ValidationError ''ProvenanceAuthorization''))))"

definition reduce_actor_registered :: "identity_state \<Rightarrow> jobj \<Rightarrow> identity_state res" where
  "reduce_actor_registered i p =
     rbind (rewrap ''invalid actor registration'' (actor_of_payload p)) (\<lambda>a.
     if ac_actor_id a = id_self_actor_id i \<and> ac_kind a \<noteq> KSelf then
       Inl (DomainInvariantError ''the self actor kind cannot be replaced'')
     else if ac_kind a = KSelf \<and> ac_actor_id a \<noteq> id_self_actor_id i then
       Inl (DomainInvariantError ''a second self actor cannot be registered'')
     else if ac_parent_actor_id a = Some (ac_actor_id a) then
       Inl (DomainInvariantError ''an actor cannot be its own parent'')
     else if list_all (\<lambda>x. ac_actor_id x \<noteq> ac_actor_id a) (id_actors i) \<and>
         MAX_IDENTITY_ACTORS \<le> length (id_actors i) then
       Inl (DomainCapacityError ''identity actor capacity is full; registration was not applied'')
     else identity_revalidated (i\<lparr>id_actors := replace_actor (id_actors i) a\<rparr>))"

definition reduce_authorized :: "identity_state \<Rightarrow> string \<Rightarrow> jobj \<Rightarrow> identity_state res" where
  "reduce_authorized i actor_id p =
     (if actor_id \<noteq> id_self_actor_id i then
        Inl (DomainInvariantError ''only self authority can authorize trusted provenance'')
      else rbind (rewrap ''invalid provenance authorization'' (authorization_of_payload p)) (\<lambda>a.
        if a \<in> set (id_authorizations i) then Inr i
        else if MAX_PROVENANCE_AUTHORIZATIONS \<le> length (id_authorizations i) then
          Inl (DomainCapacityError ''provenance authorization capacity is full; authorization was not applied'')
        else identity_revalidated (i\<lparr>id_authorizations := id_authorizations i @ [a]\<rparr>)))"

definition reduce_identity :: "identity_state \<Rightarrow> event_envelope \<Rightarrow> identity_state res" where
  "reduce_identity i e =
     (if ev_event_type e = ''identity.named'' then
        (case jget (ev_payload e) ''name'' of
           JStr name \<Rightarrow>
             if blank name then Inl (DomainInvariantError ''identity name must be a non-blank string'')
             else identity_revalidated (i\<lparr>id_name := Some name\<rparr>)
         | _ \<Rightarrow> Inl (DomainInvariantError ''identity name must be a non-blank string''))
      else if ev_event_type e = ''identity.actor_registered'' then
        reduce_actor_registered i (ev_payload e)
      else if ev_event_type e = ''identity.provenance_authorized'' then
        reduce_authorized i (ev_actor_id e) (ev_payload e)
      else Inr i)"

section \<open>Lemmas\<close>

interpretation actor_store: keyed_collection ac_actor_id "put_last ac_actor_id"
  by (rule put_last_keyed)

lemma replace_actor_put: "replace_actor xs a = put_last ac_actor_id xs a"
  by (simp add: replace_actor_def put_last_def)

lemma identity_revalidated_Inr [simp]: "identity_revalidated i = Inr j \<longleftrightarrow> valid_identity i \<and> j = i"
  by (auto simp: identity_revalidated_def)

lemma actor_of_payload_valid: "actor_of_payload p = Inr a \<Longrightarrow> valid_actor a"
  by (auto simp: actor_of_payload_def Let_def res_simps split: if_splits)

lemma authorization_of_payload_valid: "authorization_of_payload p = Inr a \<Longrightarrow> valid_authorization a"
  by (auto simp: authorization_of_payload_def Let_def res_simps split: if_splits)

text \<open>Replacing an actor keeps the boundary when its kind matches its identifier.\<close>

lemma self_boundary_replace:
  assumes "self_boundary i" "ac_kind a = KSelf \<longleftrightarrow> ac_actor_id a = id_self_actor_id i"
  shows "self_boundary (i\<lparr>id_actors := replace_actor (id_actors i) a\<rparr>)"
proof -
  let ?ids = "filter (\<lambda>x. ac_actor_id x = id_self_actor_id i) (id_actors i)"
  let ?kinds = "filter (\<lambda>x. ac_kind x = KSelf) (id_actors i)"
  obtain s where s: "?ids = [s]" "?kinds = [s]"
    using assms(1) by (auto simp: self_boundary_def Let_def length_Suc_conv)
  have "{x \<in> set (id_actors i). ac_actor_id x = id_self_actor_id i} = {s}"
    "{x \<in> set (id_actors i). ac_kind x = KSelf} = {s}"
    using s [THEN arg_cong [where f = set]] by auto
  then have keep: "x \<in> set (id_actors i) \<Longrightarrow> ac_actor_id x = id_self_actor_id i \<longleftrightarrow> ac_kind x = KSelf" for x
    by blast
  have same: "filter (\<lambda>x. ac_kind x = KSelf \<and> ac_actor_id x \<noteq> ac_actor_id a) (id_actors i) =
    filter (\<lambda>x. ac_actor_id x = id_self_actor_id i \<and> ac_actor_id x \<noteq> ac_actor_id a) (id_actors i)"
    using keep by (intro filter_cong) auto
  show ?thesis
  proof (cases "ac_kind a = KSelf")
    case True
    with assms(2) same show ?thesis
      by (auto simp: self_boundary_def Let_def replace_actor_def conj_commute)
  next
    case False
    have "filter (\<lambda>x. ac_actor_id x = id_self_actor_id i \<and> ac_actor_id x \<noteq> ac_actor_id a) (id_actors i) = ?ids"
      using False assms(2) by (intro filter_cong) auto
    with False assms(2) same s show ?thesis
      by (simp add: self_boundary_def Let_def replace_actor_def conj_commute)
  qed
qed

lemma valid_identity_replace:
  assumes "valid_identity i" "valid_actor a" "ac_kind a = KSelf \<longleftrightarrow> ac_actor_id a = id_self_actor_id i"
  shows "valid_identity (i\<lparr>id_actors := replace_actor (id_actors i) a\<rparr>)"
  using assms self_boundary_replace [of i a]
  by (simp add: valid_identity_def replace_actor_put actor_store.put_pred)

lemma valid_identity_authorize:
  "valid_identity i \<Longrightarrow> valid_authorization a \<Longrightarrow>
   valid_identity (i\<lparr>id_authorizations := id_authorizations i @ [a]\<rparr>)"
  by (simp add: valid_identity_def self_boundary_def)

lemma reduce_actor_registered_Inr:
  assumes "reduce_actor_registered i p = Inr j"
  shows "\<exists>a. valid_actor a \<and> (ac_kind a = KSelf \<longleftrightarrow> ac_actor_id a = id_self_actor_id i) \<and>
    actor_of_payload p = Inr a \<and> ac_parent_actor_id a \<noteq> Some (ac_actor_id a) \<and>
    (ac_actor_id a \<in> ac_actor_id ` set (id_actors i) \<or> length (id_actors i) < MAX_IDENTITY_ACTORS) \<and>
    j = i\<lparr>id_actors := replace_actor (id_actors i) a\<rparr>"
proof -
  from assms obtain a where a: "actor_of_payload p = Inr a"
    "\<not> (ac_actor_id a = id_self_actor_id i \<and> ac_kind a \<noteq> KSelf)"
    "\<not> (ac_kind a = KSelf \<and> ac_actor_id a \<noteq> id_self_actor_id i)"
    "ac_parent_actor_id a \<noteq> Some (ac_actor_id a)"
    "\<not> (list_all (\<lambda>x. ac_actor_id x \<noteq> ac_actor_id a) (id_actors i) \<and>
      MAX_IDENTITY_ACTORS \<le> length (id_actors i))"
    "j = i\<lparr>id_actors := replace_actor (id_actors i) a\<rparr>"
    unfolding reduce_actor_registered_def res_simps identity_revalidated_Inr by blast
  have "ac_actor_id a \<in> ac_actor_id ` set (id_actors i) \<or> length (id_actors i) < MAX_IDENTITY_ACTORS"
    using a(5) by (simp add: list_all_iff image_iff not_le de_Morgan_conj) metis
  with a actor_of_payload_valid [OF a(1)] show ?thesis by blast
qed

lemma reduce_actor_registered_Inl:
  assumes "reduce_actor_registered i p = Inl err" "valid_identity i"
  shows "is_domain_error err"
proof (cases "rewrap ''invalid actor registration'' (actor_of_payload p)")
  case (Inl e)
  with assms(1) show ?thesis by (auto simp: reduce_actor_registered_def rewrap_eq_Inl)
next
  case (Inr a)
  then have v: "valid_actor a" by (auto simp: rewrap_eq_Inr dest: actor_of_payload_valid)
  show ?thesis
  proof (cases "ac_kind a = KSelf \<longleftrightarrow> ac_actor_id a = id_self_actor_id i")
    case True
    with valid_identity_replace [OF assms(2) v] assms(1) Inr show ?thesis
      by (auto simp: reduce_actor_registered_def identity_revalidated_def res_simps)
  next
    case False
    with assms(1) Inr show ?thesis
      by (auto simp: reduce_actor_registered_def res_simps)
  qed
qed

lemma reduce_authorized_Inr:
  assumes "reduce_authorized i actor p = Inr j"
  shows "actor = id_self_actor_id i \<and> (j = i \<or> (\<exists>a. valid_authorization a \<and>
    authorization_of_payload p = Inr a \<and> length (id_authorizations i) < MAX_PROVENANCE_AUTHORIZATIONS \<and>
    j = i\<lparr>id_authorizations := id_authorizations i @ [a]\<rparr>))"
  using assms
  by (auto simp: reduce_authorized_def res_simps not_le split: if_splits dest: authorization_of_payload_valid)

lemma reduce_authorized_Inl:
  assumes "reduce_authorized i actor p = Inl err" "valid_identity i"
  shows "is_domain_error err"
proof (cases "rewrap ''invalid provenance authorization'' (authorization_of_payload p)")
  case (Inl e)
  with assms(1) show ?thesis by (auto simp: reduce_authorized_def rewrap_eq_Inl split: if_splits)
next
  case (Inr a)
  then have "valid_authorization a" by (auto simp: rewrap_eq_Inr dest: authorization_of_payload_valid)
  with valid_identity_authorize [OF assms(2), of a] assms(1) Inr show ?thesis
    by (auto simp: reduce_authorized_def identity_revalidated_def split: if_splits)
qed

lemma reduce_identity_cases:
  assumes "reduce_identity i e = Inr j"
  shows "j = i \<or>
    (\<exists>n. ev_event_type e = ''identity.named'' \<and> jget (ev_payload e) ''name'' = JStr n \<and>
      valid_identity j \<and> j = i\<lparr>id_name := Some n\<rparr>) \<or>
    (ev_event_type e = ''identity.actor_registered'' \<and> reduce_actor_registered i (ev_payload e) = Inr j) \<or>
    (ev_event_type e = ''identity.provenance_authorized'' \<and>
      reduce_authorized i (ev_actor_id e) (ev_payload e) = Inr j)"
  using assms by (auto simp: reduce_identity_def split: if_splits json.splits)

lemma reduce_identity_valid:
  "reduce_identity i e = Inr j \<Longrightarrow> valid_identity i \<Longrightarrow> valid_identity j"
  by (auto dest!: reduce_identity_cases reduce_actor_registered_Inr reduce_authorized_Inr
      intro: valid_identity_replace valid_identity_authorize)

lemma reduce_identity_self: "reduce_identity i e = Inr j \<Longrightarrow> id_self_actor_id j = id_self_actor_id i"
  by (auto dest!: reduce_identity_cases reduce_actor_registered_Inr reduce_authorized_Inr)

lemma reduce_identity_name:
  assumes "reduce_identity i e = Inr j"
  shows "id_name j = (if ev_event_type e = ''identity.named''
    then as_str (jget (ev_payload e) ''name'') else id_name i)"
  using assms
  by (auto simp: reduce_identity_def split: if_splits json.splits
      dest!: reduce_actor_registered_Inr reduce_authorized_Inr)

text \<open>
  A registered or named identity that passes the domain checks passes the validators too: the only
  failure outside the domain errors is a name longer than 160 characters, which the domain check of
  \<open>identity.named\<close> does not look at and the model validator refuses.
\<close>

lemma reduce_identity_errors:
  assumes "reduce_identity i e = Inl err" "valid_identity i"
  shows "is_domain_error err \<or> ev_event_type e = ''identity.named'' \<and>
    (\<exists>n. jget (ev_payload e) ''name'' = JStr n \<and> 160 < length n) \<and> err = ValidationError ''IdentityState''"
proof -
  have "valid_identity (i\<lparr>id_name := Some n\<rparr>)" if "\<not> blank n" "length n \<le> 160" for n
    using that assms(2) by (simp add: valid_identity_def self_boundary_def valid_name_def)
  with assms show ?thesis
    by (fastforce simp: reduce_identity_def identity_revalidated_def not_le
        split: if_splits json.splits dest: reduce_actor_registered_Inl reduce_authorized_Inl)
qed

lemma reduce_identity_lengths:
  assumes "reduce_identity i e = Inr j"
    and "length (id_actors i) \<le> MAX_IDENTITY_ACTORS"
    and "length (id_authorizations i) \<le> MAX_PROVENANCE_AUTHORIZATIONS"
    and "distinct (map ac_actor_id (id_actors i))"
  shows "length (id_actors i) \<le> length (id_actors j) \<and> length (id_actors j) \<le> Suc (length (id_actors i)) \<and>
    length (id_actors j) \<le> MAX_IDENTITY_ACTORS \<and>
    length (id_authorizations i) \<le> length (id_authorizations j) \<and>
    length (id_authorizations j) \<le> Suc (length (id_authorizations i)) \<and>
    length (id_authorizations j) \<le> MAX_PROVENANCE_AUTHORIZATIONS \<and>
    distinct (map ac_actor_id (id_actors j))"
proof -
  consider "id_actors j = id_actors i" "id_authorizations j = id_authorizations i"
    | a where "id_actors j = replace_actor (id_actors i) a" "id_authorizations j = id_authorizations i"
        "ac_actor_id a \<in> ac_actor_id ` set (id_actors i) \<or> length (id_actors i) < MAX_IDENTITY_ACTORS"
    | a where "id_actors j = id_actors i" "id_authorizations j = id_authorizations i @ [a]"
        "length (id_authorizations i) < MAX_PROVENANCE_AUTHORIZATIONS"
    using reduce_identity_cases [OF assms(1)]
    by (auto dest!: reduce_actor_registered_Inr reduce_authorized_Inr)
  then show ?thesis
  proof cases
    case 2
    with assms show ?thesis
      by (auto simp: replace_actor_put actor_store.put_length actor_store.put_distinct)
  qed (use assms in auto)
qed

section \<open>Properties\<close>

text \<open>
  C7. The self boundary cannot be crossed: no accepted identity event changes the self identifier,
  the result has exactly one actor at it and exactly one actor of kind self, and they are the same
  record; every other failure than an over-long name is a domain error, so the validators behind the
  domain checks never fire.
\<close>

theorem identity_boundary_preserved:
  assumes "valid_identity i"
  shows "case reduce_identity i e of
      Inr j \<Rightarrow> valid_identity j \<and> self_boundary j \<and> id_self_actor_id j = id_self_actor_id i
    | Inl err \<Rightarrow> is_domain_error err \<or> ev_event_type e = ''identity.named'' \<and>
        (\<exists>n. jget (ev_payload e) ''name'' = JStr n \<and> 160 < length n)"
proof (cases "reduce_identity i e")
  case (Inl err)
  with reduce_identity_errors [OF Inl assms] show ?thesis by auto
next
  case (Inr j)
  with reduce_identity_valid [OF Inr assms] reduce_identity_self [OF Inr] show ?thesis
    by (simp add: valid_identity_def)
qed

lemma valid_identity_genesis: "is_uuid4 b \<Longrightarrow> valid_identity (identity_genesis b)"
  by (simp add: valid_identity_def identity_genesis_def valid_name_def valid_actor_def self_boundary_def)

definition second_self_event :: event_envelope where
  "second_self_event = sample_event ''identity.actor_registered''
     [(''actor_id'', JStr ''22222222-2222-4222-8222-222222222222''), (''kind'', JStr ''self'')]"

lemma identity_boundary_preserved_witness:
  "valid_identity (identity_genesis sample_id) \<and>
   (case reduce_identity (identity_genesis sample_id) second_self_event of
      Inr j \<Rightarrow> valid_identity j \<and> self_boundary j \<and>
        id_self_actor_id j = id_self_actor_id (identity_genesis sample_id)
    | Inl err \<Rightarrow> is_domain_error err \<or> ev_event_type second_self_event = ''identity.named'' \<and>
        (\<exists>n. jget (ev_payload second_self_event) ''name'' = JStr n \<and> 160 < length n))"
  using identity_boundary_preserved [OF valid_identity_genesis [OF sample_id_uuid], of second_self_event]
    valid_identity_genesis [OF sample_id_uuid] by blast

text \<open>
  Trust is only ever granted by the self actor: if an actor and adapter are authorized after an
  identity event and were not before, the event is an authorization issued by the self actor that
  names exactly this pair.
\<close>

theorem authorization_only_by_self:
  assumes "reduce_identity i e = Inr j"
    and "is_authorized j actor adapter" "\<not> is_authorized i actor adapter"
  shows "ev_event_type e = ''identity.provenance_authorized'' \<and> ev_actor_id e = id_self_actor_id i \<and>
    authorization_of_payload (ev_payload e) = Inr \<lparr>pa_actor_id = actor, pa_adapter_id = adapter\<rparr>"
  using reduce_identity_cases [OF assms(1)] assms(2,3)
  by (auto simp: is_authorized_def dest!: reduce_actor_registered_Inr reduce_authorized_Inr)

definition grant_event :: event_envelope where
  "grant_event = sample_event ''identity.provenance_authorized''
     [(''actor_id'', JStr ''22222222-2222-4222-8222-222222222222''), (''adapter_id'', JStr ''hermes'')]"

lemma authorization_only_by_self_witness:
  "\<exists>j. reduce_identity (identity_genesis sample_id) grant_event = Inr j \<and>
     is_authorized j ''22222222-2222-4222-8222-222222222222'' (Some ''hermes'') \<and>
     \<not> is_authorized (identity_genesis sample_id) ''22222222-2222-4222-8222-222222222222'' (Some ''hermes'') \<and>
     ev_actor_id grant_event = id_self_actor_id (identity_genesis sample_id)"
proof -
  let ?a = "\<lparr>pa_actor_id = ''22222222-2222-4222-8222-222222222222'', pa_adapter_id = Some ''hermes''\<rparr>"
  let ?i = "identity_genesis sample_id"
  have u: "is_uuid4 ''22222222-2222-4222-8222-222222222222''" by code_simp
  have v: "valid_authorization ?a" by (simp add: valid_authorization_def u str_len_def)
  have "reduce_identity ?i grant_event = identity_revalidated (?i\<lparr>id_authorizations := [?a]\<rparr>)"
    by (simp add: reduce_identity_def reduce_authorized_def grant_event_def authorization_of_payload_def
        jitem_def jget_def jget_or_def v identity_genesis_def MAX_PROVENANCE_AUTHORIZATIONS_def)
  then have r: "reduce_identity ?i grant_event = Inr (?i\<lparr>id_authorizations := [?a]\<rparr>)"
    using valid_identity_authorize [OF valid_identity_genesis [OF sample_id_uuid] v]
    by (simp add: identity_revalidated_def identity_genesis_def)
  have "is_authorized (?i\<lparr>id_authorizations := [?a]\<rparr>) (pa_actor_id ?a) (Some ''hermes'')"
    "\<not> is_authorized ?i (pa_actor_id ?a) (Some ''hermes'')"
    by (simp_all add: is_authorized_def identity_genesis_def sample_id_def)
  with authorization_only_by_self [OF r, of "pa_actor_id ?a" "Some ''hermes''"] r show ?thesis by auto
qed

end
