(* ===== verification/Personality.thy ===== *)
theory Personality imports Capacity
begin

text \<open>
  \<^verbatim>\<open>core/personality.py\<close>, the PC part: the three personality layers, the token bucket that limits how
  fast each of them may change over logical time, \<open>advance_personality_clock\<close> and
  \<open>reduce_personality\<close>. Bucket levels are floats; costs are exact decimals, as in the code.
\<close>

section \<open>Token buckets\<close>

text \<open>
  The interface a revision relies on: refilling to a later clock never loses tokens and stays within
  the capacity, spending what is there succeeds and spending more is refused.
\<close>

locale token_bucket =
  fixes ok :: "'b \<Rightarrow> bool"
    and clock :: "'b \<Rightarrow> rat"
    and tokens :: "'b \<Rightarrow> rat"
    and limit :: "'b \<Rightarrow> rat"
    and advance :: "'b \<Rightarrow> rat \<Rightarrow> 'b res"
    and consume :: "'b \<Rightarrow> rat \<Rightarrow> 'b res"
  assumes tokens_limit: "ok b \<Longrightarrow> 0 \<le> tokens b \<and> tokens b \<le> limit b"
    and advance_ok: "ok b \<Longrightarrow> is_f64 t \<Longrightarrow> clock b \<le> t \<Longrightarrow>
      \<exists>b'. advance b t = Inr b' \<and> ok b' \<and> clock b' = t \<and> tokens b \<le> tokens b' \<and> limit b' = limit b"
    and consume_ok: "ok b \<Longrightarrow> 0 \<le> a \<Longrightarrow> a \<le> tokens b \<Longrightarrow>
      \<exists>b'. consume b a = Inr b' \<and> ok b' \<and> clock b' = clock b \<and> tokens b' \<le> tokens b \<and> limit b' = limit b"
    and consume_refused: "ok b \<Longrightarrow> tokens b < a \<Longrightarrow> \<exists>m. consume b a = Inl (DomainInvariantError m)"
begin

lemma consume_Inr:
  "ok b \<Longrightarrow> 0 \<le> a \<Longrightarrow> consume b a = Inr b' \<Longrightarrow>
   a \<le> tokens b \<and> ok b' \<and> clock b' = clock b \<and> tokens b' \<le> tokens b \<and> limit b' = limit b"
  using consume_ok [of b a] consume_refused [of b a] by (cases "a \<le> tokens b") auto

lemma spend_bounded:
  assumes "ok b" "is_f64 t" "clock b \<le> t" "0 \<le> a" "rbind (advance b t) (\<lambda>b. consume b a) = Inr b'"
  shows "a \<le> limit b \<and> ok b' \<and> clock b' = t \<and> limit b' = limit b"
proof -
  obtain c where c: "advance b t = Inr c" "ok c" "clock c = t" "limit c = limit b"
    using advance_ok [OF assms(1-3)] by blast
  with assms(5) have "consume c a = Inr b'" by simp
  from consume_Inr [OF c(2) assms(4) this] tokens_limit [OF c(2)] c show ?thesis by auto
qed

lemma spend_errors:
  assumes "ok b" "is_f64 t" "clock b \<le> t" "0 \<le> a" "rbind (advance b t) (\<lambda>b. consume b a) = Inl e"
  shows "is_domain_error e"
proof -
  obtain c where c: "advance b t = Inr c" "ok c" using advance_ok [OF assms(1-3)] by blast
  with assms(5) have e: "consume c a = Inl e" by simp
  show ?thesis
    using consume_ok [OF c(2) assms(4)] consume_refused [OF c(2), of a] e by (cases "a \<le> tokens c") auto
qed

end

record layer_rate_state =
  lr_logical_clock :: rat
  lr_available :: rat
  lr_capacity :: rat
  lr_refill_rate :: rat

definition valid_rate :: "layer_rate_state \<Rightarrow> bool" where
  "valid_rate r = (is_f64 (lr_logical_clock r) \<and> is_f64 (lr_available r) \<and> is_f64 (lr_capacity r) \<and>
     is_f64 (lr_refill_rate r) \<and> 0 \<le> lr_logical_clock r \<and> 0 \<le> lr_available r \<and> 0 < lr_capacity r \<and>
     0 < lr_refill_rate r \<and> lr_available r \<le> lr_capacity r)"

definition rate_revalidated :: "layer_rate_state \<Rightarrow> layer_rate_state res" where
  "rate_revalidated r = (if valid_rate r then Inr r else Inl (ValidationError ''LayerRateState''))"

definition advanced_to :: "layer_rate_state \<Rightarrow> rat \<Rightarrow> layer_rate_state res" where
  "advanced_to r target =
     (if target < lr_logical_clock r then
        Inl (DomainInvariantError ''personality rate logical clock cannot move backwards'')
      else
        let elapsed = dec_of target - dec_of (lr_logical_clock r);
            available = min (dec_of (lr_capacity r))
              (dec_of (lr_available r) + elapsed * dec_of (lr_refill_rate r))
        in rbind (of_option PyOverflowError (rnd64 available)) (\<lambda>av.
             rate_revalidated (r\<lparr>lr_logical_clock := target, lr_available := av\<rparr>)))"

definition consumed :: "layer_rate_state \<Rightarrow> rat \<Rightarrow> layer_rate_state res" where
  "consumed r amount =
     (if amount < 0 then Inl (DomainInvariantError ''personality rate cost must be finite'')
      else if dec_of (lr_available r) < amount then
        Inl (DomainInvariantError ''personality revision exceeds bounded rate cumulative layer budget'')
      else rbind (of_option PyOverflowError (rnd64 (dec_of (lr_available r) - amount))) (\<lambda>av.
        rate_revalidated (r\<lparr>lr_available := av\<rparr>)))"

lemma rate_revalidated_Inr [simp]: "rate_revalidated r = Inr r' \<longleftrightarrow> valid_rate r \<and> r' = r"
  by (auto simp: rate_revalidated_def)

lemma advanced_to_ok:
  assumes "valid_rate r" "is_f64 t" "lr_logical_clock r \<le> t"
  shows "\<exists>av. advanced_to r t = Inr (r\<lparr>lr_logical_clock := t, lr_available := av\<rparr>) \<and>
    valid_rate (r\<lparr>lr_logical_clock := t, lr_available := av\<rparr>) \<and> lr_available r \<le> av"
proof -
  from assms(1) have v: "is_f64 (lr_logical_clock r)" "is_f64 (lr_available r)" "is_f64 (lr_capacity r)"
    "is_f64 (lr_refill_rate r)" "0 \<le> lr_refill_rate r" "lr_available r \<le> lr_capacity r"
    by (auto simp: valid_rate_def)
  define el where "el = dec_of t - dec_of (lr_logical_clock r)"
  have "0 \<le> el" using dec_of_mono [OF v(1) assms(2,3)] by (simp add: el_def)
  moreover have "0 \<le> dec_of (lr_refill_rate r)" using v by (simp add: dec_of_nonneg)
  ultimately have "dec_of (lr_available r) \<le> dec_of (lr_available r) + el * dec_of (lr_refill_rate r)"
    by simp
  moreover have "dec_of (lr_available r) \<le> dec_of (lr_capacity r)" using v by (simp add: dec_of_mono)
  ultimately obtain av where av: "rnd64 (min (dec_of (lr_capacity r))
      (dec_of (lr_available r) + el * dec_of (lr_refill_rate r))) = Some av"
    "lr_available r \<le> av" "av \<le> lr_capacity r" "is_f64 av"
    using rnd64_sandwich [OF rnd64_dec_of rnd64_dec_of, OF v(2,3)] by (metis min.bounded_iff min.cobounded1)
  have "valid_rate (r\<lparr>lr_logical_clock := t, lr_available := av\<rparr>)"
    using av assms by (simp add: valid_rate_def)
  with av assms(3) show ?thesis
    by (intro exI [of _ av]) (simp add: advanced_to_def Let_def el_def [symmetric])
qed

lemma consumed_ok:
  assumes "valid_rate r" "0 \<le> a" "a \<le> dec_of (lr_available r)"
  shows "\<exists>av. consumed r a = Inr (r\<lparr>lr_available := av\<rparr>) \<and> valid_rate (r\<lparr>lr_available := av\<rparr>) \<and>
    av \<le> lr_available r"
proof -
  from assms(1) have v: "is_f64 (lr_available r)" by (simp add: valid_rate_def)
  have zero: "rnd64 0 = Some 0" using f64_numerals(1) by (simp add: is_f64_def)
  obtain av where av: "rnd64 (dec_of (lr_available r) - a) = Some av" "0 \<le> av" "av \<le> lr_available r"
    "is_f64 av"
    using rnd64_sandwich [OF zero rnd64_dec_of [OF v], of "dec_of (lr_available r) - a"] assms(2,3)
    by auto
  have "valid_rate (r\<lparr>lr_available := av\<rparr>)" using av assms(1) by (simp add: valid_rate_def)
  with av assms(2,3) show ?thesis by (intro exI [of _ av]) (simp add: consumed_def)
qed

interpretation rate_bucket: token_bucket valid_rate lr_logical_clock "\<lambda>r. dec_of (lr_available r)"
  "\<lambda>r. dec_of (lr_capacity r)" advanced_to consumed
proof unfold_locales
  fix b :: layer_rate_state and t a
  show "valid_rate b \<Longrightarrow> 0 \<le> dec_of (lr_available b) \<and> dec_of (lr_available b) \<le> dec_of (lr_capacity b)"
    by (auto simp: valid_rate_def dec_of_nonneg dec_of_mono)
  show "valid_rate b \<Longrightarrow> is_f64 t \<Longrightarrow> lr_logical_clock b \<le> t \<Longrightarrow>
    \<exists>b'. advanced_to b t = Inr b' \<and> valid_rate b' \<and> lr_logical_clock b' = t \<and>
      dec_of (lr_available b) \<le> dec_of (lr_available b') \<and> dec_of (lr_capacity b') = dec_of (lr_capacity b)"
    using advanced_to_ok [of b t] by (auto simp: valid_rate_def intro!: dec_of_mono)
  show "valid_rate b \<Longrightarrow> 0 \<le> a \<Longrightarrow> a \<le> dec_of (lr_available b) \<Longrightarrow>
    \<exists>b'. consumed b a = Inr b' \<and> valid_rate b' \<and> lr_logical_clock b' = lr_logical_clock b \<and>
      dec_of (lr_available b') \<le> dec_of (lr_available b) \<and> dec_of (lr_capacity b') = dec_of (lr_capacity b)"
    using consumed_ok [of b a] by (auto simp: valid_rate_def intro!: dec_of_mono)
  show "valid_rate b \<Longrightarrow> dec_of (lr_available b) < a \<Longrightarrow> \<exists>m. consumed b a = Inl (DomainInvariantError m)"
    using dec_of_nonneg [of "lr_available b"] by (auto simp: consumed_def valid_rate_def)
qed

section \<open>The three layers\<close>

datatype pc_layer = Traits | Adaptations | NarrativeIdeal

definition pc_layer_of :: "string \<Rightarrow> pc_layer option" where
  "pc_layer_of s = map_of [(''traits'', Traits), (''adaptations'', Adaptations),
     (''narrative_ideal'', NarrativeIdeal)] s"

fun pc_layer_name :: "pc_layer \<Rightarrow> string" where
  "pc_layer_name Traits = ''traits''"
| "pc_layer_name Adaptations = ''adaptations''"
| "pc_layer_name NarrativeIdeal = ''narrative_ideal''"

text \<open>\<open>_RATE_POLICIES\<close>: capacity and refill per logical second, as the binary64 literals they are.\<close>

fun rate_policy :: "pc_layer \<Rightarrow> rat \<times> rat" where
  "rate_policy Traits = (rndq (1 / 20), rndq (1 / 20))"
| "rate_policy Adaptations = (rndq (1 / 5), rndq (1 / 5))"
| "rate_policy NarrativeIdeal = (rndq (1 / 10), rndq (1 / 10))"

definition new_layer_rate_state :: "pc_layer \<Rightarrow> layer_rate_state" where
  "new_layer_rate_state l = \<lparr>lr_logical_clock = 0, lr_available = fst (rate_policy l),
     lr_capacity = fst (rate_policy l), lr_refill_rate = snd (rate_policy l)\<rparr>"

record personality_rate_state =
  pr_traits :: layer_rate_state
  pr_adaptations :: layer_rate_state
  pr_narrative_ideal :: layer_rate_state

record personality_control =
  pc_traits :: jobj
  pc_adaptations :: jobj
  pc_narrative_ideal :: jobj
  pc_rate_state :: personality_rate_state

fun rate_get :: "pc_layer \<Rightarrow> personality_rate_state \<Rightarrow> layer_rate_state" where
  "rate_get Traits s = pr_traits s"
| "rate_get Adaptations s = pr_adaptations s"
| "rate_get NarrativeIdeal s = pr_narrative_ideal s"

fun rate_set :: "pc_layer \<Rightarrow> layer_rate_state \<Rightarrow> personality_rate_state \<Rightarrow> personality_rate_state" where
  "rate_set Traits r s = s\<lparr>pr_traits := r\<rparr>"
| "rate_set Adaptations r s = s\<lparr>pr_adaptations := r\<rparr>"
| "rate_set NarrativeIdeal r s = s\<lparr>pr_narrative_ideal := r\<rparr>"

fun pc_get :: "pc_layer \<Rightarrow> personality_control \<Rightarrow> jobj" where
  "pc_get Traits p = pc_traits p"
| "pc_get Adaptations p = pc_adaptations p"
| "pc_get NarrativeIdeal p = pc_narrative_ideal p"

fun pc_set :: "pc_layer \<Rightarrow> jobj \<Rightarrow> personality_control \<Rightarrow> personality_control" where
  "pc_set Traits m p = p\<lparr>pc_traits := m\<rparr>"
| "pc_set Adaptations m p = p\<lparr>pc_adaptations := m\<rparr>"
| "pc_set NarrativeIdeal m p = p\<lparr>pc_narrative_ideal := m\<rparr>"

definition pc_layers :: "pc_layer list" where
  "pc_layers = [Traits, Adaptations, NarrativeIdeal]"

text \<open>\<open>_validate_numeric_map\<close>.\<close>

definition valid_numeric_map :: "rat \<Rightarrow> rat \<Rightarrow> jobj \<Rightarrow> bool" where
  "valid_numeric_map lo hi m = (frozen (JObj m) \<and> list_all (\<lambda>(k, v). \<not> blank k \<and>
     (case as_float v of None \<Rightarrow> False | Some q \<Rightarrow> in_range lo hi q)) m)"

definition valid_rates :: "personality_rate_state \<Rightarrow> bool" where
  "valid_rates s = list_all (\<lambda>l. valid_rate (rate_get l s) \<and>
     (lr_capacity (rate_get l s), lr_refill_rate (rate_get l s)) = rate_policy l) pc_layers"

definition valid_personality :: "personality_control \<Rightarrow> bool" where
  "valid_personality p = (list_all (\<lambda>l. valid_numeric_map (-1) 1 (pc_get l p)) pc_layers \<and>
     valid_rates (pc_rate_state p))"

definition personality_revalidated :: "personality_control \<Rightarrow> personality_control res" where
  "personality_revalidated p =
     (if valid_personality p then Inr p else Inl (ValidationError ''PersonalityControl''))"

definition personality_default :: personality_control where
  "personality_default = \<lparr>pc_traits = [], pc_adaptations = [], pc_narrative_ideal = [],
     pc_rate_state = \<lparr>pr_traits = new_layer_rate_state Traits,
       pr_adaptations = new_layer_rate_state Adaptations,
       pr_narrative_ideal = new_layer_rate_state NarrativeIdeal\<rparr>\<rparr>"

section \<open>Operations\<close>

definition rates_advanced_to :: "personality_rate_state \<Rightarrow> rat \<Rightarrow> personality_rate_state res" where
  "rates_advanced_to s c =
     rbind (advanced_to (pr_traits s) c) (\<lambda>t.
     rbind (advanced_to (pr_adaptations s) c) (\<lambda>a.
     rbind (advanced_to (pr_narrative_ideal s) c) (\<lambda>n.
       let s' = \<lparr>pr_traits = t, pr_adaptations = a, pr_narrative_ideal = n\<rparr>
       in if valid_rates s' then Inr s' else Inl (ValidationError ''PersonalityRateState''))))"

text \<open>\<open>except DomainInvariantError: raise; except Exception: raise DomainInvariantError(...)\<close>.\<close>

definition keep_domain :: "string \<Rightarrow> 'a res \<Rightarrow> 'a res" where
  "keep_domain msg m = (case m of
     Inl e \<Rightarrow> Inl (if is_domain_error e then e else DomainInvariantError msg) | Inr x \<Rightarrow> Inr x)"

definition advance_personality_clock :: "personality_control \<Rightarrow> rat \<Rightarrow> personality_control res" where
  "advance_personality_clock p c = keep_domain ''invalid personality rate state''
     (rbind (rates_advanced_to (pc_rate_state p) c) (\<lambda>s.
        personality_revalidated (p\<lparr>pc_rate_state := s\<rparr>)))"

text \<open>\<open>Decimal(str(v))\<close> of a JSON number.\<close>

fun decimal_of :: "json \<Rightarrow> rat" where
  "decimal_of (JInt i) = of_int i"
| "decimal_of (JFloat q) = dec_of q"
| "decimal_of _ = 0"

text \<open>One round of the loop over \<open>updates\<close>: the change of this key and the merged layer so far.\<close>

definition revise_value :: "jobj \<Rightarrow> rat \<times> jobj \<Rightarrow> string \<times> json \<Rightarrow> (rat \<times> jobj) res" where
  "revise_value current acc upd = (case (acc, upd) of ((cost, merged), (key, raw)) \<Rightarrow>
     (case json_number raw of
        None \<Rightarrow> Inl (DomainInvariantError ''personality values must be numeric'')
      | Some _ \<Rightarrow>
          rbind (of_option (DomainInvariantError ''personality values must be finite'') (as_float raw)) (\<lambda>value.
          if \<not> in_range (-1) 1 value then
            Inl (DomainInvariantError ''personality values must be in [-1.0, 1.0]'')
          else Inr (cost + \<bar>decimal_of raw - decimal_of (jget_or current key (JFloat 0))\<bar>,
            jput key (JFloat value) merged))))"

definition merged_size :: "jobj \<Rightarrow> jobj \<Rightarrow> nat" where
  "merged_size current updates = card (fst ` set current \<union> fst ` set updates)"

definition reduce_personality ::
  "personality_control \<Rightarrow> event_envelope \<Rightarrow> rat \<Rightarrow> personality_control res" where
  "reduce_personality p e logical_clock =
     (if ev_event_type e \<noteq> ''personality.revised'' then Inr p
      else case Option.bind (as_str (jget (ev_payload e) ''layer'')) pc_layer_of of
        None \<Rightarrow> Inl (DomainInvariantError ''unknown personality layer'')
      | Some layer \<Rightarrow>
          (case jget (ev_payload e) ''values'' of
             JObj updates \<Rightarrow>
               let current = pc_get layer p in
               if MAX_PERSONALITY_VALUES_PER_LAYER < merged_size current updates then
                 Inl (DomainCapacityError (''personality '' @ pc_layer_name layer @
                   '' capacity is full; revision was not applied''))
               else
                 rbind (keep_domain ''invalid personality rate state''
                   (advanced_to (rate_get layer (pc_rate_state p)) logical_clock)) (\<lambda>bucket.
                 rbind (rfold (revise_value current) (0, current) updates) (\<lambda>(change, merged).
                 keep_domain ''invalid personality revision''
                   (rbind (consumed bucket change) (\<lambda>revised.
                      personality_revalidated ((pc_set layer merged p)
                        \<lparr>pc_rate_state := rate_set layer revised (pc_rate_state p)\<rparr>)))))
           | _ \<Rightarrow> Inl (DomainInvariantError ''personality values must be an object'')))"

section \<open>Lemmas\<close>

lemma all_pc_layer: "(\<forall>l. P l) \<longleftrightarrow> P Traits \<and> P Adaptations \<and> P NarrativeIdeal"
  by (metis pc_layer.exhaust)

lemma all_pc_layers: "list_all P pc_layers \<longleftrightarrow> (\<forall>l. P l)"
  by (simp add: pc_layers_def all_pc_layer)

lemma rate_get_set [simp]: "rate_get l (rate_set l' r s) = (if l = l' then r else rate_get l s)"
  by (cases l; cases l') auto

lemma pc_get_set [simp]: "pc_get l (pc_set l' m p) = (if l = l' then m else pc_get l p)"
  by (cases l; cases l') auto

lemma pc_set_simps [simp]:
  "pc_rate_state (pc_set l m p) = pc_rate_state p" "pc_get l (p\<lparr>pc_rate_state := s\<rparr>) = pc_get l p"
  by (cases l; simp)+

lemma personality_revalidated_Inr [simp]:
  "personality_revalidated p = Inr q \<longleftrightarrow> valid_personality p \<and> q = p"
  by (auto simp: personality_revalidated_def)

lemma keep_domain_Inr [simp]: "keep_domain msg m = Inr x \<longleftrightarrow> m = Inr x"
  by (cases m) (auto simp: keep_domain_def)

lemma keep_domain_Inl: "keep_domain msg m = Inl e \<Longrightarrow> is_domain_error e"
  by (cases m) (auto simp: keep_domain_def split: if_splits)

lemma valid_rates_iff: "valid_rates s \<longleftrightarrow> (\<forall>l. valid_rate (rate_get l s) \<and>
    (lr_capacity (rate_get l s), lr_refill_rate (rate_get l s)) = rate_policy l)"
  by (simp add: valid_rates_def all_pc_layers)

lemma valid_personality_iff: "valid_personality p \<longleftrightarrow>
    (\<forall>l. valid_numeric_map (-1) 1 (pc_get l p)) \<and> valid_rates (pc_rate_state p)"
  by (simp add: valid_personality_def all_pc_layers)

text \<open>Advancing all three buckets to a later clock always succeeds and touches nothing else.\<close>

lemma rates_advanced_to_ok:
  assumes "valid_rates s" "is_f64 c" "\<forall>l. lr_logical_clock (rate_get l s) \<le> c"
  shows "\<exists>s'. rates_advanced_to s c = Inr s' \<and> valid_rates s' \<and>
    (\<forall>l. lr_logical_clock (rate_get l s') = c \<and> lr_available (rate_get l s) \<le> lr_available (rate_get l s'))"
proof -
  have step: "\<exists>r'. advanced_to (rate_get l s) c = Inr r' \<and> valid_rate r' \<and> lr_logical_clock r' = c \<and>
      (lr_capacity r', lr_refill_rate r') = rate_policy l \<and> lr_available (rate_get l s) \<le> lr_available r'" for l
    using advanced_to_ok [of "rate_get l s" c] assms by (auto simp: valid_rates_iff)
  obtain t a n where
    "advanced_to (pr_traits s) c = Inr t" "valid_rate t" "lr_logical_clock t = c"
    "(lr_capacity t, lr_refill_rate t) = rate_policy Traits" "lr_available (pr_traits s) \<le> lr_available t"
    "advanced_to (pr_adaptations s) c = Inr a" "valid_rate a" "lr_logical_clock a = c"
    "(lr_capacity a, lr_refill_rate a) = rate_policy Adaptations"
    "lr_available (pr_adaptations s) \<le> lr_available a"
    "advanced_to (pr_narrative_ideal s) c = Inr n" "valid_rate n" "lr_logical_clock n = c"
    "(lr_capacity n, lr_refill_rate n) = rate_policy NarrativeIdeal"
    "lr_available (pr_narrative_ideal s) \<le> lr_available n"
    using step [of Traits] step [of Adaptations] step [of NarrativeIdeal] by (auto simp del: rate_policy.simps)
  then show ?thesis
    by (simp add: rates_advanced_to_def Let_def valid_rates_iff all_pc_layer del: rate_policy.simps)
qed

lemma advance_personality_clock_ok:
  assumes "valid_personality p" "is_f64 c" "\<forall>l. lr_logical_clock (rate_get l (pc_rate_state p)) \<le> c"
  shows "\<exists>s'. advance_personality_clock p c = Inr (p\<lparr>pc_rate_state := s'\<rparr>) \<and>
    valid_personality (p\<lparr>pc_rate_state := s'\<rparr>) \<and>
    (\<forall>l. lr_logical_clock (rate_get l s') = c \<and>
      lr_available (rate_get l (pc_rate_state p)) \<le> lr_available (rate_get l s'))"
proof -
  obtain s' where s': "rates_advanced_to (pc_rate_state p) c = Inr s'" "valid_rates s'"
    "\<forall>l. lr_logical_clock (rate_get l s') = c \<and>
      lr_available (rate_get l (pc_rate_state p)) \<le> lr_available (rate_get l s')"
    using rates_advanced_to_ok [OF _ assms(2,3)] assms(1) unfolding valid_personality_iff by blast
  then have "valid_personality (p\<lparr>pc_rate_state := s'\<rparr>)" using assms(1) by (simp add: valid_personality_iff)
  with s' show ?thesis by (auto simp: advance_personality_clock_def personality_revalidated_def keep_domain_def)
qed

subsection \<open>The cost of a revision\<close>

text \<open>How far a layer moved: the sum of the decimal distances of its values.\<close>

definition layer_change :: "jobj \<Rightarrow> jobj \<Rightarrow> rat" where
  "layer_change old new = sum_list (map (\<lambda>(k, v). \<bar>decimal_of v - decimal_of (jget_or old k (JFloat 0))\<bar>) new)"

lemma sum_jput:
  assumes "sorted_keys m" "case map_of m k of None \<Rightarrow> True | Some u \<Rightarrow> f (k, u) = (0::rat)"
  shows "sum_list (map f (jput k v m)) = sum_list (map f m) + f (k, v)"
  using assms
proof (induction m)
  case (Cons p m)
  obtain k' u where p: "p = (k', u)" by (cases p)
  with Cons.prems have "sorted_keys m" by (simp add: sorted_keys_def)
  with Cons p show ?case by (auto split: if_splits)
qed simp

lemma sum_list_zeros: "(\<And>x. x \<in> set xs \<Longrightarrow> f x = (0::rat)) \<Longrightarrow> sum_list (map f xs) = 0"
  by (induction xs) auto

lemma layer_change_self: "sorted_keys m \<Longrightarrow> layer_change m m = 0"
  unfolding layer_change_def
  by (rule sum_list_zeros) (auto simp: jget_or_def dest: map_of_is_SomeI [OF sorted_keys_distinct])

lemma float_unit_int: "float_of_int i = Some q \<Longrightarrow> in_range (-1) 1 q \<Longrightarrow> i \<in> {-1, 0, 1} \<and> q = of_int i"
proof -
  assume i: "float_of_int i = Some q" and q: "in_range (-1) 1 q"
  have two: "is_f64 2" "is_f64 (-2)" using f64_of_int [of 2] f64_of_int [of "-2"] by simp_all
  have "\<not> 2 \<le> i" "\<not> i \<le> -2"
    using i q f64_le_rnd [OF two(1), of "of_int i" q] f64_ge_rnd [OF two(2), of "of_int i" q]
    by (auto simp: float_of_int_def in_range_def)
  then have "i \<in> {-1, 0, 1}" by auto
  with i f64_numerals show ?thesis by (auto simp: float_of_int_def is_f64_def)
qed

lemma decimal_of_float:
  assumes "as_float raw = Some q" "in_range (-1) 1 q"
  shows "decimal_of (JFloat q) = decimal_of raw"
  using assms float_unit_int dec_of_units by (cases raw) (auto, fastforce+)

lemma revise_value_Inr:
  assumes "revise_value current (cost, merged) (key, raw) = Inr acc"
  obtains q where "as_float raw = Some q" "in_range (-1) 1 q"
    "acc = (cost + \<bar>decimal_of raw - decimal_of (jget_or current key (JFloat 0))\<bar>, jput key (JFloat q) merged)"
  using assms by (auto simp: revise_value_def res_simps split: option.splits)

lemma revise_value_Inl: "revise_value current acc upd = Inl e \<Longrightarrow> is_domain_error e"
  by (auto simp: revise_value_def res_simps split: option.splits prod.splits)

text \<open>
  The loop's invariant: the accumulated cost is the distance between the old layer and the merged
  one, and keys still to come have not been touched.
\<close>

lemma revise_loop:
  assumes "rfold (revise_value current) (cost, merged) updates = Inr (cost', merged')"
    and "sorted_keys current" "sorted_keys merged" "distinct (map fst updates)"
    and "\<forall>k \<in> fst ` set updates. map_of merged k = map_of current k"
    and "cost = layer_change current merged"
  shows "cost' = layer_change current merged' \<and> sorted_keys merged' \<and>
    fst ` set merged' = fst ` set merged \<union> fst ` set updates"
  using assms
proof (induction updates arbitrary: cost merged)
  case (Cons u us)
  obtain key raw where u: "u = (key, raw)" by (cases u)
  obtain q where q: "as_float raw = Some q" "in_range (-1) 1 q"
    and rest: "rfold (revise_value current)
      (cost + \<bar>decimal_of raw - decimal_of (jget_or current key (JFloat 0))\<bar>, jput key (JFloat q) merged) us =
      Inr (cost', merged')"
    using Cons.prems(1) by (auto simp: u rbind_eq_Inr elim: revise_value_Inr)
  have fresh: "map_of merged key = map_of current key" using Cons.prems(5) by (simp add: u)
  have "layer_change current (jput key (JFloat q) merged) =
      layer_change current merged + \<bar>decimal_of (JFloat q) - decimal_of (jget_or current key (JFloat 0))\<bar>"
    unfolding layer_change_def
    by (subst sum_jput) (use Cons.prems(3) fresh in \<open>auto simp: jget_or_def split: option.splits\<close>)
  then have cost: "cost + \<bar>decimal_of raw - decimal_of (jget_or current key (JFloat 0))\<bar> =
      layer_change current (jput key (JFloat q) merged)"
    using Cons.prems(6) decimal_of_float [OF q] by simp
  have "cost' = layer_change current merged' \<and> sorted_keys merged' \<and>
    fst ` set merged' = fst ` set (jput key (JFloat q) merged) \<union> fst ` set us"
    using Cons.prems by (intro Cons.IH [OF rest _ _ _ _ cost])
      (auto simp: u sorted_keys_jput map_of_jput image_iff split: if_splits)
  then show ?case by (auto simp: u fst_jput)
qed auto

subsection \<open>What a revision does\<close>

lemma reduce_personality_Inr:
  assumes "reduce_personality p e clk = Inr q"
  shows "q = p \<or> (\<exists>l updates bucket change merged revised.
    jget (ev_payload e) ''values'' = JObj updates \<and>
    advanced_to (rate_get l (pc_rate_state p)) clk = Inr bucket \<and>
    rfold (revise_value (pc_get l p)) (0, pc_get l p) updates = Inr (change, merged) \<and>
    consumed bucket change = Inr revised \<and>
    q = (pc_set l merged p)\<lparr>pc_rate_state := rate_set l revised (pc_rate_state p)\<rparr> \<and> valid_personality q \<and>
    merged_size (pc_get l p) updates \<le> MAX_PERSONALITY_VALUES_PER_LAYER)"
proof (cases "ev_event_type e = ''personality.revised''")
  case True
  with assms obtain l where l: "Option.bind (as_str (jget (ev_payload e) ''layer'')) pc_layer_of = Some l"
    by (auto simp: reduce_personality_def split: option.splits)
  with True assms obtain updates where u: "jget (ev_payload e) ''values'' = JObj updates"
    by (auto simp: reduce_personality_def split: json.splits)
  from True assms l u show ?thesis
    unfolding reduce_personality_def
    by (auto simp: rbind_eq_Inr Let_def not_less split: if_splits)
qed (use assms in \<open>simp add: reduce_personality_def\<close>)

lemma reduce_personality_Inl: "reduce_personality p e clk = Inl err \<Longrightarrow> is_domain_error err"
proof -
  assume e: "reduce_personality p e clk = Inl err"
  have loop: "rfold (revise_value c) acc us = Inl err \<Longrightarrow> is_domain_error err" for c acc us err
    by (rule rfold_Inl [where P = is_domain_error]) (auto intro: revise_value_Inl)
  show ?thesis
    using e by (auto simp: reduce_personality_def rbind_eq_Inl Let_def
        split: if_splits option.splits json.splits dest: loop keep_domain_Inl)
qed

text \<open>The budgets as the exact decimals they are written as.\<close>

fun layer_budget :: "pc_layer \<Rightarrow> rat" where
  "layer_budget Traits = 1 / 20"
| "layer_budget Adaptations = 1 / 5"
| "layer_budget NarrativeIdeal = 1 / 10"

lemma layer_budget: "dec_of (fst (rate_policy l)) = layer_budget l"
  by (cases l) (simp_all add: dec_of_tenths)

lemma layer_change_nonneg: "0 \<le> layer_change old new"
  unfolding layer_change_def by (rule sum_list_nonneg) auto

lemma valid_numeric_map_sorted: "valid_numeric_map lo hi m \<Longrightarrow> sorted_keys m"
  by (simp add: valid_numeric_map_def)

lemma revision_cost:
  assumes "valid_personality p" "is_f64 clk" "lr_logical_clock (rate_get l (pc_rate_state p)) \<le> clk"
    and "sorted_keys updates"
    and "advanced_to (rate_get l (pc_rate_state p)) clk = Inr bucket"
    and "rfold (revise_value (pc_get l p)) (0, pc_get l p) updates = Inr (change, merged)"
    and "consumed bucket change = Inr revised"
  shows "layer_change (pc_get l p) merged \<le> layer_budget l"
proof -
  have v: "sorted_keys (pc_get l p)" "valid_rate (rate_get l (pc_rate_state p))"
    "lr_capacity (rate_get l (pc_rate_state p)) = fst (rate_policy l)"
    using assms(1) unfolding valid_personality_iff valid_rates_iff
    by (auto simp: valid_numeric_map_def fst_def split: prod.splits) (metis fst_conv)
  have c: "change = layer_change (pc_get l p) merged"
    using revise_loop [OF assms(6) v(1) v(1) sorted_keys_distinct [OF assms(4)]] layer_change_self [OF v(1)]
    by simp
  have "rbind (advanced_to (rate_get l (pc_rate_state p)) clk) (\<lambda>b. consumed b change) = Inr revised"
    using assms(5,7) by simp
  from rate_bucket.spend_bounded [OF v(2) assms(2,3) _ this] show ?thesis
    by (simp add: c layer_change_nonneg v(3) layer_budget)
qed


lemma sorted_keys_length: "sorted_keys m \<Longrightarrow> length m = card (fst ` set m)"
  using sorted_keys_distinct [of m] by (metis distinct_card length_map set_map)

lemma reduce_personality_sizes:
  assumes "reduce_personality p e clk = Inr q" "valid_personality p" "valid_event e"
  shows "length (pc_get l p) \<le> length (pc_get l q) \<and>
    (length (pc_get l q) = length (pc_get l p) \<or> length (pc_get l q) \<le> MAX_PERSONALITY_VALUES_PER_LAYER)"
  using reduce_personality_Inr [OF assms(1)]
proof (elim disjE exE conjE)
  fix l' updates bucket change merged revised
  assume u: "jget (ev_payload e) ''values'' = JObj updates"
    and r: "rfold (revise_value (pc_get l' p)) (0, pc_get l' p) updates = Inr (change, merged)"
    and q: "q = (pc_set l' merged p)\<lparr>pc_rate_state := rate_set l' revised (pc_rate_state p)\<rparr>"
    and size: "merged_size (pc_get l' p) updates \<le> MAX_PERSONALITY_VALUES_PER_LAYER"
  have s: "sorted_keys updates" "sorted_keys (pc_get l' p)"
    using valid_event_payload_get [OF assms(3), of "''values''"] u assms(2)
      valid_numeric_map_sorted [of "-1" 1 "pc_get l' p"]
    by (auto simp: valid_personality_iff)
  have m: "sorted_keys merged" "fst ` set merged = fst ` set (pc_get l' p) \<union> fst ` set updates"
    using revise_loop [OF r s(2,2) sorted_keys_distinct [OF s(1)]] layer_change_self [OF s(2)] by simp_all
  have len: "length merged = merged_size (pc_get l' p) updates" "length (pc_get l' p) \<le> length merged"
    using m s by (simp_all add: sorted_keys_length merged_size_def card_mono)
  with size q show ?thesis by (cases "l = l'") auto
qed simp

text \<open>A revision leaves every bucket at the clock it was made at.\<close>

lemma reduce_personality_clock:
  assumes "reduce_personality p e clk = Inr q" "valid_personality p" "is_f64 clk"
    and "\<forall>l. lr_logical_clock (rate_get l (pc_rate_state p)) = clk"
  shows "valid_personality q \<and> (\<forall>l. lr_logical_clock (rate_get l (pc_rate_state q)) = clk)"
  using reduce_personality_Inr [OF assms(1)]
proof (elim disjE exE conjE)
  fix l updates bucket change merged revised
  assume r: "advanced_to (rate_get l (pc_rate_state p)) clk = Inr bucket" "consumed bucket change = Inr revised"
    and q: "q = (pc_set l merged p)\<lparr>pc_rate_state := rate_set l revised (pc_rate_state p)\<rparr>"
    and v: "valid_personality q"
  have "lr_logical_clock bucket = clk"
    using r(1) by (auto simp: advanced_to_def Let_def rbind_eq_Inr split: if_splits)
  moreover have "lr_logical_clock revised = lr_logical_clock bucket"
    using r(2) by (auto simp: consumed_def rbind_eq_Inr split: if_splits)
  ultimately show ?thesis using assms(4) q v by simp
qed (use assms in auto)

section \<open>Properties\<close>

text \<open>
  C8. Personality drifts slowly: one event changes at most one layer, by no more in total than that
  layer's budget (0.05, 0.2 and 0.1, measured in exact decimals over all its values), keeps every
  value within -1 and 1 and every bucket within its policy; every refusal is a domain error.
\<close>

theorem personality_revision_bounded:
  assumes "valid_personality p" "valid_event e" "is_f64 clk"
    and "\<forall>l. lr_logical_clock (rate_get l (pc_rate_state p)) \<le> clk"
  shows "case reduce_personality p e clk of
      Inl err \<Rightarrow> is_domain_error err
    | Inr q \<Rightarrow> valid_personality q \<and>
        (\<forall>l. layer_change (pc_get l p) (pc_get l q) \<le> layer_budget l) \<and>
        (\<exists>l. \<forall>l'. l' \<noteq> l \<longrightarrow> pc_get l' q = pc_get l' p \<and>
          rate_get l' (pc_rate_state q) = rate_get l' (pc_rate_state p))"
proof (cases "reduce_personality p e clk")
  case (Inl err)
  with reduce_personality_Inl [OF Inl] show ?thesis by simp
next
  case (Inr q)
  have none: "layer_change (pc_get l p) (pc_get l p) \<le> layer_budget l" for l
  proof -
    have "valid_numeric_map (-1) 1 (pc_get l p)" using assms(1) by (simp add: valid_personality_iff)
    then show ?thesis using layer_change_self [OF valid_numeric_map_sorted] by (cases l) simp_all
  qed
  from reduce_personality_Inr [OF Inr] show ?thesis
  proof (elim disjE exE conjE)
    assume "q = p"
    with Inr assms(1) none show ?thesis by auto
  next
    fix l updates bucket change merged revised
    assume u: "jget (ev_payload e) ''values'' = JObj updates"
      and r: "advanced_to (rate_get l (pc_rate_state p)) clk = Inr bucket"
        "rfold (revise_value (pc_get l p)) (0, pc_get l p) updates = Inr (change, merged)"
        "consumed bucket change = Inr revised"
      and q: "q = (pc_set l merged p)\<lparr>pc_rate_state := rate_set l revised (pc_rate_state p)\<rparr>"
      and v: "valid_personality q"
    have "sorted_keys updates" using valid_event_payload_get [OF assms(2), of "''values''"] u by simp
    from revision_cost [OF assms(1,3) _ this r] assms(4) none
    have "layer_change (pc_get l' p) (pc_get l' q) \<le> layer_budget l'" for l' by (simp add: q)
    moreover have "\<forall>l'. l' \<noteq> l \<longrightarrow> pc_get l' q = pc_get l' p \<and>
      rate_get l' (pc_rate_state q) = rate_get l' (pc_rate_state p)" by (simp add: q)
    ultimately show ?thesis using Inr v by auto
  qed
qed

lemma rate_policy_f64: "is_f64 (fst (rate_policy l)) \<and> is_f64 (snd (rate_policy l)) \<and>
    0 < fst (rate_policy l) \<and> 0 < snd (rate_policy l)"
proof -
  have "0 < rndq q \<and> is_f64 (rndq q)" if "0 \<le> q" "q \<le> 1" "rndq q \<noteq> 0" for q
    using rnd64_unit [OF that(1,2)] rnd64_f64 rndq_nonneg [OF that(1)] that(3) by force
  moreover have "rndq (1 / 20) \<noteq> 0" "rndq (1 / 10) \<noteq> 0" "rndq (1 / 5) \<noteq> 0" by code_simp+
  ultimately show ?thesis by (cases l) simp_all
qed

lemma new_layer_rate_valid: "valid_rate (new_layer_rate_state l)"
  using rate_policy_f64 [of l] by (simp add: valid_rate_def new_layer_rate_state_def)

lemma valid_personality_default: "valid_personality personality_default"
proof -
  have "rate_get l (pc_rate_state personality_default) = new_layer_rate_state l" "pc_get l personality_default = []" for l
    by (cases l; simp add: personality_default_def)+
  then show ?thesis
    using new_layer_rate_valid
    by (simp add: valid_personality_iff valid_rates_iff valid_numeric_map_def new_layer_rate_state_def)
qed

definition revision_event :: event_envelope where
  "revision_event = sample_event ''personality.revised''
     [(''layer'', JStr ''adaptations''), (''values'', JObj [(''curiosity'', JFloat (rndq (1 / 10)))])]"

lemma revision_event_valid: "valid_event revision_event"
  unfolding revision_event_def
  by (rule sample_event_valid)
    (use rate_policy_f64 [of NarrativeIdeal] in \<open>simp_all add: valid_event_type_def type_char_def Let_def sorted_keys_def\<close>)

lemma personality_revision_bounded_witness:
  "valid_personality personality_default \<and> valid_event revision_event \<and>
   (case reduce_personality personality_default revision_event 0 of
      Inl err \<Rightarrow> is_domain_error err
    | Inr q \<Rightarrow> valid_personality q \<and>
        (\<forall>l. layer_change (pc_get l personality_default) (pc_get l q) \<le> layer_budget l) \<and>
        (\<exists>l. \<forall>l'. l' \<noteq> l \<longrightarrow> pc_get l' q = pc_get l' personality_default \<and>
          rate_get l' (pc_rate_state q) = rate_get l' (pc_rate_state personality_default)))"
proof -
  have "\<forall>l. lr_logical_clock (rate_get l (pc_rate_state personality_default)) \<le> 0"
    by (simp add: all_pc_layer personality_default_def new_layer_rate_state_def)
  from personality_revision_bounded [OF valid_personality_default revision_event_valid f64_numerals(1) this]
    valid_personality_default revision_event_valid show ?thesis by blast
qed

text \<open>
  Logical time only refills: advancing a valid personality to a clock that none of its buckets has
  passed succeeds, sets every bucket to that clock, never lowers what is available, leaves the three
  layers alone and gives a valid personality.
\<close>

theorem personality_clock_refills:
  assumes "valid_personality p" "is_f64 clk"
    and "\<forall>l. lr_logical_clock (rate_get l (pc_rate_state p)) \<le> clk"
  shows "\<exists>s. advance_personality_clock p clk = Inr (p\<lparr>pc_rate_state := s\<rparr>) \<and>
    valid_personality (p\<lparr>pc_rate_state := s\<rparr>) \<and>
    (\<forall>l. lr_logical_clock (rate_get l s) = clk \<and>
      lr_available (rate_get l (pc_rate_state p)) \<le> lr_available (rate_get l s))"
  by (rule advance_personality_clock_ok [OF assms])

lemma personality_clock_refills_witness:
  "\<exists>s. advance_personality_clock personality_default 1 = Inr (personality_default\<lparr>pc_rate_state := s\<rparr>) \<and>
    valid_personality (personality_default\<lparr>pc_rate_state := s\<rparr>) \<and>
    (\<forall>l. lr_logical_clock (rate_get l s) = 1 \<and>
      lr_available (rate_get l (pc_rate_state personality_default)) \<le> lr_available (rate_get l s))"
  by (rule personality_clock_refills [OF valid_personality_default f64_numerals(2)])
    (simp add: all_pc_layer personality_default_def new_layer_rate_state_def)

end
