(* ===== verification/Energy.thy ===== *)
theory Energy imports Personality
begin

text \<open>
  \<^verbatim>\<open>core/personality.py\<close>, the energy part: \<open>EnergyVector\<close> with its evidence partition, \<open>activation\<close>
  in binary64 arithmetic, \<open>energy_from_event\<close> and \<open>upsert_energy\<close>.
\<close>

section \<open>Data\<close>

definition ENERGY_DIMENSIONS :: "string list" where
  "ENERGY_DIMENSIONS = [''deficits'', ''salience'', ''urgency'', ''valence'', ''arousal'', ''control'',
     ''resources'', ''cost'', ''personality_relevance'']"

record energy_vector =
  en_action_id :: string
  en_assessment_source :: "string option"
  en_assessment_summary :: "string option"
  en_provenance :: jobj
  en_evidence_basis :: jobj
  en_unknown_dimensions :: "string list"
  en_deficits :: jobj
  en_salience :: rat
  en_urgency :: rat
  en_valence :: rat
  en_arousal :: rat
  en_control :: rat
  en_resources :: rat
  en_cost :: rat
  en_personality_relevance :: rat

text \<open>\<open>_validate_evidence_basis\<close>, \<open>_validate_unknown_dimensions\<close> and \<open>_evidence_partition_is_explicit\<close>.\<close>

definition valid_evidence_basis :: "jobj \<Rightarrow> bool" where
  "valid_evidence_basis m = (length m \<le> length ENERGY_DIMENSIONS \<and>
     list_all (\<lambda>(k, v). k \<in> set ENERGY_DIMENSIONS \<and>
       (case v of JStr s \<Rightarrow> \<not> blank s \<and> length s \<le> 512 | _ \<Rightarrow> False)) m)"

definition valid_unknown_dimensions :: "string list \<Rightarrow> bool" where
  "valid_unknown_dimensions ds = (length ds \<le> length ENERGY_DIMENSIONS \<and> distinct ds \<and>
     list_all (\<lambda>d. d \<in> set ENERGY_DIMENSIONS) ds)"

definition evidence_partition :: "jobj \<Rightarrow> string list \<Rightarrow> bool" where
  "evidence_partition basis ds = (list_all (\<lambda>d. d \<notin> fst ` set basis) ds \<and>
     fst ` set basis \<union> set ds = set ENERGY_DIMENSIONS)"

definition unit_float :: "rat \<Rightarrow> bool" where
  "unit_float q = (is_f64 q \<and> in_range 0 1 q)"

definition signed_unit_float :: "rat \<Rightarrow> bool" where
  "signed_unit_float q = (is_f64 q \<and> in_range (- 1) 1 q)"

definition valid_energy :: "energy_vector \<Rightarrow> bool" where
  "valid_energy e = (str_len 1 512 (en_action_id e) \<and>
     (case en_assessment_source e of None \<Rightarrow> True | Some s \<Rightarrow> length s \<le> 160) \<and>
     (case en_assessment_summary e of None \<Rightarrow> True | Some s \<Rightarrow> length s \<le> 512) \<and>
     frozen (JObj (en_provenance e)) \<and> length (en_provenance e) \<le> 32 \<and>
     frozen (JObj (en_evidence_basis e)) \<and> valid_evidence_basis (en_evidence_basis e) \<and>
     valid_unknown_dimensions (en_unknown_dimensions e) \<and>
     valid_numeric_map 0 1 (en_deficits e) \<and>
     list_all unit_float [en_salience e, en_urgency e, en_control e, en_resources e, en_cost e,
       en_personality_relevance e] \<and>
     list_all signed_unit_float [en_valence e, en_arousal e] \<and>
     evidence_partition (en_evidence_basis e) (en_unknown_dimensions e))"

section \<open>Activation\<close>

text \<open>
  Python evaluates the formula with one rounding per operation. None of the operations can overflow
  for a valid vector (every operand is within one of its neighbours and the sums stay below three),
  so \<open>rndq\<close>, which rounds without the overflow check, is the binary64 operation here.
\<close>

definition fmul :: "rat \<Rightarrow> rat \<Rightarrow> rat" where "fmul a b = rndq (a * b)"
definition fadd :: "rat \<Rightarrow> rat \<Rightarrow> rat" where "fadd a b = rndq (a + b)"
definition fsub :: "rat \<Rightarrow> rat \<Rightarrow> rat" where "fsub a b = rndq (a - b)"
definition fdiv :: "rat \<Rightarrow> rat \<Rightarrow> rat" where "fdiv a b = rndq (a / b)"

definition deficit_mean :: "jobj \<Rightarrow> rat" where
  "deficit_mean m = (if m = [] then 0
     else fdiv (rndq (sum_list (map (\<lambda>(k, v). case as_float v of None \<Rightarrow> 0 | Some q \<Rightarrow> q) m)))
       (rat_of_nat (length m)))"

definition activation_raw :: "energy_vector \<Rightarrow> rat" where
  "activation_raw e = fadd (fadd (fsub (fadd (fadd (fadd (fadd (fadd
       (fmul (rndq (18 / 100)) (deficit_mean (en_deficits e)))
       (fmul (rndq (15 / 100)) (en_salience e)))
       (fmul (rndq (15 / 100)) (en_urgency e)))
       (fmul (rndq (10 / 100)) \<bar>en_arousal e\<bar>))
       (fmul (rndq (10 / 100)) (en_control e)))
       (fmul (rndq (10 / 100)) (en_resources e)))
       (fmul (rndq (10 / 100)) (en_cost e)))
       (fmul (rndq (12 / 100)) (en_personality_relevance e)))
       (fmul (rndq (5 / 100)) (fdiv (fadd (en_valence e) 1) 2))"

definition activation :: "energy_vector \<Rightarrow> rat" where
  "activation e = (case py_round 12 (min 1 (max 0 (activation_raw e))) of Some v \<Rightarrow> v | None \<Rightarrow> 0)"

section \<open>Operations\<close>

definition float_item :: "jobj \<Rightarrow> string \<Rightarrow> rat res" where
  "float_item p k = rbind (jitem p k) (\<lambda>v. of_option (ValidationError k) (as_float v))"

definition obj_item_or_empty :: "jobj \<Rightarrow> string \<Rightarrow> jobj res" where
  "obj_item_or_empty p k = of_option (PyTypeError ''payload must be a JSON object'') (as_obj (jget_or p k (JObj [])))"

definition energy_of_payload :: "jobj \<Rightarrow> energy_vector res" where
  "energy_of_payload p =
     rbind (rbind (jitem p ''action_id'') (\<lambda>v. of_option (ValidationError ''action_id'') (as_str v))) (\<lambda>aid.
     rbind (of_option (ValidationError ''assessment_source'') (as_opt_str (jget p ''assessment_source''))) (\<lambda>src.
     rbind (of_option (ValidationError ''assessment_summary'') (as_opt_str (jget p ''assessment_summary''))) (\<lambda>summary.
     rbind (obj_item_or_empty p ''provenance'') (\<lambda>prov.
     rbind (obj_item_or_empty p ''evidence_basis'') (\<lambda>basis.
     rbind (of_option (ValidationError ''unknown_dimensions'') (Option.bind
         (as_arr (jget_or p ''unknown_dimensions'' (JArr (map JStr ENERGY_DIMENSIONS)))) as_strs)) (\<lambda>unknown.
     rbind (obj_item_or_empty p ''deficits'') (\<lambda>deficits.
     rbind (float_item p ''salience'') (\<lambda>salience.
     rbind (float_item p ''urgency'') (\<lambda>urgency.
     rbind (float_item p ''valence'') (\<lambda>valence.
     rbind (float_item p ''arousal'') (\<lambda>arousal.
     rbind (float_item p ''control'') (\<lambda>control.
     rbind (float_item p ''resources'') (\<lambda>resources.
     rbind (float_item p ''cost'') (\<lambda>cost.
     rbind (float_item p ''personality_relevance'') (\<lambda>relevance.
       let e = \<lparr>en_action_id = aid, en_assessment_source = src, en_assessment_summary = summary,
         en_provenance = prov, en_evidence_basis = basis, en_unknown_dimensions = unknown,
         en_deficits = deficits, en_salience = salience, en_urgency = urgency, en_valence = valence,
         en_arousal = arousal, en_control = control, en_resources = resources, en_cost = cost,
         en_personality_relevance = relevance\<rparr>
       in if valid_energy e then Inr e else Inl (ValidationError ''EnergyVector''))))))))))))))))"

definition energy_from_event :: "event_envelope \<Rightarrow> energy_vector res" where
  "energy_from_event e = rewrap ''invalid action energy vector'' (energy_of_payload (ev_payload e))"

definition upsert_energy :: "energy_vector list \<Rightarrow> energy_vector \<Rightarrow> energy_vector list" where
  "upsert_energy energies e = filter (\<lambda>i. en_action_id i \<noteq> en_action_id e) energies @ [e]"

section \<open>Lemmas\<close>

interpretation energy_store: keyed_collection en_action_id "put_last en_action_id"
  by (rule put_last_keyed)

lemma upsert_energy_put: "upsert_energy es e = put_last en_action_id es e"
  by (simp add: upsert_energy_def put_last_def)

lemma energy_of_payload_valid: "energy_of_payload p = Inr e \<Longrightarrow> valid_energy e"
  unfolding energy_of_payload_def Let_def res_simps by blast

lemma energy_from_event_valid: "energy_from_event ev = Inr e \<Longrightarrow> valid_energy e"
  by (simp add: energy_from_event_def rewrap_eq_Inr energy_of_payload_valid)

lemma energy_from_event_Inl: "energy_from_event ev = Inl err \<Longrightarrow> is_domain_error err"
  by (auto simp: energy_from_event_def rewrap_eq_Inl)

lemma energy_from_event_id:
  "energy_from_event ev = Inr e \<Longrightarrow> map_of (ev_payload ev) ''action_id'' = Some (JStr (en_action_id e))"
  unfolding energy_from_event_def energy_of_payload_def Let_def res_simps
  by (auto simp: jitem_def as_str_Some res_simps)

lemma activation_round: "\<exists>a. py_round 12 (min 1 (max 0 x)) = Some a \<and> 0 \<le> a \<and> a \<le> 1"
  using py_round_between [of 0 "min 1 (max 0 x)" 1 12] by auto

lemma py_round_mono: "x \<le> y \<Longrightarrow> py_round n x = Some a \<Longrightarrow> py_round n y = Some b \<Longrightarrow> a \<le> b"
  unfolding py_round_def
  by (rule rnd64_mono [of "of_int (rhe (x * 10 ^ n)) / 10 ^ n" "of_int (rhe (y * 10 ^ n)) / 10 ^ n"])
    (auto intro!: divide_right_mono rhe_mono mult_right_mono)

lemma fadd_mono: "a \<le> a' \<Longrightarrow> b \<le> b' \<Longrightarrow> fadd a b \<le> fadd a' b'"
  by (simp add: fadd_def rndq_mono)

lemma fsub_mono: "a \<le> a' \<Longrightarrow> b' \<le> b \<Longrightarrow> fsub a b \<le> fsub a' b'"
  by (simp add: fsub_def rndq_mono)

lemma fmul_mono: "0 \<le> c \<Longrightarrow> b \<le> b' \<Longrightarrow> fmul (rndq c) b \<le> fmul (rndq c) b'"
  by (simp add: fmul_def rndq_mono rndq_nonneg mult_left_mono)

lemma fdiv_mono: "0 \<le> c \<Longrightarrow> a \<le> a' \<Longrightarrow> fdiv a c \<le> fdiv a' c"
  by (simp add: fdiv_def rndq_mono divide_right_mono)

section \<open>Properties\<close>

text \<open>
  \<open>favours e e'\<close>: the second vector is at least as activating in every scalar dimension (a cost is
  less activating) over the same deficits.
\<close>

definition favours :: "energy_vector \<Rightarrow> energy_vector \<Rightarrow> bool" where
  "favours e e' = (deficit_mean (en_deficits e) \<le> deficit_mean (en_deficits e') \<and> en_salience e \<le> en_salience e' \<and>
     en_urgency e \<le> en_urgency e' \<and> \<bar>en_arousal e\<bar> \<le> \<bar>en_arousal e'\<bar> \<and> en_control e \<le> en_control e' \<and>
     en_resources e \<le> en_resources e' \<and> en_cost e' \<le> en_cost e \<and> en_valence e \<le> en_valence e' \<and>
     en_personality_relevance e \<le> en_personality_relevance e')"

text \<open>
  C9. The activation of an energy vector is a number between 0 and 1, and rounding in binary64 never
  reverses its order: a vector whose deficits have at least the mean, that is at least as salient, urgent,
  aroused in amount, controllable, resourced, pleasant and relevant, and at most as costly, has at least the
  activation.
\<close>

theorem activation_bounded_monotone:
  assumes "favours e e'"
  shows "0 \<le> activation e \<and> activation e \<le> activation e' \<and> activation e' \<le> 1"
proof -
  have raw: "activation_raw e \<le> activation_raw e'"
    using assms unfolding activation_raw_def favours_def
    by (auto intro!: fadd_mono fsub_mono fmul_mono fdiv_mono)
  obtain a b where a: "py_round 12 (min 1 (max 0 (activation_raw e))) = Some a" "0 \<le> a"
    and b: "py_round 12 (min 1 (max 0 (activation_raw e'))) = Some b" "b \<le> 1"
    using activation_round by metis
  have "min 1 (max 0 (activation_raw e)) \<le> min 1 (max 0 (activation_raw e'))"
    using raw by (auto simp: min_def max_def)
  from py_round_mono [OF this a(1) b(1)] a b show ?thesis by (simp add: activation_def)
qed

definition sample_energy :: energy_vector where
  "sample_energy = \<lparr>en_action_id = ''a'', en_assessment_source = None, en_assessment_summary = None,
     en_provenance = [], en_evidence_basis = [], en_unknown_dimensions = ENERGY_DIMENSIONS,
     en_deficits = [], en_salience = 0, en_urgency = 0, en_valence = 0, en_arousal = 0, en_control = 0,
     en_resources = 0, en_cost = 1, en_personality_relevance = 0\<rparr>"

lemma activation_bounded_monotone_witness:
  "valid_energy sample_energy \<and> favours sample_energy (sample_energy\<lparr>en_urgency := 1, en_cost := 0\<rparr>) \<and>
   0 \<le> activation sample_energy \<and>
   activation sample_energy \<le> activation (sample_energy\<lparr>en_urgency := 1, en_cost := 0\<rparr>) \<and>
   activation (sample_energy\<lparr>en_urgency := 1, en_cost := 0\<rparr>) \<le> 1"
proof -
  have f: "favours sample_energy (sample_energy\<lparr>en_urgency := 1, en_cost := 0\<rparr>)"
    by (simp add: favours_def sample_energy_def)
  have "valid_energy sample_energy"
    by (simp add: valid_energy_def sample_energy_def str_len_def valid_evidence_basis_def
        valid_unknown_dimensions_def valid_numeric_map_def unit_float_def signed_unit_float_def in_range_def
        evidence_partition_def ENERGY_DIMENSIONS_def)
  with activation_bounded_monotone [OF f] f show ?thesis by blast
qed

end
