(* ===== verification/Action.thy ===== *)
theory Action imports Energy
begin

text \<open>
  \<^verbatim>\<open>core/action.py\<close>, data and operations: the simulation branches, the typed receipts and
  reconstructions, the action record with its cross-field validator, and \<open>reduce_actions\<close>, one
  definition per event type. What is proved of them is in \<open>Lifecycle\<close>.
\<close>

section \<open>Enumerations\<close>

datatype rd_phase = RdSimulate | RdPrepare | RdReconstruct

datatype action_phase = Proposed | Prepared | Blocked | Dispatched | Receipted | Reconstructed

datatype action_outcome = OutSuccess | OutFailure

datatype receipt_status = StSuccess | StFailure | StUnknown

datatype receipt_disposition = Pending | Confirmed | Resolution | Corroboration | Conflict

datatype energy_status = Unrequested | EnergyPending | Assessed | EnergyFailed

fun phase_value :: "action_phase \<Rightarrow> string" where
  "phase_value Proposed = ''proposed''"
| "phase_value Prepared = ''prepared''"
| "phase_value Blocked = ''blocked''"
| "phase_value Dispatched = ''dispatched''"
| "phase_value Receipted = ''receipt''"
| "phase_value Reconstructed = ''reconstructed''"

fun status_value :: "receipt_status \<Rightarrow> string" where
  "status_value StSuccess = ''success''"
| "status_value StFailure = ''failure''"
| "status_value StUnknown = ''unknown''"

definition receipt_status_of :: "json \<Rightarrow> receipt_status option" where
  "receipt_status_of v = (if v = JStr ''success'' then Some StSuccess
     else if v = JStr ''failure'' then Some StFailure
     else if v = JStr ''unknown'' then Some StUnknown else None)"

text \<open>\<open>ActionOutcome(status.value)\<close>; there is no outcome for an unknown status.\<close>

fun outcome_of_status :: "receipt_status \<Rightarrow> action_outcome option" where
  "outcome_of_status StSuccess = Some OutSuccess"
| "outcome_of_status StFailure = Some OutFailure"
| "outcome_of_status StUnknown = None"

definition MAX_ACTION_RECEIPT_HISTORY :: nat where "MAX_ACTION_RECEIPT_HISTORY = 16"
definition MAX_ACTION_RECONSTRUCTION_HISTORY :: nat where "MAX_ACTION_RECONSTRUCTION_HISTORY = 16"
definition MAX_ACTION_SOURCE_ERROR_TYPE_LENGTH :: nat where "MAX_ACTION_SOURCE_ERROR_TYPE_LENGTH = 160"

definition HERMES_SOURCE_STATUSES :: "string list" where
  "HERMES_SOURCE_STATUSES = [''ok'', ''error'', ''timeout'', ''cancelled'', ''blocked'']"

section \<open>Source semantics\<close>

definition validate_source_error_type :: "json \<Rightarrow> unit res" where
  "validate_source_error_type v = (case v of
     JNull \<Rightarrow> Inr ()
   | JStr s \<Rightarrow>
       if blank s \<or> MAX_ACTION_SOURCE_ERROR_TYPE_LENGTH < length s then
         Inl (PyValueError ''receipt source semantics require a bounded non-blank error type'')
       else Inr ()
   | _ \<Rightarrow> Inl (PyValueError ''receipt source semantics require a bounded non-blank error type''))"

definition expected_status :: "string \<Rightarrow> json \<Rightarrow> receipt_status option" where
  "expected_status source_status error_type =
     (if source_status = ''error'' then
        Some (if error_type = JStr ''thread_missing_result'' then StUnknown else StFailure)
      else map_of [(''ok'', StSuccess), (''timeout'', StUnknown), (''cancelled'', StUnknown)] source_status)"

definition validate_receipt_source_semantics :: "receipt_status \<Rightarrow> json \<Rightarrow> json \<Rightarrow> unit res" where
  "validate_receipt_source_semantics status source_status error_type = (case source_status of
     JNull \<Rightarrow>
       if error_type \<noteq> JNull then
         Inl (PyValueError ''receipt source semantics require a source status for error type'')
       else Inr ()
   | JStr s \<Rightarrow>
       if s \<notin> set HERMES_SOURCE_STATUSES then
         Inl (PyValueError ''receipt source semantics use an unsupported source status'')
       else rbind (validate_source_error_type error_type) (\<lambda>_.
         if s = ''ok'' \<and> error_type \<noteq> JNull then
           Inl (PyValueError ''receipt source semantics do not allow an error type for ok status'')
         else if s \<noteq> ''error'' \<and> error_type = JStr ''thread_missing_result'' then
           Inl (PyValueError ''receipt source semantics reserve thread_missing_result for error status'')
         else if s = ''blocked'' then
           Inl (PyValueError ''receipt source semantics require an action.blocked event'')
         else if expected_status s error_type \<noteq> Some status then
           Inl (PyValueError ''receipt source semantics contradict normalized status'')
         else Inr ())
   | _ \<Rightarrow> Inl (PyValueError ''receipt source semantics use an unsupported source status''))"

definition validate_blocked_source_semantics :: "jobj \<Rightarrow> unit res" where
  "validate_blocked_source_semantics p =
     (let source_status = jget p ''source_status''; error_type = jget p ''source_error_type'' in
      if source_status \<noteq> JNull \<and> source_status \<noteq> JStr ''blocked'' then
        Inl (DomainInvariantError (''blocked source status must be exact '' @ py_repr ''blocked'' @ '' when attributed''))
      else if source_status = JNull \<and> error_type \<noteq> JNull then
        Inl (DomainInvariantError ''blocked error type requires attributed source status'')
      else rbind (rewrap ''blocked source error type is invalid'' (validate_source_error_type error_type)) (\<lambda>_.
        if error_type = JStr ''thread_missing_result'' then
          Inl (DomainInvariantError ''blocked source status cannot use thread_missing_result'')
        else Inr ()))"

section \<open>Records\<close>

record action_receipt =
  rc_event_id :: string
  rc_status :: receipt_status
  rc_disposition :: receipt_disposition
  rc_source_status :: "string option"
  rc_source_error_type :: "string option"
  rc_late :: bool
  rc_execution_confirmed :: "bool option"
  rc_outcome :: "action_outcome option"
  rc_effect_observation_ids :: "string list"
  rc_payload :: jobj

definition bounded_opt :: "nat \<Rightarrow> nat \<Rightarrow> string option \<Rightarrow> bool" where
  "bounded_opt lo hi v = (case v of None \<Rightarrow> True | Some s \<Rightarrow> str_len lo hi s)"

text \<open>\<open>_status_matches_execution_claims\<close>, check by check.\<close>

definition receipt_claims_match :: "action_receipt \<Rightarrow> bool" where
  "receipt_claims_match r =
     (validate_receipt_source_semantics (rc_status r) (opt_json JStr (rc_source_status r))
        (opt_json JStr (rc_source_error_type r)) = Inr () \<and>
      jget (rc_payload r) ''status'' = JStr (status_value (rc_status r)) \<and>
      jget (rc_payload r) ''source_status'' = opt_json JStr (rc_source_status r) \<and>
      jget (rc_payload r) ''source_error_type'' = opt_json JStr (rc_source_error_type r) \<and>
      jget_or (rc_payload r) ''late'' (JBool False) = JBool (rc_late r) \<and>
      (if rc_status r = StUnknown then
         rc_execution_confirmed r = None \<and> rc_outcome r = None \<and> rc_disposition r = Pending
       else rc_execution_confirmed r = Some True \<and> rc_outcome r = outcome_of_status (rc_status r) \<and>
         rc_disposition r \<noteq> Pending))"

definition valid_receipt :: "action_receipt \<Rightarrow> bool" where
  "valid_receipt r = (str_len 1 512 (rc_event_id r) \<and> bounded_opt 1 160 (rc_source_status r) \<and>
     bounded_opt 1 MAX_ACTION_SOURCE_ERROR_TYPE_LENGTH (rc_source_error_type r) \<and>
     length (rc_effect_observation_ids r) \<le> MAX_WORLD_PROPOSITIONS_PER_LAYER \<and>
     distinct (rc_effect_observation_ids r) \<and> list_all (\<lambda>i. \<not> blank i) (rc_effect_observation_ids r) \<and>
     frozen (JObj (rc_payload r)) \<and> receipt_claims_match r)"

record action_reconstruction =
  rr_event_id :: string
  rr_after_receipt_event_id :: "string option"
  rr_payload :: jobj

definition valid_reconstruction :: "action_reconstruction \<Rightarrow> bool" where
  "valid_reconstruction r = (str_len 1 512 (rr_event_id r) \<and>
     bounded_opt 0 512 (rr_after_receipt_event_id r) \<and> frozen (JObj (rr_payload r)))"

record thought_branch =
  tb_branch_id :: string
  tb_stance :: string
  tb_content :: jobj
  tb_expected_consequences :: "jobj list"
  tb_uncertainty :: rat
  tb_source_ids :: "string list"
  tb_rd_phase :: rd_phase
  tb_cognition_mode :: string
  tb_algorithm_version :: string
  tb_config_version :: string

definition valid_branch :: "thought_branch \<Rightarrow> bool" where
  "valid_branch b = (str_len 1 256 (tb_branch_id b) \<and> str_len 1 64 (tb_stance b) \<and>
     frozen (JObj (tb_content b)) \<and> list_all (\<lambda>m. frozen (JObj m)) (tb_expected_consequences b) \<and>
     unit_float (tb_uncertainty b) \<and> length (tb_source_ids b) \<le> 256 \<and>
     list_all (\<lambda>i. \<not> blank i) (tb_source_ids b) \<and> str_len 1 64 (tb_cognition_mode b) \<and>
     str_len 1 64 (tb_algorithm_version b) \<and> str_len 1 64 (tb_config_version b))"

record action_record =
  ar_action_id :: string
  ar_intent :: jobj
  ar_phase :: action_phase
  ar_phase_history :: "action_phase list"
  ar_rd_phase :: rd_phase
  ar_prepared_branch_id :: "string option"
  ar_execution_confirmed :: "bool option"
  ar_outcome :: "action_outcome option"
  ar_effect_confirmed :: "bool option"
  ar_receipt :: "jobj option"
  ar_receipt_history :: "action_receipt list"
  ar_receipt_history_evicted :: int
  ar_receipt_corroboration_count :: int
  ar_receipt_conflict_count :: int
  ar_reconstruction :: "jobj option"
  ar_reconstruction_history :: "action_reconstruction list"
  ar_reconstruction_history_evicted :: int
  ar_energy_status :: energy_status
  ar_energy_request_event_id :: "string option"
  ar_energy_assessment_event_id :: "string option"
  ar_energy_failure_code :: "string option"
  ar_proposed_event_id :: string
  ar_last_event_id :: string

section \<open>The cross-field validator\<close>

text \<open>
  \<open>_execution_claims_match_lifecycle\<close> in its three parts: what the phases allow to be claimed, what
  the canonical receipt must say, and the evidence of the energy assessment.
\<close>

definition lifecycle_claims :: "action_record \<Rightarrow> bool" where
  "lifecycle_claims a =
     (let was_blocked = Blocked \<in> set (ar_phase_history a);
          was_dispatched = Dispatched \<in> set (ar_phase_history a);
          was_receipted = Receipted \<in> set (ar_phase_history a);
          receipt_claimed = (was_receipted \<or> ar_execution_confirmed a = Some True \<or> ar_outcome a \<noteq> None \<or>
            ar_effect_confirmed a \<noteq> None \<or> ar_receipt a \<noteq> None \<or> ar_receipt_history a \<noteq> [])
      in \<not> (was_blocked \<and> was_dispatched) \<and>
         \<not> (was_blocked \<and> (ar_execution_confirmed a \<noteq> Some False \<or> ar_outcome a \<noteq> None \<or>
              ar_effect_confirmed a \<noteq> None \<or> ar_receipt a \<noteq> None \<or> ar_receipt_history a \<noteq> [])) \<and>
         \<not> (ar_outcome a \<noteq> None \<and> ar_execution_confirmed a \<noteq> Some True) \<and>
         \<not> (ar_execution_confirmed a = Some True \<and> ar_outcome a = None) \<and>
         \<not> (receipt_claimed \<and> \<not> was_dispatched) \<and>
         \<not> ((ar_receipt a \<noteq> None \<or> ar_receipt_history a \<noteq> []) \<and> \<not> was_receipted) \<and>
         \<not> (ar_execution_confirmed a = Some False \<and> \<not> was_blocked))"

definition canonical_claims :: "action_record \<Rightarrow> bool" where
  "canonical_claims a = (case ar_receipt a of
     None \<Rightarrow> True
   | Some r \<Rightarrow> (case receipt_status_of (jget r ''status'') of
       None \<Rightarrow> False
     | Some st \<Rightarrow>
         validate_receipt_source_semantics st (jget r ''source_status'') (jget r ''source_error_type'') = Inr () \<and>
         (if st = StUnknown then ar_execution_confirmed a = None \<and> ar_outcome a = None
          else ar_execution_confirmed a = Some True \<and> ar_outcome a = outcome_of_status st)))"

definition energy_claims :: "action_record \<Rightarrow> bool" where
  "energy_claims a = (case ar_energy_status a of
     Unrequested \<Rightarrow> ar_energy_request_event_id a = None \<and> ar_energy_assessment_event_id a = None \<and>
       ar_energy_failure_code a = None
   | EnergyPending \<Rightarrow> ar_energy_request_event_id a \<noteq> None \<and> ar_energy_assessment_event_id a = None \<and>
       ar_energy_failure_code a = None
   | Assessed \<Rightarrow> ar_energy_assessment_event_id a \<noteq> None \<and> ar_energy_failure_code a \<in> {None, Some ''''}
   | EnergyFailed \<Rightarrow> ar_energy_request_event_id a \<noteq> None \<and> ar_energy_assessment_event_id a = None \<and>
       ar_energy_failure_code a \<noteq> None)"

definition valid_action :: "action_record \<Rightarrow> bool" where
  "valid_action a = (str_len 1 512 (ar_action_id a) \<and> frozen (JObj (ar_intent a)) \<and>
     bounded_opt 0 256 (ar_prepared_branch_id a) \<and>
     (case ar_receipt a of None \<Rightarrow> True | Some r \<Rightarrow> frozen (JObj r)) \<and>
     list_all valid_receipt (ar_receipt_history a) \<and>
     length (ar_receipt_history a) \<le> MAX_ACTION_RECEIPT_HISTORY \<and>
     0 \<le> ar_receipt_history_evicted a \<and> 0 \<le> ar_receipt_corroboration_count a \<and>
     0 \<le> ar_receipt_conflict_count a \<and>
     (case ar_reconstruction a of None \<Rightarrow> True | Some r \<Rightarrow> frozen (JObj r)) \<and>
     list_all valid_reconstruction (ar_reconstruction_history a) \<and>
     length (ar_reconstruction_history a) \<le> MAX_ACTION_RECONSTRUCTION_HISTORY \<and>
     0 \<le> ar_reconstruction_history_evicted a \<and> bounded_opt 0 160 (ar_energy_failure_code a) \<and>
     lifecycle_claims a \<and> canonical_claims a \<and> energy_claims a)"

text \<open>\<open>ActionRecord.model_validate({**action.model_dump(), **values})\<close>.\<close>

definition action_validated :: "action_record \<Rightarrow> action_record res" where
  "action_validated a = (if valid_action a then Inr a else Inl (ValidationError ''ActionRecord''))"

section \<open>Operations\<close>

definition action_id_from_event :: "event_envelope \<Rightarrow> string res" where
  "action_id_from_event e = (case jget (ev_payload e) ''action_id'' of
     JStr s \<Rightarrow>
       if blank s then Inl (DomainInvariantError ''action event requires a non-blank action_id'')
       else if ev_action_id e \<noteq> None \<and> ev_action_id e \<noteq> Some s then
         Inl (DomainInvariantError ''envelope/payload action_id mismatch'')
       else Inr s
   | _ \<Rightarrow> Inl (DomainInvariantError ''action event requires a non-blank action_id''))"

definition replace_action :: "action_record list \<Rightarrow> action_record \<Rightarrow> action_record list" where
  "replace_action actions a = filter (\<lambda>x. ar_action_id x \<noteq> ar_action_id a) actions @ [a]"

definition find_action :: "action_record list \<Rightarrow> string \<Rightarrow> action_record res" where
  "find_action actions aid = (case lookup ar_action_id actions aid of
     Some a \<Rightarrow> Inr a
   | None \<Rightarrow> Inl (DomainInvariantError (''action '' @ py_repr aid @ '' must be proposed first'')))"

definition transition :: "action_record \<Rightarrow> event_envelope \<Rightarrow> action_phase \<Rightarrow> action_phase \<Rightarrow> rd_phase \<Rightarrow>
    (action_record \<Rightarrow> action_record) \<Rightarrow> action_record res" where
  "transition a e required phase rd updates =
     (if ar_phase a \<noteq> required then
        Inl (DomainInvariantError (''action must be '' @ phase_value required @ '' before '' @ phase_value phase))
      else rewrap ''invalid action transition'' (action_validated (updates (a\<lparr>
        ar_phase := phase,
        ar_phase_history := (if phase \<in> set (ar_phase_history a) then ar_phase_history a
          else ar_phase_history a @ [phase]),
        ar_rd_phase := rd,
        ar_last_event_id := ev_event_id e\<rparr>))))"

text \<open>One round of the observation loop of \<open>_receipt_grounded_ids\<close>.\<close>

definition collect_observation :: "(string \<times> jobj) list \<Rightarrow> json \<Rightarrow> (string \<times> jobj) list res" where
  "collect_observation acc item = (case item of
     JObj m \<Rightarrow> (case jget m ''proposition_id'' of
         JStr pid \<Rightarrow>
           if blank pid then Inl (DomainInvariantError ''receipt observation requires a non-blank proposition ID'')
           else if pid \<in> fst ` set acc then
             Inl (DomainInvariantError (''receipt observation ID '' @ py_repr pid @ '' is ambiguous''))
           else Inr (acc @ [(pid, m)])
       | _ \<Rightarrow> Inl (DomainInvariantError ''receipt observation requires a non-blank proposition ID''))
   | _ \<Rightarrow> Inl (DomainInvariantError ''receipt observation must be an object''))"

definition is_object :: "json \<Rightarrow> bool" where
  "is_object v = (case v of JObj _ \<Rightarrow> True | _ \<Rightarrow> False)"

definition link_observations :: "jobj \<Rightarrow> string list \<Rightarrow> string list res" where
  "link_observations p ids = (case jget p ''observations'' of
     JArr items \<Rightarrow>
       rbind (rfold collect_observation [] items) (\<lambda>by_id.
       if \<not> list_all (\<lambda>i. i \<in> fst ` set by_id) ids then
         Inl (DomainInvariantError ''receipt effect evidence does not match supplied observations'')
       else if \<not> list_all (\<lambda>i. is_object (jget (the (map_of by_id i)) ''content'')) ids then
         Inl (DomainInvariantError ''linked receipt observation content must be an object'')
       else Inr ids)
   | _ \<Rightarrow> Inl (DomainInvariantError ''receipt observations must be an array''))"

definition receipt_grounded_ids :: "event_envelope \<Rightarrow> bool \<Rightarrow> string list res" where
  "receipt_grounded_ids e trusted = (case jget (ev_payload e) ''effect_evidence'' of
     JNull \<Rightarrow> Inr []
   | JObj evidence \<Rightarrow>
       if jget evidence ''kind'' \<noteq> JStr ''linked_observation'' then
         Inl (DomainInvariantError ''receipt effect evidence kind is unsupported'')
       else (case jget evidence ''observation_ids'' of
         JArr (v # vs) \<Rightarrow> (case as_strs (v # vs) of
             None \<Rightarrow> Inl (DomainInvariantError ''receipt effect evidence observation IDs must be non-blank strings'')
           | Some ids \<Rightarrow>
               if \<not> list_all (\<lambda>i. \<not> blank i) ids then
                 Inl (DomainInvariantError ''receipt effect evidence observation IDs must be non-blank strings'')
               else if \<not> distinct ids then
                 Inl (DomainInvariantError ''receipt effect evidence observation IDs must be unique'')
               else if MAX_WORLD_PROPOSITIONS_PER_LAYER < length ids then
                 Inl (DomainCapacityError ''receipt observation capacity is bounded; receipt was not applied'')
               else rbind (link_observations (ev_payload e) ids) (\<lambda>linked.
                 Inr (if trusted then linked else [])))
       | _ \<Rightarrow> Inl (DomainInvariantError ''receipt effect evidence requires observation IDs''))
   | _ \<Rightarrow> Inl (DomainInvariantError ''receipt effect evidence must be an object''))"

fun receipt_disposition_of :: "action_record \<Rightarrow> receipt_status \<Rightarrow> receipt_disposition" where
  "receipt_disposition_of a StUnknown = Pending"
| "receipt_disposition_of a status =
     (if ar_outcome a = None then (if ar_phase a = Dispatched then Confirmed else Resolution)
      else if ar_outcome a = outcome_of_status status then Corroboration else Conflict)"

subsection \<open>One operation per event type\<close>

definition propose_action :: "action_record list \<Rightarrow> event_envelope \<Rightarrow> string \<Rightarrow> action_record res" where
  "propose_action actions e aid =
     (if list_ex (\<lambda>x. ar_action_id x = aid) actions then
        Inl (DomainInvariantError (''action '' @ py_repr aid @ '' is already proposed''))
      else case jget (ev_payload e) ''intent'' of
        JObj intent \<Rightarrow> rewrap ''invalid action proposal'' (action_validated \<lparr>
          ar_action_id = aid, ar_intent = intent, ar_phase = Proposed, ar_phase_history = [Proposed],
          ar_rd_phase = RdSimulate, ar_prepared_branch_id = None, ar_execution_confirmed = None,
          ar_outcome = None, ar_effect_confirmed = None, ar_receipt = None, ar_receipt_history = [],
          ar_receipt_history_evicted = 0, ar_receipt_corroboration_count = 0,
          ar_receipt_conflict_count = 0, ar_reconstruction = None, ar_reconstruction_history = [],
          ar_reconstruction_history_evicted = 0, ar_energy_status = Unrequested,
          ar_energy_request_event_id = None, ar_energy_assessment_event_id = None,
          ar_energy_failure_code = None, ar_proposed_event_id = ev_event_id e,
          ar_last_event_id = ev_event_id e\<rparr>)
      | _ \<Rightarrow> Inl (DomainInvariantError ''intent must be an object''))"

definition request_energy :: "action_record \<Rightarrow> event_envelope \<Rightarrow> action_record res" where
  "request_energy a e =
     (let legacy_reassessment = (ev_adapter_id e = Some ''alice-brain-hermes-energy-migration-v1'' \<and>
          jget (ev_payload e) ''reassessment_reason'' = JStr ''legacy_neutral_default'' \<and>
          jget (ev_payload e) ''replaces_event_id'' = opt_json JStr (ar_energy_assessment_event_id a))
      in if ar_energy_status a = Unrequested \<or> ar_energy_status a = Assessed \<and> legacy_reassessment then
           action_validated (a\<lparr>ar_energy_status := EnergyPending,
             ar_energy_request_event_id := Some (ev_event_id e), ar_energy_assessment_event_id := None,
             ar_energy_failure_code := None\<rparr>)
         else Inl (DomainInvariantError ''action energy assessment is already requested''))"

definition assess_energy :: "action_record \<Rightarrow> event_envelope \<Rightarrow> action_record res" where
  "assess_energy a e =
     (if ar_energy_status a \<notin> {Unrequested, EnergyPending} then
        Inl (DomainInvariantError ''action energy assessment is already terminal'')
      else action_validated (a\<lparr>ar_energy_status := Assessed,
        ar_energy_assessment_event_id := Some (ev_event_id e), ar_energy_failure_code := None\<rparr>))"

definition fail_energy :: "action_record \<Rightarrow> event_envelope \<Rightarrow> action_record res" where
  "fail_energy a e = (case jget (ev_payload e) ''failure_code'' of
     JStr code \<Rightarrow>
       if ar_energy_status a \<noteq> EnergyPending \<or> blank code \<or> 160 < length code then
         Inl (DomainInvariantError ''action energy failure evidence is invalid'')
       else action_validated (a\<lparr>ar_energy_status := EnergyFailed, ar_energy_failure_code := Some code\<rparr>)
   | _ \<Rightarrow> Inl (DomainInvariantError ''action energy failure evidence is invalid''))"

definition prepare_action :: "action_record \<Rightarrow> event_envelope \<Rightarrow> action_record res" where
  "prepare_action a e = (case as_opt_str (jget (ev_payload e) ''branch_id'') of
     None \<Rightarrow> Inl (DomainInvariantError ''prepared branch_id must be non-blank'')
   | Some branch \<Rightarrow>
       if (case branch of None \<Rightarrow> False | Some s \<Rightarrow> blank s) then
         Inl (DomainInvariantError ''prepared branch_id must be non-blank'')
       else transition a e Proposed Prepared RdPrepare (\<lambda>r. r\<lparr>ar_prepared_branch_id := branch\<rparr>))"

definition block_action :: "action_record \<Rightarrow> event_envelope \<Rightarrow> action_record res" where
  "block_action a e = rbind (validate_blocked_source_semantics (ev_payload e)) (\<lambda>_.
     transition a e Prepared Blocked RdPrepare (\<lambda>r. r\<lparr>ar_execution_confirmed := Some False\<rparr>))"

definition dispatch_action :: "action_record \<Rightarrow> event_envelope \<Rightarrow> action_record res" where
  "dispatch_action a e = transition a e Prepared Dispatched RdPrepare (\<lambda>r. r)"

text \<open>The phase and late-flag guards of a receipt.\<close>

definition receipt_admitted :: "action_record \<Rightarrow> bool \<Rightarrow> unit res" where
  "receipt_admitted a late =
     (if ar_phase a = Dispatched then
        (if late then Inl (DomainInvariantError ''initial receipt cannot be marked late'') else Inr ())
      else if ar_phase a \<in> {Receipted, Reconstructed} then
        (if late then Inr () else Inl (DomainInvariantError ''additional receipt must be marked late''))
      else Inl (DomainInvariantError ''action must be dispatched before receipt''))"

definition receipt_record :: "action_record \<Rightarrow> event_envelope \<Rightarrow> receipt_status \<Rightarrow> bool \<Rightarrow>
    string list \<Rightarrow> action_receipt res" where
  "receipt_record a e status late grounded =
     rewrap ''invalid action receipt'' (
       rbind (of_option (ValidationError ''source_status'') (as_opt_str (jget (ev_payload e) ''source_status''))) (\<lambda>ss.
       rbind (of_option (ValidationError ''source_error_type'') (as_opt_str (jget (ev_payload e) ''source_error_type''))) (\<lambda>se.
       let r = \<lparr>rc_event_id = ev_event_id e, rc_status = status,
         rc_disposition = receipt_disposition_of a status, rc_source_status = ss, rc_source_error_type = se,
         rc_late = late, rc_execution_confirmed = (if status = StUnknown then None else Some True),
         rc_outcome = outcome_of_status status, rc_effect_observation_ids = sort grounded,
         rc_payload = ev_payload e\<rparr>
       in if valid_receipt r then Inr r else Inl (ValidationError ''ActionReceiptRecord''))))"

definition receipt_updates :: "action_record \<Rightarrow> event_envelope \<Rightarrow> action_receipt \<Rightarrow> string list \<Rightarrow>
    action_record \<Rightarrow> action_record" where
  "receipt_updates a e rec grounded r = r\<lparr>
     ar_execution_confirmed := (if rc_status rec \<noteq> StUnknown then Some True else ar_execution_confirmed a),
     ar_outcome := (if ar_outcome a = None then rc_outcome rec else ar_outcome a),
     ar_effect_confirmed := (if grounded \<noteq> [] \<or> ar_effect_confirmed a = Some True then Some True
       else ar_effect_confirmed a),
     ar_receipt := (if ar_receipt a = None \<or> rc_disposition rec = Resolution then Some (ev_payload e)
       else ar_receipt a),
     ar_receipt_history := last_n MAX_ACTION_RECEIPT_HISTORY (ar_receipt_history a @ [rec]),
     ar_receipt_history_evicted := ar_receipt_history_evicted a +
       (if MAX_ACTION_RECEIPT_HISTORY \<le> length (ar_receipt_history a) then 1 else 0),
     ar_receipt_corroboration_count := ar_receipt_corroboration_count a +
       (if rc_disposition rec = Corroboration then 1 else 0),
     ar_receipt_conflict_count := ar_receipt_conflict_count a +
       (if rc_disposition rec = Conflict then 1 else 0)\<rparr>"

definition receive_action :: "action_record \<Rightarrow> event_envelope \<Rightarrow> bool \<Rightarrow> (action_record \<times> string list) res" where
  "receive_action a e trusted = (case receipt_status_of (jget (ev_payload e) ''status'') of
     None \<Rightarrow> Inl (DomainInvariantError ''receipt status must be success, failure or unknown'')
   | Some status \<Rightarrow>
       rbind (rewrap ''receipt source semantics are inconsistent''
         (validate_receipt_source_semantics status (jget (ev_payload e) ''source_status'')
           (jget (ev_payload e) ''source_error_type''))) (\<lambda>_.
       case jget_or (ev_payload e) ''late'' (JBool False) of
         JBool late \<Rightarrow>
           rbind (receipt_admitted a late) (\<lambda>_.
           rbind (receipt_grounded_ids e trusted) (\<lambda>grounded.
           rbind (receipt_record a e status late grounded) (\<lambda>rec.
           rbind (if ar_phase a = Receipted
             then action_validated ((receipt_updates a e rec grounded a)\<lparr>ar_last_event_id := ev_event_id e\<rparr>)
             else transition a e (ar_phase a) Receipted RdPrepare (receipt_updates a e rec grounded)) (\<lambda>a'.
           Inr (a', grounded)))))
       | _ \<Rightarrow> Inl (DomainInvariantError ''receipt late flag must be a boolean'')))"

definition reconstruct_action :: "action_record \<Rightarrow> event_envelope \<Rightarrow> action_record res" where
  "reconstruct_action a e =
     (if ar_phase a \<notin> {Blocked, Receipted} then
        Inl (DomainInvariantError ''action must have a blocked outcome or receipt before reconstruction'')
      else
        let r = \<lparr>rr_event_id = ev_event_id e,
          rr_after_receipt_event_id = (if ar_receipt_history a = [] then None
            else Some (rc_event_id (last (ar_receipt_history a)))), rr_payload = ev_payload e\<rparr>
        in rbind (rewrap ''invalid action reconstruction''
            (if valid_reconstruction r then Inr r else Inl (ValidationError ''ActionReconstructionRecord''))) (\<lambda>r.
          transition a e (ar_phase a) Reconstructed RdReconstruct (\<lambda>x. x\<lparr>
            ar_reconstruction := Some (ev_payload e),
            ar_reconstruction_history := last_n MAX_ACTION_RECONSTRUCTION_HISTORY (ar_reconstruction_history a @ [r]),
            ar_reconstruction_history_evicted := ar_reconstruction_history_evicted a +
              (if MAX_ACTION_RECONSTRUCTION_HISTORY \<le> length (ar_reconstruction_history a) then 1 else 0)\<rparr>)))"

definition action_lifecycle_events :: "string list" where
  "action_lifecycle_events = [''action.proposed'', ''action.prepared'', ''action.blocked'', ''action.dispatched'',
     ''action.receipt'', ''action.reconstructed'', ''action.energy_requested'', ''action.energy_assessed'',
     ''action.energy_assessment_failed'']"

definition energy_event_types :: "string list" where
  "energy_event_types = [''action.energy_requested'', ''action.energy_assessed'', ''action.energy_assessment_failed'']"

text \<open>The branches of \<open>reduce_actions\<close> on an action that was found.\<close>

definition step_action :: "action_record \<Rightarrow> event_envelope \<Rightarrow> bool \<Rightarrow> (action_record \<times> string list) res" where
  "step_action a e trusted =
     (let t = ev_event_type e; keep = (\<lambda>m. rbind m (\<lambda>a'. Inr (a', []))) in
      if t = ''action.energy_requested'' then keep (request_energy a e)
      else if t = ''action.energy_assessed'' then keep (assess_energy a e)
      else if t = ''action.energy_assessment_failed'' then keep (fail_energy a e)
      else if t = ''action.prepared'' then keep (prepare_action a e)
      else if t = ''action.blocked'' then keep (block_action a e)
      else if t = ''action.dispatched'' then keep (dispatch_action a e)
      else if t = ''action.receipt'' then receive_action a e trusted
      else keep (reconstruct_action a e))"

definition reduce_actions ::
  "action_record list \<Rightarrow> event_envelope \<Rightarrow> bool \<Rightarrow> (action_record list \<times> string list) res" where
  "reduce_actions actions e trusted_provenance =
     (if ev_event_type e \<notin> set action_lifecycle_events then Inr (actions, [])
      else rbind (action_id_from_event e) (\<lambda>aid.
        if ev_event_type e = ''action.proposed'' then
          rbind (propose_action actions e aid) (\<lambda>a. Inr (actions @ [a], []))
        else rbind (case find_action actions aid of
            Inr a \<Rightarrow> Inr a
          | Inl err \<Rightarrow> Inl (if ev_event_type e \<in> set energy_event_types
              then DomainInvariantError ''energy assessment requires an existing action'' else err)) (\<lambda>a.
          rbind (step_action a e trusted_provenance) (\<lambda>(a', grounded).
            Inr (replace_action actions a', grounded)))))"

end
