(* ===== verification/Lifecycle.thy ===== *)
theory Lifecycle imports Action
begin

text \<open>
  What \<open>Action\<close> guarantees: the life of an action as a state machine, the invariant that ties a
  record to a state of it, and the lemmas that each operation takes one step of the machine, keeps
  the invariant and fails with domain errors only.
\<close>

section \<open>The life of an action\<close>

datatype life =
    LProposed | LPrepared | LBlocked | LRefused | LDispatched | LReceipted | LReconstructed | LRevised

fun life_phase :: "life \<Rightarrow> action_phase" where
  "life_phase LProposed = Proposed"
| "life_phase LPrepared = Prepared"
| "life_phase LBlocked = Blocked"
| "life_phase LRefused = Reconstructed"
| "life_phase LDispatched = Dispatched"
| "life_phase LReceipted = Receipted"
| "life_phase LReconstructed = Reconstructed"
| "life_phase LRevised = Receipted"

fun life_history :: "life \<Rightarrow> action_phase list" where
  "life_history LProposed = [Proposed]"
| "life_history LPrepared = [Proposed, Prepared]"
| "life_history LBlocked = [Proposed, Prepared, Blocked]"
| "life_history LRefused = [Proposed, Prepared, Blocked, Reconstructed]"
| "life_history LDispatched = [Proposed, Prepared, Dispatched]"
| "life_history LReceipted = [Proposed, Prepared, Dispatched, Receipted]"
| "life_history LReconstructed = [Proposed, Prepared, Dispatched, Receipted, Reconstructed]"
| "life_history LRevised = [Proposed, Prepared, Dispatched, Receipted, Reconstructed]"

text \<open>
  The machine, labelled by event types. A blocked action can only be reconstructed; receipts follow a
  dispatch, and a late receipt after the reconstruction opens the action for a new one.
\<close>

inductive life_step :: "life \<Rightarrow> string \<Rightarrow> life \<Rightarrow> bool" where
  prepare: "life_step LProposed ''action.prepared'' LPrepared"
| block: "life_step LPrepared ''action.blocked'' LBlocked"
| dispatch: "life_step LPrepared ''action.dispatched'' LDispatched"
| first_receipt: "life_step LDispatched ''action.receipt'' LReceipted"
| late_receipt: "l \<in> {LReceipted, LRevised} \<Longrightarrow> life_step l ''action.receipt'' l"
| reopen: "life_step LReconstructed ''action.receipt'' LRevised"
| refuse: "life_step LBlocked ''action.reconstructed'' LRefused"
| reconstruct: "l \<in> {LReceipted, LRevised} \<Longrightarrow> life_step l ''action.reconstructed'' LReconstructed"
| energy: "t \<in> set energy_event_types \<Longrightarrow> life_step l t l"

inductive_cases life_step_from_blocked: "life_step LBlocked t l"
inductive_cases life_step_from_refused: "life_step LRefused t l"

definition all_lives :: "life list" where
  "all_lives = [LProposed, LPrepared, LBlocked, LRefused, LDispatched, LReceipted, LReconstructed, LRevised]"

definition at_life :: "action_record \<Rightarrow> life \<Rightarrow> bool" where
  "at_life a l = (ar_phase a = life_phase l \<and> ar_phase_history a = life_history l)"

text \<open>
  The invariant of a reachable record: its own validator, a phase and history that belong together,
  and a canonical receipt exactly from the first receipt on.
\<close>

definition action_wf :: "action_record \<Rightarrow> bool" where
  "action_wf a = (valid_action a \<and> list_ex (at_life a) all_lives \<and>
     (Receipted \<in> set (ar_phase_history a) \<longleftrightarrow> ar_receipt a \<noteq> None) \<and>
     \<not> (ar_outcome a \<noteq> None \<and> ar_receipt a = None))"

lemma ex_life: "list_ex P all_lives \<longleftrightarrow> (\<exists>l. P l)"
proof -
  have "l \<in> set all_lives" for l by (cases l) (simp_all add: all_lives_def)
  then show ?thesis by (auto simp: list_ex_iff)
qed

lemma at_life_unique: "at_life a l \<Longrightarrow> at_life a l' \<Longrightarrow> l' = l"
  by (cases l; cases l') (simp_all add: at_life_def)

section \<open>Source semantics\<close>

lemma validate_error_type_Inl:
  "validate_source_error_type v = Inl e \<Longrightarrow> \<exists>m. e = PyValueError m"
  by (auto simp: validate_source_error_type_def split: json.splits if_splits)

lemma validate_blocked_Inl: "validate_blocked_source_semantics p = Inl e \<Longrightarrow> is_domain_error e"
  by (auto simp: validate_blocked_source_semantics_def Let_def rbind_eq_Inl rewrap_eq_Inl split: if_splits)

lemma receipt_status_of_value [simp]: "receipt_status_of (JStr (status_value s)) = Some s"
  by (cases s) (simp_all add: receipt_status_of_def)

lemma receipt_status_of_Some: "receipt_status_of v = Some s \<longleftrightarrow> v = JStr (status_value s)"
  by (cases s) (auto simp: receipt_status_of_def)

lemma outcome_of_status_None [simp]: "outcome_of_status s = None \<longleftrightarrow> s = StUnknown"
  by (cases s) simp_all

lemma outcome_of_status_inj: "outcome_of_status s = Some out \<Longrightarrow> outcome_of_status s' = Some out \<Longrightarrow> s = s'"
  by (cases s; cases s') auto

lemma opt_str_json: "as_opt_str v = Some s \<longleftrightarrow> v = opt_json JStr s"
  by (cases v; cases s) (auto simp: opt_json_def)

text \<open>\<open>sort\<close> of the identifiers keeps what the receipt validator asks of them.\<close>

lemma sorted_ids:
  "distinct ids \<Longrightarrow> list_all (\<lambda>i. \<not> blank i) ids \<Longrightarrow> distinct (sort ids) \<and> list_all (\<lambda>i. \<not> blank i) (sort ids)"
  by (simp add: list_all_iff)

section \<open>Grounding\<close>

lemma collect_observation_Inl: "collect_observation acc item = Inl e \<Longrightarrow> is_domain_error e"
  by (auto simp: collect_observation_def split: json.splits if_splits)

lemma link_observations_Inl: "link_observations p ids = Inl e \<Longrightarrow> is_domain_error e"
proof -
  have loop: "rfold collect_observation acc items = Inl e \<Longrightarrow> is_domain_error e" for acc items e
    by (rule rfold_Inl [where P = is_domain_error]) (auto intro: collect_observation_Inl)
  show "link_observations p ids = Inl e \<Longrightarrow> is_domain_error e"
    by (auto simp: link_observations_def rbind_eq_Inl split: json.splits if_splits dest: loop)
qed

lemma receipt_grounded_Inl: "receipt_grounded_ids e t = Inl err \<Longrightarrow> is_domain_error err"
  by (auto simp: receipt_grounded_ids_def rbind_eq_Inl Let_def simp del: as_strs.simps
      split: json.splits if_splits list.splits option.splits dest: link_observations_Inl)

text \<open>The observations a payload supplies, by identifier.\<close>

definition supplied :: "jobj \<Rightarrow> string \<Rightarrow> bool" where
  "supplied p i = (case jget p ''observations'' of
     JArr items \<Rightarrow> list_ex (\<lambda>v. case v of
         JObj m \<Rightarrow> jget m ''proposition_id'' = JStr i \<and> is_object (jget m ''content'')
       | _ \<Rightarrow> False) items
   | _ \<Rightarrow> False)"

lemma collect_observation_Inr:
  "collect_observation acc item = Inr acc' \<Longrightarrow>
   \<exists>m pid. item = JObj m \<and> jget m ''proposition_id'' = JStr pid \<and> acc' = acc @ [(pid, m)]"
  by (auto simp: collect_observation_def split: json.splits if_splits)

lemma collected_observations:
  "rfold collect_observation acc items = Inr by_id \<Longrightarrow> (i, m) \<in> set by_id \<Longrightarrow>
   (i, m) \<in> set acc \<or> JObj m \<in> set items \<and> jget m ''proposition_id'' = JStr i"
proof (induction items arbitrary: acc)
  case (Cons item items)
  then obtain acc' where "collect_observation acc item = Inr acc'" "rfold collect_observation acc' items = Inr by_id"
    by (auto simp: rbind_eq_Inr)
  with Cons.IH Cons.prems(2) show ?case by (fastforce dest!: collect_observation_Inr)
qed simp

lemma link_observations_Inr:
  assumes "link_observations p ids = Inr linked"
  shows "linked = ids \<and> (\<forall>i \<in> set ids. supplied p i)"
proof -
  obtain items where items: "jget p ''observations'' = JArr items"
    using assms by (auto simp: link_observations_def split: json.splits)
  obtain by_id where b: "rfold collect_observation [] items = Inr by_id"
    "list_all (\<lambda>i. i \<in> fst ` set by_id) ids"
    "list_all (\<lambda>i. is_object (jget (the (map_of by_id i)) ''content'')) ids" "linked = ids"
    using assms items by (auto simp: link_observations_def rbind_eq_Inr split: if_splits)
  have "supplied p i" if i: "i \<in> set ids" for i
  proof -
    obtain m where m: "map_of by_id i = Some m"
      using b(2) i by (cases "map_of by_id i") (auto simp: list_all_iff map_of_eq_None_iff)
    then have "(i, m) \<in> set by_id" by (rule map_of_SomeD)
    with collected_observations [OF b(1)] have "JObj m \<in> set items" "jget m ''proposition_id'' = JStr i" by auto
    moreover have "is_object (jget m ''content'')" using b(3) i m by (auto simp: list_all_iff)
    ultimately show ?thesis by (simp add: supplied_def items list_ex_iff bexI [of _ "JObj m"])
  qed
  with b(4) show ?thesis by simp
qed

lemma receipt_grounded_Inr:
  assumes "receipt_grounded_ids e t = Inr g"
  shows "distinct g \<and> list_all (\<lambda>i. \<not> blank i) g \<and> length g \<le> MAX_WORLD_PROPOSITIONS_PER_LAYER \<and>
    (g \<noteq> [] \<longrightarrow> t) \<and> (\<forall>i \<in> set g. supplied (ev_payload e) i)"
proof (cases "jget (ev_payload e) ''effect_evidence''")
  case (JObj ev)
  with assms obtain v vs where vs: "jget ev ''observation_ids'' = JArr (v # vs)"
    by (auto simp: receipt_grounded_ids_def split: json.splits if_splits list.splits)
  with assms JObj obtain ids where ids: "as_strs (v # vs) = Some ids"
    by (auto simp: receipt_grounded_ids_def simp del: as_strs.simps split: if_splits option.splits)
  from assms show ?thesis
    by (auto simp: receipt_grounded_ids_def JObj vs ids rbind_eq_Inr simp del: as_strs.simps
        split: if_splits dest: link_observations_Inr)
qed (use assms in \<open>simp_all add: receipt_grounded_ids_def\<close>)

section \<open>Operations\<close>

lemma action_validated_Inr [simp]: "action_validated a = Inr b \<longleftrightarrow> valid_action a \<and> b = a"
  by (auto simp: action_validated_def)

lemma transition_Inr:
  "transition a e req ph rd upd = Inr a' \<Longrightarrow> ar_phase a = req \<and> valid_action a' \<and>
   a' = upd (a\<lparr>ar_phase := ph, ar_phase_history := (if ph \<in> set (ar_phase_history a) then ar_phase_history a
     else ar_phase_history a @ [ph]), ar_rd_phase := rd, ar_last_event_id := ev_event_id e\<rparr>)"
  by (auto simp: transition_def rewrap_eq_Inr split: if_splits)

lemma transition_Inl: "transition a e req ph rd upd = Inl err \<Longrightarrow> is_domain_error err"
  by (auto simp: transition_def rewrap_eq_Inl split: if_splits)

text \<open>What the receipt step returns, in one line.\<close>

lemma receive_action_Inr:
  assumes "receive_action a e t = Inr (a', g)"
  obtains status late rec where
    "receipt_status_of (jget (ev_payload e) ''status'') = Some status"
    "validate_receipt_source_semantics status (jget (ev_payload e) ''source_status'')
      (jget (ev_payload e) ''source_error_type'') = Inr ()"
    "receipt_admitted a late = Inr ()" "receipt_grounded_ids e t = Inr g"
    "receipt_record a e status late g = Inr rec" "valid_action a'"
    "a' = (if ar_phase a = Receipted then (receipt_updates a e rec g a)\<lparr>ar_last_event_id := ev_event_id e\<rparr>
      else receipt_updates a e rec g (a\<lparr>ar_phase := Receipted,
        ar_phase_history := (if Receipted \<in> set (ar_phase_history a) then ar_phase_history a
          else ar_phase_history a @ [Receipted]), ar_rd_phase := RdPrepare, ar_last_event_id := ev_event_id e\<rparr>))"
proof -
  obtain status where st: "receipt_status_of (jget (ev_payload e) ''status'') = Some status"
    using assms by (auto simp: receive_action_def split: option.splits)
  obtain late where late: "jget_or (ev_payload e) ''late'' (JBool False) = JBool late"
    using assms st by (auto simp: receive_action_def rbind_eq_Inr split: json.splits)
  have sem: "validate_receipt_source_semantics status (jget (ev_payload e) ''source_status'')
      (jget (ev_payload e) ''source_error_type'') = Inr ()"
    using assms st by (auto simp: receive_action_def rbind_eq_Inr rewrap_eq_Inr)
  from assms st late sem obtain rec where r: "receipt_admitted a late = Inr ()" "receipt_grounded_ids e t = Inr g"
    "receipt_record a e status late g = Inr rec"
    "(if ar_phase a = Receipted
       then action_validated ((receipt_updates a e rec g a)\<lparr>ar_last_event_id := ev_event_id e\<rparr>)
       else transition a e (ar_phase a) Receipted RdPrepare (receipt_updates a e rec g)) = Inr a'"
    by (auto simp: receive_action_def rbind_eq_Inr)
  show ?thesis
  proof (cases "ar_phase a = Receipted")
    case True
    with r st sem show ?thesis by (intro that [of status late rec]) auto
  next
    case False
    with r(4) have "transition a e (ar_phase a) Receipted RdPrepare (receipt_updates a e rec g) = Inr a'" by simp
    from transition_Inr [OF this] False r st sem show ?thesis by (intro that [of status late rec]) auto
  qed
qed

lemma receipt_record_Inr:
  assumes "receipt_record a e status late g = Inr rec"
  shows "valid_receipt rec \<and> rc_status rec = status \<and> rc_outcome rec = outcome_of_status status \<and>
    rc_disposition rec = receipt_disposition_of a status \<and> rc_effect_observation_ids rec = sort g \<and>
    rc_payload rec = ev_payload e"
  using assms unfolding receipt_record_def rewrap_eq_Inr rbind_eq_Inr Let_def by (auto split: if_splits)

lemma receipt_record_Inl: "receipt_record a e status late g = Inl err \<Longrightarrow> is_domain_error err"
  by (auto simp: receipt_record_def rewrap_eq_Inl)

lemma receipt_admitted_Inr:
  "receipt_admitted a late = Inr u \<Longrightarrow> ar_phase a \<in> {Dispatched, Receipted, Reconstructed}"
  by (auto simp: receipt_admitted_def split: if_splits)

lemma receipt_admitted_Inl: "receipt_admitted a late = Inl err \<Longrightarrow> is_domain_error err"
  by (auto simp: receipt_admitted_def split: if_splits)

lemma receipt_updates_simps [simp]:
  "ar_phase (receipt_updates a e rec g r) = ar_phase r"
  "ar_phase_history (receipt_updates a e rec g r) = ar_phase_history r"
  "ar_action_id (receipt_updates a e rec g r) = ar_action_id r"
  "ar_intent (receipt_updates a e rec g r) = ar_intent r"
  "ar_prepared_branch_id (receipt_updates a e rec g r) = ar_prepared_branch_id r"
  "ar_reconstruction (receipt_updates a e rec g r) = ar_reconstruction r"
  "ar_reconstruction_history (receipt_updates a e rec g r) = ar_reconstruction_history r"
  "ar_reconstruction_history_evicted (receipt_updates a e rec g r) = ar_reconstruction_history_evicted r"
  "ar_energy_status (receipt_updates a e rec g r) = ar_energy_status r"
  "ar_energy_request_event_id (receipt_updates a e rec g r) = ar_energy_request_event_id r"
  "ar_energy_assessment_event_id (receipt_updates a e rec g r) = ar_energy_assessment_event_id r"
  "ar_energy_failure_code (receipt_updates a e rec g r) = ar_energy_failure_code r"
  by (simp_all add: receipt_updates_def)

lemma receipt_updates_fields [simp]:
  "ar_receipt (receipt_updates a e rec g r) =
     (if ar_receipt a = None \<or> rc_disposition rec = Resolution then Some (ev_payload e) else ar_receipt a)"
  "ar_execution_confirmed (receipt_updates a e rec g r) =
     (if rc_status rec \<noteq> StUnknown then Some True else ar_execution_confirmed a)"
  "ar_outcome (receipt_updates a e rec g r) = (if ar_outcome a = None then rc_outcome rec else ar_outcome a)"
  "ar_effect_confirmed (receipt_updates a e rec g r) =
     (if g \<noteq> [] \<or> ar_effect_confirmed a = Some True then Some True else ar_effect_confirmed a)"
  "ar_receipt_history (receipt_updates a e rec g r) =
     last_n MAX_ACTION_RECEIPT_HISTORY (ar_receipt_history a @ [rec])"
  "ar_receipt_history_evicted (receipt_updates a e rec g r) = ar_receipt_history_evicted a +
     (if MAX_ACTION_RECEIPT_HISTORY \<le> length (ar_receipt_history a) then 1 else 0)"
  "ar_receipt_corroboration_count (receipt_updates a e rec g r) = ar_receipt_corroboration_count a +
     (if rc_disposition rec = Corroboration then 1 else 0)"
  "ar_receipt_conflict_count (receipt_updates a e rec g r) = ar_receipt_conflict_count a +
     (if rc_disposition rec = Conflict then 1 else 0)"
  by (simp_all add: receipt_updates_def)

lemma energy_claims_update [simp]:
  "energy_claims (receipt_updates a e rec g r) = energy_claims r"
  "energy_claims (r\<lparr>ar_last_event_id := i\<rparr>) = energy_claims r"
  by (simp_all add: energy_claims_def cong: energy_status.case_cong)

text \<open>A receipt on a blocked action would have to claim a receipt: the validator refuses it.\<close>

lemma blocked_no_receipt: "valid_action a \<Longrightarrow> Blocked \<in> set (ar_phase_history a) \<Longrightarrow> ar_receipt a = None"
  by (simp add: valid_action_def lifecycle_claims_def Let_def)

lemma after_receipt:
  assumes "l \<noteq> LRefused" "life_phase l \<in> {Dispatched, Receipted, Reconstructed}"
  shows "\<exists>l'. life_step l ''action.receipt'' l' \<and> life_phase l' = Receipted \<and>
    life_history l' = (if Receipted \<in> set (life_history l) then life_history l else life_history l @ [Receipted])"
proof -
  have "life_step LDispatched ''action.receipt'' LReceipted" "life_step LReceipted ''action.receipt'' LReceipted"
    "life_step LRevised ''action.receipt'' LRevised" "life_step LReconstructed ''action.receipt'' LRevised"
    by (rule life_step.intros; simp)+
  with assms show ?thesis
    by (cases l) (force intro: exI [of _ LReceipted] exI [of _ LRevised])+
qed

lemma receive_life:
  assumes "receive_action a e t = Inr (a', g)" "at_life a l"
  shows "ar_receipt a' \<noteq> None \<and> (\<exists>l'. at_life a' l' \<and> life_step l ''action.receipt'' l') \<and>
    Receipted \<in> set (ar_phase_history a') \<and> ar_action_id a' = ar_action_id a"
proof -
  from assms(1) obtain status late rec where
    r: "receipt_admitted a late = Inr ()" "valid_action a'"
    "a' = (if ar_phase a = Receipted then (receipt_updates a e rec g a)\<lparr>ar_last_event_id := ev_event_id e\<rparr>
      else receipt_updates a e rec g (a\<lparr>ar_phase := Receipted,
        ar_phase_history := (if Receipted \<in> set (ar_phase_history a) then ar_phase_history a
          else ar_phase_history a @ [Receipted]), ar_rd_phase := RdPrepare, ar_last_event_id := ev_event_id e\<rparr>))"
    by (rule receive_action_Inr)
  have some: "ar_receipt a' \<noteq> None" using r(3) by auto
  have "l \<noteq> LRefused"
  proof
    assume "l = LRefused"
    with assms(2) r(3) have "Blocked \<in> set (ar_phase_history a')" by (simp add: at_life_def)
    with blocked_no_receipt [OF r(2)] some show False by simp
  qed
  moreover have "life_phase l \<in> {Dispatched, Receipted, Reconstructed}"
    using receipt_admitted_Inr [OF r(1)] assms(2) by (simp add: at_life_def)
  ultimately obtain l' where l': "life_step l ''action.receipt'' l'" "life_phase l' = Receipted"
    "life_history l' = (if Receipted \<in> set (life_history l) then life_history l else life_history l @ [Receipted])"
    using after_receipt by blast
  then have "at_life a' l'"
    using assms(2) r(3) by (cases "ar_phase a = Receipted") (cases l; auto simp: at_life_def)+
  moreover have "Receipted \<in> set (life_history l')" using l'(3) by auto
  ultimately show ?thesis using l'(1) r(3) some by (auto simp: at_life_def)
qed

text \<open>The three energy operations leave the life of the action, its receipts and its claims alone.\<close>

definition same_life :: "action_record \<Rightarrow> action_record \<Rightarrow> bool" where
  "same_life a b = (ar_phase b = ar_phase a \<and> ar_phase_history b = ar_phase_history a \<and>
     ar_action_id b = ar_action_id a \<and> ar_receipt b = ar_receipt a \<and> ar_outcome b = ar_outcome a \<and>
     ar_execution_confirmed b = ar_execution_confirmed a \<and> ar_effect_confirmed b = ar_effect_confirmed a \<and>
     ar_receipt_history b = ar_receipt_history a \<and> ar_receipt_history_evicted b = ar_receipt_history_evicted a \<and>
     ar_receipt_conflict_count b = ar_receipt_conflict_count a \<and>
     ar_receipt_corroboration_count b = ar_receipt_corroboration_count a)"

lemma valid_action_energy:
  assumes "valid_action a" "bounded_opt 0 160 f"
    "energy_claims (a\<lparr>ar_energy_status := s, ar_energy_request_event_id := r,
      ar_energy_assessment_event_id := n, ar_energy_failure_code := f\<rparr>)"
  shows "valid_action (a\<lparr>ar_energy_status := s, ar_energy_request_event_id := r,
      ar_energy_assessment_event_id := n, ar_energy_failure_code := f\<rparr>)"
proof -
  let ?b = "a\<lparr>ar_energy_status := s, ar_energy_request_event_id := r,
      ar_energy_assessment_event_id := n, ar_energy_failure_code := f\<rparr>"
  have "lifecycle_claims ?b = lifecycle_claims a" by (simp add: lifecycle_claims_def)
  moreover have "canonical_claims ?b = canonical_claims a"
    by (simp add: canonical_claims_def cong: option.case_cong)
  ultimately show ?thesis using assms by (simp add: valid_action_def)
qed

lemma request_energy_Inr: "request_energy a e = Inr a' \<Longrightarrow> valid_action a' \<and> same_life a a' \<and>
    ar_energy_status a' = EnergyPending \<and> ar_energy_status a \<in> {Unrequested, Assessed}"
  by (auto simp: request_energy_def same_life_def Let_def split: if_splits)

lemma assess_energy_Inr: "assess_energy a e = Inr a' \<Longrightarrow> valid_action a' \<and> same_life a a' \<and>
    ar_energy_status a' = Assessed \<and> ar_energy_status a \<in> {Unrequested, EnergyPending}"
  by (auto simp: assess_energy_def same_life_def split: if_splits)

lemma fail_energy_Inr: "fail_energy a e = Inr a' \<Longrightarrow> valid_action a' \<and> same_life a a' \<and>
    ar_energy_status a' = EnergyFailed \<and> ar_energy_status a = EnergyPending"
  by (auto simp: fail_energy_def same_life_def split: if_splits json.splits)

lemma request_energy_Inl:
  assumes "request_energy a e = Inl err" "valid_action a"
  shows "is_domain_error err"
  using assms valid_action_energy [OF assms(2), where f = None and s = EnergyPending and r = "Some (ev_event_id e)" and n = None]
  by (auto simp: request_energy_def action_validated_def bounded_opt_def energy_claims_def split: if_splits)

lemma assess_energy_Inl:
  assumes "assess_energy a e = Inl err" "valid_action a"
  shows "is_domain_error err"
  using assms valid_action_energy [OF assms(2), where f = None and s = Assessed and r = "ar_energy_request_event_id a" and n = "Some (ev_event_id e)"]
  by (auto simp: assess_energy_def action_validated_def bounded_opt_def energy_claims_def split: if_splits)

lemma fail_energy_Inl:
  assumes "fail_energy a e = Inl err" "valid_action a"
  shows "is_domain_error err"
proof (cases "jget (ev_payload e) ''failure_code''")
  case (JStr c)
  have v: "valid_action (a\<lparr>ar_energy_status := EnergyFailed, ar_energy_failure_code := Some c\<rparr>)"
    if "ar_energy_status a = EnergyPending" "length c \<le> 160"
  proof -
    have "ar_energy_request_event_id a \<noteq> None \<and> ar_energy_assessment_event_id a = None"
      using assms(2) that(1) by (simp add: valid_action_def energy_claims_def)
    then have "energy_claims (a\<lparr>ar_energy_status := EnergyFailed, ar_energy_failure_code := Some c\<rparr>)"
      by (simp add: energy_claims_def)
    with valid_action_energy [OF assms(2), where f = "Some c" and s = EnergyFailed
        and r = "ar_energy_request_event_id a" and n = "ar_energy_assessment_event_id a"] that(2)
    show ?thesis by (simp add: bounded_opt_def str_len_def)
  qed
  with assms JStr show ?thesis
    by (auto simp: fail_energy_def action_validated_def not_less split: if_splits)

qed (use assms in \<open>auto simp: fail_energy_def\<close>)

lemma prepare_action_Inl: "prepare_action a e = Inl err \<Longrightarrow> is_domain_error err"
  by (auto simp: prepare_action_def split: option.splits if_splits dest: transition_Inl)

lemma block_action_Inl: "block_action a e = Inl err \<Longrightarrow> is_domain_error err"
  by (auto simp: block_action_def rbind_eq_Inl dest: transition_Inl validate_blocked_Inl)

lemma dispatch_action_Inl: "dispatch_action a e = Inl err \<Longrightarrow> is_domain_error err"
  by (auto simp: dispatch_action_def dest: transition_Inl)

lemma reconstruct_action_Inl: "reconstruct_action a e = Inl err \<Longrightarrow> is_domain_error err"
  by (auto simp: reconstruct_action_def rbind_eq_Inl rewrap_eq_Inl Let_def split: if_splits dest: transition_Inl)

lemma same_life_at: "same_life a b \<Longrightarrow> at_life a l \<Longrightarrow> at_life b l"
  by (simp add: same_life_def at_life_def)

text \<open>The four operations that move the phase by a plain transition.\<close>

lemma prepare_life:
  "prepare_action a e = Inr a' \<Longrightarrow> at_life a l \<Longrightarrow> valid_action a' \<and> ar_action_id a' = ar_action_id a \<and>
   ar_receipt a' = ar_receipt a \<and> ar_outcome a' = ar_outcome a \<and> l = LProposed \<and> at_life a' LPrepared"
  by (cases l) (auto simp: prepare_action_def at_life_def split: option.splits if_splits dest!: transition_Inr)

lemma block_life:
  "block_action a e = Inr a' \<Longrightarrow> at_life a l \<Longrightarrow> valid_action a' \<and> ar_action_id a' = ar_action_id a \<and>
   ar_receipt a' = ar_receipt a \<and> ar_outcome a' = ar_outcome a \<and> l = LPrepared \<and> at_life a' LBlocked"
  by (cases l) (auto simp: block_action_def at_life_def rbind_eq_Inr dest!: transition_Inr)

lemma dispatch_life:
  "dispatch_action a e = Inr a' \<Longrightarrow> at_life a l \<Longrightarrow> valid_action a' \<and> ar_action_id a' = ar_action_id a \<and>
   ar_receipt a' = ar_receipt a \<and> ar_outcome a' = ar_outcome a \<and> l = LPrepared \<and> at_life a' LDispatched"
  by (cases l) (auto simp: dispatch_action_def at_life_def dest!: transition_Inr)

lemma reconstruct_life:
  "reconstruct_action a e = Inr a' \<Longrightarrow> at_life a l \<Longrightarrow> valid_action a' \<and> ar_action_id a' = ar_action_id a \<and>
   ar_receipt a' = ar_receipt a \<and> ar_outcome a' = ar_outcome a \<and>
   (\<exists>l'. at_life a' l' \<and> life_step l ''action.reconstructed'' l')"
  by (cases l)
    (auto simp: reconstruct_action_def at_life_def rbind_eq_Inr rewrap_eq_Inr Let_def split: if_splits
      intro: exI [of _ LRefused] exI [of _ LReconstructed] life_step.intros dest!: transition_Inr)

section \<open>A step of one action\<close>

lemma last_n_snoc_all: "list_all P xs \<Longrightarrow> P x \<Longrightarrow> list_all P (last_n n (xs @ [x]))"
  by (rule list_all_last_n) simp

text \<open>
  A late receipt on an action that is already in the receipt phase is validated outside the
  transition's error handler; on a well-formed record that validation cannot fail.
\<close>

lemma late_receipt_valid:
  assumes "action_wf a" "ar_phase a = Receipted" "valid_event e"
    and "receipt_status_of (jget (ev_payload e) ''status'') = Some status"
    and "validate_receipt_source_semantics status (jget (ev_payload e) ''source_status'')
      (jget (ev_payload e) ''source_error_type'') = Inr ()"
    and "receipt_record a e status late g = Inr rec"
  shows "valid_action ((receipt_updates a e rec g a)\<lparr>ar_last_event_id := ev_event_id e\<rparr>)"
proof -
  let ?b = "(receipt_updates a e rec g a)\<lparr>ar_last_event_id := ev_event_id e\<rparr>"
  note rec = receipt_record_Inr [OF assms(6)]
  have v: "valid_action a" using assms(1) by (simp add: action_wf_def)
  obtain l where "at_life a l" using assms(1) by (auto simp: action_wf_def ex_life)
  with assms(2) have h: "Dispatched \<in> set (ar_phase_history a)" "Receipted \<in> set (ar_phase_history a)"
    "Blocked \<notin> set (ar_phase_history a)" by (cases l; simp add: at_life_def)+
  have r: "ar_receipt a \<noteq> None" using assms(1) h by (simp add: action_wf_def)
  have claims: "ar_execution_confirmed a \<noteq> Some False" "ar_execution_confirmed a = Some True \<longleftrightarrow> ar_outcome a \<noteq> None"
    "canonical_claims a"
    using v h by (auto simp: valid_action_def lifecycle_claims_def Let_def)
  have "lifecycle_claims ?b"
    using h claims rec by (auto simp: lifecycle_claims_def)

  moreover have "canonical_claims ?b"
  proof (cases "rc_disposition rec = Resolution")
    case True
    with rec have "status \<noteq> StUnknown" "ar_outcome a = None" by (cases status; auto split: if_splits)+
    with True assms(4,5) rec show ?thesis by (simp add: canonical_claims_def)
  next
    case False
    obtain r0 st0 where r0: "ar_receipt a = Some r0" "receipt_status_of (jget r0 ''status'') = Some st0"
      using r claims(3) by (auto simp: canonical_claims_def split: option.splits)
    have "status = StUnknown \<or> ar_outcome a \<noteq> None"
      using False rec assms(2) by (cases status) (auto split: if_splits)
    with claims r0 rec False show ?thesis
      by (cases status) (auto simp: canonical_claims_def)
  qed
  moreover have "energy_claims ?b" using v by (simp add: valid_action_def)
  moreover have "frozen (JObj (ev_payload e))" using assms(3) by (rule valid_event_payload)
  ultimately show ?thesis
    using v rec r by (simp add: valid_action_def last_n_snoc_all split: option.splits del: frozen.simps)
qed

lemma receive_action_Inl:
  assumes "receive_action a e t = Inl err" "action_wf a" "valid_event e"
  shows "is_domain_error err"
proof (cases "receipt_status_of (jget (ev_payload e) ''status'')")
  case (Some status)
  have errs: "\<And>late u. receipt_admitted a late = Inl u \<Longrightarrow> is_domain_error u"
    "\<And>u. receipt_grounded_ids e t = Inl u \<Longrightarrow> is_domain_error u"
    "\<And>late g u. receipt_record a e status late g = Inl u \<Longrightarrow> is_domain_error u"
    by (fact receipt_admitted_Inl receipt_grounded_Inl receipt_record_Inl)+
  show ?thesis
  proof (cases "validate_receipt_source_semantics status (jget (ev_payload e) ''source_status'')
      (jget (ev_payload e) ''source_error_type'')")
    case (Inl u)
    with assms(1) Some show ?thesis by (auto simp: receive_action_def)
  next
    case (Inr u)
    note sem = Inr
    have fin: "is_domain_error err"
      if "receipt_record a e status late g = Inr rec"
        "(if ar_phase a = Receipted
          then action_validated ((receipt_updates a e rec g a)\<lparr>ar_last_event_id := ev_event_id e\<rparr>)
          else transition a e (ar_phase a) Receipted RdPrepare (receipt_updates a e rec g)) = Inl err" for late g rec
      using that late_receipt_valid [OF assms(2) _ assms(3) Some _ that(1)] sem
      by (auto simp: action_validated_def split: if_splits dest: transition_Inl)
    show ?thesis
    proof (cases "jget_or (ev_payload e) ''late'' (JBool False)")
      case (JBool late)
      from assms(1) have "receipt_admitted a late = Inl err \<or> receipt_grounded_ids e t = Inl err \<or>
          (\<exists>g. receipt_record a e status late g = Inl err) \<or>
          (\<exists>g rec. receipt_record a e status late g = Inr rec \<and> (if ar_phase a = Receipted
          then action_validated ((receipt_updates a e rec g a)\<lparr>ar_last_event_id := ev_event_id e\<rparr>)
          else transition a e (ar_phase a) Receipted RdPrepare (receipt_updates a e rec g)) = Inl err)"
        unfolding receive_action_def by (simp add: Some sem JBool rbind_eq_Inl split del: if_split) blast
      then show ?thesis by (elim disjE exE conjE) (auto intro: errs fin)
    qed (use assms(1) Some sem in \<open>auto simp: receive_action_def\<close>)
  qed
qed (use assms(1) in \<open>auto simp: receive_action_def\<close>)

lemma action_wfI:
  "valid_action a \<Longrightarrow> at_life a l \<Longrightarrow> (Receipted \<in> set (ar_phase_history a) \<longleftrightarrow> ar_receipt a \<noteq> None) \<Longrightarrow>
   (ar_outcome a \<noteq> None \<Longrightarrow> ar_receipt a \<noteq> None) \<Longrightarrow> action_wf a"
  by (auto simp: action_wf_def ex_life)

lemma history_receipted: "at_life a l \<Longrightarrow> Receipted \<in> set (ar_phase_history a) \<longleftrightarrow> l \<in> {LReceipted, LReconstructed, LRevised}"
  by (cases l) (simp_all add: at_life_def)

lemma reconstruct_receipted: "life_step l ''action.reconstructed'' l' \<Longrightarrow>
    l' \<in> {LReceipted, LReconstructed, LRevised} \<longleftrightarrow> l \<in> {LReceipted, LReconstructed, LRevised}"
  by (auto elim!: life_step.cases simp: energy_event_types_def)

text \<open>The event types handled on an existing action, for case analysis.\<close>

lemma step_event_cases:
  assumes "t \<in> set action_lifecycle_events" "t \<noteq> ''action.proposed''"
  obtains "t = ''action.energy_requested''" | "t = ''action.energy_assessed''"
    | "t = ''action.energy_assessment_failed''" | "t = ''action.prepared''" | "t = ''action.blocked''"
    | "t = ''action.dispatched''" | "t = ''action.receipt''" | "t = ''action.reconstructed''"
proof -
  from assms have "t = ''action.energy_requested'' \<or> t = ''action.energy_assessed'' \<or>
    t = ''action.energy_assessment_failed'' \<or> t = ''action.prepared'' \<or> t = ''action.blocked'' \<or>
    t = ''action.dispatched'' \<or> t = ''action.receipt'' \<or> t = ''action.reconstructed''"
    by (auto simp: action_lifecycle_events_def)
  then show thesis by (elim disjE) (rule that, assumption)+
qed

definition step_ok :: "action_record \<Rightarrow> string \<Rightarrow> action_record \<Rightarrow> bool" where
  "step_ok a t b = (action_wf b \<and> ar_action_id b = ar_action_id a \<and>
     list_ex (\<lambda>l. at_life a l \<and> list_ex (\<lambda>l'. at_life b l' \<and> life_step l t l') all_lives) all_lives)"

lemma step_okI: "action_wf b \<Longrightarrow> ar_action_id b = ar_action_id a \<Longrightarrow> at_life a l \<Longrightarrow> at_life b l' \<Longrightarrow>
    life_step l t l' \<Longrightarrow> step_ok a t b"
  by (auto simp: step_ok_def ex_life)

lemma energy_step_ok:
  assumes "action_wf a" "valid_action b" "same_life a b" "t \<in> set energy_event_types"
  shows "step_ok a t b"
proof -
  obtain l where l: "at_life a l" using assms(1) by (auto simp: action_wf_def ex_life)
  have "action_wf b" using assms(1-3) l by (auto simp: action_wf_def ex_life same_life_def at_life_def)
  with assms(3,4) l show ?thesis by (intro step_okI [of b a l l]) (auto simp: same_life_def at_life_def intro: life_step.energy)
qed

lemma phase_step_ok:
  assumes "action_wf a" "valid_action b" "at_life a l" "at_life b l'" "life_step l t l'"
    "ar_action_id b = ar_action_id a" "ar_receipt b = ar_receipt a" "ar_outcome b = ar_outcome a"
    "l' \<in> {LReceipted, LReconstructed, LRevised} \<longleftrightarrow> l \<in> {LReceipted, LReconstructed, LRevised}"
  shows "step_ok a t b"
proof (rule step_okI [OF _ assms(6,3,4,5)])
  show "action_wf b"
    using assms history_receipted [OF assms(3)] history_receipted [OF assms(4)]
    by (intro action_wfI [OF assms(2,4)]) (auto simp: action_wf_def)
qed

lemma step_action_ok:
  assumes wf: "action_wf a" and t: "ev_event_type e \<in> set action_lifecycle_events" "ev_event_type e \<noteq> ''action.proposed''"
    and s: "step_action a e trusted = Inr (b, g)"
  shows "step_ok a (ev_event_type e) b"
proof -
  obtain l where l: "at_life a l" using wf by (auto simp: action_wf_def ex_life)
  from t show ?thesis
  proof (cases rule: step_event_cases)
    case 1
    with s have "request_energy a e = Inr b" by (simp add: step_action_def rbind_eq_Inr)
    from request_energy_Inr [OF this] 1 wf show ?thesis by (auto intro: energy_step_ok simp: energy_event_types_def)
  next
    case 2
    with s have "assess_energy a e = Inr b" by (simp add: step_action_def rbind_eq_Inr)
    from assess_energy_Inr [OF this] 2 wf show ?thesis by (auto intro: energy_step_ok simp: energy_event_types_def)
  next
    case 3
    with s have "fail_energy a e = Inr b" by (simp add: step_action_def rbind_eq_Inr)
    from fail_energy_Inr [OF this] 3 wf show ?thesis by (auto intro: energy_step_ok simp: energy_event_types_def)
  next
    case 4
    with s have "prepare_action a e = Inr b" by (simp add: step_action_def rbind_eq_Inr)
    from prepare_life [OF this l] 4 wf l show ?thesis by (auto intro!: phase_step_ok life_step.prepare)
  next
    case 5
    with s have "block_action a e = Inr b" by (simp add: step_action_def rbind_eq_Inr)
    from block_life [OF this l] 5 wf l show ?thesis by (auto intro!: phase_step_ok life_step.block)
  next
    case 6
    with s have "dispatch_action a e = Inr b" by (simp add: step_action_def rbind_eq_Inr)
    from dispatch_life [OF this l] 6 wf l show ?thesis by (auto intro!: phase_step_ok life_step.dispatch)
  next
    case 7
    with s have r: "receive_action a e trusted = Inr (b, g)" by (simp add: step_action_def)
    then have "valid_action b" by (rule receive_action_Inr)
    with receive_life [OF r l] 7 l show ?thesis by (auto intro!: step_okI action_wfI)
  next
    case 8
    with s have "reconstruct_action a e = Inr b" by (simp add: step_action_def rbind_eq_Inr)
    from reconstruct_life [OF this l] 8 wf l show ?thesis
      by (auto intro!: phase_step_ok dest: reconstruct_receipted)
  qed
qed

lemma step_action_Inl:
  assumes "step_action a e trusted = Inl err" "action_wf a" "valid_event e"
  shows "is_domain_error err"
proof -
  have v: "valid_action a" using assms(2) by (simp add: action_wf_def)
  show ?thesis
    using assms(1) v receive_action_Inl [OF _ assms(2,3)]
    by (auto simp: step_action_def Let_def rbind_eq_Inl split: if_splits
        intro: request_energy_Inl assess_energy_Inl fail_energy_Inl prepare_action_Inl block_action_Inl
          dispatch_action_Inl reconstruct_action_Inl)
qed

text \<open>Only a receipt changes what a record claims to have happened.\<close>

definition same_claims :: "action_record \<Rightarrow> action_record \<Rightarrow> bool" where
  "same_claims a b = (ar_receipt b = ar_receipt a \<and> ar_outcome b = ar_outcome a \<and>
     ar_effect_confirmed b = ar_effect_confirmed a \<and> ar_receipt_history b = ar_receipt_history a \<and>
     ar_receipt_history_evicted b = ar_receipt_history_evicted a \<and>
     ar_receipt_conflict_count b = ar_receipt_conflict_count a \<and>
     ar_receipt_corroboration_count b = ar_receipt_corroboration_count a)"

lemma other_ops_claims:
  "prepare_action a e = Inr b \<Longrightarrow> same_claims a b" "block_action a e = Inr b \<Longrightarrow> same_claims a b"
  "dispatch_action a e = Inr b \<Longrightarrow> same_claims a b" "reconstruct_action a e = Inr b \<Longrightarrow> same_claims a b"
  by (auto simp: prepare_action_def block_action_def dispatch_action_def reconstruct_action_def rbind_eq_Inr
      rewrap_eq_Inr same_claims_def Let_def split: option.splits if_splits dest!: transition_Inr)

lemma same_life_claims: "same_life a b \<Longrightarrow> same_claims a b"
  by (simp add: same_life_def same_claims_def)

lemma step_action_claims:
  assumes "step_action a e trusted = Inr (b, g)"
  shows "ev_event_type e = ''action.receipt'' \<and> receive_action a e trusted = Inr (b, g) \<or> g = [] \<and> same_claims a b"
  using assms request_energy_Inr [of a e b] assess_energy_Inr [of a e b] fail_energy_Inr [of a e b]
  by (auto simp: step_action_def Let_def rbind_eq_Inr split: if_splits intro: other_ops_claims same_life_claims)

lemma receive_action_record:
  assumes "receive_action a e trusted = Inr (b, g)"
  obtains status late rec r where "receipt_record a e status late g = Inr rec"
    "receipt_grounded_ids e trusted = Inr g" "ar_receipt b = ar_receipt (receipt_updates a e rec g r)"
    "same_claims (receipt_updates a e rec g r) b"
proof -
  from assms obtain status late rec where r: "receipt_record a e status late g = Inr rec"
    "receipt_grounded_ids e trusted = Inr g"
    "b = (if ar_phase a = Receipted then (receipt_updates a e rec g a)\<lparr>ar_last_event_id := ev_event_id e\<rparr>
      else receipt_updates a e rec g (a\<lparr>ar_phase := Receipted,
        ar_phase_history := (if Receipted \<in> set (ar_phase_history a) then ar_phase_history a
          else ar_phase_history a @ [Receipted]), ar_rd_phase := RdPrepare, ar_last_event_id := ev_event_id e\<rparr>))"
    by (rule receive_action_Inr)
  show ?thesis
    by (rule that [OF r(1,2), of a]) (use r(3) in \<open>simp_all add: same_claims_def\<close>)
qed

text \<open>A known outcome and its receipt are never replaced.\<close>

lemma step_action_outcome:
  assumes "action_wf a" "ar_outcome a = Some out" "step_action a e trusted = Inr (b, g)"
  shows "ar_outcome b = Some out \<and> ar_receipt b = ar_receipt a"
proof -
  have r: "ar_receipt a \<noteq> None" using assms(1,2) by (simp add: action_wf_def)
  have "ar_outcome b = Some out \<and> ar_receipt b = ar_receipt a"
    if rec: "receive_action a e trusted = Inr (b, g)"
  proof -
    obtain status late rec r0 where "receipt_record a e status late g = Inr rec"
      "same_claims (receipt_updates a e rec g r0) b"
      using rec by (rule receive_action_record)
    with receipt_record_Inr [of a e status late g rec] assms(2) r show ?thesis
      by (cases status) (auto simp: same_claims_def split: if_splits)
  qed
  with step_action_claims [OF assms(3)] assms(2) show ?thesis by (auto simp: same_claims_def)
qed

section \<open>The collection of actions\<close>

interpretation action_store: keyed_collection ar_action_id "put_last ar_action_id"
  by (rule put_last_keyed)

definition actions_wf :: "action_record list \<Rightarrow> bool" where
  "actions_wf xs = (distinct (map ar_action_id xs) \<and> list_all action_wf xs)"

lemma replace_action_put: "replace_action xs a = put_last ar_action_id xs a"
  by (simp add: replace_action_def put_last_def)

lemma find_action_Inr [simp]: "find_action xs aid = Inr a \<longleftrightarrow> lookup ar_action_id xs aid = Some a"
  by (auto simp: find_action_def split: option.splits)

lemma propose_action_Inr:
  assumes "propose_action xs e aid = Inr b"
  shows "lookup ar_action_id xs aid = None \<and> ar_action_id b = aid \<and> action_wf b \<and> at_life b LProposed"
proof -
  obtain m where m: "jget (ev_payload e) ''intent'' = JObj m"
    using assms by (auto simp: propose_action_def split: if_splits json.splits)
  with assms have "valid_action b" "at_life b LProposed" "ar_action_id b = aid" "ar_receipt b = None"
    "ar_outcome b = None" "\<not> list_ex (\<lambda>x. ar_action_id x = aid) xs"
    by (auto simp: propose_action_def rewrap_eq_Inr at_life_def split: if_splits)
  then show ?thesis
    by (auto simp: lookup_None_iff list_ex_iff history_receipted intro: action_wfI)
qed

lemma propose_action_Inl: "propose_action xs e aid = Inl err \<Longrightarrow> is_domain_error err"
  by (auto simp: propose_action_def rewrap_eq_Inl split: if_splits json.splits)

lemma action_id_from_event_Inl: "action_id_from_event e = Inl err \<Longrightarrow> is_domain_error err"
  by (auto simp: action_id_from_event_def split: json.splits if_splits)

lemma reduce_actions_Inr:
  assumes "reduce_actions xs e t = Inr (ys, g)"
  shows "ys = xs \<and> g = [] \<or>
    (\<exists>aid b. ev_event_type e = ''action.proposed'' \<and> propose_action xs e aid = Inr b \<and> ys = xs @ [b] \<and> g = []) \<or>
    (\<exists>aid a b. ev_event_type e \<in> set action_lifecycle_events \<and> ev_event_type e \<noteq> ''action.proposed'' \<and>
      lookup ar_action_id xs aid = Some a \<and> step_action a e t = Inr (b, g) \<and> ys = replace_action xs b)"
proof (cases "ev_event_type e \<in> set action_lifecycle_events")
  case True
  with assms obtain aid where aid: "action_id_from_event e = Inr aid"
    by (auto simp: reduce_actions_def rbind_eq_Inr)
  show ?thesis
  proof (cases "ev_event_type e = ''action.proposed''")
    case True
    with assms aid show ?thesis by (auto simp: reduce_actions_def rbind_eq_Inr split: if_splits)
  next
    case False
    with True assms aid obtain a b where "find_action xs aid = Inr a" "step_action a e t = Inr (b, g)"
      "ys = replace_action xs b"
      by (auto simp: reduce_actions_def rbind_eq_Inr split: sum.splits)
    with True False show ?thesis by auto
  qed
qed (use assms in \<open>simp add: reduce_actions_def\<close>)

lemma reduce_actions_Inl:
  assumes "reduce_actions xs e t = Inl err" "actions_wf xs" "valid_event e"
  shows "is_domain_error err"
proof (cases "action_id_from_event e")
  case (Inl u)
  with assms(1) action_id_from_event_Inl [OF Inl] show ?thesis by (auto simp: reduce_actions_def split: if_splits)
next
  case (Inr aid)
  have step: "lookup ar_action_id xs aid = Some a \<Longrightarrow> step_action a e t = Inl u \<Longrightarrow> is_domain_error u" for a u
    using step_action_Inl [of a e t u] assms(2,3) lookup_SomeD [of ar_action_id xs aid a]
    by (auto simp: actions_wf_def list_all_iff)
  have find: "find_action xs aid = Inl u \<Longrightarrow> is_domain_error u" for u
    by (auto simp: find_action_def split: option.splits)
  from assms(1) Inr show ?thesis
    by (auto simp: reduce_actions_def rbind_eq_Inl split: if_splits sum.splits
        dest: propose_action_Inl step find)
qed

lemma reduce_actions_wf:
  assumes "reduce_actions xs e t = Inr (ys, g)" "actions_wf xs"
  shows "actions_wf ys"
  using reduce_actions_Inr [OF assms(1)]
proof (elim disjE exE conjE)
  fix aid b assume "propose_action xs e aid = Inr b" "ys = xs @ [b]"
  with propose_action_Inr [of xs e aid b] assms(2) show ?thesis
    by (auto simp: actions_wf_def lookup_None_iff)
next
  fix aid a b
  assume t: "ev_event_type e \<in> set action_lifecycle_events" "ev_event_type e \<noteq> ''action.proposed''"
    and a: "lookup ar_action_id xs aid = Some a" and s: "step_action a e t = Inr (b, g)"
    and ys: "ys = replace_action xs b"
  have "action_wf a" using a assms(2) by (auto simp: actions_wf_def list_all_iff dest: lookup_SomeD)
  from step_action_ok [OF this t s] have "action_wf b" by (simp add: step_ok_def)
  with assms(2) ys show ?thesis
    by (simp add: actions_wf_def replace_action_put action_store.put_distinct action_store.put_pred)
qed (use assms(2) in simp)

text \<open>What one event does to one identifier of the collection.\<close>

definition evolves :: "action_record list \<Rightarrow> string \<Rightarrow> action_record list \<Rightarrow> string \<Rightarrow> bool" where
  "evolves xs t ys aid = (case (lookup ar_action_id xs aid, lookup ar_action_id ys aid) of
     (None, None) \<Rightarrow> True
   | (None, Some b) \<Rightarrow> t = ''action.proposed'' \<and> at_life b LProposed
   | (Some a, Some b) \<Rightarrow> b = a \<or> step_ok a t b
   | (Some a, None) \<Rightarrow> False)"

text \<open>Outside the record an event names, the collection is the same, in the same order.\<close>

definition named_only :: "event_envelope \<Rightarrow> action_record list \<Rightarrow> action_record list \<Rightarrow> bool" where
  "named_only e xs ys \<longleftrightarrow> (case action_id_from_event e of
     Inl _ \<Rightarrow> ys = xs
   | Inr aid \<Rightarrow> filter (\<lambda>x. ar_action_id x \<noteq> aid) ys = filter (\<lambda>x. ar_action_id x \<noteq> aid) xs)"

lemma evolves_refl: "evolves xs t xs aid"
  by (auto simp: evolves_def split: option.splits)

lemma reduce_actions_evolves:
  assumes "reduce_actions xs e t = Inr (ys, g)" "actions_wf xs"
  shows "evolves xs (ev_event_type e) ys i"
  using reduce_actions_Inr [OF assms(1)]
proof (elim disjE exE conjE)
  fix aid b assume t: "ev_event_type e = ''action.proposed''" and p: "propose_action xs e aid = Inr b" "ys = xs @ [b]"
  from propose_action_Inr [OF p(1)] p(2) t evolves_refl [of xs _ i] show ?thesis
    by (auto simp: evolves_def lookup_append split: option.splits if_splits)
next
  fix aid a b
  assume t: "ev_event_type e \<in> set action_lifecycle_events" "ev_event_type e \<noteq> ''action.proposed''"
    and a: "lookup ar_action_id xs aid = Some a" and s: "step_action a e t = Inr (b, g)"
    and ys: "ys = replace_action xs b"
  have "action_wf a" using a assms(2) by (auto simp: actions_wf_def list_all_iff dest: lookup_SomeD)
  from step_action_ok [OF this t s] have b: "step_ok a (ev_event_type e) b" .
  with a have "ar_action_id b = aid" by (auto simp: step_ok_def dest: lookup_SomeD)
  with a b ys show ?thesis
    using evolves_refl [of xs "ev_event_type e" i] action_store.put_same [of xs b] action_store.put_other [of i b xs]
    by (cases "i = aid") (simp_all add: evolves_def replace_action_put)
qed (simp add: evolves_refl)

lemma reduce_actions_names:
  assumes "reduce_actions xs e t = Inr (ys, g)" "actions_wf xs"
  shows "named_only e xs ys \<and> (ev_event_type e \<notin> set action_lifecycle_events \<longrightarrow> ys = xs)"
proof (cases "ev_event_type e \<in> set action_lifecycle_events")
  case True
  with assms(1) obtain aid where aid: "action_id_from_event e = Inr aid" by (auto simp: reduce_actions_def rbind_eq_Inr)
  show ?thesis
  proof (cases "ev_event_type e = ''action.proposed''")
    case proposed: True
    with assms(1) True aid obtain b where b: "propose_action xs e aid = Inr b" "ys = xs @ [b]"
      by (auto simp: reduce_actions_def rbind_eq_Inr)
    from propose_action_Inr [OF b(1)] b(2) aid True show ?thesis by (simp add: named_only_def)
  next
    case False
    with assms(1) True aid obtain a b where b: "find_action xs aid = Inr a" "step_action a e t = Inr (b, g)" "ys = replace_action xs b"
      by (auto simp: reduce_actions_def rbind_eq_Inr split: sum.splits if_splits)
    then have a: "lookup ar_action_id xs aid = Some a" by simp
    have "action_wf a" using a assms(2) by (auto simp: actions_wf_def list_all_iff dest: lookup_SomeD)
    from step_action_ok [OF this True False b(2)] a have "ar_action_id b = aid" by (auto simp: step_ok_def dest: lookup_SomeD)
    with b(3) aid True show ?thesis by (simp add: named_only_def replace_action_def)
  qed
qed (use assms in \<open>simp add: reduce_actions_def named_only_def split: sum.split\<close>)

text \<open>
  A specification of runs of \<open>reduce_actions\<close> alone: events with the trust their provenance has, without the eviction
  that \<open>reduce_state\<close> performs after each of them; \<open>Histories\<close> has the runs with it. The grounded identifiers are
  the other result.
\<close>

definition actions_step :: "action_record list \<Rightarrow> event_envelope \<times> bool \<Rightarrow> action_record list res" where
  "actions_step xs et = rbind (reduce_actions xs (fst et) (snd et)) (\<lambda>r. Inr (fst r))"

interpretation actions_reducer: reducer actions_wf "\<lambda>et. valid_event (fst et)" actions_step
proof unfold_locales
  fix xs ys :: "action_record list" and et :: "event_envelope \<times> bool" and err
  assume wf: "actions_wf xs" and v: "valid_event (fst et)"
  show "actions_step xs et = Inr ys \<Longrightarrow> actions_wf ys"
    using reduce_actions_wf [OF _ wf] by (auto simp: actions_step_def rbind_eq_Inr)
  show "actions_step xs et = Inl err \<Longrightarrow> is_domain_error err"
    using reduce_actions_Inl [OF _ wf v] by (auto simp: actions_step_def rbind_eq_Inl)
qed

lemma actions_step_lookup:
  assumes "actions_step xs et = Inr ys" "actions_wf xs" "lookup ar_action_id xs aid = Some a"
  obtains b g where "lookup ar_action_id ys aid = Some b"
    "b = a \<or> step_ok a (ev_event_type (fst et)) b \<and> step_action a (fst et) (snd et) = Inr (b, g)"
proof -
  obtain g where r: "reduce_actions xs (fst et) (snd et) = Inr (ys, g)"
    using assms(1) by (auto simp: actions_step_def rbind_eq_Inr)
  from reduce_actions_Inr [OF r] show thesis
  proof (elim disjE exE conjE)
    assume "ys = xs" with assms(3) show thesis by (intro that) auto
  next
    fix aid' b assume "ys = xs @ [b]" with assms(3) show thesis by (intro that) (auto simp: lookup_append)
  next
    fix aid' a' b
    assume t: "ev_event_type (fst et) \<in> set action_lifecycle_events" "ev_event_type (fst et) \<noteq> ''action.proposed''"
      and a: "lookup ar_action_id xs aid' = Some a'" and s: "step_action a' (fst et) (snd et) = Inr (b, g)"
      and ys: "ys = replace_action xs b"
    have "action_wf a'" using a assms(2) by (auto simp: actions_wf_def list_all_iff dest: lookup_SomeD)
    from step_action_ok [OF this t s] have ok: "step_ok a' (ev_event_type (fst et)) b" .
    with a have id: "ar_action_id b = aid'" by (auto simp: step_ok_def dest: lookup_SomeD)
    show thesis
    proof (cases "aid = aid'")
      case True
      with a assms(3) ok s ys id show thesis
        using action_store.put_same [of xs b] by (intro that) (auto simp: replace_action_put)
    next
      case False
      with assms(3) ys id show thesis
        using action_store.put_other [of aid b xs] by (intro that) (auto simp: replace_action_put)
    qed
  qed
qed

section \<open>Properties\<close>

text \<open>
  C3. Actions follow their state machine, one record at a time: an event either leaves a record alone, adds a new
  one in the proposed phase, or moves it by a step of the machine that its type labels. It touches no record but
  the one it names, and keeps all the others in their order; an event that is not of the lifecycle changes
  nothing. Every record keeps the validator's claims, and every refusal is a domain error, so the validation a
  late receipt runs outside the error handler never fires.
\<close>

theorem actions_follow_lifecycle:
  assumes "actions_wf xs" "valid_event e"
  shows "case reduce_actions xs e trusted of
      Inl err \<Rightarrow> is_domain_error err
    | Inr (ys, g) \<Rightarrow> actions_wf ys \<and> (\<forall>aid. evolves xs (ev_event_type e) ys aid) \<and> named_only e xs ys \<and>
        (ev_event_type e \<notin> set action_lifecycle_events \<longrightarrow> ys = xs)"
proof (cases "reduce_actions xs e trusted")
  case (Inl err)
  with reduce_actions_Inl [OF Inl assms] show ?thesis by simp
next
  case (Inr r)
  then obtain ys g where r: "reduce_actions xs e trusted = Inr (ys, g)" by (cases r) auto
  with reduce_actions_wf [OF r assms(1)] reduce_actions_evolves [OF r assms(1)] reduce_actions_names [OF r assms(1)]
  show ?thesis by auto
qed

definition sample_action :: action_record where
  "sample_action = \<lparr>ar_action_id = ''a'', ar_intent = [], ar_phase = Prepared,
     ar_phase_history = [Proposed, Prepared], ar_rd_phase = RdPrepare, ar_prepared_branch_id = None,
     ar_execution_confirmed = None, ar_outcome = None, ar_effect_confirmed = None, ar_receipt = None,
     ar_receipt_history = [], ar_receipt_history_evicted = 0, ar_receipt_corroboration_count = 0,
     ar_receipt_conflict_count = 0, ar_reconstruction = None, ar_reconstruction_history = [],
     ar_reconstruction_history_evicted = 0, ar_energy_status = Unrequested,
     ar_energy_request_event_id = None, ar_energy_assessment_event_id = None,
     ar_energy_failure_code = None, ar_proposed_event_id = sample_id, ar_last_event_id = sample_id\<rparr>"

definition action_event :: "string \<Rightarrow> jobj \<Rightarrow> event_envelope" where
  "action_event t p = sample_event t ((''action_id'', JStr ''a'') # p)"

lemma sample_action_valid: "valid_action sample_action"
  by (simp add: sample_action_def valid_action_def str_len_def bounded_opt_def lifecycle_claims_def
      canonical_claims_def energy_claims_def)

lemma sample_actions_wf: "actions_wf [sample_action]"
  using action_wfI [OF sample_action_valid, of LPrepared]
  by (simp add: actions_wf_def at_life_def sample_action_def)

lemma dispatch_event_valid: "valid_event (action_event ''action.dispatched'' [])"
  unfolding action_event_def
  by (rule sample_event_valid) (simp_all add: valid_event_type_def type_char_def Let_def)

lemma actions_follow_lifecycle_witness:
  "actions_wf [sample_action] \<and> valid_event (action_event ''action.dispatched'' []) \<and>
   (case reduce_actions [sample_action] (action_event ''action.dispatched'' []) True of
      Inl err \<Rightarrow> is_domain_error err
    | Inr (ys, g) \<Rightarrow> actions_wf ys \<and> named_only (action_event ''action.dispatched'' []) [sample_action] ys)"
  using actions_follow_lifecycle [OF sample_actions_wf dispatch_event_valid, of True]
    sample_actions_wf dispatch_event_valid by (auto split: sum.splits)

text \<open>Once blocked, an action is never executed: every event that accepts it leaves it in a blocked life.\<close>

definition blocked_life :: "action_record \<Rightarrow> bool" where
  "blocked_life a \<longleftrightarrow> at_life a LBlocked \<or> at_life a LRefused"

definition never_executed :: "action_record \<Rightarrow> bool" where
  "never_executed a \<longleftrightarrow> Blocked \<in> set (ar_phase_history a) \<and> Dispatched \<notin> set (ar_phase_history a) \<and>
     ar_execution_confirmed a = Some False \<and> ar_outcome a = None \<and> ar_effect_confirmed a = None \<and>
     ar_receipt a = None \<and> ar_receipt_history a = []"

lemma blocked_lives: "action_wf a \<Longrightarrow> blocked_life a \<longleftrightarrow> Blocked \<in> set (ar_phase_history a)"
proof -
  assume "action_wf a"
  then obtain l where "at_life a l" by (auto simp: action_wf_def ex_life)
  then show ?thesis using at_life_unique [of a l] by (cases l) (auto simp: blocked_life_def at_life_def)
qed

lemma blocked_not_executed: "action_wf a \<Longrightarrow> blocked_life a \<Longrightarrow> never_executed a"
proof -
  assume a: "action_wf a" "blocked_life a"
  then have "lifecycle_claims a" "Blocked \<in> set (ar_phase_history a)"
    using blocked_lives [of a] by (simp_all add: action_wf_def valid_action_def)
  then show ?thesis unfolding lifecycle_claims_def Let_def never_executed_def by blast
qed

lemma blocked_step: "step_ok a t b \<Longrightarrow> blocked_life a \<Longrightarrow> blocked_life b"
  by (auto simp: step_ok_def ex_life blocked_life_def dest: at_life_unique
      elim!: life_step_from_blocked life_step_from_refused)

lemma blocked_stays:
  assumes "actions_step xs et = Inr ys" "actions_wf xs" "lookup ar_action_id xs aid = Some a" "blocked_life a"
  shows "\<exists>b. lookup ar_action_id ys aid = Some b \<and> blocked_life b"
  using actions_step_lookup [OF assms(1-3)] blocked_step assms(4) by metis

definition blocked_action :: action_record where
  "blocked_action = sample_action\<lparr>ar_phase := Blocked, ar_phase_history := [Proposed, Prepared, Blocked],
     ar_execution_confirmed := Some False\<rparr>"

definition reconstruct_event :: event_envelope where
  "reconstruct_event = action_event ''action.reconstructed'' []"

definition refused_action :: action_record where
  "refused_action = blocked_action\<lparr>ar_phase := Reconstructed,
     ar_phase_history := [Proposed, Prepared, Blocked, Reconstructed], ar_rd_phase := RdReconstruct,
     ar_reconstruction := Some [(''action_id'', JStr ''a'')],
     ar_reconstruction_history := [\<lparr>rr_event_id = sample_id, rr_after_receipt_event_id = None,
       rr_payload = [(''action_id'', JStr ''a'')]\<rparr>]\<rparr>"

lemmas sample_simps = sample_action_def blocked_action_def refused_action_def

lemma blocked_action_valid: "valid_action blocked_action" "valid_action refused_action"
  by (simp_all add: sample_simps valid_action_def str_len_def bounded_opt_def lifecycle_claims_def
      canonical_claims_def energy_claims_def valid_reconstruction_def uuid4_length
      MAX_ACTION_RECONSTRUCTION_HISTORY_def)

lemma reconstruct_blocked: "reduce_actions [blocked_action] reconstruct_event trusted = Inr ([refused_action], [])"
proof -
  have "reconstruct_action blocked_action reconstruct_event = action_validated refused_action"
    using blocked_action_valid(2)
    by (simp add: reconstruct_action_def reconstruct_event_def transition_def action_event_def last_n_def
        valid_reconstruction_def str_len_def bounded_opt_def uuid4_length sample_simps
        MAX_ACTION_RECONSTRUCTION_HISTORY_def action_validated_def)
  then show ?thesis
    using blocked_action_valid
    by (simp add: reduce_actions_def action_lifecycle_events_def action_id_from_event_def
        reconstruct_event_def action_event_def jget_def jget_or_def blank_Cons py_space_def
        find_action_def step_action_def replace_action_def action_validated_def sample_simps)
qed

definition effect_event :: event_envelope where
  "effect_event = action_event ''action.receipt''
     [(''effect_evidence'', JObj [(''kind'', JStr ''linked_observation''), (''observation_ids'', JArr [JStr ''door''])]),
      (''observations'', JArr [JObj [(''content'', JObj []), (''proposition_id'', JStr ''door'')]]),
      (''status'', JStr ''success'')]"

definition dispatched_action :: action_record where
  "dispatched_action = sample_action\<lparr>ar_phase := Dispatched,
     ar_phase_history := [Proposed, Prepared, Dispatched]\<rparr>"

definition effect_record :: action_receipt where
  "effect_record = \<lparr>rc_event_id = sample_id, rc_status = StSuccess, rc_disposition = Confirmed,
     rc_source_status = None, rc_source_error_type = None, rc_late = False,
     rc_execution_confirmed = Some True, rc_outcome = Some OutSuccess,
     rc_effect_observation_ids = [''door''], rc_payload = ev_payload effect_event\<rparr>"

definition confirmed_action :: action_record where
  "confirmed_action = dispatched_action\<lparr>ar_phase := Receipted,
     ar_phase_history := [Proposed, Prepared, Dispatched, Receipted],
     ar_execution_confirmed := Some True, ar_outcome := Some OutSuccess, ar_effect_confirmed := Some True,
     ar_receipt := Some (ev_payload effect_event), ar_receipt_history := [effect_record]\<rparr>"

definition closed_action :: action_record where
  "closed_action = confirmed_action\<lparr>ar_phase := Reconstructed,
     ar_phase_history := [Proposed, Prepared, Dispatched, Receipted, Reconstructed], ar_rd_phase := RdReconstruct,
     ar_reconstruction := Some (ev_payload reconstruct_event),
     ar_reconstruction_history := [\<lparr>rr_event_id = sample_id, rr_after_receipt_event_id = Some sample_id,
       rr_payload = ev_payload reconstruct_event\<rparr>]\<rparr>"

lemma effect_payload:
  "jget (ev_payload effect_event) ''status'' = JStr ''success''"
  "jget (ev_payload effect_event) ''source_status'' = JNull"
  "jget (ev_payload effect_event) ''source_error_type'' = JNull"
  "jget_or (ev_payload effect_event) ''late'' (JBool False) = JBool False"
  "frozen (JObj (ev_payload effect_event))" "ev_event_type effect_event = ''action.receipt''"
  "ev_event_id effect_event = sample_id"
  by (simp_all add: effect_event_def action_event_def jget_def jget_or_def sorted_keys_def)

lemma effect_record_valid: "valid_receipt effect_record"
  using effect_payload
  by (simp add: effect_record_def valid_receipt_def str_len_def bounded_opt_def uuid4_length receipt_claims_match_def
      validate_receipt_source_semantics_def opt_json_def limits blank_Cons py_space_def)

lemma confirmed_action_valid: "valid_action confirmed_action" "valid_action closed_action"
  using effect_payload effect_record_valid
  by (simp_all add: confirmed_action_def closed_action_def dispatched_action_def sample_action_def valid_action_def
      str_len_def bounded_opt_def lifecycle_claims_def canonical_claims_def energy_claims_def
      receipt_status_of_def validate_receipt_source_semantics_def valid_reconstruction_def uuid4_length
      MAX_ACTION_RECONSTRUCTION_HISTORY_def MAX_ACTION_RECEIPT_HISTORY_def reconstruct_event_def action_event_def
      del: frozen.simps(1))

lemma effect_grounded: "receipt_grounded_ids effect_event True = Inr [''door'']"
  by (simp add: receipt_grounded_ids_def effect_event_def action_event_def jget_def jget_or_def
      link_observations_def collect_observation_def is_object_def blank_Cons py_space_def limits)

lemma receive_effect: "receive_action dispatched_action effect_event True = Inr (confirmed_action, [''door''])"
proof -
  have "receipt_record dispatched_action effect_event StSuccess False [''door''] = Inr effect_record"
    using effect_record_valid effect_payload
    by (simp add: receipt_record_def effect_record_def dispatched_action_def sample_action_def)
  moreover have "transition dispatched_action effect_event Dispatched Receipted RdPrepare
      (receipt_updates dispatched_action effect_event effect_record [''door'']) = Inr confirmed_action"
    using confirmed_action_valid effect_payload
    by (simp add: transition_def receipt_updates_def confirmed_action_def dispatched_action_def sample_action_def
        effect_record_def last_n_def MAX_ACTION_RECEIPT_HISTORY_def rewrap_eq_Inr)
  moreover have "ar_phase dispatched_action = Dispatched" by (simp add: dispatched_action_def)
  ultimately show ?thesis
    by (simp add: receive_action_def effect_payload receipt_status_of_def effect_grounded receipt_admitted_def
        validate_receipt_source_semantics_def)
qed

lemma close_confirmed: "actions_step [confirmed_action] (reconstruct_event, True) = Inr [closed_action]"
proof -
  have "reconstruct_action confirmed_action reconstruct_event = Inr closed_action"
    using confirmed_action_valid(2)
    by (simp add: reconstruct_action_def reconstruct_event_def transition_def action_event_def last_n_def
        valid_reconstruction_def str_len_def bounded_opt_def uuid4_length confirmed_action_def closed_action_def
        dispatched_action_def sample_action_def effect_record_def MAX_ACTION_RECONSTRUCTION_HISTORY_def
        rewrap_eq_Inr)
  then show ?thesis
    by (simp add: actions_step_def reduce_actions_def action_lifecycle_events_def action_id_from_event_def
        reconstruct_event_def action_event_def jget_def jget_or_def blank_Cons py_space_def
        find_action_def step_action_def replace_action_def closed_action_def confirmed_action_def
        dispatched_action_def sample_action_def)
qed

text \<open>
  C5. The first known outcome is final: whatever receipts, conflicts, reconstructions and energy
  events follow, an action that has an outcome keeps it, keeps the canonical receipt that
  established it and stays confirmed as executed.
\<close>

theorem first_outcome_final:
  assumes "actions_wf xs" "list_all (\<lambda>et. valid_event (fst et)) ets"
    and "rfold actions_step xs ets = Inr ys"
    and "lookup ar_action_id xs aid = Some a" "ar_outcome a = Some out"
  shows "\<exists>b. lookup ar_action_id ys aid = Some b \<and> ar_outcome b = Some out \<and>
    ar_receipt b = ar_receipt a \<and> ar_execution_confirmed b = Some True"
proof -
  let ?P = "\<lambda>xs. \<exists>b. lookup ar_action_id xs aid = Some b \<and> ar_outcome b = Some out \<and> ar_receipt b = ar_receipt a"
  have wf: "action_wf b" if "actions_wf zs" "lookup ar_action_id zs aid = Some b" for zs b
    using that by (auto simp: actions_wf_def list_all_iff dest: lookup_SomeD)
  have ys: "actions_wf ys \<and> ?P ys"
    using assms(1-3)
  proof (intro actions_reducer.run_keeps_also [where P = ?P])
    fix zs et zs' assume s: "actions_wf zs" "actions_step zs et = Inr zs'" "?P zs"
    then obtain b where b: "lookup ar_action_id zs aid = Some b" "ar_outcome b = Some out" "ar_receipt b = ar_receipt a"
      by blast
    from actions_step_lookup [OF s(2,1) b(1)] obtain c g where "lookup ar_action_id zs' aid = Some c"
      "c = b \<or> step_action b (fst et) (snd et) = Inr (c, g)" by metis
    with b step_action_outcome [OF wf [OF s(1) b(1)] b(2)] show "?P zs'" by auto
  qed (use assms(4,5) in auto)
  then obtain b where b: "lookup ar_action_id ys aid = Some b" "ar_outcome b = Some out" "ar_receipt b = ar_receipt a"
    by blast
  from wf [OF _ b(1)] ys have "valid_action b" by (simp add: action_wf_def)
  with b show ?thesis by (auto simp: valid_action_def lifecycle_claims_def Let_def)
qed

lemma first_outcome_final_witness:
  "\<exists>b. lookup ar_action_id [closed_action] ''a'' = Some b \<and> ar_outcome b = Some OutSuccess \<and>
    ar_receipt b = ar_receipt confirmed_action \<and> ar_execution_confirmed b = Some True"
proof (rule first_outcome_final [where xs = "[confirmed_action]" and ets = "[(reconstruct_event, True)]"])
  have "at_life confirmed_action LReceipted" by (simp add: at_life_def confirmed_action_def)
  with confirmed_action_valid show "actions_wf [confirmed_action]"
    by (auto simp: actions_wf_def confirmed_action_def intro!: action_wfI)
  have "valid_event reconstruct_event"
    unfolding reconstruct_event_def action_event_def
    by (rule sample_event_valid) (simp_all add: valid_event_type_def type_char_def Let_def)
  then show "list_all (\<lambda>et. valid_event (fst et)) [(reconstruct_event, True)]" by simp
  show "rfold actions_step [confirmed_action] [(reconstruct_event, True)] = Inr [closed_action]"
    by (simp add: close_confirmed)
qed (simp_all add: confirmed_action_def dispatched_action_def sample_action_def)

text \<open>
  C6. An effect is only ever confirmed by linked evidence: if an event makes an action's effect
  confirmed, it is a receipt of trusted provenance that links at least one observation, and every
  linked identifier is one of the receipt's own observations with an object as its content.
\<close>

theorem effects_need_linked_evidence:
  assumes "step_action a e trusted = Inr (b, g)"
    and "ar_effect_confirmed b = Some True" "ar_effect_confirmed a \<noteq> Some True"
  shows "ev_event_type e = ''action.receipt'' \<and> trusted \<and> g \<noteq> [] \<and>
    (\<forall>i \<in> set g. supplied (ev_payload e) i)"
proof -
  from step_action_claims [OF assms(1)] assms(2,3)
  have t: "ev_event_type e = ''action.receipt''" and r: "receive_action a e trusted = Inr (b, g)"
    by (auto simp: same_claims_def)
  from r obtain status late rec r0 where g: "receipt_grounded_ids e trusted = Inr g"
    "same_claims (receipt_updates a e rec g r0) b"
    by (rule receive_action_record)
  then have "g \<noteq> []" using assms(2,3) by (auto simp: same_claims_def split: if_splits)
  with receipt_grounded_Inr [OF g(1)] t show ?thesis by simp
qed

lemma effects_need_linked_evidence_witness:
  "step_action dispatched_action effect_event True = Inr (confirmed_action, [''door'']) \<and>
   ar_effect_confirmed confirmed_action = Some True \<and> ar_effect_confirmed dispatched_action \<noteq> Some True \<and>
   ev_event_type effect_event = ''action.receipt'' \<and> True \<and> [''door''] \<noteq> [] \<and>
   supplied (ev_payload effect_event) ''door''"
proof -
  have s: "step_action dispatched_action effect_event True = Inr (confirmed_action, [''door''])"
    by (simp add: step_action_def effect_payload receive_effect)
  have e: "ar_effect_confirmed confirmed_action = Some True" "ar_effect_confirmed dispatched_action \<noteq> Some True"
    by (simp_all add: confirmed_action_def dispatched_action_def sample_action_def)
  from effects_need_linked_evidence [OF s e] have "supplied (ev_payload effect_event) ''door''"
    "ev_event_type effect_event = ''action.receipt''" by (metis list.set_intros(1), blast)
  with s e show ?thesis by blast
qed

text \<open>
  No receipt is lost silently: each accepted receipt adds exactly one to the receipts kept plus
  the receipts counted as evicted, at most sixteen are kept and the newest is among them, and a
  receipt that contradicts a known outcome is counted as a conflict.
\<close>

theorem receipts_accounted:
  assumes "receive_action a e trusted = Inr (b, g)" "length (ar_receipt_history a) \<le> MAX_ACTION_RECEIPT_HISTORY"
  shows "int (length (ar_receipt_history b)) + ar_receipt_history_evicted b =
      int (length (ar_receipt_history a)) + ar_receipt_history_evicted a + 1 \<and>
    length (ar_receipt_history b) \<le> MAX_ACTION_RECEIPT_HISTORY \<and>
    rc_payload (last (ar_receipt_history b)) = ev_payload e \<and>
    ar_receipt_conflict_count b = ar_receipt_conflict_count a +
      (if ar_outcome a \<noteq> None \<and> rc_outcome (last (ar_receipt_history b)) \<notin> {None, ar_outcome a} then 1 else 0)"
proof -
  from assms(1) obtain status late rec r0 where r: "receipt_record a e status late g = Inr rec"
    "same_claims (receipt_updates a e rec g r0) b"
    by (rule receive_action_record)
  have h: "ar_receipt_history b = last_n (MAX_ACTION_RECEIPT_HISTORY - 1) (ar_receipt_history a) @ [rec]"
    using r(2) by (simp add: same_claims_def last_n_snoc MAX_ACTION_RECEIPT_HISTORY_def)
  note rec = receipt_record_Inr [OF r(1)]
  have "ar_receipt_conflict_count b = ar_receipt_conflict_count a +
      (if ar_outcome a \<noteq> None \<and> rc_outcome rec \<notin> {None, ar_outcome a} then 1 else 0)"
    using r(2) rec by (cases status) (auto simp: same_claims_def)
  moreover have "last (ar_receipt_history b) = rec" by (simp add: h)
  moreover have "int (length (ar_receipt_history b)) + ar_receipt_history_evicted b =
      int (length (ar_receipt_history a)) + ar_receipt_history_evicted a + 1"
    using r(2) h assms(2) by (simp add: same_claims_def MAX_ACTION_RECEIPT_HISTORY_def)
  moreover have "length (ar_receipt_history b) \<le> MAX_ACTION_RECEIPT_HISTORY"
    using h by (simp add: MAX_ACTION_RECEIPT_HISTORY_def)
  ultimately show ?thesis using rec by simp
qed

lemma receipts_accounted_witness:
  "length (ar_receipt_history dispatched_action) \<le> MAX_ACTION_RECEIPT_HISTORY \<and>
   int (length (ar_receipt_history confirmed_action)) + ar_receipt_history_evicted confirmed_action =
      int (length (ar_receipt_history dispatched_action)) + ar_receipt_history_evicted dispatched_action + 1"
proof -
  have l: "length (ar_receipt_history dispatched_action) \<le> MAX_ACTION_RECEIPT_HISTORY"
    by (simp add: dispatched_action_def sample_action_def)
  from receipts_accounted [OF receive_effect l] l show ?thesis by blast
qed

end
