(* ===== verification/Workspace.thy ===== *)
theory Workspace imports Energy
begin

text \<open>
  \<^verbatim>\<open>core/workspace.py\<close>, the data and the competition: candidates, memories, the workspace state and
  \<open>choose_broadcast\<close>; and \<open>_workspace_candidate\<close> of \<^verbatim>\<open>core/reducer.py\<close>, which rebuilds a candidate
  from an event payload. The specialists that make the bids read the whole state and are in
  \<open>Specialists\<close>.
\<close>

section \<open>Data\<close>

datatype specialist = PredictionError | Drives | IncompleteAction | MemoryTrace | SelfWorldConflict

fun specialist_name :: "specialist \<Rightarrow> string" where
  "specialist_name PredictionError = ''prediction_error''"
| "specialist_name Drives = ''drives''"
| "specialist_name IncompleteAction = ''incomplete_action''"
| "specialist_name MemoryTrace = ''memory''"
| "specialist_name SelfWorldConflict = ''self_world_conflict''"

definition specialist_of :: "string \<Rightarrow> specialist option" where
  "specialist_of s = find (\<lambda>x. specialist_name x = s)
     [PredictionError, Drives, IncompleteAction, MemoryTrace, SelfWorldConflict]"

definition DEFAULT_WORKSPACE_CAPACITY :: nat where "DEFAULT_WORKSPACE_CAPACITY = 4"

record ws_candidate =
  wc_candidate_id :: string
  wc_specialist :: specialist
  wc_score :: rat
  wc_content :: jobj
  wc_source_ids :: "string list"
  wc_cycle :: int

definition valid_candidate :: "ws_candidate \<Rightarrow> bool" where
  "valid_candidate c = (str_len 1 256 (wc_candidate_id c) \<and> unit_float (wc_score c) \<and>
     frozen (JObj (wc_content c)) \<and> length (wc_source_ids c) \<le> 256 \<and>
     list_all (\<lambda>i. \<not> blank i) (wc_source_ids c) \<and> 1 \<le> wc_cycle c)"

definition mk_candidate :: "ws_candidate \<Rightarrow> ws_candidate res" where
  "mk_candidate c = (if valid_candidate c then Inr c else Inl (ValidationError ''WorkspaceCandidate''))"

record memory_record =
  mr_memory_id :: string
  mr_content :: jobj
  mr_salience :: rat
  mr_source_ids :: "string list"

definition valid_memory :: "memory_record \<Rightarrow> bool" where
  "valid_memory m = (str_len 1 256 (mr_memory_id m) \<and> frozen (JObj (mr_content m)) \<and>
     unit_float (mr_salience m))"

record workspace_state =
  ws_capacity :: nat
  ws_cycle :: int
  ws_broadcast :: "ws_candidate list"

definition valid_workspace :: "workspace_state \<Rightarrow> bool" where
  "valid_workspace w = (1 \<le> ws_capacity w \<and> ws_capacity w \<le> MAX_WORKSPACE_BROADCAST \<and> 0 \<le> ws_cycle w \<and>
     list_all valid_candidate (ws_broadcast w) \<and> length (ws_broadcast w) \<le> ws_capacity w)"

definition empty_workspace :: workspace_state where
  "empty_workspace = \<lparr>ws_capacity = DEFAULT_WORKSPACE_CAPACITY, ws_cycle = 0, ws_broadcast = []\<rparr>"

section \<open>The competition\<close>

text \<open>The sort key of a bid: highest score first, then specialist and identifier.\<close>

definition rank :: "ws_candidate \<Rightarrow> rat \<times> string \<times> string" where
  "rank c = (- wc_score c, specialist_name (wc_specialist c), wc_candidate_id c)"

definition fingerprint :: "ws_candidate \<Rightarrow> string" where
  "fingerprint c = canonical_json (JObj (wc_content c))"

text \<open>
  \<open>best_by_content\<close> is an insertion-ordered dict: a better bid with the same content replaces the
  earlier one in its place.
\<close>

fun keep_best :: "(string \<times> ws_candidate) list \<Rightarrow> ws_candidate \<Rightarrow> (string \<times> ws_candidate) list" where
  "keep_best [] c = [(fingerprint c, c)]"
| "keep_best ((f, d) # best) c =
     (if f = fingerprint c then (if rank c < rank d then (f, c) # best else (f, d) # best)
      else (f, d) # keep_best best c)"

definition choose_broadcast :: "ws_candidate list \<Rightarrow> nat \<Rightarrow> ws_candidate list res" where
  "choose_broadcast candidates capacity =
     (if 1 \<le> capacity \<and> capacity \<le> MAX_WORKSPACE_BROADCAST then
        Inr (take capacity (sort_key rank (map snd (foldl keep_best [] candidates))))
      else Inl (PyValueError ''workspace capacity must be between 1 and 64''))"

section \<open>Candidates in payloads\<close>

text \<open>\<open>model_dump(mode="json")\<close> of a candidate, as it is put in a payload.\<close>

definition candidate_json :: "ws_candidate \<Rightarrow> json" where
  "candidate_json c = JObj [(''candidate_id'', JStr (wc_candidate_id c)), (''content'', JObj (wc_content c)),
     (''cycle'', JInt (wc_cycle c)), (''score'', JFloat (wc_score c)),
     (''source_ids'', JArr (map JStr (wc_source_ids c))),
     (''specialist'', JStr (specialist_name (wc_specialist c)))]"

definition candidate_of_payload :: "jobj \<Rightarrow> ws_candidate res" where
  "candidate_of_payload m =
     rbind (jitem m ''candidate_id'') (\<lambda>cid.
     rbind (jitem m ''specialist'') (\<lambda>sp.
     rbind (rbind (jitem m ''score'') (\<lambda>v. of_option (PyTypeError ''score'') (py_float v))) (\<lambda>score.
     rbind (jitem m ''content'') (\<lambda>content.
     rbind (of_option (PyTypeError ''source_ids'') (py_tuple (jget_or m ''source_ids'' (JArr [])))) (\<lambda>sources.
     rbind (rbind (jitem m ''cycle'') (\<lambda>v. of_option (PyTypeError ''cycle'') (py_int v))) (\<lambda>cycle.
     rbind (of_option (ValidationError ''candidate_id'') (as_str cid)) (\<lambda>cid.
     rbind (of_option (ValidationError ''specialist'') (Option.bind (as_str sp) specialist_of)) (\<lambda>sp.
     rbind (of_option (PyTypeError ''payload must be a JSON object'') (as_obj content)) (\<lambda>content.
     rbind (of_option (ValidationError ''source_ids'') (as_strs sources)) (\<lambda>sources.
     mk_candidate \<lparr>wc_candidate_id = cid, wc_specialist = sp, wc_score = score, wc_content = content,
       wc_source_ids = sources, wc_cycle = cycle\<rparr>))))))))))"

definition workspace_candidate :: "json \<Rightarrow> ws_candidate res" where
  "workspace_candidate v = (case v of
     JObj m \<Rightarrow> rewrap ''invalid workspace candidate'' (candidate_of_payload m)
   | _ \<Rightarrow> Inl (DomainInvariantError ''workspace candidate must be a JSON object''))"

section \<open>Lemmas\<close>

lemma mk_candidate_Inr [simp]: "mk_candidate c = Inr d \<longleftrightarrow> valid_candidate c \<and> d = c"
  by (auto simp: mk_candidate_def)

lemma specialist_of_name [simp]: "specialist_of (specialist_name s) = Some s"
  by (cases s) (simp_all add: specialist_of_def)

lemma workspace_candidate_valid: "workspace_candidate v = Inr c \<Longrightarrow> valid_candidate c"
  by (auto simp: workspace_candidate_def candidate_of_payload_def res_simps split: json.splits)

lemma workspace_candidate_Inl: "workspace_candidate v = Inl e \<Longrightarrow> is_domain_error e"
  by (auto simp: workspace_candidate_def rewrap_eq_Inl split: json.splits)

text \<open>\<open>keep_best\<close> keeps one bid per content, keyed by it, and never a worse one.\<close>

definition keyed :: "(string \<times> ws_candidate) list \<Rightarrow> bool" where
  "keyed best = (distinct (map fst best) \<and> list_all (\<lambda>(f, d). f = fingerprint d) best)"

lemma keep_best_fst: "fst ` set (keep_best best c) = insert (fingerprint c) (fst ` set best)"
proof (induction best)
  case (Cons p best)
  then show ?case by (cases p) auto
qed simp

lemma keyed_Cons: "keyed ((f, d) # best) \<longleftrightarrow> f = fingerprint d \<and> f \<notin> fst ` set best \<and> keyed best"
  by (auto simp: keyed_def)

lemma keep_best_keyed: "keyed best \<Longrightarrow> keyed (keep_best best c)"
proof (induction best)
  case (Cons p best)
  then show ?case
    by (cases p) (simp add: keyed_Cons keep_best_fst, metis)
qed (simp add: keyed_def)

lemma keep_best_set: "snd ` set (keep_best best c) \<subseteq> insert c (snd ` set best)"
proof (induction best)
  case (Cons p best)
  then show ?case by (cases p) auto
qed simp

lemma keep_best_le:
  "(f, d) \<in> set best \<Longrightarrow> keyed best \<Longrightarrow> \<exists>d'. (f, d') \<in> set (keep_best best c) \<and> rank d' \<le> rank d"
proof (induction best)
  case (Cons p best)
  obtain f' d' where p: "p = (f', d')" by (cases p)
  from Cons.prems(2) have k: "keyed best" by (simp add: keyed_def)
  show ?case
  proof (cases "(f, d) = p")
    case True
    with p show ?thesis by (cases "f' = fingerprint c"; cases "rank c < rank d'") force+
  next
    case False
    with Cons.prems(1) Cons.IH k p show ?thesis by auto
  qed
qed simp

lemma keep_best_new: "keyed best \<Longrightarrow> \<exists>d. (fingerprint c, d) \<in> set (keep_best best c) \<and> rank d \<le> rank c"
proof (induction best)
  case (Cons p best)
  then show ?case by (cases p) (force simp: keyed_def)
qed simp

lemma best_fold:
  assumes "keyed best"
  shows "keyed (foldl keep_best best cs) \<and>
    (\<forall>c \<in> set cs \<union> snd ` set best. \<exists>d. (fingerprint c, d) \<in> set (foldl keep_best best cs) \<and> rank d \<le> rank c) \<and>
    snd ` set (foldl keep_best best cs) \<subseteq> set cs \<union> snd ` set best"
  using assms
proof (induction cs arbitrary: best)
  case Nil
  then show ?case by (force simp: keyed_def list_all_iff)
next
  case (Cons c cs)
  note k = keep_best_keyed [OF Cons.prems, of c]
  note IH = Cons.IH [OF k]
  have old: "\<exists>e. (fingerprint d, e) \<in> set (foldl keep_best (keep_best best c) cs) \<and> rank e \<le> rank d"
    if d: "d \<in> insert c (snd ` set best)" for d
  proof -
    obtain e where e: "(fingerprint d, e) \<in> set (keep_best best c)" "rank e \<le> rank d"
    proof (cases "d = c")
      case True with keep_best_new [OF Cons.prems, of c] that show thesis by auto
    next
      case False
      with d obtain f where f: "(f, d) \<in> set best" by auto
      with Cons.prems have "f = fingerprint d" by (auto simp: keyed_def list_all_iff)
      with keep_best_le [OF f Cons.prems, of c] that show thesis by auto
    qed
    moreover have "e \<in> snd ` set (keep_best best c)" using e(1) by force
    moreover have "fingerprint e = fingerprint d" using k e(1) by (auto simp: keyed_def list_all_iff)
    ultimately show ?thesis using IH by (metis UnI2 order_trans)
  qed
  have "snd ` set (foldl keep_best (keep_best best c) cs) \<subseteq> set (c # cs) \<union> snd ` set best"
  proof -
    have "snd ` set (foldl keep_best (keep_best best c) cs) \<subseteq> set cs \<union> snd ` set (keep_best best c)"
      using IH by blast
    also have "\<dots> \<subseteq> set cs \<union> insert c (snd ` set best)" using keep_best_set [of best c] by blast
    finally show ?thesis by simp
  qed
  moreover have "\<exists>e. (fingerprint d, e) \<in> set (foldl keep_best (keep_best best c) cs) \<and> rank e \<le> rank d"
    if "d \<in> set (c # cs) \<union> snd ` set best" for d
  proof (cases "d \<in> set cs")
    case True
    with IH show ?thesis by blast
  next
    case False
    with that show ?thesis by (intro old) auto
  qed
  ultimately show ?case using IH by simp
qed

lemma keep_best_fresh: "fingerprint c \<notin> fst ` set best \<Longrightarrow> keep_best best c = best @ [(fingerprint c, c)]"
proof (induction best)
  case (Cons p best)
  then show ?case by (cases p) auto
qed simp

lemma best_fold_fresh:
  "distinct (map fst best @ map fingerprint cs) \<Longrightarrow>
   foldl keep_best best cs = best @ map (\<lambda>c. (fingerprint c, c)) cs"
proof (induction cs arbitrary: best)
  case (Cons c cs)
  then have "keep_best best c = best @ [(fingerprint c, c)]" by (intro keep_best_fresh) auto
  with Cons show ?case by simp
qed simp

lemma choose_broadcast_Inr:
  assumes "choose_broadcast cs cap = Inr bs"
  obtains best where "keyed best" "bs = take cap (sort_key rank (map snd best))" "1 \<le> cap"
    "cap \<le> MAX_WORKSPACE_BROADCAST" "snd ` set best \<subseteq> set cs"
    "\<forall>c \<in> set cs. \<exists>d. (fingerprint c, d) \<in> set best \<and> rank d \<le> rank c"
proof -
  have k: "keyed []" by (simp add: keyed_def)
  from assms have "bs = take cap (sort_key rank (map snd (foldl keep_best [] cs)))" "1 \<le> cap"
    "cap \<le> MAX_WORKSPACE_BROADCAST"
    by (auto simp: choose_broadcast_def split: if_splits)
  with best_fold [OF k, of cs] show ?thesis by (intro that [of "foldl keep_best [] cs"]) simp_all
qed

lemma keyed_fingerprints: "keyed best \<Longrightarrow> map fingerprint (map snd best) = map fst best"
  by (auto simp: keyed_def list_all_iff)

lemma distinct_sorted_fingerprints:
  assumes "keyed best"
  shows "distinct (map fingerprint (sort_key rank (map snd best)))"
proof -
  have "distinct (map fingerprint (map snd best))"
    unfolding keyed_fingerprints [OF assms] using assms by (simp add: keyed_def)
  then show ?thesis by (simp add: distinct_map inj_on_def) metis
qed

lemma choose_broadcast_shape:
  assumes "choose_broadcast cs cap = Inr bs"
  shows "length bs \<le> cap \<and> set bs \<subseteq> set cs \<and> distinct (map fingerprint bs) \<and> sorted (map rank bs)"
proof -
  from assms obtain best where b: "keyed best" "bs = take cap (sort_key rank (map snd best))"
    "snd ` set best \<subseteq> set cs" by (rule choose_broadcast_Inr)
  have "set bs \<subseteq> set cs" using b(2,3) set_take_subset [of cap "sort_key rank (map snd best)"] by auto
  moreover have "sorted (map rank bs)" by (simp add: b(2) take_map [symmetric] sorted_wrt_take)
  moreover have "distinct (map fingerprint bs)"
    using distinct_sorted_fingerprints [OF b(1)] by (simp add: b(2) take_map [symmetric])
  ultimately show ?thesis by (simp add: b(2))
qed

text \<open>
  Ranking is a fixed point: choosing among an already chosen broadcast returns it unchanged. And a
  candidate survives its event JSON.
\<close>

lemma broadcast_stable:
  assumes "choose_broadcast cs cap = Inr bs"
  shows "choose_broadcast bs cap = Inr bs"
proof -
  note shape = choose_broadcast_shape [OF assms]
  have "1 \<le> cap \<and> cap \<le> MAX_WORKSPACE_BROADCAST" using assms by (auto simp: choose_broadcast_def split: if_splits)
  moreover have "map snd (foldl keep_best [] bs) = bs" using shape by (simp add: best_fold_fresh comp_def)
  moreover have "sort_key rank bs = bs" using shape by (simp add: sort_key_id_if_sorted)
  ultimately show ?thesis using shape by (simp add: choose_broadcast_def)
qed

lemma candidate_payload: "valid_candidate c \<Longrightarrow> workspace_candidate (candidate_json c) = Inr c"
  by (simp add: workspace_candidate_def candidate_json_def candidate_of_payload_def jitem_def jget_or_def
      mk_candidate_def valid_candidate_def)

section \<open>Properties\<close>

text \<open>
  C10. The broadcast is the best bids, fairly chosen: it fits the capacity, holds only bids that were
  made, in rank order and with distinct contents; and a bid that is left out either lost to a bid of
  the same content that ranks no worse, or found the broadcast full of bids that rank no worse.
\<close>

theorem broadcast_is_competition:
  assumes "choose_broadcast cs cap = Inr bs"
  shows "length bs \<le> cap \<and> set bs \<subseteq> set cs \<and> distinct (map fingerprint bs) \<and> sorted (map rank bs) \<and>
    (\<forall>c \<in> set cs. (\<exists>b \<in> set bs. fingerprint b = fingerprint c \<and> rank b \<le> rank c) \<or>
      length bs = cap \<and> (\<forall>b \<in> set bs. rank b \<le> rank c))"
proof -
  from assms obtain best where b: "keyed best" "bs = take cap (sort_key rank (map snd best))"
    "\<forall>c \<in> set cs. \<exists>d. (fingerprint c, d) \<in> set best \<and> rank d \<le> rank c" by (rule choose_broadcast_Inr)
  let ?s = "sort_key rank (map snd best)"
  have "(\<exists>b \<in> set bs. fingerprint b = fingerprint c \<and> rank b \<le> rank c) \<or>
      length bs = cap \<and> (\<forall>b \<in> set bs. rank b \<le> rank c)" if c: "c \<in> set cs" for c
  proof -
    obtain d where d: "(fingerprint c, d) \<in> set best" "rank d \<le> rank c" using b(3) c by blast
    then have "d \<in> set ?s" "fingerprint d = fingerprint c" using b(1) by (force simp: keyed_def list_all_iff)+
    moreover have "set ?s = set bs \<union> set (drop cap ?s)"
      by (metis append_take_drop_id b(2) set_append)
    moreover have "length bs = cap \<and> (\<forall>b \<in> set bs. rank b \<le> rank d)" if "d \<in> set (drop cap ?s)"
    proof -
      have "sorted (map rank (take cap ?s @ drop cap ?s))" by simp
      then have "\<forall>b \<in> set bs. rank b \<le> rank d" using that b(2) by (simp only: map_append sorted_append) auto
      moreover have "cap < length ?s" using that by (metis drop_eq_Nil empty_iff list.set(1) not_le)
      ultimately show ?thesis by (simp add: b(2))
    qed
    ultimately show ?thesis using d(2) by (metis UnE order_trans)
  qed
  with choose_broadcast_shape [OF assms] show ?thesis by simp
qed

text \<open>
  A valid candidate survives the ledger: written as event JSON and rebuilt by the reducer, it is
  the same candidate.
\<close>

theorem candidate_roundtrip:
  assumes "valid_candidate c"
  shows "workspace_candidate (candidate_json c) = Inr c"
  by (rule candidate_payload [OF assms])

definition sample_candidate :: "string \<Rightarrow> rat \<Rightarrow> ws_candidate" where
  "sample_candidate i s = \<lparr>wc_candidate_id = i, wc_specialist = MemoryTrace, wc_score = s, wc_content = [],
     wc_source_ids = [], wc_cycle = 1\<rparr>"

lemma choose_sample:
  "choose_broadcast [sample_candidate ''b'' (1 / 2), sample_candidate ''a'' 1] 4 = Inr [sample_candidate ''a'' 1]"
  by (simp add: choose_broadcast_def sample_candidate_def rank_def fingerprint_def limits)

lemma broadcast_is_competition_witness:
  "distinct (map fingerprint [sample_candidate ''a'' 1]) \<and>
   ((\<exists>b \<in> set [sample_candidate ''a'' 1]. fingerprint b = fingerprint (sample_candidate ''b'' (1 / 2)) \<and>
      rank b \<le> rank (sample_candidate ''b'' (1 / 2))) \<or>
    length [sample_candidate ''a'' 1] = 4 \<and> rank (sample_candidate ''a'' 1) \<le> rank (sample_candidate ''b'' (1 / 2)))"
proof -
  have "sample_candidate ''b'' (1 / 2) \<in> set [sample_candidate ''b'' (1 / 2), sample_candidate ''a'' 1]" by simp
  with broadcast_is_competition [OF choose_sample] show ?thesis by (meson list.set_intros(1))
qed

lemma candidate_roundtrip_witness:
  "workspace_candidate (candidate_json (sample_candidate ''a'' 1)) = Inr (sample_candidate ''a'' 1)"
  by (rule candidate_roundtrip)
    (simp add: valid_candidate_def sample_candidate_def str_len_def unit_float_def in_range_def)

end
