(* ===== verification/Cognition.thy ===== *)
theory Cognition imports Action
begin

text \<open>
  \<^verbatim>\<open>core/cognition.py\<close>: the typed local reflection, the deterministic port that produces it, and the
  two directions between a result and event JSON.
\<close>

section \<open>Data\<close>

definition COGNITION_ALGORITHM_VERSION :: string where
  "COGNITION_ALGORITHM_VERSION = ''local-branches-v1''"

definition COGNITION_CONFIG_VERSION :: string where
  "COGNITION_CONFIG_VERSION = ''default-v1''"

definition cognition_stances :: "string list" where
  "cognition_stances = [''proceed'', ''defer'', ''seek_observation'']"

record cognition_alternative =
  ca_branch_id :: string
  ca_stance :: string
  ca_content :: jobj
  ca_expected_consequences :: "jobj list"

definition valid_alternative :: "cognition_alternative \<Rightarrow> bool" where
  "valid_alternative a = (str_len 1 256 (ca_branch_id a) \<and> ca_stance a \<in> set cognition_stances \<and>
     frozen (JObj (ca_content a)) \<and> list_all (\<lambda>m. frozen (JObj m)) (ca_expected_consequences a))"

record cognition_result =
  cr_cognition_mode :: string
  cr_provider_used :: bool
  cr_algorithm_version :: string
  cr_config_version :: string
  cr_source_ids :: "string list"
  cr_input_fingerprint :: string
  cr_alternatives :: "cognition_alternative list"
  cr_uncertainty :: rat
  cr_uncertainty_basis :: string
  cr_calibrated :: bool
  cr_reflection :: jobj

definition valid_result :: "cognition_result \<Rightarrow> bool" where
  "valid_result r = (cr_cognition_mode r = ''local'' \<and> \<not> cr_provider_used r \<and>
     is_sha256 (cr_input_fingerprint r) \<and> list_all valid_alternative (cr_alternatives r) \<and>
     distinct (map ca_branch_id (cr_alternatives r)) \<and> unit_float (cr_uncertainty r) \<and>
     cr_uncertainty_basis r = ''deterministic_heuristic'' \<and> \<not> cr_calibrated r \<and>
     frozen (JObj (cr_reflection r)))"

record cognition_state =
  cg_cognition_mode :: string
  cg_algorithm_version :: string
  cg_config_version :: string
  cg_reflections :: "cognition_result list"

definition valid_cognition :: "cognition_state \<Rightarrow> bool" where
  "valid_cognition c = (cg_cognition_mode c = ''local'' \<and> list_all valid_result (cg_reflections c) \<and>
     length (cg_reflections c) \<le> MAX_COGNITION_REFLECTIONS)"

definition empty_cognition :: cognition_state where
  "empty_cognition = \<lparr>cg_cognition_mode = ''local'', cg_algorithm_version = COGNITION_ALGORITHM_VERSION,
     cg_config_version = COGNITION_CONFIG_VERSION, cg_reflections = []\<rparr>"

section \<open>The local port\<close>

text \<open>\<open>int(fingerprint[:8], 16)\<close>.\<close>

definition hex_val :: "char \<Rightarrow> int" where
  "hex_val c = (let n = (of_char c :: int) in if n \<le> 57 then n - 48 else n - 87)"

definition hex_int :: "string \<Rightarrow> int" where
  "hex_int s = foldl (\<lambda>v c. 16 * v + hex_val c) 0 s"

definition heuristic_uncertainty :: "string \<Rightarrow> rat option" where
  "heuristic_uncertainty fp = py_round 4 (fadd (1 / 4) (fdiv (of_int (hex_int (take 8 fp) mod 5000)) 10000))"

definition branch_alternative :: "jobj \<Rightarrow> string \<Rightarrow> string \<Rightarrow> cognition_alternative" where
  "branch_alternative content fp stance = \<lparr>
     ca_branch_id = ''local-'' @ take 16 fp @ ''-'' @ stance,
     ca_stance = stance,
     ca_content = [(''input'', JObj content), (''policy'', JStr stance)],
     ca_expected_consequences = [[(''kind'', JStr ''local_projection''),
       (''requires_external_confirmation'', JBool True), (''stance'', JStr stance)]]\<rparr>"

definition mk_result :: "cognition_result \<Rightarrow> cognition_result res" where
  "mk_result r = (if valid_result r then Inr r else Inl (ValidationError ''CognitionResult''))"

text \<open>\<open>sorted(set(xs))\<close>.\<close>

definition sorted_set :: "string list \<Rightarrow> string list" where
  "sorted_set xs = sort (remdups xs)"

definition reflect :: "jobj \<Rightarrow> string list \<Rightarrow> cognition_result res" where
  "reflect ignited_content source_ids =
     (let content = freeze_items ignited_content;
          fp = sha256_hex (canonical_json (JObj content))
      in rbind (of_option PyOverflowError (heuristic_uncertainty fp)) (\<lambda>uncertainty.
         mk_result \<lparr>cr_cognition_mode = ''local'', cr_provider_used = False,
           cr_algorithm_version = COGNITION_ALGORITHM_VERSION, cr_config_version = COGNITION_CONFIG_VERSION,
           cr_source_ids = sorted_set source_ids, cr_input_fingerprint = fp,
           cr_alternatives = map (branch_alternative content fp) cognition_stances,
           cr_uncertainty = uncertainty, cr_uncertainty_basis = ''deterministic_heuristic'',
           cr_calibrated = False,
           cr_reflection = [(''epistemic_status'', JStr ''counterfactual_not_observed''),
             (''input_keys'', JArr (map (\<lambda>p. JStr (fst p)) content)),
             (''summary'', JStr ''deterministic structured local reflection'')]\<rparr>))"

section \<open>Event JSON\<close>

definition alternative_json :: "cognition_alternative \<Rightarrow> json" where
  "alternative_json a = JObj [(''branch_id'', JStr (ca_branch_id a)), (''content'', JObj (ca_content a)),
     (''expected_consequences'', JArr (map JObj (ca_expected_consequences a))), (''stance'', JStr (ca_stance a))]"

definition result_payload :: "cognition_result \<Rightarrow> jobj" where
  "result_payload r = [(''algorithm_version'', JStr (cr_algorithm_version r)),
     (''alternatives'', JArr (map alternative_json (cr_alternatives r))),
     (''calibrated'', JBool (cr_calibrated r)), (''cognition_mode'', JStr (cr_cognition_mode r)),
     (''config_version'', JStr (cr_config_version r)), (''input_fingerprint'', JStr (cr_input_fingerprint r)),
     (''provider_used'', JBool (cr_provider_used r)), (''reflection'', JObj (cr_reflection r)),
     (''source_ids'', JArr (map JStr (cr_source_ids r))), (''uncertainty'', JFloat (cr_uncertainty r)),
     (''uncertainty_basis'', JStr (cr_uncertainty_basis r))]"

text \<open>
  \<open>FrozenJsonDict(v)\<close>: besides objects, \<open>None\<close> and the empty sequences are accepted, because the
  constructor only iterates its argument.
\<close>

fun frozen_dict :: "json \<Rightarrow> jobj option" where
  "frozen_dict (JObj m) = Some m"
| "frozen_dict JNull = Some []"
| "frozen_dict (JArr []) = Some []"
| "frozen_dict (JStr []) = Some []"
| "frozen_dict _ = None"

text \<open>\<open>item[key]\<close> of a value that has to be an object.\<close>

definition json_item :: "json \<Rightarrow> string \<Rightarrow> json res" where
  "json_item v k = (case v of JObj m \<Rightarrow> jitem m k | _ \<Rightarrow> Inl (PyTypeError ''indices''))"

definition str_item :: "json \<Rightarrow> string \<Rightarrow> string res" where
  "str_item v k = rbind (json_item v k) (\<lambda>x. of_option (ValidationError k) (as_str x))"

definition alternative_of_json :: "json \<Rightarrow> cognition_alternative res" where
  "alternative_of_json item =
     rbind (str_item item ''branch_id'') (\<lambda>bid.
     rbind (str_item item ''stance'') (\<lambda>stance.
     rbind (rbind (json_item item ''content'') (\<lambda>v. of_option (PyTypeError ''payload must be a JSON object'') (as_obj v))) (\<lambda>content.
     rbind (rbind (json_item item ''expected_consequences'') (\<lambda>v. of_option (PyTypeError ''not iterable'') (py_tuple v))) (\<lambda>items.
     rbind (rmap (\<lambda>v. of_option (PyTypeError ''JSON object'') (frozen_dict v)) items) (\<lambda>consequences.
       let a = \<lparr>ca_branch_id = bid, ca_stance = stance, ca_content = content, ca_expected_consequences = consequences\<rparr>
       in if valid_alternative a then Inr a else Inl (ValidationError ''CognitionAlternative''))))))"

definition bool_field :: "jobj \<Rightarrow> string \<Rightarrow> bool res" where
  "bool_field p k = (case jget_or p k (JBool False) of JBool b \<Rightarrow> Inr b | _ \<Rightarrow> Inl (ValidationError k))"

definition cognition_result_from_payload :: "jobj \<Rightarrow> cognition_result res" where
  "cognition_result_from_payload p =
     rbind (rbind (jitem p ''alternatives'') (\<lambda>v. of_option (PyTypeError ''not iterable'') (py_tuple v))) (\<lambda>items.
     rbind (rmap alternative_of_json items) (\<lambda>alternatives.
     rbind (str_item (JObj p) ''algorithm_version'') (\<lambda>algorithm.
     rbind (str_item (JObj p) ''config_version'') (\<lambda>config.
     rbind (rbind (jitem p ''source_ids'') (\<lambda>v. of_option (PyTypeError ''not iterable'') (py_tuple v))) (\<lambda>sources.
     rbind (of_option (ValidationError ''source_ids'') (as_strs sources)) (\<lambda>sources.
     rbind (str_item (JObj p) ''input_fingerprint'') (\<lambda>fp.
     rbind (rbind (jitem p ''uncertainty'') (\<lambda>v. of_option (PyTypeError ''uncertainty'') (py_float v))) (\<lambda>uncertainty.
     rbind (rbind (jitem p ''reflection'') (\<lambda>v. of_option (PyTypeError ''payload must be a JSON object'') (as_obj v))) (\<lambda>reflection.
     rbind (of_option (ValidationError ''cognition_mode'') (as_str (jget_or p ''cognition_mode'' (JStr ''local'')))) (\<lambda>mode.
     rbind (bool_field p ''provider_used'') (\<lambda>provider.
     rbind (of_option (ValidationError ''uncertainty_basis'')
       (as_str (jget_or p ''uncertainty_basis'' (JStr ''deterministic_heuristic'')))) (\<lambda>basis.
     rbind (bool_field p ''calibrated'') (\<lambda>calibrated.
     mk_result \<lparr>cr_cognition_mode = mode, cr_provider_used = provider, cr_algorithm_version = algorithm,
       cr_config_version = config, cr_source_ids = sources, cr_input_fingerprint = fp,
       cr_alternatives = alternatives, cr_uncertainty = uncertainty, cr_uncertainty_basis = basis,
       cr_calibrated = calibrated, cr_reflection = reflection\<rparr>)))))))))))))"

section \<open>Lemmas\<close>

lemma mk_result_Inr [simp]: "mk_result r = Inr s \<longleftrightarrow> valid_result r \<and> s = r"
  by (auto simp: mk_result_def)

lemma cognition_result_valid: "cognition_result_from_payload p = Inr r \<Longrightarrow> valid_result r"
  unfolding cognition_result_from_payload_def rbind_eq_Inr by auto

lemma hex_mod_bounds: "0 \<le> hex_int s mod 5000" "hex_int s mod 5000 < 5000"
  by simp_all

lemma heuristic_uncertainty_unit:
  obtains u where "heuristic_uncertainty fp = Some u" "unit_float u"
proof -
  let ?n = "of_int (hex_int (take 8 fp) mod 5000) :: rat"
  have n: "0 \<le> ?n" "?n \<le> of_int 5000"
    using hex_mod_bounds [of "take 8 fp"] by (simp_all only: of_int_0_le_iff of_int_le_iff)
  have half: "rndq (1 / 2) = 1 / 2" "rndq 1 = 1" using f64_numerals by (simp_all add: is_f64_iff)
  have "0 \<le> fdiv ?n 10000" using n by (simp add: fdiv_def rndq_nonneg)
  moreover have "fdiv ?n 10000 \<le> 1 / 2"
    using rndq_mono [of "?n / 10000" "1 / 2"] n half by (simp add: fdiv_def)
  ultimately have "0 \<le> fadd (1 / 4) (fdiv ?n 10000)" "fadd (1 / 4) (fdiv ?n 10000) \<le> 1"
    using rndq_mono [of "1 / 4 + fdiv ?n 10000" 1] half by (simp_all add: fadd_def rndq_nonneg)
  then obtain u where "py_round 4 (fadd (1 / 4) (fdiv ?n 10000)) = Some u" "0 \<le> u" "u \<le> 1" "is_f64 u"
    using py_round_between [of 0 "fadd (1 / 4) (fdiv ?n 10000)" 1 4] by auto
  then show ?thesis by (intro that [of u]) (simp_all add: heuristic_uncertainty_def unit_float_def in_range_def)
qed

lemma rmap_id: "(\<And>x. x \<in> set xs \<Longrightarrow> f (g x) = Inr x) \<Longrightarrow> rmap f (map g xs) = Inr xs"
  using rmap_map [of xs f g "\<lambda>x. x"] by simp

lemma alternative_roundtrip: "valid_alternative a \<Longrightarrow> alternative_of_json (alternative_json a) = Inr a"
proof -
  assume v: "valid_alternative a"
  have "rmap (\<lambda>v. of_option (PyTypeError ''JSON object'') (frozen_dict v)) (map JObj (ca_expected_consequences a)) =
    Inr (ca_expected_consequences a)" by (rule rmap_id) simp
  then show ?thesis
    using v by (simp add: alternative_of_json_def alternative_json_def str_item_def json_item_def jitem_def
        valid_alternative_def)
qed

lemma branch_alternative_valid:
  assumes "frozen (JObj content)" "stance \<in> set cognition_stances"
  shows "valid_alternative (branch_alternative content fp stance)"
proof -
  have "length stance \<le> 16" using assms(2) by (auto simp: cognition_stances_def)
  then have "str_len 1 256 (''local-'' @ take 16 fp @ ''-'' @ stance)"
    by (simp add: str_len_def)
  with assms show ?thesis
    by (simp add: valid_alternative_def branch_alternative_def sorted_keys_def)
qed

lemma set_sorted_set: "set (sorted_set xs) = set xs" "distinct (sorted_set xs)" "sorted (sorted_set xs)"
  by (simp_all add: sorted_set_def)

section \<open>Properties\<close>

lemma result_roundtrip:
  assumes "valid_result r"
  shows "cognition_result_from_payload (result_payload r) = Inr r"
proof -
  have "rmap alternative_of_json (map alternative_json (cr_alternatives r)) = Inr (cr_alternatives r)"
    using assms by (intro rmap_id alternative_roundtrip) (simp add: valid_result_def list_all_iff)
  then show ?thesis
    using assms
    by (simp add: cognition_result_from_payload_def result_payload_def jitem_def str_item_def json_item_def
        jget_or_def bool_field_def mk_result_def valid_result_def)
qed

text \<open>
  C11. A reflection survives the ledger: a valid result written as an event payload and rebuilt by
  the reducer is the same result.
\<close>

theorem cognition_roundtrip:
  assumes "valid_result r"
  shows "cognition_result_from_payload (result_payload r) = Inr r"
  by (rule result_roundtrip [OF assms])

lemma reflect_answers:
  assumes "frozen (JObj content)"
  shows "\<exists>r. reflect content srcs = Inr r \<and> valid_result r \<and> \<not> cr_provider_used r \<and>
    cr_input_fingerprint r = sha256_hex (canonical_json (JObj content)) \<and>
    map ca_stance (cr_alternatives r) = cognition_stances \<and> distinct (map ca_branch_id (cr_alternatives r)) \<and>
    list_all (\<lambda>a. jget (ca_content a) ''input'' = JObj content) (cr_alternatives r) \<and>
    set (cr_source_ids r) = set srcs \<and> distinct (cr_source_ids r) \<and> sorted (cr_source_ids r)"
proof -
  let ?fp = "sha256_hex (canonical_json (JObj content))"
  have c: "freeze_items content = content" using assms by (rule freeze_items_frozen)
  obtain u where u: "heuristic_uncertainty ?fp = Some u" "unit_float u" by (rule heuristic_uncertainty_unit)
  let ?alts = "map (branch_alternative content ?fp) cognition_stances"
  have alts: "list_all valid_alternative ?alts" "map ca_stance ?alts = cognition_stances"
    "list_all (\<lambda>a. jget (ca_content a) ''input'' = JObj content) ?alts"
    using branch_alternative_valid [OF assms]
    by (auto simp: list_all_iff branch_alternative_def jget_def jget_or_def comp_def)
  have ids: "distinct (map ca_branch_id ?alts)"
    by (simp add: branch_alternative_def cognition_stances_def)
  have keys: "list_all frozen (map (\<lambda>p. JStr (fst p)) content)" by (simp add: list_all_iff)
  let ?r = "\<lparr>cr_cognition_mode = ''local'', cr_provider_used = False,
     cr_algorithm_version = COGNITION_ALGORITHM_VERSION, cr_config_version = COGNITION_CONFIG_VERSION,
     cr_source_ids = sorted_set srcs, cr_input_fingerprint = ?fp, cr_alternatives = ?alts,
     cr_uncertainty = u, cr_uncertainty_basis = ''deterministic_heuristic'', cr_calibrated = False,
     cr_reflection = [(''epistemic_status'', JStr ''counterfactual_not_observed''),
       (''input_keys'', JArr (map (\<lambda>p. JStr (fst p)) content)),
       (''summary'', JStr ''deterministic structured local reflection'')]\<rparr>"
  have v: "valid_result ?r"
    using u(2) alts(1) ids keys by (simp add: valid_result_def is_sha256_hex sorted_keys_def)
  have "reflect content srcs = Inr ?r"
    using v u(1) by (simp add: reflect_def c Let_def mk_result_def)
  with v alts ids set_sorted_set [of srcs] show ?thesis
    by (intro exI [of _ ?r]) simp
qed

text \<open>
  The local port always answers and never pretends: for any JSON content it returns a valid
  result with the three stances as distinct counterfactual branches over that content, the content's
  SHA-256 as its fingerprint, the sources sorted and deduplicated, a bounded heuristic uncertainty
  and no provider.
\<close>

theorem reflect_total:
  assumes "frozen (JObj content)"
  shows "\<exists>r. reflect content srcs = Inr r \<and> valid_result r \<and> \<not> cr_provider_used r \<and>
    cr_input_fingerprint r = sha256_hex (canonical_json (JObj content)) \<and>
    map ca_stance (cr_alternatives r) = cognition_stances \<and> distinct (map ca_branch_id (cr_alternatives r)) \<and>
    list_all (\<lambda>a. jget (ca_content a) ''input'' = JObj content) (cr_alternatives r) \<and>
    set (cr_source_ids r) = set srcs \<and> distinct (cr_source_ids r) \<and> sorted (cr_source_ids r)"
  by (rule reflect_answers [OF assms])

definition sample_result :: cognition_result where
  "sample_result = \<lparr>cr_cognition_mode = ''local'', cr_provider_used = False, cr_algorithm_version = ''v'',
     cr_config_version = ''c'', cr_source_ids = [''s''], cr_input_fingerprint = sha256_hex '''',
     cr_alternatives = [branch_alternative [] ''f'' ''defer''], cr_uncertainty = 1 / 2,
     cr_uncertainty_basis = ''deterministic_heuristic'', cr_calibrated = False, cr_reflection = []\<rparr>"

lemma sample_result_valid: "valid_result sample_result"
  using branch_alternative_valid [of "[]" "''defer''" "''f''"]
  by (simp add: valid_result_def sample_result_def is_sha256_hex unit_float_def in_range_def cognition_stances_def)

lemma cognition_roundtrip_witness:
  "valid_result sample_result \<and> cognition_result_from_payload (result_payload sample_result) = Inr sample_result"
  using cognition_roundtrip [OF sample_result_valid] sample_result_valid by blast

lemma reflect_total_witness:
  "\<exists>r. reflect [(''cycle'', JInt 1)] [''b'', ''a'', ''b''] = Inr r \<and> valid_result r \<and> \<not> cr_provider_used r \<and>
    set (cr_source_ids r) = {''a'', ''b''}"
proof -
  have "frozen (JObj [(''cycle'', JInt 1)])" by (simp add: sorted_keys_def)
  from reflect_total [OF this, of "[''b'', ''a'', ''b'']"] show ?thesis by auto
qed

end
