(* ===== verification/State.thy ===== *)
theory State imports World Identity Lifecycle Workspace Cognition
begin

text \<open>
  \<^verbatim>\<open>core/state.py\<close>: the working-set counters, the runtime health, \<open>BrainState\<close> with its cross-field
  validator and its genesis. A counter is addressed by its name, as \<open>getattr\<close> does in the code.
\<close>

section \<open>Working-set counters\<close>

record ws_counter =
  ct_total :: int
  ct_evicted :: int

definition valid_counter :: "ws_counter \<Rightarrow> bool" where
  "valid_counter c = (0 \<le> ct_total c \<and> 0 \<le> ct_evicted c \<and> ct_evicted c \<le> ct_total c)"

datatype ws_name =
    WActions | WEnergies | WThoughts | WMemories | WReflections
  | WWorld world_layer | WActors | WAuthorizations | WPersonality pc_layer | WRawKeys | WCapabilities

definition ws_names :: "ws_name list" where
  "ws_names = [WActions, WEnergies, WThoughts, WMemories, WReflections, WWorld Observed, WWorld Believed,
     WWorld Simulated, WWorld Ideal, WActors, WAuthorizations, WPersonality Traits, WPersonality Adaptations,
     WPersonality NarrativeIdeal, WRawKeys, WCapabilities]"

record working_set_state =
  wk_counter :: "ws_name \<Rightarrow> ws_counter"
  wk_raw_lifecycle_events_evicted :: int
  wk_reduced_event_count :: int

definition valid_working_set :: "working_set_state \<Rightarrow> bool" where
  "valid_working_set w = (list_all (\<lambda>n. valid_counter (wk_counter w n)) ws_names \<and>
     0 \<le> wk_raw_lifecycle_events_evicted w \<and> 0 \<le> wk_reduced_event_count w)"

definition initial_working_set :: working_set_state where
  "initial_working_set = \<lparr>wk_counter = (\<lambda>n. \<lparr>ct_total = (if n = WActors then 1 else 0), ct_evicted = 0\<rparr>),
     wk_raw_lifecycle_events_evicted = 0, wk_reduced_event_count = 0\<rparr>"

section \<open>Runtime health\<close>

datatype health = Healthy | Degraded

record runtime_failure =
  rf_error_type :: string
  rf_message :: string
  rf_phase :: string

definition valid_failure :: "runtime_failure \<Rightarrow> bool" where
  "valid_failure f = (str_len 1 160 (rf_error_type f) \<and> str_len 1 512 (rf_message f) \<and> str_len 1 160 (rf_phase f))"

record runtime_state =
  rt_health :: health
  rt_tick_count :: int
  rt_failure_count :: int
  rt_consecutive_failures :: int
  rt_last_elapsed_seconds :: rat
  rt_last_failure :: "runtime_failure option"

definition valid_runtime :: "runtime_state \<Rightarrow> bool" where
  "valid_runtime r = (0 \<le> rt_tick_count r \<and> 0 \<le> rt_failure_count r \<and> 0 \<le> rt_consecutive_failures r \<and>
     is_f64 (rt_last_elapsed_seconds r) \<and> 0 \<le> rt_last_elapsed_seconds r \<and>
     (case rt_last_failure r of None \<Rightarrow> True | Some f \<Rightarrow> valid_failure f))"

definition initial_runtime :: runtime_state where
  "initial_runtime = \<lparr>rt_health = Healthy, rt_tick_count = 0, rt_failure_count = 0,
     rt_consecutive_failures = 0, rt_last_elapsed_seconds = 0, rt_last_failure = None\<rparr>"

section \<open>The brain state\<close>

definition STATE_SCHEMA_VERSION :: int where "STATE_SCHEMA_VERSION = 5"

record brain_state =
  bs_schema_version :: int
  bs_brain_id :: string
  bs_name :: "string option"
  bs_identity :: identity_state
  bs_personality :: personality_control
  bs_energy_records :: "energy_vector list"
  bs_thought_space :: "thought_branch list"
  bs_action_records :: "action_record list"
  bs_world :: world_model
  bs_workspace :: workspace_state
  bs_memories :: "memory_record list"
  bs_cognition :: cognition_state
  bs_runtime :: runtime_state
  bs_capabilities :: jobj
  bs_working_set :: working_set_state
  bs_logical_clock :: rat
  bs_trace_complete :: bool
  bs_raw_lifecycle_counts :: "(string \<times> int) list"
  bs_last_sequence :: int

text \<open>How many records a collection retains, and how many it may.\<close>

fun retained :: "ws_name \<Rightarrow> brain_state \<Rightarrow> nat" where
  "retained WActions s = length (bs_action_records s)"
| "retained WEnergies s = length (bs_energy_records s)"
| "retained WThoughts s = length (bs_thought_space s)"
| "retained WMemories s = length (bs_memories s)"
| "retained WReflections s = length (cg_reflections (bs_cognition s))"
| "retained (WWorld l) s = length (world_get l (bs_world s))"
| "retained WActors s = length (id_actors (bs_identity s))"
| "retained WAuthorizations s = length (id_authorizations (bs_identity s))"
| "retained (WPersonality l) s = length (pc_get l (bs_personality s))"
| "retained WRawKeys s = length (bs_raw_lifecycle_counts s)"
| "retained WCapabilities s = length (bs_capabilities s)"

fun capacity :: "ws_name \<Rightarrow> nat" where
  "capacity WActions = MAX_ACTION_RECORDS"
| "capacity WEnergies = MAX_ENERGY_RECORDS"
| "capacity WThoughts = MAX_THOUGHT_BRANCHES"
| "capacity WMemories = MAX_MEMORY_RECORDS"
| "capacity WReflections = MAX_COGNITION_REFLECTIONS"
| "capacity (WWorld _) = MAX_WORLD_PROPOSITIONS_PER_LAYER"
| "capacity WActors = MAX_IDENTITY_ACTORS"
| "capacity WAuthorizations = MAX_PROVENANCE_AUTHORIZATIONS"
| "capacity (WPersonality _) = MAX_PERSONALITY_VALUES_PER_LAYER"
| "capacity WRawKeys = MAX_RAW_LIFECYCLE_KEYS"
| "capacity WCapabilities = MAX_CAPABILITIES"

fun never_evicts :: "ws_name \<Rightarrow> bool" where
  "never_evicts WActors = True"
| "never_evicts WAuthorizations = True"
| "never_evicts (WPersonality _) = True"
| "never_evicts WCapabilities = True"
| "never_evicts _ = False"

text \<open>The bound, the exact counter and the ban on silent evictions, for one collection.\<close>

definition counted :: "ws_name \<Rightarrow> brain_state \<Rightarrow> bool" where
  "counted n s = (let c = wk_counter (bs_working_set s) n in
     retained n s \<le> capacity n \<and> ct_total c - ct_evicted c = int (retained n s) \<and>
     (never_evicts n \<longrightarrow> ct_evicted c = 0))"

text \<open>\<open>_identity_matches_brain\<close>, the whole validator.\<close>

definition identity_matches_brain :: "brain_state \<Rightarrow> bool" where
  "identity_matches_brain s =
     (id_self_actor_id (bs_identity s) = bs_brain_id s \<and> id_name (bs_identity s) = bs_name s \<and>
      list_all (\<lambda>l. lr_logical_clock (rate_get l (pc_rate_state (bs_personality s))) = bs_logical_clock s) pc_layers \<and>
      distinct (map ar_action_id (bs_action_records s)) \<and> distinct (map en_action_id (bs_energy_records s)) \<and>
      list_all (\<lambda>i. i \<in> set (map ar_action_id (bs_action_records s))) (map en_action_id (bs_energy_records s)) \<and>
      list_all (\<lambda>n. counted n s) ws_names \<and>
      length (ws_broadcast (bs_workspace s)) \<le> ws_capacity (bs_workspace s) \<and>
      sum_list (map snd (bs_raw_lifecycle_counts s)) + wk_raw_lifecycle_events_evicted (bs_working_set s) =
        wk_reduced_event_count (bs_working_set s) \<and>
      bs_last_sequence s \<le> wk_reduced_event_count (bs_working_set s))"

definition valid_raw_counts :: "(string \<times> int) list \<Rightarrow> bool" where
  "valid_raw_counts m = (sorted_keys m \<and> list_all (\<lambda>(t, n). t \<noteq> [] \<and> 0 \<le> n) m)"

text \<open>
  The fields and validators of \<open>BrainState\<close> itself. Validation does not look into sub-model instances
  again, so this is what \<open>state_from_data\<close> checks; \<open>revalidated\<close> dumps the whole state first and
  checks the sub-models as well.
\<close>

definition state_shell :: "brain_state \<Rightarrow> bool" where
  "state_shell s = (bs_schema_version s = STATE_SCHEMA_VERSION \<and> is_uuid4 (bs_brain_id s) \<and>
     (case bs_name s of None \<Rightarrow> True | Some n \<Rightarrow> \<not> blank n) \<and>
     frozen (JObj (bs_capabilities s)) \<and> is_f64 (bs_logical_clock s) \<and> 0 \<le> bs_logical_clock s \<and>
     valid_raw_counts (bs_raw_lifecycle_counts s) \<and> 0 \<le> bs_last_sequence s \<and> identity_matches_brain s)"

definition valid_parts :: "brain_state \<Rightarrow> bool" where
  "valid_parts s = (valid_identity (bs_identity s) \<and> valid_personality (bs_personality s) \<and>
     list_all valid_energy (bs_energy_records s) \<and> list_all valid_branch (bs_thought_space s) \<and>
     list_all valid_action (bs_action_records s) \<and> valid_world (bs_world s) \<and>
     valid_workspace (bs_workspace s) \<and> list_all valid_memory (bs_memories s) \<and>
     valid_cognition (bs_cognition s) \<and> valid_runtime (bs_runtime s) \<and> valid_working_set (bs_working_set s))"

definition valid_state :: "brain_state \<Rightarrow> bool" where
  "valid_state s = (valid_parts s \<and> state_shell s)"

definition state_revalidated :: "brain_state \<Rightarrow> brain_state res" where
  "state_revalidated s = (if valid_state s then Inr s else Inl (ValidationError ''BrainState''))"

definition state_from_data :: "brain_state \<Rightarrow> brain_state res" where
  "state_from_data s = (if state_shell s then Inr s else Inl (ValidationError ''BrainState''))"

definition brain_genesis :: "string \<Rightarrow> brain_state" where
  "brain_genesis brain_id = \<lparr>bs_schema_version = STATE_SCHEMA_VERSION, bs_brain_id = brain_id, bs_name = None,
     bs_identity = identity_genesis brain_id, bs_personality = personality_default,
     bs_energy_records = [], bs_thought_space = [], bs_action_records = [], bs_world = empty_world,
     bs_workspace = empty_workspace, bs_memories = [], bs_cognition = empty_cognition,
     bs_runtime = initial_runtime, bs_capabilities = [], bs_working_set = initial_working_set,
     bs_logical_clock = 0, bs_trace_complete = True, bs_raw_lifecycle_counts = [], bs_last_sequence = 0\<rparr>"

text \<open>\<open>state.actions\<close> and \<open>state.energies\<close>: the records by action identifier.\<close>

definition state_action :: "brain_state \<Rightarrow> string \<Rightarrow> action_record option" where
  "state_action s aid = lookup ar_action_id (bs_action_records s) aid"

definition state_energy :: "brain_state \<Rightarrow> string \<Rightarrow> energy_vector option" where
  "state_energy s aid = lookup en_action_id (bs_energy_records s) aid"

section \<open>Lemmas\<close>

lemma ws_names_all: "n \<in> set ws_names"
proof (cases n)
  case (WWorld l)
  then show ?thesis by (cases l) (simp_all add: ws_names_def)
next
  case (WPersonality l)
  then show ?thesis by (cases l) (simp_all add: ws_names_def)
qed (simp_all add: ws_names_def)

lemma all_ws_names: "list_all P ws_names \<longleftrightarrow> (\<forall>n. P n)"
  using ws_names_all by (auto simp: list_all_iff)

lemma brain_genesis_valid: "is_uuid4 b \<Longrightarrow> valid_state (brain_genesis b)"
proof -
  assume b: "is_uuid4 b"
  have w: "world_get l empty_world = []" for l by (cases l) (simp_all add: empty_world_def)
  have p: "pc_get l personality_default = []"
    "lr_logical_clock (rate_get l (pc_rate_state personality_default)) = 0" for l
    by (cases l; simp add: personality_default_def new_layer_rate_state_def)+
  have "counted n (brain_genesis b)" for n
    by (cases n) (simp_all add: counted_def brain_genesis_def initial_working_set_def identity_genesis_def w p
        empty_cognition_def limits Let_def)
  then have "identity_matches_brain (brain_genesis b)"
    by (simp add: identity_matches_brain_def all_ws_names all_pc_layers)
      (simp add: brain_genesis_def identity_genesis_def p empty_workspace_def initial_working_set_def)
  with b show ?thesis
    using valid_identity_genesis [OF b] valid_personality_default
    by (simp add: valid_state_def valid_parts_def state_shell_def valid_raw_counts_def)
      (simp add: brain_genesis_def valid_world_def empty_world_def valid_layer_def valid_workspace_def
        empty_workspace_def valid_cognition_def empty_cognition_def valid_runtime_def initial_runtime_def
        valid_working_set_def initial_working_set_def valid_counter_def list_all_iff limits
        DEFAULT_WORKSPACE_CAPACITY_def)
qed

lemma state_revalidated_Inr [simp]: "state_revalidated s = Inr t \<longleftrightarrow> valid_state s \<and> t = s"
  by (auto simp: state_revalidated_def)

lemma state_from_data_Inr [simp]: "state_from_data s = Inr t \<longleftrightarrow> state_shell s \<and> t = s"
  by (auto simp: state_from_data_def)

lemma valid_state_counted: "valid_state s \<Longrightarrow> counted n s \<and> valid_counter (wk_counter (bs_working_set s) n)"
  by (simp add: valid_state_def state_shell_def identity_matches_brain_def valid_parts_def
      valid_working_set_def all_ws_names)

end
