(* ===== verification/Hermes.thy ===== *)
theory Hermes imports Events
begin

text \<open>
  The records the bridge carries, from \<^verbatim>\<open>protocol/models.py\<close>: an observation of one host hook, whose
  context and payload have the fields of the hook's own model class, and an exact interval of dropped
  observations; with the state of a bridge stream and the spans it correlates. A model class is a table of its fields, so a context or a
  payload is an object with exactly those keys. The lemmas: the explicit stack of \<open>_bounded_tree\<close> accepts
  exactly the trees within the bounds; a valid record dumps to a frozen object.
\<close>

section \<open>Bounds\<close>

definition MAX_BRIDGE_RECORD_BYTES :: nat where "MAX_BRIDGE_RECORD_BYTES = 262144"
definition MAX_BRIDGE_RECORD_DEPTH :: nat where "MAX_BRIDGE_RECORD_DEPTH = 8"
definition MAX_BRIDGE_RECORD_NODES :: nat where "MAX_BRIDGE_RECORD_NODES = 2048"
definition MAX_BRIDGE_CONTAINER_ITEMS :: nat where "MAX_BRIDGE_CONTAINER_ITEMS = 128"
definition MAX_BRIDGE_KEY_BYTES :: nat where "MAX_BRIDGE_KEY_BYTES = 256"
definition MAX_BRIDGE_STRING_BYTES :: nat where "MAX_BRIDGE_STRING_BYTES = 16384"
definition MAX_COVERAGE_CHANNELS :: nat where "MAX_COVERAGE_CHANNELS = 64"
definition MIN_BRIDGE_INTEGER :: int where "MIN_BRIDGE_INTEGER = - (2 ^ 63)"
definition MAX_BRIDGE_INTEGER :: int where "MAX_BRIDGE_INTEGER = 2 ^ 63 - 1"
definition MAX_CAPTURE_SEQUENCE :: int where "MAX_CAPTURE_SEQUENCE = MAX_BRIDGE_INTEGER - 1"

section \<open>Hooks and their models\<close>

datatype hermes_hook =
    OnSessionStart | OnSessionEnd | OnSessionFinalize | OnSessionReset
  | PreLlmCall | PostLlmCall | PreApiRequest | PostApiRequest | ApiRequestError
  | PreToolCall | PostToolCall | PreApprovalRequest | PostApprovalResponse
  | SubagentStart | SubagentStop | PreVerify

fun hook_text :: "hermes_hook \<Rightarrow> string" where
  "hook_text OnSessionStart = ''on_session_start''"
| "hook_text OnSessionEnd = ''on_session_end''"
| "hook_text OnSessionFinalize = ''on_session_finalize''"
| "hook_text OnSessionReset = ''on_session_reset''"
| "hook_text PreLlmCall = ''pre_llm_call''"
| "hook_text PostLlmCall = ''post_llm_call''"
| "hook_text PreApiRequest = ''pre_api_request''"
| "hook_text PostApiRequest = ''post_api_request''"
| "hook_text ApiRequestError = ''api_request_error''"
| "hook_text PreToolCall = ''pre_tool_call''"
| "hook_text PostToolCall = ''post_tool_call''"
| "hook_text PreApprovalRequest = ''pre_approval_request''"
| "hook_text PostApprovalResponse = ''post_approval_response''"
| "hook_text SubagentStart = ''subagent_start''"
| "hook_text SubagentStop = ''subagent_stop''"
| "hook_text PreVerify = ''pre_verify''"

definition HOOK_EVENT_TYPES :: "hermes_hook \<Rightarrow> string" where
  "HOOK_EVENT_TYPES h = ''hermes.observer.'' @ hook_text h"

text \<open>
  A host identifier is a string of at most 512 characters or absent. A context is an association list: an
  attribute the class does not have is missing from it, and \<open>getattr(context, k, None)\<close> is \<open>context_get\<close>.
\<close>

type_synonym host_context = "(string \<times> string option) list"

definition host_identifier :: "string option \<Rightarrow> bool" where
  "host_identifier v = (case v of None \<Rightarrow> True | Some s \<Rightarrow> length s \<le> 512)"

definition context_get :: "host_context \<Rightarrow> string \<Rightarrow> string option" where
  "context_get c k = (case map_of c k of None \<Rightarrow> None | Some v \<Rightarrow> v)"

definition session_context :: "string list" where "session_context = [''session_id'']"
definition session_turn_context :: "string list" where
  "session_turn_context = [''session_id'', ''task_id'', ''turn_id'']"
definition session_end_context :: "string list" where
  "session_end_context = [''api_request_id'', ''session_id'', ''task_id'', ''turn_id'']"
definition pre_llm_context :: "string list" where
  "pre_llm_context = [''sender_id'', ''session_id'', ''task_id'', ''turn_id'']"
definition api_context :: "string list" where
  "api_context = [''api_request_id'', ''session_id'', ''task_id'', ''turn_id'']"
definition tool_context :: "string list" where
  "tool_context = [''api_request_id'', ''session_id'', ''task_id'', ''tool_call_id'', ''turn_id'']"
definition approval_context :: "string list" where "approval_context = [''tool_call_id'', ''turn_id'']"
definition subagent_context :: "string list" where
  "subagent_context = [''child_session_id'', ''parent_session_id'']"

text \<open>The field types of the payload models; \<open>FrozenObject\<close> is a \<open>FrozenJsonDict\<close> field.\<close>

datatype wire_type =
    WireText | OptionalText | HostIdentifier | StrictBool | OptionalBool | NonNegativeInteger
  | OptionalInteger | NonNegativeNumber | FrozenJsonValue | FrozenObject

definition wire_text :: "string \<Rightarrow> bool" where "wire_text s = (length s \<le> 16384)"

fun wire_ok :: "wire_type \<Rightarrow> json \<Rightarrow> bool" where
  "wire_ok WireText v = (case v of JStr s \<Rightarrow> wire_text s | _ \<Rightarrow> False)"
| "wire_ok OptionalText v = (case v of JNull \<Rightarrow> True | JStr s \<Rightarrow> wire_text s | _ \<Rightarrow> False)"
| "wire_ok HostIdentifier v = (case v of JNull \<Rightarrow> True | JStr s \<Rightarrow> length s \<le> 512 | _ \<Rightarrow> False)"
| "wire_ok StrictBool v = (case v of JBool _ \<Rightarrow> True | _ \<Rightarrow> False)"
| "wire_ok OptionalBool v = (case v of JNull \<Rightarrow> True | JBool _ \<Rightarrow> True | _ \<Rightarrow> False)"
| "wire_ok NonNegativeInteger v = (case v of JInt i \<Rightarrow> 0 \<le> i | _ \<Rightarrow> False)"
| "wire_ok OptionalInteger v = (case v of JNull \<Rightarrow> True | JInt i \<Rightarrow> 0 \<le> i | _ \<Rightarrow> False)"
| "wire_ok NonNegativeNumber v = (case v of JInt i \<Rightarrow> 0 \<le> i | JFloat q \<Rightarrow> is_f64 q \<and> 0 \<le> q | _ \<Rightarrow> False)"
| "wire_ok FrozenJsonValue v = frozen v"
| "wire_ok FrozenObject v = (case v of JObj m \<Rightarrow> frozen (JObj m) | _ \<Rightarrow> False)"

type_synonym model_fields = "(string \<times> wire_type) list"

definition session_start_payload :: model_fields where
  "session_start_payload = [(''extensions'', FrozenObject), (''model'', WireText), (''platform'', WireText)]"

definition session_end_payload :: model_fields where
  "session_end_payload = [(''completed'', StrictBool), (''extensions'', FrozenObject), (''interrupted'', StrictBool),
     (''model'', OptionalText), (''platform'', WireText), (''reason'', OptionalText)]"

definition session_boundary_payload :: model_fields where
  "session_boundary_payload = [(''extensions'', FrozenObject), (''new_session_id'', HostIdentifier),
     (''old_session_id'', HostIdentifier), (''platform'', WireText), (''reason'', OptionalText)]"

definition pre_llm_payload :: model_fields where
  "pre_llm_payload = [(''conversation_history'', FrozenJsonValue), (''extensions'', FrozenObject),
     (''is_first_turn'', StrictBool), (''model'', WireText), (''platform'', WireText), (''user_message'', FrozenJsonValue)]"

definition post_llm_payload :: model_fields where
  "post_llm_payload = [(''assistant_response'', FrozenJsonValue), (''conversation_history'', FrozenJsonValue),
     (''extensions'', FrozenObject), (''model'', WireText), (''platform'', WireText), (''user_message'', FrozenJsonValue)]"

definition pre_api_payload :: model_fields where
  "pre_api_payload = [(''api_call_count'', NonNegativeInteger), (''api_mode'', WireText),
     (''approx_input_tokens'', NonNegativeInteger), (''base_url'', FrozenJsonValue),
     (''conversation_history'', FrozenJsonValue), (''extensions'', FrozenObject), (''max_tokens'', FrozenJsonValue),
     (''message_count'', NonNegativeInteger), (''middleware_trace'', FrozenJsonValue), (''model'', WireText),
     (''platform'', WireText), (''provider'', WireText), (''request'', FrozenJsonValue),
     (''request_char_count'', NonNegativeInteger), (''request_messages'', FrozenJsonValue),
     (''started_at'', FrozenJsonValue), (''tool_count'', NonNegativeInteger), (''user_message'', FrozenJsonValue)]"

definition post_api_payload :: model_fields where
  "post_api_payload = [(''api_call_count'', NonNegativeInteger), (''api_duration'', NonNegativeNumber),
     (''api_mode'', WireText), (''assistant_content_chars'', NonNegativeInteger),
     (''assistant_message'', FrozenJsonValue), (''assistant_tool_call_count'', NonNegativeInteger),
     (''base_url'', FrozenJsonValue), (''ended_at'', FrozenJsonValue), (''extensions'', FrozenObject),
     (''finish_reason'', FrozenJsonValue), (''message_count'', NonNegativeInteger), (''model'', WireText),
     (''platform'', WireText), (''provider'', WireText), (''response'', FrozenJsonValue),
     (''response_model'', FrozenJsonValue), (''started_at'', FrozenJsonValue), (''usage'', FrozenJsonValue)]"

definition api_error_payload :: model_fields where
  "api_error_payload = [(''api_call_count'', NonNegativeInteger), (''api_duration'', NonNegativeNumber),
     (''api_mode'', WireText), (''base_url'', FrozenJsonValue), (''ended_at'', FrozenJsonValue),
     (''error'', FrozenJsonValue), (''extensions'', FrozenObject), (''max_retries'', OptionalInteger),
     (''model'', WireText), (''platform'', WireText), (''provider'', WireText), (''reason'', OptionalText),
     (''request'', FrozenJsonValue), (''retry_count'', OptionalInteger), (''retryable'', OptionalBool),
     (''started_at'', FrozenJsonValue), (''status_code'', FrozenJsonValue)]"

definition pre_tool_payload :: model_fields where
  "pre_tool_payload = [(''args'', FrozenJsonValue), (''extensions'', FrozenObject),
     (''middleware_trace'', FrozenJsonValue), (''tool_name'', WireText)]"

definition post_tool_payload :: model_fields where
  "post_tool_payload = [(''args'', FrozenJsonValue), (''duration_ms'', NonNegativeNumber),
     (''error_message'', FrozenJsonValue), (''error_type'', FrozenJsonValue), (''extensions'', FrozenObject),
     (''middleware_trace'', FrozenJsonValue), (''result'', FrozenJsonValue), (''status'', WireText),
     (''tool_name'', WireText)]"

definition approval_payload :: model_fields where
  "approval_payload = [(''command'', WireText), (''description'', WireText), (''extensions'', FrozenObject),
     (''pattern_key'', WireText), (''pattern_keys'', FrozenJsonValue), (''session_key'', WireText), (''surface'', WireText)]"

definition approval_response_payload :: model_fields where
  "approval_response_payload = [(''choice'', WireText), (''command'', WireText), (''decided_by'', OptionalText),
     (''description'', WireText), (''extensions'', FrozenObject), (''pattern_key'', WireText),
     (''pattern_keys'', FrozenJsonValue), (''session_key'', WireText), (''surface'', WireText)]"

definition subagent_start_payload :: model_fields where
  "subagent_start_payload = [(''child_goal'', FrozenJsonValue), (''child_role'', OptionalText),
     (''child_subagent_id'', FrozenJsonValue), (''extensions'', FrozenObject),
     (''parent_subagent_id'', FrozenJsonValue), (''parent_turn_id'', HostIdentifier)]"

definition subagent_stop_payload :: model_fields where
  "subagent_stop_payload = [(''child_role'', OptionalText), (''child_status'', OptionalText),
     (''child_summary'', FrozenJsonValue), (''duration_ms'', NonNegativeNumber), (''extensions'', FrozenObject),
     (''parent_turn_id'', HostIdentifier)]"

definition pre_verify_payload :: model_fields where
  "pre_verify_payload = [(''attempt'', NonNegativeInteger), (''changed_paths'', FrozenJsonValue),
     (''coding'', StrictBool), (''extensions'', FrozenObject), (''final_response'', FrozenJsonValue),
     (''model'', WireText), (''platform'', WireText)]"

text \<open>The hook-specific observation classes: the context and the payload model of each hook.\<close>

fun hook_models :: "hermes_hook \<Rightarrow> string list \<times> model_fields" where
  "hook_models OnSessionStart = (session_context, session_start_payload)"
| "hook_models OnSessionEnd = (session_end_context, session_end_payload)"
| "hook_models OnSessionFinalize = (session_context, session_boundary_payload)"
| "hook_models OnSessionReset = (session_context, session_boundary_payload)"
| "hook_models PreLlmCall = (pre_llm_context, pre_llm_payload)"
| "hook_models PostLlmCall = (session_turn_context, post_llm_payload)"
| "hook_models PreApiRequest = (api_context, pre_api_payload)"
| "hook_models PostApiRequest = (api_context, post_api_payload)"
| "hook_models ApiRequestError = (api_context, api_error_payload)"
| "hook_models PreToolCall = (tool_context, pre_tool_payload)"
| "hook_models PostToolCall = (tool_context, post_tool_payload)"
| "hook_models PreApprovalRequest = (approval_context, approval_payload)"
| "hook_models PostApprovalResponse = (approval_context, approval_response_payload)"
| "hook_models SubagentStart = (subagent_context, subagent_start_payload)"
| "hook_models SubagentStop = (subagent_context, subagent_stop_payload)"
| "hook_models PreVerify = (session_context, pre_verify_payload)"

section \<open>The size of a record\<close>

text \<open>
  \<open>_bounded_tree\<close>: a stack of values with their depths, its head the value \<open>pending.pop()\<close> takes. The keys
  of an object count as nodes while they are read.
\<close>

fun bounded_keys :: "nat \<Rightarrow> string list \<Rightarrow> nat res" where
  "bounded_keys n [] = Inr n"
| "bounded_keys n (k # ks) =
     (if n + 1 > MAX_BRIDGE_RECORD_NODES then Inl (PyValueError ''bridge record exceeds the node limit'')
      else if length (utf8 k) > MAX_BRIDGE_KEY_BYTES then Inl (PyValueError ''bridge record key exceeds the byte limit'')
      else bounded_keys (n + 1) ks)"

fun bounded_children :: "json \<Rightarrow> nat \<Rightarrow> (json list \<times> nat) res" where
  "bounded_children (JObj m) n =
     (if length m > MAX_BRIDGE_CONTAINER_ITEMS then Inl (PyValueError ''bridge record mapping exceeds the item limit'')
      else rbind (bounded_keys n (map fst m)) (\<lambda>n. Inr (rev (map snd m), n)))"
| "bounded_children (JArr xs) n =
     (if length xs > MAX_BRIDGE_CONTAINER_ITEMS then Inl (PyValueError ''bridge record sequence exceeds the item limit'')
      else Inr (rev xs, n))"
| "bounded_children (JStr s) n =
     (if length (utf8 s) > MAX_BRIDGE_STRING_BYTES then Inl (PyValueError ''bridge record string exceeds the byte limit'')
      else Inr ([], n))"
| "bounded_children (JInt i) n =
     (if i < MIN_BRIDGE_INTEGER \<or> MAX_BRIDGE_INTEGER < i then Inl (PyValueError ''bridge record integer exceeds int64'')
      else Inr ([], n))"
| "bounded_children _ n = Inr ([], n)"

lemma sum_list_Suc: "(\<Sum>x\<leftarrow>xs. Suc (f x)) = sum_list (map f xs) + length xs"
  by (induction xs) auto

lemma bounded_children_size:
  "bounded_children v n = Inr (vs, n') \<Longrightarrow> sum_list (map size vs) + length vs \<le> size v"
proof -
  have "sum_list (map size (map snd m)) + length m \<le> size_list (size_prod (\<lambda>_. 0) size) m" for m :: jobj
    by (induction m) auto
  moreover have "sum_list (map size xs) + length xs \<le> size_list size xs" for xs :: "json list"
    by (induction xs) auto
  ultimately show "bounded_children v n = Inr (vs, n') \<Longrightarrow> ?thesis"
    by (cases v) (auto simp: res_simps rev_map [symmetric] sum_list_rev intro: le_SucI)
qed

function bounded_loop :: "(json \<times> nat) list \<Rightarrow> nat \<Rightarrow> unit res" where
  "bounded_loop [] n = Inr ()"
| "bounded_loop ((v, d) # pending) n =
     (if n + 1 > MAX_BRIDGE_RECORD_NODES then Inl (PyValueError ''bridge record exceeds the node limit'')
      else if d > MAX_BRIDGE_RECORD_DEPTH then Inl (PyValueError ''bridge record exceeds the depth limit'')
      else case bounded_children v (n + 1) of Inl e \<Rightarrow> Inl e
        | Inr (vs, n) \<Rightarrow> bounded_loop (map (\<lambda>v. (v, d + 1)) vs @ pending) n)"
  by pat_completeness auto
termination
proof (relation "measure (\<lambda>(pending, n). sum_list (map (\<lambda>p. size (fst p) + 1) pending))", goal_cases)
  case (2 v d pending n x vs n')
  then have "sum_list (map size vs) + length vs \<le> size v" by (auto dest: bounded_children_size)
  then show ?case by (simp add: o_def sum_list_Suc)
qed simp

definition bounded_tree :: "json \<Rightarrow> unit res" where
  "bounded_tree v = bounded_loop [(v, 1)] 0"

text \<open>What the loop is meant to bound, by recursion on the value: its nodes, and the limits at every level.\<close>

fun tree_nodes :: "json \<Rightarrow> nat" where
  "tree_nodes (JArr xs) = 1 + sum_list (map tree_nodes xs)"
| "tree_nodes (JObj m) = 1 + length m + sum_list (map (\<lambda>p. tree_nodes (snd p)) m)"
| "tree_nodes _ = 1"

fun tree_fits :: "nat \<Rightarrow> json \<Rightarrow> bool" where
  "tree_fits 0 v = False"
| "tree_fits (Suc d) (JArr xs) = (length xs \<le> MAX_BRIDGE_CONTAINER_ITEMS \<and> list_all (tree_fits d) xs)"
| "tree_fits (Suc d) (JObj m) = (length m \<le> MAX_BRIDGE_CONTAINER_ITEMS \<and>
     list_all (\<lambda>p. length (utf8 (fst p)) \<le> MAX_BRIDGE_KEY_BYTES \<and> tree_fits d (snd p)) m)"
| "tree_fits (Suc d) (JStr s) = (length (utf8 s) \<le> MAX_BRIDGE_STRING_BYTES)"
| "tree_fits (Suc d) (JInt i) = (MIN_BRIDGE_INTEGER \<le> i \<and> i \<le> MAX_BRIDGE_INTEGER)"
| "tree_fits (Suc d) v = True"

lemma bounded_keys_Inr: "n \<le> MAX_BRIDGE_RECORD_NODES \<Longrightarrow> bounded_keys n ks = Inr n' \<longleftrightarrow>
    n' = n + length ks \<and> n' \<le> MAX_BRIDGE_RECORD_NODES \<and> list_all (\<lambda>k. length (utf8 k) \<le> MAX_BRIDGE_KEY_BYTES) ks"
  by (induction ks arbitrary: n) auto

lemma bounded_keys_Inl: "bounded_keys n ks = Inl e \<Longrightarrow>
    \<not> (n + length ks \<le> MAX_BRIDGE_RECORD_NODES \<and> list_all (\<lambda>k. length (utf8 k) \<le> MAX_BRIDGE_KEY_BYTES) ks)"
  by (induction ks arbitrary: n) (auto split: if_splits)

lemma list_all_conj: "list_all (\<lambda>x. A x \<and> B x) xs \<longleftrightarrow> list_all A xs \<and> list_all B xs"
  by (induction xs) auto

lemma bounded_children_Inl: "bounded_children v n = Inl e \<Longrightarrow> n \<le> MAX_BRIDGE_RECORD_NODES \<Longrightarrow>
    \<not> (n + tree_nodes v - 1 \<le> MAX_BRIDGE_RECORD_NODES \<and> tree_fits (Suc d) v)"
  by (cases v) (auto simp: res_simps list_all_conj list.pred_map o_def dest!: bounded_keys_Inl split: if_splits)

lemma bounded_children_Inr: "bounded_children v n = Inr (vs, n') \<Longrightarrow> n \<le> MAX_BRIDGE_RECORD_NODES \<Longrightarrow>
    n' \<le> MAX_BRIDGE_RECORD_NODES \<and> n' + sum_list (map tree_nodes vs) + 1 = n + tree_nodes v \<and>
    (tree_fits (Suc d) v \<longleftrightarrow> list_all (tree_fits d) vs)"
  by (cases v) (auto simp: res_simps bounded_keys_Inr list_all_conj rev_map [symmetric] sum_list_rev o_def list.pred_map
      split: if_splits)

lemma bounded_loop_exact:
  "n \<le> MAX_BRIDGE_RECORD_NODES \<Longrightarrow> bounded_loop pending n = Inr () \<longleftrightarrow>
     n + sum_list (map (\<lambda>p. tree_nodes (fst p)) pending) \<le> MAX_BRIDGE_RECORD_NODES \<and>
     list_all (\<lambda>(v, d). d \<le> MAX_BRIDGE_RECORD_DEPTH \<and> tree_fits (Suc MAX_BRIDGE_RECORD_DEPTH - d) v) pending"
proof (induction pending n rule: bounded_loop.induct)
  case (2 v d pending n)
  have pos: "1 \<le> tree_nodes v" by (cases v) auto
  show ?case
  proof (cases "n + 1 \<le> MAX_BRIDGE_RECORD_NODES \<and> d \<le> MAX_BRIDGE_RECORD_DEPTH")
    case False
    with pos show ?thesis by auto
  next
    case True
    then have d: "Suc MAX_BRIDGE_RECORD_DEPTH - d = Suc (MAX_BRIDGE_RECORD_DEPTH - d)" by (simp add: Suc_diff_le)
    show ?thesis
    proof (cases "bounded_children v (n + 1)")
      case (Inl e)
      from bounded_children_Inl [OF this, of "MAX_BRIDGE_RECORD_DEPTH - d"] True Inl d show ?thesis by auto
    next
      case (Inr c)
      obtain vs n' where c: "c = (vs, n')" by (cases c)
      have b: "n' \<le> MAX_BRIDGE_RECORD_NODES" "n' + sum_list (map tree_nodes vs) + 1 = n + 1 + tree_nodes v"
        "tree_fits (Suc (MAX_BRIDGE_RECORD_DEPTH - d)) v \<longleftrightarrow> list_all (tree_fits (MAX_BRIDGE_RECORD_DEPTH - d)) vs"
        using bounded_children_Inr [of v "n + 1" vs n'] Inr c True by auto
      have deep: "list_all (\<lambda>v. Suc d \<le> MAX_BRIDGE_RECORD_DEPTH \<and> tree_fits (MAX_BRIDGE_RECORD_DEPTH - d) v) vs \<longleftrightarrow>
          list_all (tree_fits (MAX_BRIDGE_RECORD_DEPTH - d)) vs"
        using True by (cases "d = MAX_BRIDGE_RECORD_DEPTH") (auto simp: list_all_iff)
      have "bounded_loop ((v, d) # pending) n = bounded_loop (map (\<lambda>v. (v, d + 1)) vs @ pending) n'"
        using True Inr c by simp
      also have "\<dots> = Inr () \<longleftrightarrow> n' + sum_list (map tree_nodes vs) + sum_list (map (\<lambda>p. tree_nodes (fst p)) pending)
          \<le> MAX_BRIDGE_RECORD_NODES \<and> list_all (tree_fits (MAX_BRIDGE_RECORD_DEPTH - d)) vs \<and>
          list_all (\<lambda>(v, d). d \<le> MAX_BRIDGE_RECORD_DEPTH \<and> tree_fits (Suc MAX_BRIDGE_RECORD_DEPTH - d) v) pending"
        using "2.IH" [OF _ _ Inr c [symmetric]] True b(1) deep by (simp add: list.pred_map o_def add.assoc)
      finally show ?thesis using b d True by auto
    qed
  qed
qed simp

text \<open>
  C25. A record passes the tree check exactly when its value has at most 2048 nodes (keys counted), is at most
  eight deep, and every object, array, key, string and integer in it is within its own limit: the explicit
  stack of \<^verbatim>\<open>_bounded_tree\<close>, with its counter raised in two places and its early exits, computes the
  recursive bound.
\<close>

theorem bounded_tree_exact:
  "bounded_tree v = Inr () \<longleftrightarrow> tree_nodes v \<le> MAX_BRIDGE_RECORD_NODES \<and> tree_fits MAX_BRIDGE_RECORD_DEPTH v"
  using bounded_loop_exact [of 0 "[(v, 1)]"] by (simp add: bounded_tree_def MAX_BRIDGE_RECORD_DEPTH_def del: bounded_loop.simps)

section \<open>Observations and gaps\<close>

record capture_coverage =
  cv_policy_version :: string
  cv_capture_coverage :: string
  cv_redacted_paths :: int
  cv_truncated_paths :: int
  cv_unsupported_paths :: int
  cv_omitted_nodes :: int
  cv_channels :: jobj

definition valid_coverage :: "capture_coverage \<Rightarrow> bool" where
  "valid_coverage c \<longleftrightarrow> str_len 1 160 (cv_policy_version c) \<and>
     cv_capture_coverage c \<in> {''full'', ''host_sanitized'', ''redacted'', ''partial'', ''unobserved''} \<and>
     list_all ((\<le>) 0) [cv_redacted_paths c, cv_truncated_paths c, cv_unsupported_paths c, cv_omitted_nodes c] \<and>
     frozen (JObj (cv_channels c)) \<and> length (cv_channels c) \<le> MAX_COVERAGE_CHANNELS \<and>
     \<not> (cv_capture_coverage c = ''full'' \<and>
        list_ex ((\<noteq>) 0) [cv_redacted_paths c, cv_truncated_paths c, cv_unsupported_paths c, cv_omitted_nodes c])"

definition coverage_data :: "capture_coverage \<Rightarrow> json" where
  "coverage_data c = JObj [(''capture_coverage'', JStr (cv_capture_coverage c)), (''channels'', JObj (cv_channels c)),
     (''omitted_nodes'', JInt (cv_omitted_nodes c)), (''policy_version'', JStr (cv_policy_version c)),
     (''redacted_paths'', JInt (cv_redacted_paths c)), (''truncated_paths'', JInt (cv_truncated_paths c)),
     (''unsupported_paths'', JInt (cv_unsupported_paths c))]"

text \<open>
  The literal fields of an observation are not state. \<open>ho_captured_at\<close> is the canonical UTC text, as the wall
  time of an event is, and the payload is the object the model dumps.
\<close>

record hermes_observation =
  ho_bridge_instance_id :: string
  ho_capture_seq :: int
  ho_captured_at :: string
  ho_captured_monotonic_ns :: int
  ho_hook :: hermes_hook
  ho_context :: host_context
  ho_payload :: jobj
  ho_coverage :: capture_coverage

definition context_data :: "host_context \<Rightarrow> json" where
  "context_data c = JObj (map (\<lambda>(k, v). (k, opt_json JStr v)) c)"

definition observation_data :: "hermes_observation \<Rightarrow> jobj" where
  "observation_data r = [(''bridge_instance_id'', JStr (ho_bridge_instance_id r)),
     (''capture_seq'', JInt (ho_capture_seq r)), (''captured_at'', JStr (ho_captured_at r)),
     (''captured_monotonic_ns'', JInt (ho_captured_monotonic_ns r)), (''context'', context_data (ho_context r)),
     (''coverage'', coverage_data (ho_coverage r)), (''hook'', JStr (hook_text (ho_hook r))),
     (''payload'', JObj (ho_payload r)), (''record_kind'', JStr ''observation''), (''schema_version'', JInt 1),
     (''source_schema_version'', JStr ''hermes.observer.v1'')]"

text \<open>\<open>_validate_record_size\<close>.\<close>

definition record_size_ok :: "jobj \<Rightarrow> bool" where
  "record_size_ok m \<longleftrightarrow> bounded_tree (JObj m) = Inr () \<and>
     length (utf8 (canonical_json (JObj m))) \<le> MAX_BRIDGE_RECORD_BYTES"

definition valid_observation :: "hermes_observation \<Rightarrow> bool" where
  "valid_observation r \<longleftrightarrow> is_uuid4 (ho_bridge_instance_id r) \<and>
     1 \<le> ho_capture_seq r \<and> ho_capture_seq r \<le> MAX_CAPTURE_SEQUENCE \<and> 0 \<le> ho_captured_monotonic_ns r \<and>
     map fst (ho_context r) = fst (hook_models (ho_hook r)) \<and> list_all (\<lambda>p. host_identifier (snd p)) (ho_context r) \<and>
     list_all2 (\<lambda>(k, t) (k', v). k' = k \<and> wire_ok t v) (snd (hook_models (ho_hook r))) (ho_payload r) \<and>
     valid_coverage (ho_coverage r) \<and> record_size_ok (observation_data r)"

definition GAP_CAUSES :: "string list" where
  "GAP_CAUSES = [''queue_full'', ''detach_failed'', ''serialization_failed'', ''shutdown'', ''fork_reset'', ''shape_failed'',
     ''validation_failed'', ''invalid_source_schema'', ''record_too_large'', ''record_too_deep'', ''record_too_complex'',
     ''unsupported_value'', ''capture_failed'', ''callback_internal'', ''transport_failed'', ''daemon_unavailable'',
     ''backpressure'', ''other'']"

record bridge_gap =
  bg_bridge_instance_id :: string
  bg_first_capture_seq :: int
  bg_last_capture_seq :: int
  bg_dropped_count :: int
  bg_cause_counts :: "(string \<times> int) list"

definition gap_data :: "bridge_gap \<Rightarrow> jobj" where
  "gap_data r = [(''bridge_instance_id'', JStr (bg_bridge_instance_id r)),
     (''cause_counts'', JObj (map (\<lambda>(k, n). (k, JInt n)) (bg_cause_counts r))),
     (''dropped_count'', JInt (bg_dropped_count r)), (''first_capture_seq'', JInt (bg_first_capture_seq r)),
     (''last_capture_seq'', JInt (bg_last_capture_seq r)), (''record_kind'', JStr ''gap''), (''schema_version'', JInt 1)]"

definition capture_number :: "int \<Rightarrow> bool" where
  "capture_number n \<longleftrightarrow> 1 \<le> n \<and> n \<le> MAX_CAPTURE_SEQUENCE"

definition valid_gap :: "bridge_gap \<Rightarrow> bool" where
  "valid_gap r \<longleftrightarrow> is_uuid4 (bg_bridge_instance_id r) \<and>
     list_all capture_number [bg_first_capture_seq r, bg_last_capture_seq r, bg_dropped_count r] \<and>
     1 \<le> length (bg_cause_counts r) \<and> length (bg_cause_counts r) \<le> 16 \<and> sorted_keys (bg_cause_counts r) \<and>
     list_all (\<lambda>(cause, n). cause \<in> set GAP_CAUSES \<and> capture_number n) (bg_cause_counts r) \<and>
     bg_dropped_count r = bg_last_capture_seq r - bg_first_capture_seq r + 1 \<and>
     sum_list (map snd (bg_cause_counts r)) = bg_dropped_count r \<and> record_size_ok (gap_data r)"

datatype bridge_record = Observation hermes_observation | Gap bridge_gap

fun record_instance :: "bridge_record \<Rightarrow> string" where
  "record_instance (Observation r) = ho_bridge_instance_id r"
| "record_instance (Gap r) = bg_bridge_instance_id r"

fun first_capture_seq :: "bridge_record \<Rightarrow> int" where
  "first_capture_seq (Observation r) = ho_capture_seq r"
| "first_capture_seq (Gap r) = bg_first_capture_seq r"

fun last_capture_seq :: "bridge_record \<Rightarrow> int" where
  "last_capture_seq (Observation r) = ho_capture_seq r"
| "last_capture_seq (Gap r) = bg_last_capture_seq r"

fun record_data :: "bridge_record \<Rightarrow> jobj" where
  "record_data (Observation r) = observation_data r"
| "record_data (Gap r) = gap_data r"

fun valid_record :: "bridge_record \<Rightarrow> bool" where
  "valid_record (Observation r) = valid_observation r"
| "valid_record (Gap r) = valid_gap r"

definition record_text :: "bridge_record \<Rightarrow> string" where
  "record_text r = canonical_json (JObj (record_data r))"

definition record_fingerprint :: "bridge_record \<Rightarrow> string" where
  "record_fingerprint r = sha256_hex (record_text r)"

definition normalize_bridge_record :: "bridge_record \<Rightarrow> bridge_record res" where
  "normalize_bridge_record r = (if valid_record r then Inr r else Inl (ValidationError ''BridgeRecordV1''))"

section \<open>Streams\<close>

datatype stream_status = StreamOpen | CleanClosed | Abandoned

datatype disconnect_reason = ConnectionEof | DaemonRestart | CleanClose | GraceAbandonment

record bridge_stream =
  sm_bridge_instance_id :: string
  sm_brain_id :: string
  sm_server_actor_id :: string
  sm_server_adapter_id :: string
  sm_next_capture_seq :: int
  sm_status :: stream_status
  sm_connected_nonce :: "string option"
  sm_disconnected_reason :: "disconnect_reason option"
  sm_disconnected_at :: "int option"
  sm_last_seen :: int
  sm_closed_final_seq :: "int option"

definition valid_stream :: "bridge_stream \<Rightarrow> bool" where
  "valid_stream s \<longleftrightarrow> is_uuid4 (sm_bridge_instance_id s) \<and> is_uuid4 (sm_brain_id s) \<and> is_uuid4 (sm_server_actor_id s) \<and>
     str_len 1 512 (sm_server_adapter_id s) \<and> 1 \<le> sm_next_capture_seq s \<and> sm_next_capture_seq s \<le> MAX_BRIDGE_INTEGER \<and>
     (case sm_connected_nonce s of None \<Rightarrow> True | Some n \<Rightarrow> str_len 1 512 n) \<and>
     (case sm_closed_final_seq s of None \<Rightarrow> True | Some n \<Rightarrow> 0 \<le> n \<and> n \<le> MAX_CAPTURE_SEQUENCE) \<and>
     (sm_disconnected_reason s = None \<longleftrightarrow> sm_disconnected_at s = None) \<and>
     (case sm_disconnected_at s of None \<Rightarrow> True | Some t \<Rightarrow> t \<le> sm_last_seen s) \<and>
     (case sm_status s of
        StreamOpen \<Rightarrow> sm_closed_final_seq s = None \<and>
          (if sm_connected_nonce s \<noteq> None then sm_disconnected_reason s = None
           else sm_disconnected_reason s \<in> {Some ConnectionEof, Some DaemonRestart})
      | CleanClosed \<Rightarrow> sm_connected_nonce s = None \<and> sm_disconnected_reason s = Some CleanClose \<and>
          sm_closed_final_seq s = Some (sm_next_capture_seq s - 1)
      | Abandoned \<Rightarrow> sm_connected_nonce s = None \<and> sm_disconnected_reason s = Some GraceAbandonment \<and>
          sm_closed_final_seq s = None)"

section \<open>Spans\<close>

text \<open>The row a started tool or API call leaves until its completion closes it (\<^verbatim>\<open>runtime/semantic_ingest.py\<close>).\<close>

datatype span_kind = ToolSpan | ApiSpan

record hermes_span =
  sp_bridge_instance_id :: string
  sp_span_kind :: span_kind
  sp_external_id :: string
  sp_occurrence_capture_seq :: int
  sp_context_fingerprint :: string
  sp_action_id :: "string option"
  sp_closed_capture_seq :: "int option"

text \<open>How a record was represented (\<open>SemanticStatus\<close>).\<close>

datatype semantic_status = Applied | NotApplicable | SemanticGap | LegacyRawOnly

fun semantic_status_text :: "semantic_status \<Rightarrow> string" where
  "semantic_status_text Applied = ''applied''"
| "semantic_status_text NotApplicable = ''not_applicable''"
| "semantic_status_text SemanticGap = ''gap''"
| "semantic_status_text LegacyRawOnly = ''legacy_raw_only''"

end
