(* ===== verification/Tables.thy ===== *)
theory Tables imports State Hermes
begin

text \<open>
  The tables of \<^verbatim>\<open>runtime/store.py\<close> that the modelled operations read and write, and the library code the
  store depends on. A table with an integer or text primary key is a map or a list of rows; a list
  keeps insertion order and the queries sort it where the SQL does. SQLite integers are unbounded here.
  Text columns that hold JSON stay text. Columns that hold an ISO instant hold the instant itself, in
  microseconds since 1970, and \<open>iso_text\<close> is its \<open>datetime.isoformat\<close>.
\<close>

section \<open>Rows\<close>

record event_row =
  row_brain_id :: string
  row_sequence :: int
  row_event_id :: string
  row_body_fingerprint :: string
  row_envelope_fingerprint :: string
  row_envelope_json :: string

record snapshot_row =
  snap_brain_id :: string
  snap_sequence :: int
  snap_schema_version :: int
  snap_fingerprint :: string
  snap_state_json :: string

record name_row =
  nr_brain_id :: string
  nr_normalized_name :: string
  nr_display_name :: string
  nr_source_event_id :: string

record observability_row =
  ob_trace_complete :: bool
  ob_semantic_complete :: bool
  ob_dropped_events :: int
  ob_semantic_records :: int
  ob_legacy_raw_only_records :: int
  ob_semantic_gap_records :: int

datatype lease_status = Pending | Completed | Failed | Superseded

record identity_lease_row =
  il_lease_id :: string
  il_brain_id :: string
  il_request_sequence :: int
  il_status :: lease_status
  il_requested_at :: int
  il_expires_at :: int
  il_request_event_id :: string
  il_choice_fingerprint :: "string option"
  il_choice_json :: "string option"
  il_failure_code :: "string option"
  il_terminal_event_id :: "string option"
  il_terminal_at :: "int option"

record energy_lease_row =
  el_lease_id :: string
  el_brain_id :: string
  el_action_id :: string
  el_action_request_event_id :: string
  el_request_sequence :: int
  el_request_event_id :: string
  el_status :: lease_status
  el_requested_at :: int
  el_expires_at :: int
  el_input_fingerprint :: string
  el_input_json :: string
  el_choice_fingerprint :: "string option"
  el_choice_json :: "string option"
  el_provenance_fingerprint :: "string option"
  el_provenance_json :: "string option"
  el_failure_code :: "string option"
  el_terminal_event_id :: "string option"
  el_terminal_at :: "int option"

text \<open>A row of \<open>bridge_stream\<close> is the state of the stream and the digest of its recovery token.\<close>

record stream_row = bridge_stream +
  br_recovery_token_digest :: "int list"

record bridge_record_row =
  bd_bridge_instance_id :: string
  bd_first_capture_seq :: int
  bd_last_capture_seq :: int
  bd_is_gap :: bool
  bd_record_fingerprint :: string
  bd_record_json :: string
  bd_event_id :: string
  bd_ledger_sequence :: int
  bd_semantic_status :: semantic_status
  bd_semantic_complete :: bool
  bd_semantic_fingerprint :: string
  bd_derived_event_count :: int
  bd_derived_first_sequence :: "int option"
  bd_derived_last_sequence :: "int option"
  bd_ack_json :: string
  bd_accepted_at :: int

section \<open>The database\<close>

text \<open>
  \<open>db_brains\<close> maps a brain to its \<open>next_sequence\<close>. \<open>db_audited\<close> is the in-memory field
  \<open>_startup_audited_final_states\<close> of the ledger object.
\<close>

record database =
  db_brains :: "string \<Rightarrow> int option"
  db_events :: "event_row list"
  db_snapshots :: "snapshot_row list"
  db_observability :: "string \<Rightarrow> observability_row option"
  db_names :: "name_row list"
  db_identity_leases :: "identity_lease_row list"
  db_energy_leases :: "energy_lease_row list"
  db_streams :: "stream_row list"
  db_bridge_records :: "bridge_record_row list"
  db_spans :: "hermes_span list"
  db_audited :: "string \<Rightarrow> brain_state option"

definition empty_database :: database where
  "empty_database = \<lparr>db_brains = Map.empty, db_events = [], db_snapshots = [], db_observability = Map.empty,
     db_names = [], db_identity_leases = [], db_energy_leases = [],
     db_streams = [], db_bridge_records = [], db_spans = [], db_audited = Map.empty\<rparr>"

section \<open>The wire models of identity naming\<close>

record identity_choice =
  ic_schema_version :: int
  ic_name :: string
  ic_reason :: string

text \<open>
  The code the store calls outside the repository: pydantic's JSON reader for the three models it
  decodes (the validators that follow it are the model's own), \<open>BrainState.model_dump\<close> with \<open>json.dumps\<close>,
  and \<open>unicodedata\<close> with \<open>str.casefold\<close>. \<open>pf_nfkc\<close> is \<open>unicodedata.normalize\<close> for NFKC.
\<close>

record platform =
  pf_parse_event :: "string \<Rightarrow> event_envelope option"
  pf_parse_state :: "string \<Rightarrow> brain_state option"
  pf_state_text :: "brain_state \<Rightarrow> string"
  pf_parse_choice :: "string \<Rightarrow> identity_choice option"
  pf_category :: "char \<Rightarrow> string"
  pf_nfkc :: "string \<Rightarrow> string"
  pf_casefold :: "string \<Rightarrow> string"

section \<open>Name normalisation\<close>

definition POST_UNICODE_14_RANGES :: "(int \<times> int) list" where
  "POST_UNICODE_14_RANGES =
    [(0x0CF3, 0x0CF3), (0x0ECE, 0x0ECE), (0x2FFC, 0x2FFF), (0x31EF, 0x31EF), (0x10EFD, 0x10EFF),
     (0x1123F, 0x11241), (0x11B00, 0x11B09), (0x11F00, 0x11F10), (0x11F12, 0x11F3A), (0x11F3E, 0x11F59),
     (0x1342F, 0x1342F), (0x13439, 0x13455), (0x1B132, 0x1B132), (0x1B155, 0x1B155), (0x1D2C0, 0x1D2D3),
     (0x1DF25, 0x1DF2A), (0x1E030, 0x1E06D), (0x1E08F, 0x1E08F), (0x1E4D0, 0x1E4F9), (0x1F6DC, 0x1F6DC),
     (0x1F774, 0x1F776), (0x1F77B, 0x1F77F), (0x1F7D9, 0x1F7D9), (0x1FA75, 0x1FA77), (0x1FA87, 0x1FA88),
     (0x1FAAD, 0x1FAAF), (0x1FABB, 0x1FABD), (0x1FABF, 0x1FABF), (0x1FACE, 0x1FACF), (0x1FADA, 0x1FADB),
     (0x1FAE8, 0x1FAE8), (0x1FAF7, 0x1FAF8), (0x2B739, 0x2B739), (0x2EBF0, 0x2EE5D), (0x31350, 0x323AF)]"

definition identity_name_normalization_key :: "platform \<Rightarrow> string \<Rightarrow> string res" where
  "identity_name_normalization_key P v =
     (if list_ex (\<lambda>c. pf_category P c = ''Cn'' \<or>
           list_ex (\<lambda>(lower, upper). lower \<le> of_char c \<and> of_char c \<le> upper) POST_UNICODE_14_RANGES) v then
        Inl (IdentityNameNormalizationError
          ''identity name contains a codepoint outside the stable Unicode 14.0 normalization boundary'')
      else Inr (pf_casefold P (pf_nfkc P v)))"

section \<open>Instants\<close>

text \<open>
  \<open>datetime.isoformat\<close> of an aware UTC instant: the proleptic Gregorian date (days since 0000-03-01 in
  400-year eras), the time, and the microseconds unless they are zero.
\<close>

definition civil_date :: "int \<Rightarrow> int \<times> int \<times> int" where
  "civil_date days = (let z = days + 719468; era = z div 146097; doe = z mod 146097;
     yoe = (doe - doe div 1460 + doe div 36524 - doe div 146096) div 365;
     doy = doe - (365 * yoe + yoe div 4 - yoe div 100); mp = (5 * doy + 2) div 153;
     d = doy - (153 * mp + 2) div 5 + 1; m = (if mp < 10 then mp + 3 else mp - 9)
   in (yoe + era * 400 + (if m \<le> 2 then 1 else 0), m, d))"

definition padded :: "nat \<Rightarrow> int \<Rightarrow> string" where
  "padded n i = (let s = int_text i in replicate (n - length s) CHR ''0'' @ s)"

definition iso_text :: "int \<Rightarrow> string" where
  "iso_text t = (let (y, m, d) = civil_date (t div 86400000000); us = t mod 86400000000;
       s = us div 1000000; f = us mod 1000000
     in padded 4 y @ ''-'' @ padded 2 m @ ''-'' @ padded 2 d @ ''T'' @ padded 2 (s div 3600) @ '':'' @
        padded 2 (s div 60 mod 60) @ '':'' @ padded 2 (s mod 60) @
        (if f = 0 then [] else ''.'' @ padded 6 f) @ ''+00:00'')"

lemma iso_text_epoch: "iso_text 0 = ''1970-01-01T00:00:00+00:00''"
  by code_simp

lemma iso_text_sample: "iso_text 1767225599000001 = ''2025-12-31T23:59:59.000001+00:00''"
  by code_simp

end
