(* ===== verification/Reducer.thy ===== *)
theory Reducer imports State
begin

text \<open>
  \<^verbatim>\<open>core/reducer.py\<close>: the sole mutation path of the brain state. \<open>reduce_state\<close> is modelled stage by
  stage in the order of the code; every stage reads the state before the event and extends the values
  of the successor, and \<open>state_from_data\<close> validates the result. What is proved of it is in
  \<open>Successor\<close>.
\<close>

section \<open>Counters\<close>

definition advance_working_set :: "working_set_state \<Rightarrow> ws_name \<Rightarrow> int \<Rightarrow> int \<Rightarrow> working_set_state res" where
  "advance_working_set w n admitted evicted =
     (let c = wk_counter w n;
          c' = \<lparr>ct_total = ct_total c + admitted, ct_evicted = ct_evicted c + evicted\<rparr>
      in if valid_counter c' then Inr (w\<lparr>wk_counter := (wk_counter w)(n := c')\<rparr>)
         else Inl (ValidationError ''WorkingSetCounter''))"

definition admit :: "ws_name \<Rightarrow> int \<Rightarrow> int \<Rightarrow> brain_state \<Rightarrow> brain_state res" where
  "admit n admitted evicted v = rbind (advance_working_set (bs_working_set v) n admitted evicted) (\<lambda>w.
     Inr (v\<lparr>bs_working_set := w\<rparr>))"

definition int_of_bool :: "bool \<Rightarrow> int" where
  "int_of_bool b = (if b then 1 else 0)"

section \<open>Stages\<close>

text \<open>The raw lifecycle counts: one key per event type, the smallest key evicted when they are full.\<close>

definition count_event :: "brain_state \<Rightarrow> event_envelope \<Rightarrow> brain_state res" where
  "count_event s e =
     (let t = ev_event_type e;
          counts = bs_raw_lifecycle_counts s;
          w = (bs_working_set s)\<lparr>wk_reduced_event_count := wk_reduced_event_count (bs_working_set s) + 1\<rparr>;
          full = MAX_RAW_LIFECYCLE_KEYS \<le> length counts;
          fresh = (t \<notin> fst ` set counts)
      in rbind
           (if fresh then rbind (advance_working_set w WRawKeys 1 (int_of_bool full)) (\<lambda>w.
              Inr (if full then tl counts else counts,
                w\<lparr>wk_raw_lifecycle_events_evicted := wk_raw_lifecycle_events_evicted w +
                  (if full then snd (hd counts) else 0)\<rparr>))
            else Inr (counts, w))
           (\<lambda>(counts, w).
              Inr (s\<lparr>bs_working_set := w,
                bs_raw_lifecycle_counts := jput t ((case map_of counts t of None \<Rightarrow> 0 | Some n \<Rightarrow> n) + 1) counts,
                bs_last_sequence := (case ev_sequence e of None \<Rightarrow> bs_last_sequence s | Some n \<Rightarrow> n)\<rparr>)))"

definition identity_stage :: "brain_state \<Rightarrow> event_envelope \<Rightarrow> brain_state \<Rightarrow> brain_state res" where
  "identity_stage s e v = rbind (reduce_identity (bs_identity s) e) (\<lambda>i.
     rbind (if length (id_actors (bs_identity s)) < length (id_actors i)
       then admit WActors 1 0 (v\<lparr>bs_identity := i\<rparr>) else Inr (v\<lparr>bs_identity := i\<rparr>)) (\<lambda>v.
     if length (id_authorizations (bs_identity s)) < length (id_authorizations i)
     then admit WAuthorizations 1 0 v else Inr v))"

definition admit_layer :: "brain_state \<Rightarrow> brain_state \<Rightarrow> pc_layer \<Rightarrow> brain_state res" where
  "admit_layer s v l =
     (let admitted = int (length (pc_get l (bs_personality v))) - int (length (pc_get l (bs_personality s)))
      in if admitted \<noteq> 0 then admit (WPersonality l) admitted 0 v else Inr v)"

definition personality_stage :: "brain_state \<Rightarrow> event_envelope \<Rightarrow> brain_state \<Rightarrow> brain_state res" where
  "personality_stage s e v = rbind (reduce_personality (bs_personality s) e (bs_logical_clock s)) (\<lambda>p.
     rfold (admit_layer s) (v\<lparr>bs_personality := p\<rparr>) pc_layers)"

text \<open>The first action that may be evicted: in a terminal phase and not waiting for an assessment.\<close>

definition evictable :: "action_record \<Rightarrow> bool" where
  "evictable a = (ar_phase a \<in> {Blocked, Reconstructed} \<and> ar_energy_status a \<noteq> EnergyPending)"

fun evict_first :: "('a \<Rightarrow> bool) \<Rightarrow> 'a list \<Rightarrow> ('a \<times> 'a list) option" where
  "evict_first P [] = None"
| "evict_first P (x # xs) = (if P x then Some (x, xs)
     else case evict_first P xs of None \<Rightarrow> None | Some (y, ys) \<Rightarrow> Some (y, x # ys))"

definition bound_actions :: "action_record list \<Rightarrow> (string option \<times> action_record list) res" where
  "bound_actions actions =
     (if MAX_ACTION_RECORDS < length actions then (case evict_first evictable actions of
        None \<Rightarrow> Inl (DomainCapacityError ''active action capacity is full; proposal was not applied'')
      | Some (a, rest) \<Rightarrow> Inr (Some (ar_action_id a), rest))
      else Inr (None, actions))"

definition drop_energy :: "brain_state \<Rightarrow> string \<Rightarrow> energy_vector list" where
  "drop_energy s aid = filter (\<lambda>i. en_action_id i \<noteq> aid) (bs_energy_records s)"

definition action_stage :: "brain_state \<Rightarrow> event_envelope \<Rightarrow> bool \<Rightarrow> brain_state \<Rightarrow> (brain_state \<times> string list) res" where
  "action_stage s e trusted v = rbind (reduce_actions (bs_action_records s) e trusted) (\<lambda>(actions, grounded).
     let admitted = length (filter (\<lambda>a. ar_action_id a \<notin> ar_action_id ` set (bs_action_records s)) actions)
     in rbind (bound_actions actions) (\<lambda>(evicted, kept).
        rbind (if admitted \<noteq> 0 then admit WActions (int admitted) (int_of_bool (evicted \<noteq> None))
            (v\<lparr>bs_action_records := kept\<rparr>) else Inr (v\<lparr>bs_action_records := kept\<rparr>)) (\<lambda>v.
        rbind (case evicted of
            None \<Rightarrow> Inr v
          | Some aid \<Rightarrow>
              if length (drop_energy s aid) \<noteq> length (bs_energy_records s)
              then admit WEnergies 0 1 (v\<lparr>bs_energy_records := drop_energy s aid\<rparr>) else Inr v) (\<lambda>v.
        Inr (v, grounded)))))"

definition admit_world :: "brain_state \<Rightarrow> brain_state \<Rightarrow> world_layer \<Rightarrow> brain_state res" where
  "admit_world s v l =
     (let previous = world_get l (bs_world s); current = world_get l (bs_world v);
          retained_existing = card (wp_proposition_id ` set previous \<inter> wp_proposition_id ` set current);
          admitted = int (length current) - int retained_existing;
          evicted = int (length previous) + admitted - int (length current)
      in if admitted \<noteq> 0 \<or> evicted \<noteq> 0 then admit (WWorld l) admitted evicted v else Inr v)"

definition world_stage :: "brain_state \<Rightarrow> event_envelope \<Rightarrow> bool \<Rightarrow> string list \<Rightarrow> brain_state \<Rightarrow> brain_state res" where
  "world_stage s e trusted grounded v = rbind (reduce_world (bs_world s) e trusted grounded) (\<lambda>w.
     rfold (admit_world s) (v\<lparr>bs_world := w\<rparr>) [Observed, Believed, Simulated, Ideal])"

definition reduce_workspace :: "brain_state \<Rightarrow> event_envelope \<Rightarrow> workspace_state res" where
  "reduce_workspace s e =
     (if ev_event_type e \<noteq> ''workspace.broadcast'' then Inr (bs_workspace s)
      else case jget (ev_payload e) ''cycle'' of
        JInt cycle \<Rightarrow>
          if cycle \<noteq> ws_cycle (bs_workspace s) + 1 then
            Inl (DomainInvariantError ''workspace cycle must advance exactly once'')
          else (case jget (ev_payload e) ''candidates'' of
            JArr raw \<Rightarrow>
              rbind (rmap workspace_candidate raw) (\<lambda>candidates.
              if list_ex (\<lambda>c. wc_cycle c \<noteq> cycle) candidates then
                Inl (DomainInvariantError ''candidate cycle must match workspace cycle'')
              else rbind (choose_broadcast candidates (ws_capacity (bs_workspace s))) (\<lambda>selected.
                if length selected \<noteq> length candidates \<or> selected \<noteq> candidates then
                  Inl (DomainInvariantError ''workspace event must already be bounded, deduplicated and ranked'')
                else
                  let w = \<lparr>ws_capacity = ws_capacity (bs_workspace s), ws_cycle = cycle, ws_broadcast = selected\<rparr>
                  in if valid_workspace w then Inr w else Inl (ValidationError ''WorkspaceState'')))
          | _ \<Rightarrow> Inl (DomainInvariantError ''workspace candidates must be an array''))
      | _ \<Rightarrow> Inl (DomainInvariantError ''workspace cycle must be an integer''))"

definition memory_of_payload :: "jobj \<Rightarrow> memory_record res" where
  "memory_of_payload p =
     rbind (jitem p ''memory_id'') (\<lambda>mid.
     rbind (jitem p ''content'') (\<lambda>content.
     rbind (of_option (PyTypeError ''salience'') (py_float (jget_or p ''salience'' (JFloat (1 / 2))))) (\<lambda>salience.
     rbind (of_option (PyTypeError ''source_ids'') (py_tuple (jget_or p ''source_ids'' (JArr [])))) (\<lambda>sources.
     rbind (of_option (ValidationError ''memory_id'') (as_str mid)) (\<lambda>mid.
     rbind (of_option (PyTypeError ''payload must be a JSON object'') (as_obj content)) (\<lambda>content.
     rbind (of_option (ValidationError ''source_ids'') (as_strs sources)) (\<lambda>sources.
       let m = \<lparr>mr_memory_id = mid, mr_content = content, mr_salience = salience, mr_source_ids = sources\<rparr>
       in if valid_memory m then Inr m else Inl (ValidationError ''MemoryRecord''))))))))"

definition reduce_memory :: "brain_state \<Rightarrow> event_envelope \<Rightarrow> memory_record list res" where
  "reduce_memory s e =
     (if ev_event_type e \<noteq> ''memory.recorded'' then Inr (bs_memories s)
      else rbind (rewrap ''invalid memory record'' (memory_of_payload (ev_payload e))) (\<lambda>m.
        Inr (last_n MAX_MEMORY_RECORDS
          (filter (\<lambda>i. mr_memory_id i \<noteq> mr_memory_id m) (bs_memories s) @ [m]))))"

definition memory_stage :: "brain_state \<Rightarrow> event_envelope \<Rightarrow> brain_state \<Rightarrow> brain_state res" where
  "memory_stage s e v = rbind (reduce_memory s e) (\<lambda>ms.
     if ev_event_type e \<noteq> ''memory.recorded'' then Inr (v\<lparr>bs_memories := ms\<rparr>)
     else
       let admitted = (case jget (ev_payload e) ''memory_id'' of
             JStr mid \<Rightarrow> int_of_bool (list_all (\<lambda>i. mr_memory_id i \<noteq> mid) (bs_memories s)) | _ \<Rightarrow> 0)
       in admit WMemories admitted (max 0 (int (length (bs_memories s)) + admitted - int (length ms)))
            (v\<lparr>bs_memories := ms\<rparr>))"

section \<open>The typed branch\<close>

definition name_stage :: "event_envelope \<Rightarrow> brain_state \<Rightarrow> brain_state res" where
  "name_stage e v = (case as_opt_str (jget (ev_payload e) ''name'') of
     None \<Rightarrow> Inl (DomainInvariantError ''name must be null or a non-blank string'')
   | Some name \<Rightarrow>
       if (case name of None \<Rightarrow> False | Some n \<Rightarrow> blank n) then
         Inl (DomainInvariantError ''name must be null or a non-blank string'')
       else Inr (v\<lparr>bs_name := name,
         bs_identity := (if ev_event_type e = ''brain.created'' \<and> id_name (bs_identity v) \<noteq> name
           then (bs_identity v)\<lparr>id_name := name\<rparr> else bs_identity v)\<rparr>))"

definition clock_error :: py_error where
  "clock_error = DomainInvariantError ''clock.tick elapsed_seconds must be a finite non-negative number''"

definition clock_stage :: "brain_state \<Rightarrow> event_envelope \<Rightarrow> brain_state \<Rightarrow> brain_state res" where
  "clock_stage s e v =
     (let raw = jget (ev_payload e) ''elapsed_seconds'' in
      case json_number raw of
        None \<Rightarrow> Inl clock_error
      | Some exact \<Rightarrow>
          rbind (of_option PyOverflowError (py_float raw)) (\<lambda>elapsed.
          if exact < 0 then Inl clock_error
          else rbind (of_option (DomainInvariantError ''clock.tick logical clock overflow'')
              (rnd64 (bs_logical_clock s + elapsed))) (\<lambda>clock.
            rbind (advance_personality_clock (bs_personality s) clock) (\<lambda>p.
              let r = (bs_runtime s)\<lparr>rt_tick_count := rt_tick_count (bs_runtime s) + 1,
                rt_last_elapsed_seconds := elapsed\<rparr>
              in if valid_runtime r
                 then Inr (v\<lparr>bs_logical_clock := clock, bs_personality := p, bs_runtime := r\<rparr>)
                 else Inl (ValidationError ''RuntimeState'')))))"

definition capabilities_stage :: "event_envelope \<Rightarrow> brain_state \<Rightarrow> brain_state res" where
  "capabilities_stage e v = (case jget (ev_payload e) ''capabilities'' of
     JObj m \<Rightarrow>
       if MAX_CAPABILITIES < length m then
         Inl (DomainCapacityError ''capabilities exceed the bounded working-set capacity'')
       else Inr (v\<lparr>bs_capabilities := m,
         bs_working_set := (bs_working_set v)\<lparr>wk_counter := (wk_counter (bs_working_set v))
           (WCapabilities := \<lparr>ct_total = int (length m), ct_evicted = 0\<rparr>)\<rparr>\<rparr>)
   | _ \<Rightarrow> Inl (DomainInvariantError ''capabilities must be a JSON object''))"

definition neutral_vector :: "energy_vector \<Rightarrow> bool" where
  "neutral_vector e = (en_assessment_source e = None \<and> en_assessment_summary e = None \<and>
     en_provenance e = [] \<and> en_evidence_basis e = [] \<and> en_unknown_dimensions e = ENERGY_DIMENSIONS \<and>
     en_deficits e = [] \<and> en_salience e = 1 / 2 \<and> en_urgency e = 1 / 2 \<and> en_valence e = 0 \<and>
     en_arousal e = 0 \<and> en_control e = 1 / 2 \<and> en_resources e = 1 / 2 \<and> en_cost e = 1 / 2 \<and>
     en_personality_relevance e = 1 / 2)"

definition legacy_stage :: "brain_state \<Rightarrow> event_envelope \<Rightarrow> brain_state \<Rightarrow> brain_state res" where
  "legacy_stage s e v = rbind (action_id_from_event e) (\<lambda>aid.
     if (case state_energy s aid of None \<Rightarrow> True | Some l \<Rightarrow> \<not> neutral_vector l) then
       Inl (DomainInvariantError ''legacy energy reassessment requires the exact neutral vector'')
     else if length (drop_energy s aid) = length (bs_energy_records s) then
       Inl (DomainInvariantError ''legacy energy reassessment requires its prior vector'')
     else admit WEnergies 0 1 (v\<lparr>bs_energy_records := drop_energy s aid\<rparr>))"

definition assessed_stage :: "brain_state \<Rightarrow> event_envelope \<Rightarrow> brain_state \<Rightarrow> brain_state res" where
  "assessed_stage s e v = rbind (action_id_from_event e) (\<lambda>aid.
     if state_action s aid = None then
       Inl (DomainInvariantError ''energy assessment requires an existing action'')
     else rbind (energy_from_event e) (\<lambda>energy.
       let energies = upsert_energy (bs_energy_records s) energy;
           over = MAX_ENERGY_RECORDS < length energies
       in admit WEnergies (int_of_bool (list_all (\<lambda>i. en_action_id i \<noteq> aid) (bs_energy_records s))) (int_of_bool over)
            (v\<lparr>bs_energy_records := (if over then last_n MAX_ENERGY_RECORDS energies else energies)\<rparr>)))"

definition default_consequences :: json where
  "default_consequences = JArr [JObj [(''kind'', JStr ''counterfactual''), (''requires_confirmation'', JBool True)]]"

definition mk_branch :: "thought_branch \<Rightarrow> thought_branch res" where
  "mk_branch b = (if valid_branch b then Inr b else Inl (ValidationError ''ThoughtBranch''))"

definition str_field :: "jobj \<Rightarrow> string \<Rightarrow> string \<Rightarrow> string res" where
  "str_field p k d = of_option (ValidationError k) (as_str (jget_or p k (JStr d)))"

definition simulation_branch :: "event_envelope \<Rightarrow> thought_branch res" where
  "simulation_branch e = (let p = ev_payload e in case jget p ''proposition_id'' of
     JStr pid \<Rightarrow>
       if blank pid then Inl (DomainInvariantError ''simulation requires proposition_id'')
       else (case jget_or p ''expected_consequences'' default_consequences of
         JArr items \<Rightarrow> rewrap ''invalid simulation branch''
           (rbind (str_field p ''branch_id'' pid) (\<lambda>bid.
            rbind (str_field p ''stance'' ''simulate'') (\<lambda>stance.
            rbind (rbind (jitem p ''content'') (\<lambda>v. of_option (PyTypeError ''payload must be a JSON object'') (as_obj v))) (\<lambda>content.
            rbind (rmap (\<lambda>v. of_option (PyTypeError ''JSON object'') (frozen_dict v)) items) (\<lambda>consequences.
            rbind (of_option (PyTypeError ''uncertainty'') (py_float (jget_or p ''uncertainty'' (JFloat (1 / 2))))) (\<lambda>uncertainty.
            rbind (of_option (PyTypeError ''source_ids'') (py_tuple (jget_or p ''source_ids'' (JArr [])))) (\<lambda>sources.
            rbind (of_option (ValidationError ''source_ids'') (as_strs sources)) (\<lambda>sources.
            rbind (str_field p ''cognition_mode'' ''event'') (\<lambda>mode.
            rbind (str_field p ''algorithm_version'' ''event-v1'') (\<lambda>algorithm.
            rbind (str_field p ''config_version'' ''event-v1'') (\<lambda>config.
            mk_branch \<lparr>tb_branch_id = bid, tb_stance = stance, tb_content = content,
              tb_expected_consequences = consequences, tb_uncertainty = uncertainty, tb_source_ids = sources,
              tb_rd_phase = RdSimulate, tb_cognition_mode = mode, tb_algorithm_version = algorithm,
              tb_config_version = config\<rparr>)))))))))))
       | _ \<Rightarrow> Inl (DomainInvariantError ''simulation consequences must be an array''))
   | _ \<Rightarrow> Inl (DomainInvariantError ''simulation requires proposition_id''))"

definition simulation_stage :: "brain_state \<Rightarrow> event_envelope \<Rightarrow> brain_state \<Rightarrow> brain_state res" where
  "simulation_stage s e v = rbind (simulation_branch e) (\<lambda>b.
     let admitted = int_of_bool (list_all (\<lambda>i. tb_branch_id i \<noteq> tb_branch_id b) (bs_thought_space s));
         branches = last_n MAX_THOUGHT_BRANCHES
           (filter (\<lambda>i. tb_branch_id i \<noteq> tb_branch_id b) (bs_thought_space s) @ [b])
     in admit WThoughts admitted (max 0 (int (length (bs_thought_space s)) + admitted - int (length branches)))
          (v\<lparr>bs_thought_space := branches\<rparr>))"

text \<open>The values of \<open>{item.branch_id: item for item in ...}\<close>: a later item replaces in place.\<close>

fun dict_put :: "('r \<Rightarrow> 'k) \<Rightarrow> 'r list \<Rightarrow> 'r \<Rightarrow> 'r list" where
  "dict_put key [] x = [x]"
| "dict_put key (y # ys) x = (if key y = key x then x # ys else y # dict_put key ys x)"

definition branch_of_alternative :: "cognition_result \<Rightarrow> cognition_alternative \<Rightarrow> thought_branch res" where
  "branch_of_alternative r a = mk_branch \<lparr>tb_branch_id = ca_branch_id a, tb_stance = ca_stance a,
     tb_content = ca_content a, tb_expected_consequences = ca_expected_consequences a,
     tb_uncertainty = cr_uncertainty r, tb_source_ids = cr_source_ids r, tb_rd_phase = RdSimulate,
     tb_cognition_mode = cr_cognition_mode r, tb_algorithm_version = cr_algorithm_version r,
     tb_config_version = cr_config_version r\<rparr>"

definition cognition_stage :: "brain_state \<Rightarrow> event_envelope \<Rightarrow> brain_state \<Rightarrow> brain_state res" where
  "cognition_stage s e v =
     rbind (rewrap ''invalid local cognition result'' (cognition_result_from_payload (ev_payload e))) (\<lambda>r.
     if cr_cognition_mode r \<noteq> ''local'' \<or> cr_provider_used r then
       Inl (DomainInvariantError ''local cognition cannot claim provider use'')
     else
       let old = cg_reflections (bs_cognition s) in
       rbind (admit WReflections 1 (int_of_bool (MAX_COGNITION_REFLECTIONS \<le> length old))
         (v\<lparr>bs_cognition := (bs_cognition s)\<lparr>cg_reflections := last_n MAX_COGNITION_REFLECTIONS (old @ [r])\<rparr>\<rparr>)) (\<lambda>v.
       rbind (rmap (branch_of_alternative r) (cr_alternatives r)) (\<lambda>branches.
         let thoughts = bs_thought_space s;
             new_count = int (length (filter (\<lambda>b. tb_branch_id b \<notin> tb_branch_id ` set thoughts) branches));
             bounded = last_n MAX_THOUGHT_BRANCHES (foldl (dict_put tb_branch_id) [] (thoughts @ branches))
         in admit WThoughts new_count (max 0 (int (length thoughts) + new_count - int (length bounded)))
              (v\<lparr>bs_thought_space := bounded\<rparr>))))"

definition runtime_failure_of :: "event_envelope \<Rightarrow> runtime_failure res" where
  "runtime_failure_of e = rewrap ''invalid runtime failure'' (
     rbind (str_item (JObj (ev_payload e)) ''error_type'') (\<lambda>t.
     rbind (str_item (JObj (ev_payload e)) ''message'') (\<lambda>m.
     rbind (str_item (JObj (ev_payload e)) ''phase'') (\<lambda>ph.
       let f = \<lparr>rf_error_type = t, rf_message = m, rf_phase = ph\<rparr>
       in if valid_failure f then Inr f else Inl (ValidationError ''RuntimeFailure'')))))"

definition failure_stage :: "brain_state \<Rightarrow> event_envelope \<Rightarrow> brain_state \<Rightarrow> brain_state res" where
  "failure_stage s e v = rbind (runtime_failure_of e) (\<lambda>f.
     let r = (bs_runtime s)\<lparr>rt_health := Degraded, rt_failure_count := rt_failure_count (bs_runtime s) + 1,
       rt_consecutive_failures := rt_consecutive_failures (bs_runtime s) + 1, rt_last_failure := Some f\<rparr>
     in if valid_runtime r then Inr (v\<lparr>bs_runtime := r\<rparr>) else Inl (ValidationError ''RuntimeState''))"

definition recovered_stage :: "brain_state \<Rightarrow> brain_state \<Rightarrow> brain_state res" where
  "recovered_stage s v =
     (let r = (bs_runtime s)\<lparr>rt_health := Healthy, rt_consecutive_failures := 0\<rparr>
      in if valid_runtime r then Inr (v\<lparr>bs_runtime := r\<rparr>) else Inl (ValidationError ''RuntimeState''))"

definition typed_stage :: "brain_state \<Rightarrow> event_envelope \<Rightarrow> brain_state \<Rightarrow> brain_state res" where
  "typed_stage s e v =
     (let t = ev_event_type e in
      if t = ''brain.created'' \<or> t = ''identity.named'' then name_stage e v
      else if t = ''clock.tick'' then clock_stage s e v
      else if t = ''capabilities.reported'' then capabilities_stage e v
      else if t = ''semantic.gap'' \<or> t = ''trace.gap'' then Inr (v\<lparr>bs_trace_complete := False\<rparr>)
      else if t = ''action.energy_requested'' \<and>
          jget (ev_payload e) ''reassessment_reason'' = JStr ''legacy_neutral_default'' then legacy_stage s e v
      else if t = ''action.energy_assessed'' then assessed_stage s e v
      else if t = ''simulation.created'' then simulation_stage s e v
      else if t = ''cognition.reflected'' then cognition_stage s e v
      else if t = ''runtime.failure'' then failure_stage s e v
      else if t = ''runtime.recovered'' then recovered_stage s v
      else Inr v)"

section \<open>The reducer\<close>

definition event_admitted :: "brain_state \<Rightarrow> event_envelope \<Rightarrow> unit res" where
  "event_admitted s e =
     (if ev_schema_version e \<noteq> 1 then
        Inl (SchemaVersionError (''unsupported event schema '' @ int_text (ev_schema_version e)))
      else if ev_brain_id e \<noteq> bs_brain_id s then
        Inl (DomainInvariantError (''event brain '' @ py_repr (ev_brain_id e) @ '' does not match state brain '' @
          py_repr (bs_brain_id s)))
      else case ev_sequence e of
        None \<Rightarrow> Inr ()
      | Some n \<Rightarrow>
          if n \<noteq> bs_last_sequence s + 1 then
            Inl (DomainInvariantError (''event sequence '' @ int_text n @ '' does not follow '' @
              int_text (bs_last_sequence s)))
          else Inr ())"

definition reduce_values :: "brain_state \<Rightarrow> event_envelope \<Rightarrow> brain_state res" where
  "reduce_values s e =
     (let trusted = is_authorized (bs_identity s) (ev_actor_id e) (ev_adapter_id e) in
      rbind (count_event s e) (\<lambda>v.
      rbind (identity_stage s e v) (\<lambda>v.
      rbind (personality_stage s e v) (\<lambda>v.
      rbind (action_stage s e trusted v) (\<lambda>(v, grounded).
      rbind (world_stage s e trusted grounded v) (\<lambda>v.
      rbind (reduce_workspace s e) (\<lambda>w.
      rbind (memory_stage s e (v\<lparr>bs_workspace := w\<rparr>)) (\<lambda>v.
      typed_stage s e v))))))))"

definition reduce_state :: "brain_state \<Rightarrow> event_envelope \<Rightarrow> brain_state res" where
  "reduce_state state event =
     rbind (state_revalidated state) (\<lambda>s.
     rbind (event_revalidated event) (\<lambda>e.
     rbind (event_admitted s e) (\<lambda>_.
     rbind (reduce_values s e) state_from_data)))"

definition reduce_many :: "brain_state \<Rightarrow> event_envelope list \<Rightarrow> brain_state res" where
  "reduce_many state events = rfold reduce_state state events"

end
