(* ===== verification/Successor.thy ===== *)
theory Successor imports Reducer
begin

text \<open>
  What \<open>Reducer\<close> guarantees: the invariant of a reachable brain state, kept stage by stage, so that
  the validation at the end of \<open>reduce_state\<close> never fails behind the domain checks, but for the cases
  the theorem names.
\<close>

section \<open>The invariant\<close>

definition names_ok :: "brain_state \<Rightarrow> bool" where
  "names_ok s = (id_name (bs_identity s) = bs_name s)"

definition clocks_ok :: "brain_state \<Rightarrow> bool" where
  "clocks_ok s = list_all (\<lambda>l. lr_logical_clock (rate_get l (pc_rate_state (bs_personality s))) = bs_logical_clock s) pc_layers"

definition all_counted :: "brain_state \<Rightarrow> bool" where
  "all_counted s = list_all (\<lambda>n. counted n s \<and> valid_counter (wk_counter (bs_working_set s) n)) ws_names"

definition events_counted :: "brain_state \<Rightarrow> bool" where
  "events_counted s = (valid_raw_counts (bs_raw_lifecycle_counts s) \<and>
     0 \<le> wk_raw_lifecycle_events_evicted (bs_working_set s) \<and>
     sum_list (map snd (bs_raw_lifecycle_counts s)) + wk_raw_lifecycle_events_evicted (bs_working_set s) =
       wk_reduced_event_count (bs_working_set s) \<and>
     0 \<le> bs_last_sequence s \<and> bs_last_sequence s \<le> wk_reduced_event_count (bs_working_set s))"

definition actions_ok :: "brain_state \<Rightarrow> bool" where
  "actions_ok s = (actions_wf (bs_action_records s) \<and> list_all valid_energy (bs_energy_records s) \<and>
     distinct (map en_action_id (bs_energy_records s)) \<and>
     list_all (\<lambda>i. i \<in> set (map ar_action_id (bs_action_records s))) (map en_action_id (bs_energy_records s)))"

definition identity_ok :: "brain_state \<Rightarrow> bool" where
  "identity_ok s = (valid_identity (bs_identity s) \<and> id_self_actor_id (bs_identity s) = bs_brain_id s \<and>
     distinct (map ac_actor_id (id_actors (bs_identity s))))"

text \<open>No collection holds an identifier twice.\<close>

definition distinct_ids :: "brain_state \<Rightarrow> bool" where
  "distinct_ids s = (list_all (\<lambda>l. distinct (map wp_proposition_id (world_get l (bs_world s))))
       [Observed, Believed, Simulated, Ideal] \<and>
     distinct (map mr_memory_id (bs_memories s)) \<and> distinct (map tb_branch_id (bs_thought_space s)))"

text \<open>Everything that no stage ever breaks; the names and the clocks are in step only between events.\<close>

definition consistent :: "brain_state \<Rightarrow> bool" where
  "consistent s = (bs_schema_version s = STATE_SCHEMA_VERSION \<and> is_uuid4 (bs_brain_id s) \<and>
     (case bs_name s of None \<Rightarrow> True | Some n \<Rightarrow> \<not> blank n) \<and> frozen (JObj (bs_capabilities s)) \<and>
     is_f64 (bs_logical_clock s) \<and> 0 \<le> bs_logical_clock s \<and>
     identity_ok s \<and> valid_personality (bs_personality s) \<and> actions_ok s \<and>
     list_all valid_branch (bs_thought_space s) \<and> valid_world (bs_world s) \<and> valid_workspace (bs_workspace s) \<and>
     list_all valid_memory (bs_memories s) \<and> valid_cognition (bs_cognition s) \<and> valid_runtime (bs_runtime s) \<and>
     all_counted s \<and> events_counted s \<and> distinct_ids s)"

definition brain_ok :: "brain_state \<Rightarrow> bool" where
  "brain_ok s = (consistent s \<and> names_ok s \<and> clocks_ok s)"

lemma brain_ok_valid: "brain_ok s \<Longrightarrow> valid_state s"
  by (auto simp: brain_ok_def consistent_def valid_state_def valid_parts_def state_shell_def
      identity_matches_brain_def names_ok_def clocks_ok_def all_counted_def events_counted_def actions_ok_def
      identity_ok_def actions_wf_def action_wf_def valid_working_set_def valid_workspace_def list_all_iff
      valid_raw_counts_def sum_list_nonneg)

lemma brain_ok_shell: "consistent s \<Longrightarrow> state_shell s \<longleftrightarrow> names_ok s \<and> clocks_ok s"
  by (auto simp: consistent_def state_shell_def identity_matches_brain_def names_ok_def clocks_ok_def
      all_counted_def events_counted_def actions_ok_def identity_ok_def actions_wf_def valid_workspace_def list_all_iff)

lemma brain_genesis_ok: "is_uuid4 b \<Longrightarrow> brain_ok (brain_genesis b)"
proof -
  assume b: "is_uuid4 b"
  note v = brain_genesis_valid [OF b]
  have "actions_wf (bs_action_records (brain_genesis b))" "distinct (map ac_actor_id (id_actors (bs_identity (brain_genesis b))))"
    "distinct_ids (brain_genesis b)"
    by (simp_all add: brain_genesis_def actions_wf_def identity_genesis_def distinct_ids_def empty_world_def)
  with v show ?thesis
    by (simp add: brain_ok_def consistent_def valid_state_def valid_parts_def state_shell_def
        identity_matches_brain_def names_ok_def clocks_ok_def all_counted_def events_counted_def actions_ok_def
        identity_ok_def valid_working_set_def list_all_iff)
qed

section \<open>Recounting\<close>

text \<open>A stage changes some collections and the counters, nothing else of the working set.\<close>

definition recount :: "brain_state \<Rightarrow> (ws_name \<Rightarrow> ws_counter) \<Rightarrow> brain_state" where
  "recount v c = v\<lparr>bs_working_set := (bs_working_set v)\<lparr>wk_counter := c\<rparr>\<rparr>"

lemma recount_fields [simp]:
  "bs_schema_version (recount v c) = bs_schema_version v" "bs_brain_id (recount v c) = bs_brain_id v"
  "bs_name (recount v c) = bs_name v" "bs_identity (recount v c) = bs_identity v"
  "bs_personality (recount v c) = bs_personality v" "bs_energy_records (recount v c) = bs_energy_records v"
  "bs_thought_space (recount v c) = bs_thought_space v" "bs_action_records (recount v c) = bs_action_records v"
  "bs_world (recount v c) = bs_world v" "bs_workspace (recount v c) = bs_workspace v"
  "bs_memories (recount v c) = bs_memories v" "bs_cognition (recount v c) = bs_cognition v"
  "bs_runtime (recount v c) = bs_runtime v" "bs_capabilities (recount v c) = bs_capabilities v"
  "bs_logical_clock (recount v c) = bs_logical_clock v" "bs_trace_complete (recount v c) = bs_trace_complete v"
  "bs_raw_lifecycle_counts (recount v c) = bs_raw_lifecycle_counts v"
  "bs_last_sequence (recount v c) = bs_last_sequence v"
  "wk_counter (bs_working_set (recount v c)) = c"
  "wk_raw_lifecycle_events_evicted (bs_working_set (recount v c)) = wk_raw_lifecycle_events_evicted (bs_working_set v)"
  "wk_reduced_event_count (bs_working_set (recount v c)) = wk_reduced_event_count (bs_working_set v)"
  by (simp_all add: recount_def)

lemma retained_recount [simp]: "retained n (recount v c) = retained n v"
  by (cases n) simp_all

lemma events_counted_recount [simp]: "events_counted (recount v c) = events_counted v"
  by (simp add: events_counted_def)

lemma recount_same [simp]: "recount v (wk_counter (bs_working_set v)) = v"
  by (simp add: recount_def)

lemma recount_recount [simp]: "recount (recount v c) c' = recount v c'"
  by (simp add: recount_def)

lemma all_countedD: "all_counted s \<Longrightarrow> counted n s \<and> valid_counter (wk_counter (bs_working_set s) n)"
  by (simp add: all_counted_def all_ws_names)

lemma all_counted_iff: "all_counted s \<longleftrightarrow> (\<forall>n. counted n s \<and> valid_counter (wk_counter (bs_working_set s) n))"
  by (simp add: all_counted_def all_ws_names)

text \<open>
  The heart of the counting: if a stage changed one collection by \<open>admitted - evicted\<close> records within
  its capacity, advancing its counter succeeds and every counter is exact again.
\<close>

lemma admit_counted:
  assumes "all_counted u" "wk_counter (bs_working_set v) = wk_counter (bs_working_set u)"
    and "\<forall>m. m \<noteq> n \<longrightarrow> retained m v = retained m u"
    and "int (retained n v) = int (retained n u) + adm - ev" "retained n v \<le> capacity n"
    and "0 \<le> adm" "0 \<le> ev" "never_evicts n \<longrightarrow> ev = 0"
  shows "\<exists>c. admit n adm ev v = Inr (recount v c) \<and> all_counted (recount v c)"
proof -
  let ?c = "wk_counter (bs_working_set u) n"
  let ?d = "\<lparr>ct_total = ct_total ?c + adm, ct_evicted = ct_evicted ?c + ev\<rparr>"
  have u: "counted m u \<and> valid_counter (wk_counter (bs_working_set u) m)" for m
    using assms(1) by (simp add: all_counted_iff)
  have "ct_total ?d - ct_evicted ?d = int (retained n v)"
    using u [of n] assms(4) by (simp add: counted_def Let_def)
  with u [of n] assms(6,7) have d: "valid_counter ?d" by (simp add: valid_counter_def)
  have "counted m (recount v ((wk_counter (bs_working_set v))(n := ?d)))" for m
    using u [of m] u [of n] assms by (cases "m = n") (auto simp: counted_def Let_def)
  with u d assms(2) have "all_counted (recount v ((wk_counter (bs_working_set v))(n := ?d)))"
    by (simp add: all_counted_iff)
  moreover have "admit n adm ev v = Inr (recount v ((wk_counter (bs_working_set v))(n := ?d)))"
    using d assms(2) by (simp add: admit_def advance_working_set_def Let_def recount_def)
  ultimately show ?thesis by blast
qed

lemma unchanged_counted:
  assumes "all_counted u" "wk_counter (bs_working_set v) = wk_counter (bs_working_set u)"
    "\<forall>m. retained m v = retained m u"
  shows "all_counted v"
  using assms by (simp add: all_counted_iff counted_def)

lemma maybe_admit_counted:
  assumes "all_counted u" "wk_counter (bs_working_set v) = wk_counter (bs_working_set u)"
    and "\<forall>m. m \<noteq> n \<longrightarrow> retained m v = retained m u"
    and "int (retained n v) = int (retained n u) + adm - ev" "retained n v \<le> capacity n"
    and "0 \<le> adm" "0 \<le> ev" "never_evicts n \<longrightarrow> ev = 0" "\<not> go \<Longrightarrow> adm = 0 \<and> ev = 0"
  shows "\<exists>c. (if go then admit n adm ev v else Inr v) = Inr (recount v c) \<and> all_counted (recount v c)"
proof (cases go)
  case True
  with admit_counted [OF assms(1-8)] show ?thesis by simp
next
  case False
  with assms(4,9) have "retained n v = retained n u" by simp
  with assms(3) have "\<forall>m. retained m v = retained m u" by metis
  with unchanged_counted [OF assms(1,2)] False show ?thesis
    by (intro exI [of _ "wk_counter (bs_working_set v)"]) simp
qed

lemma admit_iff: "admit n a ev v = Inr (recount v c) \<longleftrightarrow>
    advance_working_set (bs_working_set v) n a ev = Inr ((bs_working_set v)\<lparr>wk_counter := c\<rparr>)"
proof -
  have "v\<lparr>bs_working_set := w\<rparr> = v\<lparr>bs_working_set := w'\<rparr> \<longleftrightarrow> w = w'" for w w'
    by (metis brain_state.select_convs(15) brain_state.surjective brain_state.update_convs(15))
  then show ?thesis by (auto simp: admit_def rbind_eq_Inr recount_def)
qed

text \<open>Whether a counter can be advanced depends on the working set alone.\<close>

lemma maybe_transfer:
  assumes "(if go then admit n a ev u else Inr u) = Inr (recount u c)" "bs_working_set v = bs_working_set u"
  shows "(if go then admit n a ev v else Inr v) = Inr (recount v c)"
proof (cases go)
  case True
  with assms show ?thesis by (simp add: admit_iff)
next
  case False
  with assms(1) have "wk_counter (bs_working_set u) = c" by (metis recount_fields(19) sum.inject(2))
  with assms(2) False show ?thesis by (metis recount_same)
qed

section \<open>Counting the event\<close>

lemma sum_snd_jput:
  "sorted_keys m \<Longrightarrow> sum_list (map snd (jput k v m)) =
   sum_list (map snd m) + (v :: int) - (case map_of m k of None \<Rightarrow> 0 | Some u \<Rightarrow> u)"
proof (induction m)
  case (Cons p m)
  obtain k' u where p: "p = (k', u)" by (cases p)
  with Cons.prems have m: "sorted_keys m" "\<forall>x \<in> fst ` set m. k' < x" by (auto simp: sorted_keys_def)
  have "k < k' \<Longrightarrow> map_of m k = None" using m(2) by (auto simp: map_of_eq_None_iff)
  with Cons.IH [OF m(1)] p show ?case by auto
qed simp

lemma sorted_keys_tl: "sorted_keys m \<Longrightarrow> sorted_keys (tl m)"
  by (cases m) (auto simp: sorted_keys_def)

lemma valid_raw_jput:
  "valid_raw_counts m \<Longrightarrow> t \<noteq> [] \<Longrightarrow> 0 \<le> n \<Longrightarrow> valid_raw_counts (jput t n m)"
  using set_jput [of t n m] by (auto simp: valid_raw_counts_def sorted_keys_jput list_all_iff)

lemma valid_raw_get: "valid_raw_counts m \<Longrightarrow> map_of m t = Some n \<Longrightarrow> 0 \<le> n"
  by (auto simp: valid_raw_counts_def list_all_iff dest!: map_of_SomeD)

lemma event_type_nonempty: "valid_event e \<Longrightarrow> ev_event_type e \<noteq> []"
  by (auto simp: valid_event_def valid_event_type_def)

lemma event_admitted_sequence:
  "event_admitted s e = Inr () \<Longrightarrow> ev_sequence e = None \<or> ev_sequence e = Some (bs_last_sequence s + 1)"
  by (auto simp: event_admitted_def split: if_splits option.splits)

definition counted_event :: "brain_state \<Rightarrow> event_envelope \<Rightarrow> (string \<times> int) list \<Rightarrow> int \<Rightarrow> brain_state" where
  "counted_event s e counts ev = s\<lparr>
     bs_working_set := (bs_working_set s)\<lparr>wk_reduced_event_count := wk_reduced_event_count (bs_working_set s) + 1,
       wk_raw_lifecycle_events_evicted := wk_raw_lifecycle_events_evicted (bs_working_set s) + ev\<rparr>,
     bs_raw_lifecycle_counts := jput (ev_event_type e)
       ((case map_of counts (ev_event_type e) of None \<Rightarrow> 0 | Some n \<Rightarrow> n) + 1) counts,
     bs_last_sequence := (case ev_sequence e of None \<Rightarrow> bs_last_sequence s | Some n \<Rightarrow> n)\<rparr>"

lemma events_counted_step:
  assumes "events_counted s" "valid_event e" "event_admitted s e = Inr ()"
    and "valid_raw_counts counts" "0 \<le> ev"
    and "sum_list (map snd counts) + ev = sum_list (map snd (bs_raw_lifecycle_counts s))"
  shows "events_counted (counted_event s e counts ev)"
proof -
  let ?n = "case map_of counts (ev_event_type e) of None \<Rightarrow> 0 | Some n \<Rightarrow> n"
  have n: "0 \<le> ?n" using valid_raw_get [OF assms(4)] by (auto split: option.splits)
  have "valid_raw_counts (jput (ev_event_type e) (?n + 1) counts)"
    using n by (intro valid_raw_jput assms(4) event_type_nonempty [OF assms(2)]) simp
  moreover have "sum_list (map snd (jput (ev_event_type e) (?n + 1) counts)) = sum_list (map snd counts) + 1"
    using sum_snd_jput [of counts "ev_event_type e" "?n + 1"] assms(4) by (simp add: valid_raw_counts_def)
  ultimately show ?thesis
    using assms(1,5,6) event_admitted_sequence [OF assms(3)]
    by (auto simp: events_counted_def counted_event_def)
qed

lemma retained_counted_event:
  "retained n (counted_event s e counts ev) = (if n = WRawKeys
     then length (bs_raw_lifecycle_counts (counted_event s e counts ev)) else retained n s)"
  by (cases n) (simp_all add: counted_event_def)

lemma counted_event_fields [simp]:
  "wk_counter (bs_working_set (counted_event s e counts ev)) = wk_counter (bs_working_set s)"
  "bs_schema_version (counted_event s e counts ev) = bs_schema_version s"
  "bs_brain_id (counted_event s e counts ev) = bs_brain_id s"
  "bs_name (counted_event s e counts ev) = bs_name s"
  "bs_identity (counted_event s e counts ev) = bs_identity s"
  "bs_personality (counted_event s e counts ev) = bs_personality s"
  "bs_energy_records (counted_event s e counts ev) = bs_energy_records s"
  "bs_thought_space (counted_event s e counts ev) = bs_thought_space s"
  "bs_action_records (counted_event s e counts ev) = bs_action_records s"
  "bs_world (counted_event s e counts ev) = bs_world s"
  "bs_workspace (counted_event s e counts ev) = bs_workspace s"
  "bs_memories (counted_event s e counts ev) = bs_memories s"
  "bs_cognition (counted_event s e counts ev) = bs_cognition s"
  "bs_runtime (counted_event s e counts ev) = bs_runtime s"
  "bs_capabilities (counted_event s e counts ev) = bs_capabilities s"
  "bs_logical_clock (counted_event s e counts ev) = bs_logical_clock s"
  "bs_trace_complete (counted_event s e counts ev) = bs_trace_complete s"
  by (simp_all add: counted_event_def)

lemma advance_other:
  "advance_working_set w n a ev = Inr (w\<lparr>wk_counter := c\<rparr>) \<Longrightarrow> wk_counter w' = wk_counter w \<Longrightarrow>
   advance_working_set w' n a ev = Inr (w'\<lparr>wk_counter := c\<rparr>)"
  by (cases w; cases w') (auto simp: advance_working_set_def Let_def split: if_splits)

lemma count_event_ok:
  assumes "consistent s" "valid_event e" "event_admitted s e = Inr ()"
  shows "\<exists>counts ev c. count_event s e = Inr (recount (counted_event s e counts ev) c) \<and>
    all_counted (recount (counted_event s e counts ev) c) \<and> events_counted (counted_event s e counts ev)"
proof -
  let ?t = "ev_event_type e" and ?m = "bs_raw_lifecycle_counts s"
  have s: "all_counted s" "events_counted s" "valid_raw_counts ?m" "length ?m \<le> MAX_RAW_LIFECYCLE_KEYS"
    using assms(1) all_countedD [of s WRawKeys] by (auto simp: consistent_def events_counted_def counted_def Let_def)
  then have sorted: "sorted_keys ?m" by (simp add: valid_raw_counts_def)
  show ?thesis
  proof (cases "?t \<in> fst ` set ?m")
    case True
    let ?v = "counted_event s e ?m 0"
    have "length (bs_raw_lifecycle_counts ?v) = length ?m"
      using sorted True by (simp add: counted_event_def length_jput)
    then have "\<forall>m. retained m ?v = retained m s" by (simp add: retained_counted_event)
    moreover have "wk_counter (bs_working_set ?v) = wk_counter (bs_working_set s)" by (simp add: counted_event_def)
    ultimately have "all_counted ?v" by (intro unchanged_counted [OF s(1)])
    moreover have "count_event s e = Inr ?v" using True by (simp add: count_event_def counted_event_def Let_def)
    moreover have "events_counted ?v" using assms(2,3) s by (intro events_counted_step) simp_all
    ultimately show ?thesis by (metis recount_same)
  next
    case False
    let ?full = "MAX_RAW_LIFECYCLE_KEYS \<le> length ?m"
    let ?counts = "if ?full then tl ?m else ?m" and ?ev = "if ?full then snd (hd ?m) else 0"
    let ?v = "counted_event s e ?counts ?ev"
    have ne: "?full \<Longrightarrow> ?m \<noteq> []" by (auto simp: limits)
    have vc: "valid_raw_counts ?counts"
      using s(3) sorted_keys_tl [OF sorted] by (cases ?m) (auto simp: valid_raw_counts_def)
    have ev: "0 \<le> ?ev" using ne s(3) by (cases ?m) (auto simp: valid_raw_counts_def)
    have sum: "sum_list (map snd ?counts) + ?ev = sum_list (map snd ?m)"
      using ne by (cases ?m) auto
    have none: "?t \<notin> fst ` set ?counts" using False by (cases ?m) auto
    have len: "length (bs_raw_lifecycle_counts ?v) = Suc (length ?counts)"
      using none vc by (simp add: counted_event_def length_jput valid_raw_counts_def)
    have lens: "int (length ?counts) = int (length ?m) - int_of_bool ?full"
      using ne by (cases ?m) (auto simp: int_of_bool_def)
    have "\<exists>c. admit WRawKeys 1 (int_of_bool ?full) ?v = Inr (recount ?v c) \<and> all_counted (recount ?v c)"
      using len lens s(4)
      by (intro admit_counted [OF s(1)]) (auto simp: retained_counted_event int_of_bool_def split: if_splits)
    then obtain c where c: "admit WRawKeys 1 (int_of_bool ?full) ?v = Inr (recount ?v c)" "all_counted (recount ?v c)"
      by blast
    let ?w = "bs_working_set ?v" and ?w1 = "(bs_working_set s)\<lparr>wk_reduced_event_count := wk_reduced_event_count (bs_working_set s) + 1\<rparr>"
    have "advance_working_set ?w WRawKeys 1 (int_of_bool ?full) = Inr (?w\<lparr>wk_counter := c\<rparr>)"
      using c(1) unfolding admit_iff .
    moreover have "wk_counter ?w1 = wk_counter ?w" by simp
    ultimately have adv: "advance_working_set ?w1 WRawKeys 1 (int_of_bool ?full) = Inr (?w1\<lparr>wk_counter := c\<rparr>)"
      by (rule advance_other)
    have "count_event s e = Inr (recount ?v c)"
      unfolding count_event_def Let_def using adv False
      by (simp add: counted_event_def recount_def)
    moreover have "events_counted ?v" using assms(2,3) s vc ev sum by (intro events_counted_step)
    ultimately show ?thesis using c(2) by metis
  qed
qed

section \<open>Identity and personality\<close>

lemma identity_stage_ok:
  assumes "all_counted v" "bs_identity v = bs_identity s" "identity_ok s" "reduce_identity (bs_identity s) e = Inr i"
  shows "\<exists>c. identity_stage s e v = Inr (recount (v\<lparr>bs_identity := i\<rparr>) c) \<and>
    all_counted (recount (v\<lparr>bs_identity := i\<rparr>) c)"
proof -
  let ?i = "bs_identity s" and ?v = "v\<lparr>bs_identity := i\<rparr>"
  have other: "m \<noteq> WActors \<Longrightarrow> m \<noteq> WAuthorizations \<Longrightarrow> retained m ?v = retained m v" for m by (cases m) simp_all
  have bounds: "length (id_actors ?i) \<le> MAX_IDENTITY_ACTORS" "length (id_authorizations ?i) \<le> MAX_PROVENANCE_AUTHORIZATIONS"
    using all_countedD [OF assms(1), of WActors] all_countedD [OF assms(1), of WAuthorizations] assms(2)
    by (auto simp: counted_def Let_def)
  have "distinct (map ac_actor_id (id_actors ?i))" using assms(3) by (simp add: identity_ok_def)
  note len = reduce_identity_lengths [OF assms(4) bounds this]
  text \<open>The actors, with the authorizations still as before.\<close>
  let ?u = "v\<lparr>bs_identity := ?i\<lparr>id_actors := id_actors i\<rparr>\<rparr>"
  let ?more = "length (id_actors ?i) < length (id_actors i)" and ?auth = "length (id_authorizations ?i) < length (id_authorizations i)"
  have "\<forall>m. m \<noteq> WActors \<longrightarrow> retained m ?u = retained m v"
  proof (intro allI impI)
    fix m assume "m \<noteq> WActors" then show "retained m ?u = retained m v" using assms(2) by (cases m) simp_all
  qed
  then have "\<exists>c. (if ?more then admit WActors (int_of_bool ?more) 0 ?u else Inr ?u) = Inr (recount ?u c) \<and> all_counted (recount ?u c)"
    using len assms(2) by (intro maybe_admit_counted [OF assms(1)]) (auto simp: int_of_bool_def)
  then obtain c where c: "(if ?more then admit WActors (int_of_bool ?more) 0 ?u else Inr ?u) = Inr (recount ?u c)"
    "all_counted (recount ?u c)" by blast
  have first: "(if ?more then admit WActors (int_of_bool ?more) 0 ?v else Inr ?v) = Inr (recount ?v c)"
    by (rule maybe_transfer [OF c(1)]) simp
  have "\<forall>m. m \<noteq> WAuthorizations \<longrightarrow> retained m (recount ?v c) = retained m (recount ?u c)"
  proof (intro allI impI)
    fix m assume "m \<noteq> WAuthorizations"
    then show "retained m (recount ?v c) = retained m (recount ?u c)" by (cases m) simp_all
  qed
  then have "\<exists>d. (if ?auth then admit WAuthorizations (int_of_bool ?auth) 0 (recount ?v c) else Inr (recount ?v c)) =
      Inr (recount (recount ?v c) d) \<and> all_counted (recount (recount ?v c) d)"
    using len by (intro maybe_admit_counted [OF c(2)]) (auto simp: int_of_bool_def)
  then obtain d where d: "(if ?auth then admit WAuthorizations (int_of_bool ?auth) 0 (recount ?v c) else Inr (recount ?v c)) =
      Inr (recount ?v d)" "all_counted (recount ?v d)" unfolding recount_recount by blast
  have "identity_stage s e v = rbind (if ?more then admit WActors (int_of_bool ?more) 0 ?v else Inr ?v)
      (\<lambda>v. if ?auth then admit WAuthorizations (int_of_bool ?auth) 0 v else Inr v)"
    unfolding identity_stage_def assms(4) rbind_simps by (simp only: int_of_bool_def cong: if_cong) simp
  also have "\<dots> = Inr (recount ?v d)" unfolding first rbind_simps by (rule d(1))
  finally show ?thesis using d(2) by blast
qed

lemma identity_stage_keeps: "reduce_identity (bs_identity s) e = Inr i \<Longrightarrow> identity_ok s \<Longrightarrow>
    length (id_actors (bs_identity s)) \<le> MAX_IDENTITY_ACTORS \<Longrightarrow>
    length (id_authorizations (bs_identity s)) \<le> MAX_PROVENANCE_AUTHORIZATIONS \<Longrightarrow>
    valid_identity i \<and> id_self_actor_id i = bs_brain_id s \<and> distinct (map ac_actor_id (id_actors i))"
  using reduce_identity_valid [of "bs_identity s" e i] reduce_identity_self [of "bs_identity s" e i]
    reduce_identity_lengths [of "bs_identity s" e i]
  by (simp add: identity_ok_def)

text \<open>One layer of the personality is counted after the other; \<open>done\<close> are the layers counted so far.\<close>

lemma admit_layers_ok:
  assumes "all_counted u" "bs_working_set v = bs_working_set u"
    and "\<forall>m. m \<notin> WPersonality ` set ls \<longrightarrow> retained m v = retained m u"
    and "\<forall>l. length (pc_get l (bs_personality s)) \<le> length (pc_get l (bs_personality v)) \<and>
      length (pc_get l (bs_personality v)) \<le> MAX_PERSONALITY_VALUES_PER_LAYER"
    and "\<forall>l \<in> set ls. length (pc_get l (bs_personality u)) = length (pc_get l (bs_personality s))"
    and "distinct ls"
  shows "\<exists>c. rfold (admit_layer s) v ls = Inr (recount v c) \<and> all_counted (recount v c)"
  using assms
proof (induction ls arbitrary: u v)
  case Nil
  then have "all_counted v" by (intro unchanged_counted [OF Nil(1)]) simp_all
  then show ?case by (metis recount_same rfold.simps(1))
next
  case (Cons l ls)
  text \<open>An intermediate state in which only this layer has moved.\<close>
  let ?u = "u\<lparr>bs_personality := pc_set l (pc_get l (bs_personality v)) (bs_personality u)\<rparr>"
  have ret: "retained m ?u = (if m = WPersonality l then length (pc_get l (bs_personality v)) else retained m u)" for m
    by (cases m) auto
  let ?adm = "int (length (pc_get l (bs_personality v))) - int (length (pc_get l (bs_personality s)))"
  have "\<exists>c. (if ?adm \<noteq> 0 then admit (WPersonality l) ?adm 0 ?u else Inr ?u) = Inr (recount ?u c) \<and> all_counted (recount ?u c)"
    using Cons.prems(4,5) by (intro maybe_admit_counted [OF Cons.prems(1)]) (auto simp: ret)
  then obtain c where c: "(if ?adm \<noteq> 0 then admit (WPersonality l) ?adm 0 ?u else Inr ?u) = Inr (recount ?u c)"
    "all_counted (recount ?u c)" by blast
  have step: "admit_layer s v l = Inr (recount v c)"
    unfolding admit_layer_def Let_def by (rule maybe_transfer [OF c(1)]) (simp add: Cons.prems(2))
  have "\<exists>d. rfold (admit_layer s) (recount v c) ls = Inr (recount (recount v c) d) \<and> all_counted (recount (recount v c) d)"
  proof (rule Cons.IH [OF c(2)])
    show "\<forall>m. m \<notin> WPersonality ` set ls \<longrightarrow> retained m (recount v c) = retained m (recount ?u c)"
      using Cons.prems(3) ret by auto
    show "\<forall>l \<in> set ls. length (pc_get l (bs_personality (recount ?u c))) = length (pc_get l (bs_personality s))"
      using Cons.prems(5,6) by auto
    show "bs_working_set (recount v c) = bs_working_set (recount ?u c)"
      using Cons.prems(2) by (simp add: recount_def)
  qed (use Cons.prems(4,6) in auto)
  with step show ?case by auto
qed

lemma personality_stage_ok:
  assumes "all_counted v" "bs_personality v = bs_personality s" "valid_personality (bs_personality s)" "valid_event e"
    and "reduce_personality (bs_personality s) e (bs_logical_clock s) = Inr p"
  shows "\<exists>c. personality_stage s e v = Inr (recount (v\<lparr>bs_personality := p\<rparr>) c) \<and>
    all_counted (recount (v\<lparr>bs_personality := p\<rparr>) c)"
proof -
  have b: "length (pc_get l (bs_personality s)) \<le> MAX_PERSONALITY_VALUES_PER_LAYER" for l
    using all_countedD [OF assms(1), of "WPersonality l"] assms(2) by (simp add: counted_def Let_def)
  have "length (pc_get l (bs_personality s)) \<le> length (pc_get l p) \<and> length (pc_get l p) \<le> MAX_PERSONALITY_VALUES_PER_LAYER" for l
    using reduce_personality_sizes [OF assms(5,3,4), of l] b [of l] by auto
  moreover have "\<forall>m. m \<notin> WPersonality ` set pc_layers \<longrightarrow> retained m (v\<lparr>bs_personality := p\<rparr>) = retained m v"
  proof (intro allI impI)
    fix m assume m: "m \<notin> WPersonality ` set pc_layers"
    have "l \<in> set pc_layers" for l by (cases l) (simp_all add: pc_layers_def)
    with m show "retained m (v\<lparr>bs_personality := p\<rparr>) = retained m v" by (cases m) auto
  qed
  ultimately have "\<exists>c. rfold (admit_layer s) (v\<lparr>bs_personality := p\<rparr>) pc_layers = Inr (recount (v\<lparr>bs_personality := p\<rparr>) c) \<and>
      all_counted (recount (v\<lparr>bs_personality := p\<rparr>) c)"
    using assms(2) by (intro admit_layers_ok [OF assms(1)]) (auto simp: pc_layers_def)
  with assms(5) show ?thesis by (simp add: personality_stage_def)
qed

section \<open>Actions\<close>

lemma evict_first_Some: "evict_first P xs = Some (x, rest) \<Longrightarrow> \<exists>l r. xs = l @ x # r \<and> rest = l @ r \<and> P x"
proof (induction xs arbitrary: rest)
  case (Cons y ys)
  show ?case
  proof (cases "P y")
    case True
    with Cons.prems show ?thesis by (intro exI [of _ "[]"] exI [of _ ys]) simp
  next
    case False
    with Cons.prems obtain r' where r': "evict_first P ys = Some (x, r')" "rest = y # r'"
      by (auto split: option.splits)
    with Cons.IH obtain l r where "ys = l @ x # r" "r' = l @ r" "P x" by blast
    with r' show ?thesis by (intro exI [of _ "y # l"] exI [of _ r]) simp
  qed
qed simp

text \<open>One event admits no action or exactly the proposed one, at the end.\<close>

lemma reduce_actions_admits:
  assumes "reduce_actions xs e t = Inr (ys, g)" "actions_wf xs"
  shows "ar_action_id ` set ys = ar_action_id ` set xs \<and> length ys = length xs \<or>
    ev_event_type e = ''action.proposed'' \<and> (\<exists>b. ys = xs @ [b] \<and> ar_action_id b \<notin> ar_action_id ` set xs)"
  using reduce_actions_Inr [OF assms(1)]
proof (elim disjE exE conjE)
  fix aid b assume "ev_event_type e = ''action.proposed''" "propose_action xs e aid = Inr b" "ys = xs @ [b]"
  with propose_action_Inr [of xs e aid b] show ?thesis by (auto simp: lookup_None_iff)
next
  fix aid a b
  assume t: "ev_event_type e \<in> set action_lifecycle_events" "ev_event_type e \<noteq> ''action.proposed''"
    and a: "lookup ar_action_id xs aid = Some a" and s: "step_action a e t = Inr (b, g)"
    and ys: "ys = replace_action xs b"
  have a': "a \<in> set xs" "action_wf a" using a assms(2) by (auto simp: actions_wf_def list_all_iff dest: lookup_SomeD)
  from step_action_ok [OF a'(2) t s] have "ar_action_id b = ar_action_id a" by (simp add: step_ok_def)
  with a' ys assms(2) action_store.put_keys [of xs b] action_store.put_length [of xs b] show ?thesis
    by (auto simp: replace_action_put actions_wf_def)
qed auto

lemma admitted_actions:
  "ar_action_id ` set ys \<subseteq> ids \<Longrightarrow> filter (\<lambda>a. ar_action_id a \<notin> ids) ys = []"
  by (auto simp: filter_empty_conv)

lemma drop_energy_length:
  assumes "distinct (map en_action_id (bs_energy_records s))"
  shows "length (drop_energy s aid) = length (bs_energy_records s) \<or>
    length (bs_energy_records s) = Suc (length (drop_energy s aid))"
  using length_filter_key [OF assms, of aid] unfolding drop_energy_def
  by (cases "bs_energy_records s") (auto split: if_splits)

lemma drop_energy_props:
  "list_all valid_energy (bs_energy_records s) \<Longrightarrow> list_all valid_energy (drop_energy s aid)"
  "distinct (map en_action_id (bs_energy_records s)) \<Longrightarrow> distinct (map en_action_id (drop_energy s aid))"
  "i \<in> set (map en_action_id (drop_energy s aid)) \<longleftrightarrow> i \<noteq> aid \<and> i \<in> set (map en_action_id (bs_energy_records s))"
  by (auto simp: drop_energy_def list_all_iff distinct_map_filter)

text \<open>What the eviction leaves, and that it is a domain error when nothing may be evicted.\<close>

lemma bound_actions_Inr:
  assumes "bound_actions xs = Inr (ev, ys)" "actions_wf xs"
  shows "actions_wf ys \<and> (case ev of None \<Rightarrow> ys = xs \<and> length xs \<le> MAX_ACTION_RECORDS
    | Some aid \<Rightarrow> MAX_ACTION_RECORDS < length xs \<and> length xs = Suc (length ys) \<and>
        ar_action_id ` set ys = ar_action_id ` set xs - {aid})"
proof (cases ev)
  case (Some aid)
  with assms(1) obtain a where a: "MAX_ACTION_RECORDS < length xs" "evict_first evictable xs = Some (a, ys)" "aid = ar_action_id a"
    by (auto simp: bound_actions_def split: if_splits option.splits)
  from evict_first_Some [OF a(2)] obtain l r where lr: "xs = l @ a # r" "ys = l @ r" by blast
  with assms(2) have "actions_wf ys" and fresh: "aid \<notin> ar_action_id ` set ys"
    using a(3) by (auto simp: actions_wf_def)
  moreover have "ar_action_id ` set xs = insert aid (ar_action_id ` set ys)" using lr a(3) by auto
  ultimately show ?thesis using Some a(1) lr by simp
qed (use assms in \<open>auto simp: bound_actions_def split: if_splits option.splits\<close>)

lemma bound_actions_Inl: "bound_actions xs = Inl err \<Longrightarrow> is_domain_error err"
  by (auto simp: bound_actions_def split: if_splits option.splits)

lemma action_stage_ok:
  assumes "all_counted v" "bs_action_records v = bs_action_records s" "bs_energy_records v = bs_energy_records s"
    and "actions_ok s" "reduce_actions (bs_action_records s) e t = Inr (xs, g)" "bound_actions xs = Inr (ev, ys)"
  shows "\<exists>c es. action_stage s e t v = Inr (recount (v\<lparr>bs_action_records := ys, bs_energy_records := es\<rparr>) c, g) \<and>
    all_counted (recount (v\<lparr>bs_action_records := ys, bs_energy_records := es\<rparr>) c) \<and>
    es = (case ev of None \<Rightarrow> bs_energy_records s | Some aid \<Rightarrow> drop_energy s aid)"
proof -
  let ?as = "bs_action_records s" and ?es = "bs_energy_records s"
  have wf: "actions_wf ?as" "distinct (map en_action_id ?es)" using assms(4) by (auto simp: actions_ok_def)
  note xs = reduce_actions_wf [OF assms(5) wf(1)] and adm = reduce_actions_admits [OF assms(5) wf(1)]
  note b = bound_actions_Inr [OF assms(6) xs]
  let ?new = "filter (\<lambda>a. ar_action_id a \<notin> ar_action_id ` set ?as) xs"
  have new: "length xs = length ?as + length ?new"
  proof -
    from adm consider "ar_action_id ` set xs = ar_action_id ` set ?as" "length xs = length ?as"
      | b where "xs = ?as @ [b]" "ar_action_id b \<notin> ar_action_id ` set ?as" by blast
    then show ?thesis
    proof cases
      case 1
      then have "?new = []" by (intro admitted_actions) simp
      with 1(2) show ?thesis by simp
    next
      case 2
      have "filter (\<lambda>a. ar_action_id a \<notin> ar_action_id ` set ?as) ?as = []" by (intro admitted_actions) simp
      with 2 show ?thesis by simp
    qed
  qed
  have cap: "length ?as \<le> MAX_ACTION_RECORDS"
    using all_countedD [OF assms(1), of WActions] assms(2) by (simp add: counted_def Let_def)
  have small: "length ?new \<le> 1" "ev \<noteq> None \<Longrightarrow> length ?new = 1" "length ys \<le> MAX_ACTION_RECORDS"
    "int (length ys) = int (length xs) - int_of_bool (ev \<noteq> None)"
    using adm b new cap by (auto simp: int_of_bool_def split: option.splits)
  let ?u = "v\<lparr>bs_action_records := ys\<rparr>"
  have "\<forall>m. m \<noteq> WActions \<longrightarrow> retained m ?u = retained m v"
  proof (intro allI impI)
    fix m assume "m \<noteq> WActions" then show "retained m ?u = retained m v" by (cases m) simp_all
  qed
  then have "\<exists>c. (if length ?new \<noteq> 0 then admit WActions (int (length ?new)) (int_of_bool (ev \<noteq> None)) ?u else Inr ?u) =
      Inr (recount ?u c) \<and> all_counted (recount ?u c)"
    using small new assms(2)
    by (intro maybe_admit_counted [OF assms(1)]) (auto simp: int_of_bool_def split: if_splits)
  then obtain c where c: "(if length ?new \<noteq> 0 then admit WActions (int (length ?new)) (int_of_bool (ev \<noteq> None)) ?u else Inr ?u) =
      Inr (recount ?u c)" "all_counted (recount ?u c)" by blast
  have stage: "action_stage s e t v = rbind (case ev of
        None \<Rightarrow> Inr (recount ?u c)
      | Some aid \<Rightarrow> if length (drop_energy s aid) \<noteq> length ?es
          then admit WEnergies 0 1 ((recount ?u c)\<lparr>bs_energy_records := drop_energy s aid\<rparr>) else Inr (recount ?u c))
      (\<lambda>v. Inr (v, g))"
    unfolding action_stage_def assms(5,6) rbind_simps prod.case Let_def c(1) ..
  show ?thesis
  proof (cases ev)
    case None
    have "recount ?u c = recount (v\<lparr>bs_action_records := ys, bs_energy_records := ?es\<rparr>) c"
      using assms(3) by (simp add: recount_def)
    with None c(2) stage show ?thesis by (intro exI [of _ c] exI [of _ ?es]) simp
  next
    case (Some aid)
    let ?drop = "length (drop_energy s aid) \<noteq> length ?es"
    let ?w = "(recount ?u c)\<lparr>bs_energy_records := drop_energy s aid\<rparr>"
    have "\<forall>m. m \<noteq> WEnergies \<longrightarrow> retained m ?w = retained m (recount ?u c)"
    proof (intro allI impI)
      fix m assume "m \<noteq> WEnergies" then show "retained m ?w = retained m (recount ?u c)" by (cases m) simp_all
    qed
    then have "\<exists>d. (if ?drop then admit WEnergies 0 (int_of_bool ?drop) ?w else Inr ?w) = Inr (recount ?w d) \<and> all_counted (recount ?w d)"
      using drop_energy_length [OF wf(2), of aid] assms(3) all_countedD [OF c(2), of WEnergies]
      by (intro maybe_admit_counted [OF c(2)]) (auto simp: int_of_bool_def counted_def Let_def)
    then obtain d where d: "(if ?drop then admit WEnergies 0 (int_of_bool ?drop) ?w else Inr ?w) = Inr (recount ?w d)"
      "all_counted (recount ?w d)" by blast
    have same: "\<not> ?drop \<Longrightarrow> drop_energy s aid = ?es"
      by (metis drop_energy_def length_filter_less filter_True less_irrefl)
    have w: "recount ?w d = recount (v\<lparr>bs_action_records := ys, bs_energy_records := drop_energy s aid\<rparr>) d"
      by (simp add: recount_def)
    have "(if ?drop then admit WEnergies 0 1 ?w else Inr (recount ?u c)) = Inr (recount ?w d)"
    proof (cases ?drop)
      case True
      with d(1) show ?thesis by (simp add: int_of_bool_def)
    next
      case False
      then have "?w = recount ?u c" using same assms(3) by (simp add: recount_def)
      moreover have "Inr ?w = (Inr (recount ?w d) :: brain_state res)" using d(1) False by simp
      ultimately show ?thesis using False by simp
    qed
    with Some stage have st: "action_stage s e t v = Inr (recount ?w d, g)" by simp
    have "action_stage s e t v = Inr (recount (v\<lparr>bs_action_records := ys, bs_energy_records := drop_energy s aid\<rparr>) d, g)"
      using st by (simp only: w)
    moreover have "all_counted (recount (v\<lparr>bs_action_records := ys, bs_energy_records := drop_energy s aid\<rparr>) d)"
      using d(2) by (simp only: w)
    ultimately show ?thesis unfolding Some option.case by blast
  qed
qed

section \<open>World\<close>

lemma distinct_ids_iff: "distinct_ids s \<longleftrightarrow> (\<forall>l. distinct (map wp_proposition_id (world_get l (bs_world s)))) \<and>
    distinct (map mr_memory_id (bs_memories s)) \<and> distinct (map tb_branch_id (bs_thought_space s))"
  by (simp add: distinct_ids_def all_world_layer)

lemma reduce_world_distinct:
  assumes "reduce_world w e t g = Inr w'" "\<forall>l. distinct (map wp_proposition_id (world_get l w))"
  shows "\<forall>l. distinct (map wp_proposition_id (world_get l w'))"
proof -
  have "distinct (map wp_proposition_id obs)"
    if "rfold (ground_observation e g) (wm_observed w) items = Inr obs" for items obs
    using that
  proof (rule rfold_invariant [where P = "\<lambda>obs. distinct (map wp_proposition_id obs)"])
    show "distinct (map wp_proposition_id (wm_observed w))" using assms(2) by (metis world_get.simps(1))
  qed (auto dest!: ground_observation_Inr simp: world_store.bput_distinct)
  with reduce_world_cases [OF assms(1)] assms(2) show ?thesis
    by (auto simp: world_store.bput_distinct)
qed

text \<open>
  What one reduction admits to and evicts from a layer are its new and its lost identifiers.
\<close>

lemma world_moves:
  assumes "distinct (map wp_proposition_id ps)" "distinct (map wp_proposition_id qs)"
  defines "both \<equiv> card (wp_proposition_id ` set ps \<inter> wp_proposition_id ` set qs)"
  shows "both \<le> length qs" "both \<le> length ps"
proof -
  have "card (wp_proposition_id ` set ps) = length ps" "card (wp_proposition_id ` set qs) = length qs"
    using assms(1,2) by (metis distinct_card length_map set_map)+
  then show "both \<le> length qs" "both \<le> length ps"
    unfolding both_def by (metis card_mono finite_imageI finite_set inf_le1 inf_le2)+
qed

text \<open>One layer of the world is counted after the other.\<close>

lemma admit_worlds_ok:
  assumes "all_counted u" "bs_working_set v = bs_working_set u"
    and "\<forall>m. m \<notin> WWorld ` set ls \<longrightarrow> retained m v = retained m u"
    and "\<forall>l. distinct (map wp_proposition_id (world_get l (bs_world s))) \<and>
      distinct (map wp_proposition_id (world_get l (bs_world v))) \<and>
      length (world_get l (bs_world v)) \<le> MAX_WORLD_PROPOSITIONS_PER_LAYER"
    and "\<forall>l \<in> set ls. length (world_get l (bs_world u)) = length (world_get l (bs_world s))"
    and "distinct ls"
  shows "\<exists>c. rfold (admit_world s) v ls = Inr (recount v c) \<and> all_counted (recount v c)"
  using assms
proof (induction ls arbitrary: u v)
  case Nil
  then have "all_counted v" by (intro unchanged_counted [OF Nil(1)]) simp_all
  then show ?case by (metis recount_same rfold.simps(1))
next
  case (Cons l ls)
  let ?u = "u\<lparr>bs_world := world_set l (world_get l (bs_world v)) (bs_world u)\<rparr>"
  have ret: "retained m ?u = (if m = WWorld l then length (world_get l (bs_world v)) else retained m u)" for m
    by (cases m) auto
  let ?prev = "world_get l (bs_world s)" and ?cur = "world_get l (bs_world v)"
  let ?both = "card (wp_proposition_id ` set ?prev \<inter> wp_proposition_id ` set ?cur)"
  let ?adm = "int (length ?cur) - int ?both" and ?ev = "int (length ?prev) + (int (length ?cur) - int ?both) - int (length ?cur)"
  have b: "?both \<le> length ?cur" "?both \<le> length ?prev" using Cons.prems(4) by (intro world_moves; simp)+
  have "\<exists>c. (if ?adm \<noteq> 0 \<or> ?ev \<noteq> 0 then admit (WWorld l) ?adm ?ev ?u else Inr ?u) = Inr (recount ?u c) \<and> all_counted (recount ?u c)"
    using Cons.prems(4,5) b by (intro maybe_admit_counted [OF Cons.prems(1)]) (simp_all add: ret)
  then obtain c where c: "(if ?adm \<noteq> 0 \<or> ?ev \<noteq> 0 then admit (WWorld l) ?adm ?ev ?u else Inr ?u) = Inr (recount ?u c)"
    "all_counted (recount ?u c)" by blast
  have step: "admit_world s v l = Inr (recount v c)"
    unfolding admit_world_def Let_def by (rule maybe_transfer [OF c(1)]) (simp add: Cons.prems(2))
  have "\<exists>d. rfold (admit_world s) (recount v c) ls = Inr (recount (recount v c) d) \<and> all_counted (recount (recount v c) d)"
  proof (rule Cons.IH [OF c(2)])
    show "\<forall>m. m \<notin> WWorld ` set ls \<longrightarrow> retained m (recount v c) = retained m (recount ?u c)"
      using Cons.prems(3) ret by auto
    show "\<forall>l \<in> set ls. length (world_get l (bs_world (recount ?u c))) = length (world_get l (bs_world s))"
      using Cons.prems(5,6) by auto
    show "bs_working_set (recount v c) = bs_working_set (recount ?u c)"
      using Cons.prems(2) by (simp add: recount_def)
  qed (use Cons.prems(4,6) in auto)
  with step show ?case by auto
qed

lemma world_stage_ok:
  assumes "all_counted v" "bs_world v = bs_world s" "distinct_ids s" "reduce_world (bs_world s) e t g = Inr w" "valid_world w"
  shows "\<exists>c. world_stage s e t g v = Inr (recount (v\<lparr>bs_world := w\<rparr>) c) \<and> all_counted (recount (v\<lparr>bs_world := w\<rparr>) c)"
proof -
  have l: "l \<in> set [Observed, Believed, Simulated, Ideal]" for l by (cases l) simp_all
  have "\<forall>m. m \<notin> WWorld ` set [Observed, Believed, Simulated, Ideal] \<longrightarrow> retained m (v\<lparr>bs_world := w\<rparr>) = retained m v"
  proof (intro allI impI)
    fix m assume "m \<notin> WWorld ` set [Observed, Believed, Simulated, Ideal]"
    with l show "retained m (v\<lparr>bs_world := w\<rparr>) = retained m v" by (cases m) (auto simp del: list.set)
  qed
  moreover have "distinct (map wp_proposition_id (world_get l (bs_world s))) \<and>
      distinct (map wp_proposition_id (world_get l w)) \<and> length (world_get l w) \<le> MAX_WORLD_PROPOSITIONS_PER_LAYER" for l
    using reduce_world_distinct [OF assms(4)] assms(3,5) by (simp add: distinct_ids_iff valid_world_iff valid_layer_def)
  ultimately have "\<exists>c. rfold (admit_world s) (v\<lparr>bs_world := w\<rparr>) [Observed, Believed, Simulated, Ideal] =
      Inr (recount (v\<lparr>bs_world := w\<rparr>) c) \<and> all_counted (recount (v\<lparr>bs_world := w\<rparr>) c)"
    using assms(2) by (intro admit_worlds_ok [OF assms(1)]) simp_all
  with assms(4) show ?thesis by (simp add: world_stage_def)
qed

end
