(* ===== verification/Typed.thy ===== *)
theory Typed imports Successor
begin

text \<open>
  The last stages of \<open>Reducer\<close>, workspace, memory and the typed branch, with the same result as in
  \<open>Successor\<close>: they succeed behind their domain checks and keep every part of the invariant.
\<close>

section \<open>Workspace\<close>

lemma reduce_workspace_Inr: "reduce_workspace s e = Inr w \<Longrightarrow> valid_workspace (bs_workspace s) \<Longrightarrow> valid_workspace w"
  by (auto simp: reduce_workspace_def rbind_eq_Inr Let_def split: if_splits json.splits)

lemma reduce_workspace_Inl:
  assumes "reduce_workspace s e = Inl err" "valid_workspace (bs_workspace s)"
  shows "is_domain_error err"
proof -
  let ?w = "bs_workspace s"
  have cap: "1 \<le> ws_capacity ?w" "ws_capacity ?w \<le> MAX_WORKSPACE_BROADCAST" "0 \<le> ws_cycle ?w"
    using assms(2) by (simp_all add: valid_workspace_def)
  have bids: "rmap workspace_candidate raw = Inl u \<Longrightarrow> is_domain_error u" for raw u
    by (induction raw) (auto simp: rbind_eq_Inl dest: workspace_candidate_Inl)
  have valid: "list_all valid_candidate cs" if "rmap workspace_candidate raw = Inr cs" for raw cs
    using rmap_set [OF that] by (auto simp: list_all_iff intro: workspace_candidate_valid)
  have choose: "choose_broadcast cs (ws_capacity ?w) \<noteq> Inl u" for cs u
    using cap by (simp add: choose_broadcast_def)
  have "valid_workspace \<lparr>ws_capacity = ws_capacity ?w, ws_cycle = ws_cycle ?w + 1, ws_broadcast = cs\<rparr>"
    if "rmap workspace_candidate raw = Inr cs" "choose_broadcast cs (ws_capacity ?w) = Inr cs" for raw cs
    using choose_broadcast_shape [OF that(2)] valid [OF that(1)] cap by (simp add: valid_workspace_def)
  with assms(1) show ?thesis
    by (auto simp: reduce_workspace_def rbind_eq_Inl Let_def choose split: if_splits json.splits dest: bids)
qed

section \<open>Memory\<close>

interpretation memory_store: bounded_collection mr_memory_id "put_last mr_memory_id" MAX_MEMORY_RECORDS
  "\<lambda>ms m. last_n MAX_MEMORY_RECORDS (put_last mr_memory_id ms m)"
  by (rule put_last_bounded) simp_all

interpretation thought_store: bounded_collection tb_branch_id "put_last tb_branch_id" MAX_THOUGHT_BRANCHES
  "\<lambda>bs b. last_n MAX_THOUGHT_BRANCHES (put_last tb_branch_id bs b)"
  by (rule put_last_bounded) simp_all

text \<open>
  Replacing a record in a full collection evicts what no longer fits: the counters of the code.
\<close>

lemma put_counts:
  fixes x :: "'r"
  assumes "distinct (map key xs)" "length xs \<le> cap"
  defines "ys \<equiv> last_n cap (put_last key xs x)"
    and "adm \<equiv> int_of_bool (list_all (\<lambda>i. key i \<noteq> key x) xs)"
  shows "int (length ys) = int (length xs) + adm - max 0 (int (length xs) + adm - int (length ys))"
    "0 \<le> adm" "length ys \<le> cap"
proof -
  have "int (length (put_last key xs x)) = int (length xs) + adm"
    using put_last_length [OF assms(1), of x]
    by (cases "key x \<in> key ` set xs") (auto simp: adm_def int_of_bool_def list_all_iff intro: rev_image_eqI)
  moreover have "length ys \<le> length (put_last key xs x)" by (simp add: ys_def)
  ultimately show "int (length ys) = int (length xs) + adm - max 0 (int (length xs) + adm - int (length ys))" by simp
qed (simp_all add: adm_def int_of_bool_def ys_def)

lemma memory_of_payload_Inr:
  "memory_of_payload p = Inr m \<Longrightarrow> valid_memory m \<and> jget p ''memory_id'' = JStr (mr_memory_id m)"
  by (auto simp: memory_of_payload_def rbind_eq_Inr of_option_eq_Inr Let_def jitem_def jget_def jget_or_def as_str_Some split: if_splits)

lemma reduce_memory_Inr:
  assumes "reduce_memory s e = Inr ms"
  shows "ms = bs_memories s \<and> ev_event_type e \<noteq> ''memory.recorded'' \<or>
    (\<exists>m. ev_event_type e = ''memory.recorded'' \<and> valid_memory m \<and>
      jget (ev_payload e) ''memory_id'' = JStr (mr_memory_id m) \<and>
      ms = last_n MAX_MEMORY_RECORDS (put_last mr_memory_id (bs_memories s) m))"
  using assms
  by (auto simp: reduce_memory_def rbind_eq_Inr rewrap_eq_Inr put_last_def dest: memory_of_payload_Inr split: if_splits)

lemma reduce_memory_Inl: "reduce_memory s e = Inl err \<Longrightarrow> is_domain_error err"
  by (auto simp: reduce_memory_def rbind_eq_Inl rewrap_eq_Inl split: if_splits)

lemma memory_stage_ok:
  assumes "all_counted v" "bs_memories v = bs_memories s" "distinct (map mr_memory_id (bs_memories s))"
    and "reduce_memory s e = Inr ms"
  shows "\<exists>c. memory_stage s e v = Inr (recount (v\<lparr>bs_memories := ms\<rparr>) c) \<and>
    all_counted (recount (v\<lparr>bs_memories := ms\<rparr>) c)"
  using reduce_memory_Inr [OF assms(4)]
proof (elim disjE exE conjE)
  assume ms: "ms = bs_memories s" "ev_event_type e \<noteq> ''memory.recorded''"
  have "v\<lparr>bs_memories := ms\<rparr> = recount v (wk_counter (bs_working_set v))"
    using ms(1) assms(2) by (simp add: recount_def)
  with ms assms(1,4) show ?thesis
    by (intro exI [of _ "wk_counter (bs_working_set v)"]) (simp add: memory_stage_def)
next
  fix m assume t: "ev_event_type e = ''memory.recorded''" and mid: "jget (ev_payload e) ''memory_id'' = JStr (mr_memory_id m)"
    and ms: "ms = last_n MAX_MEMORY_RECORDS (put_last mr_memory_id (bs_memories s) m)"
  have len: "length (bs_memories s) \<le> MAX_MEMORY_RECORDS"
    using all_countedD [OF assms(1), of WMemories] assms(2) by (simp add: counted_def Let_def)
  let ?adm = "int_of_bool (list_all (\<lambda>i. mr_memory_id i \<noteq> mr_memory_id m) (bs_memories s))"
  let ?ev = "max 0 (int (length (bs_memories s)) + ?adm - int (length ms))"
  note pc = put_counts [OF assms(3) len, of m, folded ms]
  have "\<forall>k. k \<noteq> WMemories \<longrightarrow> retained k (v\<lparr>bs_memories := ms\<rparr>) = retained k v"
  proof (intro allI impI)
    fix k assume "k \<noteq> WMemories" then show "retained k (v\<lparr>bs_memories := ms\<rparr>) = retained k v" by (cases k) simp_all
  qed
  then have "\<exists>c. admit WMemories ?adm ?ev (v\<lparr>bs_memories := ms\<rparr>) = Inr (recount (v\<lparr>bs_memories := ms\<rparr>) c) \<and>
      all_counted (recount (v\<lparr>bs_memories := ms\<rparr>) c)"
    using pc assms(2) by (intro admit_counted [OF assms(1)]) (simp_all only: retained.simps brain_state.simps capacity.simps, simp_all)
  with t mid assms(4) show ?thesis by (simp add: memory_stage_def Let_def)
qed

lemma reduce_memory_keeps:
  assumes "reduce_memory s e = Inr ms" "list_all valid_memory (bs_memories s)" "distinct (map mr_memory_id (bs_memories s))"
  shows "list_all valid_memory ms \<and> distinct (map mr_memory_id ms)"
  using reduce_memory_Inr [OF assms(1)] assms(2,3) memory_store.bput_pred [of valid_memory]
    memory_store.bput_distinct
  by auto

section \<open>The typed branch\<close>

text \<open>What the collection stages leave for the typed branch.\<close>

definition prepared :: "brain_state \<Rightarrow> event_envelope \<Rightarrow> brain_state \<Rightarrow> bool" where
  "prepared s e v = (consistent v \<and> clocks_ok v \<and> bs_name v = bs_name s \<and> bs_logical_clock v = bs_logical_clock s \<and>
     bs_runtime v = bs_runtime s \<and> bs_cognition v = bs_cognition s \<and> bs_thought_space v = bs_thought_space s \<and>
     (ev_event_type e \<noteq> ''action.proposed'' \<longrightarrow> bs_energy_records v = bs_energy_records s \<and>
        ar_action_id ` set (bs_action_records s) \<subseteq> ar_action_id ` set (bs_action_records v)) \<and>
     (ev_event_type e \<noteq> ''personality.revised'' \<longrightarrow> bs_personality v = bs_personality s) \<and>
     (if ev_event_type e = ''identity.named''
      then id_name (bs_identity v) = as_str (jget (ev_payload e) ''name'')
      else id_name (bs_identity v) = bs_name s))"

text \<open>The only names the domain checks let through and the model refuses.\<close>

definition name_fits :: "event_envelope \<Rightarrow> bool" where
  "name_fits e = (case jget (ev_payload e) ''name'' of JStr n \<Rightarrow> length n \<le> 160 | _ \<Rightarrow> True)"

lemma valid_identity_rename:
  "valid_identity i \<Longrightarrow> (case n of None \<Rightarrow> True | Some m \<Rightarrow> \<not> blank m \<and> length m \<le> 160) \<Longrightarrow> valid_identity (i\<lparr>id_name := n\<rparr>)"
  by (auto simp: valid_identity_def self_boundary_def valid_name_def split: option.splits)

lemma name_stage_ok:
  assumes "name_stage e v = Inr v'" "prepared s e v" "name_fits e"
    and "ev_event_type e = ''brain.created'' \<or> ev_event_type e = ''identity.named''"
  shows "brain_ok v'"
proof -
  obtain n where n: "as_opt_str (jget (ev_payload e) ''name'') = Some n" "case n of None \<Rightarrow> True | Some m \<Rightarrow> \<not> blank m"
    and v': "v' = v\<lparr>bs_name := n, bs_identity := (if ev_event_type e = ''brain.created'' \<and> id_name (bs_identity v) \<noteq> n
           then (bs_identity v)\<lparr>id_name := n\<rparr> else bs_identity v)\<rparr>"
    using assms(1) by (auto simp: name_stage_def split: option.splits if_splits)
  have len: "case n of None \<Rightarrow> True | Some m \<Rightarrow> length m \<le> 160"
    using n(1) assms(3) by (auto simp: name_fits_def opt_str_json opt_json_def split: option.splits)
  have named: "ev_event_type e = ''identity.named'' \<Longrightarrow> id_name (bs_identity v) = n"
    using assms(2) n(1) by (auto simp: prepared_def opt_str_json opt_json_def split: option.splits)
  let ?i = "bs_identity v'"
  have i: "?i = bs_identity v \<or> ?i = (bs_identity v)\<lparr>id_name := n\<rparr>" "id_name ?i = n"
    using v' named assms(4) by auto
  have v: "consistent v" "clocks_ok v" using assms(2) by (simp_all add: prepared_def)
  then have "identity_ok v" by (simp add: consistent_def)
  with i(1) n(2) len have "identity_ok v'"
    using valid_identity_rename [of "bs_identity v" n] v'
    by (auto simp: identity_ok_def split: option.splits)
  moreover have "all_counted v'"
  proof (rule unchanged_counted [of v])
    show "all_counted v" using v(1) by (simp add: consistent_def)
    show "\<forall>m. retained m v' = retained m v"
    proof
      fix m show "retained m v' = retained m v" using v' by (cases m) simp_all
    qed
  qed (simp add: v')
  ultimately have "consistent v'"
    using v(1) n(2) v' by (auto simp: consistent_def actions_ok_def events_counted_def distinct_ids_def)
  moreover have "clocks_ok v'" using v(2) v' by (simp add: clocks_ok_def)
  ultimately show ?thesis using i(2) v' by (simp add: brain_ok_def names_ok_def)
qed

lemma name_stage_Inl: "name_stage e v = Inl err \<Longrightarrow> is_domain_error err"
  by (auto simp: name_stage_def split: option.splits if_splits)

lemma number_float:
  "json_number v = Some x \<Longrightarrow> py_float v = Some q \<Longrightarrow> frozen v \<Longrightarrow> is_f64 q \<and> (0 \<le> x \<longrightarrow> 0 \<le> q)"
  by (cases v) (auto simp: float_of_int_def rnd64_f64 intro: f64_le_rnd [of 0])

lemma rnd64_grows: "is_f64 c \<Longrightarrow> 0 \<le> d \<Longrightarrow> rnd64 (c + d) = Some c' \<Longrightarrow> is_f64 c' \<and> c \<le> c'"
  using f64_le_rnd [of c "c + d" c'] by (simp add: rnd64_f64)

text \<open>A tick moves the clock forward, and the clocks of the three buckets with it.\<close>

lemma clock_step:
  assumes "consistent v" "clocks_ok v" "bs_runtime v = bs_runtime s" "bs_personality v = bs_personality s"
    "bs_logical_clock v = bs_logical_clock s" "is_f64 elapsed" "0 \<le> elapsed"
    "rnd64 (bs_logical_clock s + elapsed) = Some clock"
  defines "r \<equiv> (bs_runtime s)\<lparr>rt_tick_count := rt_tick_count (bs_runtime s) + 1, rt_last_elapsed_seconds := elapsed\<rparr>"
  shows "valid_runtime r \<and> (\<exists>p. advance_personality_clock (bs_personality s) clock = Inr p \<and>
    consistent (v\<lparr>bs_logical_clock := clock, bs_personality := p, bs_runtime := r\<rparr>) \<and>
    clocks_ok (v\<lparr>bs_logical_clock := clock, bs_personality := p, bs_runtime := r\<rparr>))"
proof -
  have v: "valid_personality (bs_personality s)" "is_f64 (bs_logical_clock s)" "valid_runtime (bs_runtime s)"
    "\<forall>l. lr_logical_clock (rate_get l (pc_rate_state (bs_personality s))) = bs_logical_clock s" "0 \<le> bs_logical_clock s"
    using assms(1-5) by (auto simp: consistent_def clocks_ok_def all_pc_layers)
  have c: "is_f64 clock" "bs_logical_clock s \<le> clock" using rnd64_grows [OF v(2) assms(7,8)] by simp_all
  have r: "valid_runtime r" using v(3) assms(6,7) by (simp add: valid_runtime_def r_def)
  obtain st where st: "advance_personality_clock (bs_personality s) clock = Inr (bs_personality s\<lparr>pc_rate_state := st\<rparr>)"
    "valid_personality (bs_personality s\<lparr>pc_rate_state := st\<rparr>)" "\<forall>l. lr_logical_clock (rate_get l st) = clock"
    using advance_personality_clock_ok [OF v(1) c(1)] v(4) c(2) by auto
  let ?p = "bs_personality s\<lparr>pc_rate_state := st\<rparr>"
  let ?v = "v\<lparr>bs_logical_clock := clock, bs_personality := ?p, bs_runtime := r\<rparr>"
  have get: "pc_get l ?p = pc_get l (bs_personality s)" for l by (cases l) simp_all
  have "all_counted ?v"
  proof (rule unchanged_counted [of v])
    show "\<forall>m. retained m ?v = retained m v"
    proof
      fix m show "retained m ?v = retained m v" using assms(4) by (cases m) (simp_all add: get)
    qed
  qed (use assms(1) in \<open>simp_all add: consistent_def\<close>)
  then have "consistent ?v"
    using assms(1) st(2) c v(5) r
    by (simp add: consistent_def identity_ok_def actions_ok_def events_counted_def distinct_ids_def)
  moreover have "clocks_ok ?v" using st(3) by (simp add: clocks_ok_def all_pc_layers)
  ultimately show ?thesis using r st(1) by blast
qed

lemma clock_stage_succeeds:
  assumes "prepared s e v" "ev_event_type e = ''clock.tick''"
    and "jget (ev_payload e) ''elapsed_seconds'' = JFloat elapsed" "is_f64 elapsed" "0 \<le> elapsed"
    and "rnd64 (bs_logical_clock s + elapsed) = Some clock"
  shows "\<exists>p v'. clock_stage s e v = Inr v' \<and> brain_ok v' \<and> bs_logical_clock v' = clock \<and>
    advance_personality_clock (bs_personality s) clock = Inr p \<and>
    v' = v\<lparr>bs_logical_clock := clock, bs_personality := p, bs_runtime := bs_runtime v'\<rparr>"
proof -
  have v: "consistent v" "clocks_ok v" "bs_runtime v = bs_runtime s" "bs_personality v = bs_personality s"
    "bs_logical_clock v = bs_logical_clock s" "id_name (bs_identity v) = bs_name s" "bs_name v = bs_name s"
    using assms(1,2) by (simp_all add: prepared_def)
  note st = clock_step [OF v(1-5) assms(4,5,6)]
  from st obtain p where p: "advance_personality_clock (bs_personality s) clock = Inr p" by blast
  let ?v = "v\<lparr>bs_logical_clock := clock, bs_personality := p, bs_runtime := (bs_runtime s)
    \<lparr>rt_tick_count := rt_tick_count (bs_runtime s) + 1, rt_last_elapsed_seconds := elapsed\<rparr>\<rparr>"
  have "brain_ok ?v" using st p v(6,7) by (simp add: brain_ok_def names_ok_def)
  moreover have "clock_stage s e v = Inr ?v"
    using assms(3,5,6) p st by (simp add: clock_stage_def Let_def)
  ultimately show ?thesis using p by (intro exI [of _ p] exI [of _ ?v]) simp
qed

lemma clock_stage_ok:
  assumes "prepared s e v" "valid_event e" "ev_event_type e = ''clock.tick''"
  shows "case clock_stage s e v of
      Inr v' \<Rightarrow> brain_ok v' \<and> bs_logical_clock s \<le> bs_logical_clock v'
    | Inl err \<Rightarrow> is_domain_error err \<or> err = PyOverflowError \<and> (\<exists>n. jget (ev_payload e) ''elapsed_seconds'' = JInt n \<and> rnd64 (of_int n) = None)"
proof (cases "json_number (jget (ev_payload e) ''elapsed_seconds'')")
  case None
  then show ?thesis by (simp add: clock_stage_def clock_error_def)
next
  case (Some exact)
  let ?raw = "jget (ev_payload e) ''elapsed_seconds''"
  show ?thesis
  proof (cases "py_float ?raw")
    case None
    with Some have "\<exists>n. ?raw = JInt n \<and> rnd64 (of_int n) = None"
      by (cases ?raw) (auto simp: float_of_int_def)
    with Some None show ?thesis by (simp add: clock_stage_def)
  next
    case e: (Some elapsed)
    show ?thesis
    proof (cases "0 \<le> exact \<and> rnd64 (bs_logical_clock s + elapsed) \<noteq> None")
      case False
      with Some e show ?thesis by (auto simp: clock_stage_def clock_error_def)
    next
      case True
      then obtain clock where c: "rnd64 (bs_logical_clock s + elapsed) = Some clock" by blast
      have q: "is_f64 elapsed" "0 \<le> elapsed"
        using number_float [OF Some e] True valid_event_payload_get [OF assms(2)] by blast+
      have v: "consistent v" "clocks_ok v" "bs_runtime v = bs_runtime s" "bs_personality v = bs_personality s"
        "bs_logical_clock v = bs_logical_clock s" "id_name (bs_identity v) = bs_name s" "bs_name v = bs_name s"
        using assms(1,3) by (simp_all add: prepared_def)
      note st = clock_step [OF v(1-5) q c]
      from st obtain p where p: "advance_personality_clock (bs_personality s) clock = Inr p" by blast
      let ?v = "v\<lparr>bs_logical_clock := clock, bs_personality := p, bs_runtime := (bs_runtime s)
        \<lparr>rt_tick_count := rt_tick_count (bs_runtime s) + 1, rt_last_elapsed_seconds := elapsed\<rparr>\<rparr>"
      have "brain_ok ?v" using st p v(6,7) by (simp add: brain_ok_def names_ok_def)
      moreover have "bs_logical_clock s \<le> clock"
        using rnd64_grows [OF _ q(2) c] v(1,5) by (simp add: consistent_def)
      moreover have "clock_stage s e v = Inr ?v"
        using Some e True c p st by (simp add: clock_stage_def Let_def)
      ultimately show ?thesis by simp
    qed
  qed
qed

section \<open>Capabilities, gaps and health\<close>

lemma capabilities_stage_ok:
  assumes "prepared s e v" "valid_event e" "ev_event_type e = ''capabilities.reported''"
  shows "case capabilities_stage e v of Inr v' \<Rightarrow> brain_ok v' | Inl err \<Rightarrow> is_domain_error err"
proof (cases "\<exists>m. jget (ev_payload e) ''capabilities'' = JObj m \<and> length m \<le> MAX_CAPABILITIES")
  case True
  then obtain m where m: "jget (ev_payload e) ''capabilities'' = JObj m" "length m \<le> MAX_CAPABILITIES" by blast
  have fm: "frozen (JObj m)" using valid_event_payload_get [OF assms(2), of "''capabilities''"] m(1) by simp
  let ?v = "v\<lparr>bs_capabilities := m,
         bs_working_set := (bs_working_set v)\<lparr>wk_counter := (wk_counter (bs_working_set v))
           (WCapabilities := \<lparr>ct_total = int (length m), ct_evicted = 0\<rparr>)\<rparr>\<rparr>"
  have v: "consistent v" "clocks_ok v" "id_name (bs_identity v) = bs_name v"
    using assms(1,3) by (simp_all add: prepared_def)
  have "counted n ?v \<and> valid_counter (wk_counter (bs_working_set ?v) n)" for n
  proof (cases "n = WCapabilities")
    case True with m(2) show ?thesis by (simp add: counted_def valid_counter_def)
  next
    case False
    then have "retained n ?v = retained n v" by (cases n) simp_all
    with False v(1) all_countedD [of v n] show ?thesis by (simp add: consistent_def counted_def)
  qed
  then have "all_counted ?v" by (simp add: all_counted_iff)
  with v fm have "brain_ok ?v"
    by (simp add: brain_ok_def consistent_def identity_ok_def actions_ok_def events_counted_def distinct_ids_def
        names_ok_def clocks_ok_def)
  with m show ?thesis by (simp add: capabilities_stage_def)
qed (auto simp: capabilities_stage_def split: json.splits)

lemma runtime_update_ok:
  assumes "consistent v" "clocks_ok v" "names_ok v" "valid_runtime r"
  shows "brain_ok (v\<lparr>bs_runtime := r\<rparr>)"
proof -
  have "retained m (v\<lparr>bs_runtime := r\<rparr>) = retained m v" for m by (cases m) simp_all
  then have "all_counted (v\<lparr>bs_runtime := r\<rparr>)"
    using assms(1) unchanged_counted [of v "v\<lparr>bs_runtime := r\<rparr>"] by (simp add: consistent_def)
  with assms show ?thesis
    by (simp add: brain_ok_def consistent_def identity_ok_def actions_ok_def events_counted_def distinct_ids_def
        names_ok_def clocks_ok_def)
qed

lemma gap_ok:
  assumes "consistent v" "clocks_ok v" "names_ok v"
  shows "brain_ok (v\<lparr>bs_trace_complete := b\<rparr>)"
proof -
  have "retained m (v\<lparr>bs_trace_complete := b\<rparr>) = retained m v" for m by (cases m) simp_all
  then have "all_counted (v\<lparr>bs_trace_complete := b\<rparr>)"
    using assms(1) unchanged_counted [of v "v\<lparr>bs_trace_complete := b\<rparr>"] by (simp add: consistent_def)
  with assms show ?thesis
    by (simp add: brain_ok_def consistent_def identity_ok_def actions_ok_def events_counted_def distinct_ids_def
        names_ok_def clocks_ok_def)
qed

lemma prepared_names: "prepared s e v \<Longrightarrow> ev_event_type e \<noteq> ''identity.named'' \<Longrightarrow> names_ok v"
  by (simp add: prepared_def names_ok_def)

lemma runtime_failure_of_Inr: "runtime_failure_of e = Inr f \<Longrightarrow> valid_failure f"
  by (auto simp: runtime_failure_of_def rewrap_eq_Inr rbind_eq_Inr Let_def split: if_splits)

lemma runtime_failure_of_Inl: "runtime_failure_of e = Inl err \<Longrightarrow> is_domain_error err"
  by (auto simp: runtime_failure_of_def rewrap_eq_Inl)

lemma failure_stage_ok:
  assumes "prepared s e v" "ev_event_type e = ''runtime.failure''"
  shows "case failure_stage s e v of Inr v' \<Rightarrow> brain_ok v' | Inl err \<Rightarrow> is_domain_error err"
proof (cases "runtime_failure_of e")
  case (Inl err)
  with runtime_failure_of_Inl [OF Inl] show ?thesis by (simp add: failure_stage_def)
next
  case (Inr f)
  let ?r = "(bs_runtime s)\<lparr>rt_health := Degraded, rt_failure_count := rt_failure_count (bs_runtime s) + 1,
       rt_consecutive_failures := rt_consecutive_failures (bs_runtime s) + 1, rt_last_failure := Some f\<rparr>"
  have v: "consistent v" "clocks_ok v" "names_ok v" "valid_runtime (bs_runtime s)"
    using assms prepared_names [of s e v] by (auto simp: prepared_def consistent_def)
  then have "valid_runtime ?r" using runtime_failure_of_Inr [OF Inr] by (simp add: valid_runtime_def)
  with Inr runtime_update_ok [OF v(1-3) this] show ?thesis by (simp add: failure_stage_def Let_def)
qed

lemma recovered_stage_ok:
  assumes "prepared s e v" "ev_event_type e = ''runtime.recovered''"
  shows "\<exists>v'. recovered_stage s v = Inr v' \<and> brain_ok v'"
proof -
  let ?r = "(bs_runtime s)\<lparr>rt_health := Healthy, rt_consecutive_failures := 0\<rparr>"
  have v: "consistent v" "clocks_ok v" "names_ok v" "valid_runtime (bs_runtime s)"
    using assms prepared_names [of s e v] by (auto simp: prepared_def consistent_def)
  then have "valid_runtime ?r" by (simp add: valid_runtime_def)
  with runtime_update_ok [OF v(1-3) this] show ?thesis by (simp add: recovered_stage_def Let_def)
qed

section \<open>Energy\<close>

lemma energies_update_ok:
  assumes "consistent v" "clocks_ok v" "names_ok v" "all_counted (recount (v\<lparr>bs_energy_records := es\<rparr>) c)"
    and "list_all valid_energy es" "distinct (map en_action_id es)"
    and "en_action_id ` set es \<subseteq> ar_action_id ` set (bs_action_records v)"
  shows "brain_ok (recount (v\<lparr>bs_energy_records := es\<rparr>) c)"
proof -
  have "actions_ok (recount (v\<lparr>bs_energy_records := es\<rparr>) c)"
    using assms(1,5-7) by (auto simp: actions_ok_def consistent_def list_all_iff)
  with assms(1-4) show ?thesis
    by (simp add: brain_ok_def consistent_def identity_ok_def events_counted_def distinct_ids_def
        names_ok_def clocks_ok_def)
qed

lemma int_of_bool_nonneg: "0 \<le> int_of_bool b"
  by (simp add: int_of_bool_def)

lemma energies_counted:
  assumes "consistent v" "int (length es) = int (length (bs_energy_records v)) + adm - ev" "length es \<le> MAX_ENERGY_RECORDS"
    "0 \<le> adm" "0 \<le> ev"
  shows "\<exists>c. admit WEnergies adm ev (v\<lparr>bs_energy_records := es\<rparr>) = Inr (recount (v\<lparr>bs_energy_records := es\<rparr>) c) \<and>
    all_counted (recount (v\<lparr>bs_energy_records := es\<rparr>) c)"
proof -
  have "\<forall>m. m \<noteq> WEnergies \<longrightarrow> retained m (v\<lparr>bs_energy_records := es\<rparr>) = retained m v"
  proof (intro allI impI)
    fix m assume "m \<noteq> WEnergies"
    then show "retained m (v\<lparr>bs_energy_records := es\<rparr>) = retained m v" by (cases m) simp_all
  qed
  with assms show ?thesis by (intro admit_counted [of v]) (simp_all add: consistent_def)
qed

lemma prepared_energies:
  assumes "prepared s e v" "ev_event_type e \<noteq> ''action.proposed''"
  shows "list_all valid_energy (bs_energy_records s) \<and> distinct (map en_action_id (bs_energy_records s)) \<and>
    en_action_id ` set (bs_energy_records s) \<subseteq> ar_action_id ` set (bs_action_records v) \<and>
    length (bs_energy_records s) \<le> MAX_ENERGY_RECORDS"
proof -
  have "bs_energy_records v = bs_energy_records s" "actions_ok v" "all_counted v"
    using assms by (simp_all add: prepared_def consistent_def)
  with all_countedD [of v WEnergies] show ?thesis
    by (auto simp: actions_ok_def list_all_iff counted_def Let_def)
qed

lemma legacy_stage_ok:
  assumes "prepared s e v" "ev_event_type e = ''action.energy_requested''"
  shows "case legacy_stage s e v of Inr v' \<Rightarrow> brain_ok v' | Inl err \<Rightarrow> is_domain_error err"
proof (cases "\<exists>aid. action_id_from_event e = Inr aid \<and> length (drop_energy s aid) \<noteq> length (bs_energy_records s) \<and>
    (\<exists>l. state_energy s aid = Some l \<and> neutral_vector l)")
  case True
  then obtain aid l where aid: "action_id_from_event e = Inr aid" "length (drop_energy s aid) \<noteq> length (bs_energy_records s)"
    "state_energy s aid = Some l" "neutral_vector l" by blast
  have es: "list_all valid_energy (bs_energy_records s)" "distinct (map en_action_id (bs_energy_records s))"
    "en_action_id ` set (bs_energy_records s) \<subseteq> ar_action_id ` set (bs_action_records v)"
    "length (bs_energy_records s) \<le> MAX_ENERGY_RECORDS" "bs_energy_records v = bs_energy_records s"
    using prepared_energies [OF assms(1)] assms by (simp_all add: prepared_def)
  have len: "length (bs_energy_records s) = Suc (length (drop_energy s aid))"
    using drop_energy_length [OF es(2), of aid] aid(2) by simp
  have v: "consistent v" "clocks_ok v" "names_ok v" using assms prepared_names [of s e v] by (simp_all add: prepared_def)
  obtain c where c: "admit WEnergies 0 1 (v\<lparr>bs_energy_records := drop_energy s aid\<rparr>) =
      Inr (recount (v\<lparr>bs_energy_records := drop_energy s aid\<rparr>) c)"
    "all_counted (recount (v\<lparr>bs_energy_records := drop_energy s aid\<rparr>) c)"
    using energies_counted [OF v(1), of "drop_energy s aid" 0 1] len es(4,5) by auto
  have "brain_ok (recount (v\<lparr>bs_energy_records := drop_energy s aid\<rparr>) c)"
    using es(3) by (intro energies_update_ok [OF v c(2)] drop_energy_props es) (auto simp: drop_energy_def)
  with aid c(1) show ?thesis by (simp add: legacy_stage_def)
next
  case False
  then show ?thesis
    by (cases "action_id_from_event e") (auto simp: legacy_stage_def dest: action_id_from_event_Inl split: option.splits)
qed

lemma assessed_stage_succeeds:
  assumes "prepared s e v" "ev_event_type e = ''action.energy_assessed''"
    and aid: "action_id_from_event e = Inr aid" "state_action s aid \<noteq> None" and en: "energy_from_event e = Inr energy"
  shows "\<exists>v'. assessed_stage s e v = Inr v' \<and> brain_ok v'"
proof -
  have key: "en_action_id energy = aid"
    using energy_from_event_id [OF en] aid(1)
    by (auto simp: action_id_from_event_def jget_def jget_or_def split: json.splits if_splits)
  have es: "list_all valid_energy (bs_energy_records s)" "distinct (map en_action_id (bs_energy_records s))"
    "en_action_id ` set (bs_energy_records s) \<subseteq> ar_action_id ` set (bs_action_records v)"
    "length (bs_energy_records s) \<le> MAX_ENERGY_RECORDS" "bs_energy_records v = bs_energy_records s"
    "ar_action_id ` set (bs_action_records s) \<subseteq> ar_action_id ` set (bs_action_records v)"
    using prepared_energies [OF assms(1)] assms by (simp_all add: prepared_def)
  let ?put = "put_last en_action_id (bs_energy_records s) energy"
  let ?es = "last_n MAX_ENERGY_RECORDS ?put" and ?over = "MAX_ENERGY_RECORDS < length ?put"
  let ?adm = "int_of_bool (list_all (\<lambda>i. en_action_id i \<noteq> en_action_id energy) (bs_energy_records s))"
  note pc = put_counts [OF es(2,4), of energy]
  have plen: "int (length ?put) = int (length (bs_energy_records s)) + ?adm"
    using put_last_length [OF es(2), of energy]
    by (cases "en_action_id energy \<in> en_action_id ` set (bs_energy_records s)")
      (auto simp: int_of_bool_def list_all_iff intro: rev_image_eqI)
  have "?adm \<le> 1" by (simp add: int_of_bool_def)
  with plen pc(3) es(4) have len: "int (length ?es) = int (length (bs_energy_records v)) + ?adm - int_of_bool ?over"
    by (simp add: int_of_bool_def es(5))
  have v: "consistent v" "clocks_ok v" "names_ok v" using assms prepared_names [of s e v] by (simp_all add: prepared_def)
  obtain c where c: "admit WEnergies ?adm (int_of_bool ?over) (v\<lparr>bs_energy_records := ?es\<rparr>) =
      Inr (recount (v\<lparr>bs_energy_records := ?es\<rparr>) c)" "all_counted (recount (v\<lparr>bs_energy_records := ?es\<rparr>) c)"
    using energies_counted [OF v(1) len pc(3,2) int_of_bool_nonneg] by blast
  have in_actions: "aid \<in> ar_action_id ` set (bs_action_records v)"
    using aid(2) es(6) by (auto simp: state_action_def lookup_None_iff)
  have "brain_ok (recount (v\<lparr>bs_energy_records := ?es\<rparr>) c)"
  proof (rule energies_update_ok [OF v c(2)])
    show "list_all valid_energy ?es"
      using energy_from_event_valid [OF en] es(1) by (intro list_all_last_n energy_store.put_pred)
    show "distinct (map en_action_id ?es)"
      using es(2) by (simp add: map_last_n distinct_last_n energy_store.put_distinct)
    have "en_action_id ` set ?es \<subseteq> insert aid (en_action_id ` set (bs_energy_records s))"
      using energy_store.put_keys [of "bs_energy_records s" energy] set_last_n [of MAX_ENERGY_RECORDS ?put] key by blast
    with es(3) in_actions show "en_action_id ` set ?es \<subseteq> ar_action_id ` set (bs_action_records v)" by blast
  qed
  moreover have "(if ?over then ?es else ?put) = ?es" by (simp add: last_n_all)
  moreover have "assessed_stage s e v = admit WEnergies ?adm (int_of_bool ?over)
      (v\<lparr>bs_energy_records := (if ?over then ?es else ?put)\<rparr>)"
    using aid en key by (auto simp: assessed_stage_def upsert_energy_put Let_def)
  ultimately have "assessed_stage s e v = Inr (recount (v\<lparr>bs_energy_records := ?es\<rparr>) c)"
    "brain_ok (recount (v\<lparr>bs_energy_records := ?es\<rparr>) c)" using c(1) by simp_all
  then show ?thesis by simp
qed

lemma assessed_stage_ok:
  assumes "prepared s e v" "ev_event_type e = ''action.energy_assessed''"
  shows "case assessed_stage s e v of Inr v' \<Rightarrow> brain_ok v' | Inl err \<Rightarrow> is_domain_error err"
proof (cases "\<exists>aid energy. action_id_from_event e = Inr aid \<and> state_action s aid \<noteq> None \<and> energy_from_event e = Inr energy")
  case True
  then obtain aid energy where "action_id_from_event e = Inr aid" "state_action s aid \<noteq> None" "energy_from_event e = Inr energy" by blast
  from assessed_stage_succeeds [OF assms this] show ?thesis by auto
next
  case False
  then show ?thesis
    by (cases "action_id_from_event e"; cases "energy_from_event e")
      (auto simp: assessed_stage_def dest: action_id_from_event_Inl energy_from_event_Inl)
qed

section \<open>Thought branches\<close>

lemma branches_update_ok:
  assumes "consistent v" "clocks_ok v" "names_ok v" "all_counted (recount (v\<lparr>bs_thought_space := bs\<rparr>) c)"
    and "list_all valid_branch bs" "distinct (map tb_branch_id bs)"
  shows "brain_ok (recount (v\<lparr>bs_thought_space := bs\<rparr>) c)"
  using assms
  by (simp add: brain_ok_def consistent_def identity_ok_def events_counted_def distinct_ids_def
      names_ok_def clocks_ok_def actions_ok_def)

lemma branches_counted:
  assumes "consistent v" "int (length bs) = int (length (bs_thought_space v)) + adm - ev" "length bs \<le> MAX_THOUGHT_BRANCHES"
    "0 \<le> adm" "0 \<le> ev"
  shows "\<exists>c. admit WThoughts adm ev (v\<lparr>bs_thought_space := bs\<rparr>) = Inr (recount (v\<lparr>bs_thought_space := bs\<rparr>) c) \<and>
    all_counted (recount (v\<lparr>bs_thought_space := bs\<rparr>) c)"
proof -
  have "\<forall>m. m \<noteq> WThoughts \<longrightarrow> retained m (v\<lparr>bs_thought_space := bs\<rparr>) = retained m v"
  proof (intro allI impI)
    fix m assume "m \<noteq> WThoughts"
    then show "retained m (v\<lparr>bs_thought_space := bs\<rparr>) = retained m v" by (cases m) simp_all
  qed
  with assms show ?thesis by (intro admit_counted [of v]) (simp_all add: consistent_def)
qed

lemma prepared_thoughts:
  assumes "prepared s e v"
  shows "list_all valid_branch (bs_thought_space s) \<and> distinct (map tb_branch_id (bs_thought_space s)) \<and>
    length (bs_thought_space s) \<le> MAX_THOUGHT_BRANCHES \<and> bs_thought_space v = bs_thought_space s"
proof -
  have c: "consistent v" "bs_thought_space v = bs_thought_space s" using assms by (simp_all add: prepared_def)
  from c(1) have "distinct_ids v" "all_counted v" "list_all valid_branch (bs_thought_space v)"
    by (simp_all add: consistent_def)
  with c(2) all_countedD [of v WThoughts] show ?thesis by (simp add: distinct_ids_iff counted_def Let_def)
qed

lemma mk_branch_Inr [simp]: "mk_branch b = Inr b' \<longleftrightarrow> valid_branch b \<and> b' = b"
  by (auto simp: mk_branch_def)

lemma simulation_branch_Inr: "simulation_branch e = Inr b \<Longrightarrow> valid_branch b"
  by (auto simp: simulation_branch_def rewrap_eq_Inr rbind_eq_Inr Let_def split: json.splits if_splits)

lemma simulation_branch_Inl: "simulation_branch e = Inl err \<Longrightarrow> is_domain_error err"
  by (auto simp: simulation_branch_def rewrap_eq_Inl Let_def split: json.splits if_splits)

lemma simulation_stage_ok:
  assumes "prepared s e v" "ev_event_type e = ''simulation.created''"
  shows "case simulation_stage s e v of Inr v' \<Rightarrow> brain_ok v' | Inl err \<Rightarrow> is_domain_error err"
proof (cases "simulation_branch e")
  case (Inl err)
  with simulation_branch_Inl [OF Inl] show ?thesis by (simp add: simulation_stage_def)
next
  case (Inr b)
  from prepared_thoughts [OF assms(1)] have ts: "list_all valid_branch (bs_thought_space s)"
    "distinct (map tb_branch_id (bs_thought_space s))" "length (bs_thought_space s) \<le> MAX_THOUGHT_BRANCHES"
    "bs_thought_space v = bs_thought_space s" by simp_all
  let ?bs = "last_n MAX_THOUGHT_BRANCHES (put_last tb_branch_id (bs_thought_space s) b)"
  let ?adm = "int_of_bool (list_all (\<lambda>i. tb_branch_id i \<noteq> tb_branch_id b) (bs_thought_space s))"
  let ?ev = "max 0 (int (length (bs_thought_space s)) + ?adm - int (length ?bs))"
  note pc = put_counts [OF ts(2,3), of b]
  have v: "consistent v" "clocks_ok v" "names_ok v" using assms prepared_names [of s e v] by (simp_all add: prepared_def)
  have len: "int (length ?bs) = int (length (bs_thought_space v)) + ?adm - ?ev" using pc(1) ts(4) by simp
  obtain c where c: "admit WThoughts ?adm ?ev (v\<lparr>bs_thought_space := ?bs\<rparr>) = Inr (recount (v\<lparr>bs_thought_space := ?bs\<rparr>) c)"
    "all_counted (recount (v\<lparr>bs_thought_space := ?bs\<rparr>) c)"
    using branches_counted [OF v(1) len pc(3,2)] by fastforce
  have "brain_ok (recount (v\<lparr>bs_thought_space := ?bs\<rparr>) c)"
    using ts(1,2) simulation_branch_Inr [OF Inr]
    by (intro branches_update_ok [OF v c(2)] thought_store.bput_pred thought_store.bput_distinct) simp_all
  moreover have "simulation_stage s e v = admit WThoughts ?adm ?ev (v\<lparr>bs_thought_space := ?bs\<rparr>)"
    using Inr by (simp add: simulation_stage_def Let_def put_last_def)
  ultimately show ?thesis using c(1) by simp
qed

section \<open>Cognition\<close>

text \<open>The dict of the branches: it starts with the old ones and appends the new identifiers.\<close>

lemma dict_put_fresh: "key x \<notin> key ` set ys \<Longrightarrow> dict_put key ys x = ys @ [x]"
  by (induction ys) auto

lemma dict_put_keys: "map key (dict_put key ys x) = (if key x \<in> key ` set ys then map key ys else map key ys @ [key x])"
  by (induction ys) auto

lemma dict_put_set: "set (dict_put key ys x) \<subseteq> insert x (set ys)"
  by (induction ys) auto

lemma dict_fold_set: "set (foldl (dict_put key) ys xs) \<subseteq> set ys \<union> set xs"
  using dict_put_set by (induction xs arbitrary: ys) fastforce+

lemma dict_fold_distinct: "distinct (map key ys) \<Longrightarrow> distinct (map key (foldl (dict_put key) ys xs))"
  by (induction xs arbitrary: ys) (auto simp: dict_put_keys)

lemma dict_fold_id:
  "distinct (map key (ys @ xs)) \<Longrightarrow> foldl (dict_put key) ys xs = ys @ xs"
proof (induction xs arbitrary: ys)
  case (Cons x xs)
  then have "dict_put key ys x = ys @ [x]" by (intro dict_put_fresh) auto
  with Cons show ?case by simp
qed simp

lemma dict_fold_length:
  assumes "distinct (map key xs)" "distinct (map key ys)"
  shows "length (foldl (dict_put key) ys xs) = length ys + length (filter (\<lambda>x. key x \<notin> key ` set ys) xs)"
proof -
  have "map key (foldl (dict_put key) ys xs) = map key ys @ map key (filter (\<lambda>x. key x \<notin> key ` set ys) xs)"
    using assms(1)
  proof (induction xs arbitrary: ys)
    case (Cons x xs)
    have f: "filter (\<lambda>z. key z \<notin> key ` set (dict_put key ys x)) xs = filter (\<lambda>z. key z \<notin> key ` set ys) xs"
    proof (rule filter_cong)
      fix z assume "z \<in> set xs"
      with Cons.prems have "key z \<noteq> key x" by (auto simp: image_iff)
      moreover have "key ` set (dict_put key ys x) = insert (key x) (key ` set ys)"
        using dict_put_keys [of key ys x] by (metis (no_types, lifting) insert_absorb list.set_map list.simps(15)
          rotate1.simps(2) set_rotate1)
      ultimately show "(key z \<notin> key ` set (dict_put key ys x)) = (key z \<notin> key ` set ys)" by simp
    qed simp
    from Cons show ?case by (simp add: f dict_put_keys)
  qed simp
  then have "length (map key (foldl (dict_put key) ys xs)) = length (map key ys @ map key (filter (\<lambda>x. key x \<notin> key ` set ys) xs))"
    by (rule arg_cong)
  then show ?thesis by simp
qed

text \<open>The reflections \<open>CognitionResult\<close> accepts and the thought branches refuse.\<close>

definition reflection_fits :: "event_envelope \<Rightarrow> bool" where
  "reflection_fits e = (case cognition_result_from_payload (ev_payload e) of
     Inr r \<Rightarrow> length (cr_source_ids r) \<le> 256 \<and> list_all (\<lambda>i. \<not> blank i) (cr_source_ids r) \<and>
       str_len 1 64 (cr_algorithm_version r) \<and> str_len 1 64 (cr_config_version r)
   | Inl _ \<Rightarrow> True)"

lemma branches_of_alternatives:
  "rmap (branch_of_alternative r) as = Inr bs \<Longrightarrow> list_all valid_branch bs \<and> map tb_branch_id bs = map ca_branch_id as"
  by (induction as arbitrary: bs) (auto simp: rbind_eq_Inr branch_of_alternative_def)

lemma branches_of_fitting:
  assumes "valid_result r" "length (cr_source_ids r) \<le> 256" "list_all (\<lambda>i. \<not> blank i) (cr_source_ids r)"
    "str_len 1 64 (cr_algorithm_version r)" "str_len 1 64 (cr_config_version r)"
    and "set as \<subseteq> set (cr_alternatives r)"
  shows "\<exists>bs. rmap (branch_of_alternative r) as = Inr bs"
  using assms(6)
proof (induction as)
  case (Cons a as)
  then have "valid_alternative a" using assms(1) by (auto simp: valid_result_def list_all_iff)
  then have "\<exists>b. branch_of_alternative r a = Inr b"
    using assms(1-5)
    by (auto simp: branch_of_alternative_def mk_branch_def valid_branch_def valid_alternative_def valid_result_def
        cognition_stances_def str_len_def)
  with Cons show ?case by fastforce
qed simp

lemma branches_error: "rmap (branch_of_alternative r) as = Inl err \<Longrightarrow> err = ValidationError ''ThoughtBranch''"
  by (induction as) (auto simp: rbind_eq_Inl branch_of_alternative_def mk_branch_def split: if_splits)

text \<open>The first half: the reflection is kept, and a full history evicts its oldest.\<close>

lemma reflection_kept:
  assumes "prepared s e v" "valid_result r" "ev_event_type e = ''cognition.reflected''"
  defines "old \<equiv> cg_reflections (bs_cognition s)"
  defines "v1 \<equiv> v\<lparr>bs_cognition := (bs_cognition s)\<lparr>cg_reflections := last_n MAX_COGNITION_REFLECTIONS (old @ [r])\<rparr>\<rparr>"
  shows "\<exists>c. admit WReflections 1 (int_of_bool (MAX_COGNITION_REFLECTIONS \<le> length old)) v1 = Inr (recount v1 c) \<and>
    consistent (recount v1 c) \<and> clocks_ok (recount v1 c) \<and> names_ok (recount v1 c)"
proof -
  have v: "consistent v" "clocks_ok v" "names_ok v" "bs_cognition v = bs_cognition s"
    using assms(1,3) prepared_names [of s e v] by (simp_all add: prepared_def)
  have old: "valid_cognition (bs_cognition s)" using v(1,4) by (simp add: consistent_def)
  then have len: "length old \<le> MAX_COGNITION_REFLECTIONS" by (simp add: valid_cognition_def old_def)
  have "\<forall>m. m \<noteq> WReflections \<longrightarrow> retained m v1 = retained m v"
  proof (intro allI impI)
    fix m assume "m \<noteq> WReflections" then show "retained m v1 = retained m v" by (cases m) (simp_all add: v1_def)
  qed
  moreover have "int (retained WReflections v1) =
      int (retained WReflections v) + 1 - int_of_bool (MAX_COGNITION_REFLECTIONS \<le> length old)"
    using len by (auto simp: v1_def v(4) old_def int_of_bool_def min_def)
  ultimately obtain c where c: "admit WReflections 1 (int_of_bool (MAX_COGNITION_REFLECTIONS \<le> length old)) v1 = Inr (recount v1 c)"
    "all_counted (recount v1 c)"
    using v(1) admit_counted [of v v1 WReflections 1 "int_of_bool (MAX_COGNITION_REFLECTIONS \<le> length old)"]
      int_of_bool_nonneg
    by (auto simp: consistent_def v1_def)
  have "valid_cognition (bs_cognition v1)"
    using old assms(2) by (auto simp: v1_def valid_cognition_def old_def intro: list_all_last_n)
  with v c(2) have "consistent (recount v1 c)"
    by (simp add: v1_def consistent_def identity_ok_def events_counted_def distinct_ids_def actions_ok_def)
  moreover have "clocks_ok (recount v1 c)" "names_ok (recount v1 c)"
    using v(2,3) by (simp_all add: v1_def clocks_ok_def names_ok_def)
  ultimately show ?thesis using c(1) by blast
qed

lemma thoughts_merged:
  assumes "distinct (map tb_branch_id ts)" "length ts \<le> MAX_THOUGHT_BRANCHES" "distinct (map tb_branch_id bs)"
    "list_all valid_branch ts" "list_all valid_branch bs"
  defines "merged \<equiv> last_n MAX_THOUGHT_BRANCHES (foldl (dict_put tb_branch_id) [] (ts @ bs))"
    and "fresh \<equiv> int (length (filter (\<lambda>b. tb_branch_id b \<notin> tb_branch_id ` set ts) bs))"
  shows "list_all valid_branch merged" "distinct (map tb_branch_id merged)" "length merged \<le> MAX_THOUGHT_BRANCHES"
    "int (length merged) = int (length ts) + fresh - max 0 (int (length ts) + fresh - int (length merged))"
proof -
  have fold: "foldl (dict_put tb_branch_id) [] (ts @ bs) = foldl (dict_put tb_branch_id) ts bs"
    using dict_fold_id [of tb_branch_id "[]" ts] assms(1) by simp
  have "list_all valid_branch (foldl (dict_put tb_branch_id) ts bs)"
    using dict_fold_set [of tb_branch_id ts bs] assms(4,5) by (auto simp: list_all_iff)
  then show "list_all valid_branch merged" unfolding merged_def fold by (rule list_all_last_n)
  show "distinct (map tb_branch_id merged)"
    unfolding merged_def fold by (simp add: map_last_n distinct_last_n dict_fold_distinct assms(1))
  show "length merged \<le> MAX_THOUGHT_BRANCHES" by (simp add: merged_def)
  have "int (length (foldl (dict_put tb_branch_id) ts bs)) = int (length ts) + fresh"
    by (simp add: dict_fold_length [OF assms(3,1)] fresh_def)
  then have "int (length merged) \<le> int (length ts) + fresh" unfolding merged_def fold by simp
  then show "int (length merged) = int (length ts) + fresh - max 0 (int (length ts) + fresh - int (length merged))"
    by simp
qed

lemma cognition_stage_parsed:
  assumes "prepared s e v" "ev_event_type e = ''cognition.reflected''"
    and Inr: "cognition_result_from_payload (ev_payload e) = Inr r"
  shows "case cognition_stage s e v of Inr v' \<Rightarrow> brain_ok v'
    | Inl err \<Rightarrow> \<not> reflection_fits e \<and> err = ValidationError ''ThoughtBranch''"
proof -
  note r = cognition_result_valid [OF Inr]
  then have local: "\<not> (cr_cognition_mode r \<noteq> ''local'' \<or> cr_provider_used r)" "distinct (map ca_branch_id (cr_alternatives r))"
    by (simp_all add: valid_result_def)
  let ?old = "cg_reflections (bs_cognition s)"
  let ?v1 = "v\<lparr>bs_cognition := (bs_cognition s)\<lparr>cg_reflections := last_n MAX_COGNITION_REFLECTIONS (?old @ [r])\<rparr>\<rparr>"
  from reflection_kept [OF assms(1) r assms(2)] obtain c where
    c: "admit WReflections 1 (int_of_bool (MAX_COGNITION_REFLECTIONS \<le> length ?old)) ?v1 = Inr (recount ?v1 c)"
    "consistent (recount ?v1 c)" "clocks_ok (recount ?v1 c)" "names_ok (recount ?v1 c)" by blast
  let ?rest = "\<lambda>branches. let thoughts = bs_thought_space s;
      new_count = int (length (filter (\<lambda>b. tb_branch_id b \<notin> tb_branch_id ` set thoughts) branches));
      bounded = last_n MAX_THOUGHT_BRANCHES (foldl (dict_put tb_branch_id) [] (thoughts @ branches))
    in admit WThoughts new_count (max 0 (int (length thoughts) + new_count - int (length bounded)))
      ((recount ?v1 c)\<lparr>bs_thought_space := bounded\<rparr>)"
  have stage: "cognition_stage s e v = rbind (rmap (branch_of_alternative r) (cr_alternatives r)) ?rest"
    unfolding cognition_stage_def Inr rewrap_simps rbind_simps if_not_P [OF local(1)] Let_def c(1) ..
  show ?thesis
  proof (cases "rmap (branch_of_alternative r) (cr_alternatives r)")
    case (Inl err)
    with branches_of_fitting [OF r, of "cr_alternatives r"] have "\<not> reflection_fits e"
      using \<open>cognition_result_from_payload (ev_payload e) = Inr r\<close> by (auto simp: reflection_fits_def)
    with Inl stage branches_error [OF Inl] show ?thesis by simp
  next
    case (Inr bs)
    from prepared_thoughts [OF assms(1)] have ts: "list_all valid_branch (bs_thought_space s)"
      "distinct (map tb_branch_id (bs_thought_space s))" "length (bs_thought_space s) \<le> MAX_THOUGHT_BRANCHES"
      "bs_thought_space v = bs_thought_space s" by simp_all
    have bs: "list_all valid_branch bs" "distinct (map tb_branch_id bs)"
      using branches_of_alternatives [OF Inr] local(2) by simp_all
    let ?m = "last_n MAX_THOUGHT_BRANCHES (foldl (dict_put tb_branch_id) [] (bs_thought_space s @ bs))"
    let ?new = "int (length (filter (\<lambda>b. tb_branch_id b \<notin> tb_branch_id ` set (bs_thought_space s)) bs))"
    let ?ev = "max 0 (int (length (bs_thought_space s)) + ?new - int (length ?m))"
    note m = thoughts_merged [OF ts(2,3) bs(2) ts(1) bs(1)]
    have len: "int (length ?m) = int (length (bs_thought_space (recount ?v1 c))) + ?new - ?ev"
      using m(4) ts(4) by simp
    obtain d where d: "admit WThoughts ?new ?ev ((recount ?v1 c)\<lparr>bs_thought_space := ?m\<rparr>) =
        Inr (recount ((recount ?v1 c)\<lparr>bs_thought_space := ?m\<rparr>) d)"
      "all_counted (recount ((recount ?v1 c)\<lparr>bs_thought_space := ?m\<rparr>) d)"
      using branches_counted [OF c(2) len m(3)] by fastforce
    have "brain_ok (recount ((recount ?v1 c)\<lparr>bs_thought_space := ?m\<rparr>) d)"
      by (rule branches_update_ok [OF c(2-4) d(2) m(1,2)])
    moreover have "cognition_stage s e v = Inr (recount ((recount ?v1 c)\<lparr>bs_thought_space := ?m\<rparr>) d)"
      unfolding stage Inr rbind_simps Let_def by (rule d(1))
    ultimately show ?thesis by simp
  qed
qed

lemma cognition_stage_ok:
  assumes "prepared s e v" "ev_event_type e = ''cognition.reflected''"
  shows "case cognition_stage s e v of Inr v' \<Rightarrow> brain_ok v'
    | Inl err \<Rightarrow> is_domain_error err \<or> \<not> reflection_fits e \<and> err = ValidationError ''ThoughtBranch''"
proof (cases "cognition_result_from_payload (ev_payload e)")
  case (Inl err)
  then show ?thesis by (simp add: cognition_stage_def)
next
  case (Inr r)
  from cognition_stage_parsed [OF assms this] show ?thesis by (auto split: sum.splits)
qed

end
