(* ===== verification/Replay.thy ===== *)
theory Replay imports Typed
begin

text \<open>
  The reducer as a whole: every stage composed, the invariant \<open>brain_ok\<close> kept by every accepted
  event, the exact list of refusals that are not domain errors, and replay of whole histories.
\<close>

section \<open>The stages composed\<close>

text \<open>A failure of the stages before the typed branch.\<close>

definition early_failure :: "event_envelope \<Rightarrow> py_error \<Rightarrow> bool" where
  "early_failure e err = (is_domain_error err \<or>
     ev_event_type e = ''identity.named'' \<and> \<not> name_fits e \<and> err = ValidationError ''IdentityState'')"

lemma reduce_actions_eviction:
  assumes "reduce_actions xs e t = Inr (ys, g)" "actions_wf xs" "length xs \<le> MAX_ACTION_RECORDS"
    "ev_event_type e \<noteq> ''action.proposed''"
  shows "ar_action_id ` set ys = ar_action_id ` set xs \<and> bound_actions ys = Inr (None, ys)"
proof -
  have "ar_action_id ` set ys = ar_action_id ` set xs \<and> length ys = length xs"
    using reduce_actions_admits [OF assms(1,2)] assms(4) by blast
  with assms(3) show ?thesis by (simp add: bound_actions_def)
qed

lemma identity_stage_Inl: "reduce_identity (bs_identity s) e = Inl err \<Longrightarrow> identity_stage s e v = Inl err"
  by (simp add: identity_stage_def)

lemma personality_stage_Inl:
  "reduce_personality (bs_personality s) e (bs_logical_clock s) = Inl err \<Longrightarrow> personality_stage s e v = Inl err"
  by (simp add: personality_stage_def)

lemma action_stage_Inl:
  "reduce_actions (bs_action_records s) e t = Inl err \<Longrightarrow> action_stage s e t v = Inl err"
  "reduce_actions (bs_action_records s) e t = Inr (xs, g) \<Longrightarrow> bound_actions xs = Inl err \<Longrightarrow> action_stage s e t v = Inl err"
  by (simp_all add: action_stage_def Let_def)

lemma world_stage_Inl: "reduce_world (bs_world s) e t g = Inl err \<Longrightarrow> world_stage s e t g v = Inl err"
  by (simp add: world_stage_def)

lemma memory_stage_Inl: "reduce_memory s e = Inl err \<Longrightarrow> memory_stage s e v = Inl err"
  by (simp add: memory_stage_def)

lemma not_named_fits: "ev_event_type e = ''identity.named'' \<Longrightarrow> jget (ev_payload e) ''name'' = JStr n \<Longrightarrow> 160 < length n \<Longrightarrow> \<not> name_fits e"
  by (simp add: name_fits_def)

text \<open>The parts every stage agrees on, when all of them succeed.\<close>

lemma stages_prepare:
  assumes ok: "brain_ok s" and e: "valid_event e" "event_admitted s e = Inr ()"
    and i: "reduce_identity (bs_identity s) e = Inr i"
    and p: "reduce_personality (bs_personality s) e (bs_logical_clock s) = Inr p"
    and a: "reduce_actions (bs_action_records s) e t = Inr (xs, g)" "bound_actions xs = Inr (evd, ys)"
    and w: "reduce_world (bs_world s) e t g = Inr w"
    and k: "reduce_workspace s e = Inr k" and m: "reduce_memory s e = Inr ms"
    and t: "t = is_authorized (bs_identity s) (ev_actor_id e) (ev_adapter_id e)"
  shows "\<exists>v. prepared s e v \<and> reduce_values s e = typed_stage s e v \<and> bs_world v = w \<and> bs_workspace v = k \<and>
    bs_memories v = ms \<and> bs_action_records v = ys"
proof -
  have s: "consistent s" "names_ok s" "clocks_ok s" using ok by (simp_all add: brain_ok_def)
  then have parts: "identity_ok s" "valid_personality (bs_personality s)" "actions_ok s" "valid_world (bs_world s)"
    "valid_workspace (bs_workspace s)" "distinct_ids s" "all_counted s" "is_f64 (bs_logical_clock s)"
    "list_all valid_memory (bs_memories s)"
    by (simp_all add: consistent_def)
  have wf: "actions_wf (bs_action_records s)" using parts(3) by (simp add: actions_ok_def)
  obtain counts ev c0 where v0: "count_event s e = Inr (recount (counted_event s e counts ev) c0)"
    "all_counted (recount (counted_event s e counts ev) c0)" "events_counted (counted_event s e counts ev)"
    using count_event_ok [OF s(1) e] by blast
  let ?v0 = "recount (counted_event s e counts ev) c0"
  obtain c1 where v1: "identity_stage s e ?v0 = Inr (recount (?v0\<lparr>bs_identity := i\<rparr>) c1)"
    "all_counted (recount (?v0\<lparr>bs_identity := i\<rparr>) c1)"
    using identity_stage_ok [OF v0(2) _ parts(1) i] by auto
  let ?v1 = "recount (?v0\<lparr>bs_identity := i\<rparr>) c1"
  obtain c2 where v2: "personality_stage s e ?v1 = Inr (recount (?v1\<lparr>bs_personality := p\<rparr>) c2)"
    "all_counted (recount (?v1\<lparr>bs_personality := p\<rparr>) c2)"
    using personality_stage_ok [OF v1(2) _ parts(2) e(1) p] by auto
  let ?v2 = "recount (?v1\<lparr>bs_personality := p\<rparr>) c2"
  define es where "es = (case evd of None \<Rightarrow> bs_energy_records s | Some aid \<Rightarrow> drop_energy s aid)"
  obtain c3 where v3: "action_stage s e t ?v2 = Inr (recount (?v2\<lparr>bs_action_records := ys, bs_energy_records := es\<rparr>) c3, g)"
    "all_counted (recount (?v2\<lparr>bs_action_records := ys, bs_energy_records := es\<rparr>) c3)"
    using action_stage_ok [OF v2(2) _ _ parts(3) a] by (auto simp: es_def)
  let ?v3 = "recount (?v2\<lparr>bs_action_records := ys, bs_energy_records := es\<rparr>) c3"
  have vw: "valid_world w" by (rule reduce_world_valid [OF w parts(4)])
  obtain c4 where v4: "world_stage s e t g ?v3 = Inr (recount (?v3\<lparr>bs_world := w\<rparr>) c4)"
    "all_counted (recount (?v3\<lparr>bs_world := w\<rparr>) c4)"
    using world_stage_ok [OF v3(2) _ parts(6) w vw] by auto
  let ?v4 = "recount (?v3\<lparr>bs_world := w\<rparr>) c4"
  have "all_counted (?v4\<lparr>bs_workspace := k\<rparr>)"
  proof (rule unchanged_counted [OF v4(2)])
    show "\<forall>m. retained m (?v4\<lparr>bs_workspace := k\<rparr>) = retained m ?v4"
    proof
      fix m show "retained m (?v4\<lparr>bs_workspace := k\<rparr>) = retained m ?v4" by (cases m) simp_all
    qed
  qed simp
  then obtain c5 where v5: "memory_stage s e (?v4\<lparr>bs_workspace := k\<rparr>) = Inr (recount (?v4\<lparr>bs_workspace := k, bs_memories := ms\<rparr>) c5)"
    "all_counted (recount (?v4\<lparr>bs_workspace := k, bs_memories := ms\<rparr>) c5)"
    using memory_stage_ok [of "?v4\<lparr>bs_workspace := k\<rparr>" s e ms] m parts(6) by (auto simp: distinct_ids_def)
  let ?v = "recount (?v4\<lparr>bs_workspace := k, bs_memories := ms\<rparr>) c5"
  have staged: "reduce_values s e = typed_stage s e ?v"
    unfolding reduce_values_def Let_def t [symmetric] v0(1) rbind_simps v1(1) v2(1) v3(1) prod.case v4(1) k v5(1) ..
  have "identity_ok ?v"
    using identity_stage_keeps [OF i parts(1)] all_countedD [OF parts(7), of WActors]
      all_countedD [OF parts(7), of WAuthorizations]
    by (simp add: identity_ok_def counted_def Let_def)
  moreover have pc: "valid_personality p" "\<forall>l. lr_logical_clock (rate_get l (pc_rate_state p)) = bs_logical_clock s"
    using reduce_personality_clock [OF p parts(2,8)] s(3) by (simp_all add: clocks_ok_def all_pc_layers)
  moreover have "actions_ok ?v"
  proof -
    note xs = reduce_actions_wf [OF a(1) wf] and b = bound_actions_Inr [OF a(2) reduce_actions_wf [OF a(1) wf]]
    have sup: "ar_action_id ` set (bs_action_records s) \<subseteq> ar_action_id ` set xs"
      using reduce_actions_admits [OF a(1) wf] by auto
    have en: "list_all valid_energy (bs_energy_records s)" "distinct (map en_action_id (bs_energy_records s))"
      "en_action_id ` set (bs_energy_records s) \<subseteq> ar_action_id ` set (bs_action_records s)"
      using parts(3) by (auto simp: actions_ok_def list_all_iff)
    have "list_all valid_energy es \<and> distinct (map en_action_id es)"
      using en(1,2) drop_energy_props(1,2) by (auto simp: es_def split: option.splits)
    moreover have "en_action_id ` set es \<subseteq> ar_action_id ` set ys"
      using b en(3) sup by (cases evd) (auto simp: es_def drop_energy_def)
    ultimately show ?thesis using b by (auto simp: actions_ok_def list_all_iff)
  qed
  moreover have "distinct_ids ?v"
    using reduce_world_distinct [OF w] reduce_memory_keeps [OF m parts(9)] parts(6)
    by (simp add: distinct_ids_iff)
  moreover have "list_all valid_memory ms"
    using reduce_memory_keeps [OF m parts(9)] parts(6) by (simp add: distinct_ids_def)
  moreover have "events_counted ?v" using v0(3) by (simp add: events_counted_def)
  ultimately have "consistent ?v"
    using s(1) v5(2) vw reduce_workspace_Inr [OF k parts(5)] by (simp add: consistent_def)
  moreover have "clocks_ok ?v" using pc(2) by (simp add: clocks_ok_def all_pc_layers)
  moreover have "ev_event_type e \<noteq> ''action.proposed'' \<Longrightarrow> evd = None \<and> es = bs_energy_records s \<and>
      ar_action_id ` set (bs_action_records s) \<subseteq> ar_action_id ` set ys"
    using reduce_actions_eviction [OF a(1) wf] all_countedD [OF parts(7), of WActions] a(2)
    by (auto simp: es_def counted_def Let_def)
  moreover have "ev_event_type e \<noteq> ''personality.revised'' \<Longrightarrow> p = bs_personality s"
    using p by (simp add: reduce_personality_def)
  moreover have "id_name i = (if ev_event_type e = ''identity.named'' then as_str (jget (ev_payload e) ''name'') else bs_name s)"
    using reduce_identity_name [OF i] s(2) by (simp add: names_ok_def)
  ultimately have "prepared s e ?v" by (simp add: prepared_def)
  moreover have "bs_world ?v = w" "bs_workspace ?v = k" "bs_memories ?v = ms" "bs_action_records ?v = ys" by simp_all
  ultimately show ?thesis using staged by blast
qed

section \<open>One reduction\<close>

text \<open>
  The refusals that are not domain errors, each of a payload that passes the checks of the reducer
  and is only refused by a model built behind them.
\<close>

definition escapes :: "event_envelope \<Rightarrow> py_error \<Rightarrow> bool" where
  "escapes e err =
     (ev_event_type e = ''identity.named'' \<and> \<not> name_fits e \<and> err = ValidationError ''IdentityState'' \<or>
      ev_event_type e = ''clock.tick'' \<and> err = PyOverflowError \<and>
        (case jget (ev_payload e) ''elapsed_seconds'' of JInt n \<Rightarrow> rnd64 (of_int n) = None | _ \<Rightarrow> False) \<or>
      ev_event_type e = ''cognition.reflected'' \<and> \<not> reflection_fits e \<and> err = ValidationError ''ThoughtBranch'')"

definition typed_events :: "string list" where
  "typed_events = [''brain.created'', ''identity.named'', ''clock.tick'', ''capabilities.reported'', ''semantic.gap'',
     ''trace.gap'', ''action.energy_requested'', ''action.energy_assessed'', ''simulation.created'',
     ''cognition.reflected'', ''runtime.failure'', ''runtime.recovered'']"

lemma typed_stage_other:
  "ev_event_type e \<notin> set typed_events \<Longrightarrow> typed_stage s e v = Inr v"
  "ev_event_type e = ''action.energy_requested'' \<Longrightarrow>
    jget (ev_payload e) ''reassessment_reason'' \<noteq> JStr ''legacy_neutral_default'' \<Longrightarrow> typed_stage s e v = Inr v"
  by (simp_all add: typed_stage_def typed_events_def Let_def)

lemma typed_stage_gap: "ev_event_type e \<in> {''semantic.gap'', ''trace.gap''} \<Longrightarrow>
    typed_stage s e v = Inr (v\<lparr>bs_trace_complete := False\<rparr>)"
  by (elim insertE emptyE) (simp_all add: typed_stage_def Let_def)

lemma typed_stage_name: "ev_event_type e = ''brain.created'' \<or> ev_event_type e = ''identity.named'' \<Longrightarrow>
    typed_stage s e v = name_stage e v"
  by (simp add: typed_stage_def Let_def)

lemma typed_stage_ok:
  assumes "prepared s e v" "valid_event e"
  shows "case typed_stage s e v of
      Inr v' \<Rightarrow> ev_event_type e = ''brain.created'' \<and> \<not> name_fits e \<or> brain_ok v'
    | Inl err \<Rightarrow> is_domain_error err \<or> escapes e err"
proof (cases "ev_event_type e = ''brain.created'' \<or> ev_event_type e = ''identity.named''")
  case True
  have "name_fits e" if "ev_event_type e = ''identity.named''" "\<not> is_domain_error err" for err
  proof -
    have "valid_identity (bs_identity v)" using assms(1) by (simp add: prepared_def consistent_def identity_ok_def)
    then show ?thesis using that(1) assms(1)
      by (auto simp: prepared_def name_fits_def valid_identity_def valid_name_def split: json.splits)
  qed
  then have fits: "ev_event_type e = ''identity.named'' \<Longrightarrow> name_fits e"
    by (meson is_domain_error_simps(3))
  from typed_stage_name [OF True, of s v] show ?thesis
    using name_stage_ok [OF _ assms(1) _ True] name_stage_Inl [of e v] fits True
    by (cases "name_stage e v") auto
next
  case False
  then have n: "names_ok v" using prepared_names [OF assms(1)] by simp
  have v: "consistent v" "clocks_ok v" using assms(1) by (simp_all add: prepared_def)
  consider (tick) "ev_event_type e = ''clock.tick''" | (caps) "ev_event_type e = ''capabilities.reported''"
    | (gap) "ev_event_type e \<in> {''semantic.gap'', ''trace.gap''}"
    | (legacy) "ev_event_type e = ''action.energy_requested''" "jget (ev_payload e) ''reassessment_reason'' = JStr ''legacy_neutral_default''"
    | (assessed) "ev_event_type e = ''action.energy_assessed''" | (sim) "ev_event_type e = ''simulation.created''"
    | (cog) "ev_event_type e = ''cognition.reflected''" | (fail) "ev_event_type e = ''runtime.failure''"
    | (recov) "ev_event_type e = ''runtime.recovered''" | (other) "typed_stage s e v = Inr v"
    using False typed_stage_other [of e s v] unfolding typed_events_def list.set by blast
  then show ?thesis
  proof cases
    case tick
    then have "typed_stage s e v = clock_stage s e v" by (simp add: typed_stage_def Let_def)
    with clock_stage_ok [OF assms tick] tick show ?thesis
      by (cases "clock_stage s e v") (auto simp: escapes_def)
  next
    case caps
    then have "typed_stage s e v = capabilities_stage e v" by (simp add: typed_stage_def Let_def)
    with capabilities_stage_ok [OF assms caps] show ?thesis by (simp split: sum.splits)
  next
    case gap
    with typed_stage_gap [OF gap, of s v] gap_ok [OF v n] show ?thesis by simp
  next
    case legacy
    then have "typed_stage s e v = legacy_stage s e v" by (simp add: typed_stage_def Let_def)
    with legacy_stage_ok [OF assms(1) legacy(1)] show ?thesis by (simp split: sum.splits)
  next
    case assessed
    then have "typed_stage s e v = assessed_stage s e v" by (simp add: typed_stage_def Let_def)
    with assessed_stage_ok [OF assms(1) assessed] show ?thesis by (simp split: sum.splits)
  next
    case sim
    then have "typed_stage s e v = simulation_stage s e v" by (simp add: typed_stage_def Let_def)
    with simulation_stage_ok [OF assms(1) sim] show ?thesis by (simp split: sum.splits)
  next
    case cog
    then have "typed_stage s e v = cognition_stage s e v" by (simp add: typed_stage_def Let_def)
    with cognition_stage_ok [OF assms(1) cog] cog show ?thesis
      by (cases "cognition_stage s e v") (auto simp: escapes_def)
  next
    case fail
    then have "typed_stage s e v = failure_stage s e v" by (simp add: typed_stage_def Let_def)
    with failure_stage_ok [OF assms(1) fail] show ?thesis by (simp split: sum.splits)
  next
    case recov
    then have "typed_stage s e v = recovered_stage s v" by (simp add: typed_stage_def Let_def)
    with recovered_stage_ok [OF assms(1) recov] show ?thesis by auto
  next
    case other
    with v n show ?thesis by (simp add: brain_ok_def)
  qed
qed

text \<open>Either an early stage refuses the event, or the typed branch sees a prepared successor.\<close>

lemma reduce_values_cases:
  assumes "brain_ok s" "valid_event e" "event_admitted s e = Inr ()"
  obtains err where "reduce_values s e = Inl err" "is_domain_error err \<or> escapes e err"
  | v where "prepared s e v" "reduce_values s e = typed_stage s e v"
proof -
  have s: "consistent s" using assms(1) by (simp add: brain_ok_def)
  then have parts: "identity_ok s" "valid_personality (bs_personality s)" "actions_wf (bs_action_records s)"
    "valid_world (bs_world s)" "valid_workspace (bs_workspace s)" "distinct_ids s" "actions_ok s"
    by (simp_all add: consistent_def actions_ok_def)
  let ?t = "is_authorized (bs_identity s) (ev_actor_id e) (ev_adapter_id e)"
  obtain counts ev c0 where v0: "count_event s e = Inr (recount (counted_event s e counts ev) c0)"
    "all_counted (recount (counted_event s e counts ev) c0)"
    using count_event_ok [OF s assms(2,3)] by blast
  let ?v0 = "recount (counted_event s e counts ev) c0"
  show ?thesis
  proof (cases "reduce_identity (bs_identity s) e")
    case (Inl err)
    have "valid_identity (bs_identity s)" using parts(1) by (simp add: identity_ok_def)
    from reduce_identity_errors [OF Inl this] have "is_domain_error err \<or> escapes e err"
      unfolding escapes_def using not_named_fits by blast
    moreover have "reduce_values s e = Inl err"
      by (simp add: reduce_values_def Let_def v0(1) identity_stage_Inl [OF Inl])
    ultimately show ?thesis using that(1) by blast
  next
    case i: (Inr i)
    obtain c1 where v1: "identity_stage s e ?v0 = Inr (recount (?v0\<lparr>bs_identity := i\<rparr>) c1)"
      "all_counted (recount (?v0\<lparr>bs_identity := i\<rparr>) c1)"
      using identity_stage_ok [OF v0(2) _ parts(1) i] by auto
    let ?v1 = "recount (?v0\<lparr>bs_identity := i\<rparr>) c1"
    show ?thesis
    proof (cases "reduce_personality (bs_personality s) e (bs_logical_clock s)")
      case (Inl err)
      have "reduce_values s e = Inl err"
        by (simp add: reduce_values_def Let_def v0(1) v1(1) personality_stage_Inl [OF Inl])
      with reduce_personality_Inl [OF Inl] that(1) show ?thesis by blast
    next
      case p: (Inr p)
      obtain c2 where v2: "personality_stage s e ?v1 = Inr (recount (?v1\<lparr>bs_personality := p\<rparr>) c2)"
        "all_counted (recount (?v1\<lparr>bs_personality := p\<rparr>) c2)"
        using personality_stage_ok [OF v1(2) _ parts(2) assms(2) p] by auto
      let ?v2 = "recount (?v1\<lparr>bs_personality := p\<rparr>) c2"
      show ?thesis
      proof (cases "reduce_actions (bs_action_records s) e ?t")
        case (Inl err)
        have "reduce_values s e = Inl err"
          by (simp add: reduce_values_def Let_def v0(1) v1(1) v2(1) action_stage_Inl(1) [OF Inl])
        with reduce_actions_Inl [OF Inl parts(3) assms(2)] that(1) show ?thesis by blast
      next
        case (Inr xg)
        then obtain xs g where x: "reduce_actions (bs_action_records s) e ?t = Inr (xs, g)" by (cases xg) auto
        show ?thesis
        proof (cases "bound_actions xs")
          case (Inl err)
          have "reduce_values s e = Inl err"
            by (simp add: reduce_values_def Let_def v0(1) v1(1) v2(1) action_stage_Inl(2) [OF x Inl])
          with bound_actions_Inl [OF Inl] that(1) show ?thesis by blast
        next
          case (Inr by')
          then obtain evd ys where b: "bound_actions xs = Inr (evd, ys)" by (cases by') auto
          obtain c3 es where v3: "action_stage s e ?t ?v2 =
              Inr (recount (?v2\<lparr>bs_action_records := ys, bs_energy_records := es\<rparr>) c3, g)"
            "all_counted (recount (?v2\<lparr>bs_action_records := ys, bs_energy_records := es\<rparr>) c3)"
            using action_stage_ok [OF v2(2) _ _ parts(7) x b] by auto
          let ?v3 = "recount (?v2\<lparr>bs_action_records := ys, bs_energy_records := es\<rparr>) c3"
          show ?thesis
          proof (cases "reduce_world (bs_world s) e ?t g")
            case (Inl err)
            have "reduce_values s e = Inl err"
              by (simp add: reduce_values_def Let_def v0(1) v1(1) v2(1) v3(1) world_stage_Inl [OF Inl])
            with reduce_world_errors [OF Inl parts(4)] that(1) show ?thesis by blast
          next
            case w: (Inr w)
            obtain c4 where v4: "world_stage s e ?t g ?v3 = Inr (recount (?v3\<lparr>bs_world := w\<rparr>) c4)"
              using world_stage_ok [OF v3(2) _ parts(6) w reduce_world_valid [OF w parts(4)]] by auto
            show ?thesis
            proof (cases "reduce_workspace s e")
              case (Inl err)
              have "reduce_values s e = Inl err"
                by (simp add: reduce_values_def Let_def v0(1) v1(1) v2(1) v3(1) v4 Inl)
              with reduce_workspace_Inl [OF Inl parts(5)] that(1) show ?thesis by blast
            next
              case k: (Inr k)
              show ?thesis
              proof (cases "reduce_memory s e")
                case (Inl err)
                have "reduce_values s e = Inl err"
                  by (simp add: reduce_values_def Let_def v0(1) v1(1) v2(1) v3(1) v4 k memory_stage_Inl [OF Inl])
                with reduce_memory_Inl [OF Inl] that(1) show ?thesis by blast
              next
                case m: (Inr ms)
                show ?thesis using stages_prepare [OF assms i p x b w k m refl] that(2) by blast
              qed
            qed
          qed
        qed
      qed
    qed
  qed
qed

lemma event_admitted_Inl: "event_admitted s e = Inl err \<Longrightarrow> valid_event e \<Longrightarrow> is_domain_error err"
  by (auto simp: event_admitted_def valid_event_def EVENT_SCHEMA_VERSION_def split: if_splits option.splits)

lemma reduce_state_ok:
  assumes "brain_ok s" "valid_event e"
  shows "case reduce_state s e of
      Inr s' \<Rightarrow> ev_event_type e = ''brain.created'' \<and> \<not> name_fits e \<or> brain_ok s'
    | Inl err \<Rightarrow> is_domain_error err \<or> escapes e err \<or> ev_event_type e = ''brain.created'' \<and> \<not> name_fits e"
proof (cases "event_admitted s e")
  case (Inl err)
  with event_admitted_Inl [OF Inl assms(2)] assms brain_ok_valid [OF assms(1)] show ?thesis
    by (simp add: reduce_state_def state_revalidated_def event_revalidated_def)
next
  case (Inr u)
  have r: "reduce_state s e = rbind (reduce_values s e) state_from_data"
    using Inr assms brain_ok_valid [OF assms(1)]
    by (simp add: reduce_state_def state_revalidated_def event_revalidated_def)
  have admitted: "event_admitted s e = Inr ()" using Inr by simp
  show ?thesis
  proof (rule reduce_values_cases [OF assms admitted])
    fix v assume v: "prepared s e v" "reduce_values s e = typed_stage s e v"
    show ?thesis
    proof (cases "typed_stage s e v")
      case (Inr v')
      have "state_shell v'" if "brain_ok v'" using brain_ok_valid [OF that] by (simp add: valid_state_def)
      with typed_stage_ok [OF v(1) assms(2)] Inr r v(2) show ?thesis by (auto simp: state_from_data_def)
    qed (use typed_stage_ok [OF v(1) assms(2)] r v(2) in auto)
  qed (use r in auto)
qed

section \<open>The log of a state\<close>

text \<open>What a state remembers of the ledger: its brain, its position, the number of events behind it and their counts by type.\<close>

definition book_of :: "brain_state \<Rightarrow> string \<times> int \<times> int \<times> (string \<times> int) list" where
  "book_of s = (bs_brain_id s, bs_last_sequence s, wk_reduced_event_count (bs_working_set s), bs_raw_lifecycle_counts s)"

named_theorems log_rules

lemma book_of_update [simp]:
  "book_of (v\<lparr>bs_name := x1\<rparr>) = book_of v" "book_of (v\<lparr>bs_identity := x2\<rparr>) = book_of v"
  "book_of (v\<lparr>bs_personality := x3\<rparr>) = book_of v" "book_of (v\<lparr>bs_energy_records := x4\<rparr>) = book_of v"
  "book_of (v\<lparr>bs_thought_space := x5\<rparr>) = book_of v" "book_of (v\<lparr>bs_action_records := x6\<rparr>) = book_of v"
  "book_of (v\<lparr>bs_world := x7\<rparr>) = book_of v" "book_of (v\<lparr>bs_workspace := x8\<rparr>) = book_of v"
  "book_of (v\<lparr>bs_memories := x9\<rparr>) = book_of v" "book_of (v\<lparr>bs_cognition := x10\<rparr>) = book_of v"
  "book_of (v\<lparr>bs_runtime := x11\<rparr>) = book_of v" "book_of (v\<lparr>bs_capabilities := x12\<rparr>) = book_of v"
  "book_of (v\<lparr>bs_logical_clock := x13\<rparr>) = book_of v" "book_of (v\<lparr>bs_trace_complete := x14\<rparr>) = book_of v"
  "book_of (v\<lparr>bs_working_set := (bs_working_set v)\<lparr>wk_counter := c\<rparr>\<rparr>) = book_of v"
  by (simp_all add: book_of_def)

lemma admit_log [log_rules]: "admit n a e v = Inr v' \<Longrightarrow> book_of v' = book_of v"
  by (auto simp: admit_def advance_working_set_def Let_def rbind_eq_Inr split: if_splits)

lemma maybe_admit_log [log_rules]: "(if b then admit n a e v else Inr v) = Inr v' \<Longrightarrow> book_of v' = book_of v"
  by (auto split: if_splits dest: admit_log)

lemma fold_log: "(\<And>v x v'. f v x = Inr v' \<Longrightarrow> book_of v' = book_of v) \<Longrightarrow> rfold f v xs = Inr v' \<Longrightarrow> book_of v' = book_of v"
  by (rule rfold_invariant [where P = "\<lambda>w. book_of w = book_of v"]) auto

lemma identity_stage_log: "identity_stage s e v = Inr v' \<Longrightarrow> book_of v' = book_of v"
  by (auto simp: identity_stage_def rbind_eq_Inr split: if_splits dest!: admit_log)

lemma personality_stage_log: "personality_stage s e v = Inr v' \<Longrightarrow> book_of v' = book_of v"
  unfolding personality_stage_def rbind_eq_Inr
  by (elim exE conjE, drule fold_log [rotated]) (auto simp: admit_layer_def Let_def dest: maybe_admit_log)

lemma action_stage_log: "action_stage s e t v = Inr (v', g) \<Longrightarrow> book_of v' = book_of v"
  by (auto simp: action_stage_def rbind_eq_Inr Let_def split: if_splits option.splits dest!: admit_log)

lemma world_stage_log: "world_stage s e t g v = Inr v' \<Longrightarrow> book_of v' = book_of v"
  unfolding world_stage_def rbind_eq_Inr
  by (elim exE conjE, drule fold_log [rotated]) (auto simp: admit_world_def Let_def dest: maybe_admit_log)

lemma memory_stage_log: "memory_stage s e v = Inr v' \<Longrightarrow> book_of v' = book_of v"
  by (auto simp: memory_stage_def rbind_eq_Inr Let_def split: if_splits dest!: admit_log)

lemma name_stage_log: "name_stage e v = Inr v' \<Longrightarrow> book_of v' = book_of v"
  by (auto simp: name_stage_def split: option.splits if_splits)

lemma clock_stage_log: "clock_stage s e v = Inr v' \<Longrightarrow> book_of v' = book_of v"
  by (auto simp: clock_stage_def rbind_eq_Inr Let_def split: option.splits if_splits)

lemma typed_stage_log: "typed_stage s e v = Inr v' \<Longrightarrow> book_of v' = book_of v"
proof -
  assume t: "typed_stage s e v = Inr v'"
  have "capabilities_stage e v = Inr v' \<Longrightarrow> book_of v' = book_of v"
    by (auto simp: capabilities_stage_def book_of_def split: json.splits if_splits)
  moreover have "legacy_stage s e v = Inr v' \<Longrightarrow> book_of v' = book_of v"
    by (auto simp: legacy_stage_def rbind_eq_Inr split: if_splits dest!: admit_log)
  moreover have "assessed_stage s e v = Inr v' \<Longrightarrow> book_of v' = book_of v"
    by (auto simp: assessed_stage_def rbind_eq_Inr Let_def split: if_splits dest!: admit_log)
  moreover have "simulation_stage s e v = Inr v' \<Longrightarrow> book_of v' = book_of v"
    by (auto simp: simulation_stage_def rbind_eq_Inr Let_def dest!: admit_log)
  moreover have "cognition_stage s e v = Inr v' \<Longrightarrow> book_of v' = book_of v"
    by (auto simp: cognition_stage_def rbind_eq_Inr Let_def split: if_splits dest!: admit_log)
  moreover have "failure_stage s e v = Inr v' \<Longrightarrow> book_of v' = book_of v"
    by (auto simp: failure_stage_def rbind_eq_Inr Let_def split: if_splits)
  moreover have "recovered_stage s v = Inr v' \<Longrightarrow> book_of v' = book_of v"
    by (auto simp: recovered_stage_def Let_def split: if_splits)
  ultimately show ?thesis
    using t name_stage_log clock_stage_log unfolding typed_stage_def Let_def
    by (metis (no_types) book_of_update(14) sum.inject(2))
qed

definition log_of :: "brain_state \<Rightarrow> string \<times> int \<times> int" where
  "log_of s = (bs_brain_id s, bs_last_sequence s, wk_reduced_event_count (bs_working_set s))"

definition times_seen :: "brain_state \<Rightarrow> string \<Rightarrow> int" where
  "times_seen s t = (case map_of (bs_raw_lifecycle_counts s) t of None \<Rightarrow> 0 | Some n \<Rightarrow> n)"

lemma same_book: "book_of v = book_of w \<Longrightarrow> log_of v = log_of w \<and> times_seen v = times_seen w"
  by (simp add: book_of_def log_of_def times_seen_def fun_eq_iff)

lemma count_event_seen:
  assumes "valid_raw_counts (bs_raw_lifecycle_counts s)" "count_event s e = Inr v"
  shows "times_seen v t \<le> times_seen s t + (if ev_event_type e = t then 1 else 0)"
proof -
  let ?m = "bs_raw_lifecycle_counts s" and ?t = "ev_event_type e"
  have d: "distinct (map fst ?m)" "list_all (\<lambda>(t, n). t \<noteq> [] \<and> 0 \<le> n) ?m"
    using assms(1) sorted_keys_distinct by (auto simp: valid_raw_counts_def)
  then have n: "0 \<le> times_seen s t" by (auto simp: times_seen_def list_all_iff split: option.split dest: map_of_SomeD)
  have tl: "(case map_of (tl ?m) t of None \<Rightarrow> 0 | Some n \<Rightarrow> n) \<le> times_seen s t"
    using d(1) n by (cases ?m) (auto simp: times_seen_def image_iff split: option.splits dest!: map_of_SomeD)
  let ?count = "\<lambda>m. jput ?t ((case map_of m ?t of None \<Rightarrow> 0 | Some n \<Rightarrow> n) + 1) m"
  have "bs_raw_lifecycle_counts v = ?count ?m \<or> bs_raw_lifecycle_counts v = ?count (tl ?m)"
    using assms(2) by (auto simp: count_event_def Let_def rbind_eq_Inr split: if_splits)
  then obtain counts where c: "counts = ?m \<or> counts = tl ?m" "bs_raw_lifecycle_counts v = ?count counts" by blast
  have k: "(case map_of counts u of None \<Rightarrow> 0 | Some n \<Rightarrow> n) \<le> times_seen s u" if "u = t" for u
    using c(1) tl that by (auto simp: times_seen_def)
  show ?thesis using k by (auto simp: times_seen_def [of v] c(2) map_of_jput)
qed

lemma count_event_log: "count_event s e = Inr v \<Longrightarrow> log_of v = (bs_brain_id s,
    (case ev_sequence e of None \<Rightarrow> bs_last_sequence s | Some n \<Rightarrow> n), wk_reduced_event_count (bs_working_set s) + 1)"
  by (auto simp: count_event_def Let_def rbind_eq_Inr advance_working_set_def log_of_def split: if_splits)

lemma reduce_values_log:
  assumes "reduce_values s e = Inr v"
  shows "log_of v = (bs_brain_id s, (case ev_sequence e of None \<Rightarrow> bs_last_sequence s | Some n \<Rightarrow> n),
    wk_reduced_event_count (bs_working_set s) + 1)"
    and "valid_raw_counts (bs_raw_lifecycle_counts s) \<Longrightarrow> times_seen v t \<le> times_seen s t + (if ev_event_type e = t then 1 else 0)"
proof -
  from assms obtain v0 v1 v2 v3 g v4 w v5 where st:
    "count_event s e = Inr v0" "identity_stage s e v0 = Inr v1" "personality_stage s e v1 = Inr v2"
    "action_stage s e (is_authorized (bs_identity s) (ev_actor_id e) (ev_adapter_id e)) v2 = Inr (v3, g)"
    "world_stage s e (is_authorized (bs_identity s) (ev_actor_id e) (ev_adapter_id e)) g v3 = Inr v4"
    "memory_stage s e (v4\<lparr>bs_workspace := w\<rparr>) = Inr v5" "typed_stage s e v5 = Inr v"
    by (auto simp: reduce_values_def Let_def rbind_eq_Inr)
  have "book_of v = book_of v0"
    using identity_stage_log [OF st(2)] personality_stage_log [OF st(3)] action_stage_log [OF st(4)]
      world_stage_log [OF st(5)] memory_stage_log [OF st(6)] typed_stage_log [OF st(7)] by simp
  note same = same_book [OF this]
  show "log_of v = (bs_brain_id s, (case ev_sequence e of None \<Rightarrow> bs_last_sequence s | Some n \<Rightarrow> n),
    wk_reduced_event_count (bs_working_set s) + 1)" using count_event_log [OF st(1)] same by simp
  show "valid_raw_counts (bs_raw_lifecycle_counts s) \<Longrightarrow> times_seen v t \<le> times_seen s t + (if ev_event_type e = t then 1 else 0)"
    using count_event_seen [OF _ st(1)] same by simp
qed

lemma reduce_state_Inr:
  assumes "reduce_state s e = Inr s'"
  shows "event_admitted s e = Inr () \<and> state_shell s' \<and> log_of s' = (bs_brain_id s,
    (case ev_sequence e of None \<Rightarrow> bs_last_sequence s | Some n \<Rightarrow> n), wk_reduced_event_count (bs_working_set s) + 1)"
  using assms by (auto simp: reduce_state_def rbind_eq_Inr dest: reduce_values_log(1))

lemma reduce_state_seen:
  assumes "brain_ok s" "reduce_state s e = Inr s'"
  shows "times_seen s' t \<le> times_seen s t + (if ev_event_type e = t then 1 else 0)"
proof -
  have "valid_raw_counts (bs_raw_lifecycle_counts s)" using assms(1) by (simp add: brain_ok_def consistent_def events_counted_def)
  moreover have "reduce_values s e = Inr s'"
    using assms(2) by (auto simp: reduce_state_def state_revalidated_def event_revalidated_def state_from_data_def rbind_eq_Inr split: if_splits)
  ultimately show ?thesis by (rule reduce_values_log(2) [rotated])
qed

text \<open>The events that can be reduced or refused with a domain error, in every state.\<close>

definition tame :: "event_envelope \<Rightarrow> bool" where
  "tame e = (valid_event e \<and>
     (ev_event_type e \<in> {''brain.created'', ''identity.named''} \<longrightarrow> name_fits e) \<and>
     (ev_event_type e = ''clock.tick'' \<longrightarrow>
       (case jget (ev_payload e) ''elapsed_seconds'' of JInt n \<Rightarrow> rnd64 (of_int n) \<noteq> None | _ \<Rightarrow> True)) \<and>
     (ev_event_type e = ''cognition.reflected'' \<longrightarrow> reflection_fits e))"

lemma tame_never_escapes: "tame e \<Longrightarrow> \<not> escapes e err"
  by (auto simp: tame_def escapes_def split: json.splits)

interpretation brain: reducer brain_ok tame reduce_state
proof unfold_locales
  fix s e s' assume "brain_ok s" "tame e" "reduce_state s e = Inr s'"
  with reduce_state_ok [of s e] show "brain_ok s'" by (auto simp: tame_def)
next
  fix s e err assume "brain_ok s" "tame e" "reduce_state s e = Inl err"
  with reduce_state_ok [of s e] tame_never_escapes [of e err] show "is_domain_error err" by (auto simp: tame_def)
qed

section \<open>Properties\<close>

text \<open>
  C1. The reducer never produces an inconsistent brain and never fails in its final validation: for
  a consistent state and a valid event, \<open>reduce_state\<close> either returns a consistent state whose
  counters, clocks, names and references all agree, or refuses the event with a domain error; the
  exceptions are exactly four payloads, an over-long name in \<open>brain.created\<close> or \<open>identity.named\<close>,
  an elapsed time too large for a float, and a reflection whose sources or versions no thought
  branch takes.
\<close>

theorem reduction_keeps_brain:
  assumes "brain_ok s" "valid_event e"
  shows "case reduce_state s e of
      Inr s' \<Rightarrow> brain_ok s' \<or> ev_event_type e = ''brain.created'' \<and> \<not> name_fits e
    | Inl err \<Rightarrow> is_domain_error err \<or> escapes e err \<or> ev_event_type e = ''brain.created'' \<and> \<not> name_fits e"
  using reduce_state_ok [OF assms] by (auto split: sum.splits)

definition named_event :: "string \<Rightarrow> event_envelope" where
  "named_event n = sample_event ''brain.created'' [(''name'', JStr n)]"

lemma named_event_valid: "valid_event (named_event n)"
proof -
  have "valid_event_type ''brain.created''" by code_simp
  then show ?thesis unfolding named_event_def by (intro sample_event_valid) (simp_all add: sorted_keys_def)
qed

lemma reduction_keeps_brain_witness:
  "brain_ok (brain_genesis sample_id) \<and> valid_event (named_event ''alice'') \<and>
   (case reduce_state (brain_genesis sample_id) (named_event ''alice'') of
      Inr s' \<Rightarrow> brain_ok s' \<or> ev_event_type (named_event ''alice'') = ''brain.created'' \<and> \<not> name_fits (named_event ''alice'')
    | Inl err \<Rightarrow> is_domain_error err \<or> escapes (named_event ''alice'') err \<or>
        ev_event_type (named_event ''alice'') = ''brain.created'' \<and> \<not> name_fits (named_event ''alice''))"
  using reduction_keeps_brain [OF brain_genesis_ok [OF sample_id_uuid] named_event_valid]
    brain_genesis_ok [OF sample_id_uuid] named_event_valid by blast

text \<open>
  C2. Replaying any history of valid events from genesis, without the four payloads above, ends in a
  consistent brain or in a domain error. Every collection of that brain is within its capacity, and its
  counters balance: what is retained and what was evicted add up to the total, and nothing was evicted from a
  collection that must not evict. Every event of the history is counted once: the counts of the event types still
  kept, none of them higher than the type occurred, and the events of the types evicted add up to its length.
\<close>

theorem replay_from_genesis:
  assumes "is_uuid4 b" "list_all tame es"
  shows "case reduce_many (brain_genesis b) es of
      Inl err \<Rightarrow> is_domain_error err
    | Inr s \<Rightarrow> brain_ok s \<and> bs_brain_id s = b \<and> wk_reduced_event_count (bs_working_set s) = int (length es) \<and>
        sum_list (map snd (bs_raw_lifecycle_counts s)) + wk_raw_lifecycle_events_evicted (bs_working_set s) = int (length es) \<and>
        (\<forall>t. times_seen s t \<le> int (length (filter (\<lambda>e. ev_event_type e = t) es))) \<and>
        (\<forall>n. retained n s \<le> capacity n \<and>
          ct_total (wk_counter (bs_working_set s) n) = int (retained n s) + ct_evicted (wk_counter (bs_working_set s) n) \<and>
          (never_evicts n \<longrightarrow> ct_evicted (wk_counter (bs_working_set s) n) = 0))"
proof (cases "reduce_many (brain_genesis b) es")
  case (Inl err)
  with brain.run_refuses [OF brain_genesis_ok [OF assms(1)] assms(2)] show ?thesis by (simp add: reduce_many_def)
next
  case (Inr s)
  have len: "reduce_many t es = Inr s \<Longrightarrow> bs_brain_id s = bs_brain_id t \<and>
      wk_reduced_event_count (bs_working_set s) = wk_reduced_event_count (bs_working_set t) + int (length es)" for t
    unfolding reduce_many_def
  proof (induction es arbitrary: t)
    case (Cons e es)
    then obtain u where u: "reduce_state t e = Inr u" "rfold reduce_state u es = Inr s" by (auto simp: rbind_eq_Inr)
    with Cons.IH [OF u(2)] reduce_state_Inr [OF u(1)] show ?case by (simp add: log_of_def)
  qed simp
  have ok: "brain_ok s"
    using brain.run_keeps [OF brain_genesis_ok [OF assms(1)] assms(2)] Inr by (simp add: reduce_many_def)
  then have "\<forall>n. counted n s" by (simp add: brain_ok_def consistent_def all_counted_iff)
  moreover have "sum_list (map snd (bs_raw_lifecycle_counts s)) + wk_raw_lifecycle_events_evicted (bs_working_set s) =
      wk_reduced_event_count (bs_working_set s)"
    using brain_ok_valid [OF ok] by (simp add: valid_state_def state_shell_def identity_matches_brain_def)
  moreover have "times_seen s t \<le> times_seen u t + int (length (filter (\<lambda>e. ev_event_type e = t) es))"
    if "brain_ok u" "reduce_many u es = Inr s" for u t
    using that assms(2) unfolding reduce_many_def
  proof (induction es arbitrary: u)
    case (Cons e es)
    then obtain w where w: "reduce_state u e = Inr w" "rfold reduce_state w es = Inr s" by (auto simp: rbind_eq_Inr)
    have "brain_ok w" using brain.step_keeps [OF Cons.prems(1) _ w(1)] Cons.prems(3) by simp
    with Cons.IH [OF this w(2)] Cons.prems(3) reduce_state_seen [OF Cons.prems(1) w(1), of t] show ?case by auto
  qed simp
  from this [OF brain_genesis_ok [OF assms(1)] Inr]
  have "times_seen s t \<le> int (length (filter (\<lambda>e. ev_event_type e = t) es))" for t
    by (simp add: times_seen_def [of "brain_genesis b"]) (simp add: brain_genesis_def)
  ultimately show ?thesis using ok len [OF Inr] Inr
    by (simp add: counted_def Let_def diff_eq_eq) (simp add: brain_genesis_def initial_working_set_def)
qed

lemma named_event_tame: "length n \<le> 160 \<Longrightarrow> tame (named_event n)"
  using named_event_valid [of n] by (simp add: tame_def) (simp add: named_event_def name_fits_def jget_def jget_or_def)

lemma replay_from_genesis_witness:
  "is_uuid4 sample_id \<and> list_all tame [named_event ''alice'', named_event ''bob''] \<and>
   (case reduce_many (brain_genesis sample_id) [named_event ''alice'', named_event ''bob''] of
      Inl err \<Rightarrow> is_domain_error err
    | Inr s \<Rightarrow> brain_ok s \<and> bs_brain_id s = sample_id \<and>
        wk_reduced_event_count (bs_working_set s) = int (length [named_event ''alice'', named_event ''bob'']) \<and>
        sum_list (map snd (bs_raw_lifecycle_counts s)) + wk_raw_lifecycle_events_evicted (bs_working_set s) = 2)"
proof -
  have t: "list_all tame [named_event ''alice'', named_event ''bob'']" by (simp add: named_event_tame)
  from replay_from_genesis [OF sample_id_uuid t] t show ?thesis by (auto split: sum.splits)
qed

text \<open>
  The sequence of a brain has no gap, no repetition and no reordering: a history of sequenced
  events is accepted only if its numbers continue the state's own one by one, and they leave the
  state at the last of them.
\<close>

theorem accepted_sequences_contiguous:
  assumes "reduce_many s es = Inr s'" "list_all (\<lambda>e. ev_sequence e \<noteq> None) es"
  shows "map ev_sequence es = map (\<lambda>i. Some (bs_last_sequence s + 1 + int i)) [0..<length es] \<and>
    bs_last_sequence s' = bs_last_sequence s + int (length es)"
  using assms unfolding reduce_many_def
proof (induction es arbitrary: s)
  case (Cons e es)
  then obtain u where u: "reduce_state s e = Inr u" "rfold reduce_state u es = Inr s'" by (auto simp: rbind_eq_Inr)
  from Cons.prems(2) obtain n where n: "ev_sequence e = Some n" by auto
  have "n = bs_last_sequence s + 1" "bs_last_sequence u = n"
    using reduce_state_Inr [OF u(1)] n event_admitted_sequence [of s e] by (auto simp: log_of_def)
  with Cons.IH [OF u(2)] Cons.prems(2) n show ?case
    by (simp add: upt_conv_Cons map_Suc_upt [symmetric] algebra_simps del: upt_Suc)
qed simp

text \<open>The named brain after its creation event, whatever the length of the name.\<close>

lemma name_stage_shell:
  assumes "prepared s e v" "ev_event_type e = ''brain.created''" "jget (ev_payload e) ''name'' = JStr n" "\<not> blank n"
  shows "\<exists>v'. name_stage e v = Inr v' \<and> state_shell v' \<and> id_name (bs_identity v') = Some n"
proof -
  define i where "i = (if id_name (bs_identity v) \<noteq> Some n then (bs_identity v)\<lparr>id_name := Some n\<rparr> else bs_identity v)"
  let ?v = "v\<lparr>bs_name := Some n, bs_identity := i\<rparr>"
  have v: "consistent v" "clocks_ok v" using assms(1) by (simp_all add: prepared_def)
  have "as_opt_str (jget (ev_payload e) ''name'') = Some (Some n)" unfolding assms(3) by simp
  then have st: "name_stage e v = Inr ?v" using assms(2,4) unfolding name_stage_def i_def by simp
  have i: "id_self_actor_id i = id_self_actor_id (bs_identity v)" "id_name i = Some n" "id_actors i = id_actors (bs_identity v)"
    "id_authorizations i = id_authorizations (bs_identity v)"
    by (simp_all add: i_def)
  have "all_counted ?v"
  proof (rule unchanged_counted [of v])
    show "all_counted v" using v(1) unfolding consistent_def by blast
    show "\<forall>m. retained m ?v = retained m v"
    proof
      fix m show "retained m ?v = retained m v" by (cases m) (simp_all add: i)
    qed
  qed simp
  then have counts: "list_all (\<lambda>m. counted m ?v) ws_names" by (simp add: all_counted_def list_all_iff)
  from v(1) have parts: "identity_ok v" "actions_ok v" "events_counted v" "valid_workspace (bs_workspace v)"
    "bs_schema_version v = STATE_SCHEMA_VERSION" "is_uuid4 (bs_brain_id v)" "frozen (JObj (bs_capabilities v))"
    "is_f64 (bs_logical_clock v)" "0 \<le> bs_logical_clock v"
    unfolding consistent_def by blast+
  have "identity_matches_brain ?v"
    unfolding identity_matches_brain_def using i counts parts(1-4) v(2)
    by (auto simp: identity_ok_def actions_ok_def actions_wf_def events_counted_def clocks_ok_def valid_workspace_def)
  with parts(3,5-9) assms(4) have "state_shell ?v"
    unfolding state_shell_def by (simp add: events_counted_def)
  with st i(2) show ?thesis by (intro exI [of _ ?v]) simp
qed

text \<open>
  The quiet events: no stage before the last looks at them, so they are admitted, counted and handed to
  \<open>typed_stage\<close>. The events of the naming and assessment leases are quiet and untyped, so they only count.
\<close>

definition untyped_events :: "string list" where
  "untyped_events = [''cognition.requested'', ''cognition.completed'', ''cognition.failed'', ''c1.deliberated'']"

definition quiet_events :: "string list" where
  "quiet_events = [''brain.created'', ''runtime.failure'', ''runtime.recovered'', ''clock.tick'', ''cognition.reflected'',
     ''workspace.broadcast'', ''trace.gap''] @ untyped_events"

text \<open>The fields the specialists read, as the stages before the last leave them.\<close>

definition same_view :: "brain_state \<Rightarrow> brain_state \<Rightarrow> bool" where
  "same_view s v \<longleftrightarrow> bs_world v = bs_world s \<and> bs_memories v = bs_memories s \<and>
     bs_action_records v = bs_action_records s \<and> bs_energy_records v = bs_energy_records s \<and>
     (\<forall>l. pc_get l (bs_personality v) = pc_get l (bs_personality s))"

lemma quiet_view:
  assumes "brain_ok s" "valid_event e" "event_admitted s e = Inr ()" "ev_event_type e \<in> set quiet_events"
    and "reduce_workspace s e = Inr w"
  shows "\<exists>v. prepared s e v \<and> reduce_values s e = typed_stage s e v \<and> same_view s v \<and> bs_workspace v = w"
proof -
  let ?t = "is_authorized (bs_identity s) (ev_actor_id e) (ev_adapter_id e)"
  have "length (bs_action_records s) \<le> MAX_ACTION_RECORDS"
    using assms(1) all_countedD [of s WActions] by (simp add: brain_ok_def consistent_def counted_def Let_def)
  then have q: "reduce_identity (bs_identity s) e = Inr (bs_identity s)"
    "reduce_personality (bs_personality s) e (bs_logical_clock s) = Inr (bs_personality s)"
    "reduce_actions (bs_action_records s) e ?t = Inr (bs_action_records s, [])"
    "bound_actions (bs_action_records s) = Inr (None, bs_action_records s)"
    "reduce_world (bs_world s) e ?t [] = Inr (bs_world s)"
    "reduce_memory s e = Inr (bs_memories s)"
    using assms(4)
    by (auto simp: quiet_events_def untyped_events_def reduce_identity_def reduce_personality_def reduce_actions_def
        action_lifecycle_events_def bound_actions_def reduce_world_def event_layer_def reduce_memory_def)
  from stages_prepare [OF assms(1-3) q(1-5) assms(5) q(6) refl] obtain v where
    v: "prepared s e v" "reduce_values s e = typed_stage s e v" "bs_world v = bs_world s" "bs_workspace v = w"
      "bs_memories v = bs_memories s" "bs_action_records v = bs_action_records s" by blast
  moreover have "ev_event_type e \<noteq> ''action.proposed''" "ev_event_type e \<noteq> ''personality.revised''"
    using assms(4) by (auto simp: quiet_events_def untyped_events_def)
  with v(1) have "bs_energy_records v = bs_energy_records s" "bs_personality v = bs_personality s"
    by (simp_all add: prepared_def)
  ultimately show ?thesis by (auto simp: same_view_def)
qed

lemma quiet_prepares:
  assumes "brain_ok s" "valid_event e" "event_admitted s e = Inr ()" "ev_event_type e \<in> set quiet_events"
    and "ev_event_type e \<noteq> ''workspace.broadcast''"
  shows "\<exists>v. prepared s e v \<and> reduce_values s e = typed_stage s e v"
  using quiet_view [OF assms(1-4), of "bs_workspace s"] assms(5) by (auto simp: reduce_workspace_def)

lemma brain_created_prepares:
  assumes "brain_ok s" "valid_event e" "event_admitted s e = Inr ()" "ev_event_type e = ''brain.created''"
  shows "\<exists>v. prepared s e v \<and> reduce_values s e = name_stage e v"
  using quiet_prepares [OF assms(1-3)] typed_stage_name [of e s] assms(4) by (auto simp: quiet_events_def)

lemma reduce_quiet:
  assumes "brain_ok s" "valid_event e" "event_admitted s e = Inr ()" "ev_event_type e \<in> set quiet_events"
    and "ev_event_type e \<noteq> ''workspace.broadcast''"
  shows "\<exists>v. prepared s e v \<and> reduce_state s e = rbind (typed_stage s e v) state_from_data"
  using quiet_prepares [OF assms] assms(2,3) brain_ok_valid [OF assms(1)]
  by (auto simp: reduce_state_def state_revalidated_def event_revalidated_def)

lemma reduce_untyped:
  assumes "brain_ok s" "valid_event e" "event_admitted s e = Inr ()" "ev_event_type e \<in> set untyped_events"
  shows "\<exists>s'. reduce_state s e = Inr s' \<and> brain_ok s' \<and> bs_name s' = bs_name s"
proof -
  from assms(4) obtain v where v: "prepared s e v" "reduce_state s e = rbind (typed_stage s e v) state_from_data"
    using reduce_quiet [OF assms(1-3)] by (auto simp: quiet_events_def untyped_events_def)
  have "typed_stage s e v = Inr v"
    using assms(4) by (auto simp: typed_stage_def untyped_events_def)
  with v reduce_state_ok [OF assms(1,2)] assms(4) show ?thesis
    by (auto simp: state_from_data_def untyped_events_def prepared_def escapes_def split: if_splits)
qed

lemma reduce_failure:
  assumes "brain_ok s" "valid_event e" "event_admitted s e = Inr ()" "ev_event_type e = ''runtime.failure''"
    and "runtime_failure_of e = Inr f"
  shows "\<exists>s'. reduce_state s e = Inr s' \<and> brain_ok s' \<and> rt_health (bs_runtime s') = Degraded \<and>
    rt_last_failure (bs_runtime s') = Some f"
proof -
  from assms(4) obtain v where v: "prepared s e v" "reduce_state s e = rbind (typed_stage s e v) state_from_data"
    using reduce_quiet [OF assms(1-3)] by (auto simp: quiet_events_def untyped_events_def)
  have t: "typed_stage s e v = failure_stage s e v" using assms(4) by (simp add: typed_stage_def)
  have "valid_runtime (bs_runtime s)" using assms(1) by (simp add: brain_ok_def consistent_def)
  then obtain v' where v': "failure_stage s e v = Inr v'" "rt_health (bs_runtime v') = Degraded"
      "rt_last_failure (bs_runtime v') = Some f"
    using assms(5) runtime_failure_of_Inr [OF assms(5)]
    by (auto simp: failure_stage_def Let_def valid_runtime_def)
  with failure_stage_ok [OF v(1) assms(4)] have "brain_ok v'" by simp
  then have "state_shell v'" using brain_ok_valid by (simp add: valid_state_def)
  with v v' t \<open>brain_ok v'\<close> show ?thesis by (simp add: state_from_data_def)
qed

lemma reduce_recovered:
  assumes "brain_ok s" "valid_event e" "event_admitted s e = Inr ()" "ev_event_type e = ''runtime.recovered''"
  shows "\<exists>s'. reduce_state s e = Inr s' \<and> brain_ok s' \<and> rt_health (bs_runtime s') = Healthy \<and>
    rt_consecutive_failures (bs_runtime s') = 0"
proof -
  from assms(4) obtain v where v: "prepared s e v" "reduce_state s e = rbind (typed_stage s e v) state_from_data"
    using reduce_quiet [OF assms(1-3)] by (auto simp: quiet_events_def untyped_events_def)
  have t: "typed_stage s e v = recovered_stage s v" using assms(4) by (simp add: typed_stage_def)
  from recovered_stage_ok [OF v(1) assms(4)] obtain v' where v': "recovered_stage s v = Inr v'" "brain_ok v'" by blast
  then have "rt_health (bs_runtime v') = Healthy" "rt_consecutive_failures (bs_runtime v') = 0"
    by (auto simp: recovered_stage_def Let_def split: if_splits)
  moreover have "state_shell v'" using brain_ok_valid [OF v'(2)] by (simp add: valid_state_def)
  ultimately show ?thesis using v v' t by (auto simp: state_from_data_def)
qed

text \<open>
  C12. A defect of the code: \<open>brain.created\<close> with a non-blank name longer than 160 characters is
  accepted, because the copied identity is not validated again, and the brain it leaves is lost,
  since every later reduction revalidates the identity and fails on it.
\<close>

theorem overlong_name_loses_brain:
  assumes "brain_ok s" "valid_event e" "event_admitted s e = Inr ()"
    and "ev_event_type e = ''brain.created''" "jget (ev_payload e) ''name'' = JStr n" "\<not> blank n" "160 < length n"
  shows "\<exists>s'. reduce_state s e = Inr s' \<and> (\<forall>e'. reduce_state s' e' = Inl (ValidationError ''BrainState''))"
proof -
  obtain v where v: "prepared s e v" "reduce_values s e = name_stage e v"
    using brain_created_prepares [OF assms(1-4)] by blast
  obtain s' where s': "name_stage e v = Inr s'" "state_shell s'" "id_name (bs_identity s') = Some n"
    using name_stage_shell [OF v(1) assms(4-6)] by blast
  have "reduce_state s e = Inr s'"
    using assms(2,3) brain_ok_valid [OF assms(1)] v(2) s'(1,2)
    by (simp add: reduce_state_def state_revalidated_def event_revalidated_def state_from_data_def)
  moreover have "\<not> valid_state s'"
    using s'(3) assms(7) by (auto simp: valid_state_def valid_parts_def valid_identity_def valid_name_def)
  then have "reduce_state s' e' = Inl (ValidationError ''BrainState'')" for e'
    by (simp add: reduce_state_def state_revalidated_def)
  ultimately show ?thesis by blast
qed

lemma genesis_admits: "event_admitted (brain_genesis sample_id) (sample_event t p) = Inr ()"
  by (simp add: event_admitted_def brain_genesis_def)

lemma overlong_name_loses_brain_witness:
  "\<exists>s'. reduce_state (brain_genesis sample_id) (named_event (replicate 161 CHR ''a'')) = Inr s' \<and>
     (\<forall>e'. reduce_state s' e' = Inl (ValidationError ''BrainState''))"
proof (rule overlong_name_loses_brain [OF brain_genesis_ok [OF sample_id_uuid] named_event_valid])
  show "event_admitted (brain_genesis sample_id) (named_event (replicate 161 CHR ''a'')) = Inr ()"
    by (simp add: named_event_def genesis_admits)
  show "jget (ev_payload (named_event (replicate 161 CHR ''a''))) ''name'' = JStr (replicate 161 CHR ''a'')"
    by (simp add: named_event_def jget_def jget_or_def)
  show "\<not> blank (replicate 161 CHR ''a'')" by (simp add: blank_iff list_all_iff py_space_def)
qed (simp_all add: named_event_def)

lemma named_brain_exists:
  "length n \<le> 160 \<Longrightarrow> \<not> blank n \<Longrightarrow> \<exists>s'. reduce_state (brain_genesis sample_id) ((named_event n)\<lparr>ev_sequence := Some 1\<rparr>) = Inr s'"
proof -
  assume n: "length n \<le> 160" "\<not> blank n"
  let ?s = "brain_genesis sample_id" and ?e = "(named_event n)\<lparr>ev_sequence := Some 1\<rparr>"
  have ok: "brain_ok ?s" by (rule brain_genesis_ok) simp
  have e: "valid_event ?e" by (intro valid_event_sequenced named_event_valid) simp
  have adm: "event_admitted ?s ?e = Inr ()"
    by (simp add: event_admitted_def brain_genesis_def named_event_def)
  obtain v where v: "prepared ?s ?e v" "reduce_values ?s ?e = name_stage ?e v"
    using brain_created_prepares [OF ok e adm] by (auto simp: named_event_def)
  have t: "ev_event_type ?e = ''brain.created''" "jget (ev_payload ?e) ''name'' = JStr n"
    by (simp_all add: named_event_def jget_def jget_or_def)
  obtain s' where s': "name_stage ?e v = Inr s'" "state_shell s'" using name_stage_shell [OF v(1) t n(2)] by blast
  have "reduce_state ?s ?e = Inr s'"
    using e adm brain_ok_valid [OF ok] v(2) s'
    by (simp add: reduce_state_def state_revalidated_def event_revalidated_def state_from_data_def)
  then show ?thesis by blast
qed

lemma accepted_sequences_contiguous_witness:
  "\<exists>s'. reduce_many (brain_genesis sample_id) [(named_event ''alice'')\<lparr>ev_sequence := Some 1\<rparr>] = Inr s' \<and>
     bs_last_sequence s' = bs_last_sequence (brain_genesis sample_id) +
       int (length [(named_event ''alice'')\<lparr>ev_sequence := Some 1\<rparr>])"
proof -
  obtain s' where s': "reduce_many (brain_genesis sample_id) [(named_event ''alice'')\<lparr>ev_sequence := Some 1\<rparr>] = Inr s'"
    using named_brain_exists [of "''alice''"] by (auto simp: reduce_many_def blank_Cons py_space_def)
  from accepted_sequences_contiguous [OF this] s' show ?thesis by auto
qed

end
