(* ===== verification/Ledger.thy ===== *)
theory Ledger imports Tables Replay
begin

text \<open>
  The append-only ledger of \<^verbatim>\<open>runtime/store.py\<close>: decoding persisted rows, idempotent and
  expected-sequence appends, pages, full and snapshot replay, snapshots and checkpoints. A method that
  runs inside one transaction is a function to a result; an error is the rolled-back transaction, which
  leaves the database as it was. The theorems: every operation keeps the ledger invariant, an append is
  idempotent, and a replay from a snapshot is the full replay.
\<close>

section \<open>Rows and their decoding\<close>

definition validate_event_json :: "platform \<Rightarrow> string \<Rightarrow> event_envelope res" where
  "validate_event_json P t = rbind (of_option (ValidationError ''EventEnvelope'') (pf_parse_event P t)) event_revalidated"

definition decode_event :: "platform \<Rightarrow> event_row \<Rightarrow> event_envelope res" where
  "decode_event P r = (case validate_event_json P (row_envelope_json r) of
     Inl _ \<Rightarrow> Inl (LedgerIntegrityError ''persisted event envelope is invalid'')
   | Inr e \<Rightarrow>
       if ev_event_id e \<noteq> row_event_id r \<or> ev_brain_id e \<noteq> row_brain_id r \<or> ev_sequence e \<noteq> Some (row_sequence r) then
         Inl (LedgerIntegrityError ''event row keys do not match its envelope'')
       else if body_fingerprint e \<noteq> row_body_fingerprint r then
         Inl (LedgerIntegrityError ''event body fingerprint does not match its body'')
       else if envelope_fingerprint e \<noteq> row_envelope_fingerprint r then
         Inl (LedgerIntegrityError ''event envelope fingerprint does not match its stored envelope'')
       else Inr e)"

definition event_row_of :: "event_envelope \<Rightarrow> int \<Rightarrow> event_row" where
  "event_row_of e n = \<lparr>row_brain_id = ev_brain_id e, row_sequence = n, row_event_id = ev_event_id e,
     row_body_fingerprint = body_fingerprint e, row_envelope_fingerprint = envelope_fingerprint e,
     row_envelope_json = event_text False e\<rparr>"

text \<open>\<open>INSERT INTO events\<close> under the constraints of the schema.\<close>

definition insert_event :: "event_row \<Rightarrow> database \<Rightarrow> database res" where
  "insert_event r L =
     (if row_sequence r < 1 \<or> db_brains L (row_brain_id r) = None \<or>
         list_ex (\<lambda>q. row_event_id q = row_event_id r \<or>
           row_brain_id q = row_brain_id r \<and> row_sequence q = row_sequence r) (db_events L)
      then Inl (SqliteIntegrityError ''events'')
      else Inr (L\<lparr>db_events := db_events L @ [r]\<rparr>))"

text \<open>\<open>WHERE brain_id = ? AND sequence > ? ORDER BY sequence ASC\<close>, and \<open>COALESCE(MAX(sequence), 0)\<close>.\<close>

definition rows_after :: "database \<Rightarrow> string \<Rightarrow> int \<Rightarrow> event_row list" where
  "rows_after L b n = sort_key row_sequence (filter (\<lambda>r. row_brain_id r = b \<and> n < row_sequence r) (db_events L))"

definition ledger_head :: "database \<Rightarrow> string \<Rightarrow> int" where
  "ledger_head L b = foldr (\<lambda>r m. if row_brain_id r = b then max (row_sequence r) m else m) (db_events L) 0"

section \<open>Observability and names\<close>

definition MAX_PERSISTED_OBSERVABILITY_COUNT :: int where
  "MAX_PERSISTED_OBSERVABILITY_COUNT = 2 ^ 63 - 1"

definition persisted_count :: "string \<Rightarrow> int \<Rightarrow> unit res" where
  "persisted_count field v = (if v < 0 \<or> v > MAX_PERSISTED_OBSERVABILITY_COUNT then
     Inl (LedgerIntegrityError (''persisted observability '' @ field @ '' is not an exact bounded integer'')) else Inr ())"

definition checked_add :: "int \<Rightarrow> int \<Rightarrow> string \<Rightarrow> int res" where
  "checked_add current increment field = rbind (persisted_count field current) (\<lambda>_.
     if increment < 0 then Inl (PyValueError ''observability increments must be non-negative integers'')
     else if current + increment > MAX_PERSISTED_OBSERVABILITY_COUNT then
       Inl (DomainCapacityError (''observability '' @ field @ '' capacity is exhausted; record was not applied''))
     else Inr (current + increment))"

definition observability_row :: "database \<Rightarrow> string \<Rightarrow> observability_row res" where
  "observability_row L b = (case db_observability L b of
     None \<Rightarrow> Inl (LedgerIntegrityError ''semantic observability row is missing'')
   | Some o' \<Rightarrow>
       rbind (persisted_count ''dropped_events'' (ob_dropped_events o')) (\<lambda>_.
       rbind (persisted_count ''semantic_records'' (ob_semantic_records o')) (\<lambda>_.
       rbind (persisted_count ''legacy_raw_only_records'' (ob_legacy_raw_only_records o')) (\<lambda>_.
       rbind (persisted_count ''semantic_gap_records'' (ob_semantic_gap_records o')) (\<lambda>_. Inr o')))))"

definition ensure_observability_row :: "string \<Rightarrow> database \<Rightarrow> database" where
  "ensure_observability_row b L = (case db_observability L b of
     Some _ \<Rightarrow> L
   | None \<Rightarrow> L\<lparr>db_observability := (db_observability L)(b \<mapsto>
       \<lparr>ob_trace_complete = True, ob_semantic_complete = True, ob_dropped_events = 0, ob_semantic_records = 0,
        ob_legacy_raw_only_records = 0, ob_semantic_gap_records = 0\<rparr>)\<rparr>)"

definition record_gap_observability :: "string \<Rightarrow> database \<Rightarrow> database res" where
  "record_gap_observability b L =
     rbind (observability_row L b) (\<lambda>o'.
     rbind (checked_add (ob_semantic_gap_records o') 1 ''semantic_gap_records'') (\<lambda>n.
     Inr (L\<lparr>db_observability := (db_observability L)(b \<mapsto> o'\<lparr>ob_trace_complete := False,
       ob_semantic_complete := False, ob_semantic_gap_records := n\<rparr>)\<rparr>)))"

definition ensure_brain_row :: "string \<Rightarrow> database \<Rightarrow> database" where
  "ensure_brain_row b L = (case db_brains L b of Some _ \<Rightarrow> L | None \<Rightarrow> L\<lparr>db_brains := (db_brains L)(b \<mapsto> 1)\<rparr>)"

definition ensure_brain :: "string \<Rightarrow> database \<Rightarrow> (string \<times> database) res" where
  "ensure_brain v L = rbind (validate_id v) (\<lambda>b. Inr (b, ensure_observability_row b (ensure_brain_row b L)))"

text \<open>
  \<open>_record_identity_name_in_transaction\<close>: an upsert by brain, under the unique indices on the
  normalised name and on the source event. A name that is not a string fails in the normalisation.
\<close>

definition record_identity_name :: "platform \<Rightarrow> string \<Rightarrow> json \<Rightarrow> string \<Rightarrow> database \<Rightarrow> database res" where
  "record_identity_name P b name source L = (case name of
     JNull \<Rightarrow> Inr L
   | JStr n \<Rightarrow> rbind (identity_name_normalization_key P n) (\<lambda>key.
       if list_ex (\<lambda>r. nr_brain_id r \<noteq> b \<and> (nr_normalized_name r = key \<or> nr_source_event_id r = source)) (db_names L)
       then Inl (SqliteIntegrityError ''identity_name_registry'')
       else Inr (L\<lparr>db_names := put_last nr_brain_id (db_names L)
         \<lparr>nr_brain_id = b, nr_normalized_name = key, nr_display_name = n, nr_source_event_id = source\<rparr>\<rparr>))
   | _ \<Rightarrow> Inl (PyTypeError ''identity name must be a string''))"

section \<open>Appending\<close>

definition append_existing ::
  "platform \<Rightarrow> event_envelope \<Rightarrow> int option \<Rightarrow> int \<Rightarrow> event_row \<Rightarrow> event_envelope res" where
  "append_existing P e expected head row =
     rbind (decode_event P row) (\<lambda>stored.
       if row_body_fingerprint row \<noteq> body_fingerprint e \<or> event_text True stored \<noteq> event_text True e then
         (case expected of
            Some n \<Rightarrow> if head \<noteq> n - 1 then
                Inl (ExpectedSequenceError (''expected sequence '' @ int_text n @ '', but target brain head is '' @ int_text head))
              else Inl (EventConflictError (''event ID '' @ ev_event_id e @ '' already has a different body''))
          | None \<Rightarrow> Inl (EventConflictError (''event ID '' @ ev_event_id e @ '' already has a different body'')))
       else if ev_sequence e \<noteq> None \<and> ev_sequence e \<noteq> ev_sequence stored then
         Inl (EventConflictError (''event ID '' @ ev_event_id e @ '' retry sequence '' @
           int_text (the (ev_sequence e)) @ '' does not match stored sequence '' @ int_text (row_sequence row)))
       else (case expected of
           Some n \<Rightarrow> if ev_sequence stored \<noteq> Some n \<or> head \<noteq> n then
               Inl (ExpectedSequenceError (''expected sequence '' @ int_text n @ '' for brain '' @ ev_brain_id e @
                 '', but exact event is at sequence '' @ int_text (row_sequence row) @ '' and current head is '' @ int_text head))
             else Inr stored
         | None \<Rightarrow> Inr stored))"

text \<open>What the insertion of an event records beside it: the name it gives, the gap it reports.\<close>

definition register_event :: "platform \<Rightarrow> event_envelope \<Rightarrow> database \<Rightarrow> database res" where
  "register_event P stored L =
     rbind (if ev_event_type stored \<in> {''brain.created'', ''identity.named''}
            then record_identity_name P (ev_brain_id stored) (jget (ev_payload stored) ''name'') (ev_event_id stored) L
            else Inr L) (\<lambda>L.
     if ev_event_type stored \<in> {''semantic.gap'', ''trace.gap''}
     then record_gap_observability (ev_brain_id stored) L else Inr L)"

definition append_new ::
  "platform \<Rightarrow> event_envelope \<Rightarrow> int option \<Rightarrow> database \<Rightarrow> (event_envelope \<times> database) res" where
  "append_new P e expected L0 =
     (if ev_sequence e \<noteq> None then
        Inl (PyValueError ''a new persistent event must not supply an allocated sequence'')
      else let b = ev_brain_id e; L = ensure_observability_row b (ensure_brain_row b L0);
               n = the (db_brains L b)
        in if expected \<noteq> None \<and> expected \<noteq> Some n then
             Inl (ExpectedSequenceError (''expected sequence '' @ int_text (the expected) @ '' for brain '' @ b @
               '', but next sequence is '' @ int_text n))
           else
             rbind (event_revalidated (e\<lparr>ev_sequence := Some n\<rparr>)) (\<lambda>stored.
             rbind (insert_event (event_row_of stored n) (L\<lparr>db_brains := (db_brains L)(b \<mapsto> n + 1)\<rparr>)) (\<lambda>L.
             rbind (register_event P stored L) (\<lambda>L. Inr (stored, L)))))"

definition append_event ::
  "platform \<Rightarrow> event_envelope \<Rightarrow> int option \<Rightarrow> database \<Rightarrow> ((event_envelope \<times> bool) \<times> database) res" where
  "append_event P event expected L =
     rbind (event_revalidated event) (\<lambda>e.
     case filter (\<lambda>r. row_event_id r = ev_event_id e \<or> row_body_fingerprint r = body_fingerprint e) (db_events L) of
       [] \<Rightarrow> rbind (append_new P e expected L) (\<lambda>(stored, L'). Inr ((stored, True), L'))
     | [row] \<Rightarrow> rbind (append_existing P e expected (ledger_head L (ev_brain_id e)) row) (\<lambda>stored. Inr ((stored, False), L))
     | _ \<Rightarrow> Inl (LedgerIntegrityError (''event ID '' @ ev_event_id e @ '' resolves to multiple ledger rows'')))"

definition ledger_append :: "platform \<Rightarrow> event_envelope \<Rightarrow> database \<Rightarrow> (event_envelope \<times> database) res" where
  "ledger_append P e L = rbind (append_event P e None L) (\<lambda>((stored, _), L'). Inr (stored, L'))"

definition validate_expected_sequence :: "int \<Rightarrow> int res" where
  "validate_expected_sequence n = (if n < 1 then Inl (PyValueError ''expected_sequence must be positive'') else Inr n)"

definition append_expected ::
  "platform \<Rightarrow> event_envelope \<Rightarrow> int \<Rightarrow> database \<Rightarrow> ((event_envelope \<times> bool) \<times> database) res" where
  "append_expected P e n L = rbind (validate_expected_sequence n) (\<lambda>n. append_event P e (Some n) L)"

section \<open>Reading\<close>

definition get_event :: "platform \<Rightarrow> database \<Rightarrow> string \<Rightarrow> event_envelope option res" where
  "get_event P L v = rbind (validate_id v) (\<lambda>i. case lookup row_event_id (db_events L) i of
     None \<Rightarrow> Inr None | Some r \<Rightarrow> rbind (decode_event P r) (\<lambda>e. Inr (Some e)))"

definition get_event_and_head :: "platform \<Rightarrow> database \<Rightarrow> string \<Rightarrow> string \<Rightarrow> (event_envelope option \<times> int) res" where
  "get_event_and_head P L i b = rbind (validate_id i) (\<lambda>i. rbind (validate_id b) (\<lambda>b.
     case lookup row_event_id (db_events L) i of
       None \<Rightarrow> Inr (None, ledger_head L b)
     | Some r \<Rightarrow> rbind (decode_event P r) (\<lambda>e. Inr (Some e, ledger_head L b))))"

definition MAX_PAGE_SIZE :: int where "MAX_PAGE_SIZE = 10000"

definition validate_page :: "int \<Rightarrow> int \<Rightarrow> unit res" where
  "validate_page after_sequence limit =
     (if after_sequence < 0 then Inl (PyValueError ''after_sequence cannot be negative'')
      else if \<not> (1 \<le> limit \<and> limit \<le> MAX_PAGE_SIZE) then
        Inl (PyValueError (''limit must be between 1 and '' @ int_text MAX_PAGE_SIZE))
      else Inr ())"

definition list_events :: "platform \<Rightarrow> database \<Rightarrow> string \<Rightarrow> int \<Rightarrow> int \<Rightarrow> event_envelope list res" where
  "list_events P L v after_sequence limit = rbind (validate_id v) (\<lambda>b. rbind (validate_page after_sequence limit) (\<lambda>_.
     rmap (decode_event P) (take (nat limit) (rows_after L b after_sequence))))"

text \<open>
  \<open>iter_events\<close>: the pages after a cursor until one is empty. The generator's values are collected, and an
  error of a later page is the error of the iteration. Every page moves the cursor past its last row, so
  the loop ends on any database.
\<close>

lemma rbind_cong [fundef_cong]:
  "m = m' \<Longrightarrow> (\<And>x. m' = Inr x \<Longrightarrow> f x = g x) \<Longrightarrow> rbind m f = rbind m' g"
  by (auto simp: rbind_def split: sum.splits)

definition next_cursor :: "int \<Rightarrow> event_envelope list \<Rightarrow> int" where
  "next_cursor cursor page = (case ev_sequence (last page) of
     None \<Rightarrow> cursor | Some n \<Rightarrow> if n = 0 then cursor else n)"

lemma decoded_sequence: "decode_event P r = Inr e \<Longrightarrow> ev_sequence e = Some (row_sequence r) \<and> 1 \<le> row_sequence r"
  by (auto simp: decode_event_def validate_event_json_def res_simps valid_event_def split: sum.splits if_splits)

lemma page_advances:
  assumes "list_events P L b cursor limit = Inr page" "page \<noteq> []"
  shows "length (rows_after L b (next_cursor cursor page)) < length (rows_after L b cursor)"
proof -
  from assms(1) have "rmap (decode_event P) (take (nat limit) (rows_after L b cursor)) = Inr page"
    by (auto simp: list_events_def rbind_eq_Inr)
  with assms(2) obtain r where r: "r \<in> set (rows_after L b cursor)" "decode_event P r = Inr (last page)"
    using rmap_set in_set_takeD last_in_set by metis
  then have n: "next_cursor cursor page = row_sequence r" "row_brain_id r = b" "cursor < row_sequence r" "r \<in> set (db_events L)"
    using decoded_sequence [OF r(2)] by (auto simp: next_cursor_def rows_after_def)
  have "length (filter (\<lambda>q. row_brain_id q = b \<and> row_sequence r < row_sequence q) xs) <
      length (filter (\<lambda>q. row_brain_id q = b \<and> cursor < row_sequence q) xs)" if "r \<in> set xs" for xs
    using that
  proof (induction xs)
    case (Cons q xs)
    have "length (filter (\<lambda>q. row_brain_id q = b \<and> row_sequence r < row_sequence q) xs) \<le>
        length (filter (\<lambda>q. row_brain_id q = b \<and> cursor < row_sequence q) xs)"
      using n(3) by (induction xs) auto
    with Cons n show ?case by auto
  qed simp
  with n show ?thesis by (simp add: rows_after_def)
qed

function pages_from :: "platform \<Rightarrow> database \<Rightarrow> string \<Rightarrow> int \<Rightarrow> int \<Rightarrow> event_envelope list res" where
  "pages_from P L b cursor page_size =
     rbind (list_events P L b cursor page_size) (\<lambda>page.
     if page = [] then Inr []
     else rbind (pages_from P L b (next_cursor cursor page) page_size) (\<lambda>rest. Inr (page @ rest)))"
  by pat_completeness auto
termination
  by (relation "measure (\<lambda>(P, L, b, cursor, page_size). length (rows_after L b cursor))") (auto dest: page_advances)

declare pages_from.simps [simp del]

definition iter_events :: "platform \<Rightarrow> database \<Rightarrow> string \<Rightarrow> int \<Rightarrow> int \<Rightarrow> event_envelope list res" where
  "iter_events P L v after_sequence page_size = rbind (validate_id v) (\<lambda>b.
     rbind (validate_page after_sequence page_size) (\<lambda>_. pages_from P L b after_sequence page_size))"

section \<open>Replay\<close>

definition replay_rows :: "platform \<Rightarrow> brain_state \<Rightarrow> event_row list \<Rightarrow> brain_state res" where
  "replay_rows P s rows = rfold (\<lambda>s r. rbind (decode_event P r) (reduce_state s)) s rows"

definition full_replay :: "platform \<Rightarrow> database \<Rightarrow> string \<Rightarrow> int option \<Rightarrow> brain_state res" where
  "full_replay P L b through = replay_rows P (brain_genesis b) (sort_key row_sequence
     (filter (\<lambda>r. row_brain_id r = b \<and> (case through of None \<Rightarrow> True | Some n \<Rightarrow> row_sequence r \<le> n)) (db_events L)))"

definition LEGACY_STATE_SCHEMA_VERSIONS :: "int list" where "LEGACY_STATE_SCHEMA_VERSIONS = [1, 2, 3, 4]"

definition supported_schema :: "int \<Rightarrow> bool" where
  "supported_schema v = (v \<in> set LEGACY_STATE_SCHEMA_VERSIONS \<or> v = STATE_SCHEMA_VERSION)"

definition unsupported :: "int \<Rightarrow> py_error" where
  "unsupported v = SchemaVersionError (''unsupported snapshot schema '' @ int_text v)"

definition validate_snapshot_schemas :: "database \<Rightarrow> string \<Rightarrow> unit res" where
  "validate_snapshot_schemas L b = rfold (\<lambda>_ v. if supported_schema v then Inr () else Inl (unsupported v)) ()
     (sort (remdups (map snap_schema_version (filter (\<lambda>s. snap_brain_id s = b) (db_snapshots L)))))"

definition snapshot_fingerprint :: "string \<Rightarrow> string" where
  "snapshot_fingerprint state_json = sha256_hex state_json"

definition decode_snapshot :: "platform \<Rightarrow> snapshot_row \<Rightarrow> string \<Rightarrow> brain_state res" where
  "decode_snapshot P r b =
     (if snap_schema_version r \<noteq> STATE_SCHEMA_VERSION then Inl (unsupported (snap_schema_version r))
      else case rbind (of_option (ValidationError ''BrainState'') (pf_parse_state P (snap_state_json r))) state_revalidated of
        Inl _ \<Rightarrow> Inl (LedgerIntegrityError ''persisted snapshot state is invalid'')
      | Inr s \<Rightarrow>
          if bs_brain_id s \<noteq> b \<or> bs_last_sequence s \<noteq> snap_sequence r then
            Inl (LedgerIntegrityError ''snapshot row keys do not match its state'')
          else if snap_state_json r \<noteq> pf_state_text P s then
            Inl (LedgerIntegrityError ''persisted snapshot state is not canonical'')
          else if snapshot_fingerprint (pf_state_text P s) \<noteq> snap_fingerprint r then
            Inl (LedgerIntegrityError ''snapshot fingerprint does not match its state'')
          else Inr s)"

text \<open>\<open>ORDER BY sequence DESC LIMIT 1\<close>.\<close>

definition latest_of :: "snapshot_row list \<Rightarrow> snapshot_row option" where
  "latest_of rows = (case sort_key snap_sequence rows of [] \<Rightarrow> None | rs \<Rightarrow> Some (last rs))"

definition latest_snapshot :: "database \<Rightarrow> string \<Rightarrow> snapshot_row option" where
  "latest_snapshot L b = latest_of (filter (\<lambda>s. snap_brain_id s = b) (db_snapshots L))"

definition load_snapshot_row :: "platform \<Rightarrow> database \<Rightarrow> string \<Rightarrow> brain_state option res" where
  "load_snapshot_row P L b = (case latest_snapshot L b of
     None \<Rightarrow> Inr None
   | Some r \<Rightarrow> if snap_schema_version r \<in> set LEGACY_STATE_SCHEMA_VERSIONS then Inr None
       else rbind (decode_snapshot P r b) (\<lambda>s. Inr (Some s)))"

definition load_snapshot :: "platform \<Rightarrow> database \<Rightarrow> string \<Rightarrow> brain_state option res" where
  "load_snapshot P L v = rbind (validate_id v) (\<lambda>b.
     rbind (validate_snapshot_schemas L b) (\<lambda>_. load_snapshot_row P L b))"

definition ledger_replay :: "platform \<Rightarrow> database \<Rightarrow> string \<Rightarrow> bool \<Rightarrow> brain_state res" where
  "ledger_replay P L v use_snapshot =
     rbind (validate_id v) (\<lambda>b.
     rbind (validate_snapshot_schemas L b) (\<lambda>_.
     rbind (if use_snapshot then load_snapshot_row P L b else Inr None) (\<lambda>loaded.
     let state = (case loaded of None \<Rightarrow> brain_genesis b | Some s \<Rightarrow> s)
     in replay_rows P state (rows_after L b (bs_last_sequence state)))))"

text \<open>\<open>_authoritative_brain_head_in_transaction\<close> and \<open>bootstrap_state\<close>.\<close>

definition authoritative_head :: "database \<Rightarrow> string \<Rightarrow> int option res" where
  "authoritative_head L b = (case db_brains L b of
     None \<Rightarrow> Inr None
   | Some n \<Rightarrow> if n < 1 then Inl (LedgerIntegrityError ''authoritative brain sequence allocation is invalid'')
       else Inr (Some (n - 1)))"

definition bootstrap_state :: "platform \<Rightarrow> database \<Rightarrow> string \<Rightarrow> brain_state res" where
  "bootstrap_state P L v = rbind (validate_id v) (\<lambda>b. rbind (authoritative_head L b) (\<lambda>head.
     case db_audited L b of
       Some s \<Rightarrow> if head = Some (bs_last_sequence s) then Inr s else ledger_replay P L b True
     | None \<Rightarrow> ledger_replay P L b True))"

section \<open>Foundations and snapshots\<close>

definition create_brain_foundation ::
  "platform \<Rightarrow> string \<Rightarrow> json \<Rightarrow> string \<Rightarrow> string \<Rightarrow> int \<Rightarrow> database \<Rightarrow> (event_envelope \<times> database) res" where
  "create_brain_foundation P v name event_id wall_time monotonic_ns L0 =
     rbind (validate_id v) (\<lambda>b.
     rbind (new_event ''brain.created'' b b [(''name'', name)] event_id wall_time monotonic_ns no_provenance) (\<lambda>event.
     rbind (event_revalidated (event\<lparr>ev_sequence := Some 1\<rparr>)) (\<lambda>provisional.
     rbind (reduce_state (brain_genesis b) provisional) (\<lambda>_.
     if db_brains L0 b \<noteq> None then Inl (EventConflictError ''brain foundation already exists'')
     else
       rbind (insert_event (event_row_of provisional 1)
         (ensure_observability_row b (L0\<lparr>db_brains := (db_brains L0)(b \<mapsto> 2)\<rparr>))) (\<lambda>L.
       rbind (record_identity_name P b name (ev_event_id provisional) L) (\<lambda>L.
       Inr (provisional, L)))))))"

definition snapshot_of :: "platform \<Rightarrow> brain_state \<Rightarrow> snapshot_row" where
  "snapshot_of P s = \<lparr>snap_brain_id = bs_brain_id s, snap_sequence = bs_last_sequence s,
     snap_schema_version = STATE_SCHEMA_VERSION, snap_fingerprint = snapshot_fingerprint (pf_state_text P s),
     snap_state_json = pf_state_text P s\<rparr>"

text \<open>\<open>INSERT INTO snapshots\<close>, and the update of the row with the same brain and sequence.\<close>

definition insert_snapshot :: "snapshot_row \<Rightarrow> database \<Rightarrow> database res" where
  "insert_snapshot r L =
     (if snap_sequence r < 0 \<or> list_ex (\<lambda>q. snap_brain_id q = snap_brain_id r \<and> snap_sequence q = snap_sequence r) (db_snapshots L)
      then Inl (SqliteIntegrityError ''snapshots'') else Inr (L\<lparr>db_snapshots := db_snapshots L @ [r]\<rparr>))"

definition update_snapshot :: "snapshot_row \<Rightarrow> database \<Rightarrow> database" where
  "update_snapshot r L = L\<lparr>db_snapshots := map (\<lambda>q. if snap_brain_id q = snap_brain_id r \<and>
     snap_sequence q = snap_sequence r then r else q) (db_snapshots L)\<rparr>"

definition save_snapshot :: "platform \<Rightarrow> brain_state \<Rightarrow> database \<Rightarrow> (brain_state \<times> database) res" where
  "save_snapshot P state L =
     rbind (state_revalidated state) (\<lambda>s.
     let b = bs_brain_id s; n = bs_last_sequence s; maximum = ledger_head L b; row = snapshot_of P s
     in if db_brains L b = None then Inl (PyKeyError b)
     else rbind (validate_snapshot_schemas L b) (\<lambda>_.
     if n > maximum then
       Inl (SnapshotConflictError (''snapshot sequence '' @ int_text n @ '' points past ledger sequence '' @ int_text maximum))
     else case latest_snapshot L b of
       None \<Rightarrow>
         rbind (full_replay P L b (Some n)) (\<lambda>expected.
         if pf_state_text P expected \<noteq> pf_state_text P s then
           Inl (SnapshotConflictError ''snapshot does not equal deterministic full replay'')
         else rbind (insert_snapshot row L) (\<lambda>L. Inr (s, L)))
     | Some latest \<Rightarrow>
         if \<not> supported_schema (snap_schema_version latest) then Inl (unsupported (snap_schema_version latest))
         else if n < snap_sequence latest then
           Inl (SnapshotConflictError (''snapshot sequence '' @ int_text n @ '' is older than saved sequence '' @
             int_text (snap_sequence latest)))
         else
           rbind (full_replay P L b (Some n)) (\<lambda>expected.
           if pf_state_text P expected \<noteq> pf_state_text P s then
             Inl (SnapshotConflictError ''snapshot does not equal deterministic full replay'')
           else if n = snap_sequence latest then
             if snap_schema_version latest = STATE_SCHEMA_VERSION then
               if snap_fingerprint latest \<noteq> snap_fingerprint row then
                 Inl (SnapshotConflictError ''snapshot sequence already has a different state'')
               else rbind (decode_snapshot P latest b) (\<lambda>d. Inr (d, L))
             else Inr (s, update_snapshot row L)
           else rbind (insert_snapshot row L) (\<lambda>L. Inr (s, L)))))"

definition checkpoint_event :: "platform \<Rightarrow> brain_state \<Rightarrow> event_row \<Rightarrow> brain_state res" where
  "checkpoint_event P s r = (case rbind (decode_event P r) (reduce_state s) of
     Inl (LedgerIntegrityError m) \<Rightarrow> Inl (LedgerIntegrityError m)
   | Inl (SchemaVersionError m) \<Rightarrow> Inl (SchemaVersionError m)
   | Inl _ \<Rightarrow> Inl (LedgerIntegrityError ''snapshot-tail replay violated deterministic state'')
   | Inr s' \<Rightarrow> Inr s')"

definition store_checkpoint :: "platform \<Rightarrow> brain_state \<Rightarrow> database \<Rightarrow> (brain_state \<times> database) res" where
  "store_checkpoint P s L = (case latest_snapshot L (bs_brain_id s) of
     None \<Rightarrow> rbind (insert_snapshot (snapshot_of P s) L) (\<lambda>L. Inr (s, L))
   | Some latest \<Rightarrow>
       if snap_sequence latest = bs_last_sequence s then
         if snap_schema_version latest = STATE_SCHEMA_VERSION then
           rbind (decode_snapshot P latest (bs_brain_id s)) (\<lambda>persisted.
             if pf_state_text P persisted \<noteq> pf_state_text P s then
               Inl (SnapshotConflictError ''snapshot sequence already has a different state'')
             else Inr (persisted, L))
         else Inr (s, update_snapshot (snapshot_of P s) L)
       else rbind (insert_snapshot (snapshot_of P s) L) (\<lambda>L. Inr (s, L)))"

definition checkpoint_current_state :: "platform \<Rightarrow> brain_state \<Rightarrow> database \<Rightarrow> (brain_state \<times> database) res" where
  "checkpoint_current_state P state L =
     (if \<not> valid_state state then Inl (SnapshotConflictError ''checkpoint state is invalid'')
      else let s = state; b = bs_brain_id s; n = bs_last_sequence s in
       rbind (validate_snapshot_schemas L b) (\<lambda>_.
       rbind (authoritative_head L b) (\<lambda>h.
       rbind (of_option (PyKeyError b) h) (\<lambda>head.
       if head \<noteq> n then
         Inl (SnapshotConflictError (''checkpoint sequence '' @ int_text n @ '' does not match current ledger head '' @ int_text head))
       else
         rbind (case latest_of (filter (\<lambda>q. snap_brain_id q = b \<and> snap_schema_version q = STATE_SCHEMA_VERSION) (db_snapshots L)) of
                  None \<Rightarrow> Inr (brain_genesis b) | Some base \<Rightarrow> decode_snapshot P base b) (\<lambda>base.
         rbind (rfold (checkpoint_event P) base
                  (filter (\<lambda>r. row_sequence r \<le> n) (rows_after L b (bs_last_sequence base)))) (\<lambda>expected.
         if pf_state_text P expected \<noteq> pf_state_text P s then
           Inl (SnapshotConflictError ''checkpoint does not equal deterministic snapshot-tail replay'')
         else store_checkpoint P s L))))))"

section \<open>Numbered rows\<close>

text \<open>Rows whose key counts up from one: range queries are prefixes and suffixes.\<close>

definition numbered :: "('a \<Rightarrow> int) \<Rightarrow> 'a list \<Rightarrow> bool" where
  "numbered f xs = (map f xs = map int [1..<Suc (length xs)])"

lemma numbered_Nil [simp]: "numbered f []"
  by (simp add: numbered_def)

lemma numbered_snoc: "numbered f (xs @ [x]) \<longleftrightarrow> numbered f xs \<and> f x = int (length xs) + 1"
  by (auto simp: numbered_def)

lemma numbered_take: "numbered f xs \<Longrightarrow> filter (\<lambda>x. f x \<le> int k) xs = take k xs"
proof (induction xs rule: rev_induct)
  case (snoc x xs)
  then show ?case by (cases "k \<le> length xs") (auto simp: numbered_snoc)
qed simp

lemma numbered_drop: "numbered f xs \<Longrightarrow> filter (\<lambda>x. int k < f x) xs = drop k xs"
proof (induction xs rule: rev_induct)
  case (snoc x xs)
  then show ?case by (cases "k \<le> length xs") (auto simp: numbered_snoc)
qed simp

lemma numbered_bounds: "numbered f xs \<Longrightarrow> x \<in> set xs \<Longrightarrow> 1 \<le> f x \<and> f x \<le> int (length xs)"
proof (induction xs rule: rev_induct)
  case (snoc y xs)
  then show ?case by (fastforce simp: numbered_snoc)
qed simp

lemma numbered_nth: "numbered f xs \<Longrightarrow> j < length xs \<Longrightarrow> f (xs ! j) = int j + 1"
proof -
  assume n: "numbered f xs" and j: "j < length xs"
  then have "map f xs ! j = map int [1..<Suc (length xs)] ! j" by (simp only: numbered_def)
  with j show ?thesis by (simp del: upt_Suc)
qed

lemma numbered_sorted: "numbered f xs \<Longrightarrow> sorted (map f xs)"
proof (induction xs rule: rev_induct)
  case (snoc y xs)
  then show ?case by (auto simp: numbered_snoc sorted_append dest: numbered_bounds)
qed simp

lemma numbered_sort: "numbered f xs \<Longrightarrow> sort_key f (filter Q xs) = filter Q xs"
  by (intro sort_key_id_if_sorted sorted_filter numbered_sorted)

lemma numbered_sort_all: "numbered f xs \<Longrightarrow> sort_key f xs = xs"
  by (intro sort_key_id_if_sorted numbered_sorted)

lemma numbered_prefix: "numbered f xs \<Longrightarrow> sort_key f (filter (\<lambda>x. f x \<le> int k) xs) = take k xs"
  using numbered_sort [of f xs "\<lambda>x. f x \<le> int k"] numbered_take [of f xs k] by simp

lemma numbered_suffix: "numbered f xs \<Longrightarrow> sort_key f (filter (\<lambda>x. int k < f x) xs) = drop k xs"
  using numbered_sort [of f xs "\<lambda>x. int k < f x"] numbered_drop [of f xs k] by simp

section \<open>The ledger invariant\<close>

definition history :: "database \<Rightarrow> string \<Rightarrow> event_row list" where
  "history L b = filter (\<lambda>r. row_brain_id r = b) (db_events L)"

definition snapshot_sound :: "platform \<Rightarrow> database \<Rightarrow> snapshot_row \<Rightarrow> bool" where
  "snapshot_sound P L s = (0 \<le> snap_sequence s \<and> snap_sequence s \<le> int (length (history L (snap_brain_id s))) \<and>
     supported_schema (snap_schema_version s) \<and>
     (snap_schema_version s = STATE_SCHEMA_VERSION \<longrightarrow>
       (\<exists>st. decode_snapshot P s (snap_brain_id s) = Inr st \<and>
         full_replay P L (snap_brain_id s) (Some (snap_sequence s)) = Inr st)))"

definition audit_sound :: "platform \<Rightarrow> database \<Rightarrow> string \<Rightarrow> brain_state \<Rightarrow> bool" where
  "audit_sound P L b s = (0 \<le> bs_last_sequence s \<and> bs_last_sequence s \<le> int (length (history L b)) \<and>
     full_replay P L b (Some (bs_last_sequence s)) = Inr s)"

definition ledger_ok :: "platform \<Rightarrow> database \<Rightarrow> bool" where
  "ledger_ok P L \<longleftrightarrow>
     (\<forall>b. numbered row_sequence (history L b)) \<and>
     (\<forall>b. case db_brains L b of None \<Rightarrow> history L b = [] | Some n \<Rightarrow> n = int (length (history L b)) + 1) \<and>
     distinct (map row_event_id (db_events L)) \<and>
     (\<forall>r \<in> set (db_events L). \<exists>e. decode_event P r = Inr e \<and> row_envelope_json r = event_text False e) \<and>
     (\<forall>s \<in> set (db_snapshots L). snapshot_sound P L s) \<and>
     distinct (map (\<lambda>s. (snap_brain_id s, snap_sequence s)) (db_snapshots L)) \<and>
     (\<forall>b s. db_audited L b = Some s \<longrightarrow> audit_sound P L b s)"

lemma ledger_okD:
  assumes "ledger_ok P L"
  shows "numbered row_sequence (history L b)"
    and "db_brains L b = None \<Longrightarrow> history L b = []"
    and "db_brains L b = Some n \<Longrightarrow> n = int (length (history L b)) + 1"
    and "distinct (map row_event_id (db_events L))"
    and "r \<in> set (db_events L) \<Longrightarrow> \<exists>e. decode_event P r = Inr e \<and> row_envelope_json r = event_text False e"
    and "s \<in> set (db_snapshots L) \<Longrightarrow> snapshot_sound P L s"
    and "distinct (map (\<lambda>s. (snap_brain_id s, snap_sequence s)) (db_snapshots L))"
    and "db_audited L b = Some st \<Longrightarrow> audit_sound P L b st"
proof -
  note ok = assms [unfolded ledger_ok_def]
  show "numbered row_sequence (history L b)" "distinct (map row_event_id (db_events L))"
    "r \<in> set (db_events L) \<Longrightarrow> \<exists>e. decode_event P r = Inr e \<and> row_envelope_json r = event_text False e" "s \<in> set (db_snapshots L) \<Longrightarrow> snapshot_sound P L s"
    "distinct (map (\<lambda>s. (snap_brain_id s, snap_sequence s)) (db_snapshots L))"
    "db_audited L b = Some st \<Longrightarrow> audit_sound P L b st"
    using ok by blast+
  have "case db_brains L b of None \<Rightarrow> history L b = [] | Some n \<Rightarrow> n = int (length (history L b)) + 1"
    using ok by blast
  then show "db_brains L b = None \<Longrightarrow> history L b = []"
    "db_brains L b = Some n \<Longrightarrow> n = int (length (history L b)) + 1" by simp_all
qed

lemma history_filter:
  "filter (\<lambda>r. row_brain_id r = b \<and> Q r) (db_events L) = filter Q (history L b)"
  by (simp add: history_def conj_commute)

lemma rows_after_drop:
  "numbered row_sequence (history L b) \<Longrightarrow> rows_after L b (int k) = drop k (history L b)"
  by (simp add: rows_after_def history_filter numbered_suffix)

lemma full_replay_take:
  "numbered row_sequence (history L b) \<Longrightarrow>
   full_replay P L b (Some (int k)) = replay_rows P (brain_genesis b) (take k (history L b))"
  by (simp add: full_replay_def history_filter numbered_prefix)

lemma full_replay_all:
  "numbered row_sequence (history L b) \<Longrightarrow>
   full_replay P L b None = replay_rows P (brain_genesis b) (history L b)"
  by (simp add: full_replay_def history_def numbered_sort_all)

lemma ledger_head_length: "ledger_ok P L \<Longrightarrow> ledger_head L b = int (length (history L b))"
proof -
  have "numbered row_sequence (filter (\<lambda>r. row_brain_id r = b) xs) \<Longrightarrow>
    foldr (\<lambda>r m. if row_brain_id r = b then max (row_sequence r) m else m) xs k =
    max k (int (length (filter (\<lambda>r. row_brain_id r = b) xs)))" if "0 \<le> k" for xs k
    using that
  proof (induction xs arbitrary: k rule: rev_induct)
    case (snoc x xs)
    then show ?case by (auto simp: numbered_snoc max_def)
  qed simp
  note head = this
  assume "ledger_ok P L"
  from head [OF _ ledger_okD(1) [OF this, unfolded history_def], of 0] show ?thesis
    by (simp add: ledger_head_def history_def)
qed

lemma rbind_Inr [simp]: "rbind m Inr = m"
  by (cases m) simp_all

lemma replay_rows_append: "replay_rows P s (xs @ ys) = rbind (replay_rows P s xs) (\<lambda>t. replay_rows P t ys)"
  by (simp add: replay_rows_def rfold_append)

section \<open>Replaying from a snapshot is the full replay\<close>

lemma latest_of_mem: "latest_of rows = Some r \<Longrightarrow> r \<in> set rows"
proof -
  assume a: "latest_of rows = Some r"
  then have "sort_key snap_sequence rows \<noteq> []" "r = last (sort_key snap_sequence rows)"
    by (auto simp: latest_of_def split: list.splits)
  then show ?thesis by (metis last_in_set set_sort)
qed

lemma latest_snapshot_mem: "latest_snapshot L b = Some r \<Longrightarrow> r \<in> set (db_snapshots L) \<and> snap_brain_id r = b"
  using latest_of_mem by (fastforce simp: latest_snapshot_def)

lemma schemas_valid: "ledger_ok P L \<Longrightarrow> validate_snapshot_schemas L b = Inr ()"
proof -
  assume ok: "ledger_ok P L"
  have "rfold (\<lambda>_ v. if supported_schema v then Inr () else Inl (unsupported v)) () vs = Inr ()"
    if "\<forall>v \<in> set vs. supported_schema v" for vs
    using that by (induction vs) auto
  then show ?thesis
    using ledger_okD(6) [OF ok] by (auto simp: validate_snapshot_schemas_def snapshot_sound_def)
qed

lemma decode_snapshot_Inr:
  "decode_snapshot P r b = Inr s \<Longrightarrow> bs_brain_id s = b \<and> bs_last_sequence s = snap_sequence r \<and>
   snap_state_json r = pf_state_text P s \<and> snap_fingerprint r = snapshot_fingerprint (pf_state_text P s) \<and>
   valid_state s \<and> pf_parse_state P (snap_state_json r) = Some s \<and> snap_schema_version r = STATE_SCHEMA_VERSION"
  by (auto simp: decode_snapshot_def state_revalidated_def res_simps split: if_splits sum.splits)

lemma load_snapshot_row_cases:
  assumes ok: "ledger_ok P L"
  shows "load_snapshot_row P L b = Inr None \<or>
    (\<exists>s k. load_snapshot_row P L b = Inr (Some s) \<and> bs_last_sequence s = int k \<and> k \<le> length (history L b) \<and>
       bs_brain_id s = b \<and> replay_rows P (brain_genesis b) (take k (history L b)) = Inr s)"
proof (cases "latest_snapshot L b")
  case None
  then show ?thesis by (simp add: load_snapshot_row_def)
next
  case (Some r)
  then have r: "snapshot_sound P L r" "snap_brain_id r = b" using latest_snapshot_mem ledger_okD(6) [OF ok] by blast+
  then obtain k where k: "snap_sequence r = int k" unfolding snapshot_sound_def using zero_le_imp_eq_int by blast
  show ?thesis
  proof (cases "snap_schema_version r = STATE_SCHEMA_VERSION")
    case True
    with r k obtain s where s: "decode_snapshot P r b = Inr s" "full_replay P L b (Some (int k)) = Inr s"
      by (auto simp: snapshot_sound_def)
    moreover have "snap_schema_version r \<notin> set LEGACY_STATE_SCHEMA_VERSIONS"
      by (simp add: True STATE_SCHEMA_VERSION_def LEGACY_STATE_SCHEMA_VERSIONS_def)
    ultimately show ?thesis
      using Some k r decode_snapshot_Inr [OF s(1)] full_replay_take [OF ledger_okD(1) [OF ok]]
      by (auto simp: load_snapshot_row_def snapshot_sound_def)
  next
    case False
    with r have "snap_schema_version r \<in> set LEGACY_STATE_SCHEMA_VERSIONS"
      by (simp add: snapshot_sound_def supported_schema_def)
    with Some show ?thesis by (simp add: load_snapshot_row_def)
  qed
qed

lemma genesis_fields [simp]: "bs_brain_id (brain_genesis b) = b" "bs_last_sequence (brain_genesis b) = 0"
  by (simp_all add: brain_genesis_def)

lemma replay_is_full:
  assumes ok: "ledger_ok P L" and b: "is_uuid4 b"
  shows "ledger_replay P L b u = replay_rows P (brain_genesis b) (history L b)"
proof -
  note nb = ledger_okD(1) [OF ok, of b]
  note drop = rows_after_drop [OF nb]
  have split: "replay_rows P (brain_genesis b) (history L b) =
      rbind (replay_rows P (brain_genesis b) (take k (history L b))) (\<lambda>t. replay_rows P t (drop k (history L b)))" for k
    using replay_rows_append [of P _ "take k (history L b)" "drop k (history L b)"] by simp
  have v: "validate_id b = Inr b" using b by simp
  have tail: "replay_rows P s (rows_after L b (bs_last_sequence s)) = replay_rows P (brain_genesis b) (history L b)"
    if "replay_rows P (brain_genesis b) (take k (history L b)) = Inr s" "bs_last_sequence s = int k" for s k
    using that split [of k] drop [of k] by simp
  have "replay_rows P (brain_genesis b) (rows_after L b 0) = replay_rows P (brain_genesis b) (history L b)"
    using drop [of 0] by simp
  then show ?thesis
    using load_snapshot_row_cases [OF ok, of b] tail
    by (auto simp: ledger_replay_def v schemas_valid [OF ok])
qed

section \<open>Growing the ledger by one row\<close>

definition grows :: "database \<Rightarrow> event_row \<Rightarrow> database \<Rightarrow> bool" where
  "grows L r L' = (db_events L' = db_events L @ [r] \<and> db_snapshots L' = db_snapshots L \<and> db_audited L' = db_audited L \<and>
     db_brains L' = (db_brains L)(row_brain_id r \<mapsto> row_sequence r + 1) \<and>
     row_sequence r = int (length (history L (row_brain_id r))) + 1 \<and>
     row_event_id r \<notin> row_event_id ` set (db_events L))"

lemma grows_history:
  "grows L r L' \<Longrightarrow> history L' b = (if b = row_brain_id r then history L b @ [r] else history L b)"
  by (auto simp: grows_def history_def)

lemma event_row_of_simps [simp]:
  "row_brain_id (event_row_of e n) = ev_brain_id e" "row_sequence (event_row_of e n) = n"
  "row_event_id (event_row_of e n) = ev_event_id e" "row_body_fingerprint (event_row_of e n) = body_fingerprint e"
  "row_envelope_json (event_row_of e n) = event_text False e"
  by (simp_all add: event_row_of_def)

lemma grows_ok:
  assumes ok: "ledger_ok P L" and g: "grows L (event_row_of e n) L'" and d: "decode_event P (event_row_of e n) = Inr e"
  shows "ledger_ok P L'"
proof -
  define r where "r = event_row_of e n"
  note g = g [folded r_def] and d = d [folded r_def]
  have j: "row_envelope_json r = event_text False e" by (simp add: r_def)
  note h = grows_history [OF g]
  have nb: "numbered row_sequence (history L' b)" for b
    using ledger_okD(1) [OF ok] g by (simp add: h numbered_snoc grows_def)
  have old: "full_replay P L' b (Some n) = full_replay P L b (Some n)"
    if "0 \<le> n" "n \<le> int (length (history L b))" for b n
  proof -
    from that obtain k where k: "n = int k" "k \<le> length (history L b)" using zero_le_imp_eq_int by fastforce
    have "take k (history L' b) = take k (history L b)" using k(2) h [of b] by (auto split: if_splits)
    then show ?thesis
      using k(1) full_replay_take [OF nb, of P b k] full_replay_take [OF ledger_okD(1) [OF ok, of b], of P k] by simp
  qed
  have len: "int (length (history L b)) \<le> int (length (history L' b))" for b by (simp add: h)
  have "snapshot_sound P L' s" if "s \<in> set (db_snapshots L')" for s
  proof -
    from that g have "s \<in> set (db_snapshots L)" by (simp add: grows_def)
    from ledger_okD(6) [OF ok this] show ?thesis
      using len [of "snap_brain_id s"] old [of "snap_sequence s"] by (auto simp: snapshot_sound_def)
  qed
  moreover have "audit_sound P L' b st" if "db_audited L' b = Some st" for b st
  proof -
    from that g have "db_audited L b = Some st" by (simp add: grows_def)
    from ledger_okD(8) [OF ok this] show ?thesis
      using len [of b] old [of "bs_last_sequence st"] by (auto simp: audit_sound_def)
  qed
  moreover have "case db_brains L' b of None \<Rightarrow> history L' b = [] | Some n \<Rightarrow> n = int (length (history L' b)) + 1" for b
    using ledger_okD(2,3) [OF ok, of b] g by (auto simp: h grows_def split: option.splits)
  moreover have "distinct (map row_event_id (db_events L'))" "\<forall>q \<in> set (db_events L'). \<exists>e. decode_event P q = Inr e \<and> row_envelope_json q = event_text False e"
    "distinct (map (\<lambda>s. (snap_brain_id s, snap_sequence s)) (db_snapshots L'))"
    using ledger_okD(4,5,7) [OF ok] g d j by (auto simp: grows_def)
  ultimately show ?thesis using nb unfolding ledger_ok_def by blast
qed

text \<open>Changes outside the tables of the invariant.\<close>

definition log_frame :: "database \<Rightarrow> database \<Rightarrow> bool" where
  "log_frame L L' = (db_events L' = db_events L \<and> db_snapshots L' = db_snapshots L \<and> db_audited L' = db_audited L \<and>
     db_brains L' = db_brains L)"

lemma log_frame_simps [simp]:
  "log_frame L L" "log_frame L (ensure_observability_row b L)"
  "log_frame L (L\<lparr>db_observability := o'\<rparr>)" "log_frame L (L\<lparr>db_names := ns\<rparr>)"
  "log_frame L (L\<lparr>db_identity_leases := ls\<rparr>)" "log_frame L (L\<lparr>db_energy_leases := es\<rparr>)"
  "log_frame L (L\<lparr>db_streams := ss\<rparr>)" "log_frame L (L\<lparr>db_bridge_records := rs\<rparr>)" "log_frame L (L\<lparr>db_spans := sps\<rparr>)"
  by (auto simp: log_frame_def ensure_observability_row_def split: option.splits)

lemma log_frame_trans: "log_frame L M \<Longrightarrow> log_frame M N \<Longrightarrow> log_frame L N"
  by (simp add: log_frame_def)

lemma log_frame_history: "log_frame L L' \<Longrightarrow> history L' = history L"
  by (rule ext) (simp add: log_frame_def history_def)

lemma log_frame_ok: "log_frame L L' \<Longrightarrow> ledger_ok P L' = ledger_ok P L"
proof -
  assume f: "log_frame L L'"
  then have "full_replay P L' = full_replay P L" by (simp add: fun_eq_iff full_replay_def log_frame_def)
  with f log_frame_history [OF f] show ?thesis
    by (simp add: ledger_ok_def snapshot_sound_def audit_sound_def log_frame_def cong: option.case_cong)
qed

lemma grows_frame: "grows L r M \<Longrightarrow> log_frame M N \<Longrightarrow> grows L r N"
  by (simp add: grows_def log_frame_def)

lemma record_identity_name_frame: "record_identity_name P b n src L = Inr L' \<Longrightarrow> log_frame L L'"
  by (auto simp: record_identity_name_def res_simps split: json.splits if_splits)

lemma record_gap_observability_frame: "record_gap_observability b L = Inr L' \<Longrightarrow> log_frame L L'"
  by (auto simp: record_gap_observability_def res_simps)

section \<open>Appending keeps the ledger\<close>

text \<open>
  What is assumed of pydantic's JSON reader: it reads back the canonical text of the event it is applied
  to. It is asked of the events of a statement only.
\<close>

definition reads_event :: "platform \<Rightarrow> event_envelope \<Rightarrow> bool" where
  "reads_event P e = (pf_parse_event P (event_text False e) = Some e)"

definition reads_state :: "platform \<Rightarrow> brain_state \<Rightarrow> bool" where
  "reads_state P s = (pf_parse_state P (pf_state_text P s) = Some s)"

definition sequenced :: "event_envelope \<Rightarrow> int \<Rightarrow> event_envelope" where
  "sequenced e n = e\<lparr>ev_sequence := Some n\<rparr>"

lemma sequenced_simps [simp]:
  "ev_sequence (sequenced e n) = Some n" "ev_brain_id (sequenced e n) = ev_brain_id e"
  "ev_event_id (sequenced e n) = ev_event_id e" "ev_event_type (sequenced e n) = ev_event_type e"
  "ev_payload (sequenced e n) = ev_payload e" "body_fingerprint (sequenced e n) = body_fingerprint e"
  "event_text True (sequenced e n) = event_text True e"
  by (simp_all add: sequenced_def body_fingerprint_sequence event_text_sequence)

lemma decode_event_Inr:
  "decode_event P r = Inr e \<Longrightarrow> valid_event e \<and> ev_event_id e = row_event_id r \<and> ev_brain_id e = row_brain_id r \<and>
   ev_sequence e = Some (row_sequence r) \<and> body_fingerprint e = row_body_fingerprint r"
  by (auto simp: decode_event_def validate_event_json_def res_simps split: sum.splits if_splits)

lemma decode_row_of:
  "valid_event e \<Longrightarrow> ev_sequence e = Some n \<Longrightarrow> reads_event P e \<Longrightarrow> decode_event P (event_row_of e n) = Inr e"
  by (simp add: decode_event_def validate_event_json_def event_row_of_def reads_event_def event_revalidated_def)

lemma insert_event_Inr:
  "insert_event r L = Inr L' \<Longrightarrow> L' = L\<lparr>db_events := db_events L @ [r]\<rparr> \<and> row_event_id r \<notin> row_event_id ` set (db_events L)"
  by (auto simp: insert_event_def list_ex_iff split: if_splits)

lemma register_event_frame: "register_event P e N = Inr L' \<Longrightarrow> log_frame N L'"
  by (auto simp: register_event_def res_simps split: if_splits
    dest!: record_identity_name_frame record_gap_observability_frame intro: log_frame_trans)

lemma append_new_grows:
  assumes ok: "ledger_ok P L" and a: "append_new P e expected L = Inr (stored, L')"
  defines "n \<equiv> int (length (history L (ev_brain_id e))) + 1"
  shows "stored = sequenced e n \<and> ev_sequence e = None \<and> valid_event stored \<and> (expected = None \<or> expected = Some n) \<and>
    grows L (event_row_of stored n) L'"
proof -
  define b where "b = ev_brain_id e"
  define M where "M = ensure_observability_row b (ensure_brain_row b L)"
  have M: "db_events M = db_events L" "db_snapshots M = db_snapshots L" "db_audited M = db_audited L"
    "db_brains M b = Some n" "b' \<noteq> b \<Longrightarrow> db_brains M b' = db_brains L b'" for b'
    using ledger_okD(2,3) [OF ok, of b]
    by (auto simp: M_def n_def b_def ensure_observability_row_def ensure_brain_row_def split: option.splits)
  from a obtain N where st: "ev_sequence e = None" "expected = None \<or> expected = Some n"
    "stored = e\<lparr>ev_sequence := Some n\<rparr>" "valid_event stored"
    "insert_event (event_row_of stored n) (M\<lparr>db_brains := (db_brains M)(b \<mapsto> n + 1)\<rparr>) = Inr N"
    "log_frame N L'"
    unfolding append_new_def Let_def b_def [symmetric] M_def [symmetric] M(4) option.sel
    by (auto simp: rbind_eq_Inr split: if_splits dest!: register_event_frame)
  have "grows L (event_row_of stored n) N"
    using insert_event_Inr [OF st(5)] M st(3) by (auto simp: grows_def n_def b_def fun_eq_iff)
  with st grows_frame [OF _ st(6)] show ?thesis by (auto simp: sequenced_def)
qed

lemma append_existing_Inr:
  assumes "append_existing P e expected head row = Inr stored"
  shows "decode_event P row = Inr stored" "row_body_fingerprint row = body_fingerprint e"
    "event_text True stored = event_text True e" "ev_sequence e = None \<or> ev_sequence e = Some (row_sequence row)"
    "expected = None \<or> expected = Some head \<and> row_sequence row = head"
  using assms by (auto simp: append_existing_def rbind_eq_Inr split: if_splits option.splits dest: decode_event_Inr)

lemma singleton_filter: "filter Q xs = [x] \<Longrightarrow> x \<in> set xs \<and> Q x"
  by (drule arg_cong [where f = set]) auto

lemma append_event_cases:
  assumes ok: "ledger_ok P L" and a: "append_event P e expected L = Inr ((stored, inserted), L')"
  obtains (Inserted) n where "inserted" "n = ledger_head L (ev_brain_id e) + 1" "stored = sequenced e n"
      "ev_sequence e = None" "expected = None \<or> expected = Some n" "valid_event e" "valid_event stored"
      "filter (\<lambda>r. row_event_id r = ev_event_id e \<or> row_body_fingerprint r = body_fingerprint e) (db_events L) = []"
      "grows L (event_row_of stored n) L'"
  | (Adopted) row where "\<not> inserted" "L' = L" "valid_event e" "row \<in> set (db_events L)"
      "filter (\<lambda>r. row_event_id r = ev_event_id e \<or> row_body_fingerprint r = body_fingerprint e) (db_events L) = [row]"
      "append_existing P e expected (ledger_head L (ev_brain_id e)) row = Inr stored"
proof -
  let ?Q = "\<lambda>r. row_event_id r = ev_event_id e \<or> row_body_fingerprint r = body_fingerprint e"
  from a have v: "valid_event e" by (auto simp: append_event_def rbind_eq_Inr)
  show thesis
  proof (cases "filter ?Q (db_events L)")
    case Nil
    with a v have "inserted" "append_new P e expected L = Inr (stored, L')"
      by (auto simp: append_event_def rbind_eq_Inr event_revalidated_def)
    with append_new_grows [OF ok] Nil v Inserted show ?thesis by (simp add: ledger_head_length [OF ok])
  next
    case (Cons row rows)
    with a v have "rows = []" "\<not> inserted" "L' = L"
      "append_existing P e expected (ledger_head L (ev_brain_id e)) row = Inr stored"
      by (auto simp: append_event_def rbind_eq_Inr event_revalidated_def split: list.splits)
    with Cons v Adopted [of row] singleton_filter [of ?Q "db_events L" row] show ?thesis by simp
  qed
qed

text \<open>A concrete ledger for the witnesses: a reader that knows one event and one state, and one append.\<close>

definition echo :: "event_envelope \<Rightarrow> brain_state \<Rightarrow> platform" where
  "echo e s = \<lparr>pf_parse_event = (\<lambda>t. if t = event_text False e then Some e else None),
     pf_parse_state = (\<lambda>t. if t = ''state'' then Some s else None), pf_state_text = (\<lambda>_. ''state''),
     pf_parse_choice = (\<lambda>_. None), pf_category = (\<lambda>_. ''Ll''), pf_nfkc = id, pf_casefold = id\<rparr>"

lemma echo_reads [simp]: "reads_event (echo e s) e" "reads_state (echo e s) s"
  by (simp_all add: echo_def reads_event_def reads_state_def)

lemma empty_ok: "ledger_ok P empty_database"
  by (simp add: ledger_ok_def empty_database_def history_def)

lemma empty_head [simp]: "ledger_head empty_database b = 0" "history empty_database b = []"
  by (simp_all add: ledger_head_def empty_database_def history_def)

definition first_event :: event_envelope where
  "first_event = sample_event ''brain.created'' [(''name'', JNull)]"

definition first_platform :: platform where
  "first_platform = echo (sequenced first_event 1) (brain_genesis sample_id)"

lemma first_event_simps [simp]:
  "ev_brain_id first_event = sample_id" "ev_sequence first_event = None" "ev_event_type first_event = ''brain.created''"
  "ev_payload first_event = [(''name'', JNull)]" "ev_event_id first_event = sample_id"
  "reads_event first_platform (sequenced first_event 1)"
  by (simp_all add: first_event_def first_platform_def)

lemma first_event_valid: "valid_event first_event" "valid_event (sequenced first_event 1)"
proof -
  have "valid_event_type ''brain.created''" by code_simp
  then show "valid_event first_event" by (simp add: first_event_def sample_event_valid)
  then show "valid_event (sequenced first_event 1)" by (simp add: sequenced_def valid_event_sequenced)
qed

lemma first_append: "\<exists>L. append_event first_platform first_event None empty_database = Inr ((sequenced first_event 1, True), L)"
  using first_event_valid
  by (simp add: append_event_def event_revalidated_def append_new_def Let_def empty_database_def ensure_brain_row_def
    ensure_observability_row_def insert_event_def register_event_def record_identity_name_def jget_def jget_or_def
    sequenced_def [symmetric])

lemma repeated_append:
  assumes "ledger_ok P L" and "append_event P e expected L = Inr ((stored, inserted), L')"
    and "reads_event P (sequenced e (ledger_head L (ev_brain_id e) + 1))"
  shows "append_event P e expected L' = Inr ((stored, False), L')"
  using assms(1,2)
proof (cases rule: append_event_cases)
  case (Inserted n)
  then have d: "decode_event P (event_row_of stored n) = Inr stored"
    using assms(3) by (intro decode_row_of) auto
  from grows_ok [OF assms(1) Inserted(9) d] grows_history [OF Inserted(9)] Inserted(2,3)
  have "ledger_head L' (ev_brain_id e) = n"
    by (simp add: ledger_head_length [OF assms(1)] ledger_head_length)
  moreover have "db_events L' = db_events L @ [event_row_of stored n]" using Inserted(9) by (simp add: grows_def)
  ultimately show ?thesis
    using Inserted d by (auto simp: append_event_def event_revalidated_def append_existing_def)
qed (simp add: append_event_def event_revalidated_def)

text \<open>
  C13. Every append keeps the ledger sound: each brain's rows stay numbered from one without a gap, the
  allocator stays one past the last row, every row still decodes, and every snapshot and audited state is
  still the replay of its prefix. A new event is stored as the next row of its own brain and of no other.
  An append that inserts nothing leaves the whole database as it is, and the event it answers is one that a
  row of it already stores under the same fingerprint and with the same text.
\<close>

theorem append_keeps_ledger:
  assumes "ledger_ok P L" and "append_event P e expected L = Inr ((stored, inserted), L')"
    and "inserted \<Longrightarrow> reads_event P (sequenced e (ledger_head L (ev_brain_id e) + 1))"
  shows "ledger_ok P L' \<and> (\<forall>b. history L' b = history L b @
      (if inserted \<and> b = ev_brain_id e then [event_row_of stored (ledger_head L b + 1)] else [])) \<and>
    (if inserted then stored = sequenced e (ledger_head L (ev_brain_id e) + 1)
     else L' = L \<and> (\<exists>row \<in> set (db_events L). decode_event P row = Inr stored \<and>
       row_body_fingerprint row = body_fingerprint e \<and> event_text True stored = event_text True e))"
  using assms(1,2)
proof (cases rule: append_event_cases)
  case (Inserted n)
  then have "decode_event P (event_row_of stored n) = Inr stored"
    using assms(3) by (intro decode_row_of) auto
  with Inserted grows_ok [OF assms(1)] grows_history show ?thesis by auto
next
  case (Adopted row)
  with append_existing_Inr [OF Adopted(6)] assms(1) show ?thesis by auto
qed

lemma append_keeps_ledger_witness:
  "\<exists>L. append_event first_platform first_event None empty_database = Inr ((sequenced first_event 1, True), L) \<and>
     ledger_ok first_platform L \<and> history L sample_id = [event_row_of (sequenced first_event 1) 1] \<and>
     append_event first_platform first_event None L = Inr ((sequenced first_event 1, False), L) \<and>
     (\<exists>row \<in> set (db_events L). row_body_fingerprint row = body_fingerprint first_event)"
proof -
  obtain L where L: "append_event first_platform first_event None empty_database = Inr ((sequenced first_event 1, True), L)"
    using first_append by blast
  from append_keeps_ledger [OF empty_ok L] have 1: "ledger_ok first_platform L" "history L sample_id = [event_row_of (sequenced first_event 1) 1]"
    by simp_all
  from repeated_append [OF empty_ok L] have 2: "append_event first_platform first_event None L = Inr ((sequenced first_event 1, False), L)" by simp
  with append_keeps_ledger [OF 1(1) 2] 1 L show ?thesis by auto
qed

text \<open>
  Appending is idempotent: repeating a successful append, with the same expected sequence or with
  none, returns the stored event, inserts nothing and leaves the database as it is.
\<close>

theorem append_idempotent:
  assumes "ledger_ok P L" and "append_event P e expected L = Inr ((stored, inserted), L')"
    and "reads_event P (sequenced e (ledger_head L (ev_brain_id e) + 1))"
  shows "append_event P e expected L' = Inr ((stored, False), L')"
  by (rule repeated_append [OF assms])

lemma append_idempotent_witness:
  "\<exists>L. append_event first_platform first_event None empty_database = Inr ((sequenced first_event 1, True), L) \<and>
     append_event first_platform first_event None L = Inr ((sequenced first_event 1, False), L)"
proof -
  obtain L where L: "append_event first_platform first_event None empty_database = Inr ((sequenced first_event 1, True), L)"
    using first_append by blast
  with append_idempotent [OF empty_ok L] show ?thesis by simp
qed

text \<open>
  An expected-sequence append lands exactly where its caller expects: on success the stored event has
  the expected sequence and is the head of its brain, and it was inserted only on top of the sequence
  before it. So two writers that expect the same sequence cannot both insert.
\<close>

theorem expected_append_exact:
  assumes "ledger_ok P L" and "append_expected P e n L = Inr ((stored, inserted), L')"
    and "reads_event P (sequenced e n)"
  shows "ev_sequence stored = Some n \<and> ledger_head L' (ev_brain_id e) = n \<and> ledger_ok P L' \<and>
    ledger_head L (ev_brain_id e) = (if inserted then n - 1 else n)"
proof -
  have a: "append_event P e (Some n) L = Inr ((stored, inserted), L')"
    using assms(2) by (auto simp: append_expected_def validate_expected_sequence_def split: if_splits)
  from assms(1) a show ?thesis
  proof (cases rule: append_event_cases)
    case (Inserted m)
    then have d: "decode_event P (event_row_of stored m) = Inr stored"
      using assms(3) by (intro decode_row_of) auto
    from grows_ok [OF assms(1) Inserted(9) d] grows_history [OF Inserted(9)] Inserted show ?thesis
      by (auto simp: ledger_head_length [OF assms(1)] ledger_head_length)
  next
    case (Adopted row)
    then show ?thesis
      using append_existing_Inr [OF Adopted(6)] decode_event_Inr assms(1) by fastforce
  qed
qed

lemma first_expected: "\<exists>L. append_expected first_platform first_event 1 empty_database = Inr ((sequenced first_event 1, True), L)"
  using first_event_valid
  by (simp add: append_expected_def validate_expected_sequence_def append_event_def event_revalidated_def append_new_def
    Let_def empty_database_def ensure_brain_row_def ensure_observability_row_def insert_event_def register_event_def
    record_identity_name_def jget_def jget_or_def sequenced_def [symmetric])

lemma expected_append_exact_witness:
  "\<exists>L. append_expected first_platform first_event 1 empty_database = Inr ((sequenced first_event 1, True), L) \<and>
     ledger_head L sample_id = 1 \<and> ledger_ok first_platform L"
proof -
  obtain L where L: "append_expected first_platform first_event 1 empty_database = Inr ((sequenced first_event 1, True), L)"
    using first_expected by blast
  with expected_append_exact [OF empty_ok L] show ?thesis by simp
qed

text \<open>
  C14. A replay does not depend on the snapshots: starting from the latest snapshot and reducing the rows
  after it gives the state, or the error, of the replay of the whole history from genesis.
\<close>

theorem snapshot_replay_is_full_replay:
  assumes "ledger_ok P L" and "is_uuid4 b"
  shows "ledger_replay P L b True = full_replay P L b None \<and> ledger_replay P L b False = full_replay P L b None"
  by (simp add: replay_is_full [OF assms] full_replay_all [OF ledger_okD(1) [OF assms(1)]])

text \<open>
  C15. The ledger is the write-ahead log of the reducer: the replay after a new event is the replay before
  it, reduced by that event, for the event's brain, and the replay of every other brain is untouched.
\<close>

theorem append_is_reduction:
  assumes "ledger_ok P L" and "append_event P e expected L = Inr ((stored, True), L')"
    and "reads_event P (sequenced e (ledger_head L (ev_brain_id e) + 1))" and "is_uuid4 b"
  shows "ledger_replay P L' b u = (if b = ev_brain_id e
    then rbind (ledger_replay P L b u) (\<lambda>s. reduce_state s stored) else ledger_replay P L b u)"
  using assms(1,2)
proof (cases rule: append_event_cases)
  case (Inserted n)
  then have d: "decode_event P (event_row_of stored n) = Inr stored"
    using assms(3) by (intro decode_row_of) auto
  show ?thesis
    using replay_is_full [OF grows_ok [OF assms(1) Inserted(9) d] assms(4)] replay_is_full [OF assms(1,4)]
      grows_history [OF Inserted(9), of b] d Inserted(3)
    by (auto simp: replay_rows_append) (simp add: replay_rows_def)
qed simp

lemma append_is_reduction_witness:
  "\<exists>L. append_event first_platform first_event None empty_database = Inr ((sequenced first_event 1, True), L) \<and>
     ledger_replay first_platform L sample_id True = reduce_state (brain_genesis sample_id) (sequenced first_event 1)"
proof -
  obtain L where L: "append_event first_platform first_event None empty_database = Inr ((sequenced first_event 1, True), L)"
    using first_append by blast
  have "ledger_replay first_platform empty_database sample_id True = Inr (brain_genesis sample_id)"
    using replay_is_full [OF empty_ok sample_id_uuid] by (simp add: replay_rows_def)
  with append_is_reduction [OF empty_ok L _ sample_id_uuid, of True] L show ?thesis by simp
qed

section \<open>Snapshots keep the ledger\<close>

lemma snapshots_ok:
  assumes ok: "ledger_ok P L" and "\<forall>s \<in> set ss. snapshot_sound P L s"
    and "distinct (map (\<lambda>s. (snap_brain_id s, snap_sequence s)) ss)"
  shows "ledger_ok P (L\<lparr>db_snapshots := ss\<rparr>)"
proof -
  have "history (L\<lparr>db_snapshots := ss\<rparr>) = history L" "full_replay P (L\<lparr>db_snapshots := ss\<rparr>) = full_replay P L"
    by (simp_all add: fun_eq_iff history_def full_replay_def)
  then have "snapshot_sound P (L\<lparr>db_snapshots := ss\<rparr>) = snapshot_sound P L"
    "audit_sound P (L\<lparr>db_snapshots := ss\<rparr>) = audit_sound P L"
    by (simp_all add: fun_eq_iff snapshot_sound_def audit_sound_def)
  with assms show ?thesis
    unfolding ledger_ok_def by (simp add: \<open>history _ = history L\<close> cong: option.case_cong)
qed

lemma snapshot_of_simps [simp]:
  "snap_brain_id (snapshot_of P s) = bs_brain_id s" "snap_sequence (snapshot_of P s) = bs_last_sequence s"
  "snap_schema_version (snapshot_of P s) = STATE_SCHEMA_VERSION"
  by (simp_all add: snapshot_of_def)

lemma decode_snapshot_of:
  "valid_state s \<Longrightarrow> reads_state P s \<Longrightarrow> decode_snapshot P (snapshot_of P s) (bs_brain_id s) = Inr s"
  by (simp add: decode_snapshot_def snapshot_of_def reads_state_def state_revalidated_def)

lemma snapshot_of_sound:
  assumes "valid_state s" "reads_state P s" "full_replay P L (bs_brain_id s) (Some (bs_last_sequence s)) = Inr s"
    "0 \<le> bs_last_sequence s" "bs_last_sequence s \<le> int (length (history L (bs_brain_id s)))"
  shows "snapshot_sound P L (snapshot_of P s)"
  using assms decode_snapshot_of [OF assms(1,2)] by (simp add: snapshot_sound_def supported_schema_def)

lemma insert_snapshot_ok:
  assumes "ledger_ok P L" "snapshot_sound P L r" "insert_snapshot r L = Inr L'"
  shows "ledger_ok P L' \<and> history L' = history L"
proof -
  from assms(3) have L': "L' = L\<lparr>db_snapshots := db_snapshots L @ [r]\<rparr>"
    "\<forall>q \<in> set (db_snapshots L). \<not> (snap_brain_id q = snap_brain_id r \<and> snap_sequence q = snap_sequence r)"
    by (auto simp: insert_snapshot_def list_ex_iff split: if_splits)
  have "ledger_ok P (L\<lparr>db_snapshots := db_snapshots L @ [r]\<rparr>)"
    using L'(2) ledger_okD(6,7) [OF assms(1)] assms(2) by (intro snapshots_ok [OF assms(1)]) auto
  with L'(1) show ?thesis by (simp add: history_def fun_eq_iff)
qed

lemma update_snapshot_ok:
  assumes "ledger_ok P L" "snapshot_sound P L r"
  shows "ledger_ok P (update_snapshot r L) \<and> history (update_snapshot r L) = history L"
proof -
  have keys: "map (\<lambda>s. (snap_brain_id s, snap_sequence s)) (map (\<lambda>q. if snap_brain_id q = snap_brain_id r \<and>
      snap_sequence q = snap_sequence r then r else q) ss) = map (\<lambda>s. (snap_brain_id s, snap_sequence s)) ss" for ss
    by (induction ss) auto
  have "ledger_ok P (update_snapshot r L)"
    unfolding update_snapshot_def
    using ledger_okD(6,7) [OF assms(1)] assms(2) by (intro snapshots_ok [OF assms(1)]) (auto simp: keys simp del: map_map)
  then show ?thesis by (simp add: history_def fun_eq_iff update_snapshot_def)
qed

text \<open>The states the two snapshot operations compare by their text are equal where the text is read back.\<close>

lemma same_text: "reads_state P s \<Longrightarrow> reads_state P t \<Longrightarrow> pf_state_text P s = pf_state_text P t \<Longrightarrow> s = t"
  by (simp add: reads_state_def)

lemma latest_decodes:
  assumes "ledger_ok P L" "latest_snapshot L b = Some r" "decode_snapshot P r b = Inr d" "snap_sequence r = n"
  shows "full_replay P L b (Some n) = Inr d"
proof -
  from latest_snapshot_mem [OF assms(2)] ledger_okD(6) [OF assms(1)] have "snapshot_sound P L r" "snap_brain_id r = b" by auto
  with assms(3,4) decode_snapshot_Inr [OF assms(3)] show ?thesis by (auto simp: snapshot_sound_def)
qed

text \<open>
  C16. \<open>save_snapshot\<close> stores nothing but replays: when it succeeds, the state it returns is the one it was
  given and is exactly the replay of the history up to its sequence, and the ledger stays sound. The
  hypotheses on the reader are only that the texts of the two compared states are read back.
\<close>

theorem saved_snapshots_are_replays:
  assumes "ledger_ok P L" and "save_snapshot P s L = Inr (s', L')" and "reads_state P s"
    and "\<forall>t. full_replay P L (bs_brain_id s) (Some (bs_last_sequence s)) = Inr t \<longrightarrow> reads_state P t"
    and "0 \<le> bs_last_sequence s"
  shows "s' = s \<and> full_replay P L (bs_brain_id s) (Some (bs_last_sequence s)) = Inr s \<and>
    ledger_ok P L' \<and> history L' = history L"
proof -
  let ?b = "bs_brain_id s" and ?n = "bs_last_sequence s"
  from assms(2) have s: "valid_state s" "?n \<le> int (length (history L ?b))"
    by (auto simp: save_snapshot_def Let_def rbind_eq_Inr state_revalidated_def ledger_head_length [OF assms(1)]
      split: if_splits)
  from assms(2) obtain t where t: "full_replay P L ?b (Some ?n) = Inr t" "pf_state_text P t = pf_state_text P s"
    by (auto simp: save_snapshot_def Let_def rbind_eq_Inr state_revalidated_def split: if_splits option.splits)
  with same_text assms(3,4) have f: "full_replay P L ?b (Some ?n) = Inr s" by blast
  note sound = snapshot_of_sound [OF s(1) assms(3) f assms(5) s(2)]
  from assms(1,2) f have "s' = s \<and> (insert_snapshot (snapshot_of P s) L = Inr L' \<or> L' = update_snapshot (snapshot_of P s) L \<or> L' = L)"
    by (auto simp: save_snapshot_def Let_def rbind_eq_Inr state_revalidated_def
      split: if_splits option.splits dest: latest_decodes [OF _ _ _ refl])
  with f insert_snapshot_ok [OF assms(1) sound] update_snapshot_ok [OF assms(1) sound] assms(1)
  show ?thesis by auto
qed

definition one_brain :: database where
  "one_brain = empty_database\<lparr>db_brains := [sample_id \<mapsto> 1]\<rparr>"

lemma one_brain_ok: "ledger_ok P one_brain"
  by (simp add: ledger_ok_def one_brain_def empty_database_def history_def)

lemma one_brain_replay: "full_replay P one_brain sample_id t = Inr (brain_genesis sample_id)"
  by (simp add: full_replay_def replay_rows_def one_brain_def empty_database_def)

lemma one_brain_latest: "latest_snapshot one_brain b = None" "validate_snapshot_schemas one_brain b = Inr ()"
  "rows_after one_brain b n = []" "ledger_head one_brain b = 0"
  by (simp_all add: latest_snapshot_def latest_of_def one_brain_def empty_database_def validate_snapshot_schemas_def
    rows_after_def ledger_head_def)

text \<open>A ledger with a snapshot and a row after it.\<close>

definition marked_brain :: database where
  "marked_brain = one_brain\<lparr>db_snapshots := [snapshot_of first_platform (brain_genesis sample_id)]\<rparr>"

lemma marked_ok: "ledger_ok first_platform marked_brain"
proof -
  have h: "history one_brain sample_id = []" by (simp add: history_def one_brain_def empty_database_def)
  have "snapshot_sound first_platform one_brain (snapshot_of first_platform (brain_genesis sample_id))"
    using brain_genesis_valid [OF sample_id_uuid] h
    by (intro snapshot_of_sound) (simp_all add: one_brain_replay first_platform_def)
  then show ?thesis unfolding marked_brain_def by (intro snapshots_ok one_brain_ok) simp_all
qed

lemma marked_append: "\<exists>L. append_event first_platform first_event None marked_brain = Inr ((sequenced first_event 1, True), L) \<and>
    db_snapshots L = db_snapshots marked_brain"
  using first_event_valid
  by (simp add: marked_brain_def one_brain_def append_event_def event_revalidated_def append_new_def Let_def empty_database_def
    ensure_brain_row_def ensure_observability_row_def insert_event_def register_event_def record_identity_name_def jget_def
    jget_or_def sequenced_def [symmetric])

lemma snapshot_replay_is_full_replay_witness:
  "\<exists>L. length (db_snapshots L) = 1 \<and> length (history L sample_id) = 1 \<and>
     ledger_replay first_platform L sample_id True = full_replay first_platform L sample_id None"
proof -
  obtain L where L: "append_event first_platform first_event None marked_brain = Inr ((sequenced first_event 1, True), L)"
    "db_snapshots L = db_snapshots marked_brain" using marked_append by blast
  have head: "ledger_head marked_brain sample_id = 0" "history marked_brain sample_id = []"
    by (simp_all add: ledger_head_def history_def marked_brain_def one_brain_def empty_database_def)
  have "ledger_ok first_platform L \<and> length (history L sample_id) = 1"
    using marked_ok L(1)
  proof (cases rule: append_event_cases)
    case (Inserted n)
    moreover have "decode_event first_platform (event_row_of (sequenced first_event 1) 1) = Inr (sequenced first_event 1)"
      using first_event_valid(2) by (intro decode_row_of) simp_all
    ultimately show ?thesis using grows_ok [OF marked_ok] grows_history head by auto
  qed simp
  with snapshot_replay_is_full_replay [OF _ sample_id_uuid, of first_platform L] L(2) show ?thesis
    by (intro exI [of _ L]) (simp add: marked_brain_def)
qed

lemma saved_snapshots_are_replays_witness:
  "\<exists>L. save_snapshot first_platform (brain_genesis sample_id) one_brain = Inr (brain_genesis sample_id, L) \<and>
     ledger_ok first_platform L"
proof -
  have "\<exists>L. save_snapshot first_platform (brain_genesis sample_id) one_brain = Inr (brain_genesis sample_id, L)"
    using brain_genesis_valid [OF sample_id_uuid]
    by (simp add: save_snapshot_def Let_def state_revalidated_def one_brain_latest one_brain_replay insert_snapshot_def)
      (simp add: one_brain_def empty_database_def)
  then obtain L where L: "save_snapshot first_platform (brain_genesis sample_id) one_brain = Inr (brain_genesis sample_id, L)"
    by blast
  with saved_snapshots_are_replays [OF one_brain_ok L] show ?thesis
    by (simp add: one_brain_replay first_platform_def)
qed

section \<open>Checkpoints, bootstraps and foundations\<close>

lemma checkpoint_rows: "rfold (checkpoint_event P) s rows = Inr t \<Longrightarrow> replay_rows P s rows = Inr t"
proof (induction rows arbitrary: s)
  case (Cons r rows)
  then obtain u where u: "checkpoint_event P s r = Inr u" "rfold (checkpoint_event P) u rows = Inr t"
    by (auto simp: rbind_eq_Inr)
  then have "rbind (decode_event P r) (reduce_state s) = Inr u"
    by (auto simp: checkpoint_event_def split: sum.splits py_error.splits)
  with Cons u show ?case by (simp add: replay_rows_def)
qed (simp add: replay_rows_def)

lemma head_numbered: "ledger_ok P L \<Longrightarrow> authoritative_head L b = Inr (Some n) \<Longrightarrow> n = int (length (history L b))"
  using ledger_okD(3) [of P L b] by (auto simp: authoritative_head_def split: option.splits if_splits)

lemma store_checkpoint_ok:
  assumes "ledger_ok P L" "store_checkpoint P s L = Inr (s', L')" "snapshot_sound P L (snapshot_of P s)"
    "full_replay P L (bs_brain_id s) (Some (bs_last_sequence s)) = Inr s"
  shows "s' = s \<and> ledger_ok P L' \<and> history L' = history L"
proof -
  from assms(1,2,4) have "s' = s \<and> (insert_snapshot (snapshot_of P s) L = Inr L' \<or> L' = update_snapshot (snapshot_of P s) L \<or> L' = L)"
    by (auto simp: store_checkpoint_def rbind_eq_Inr split: if_splits option.splits dest: latest_decodes [OF _ _ _ refl])
  with insert_snapshot_ok [OF assms(1,3)] update_snapshot_ok [OF assms(1,3)] assms(1) show ?thesis by auto
qed

lemma checkpoint_base:
  assumes ok: "ledger_ok P L"
    and base: "(case latest_of (filter (\<lambda>q. snap_brain_id q = b \<and> snap_schema_version q = STATE_SCHEMA_VERSION) (db_snapshots L)) of
      None \<Rightarrow> Inr (brain_genesis b) | Some base \<Rightarrow> decode_snapshot P base b) = Inr st"
  shows "\<exists>k. bs_last_sequence st = int k \<and> k \<le> length (history L b) \<and>
    replay_rows P (brain_genesis b) (take k (history L b)) = Inr st"
proof (cases "latest_of (filter (\<lambda>q. snap_brain_id q = b \<and> snap_schema_version q = STATE_SCHEMA_VERSION) (db_snapshots L))")
  case None
  with base have "st = brain_genesis b" by simp
  then show ?thesis by (intro exI [of _ 0]) (simp add: replay_rows_def)
next
  case (Some r)
  with base latest_of_mem [OF Some] ledger_okD(6) [OF ok]
  have r: "snapshot_sound P L r" "snap_brain_id r = b" "snap_schema_version r = STATE_SCHEMA_VERSION" "decode_snapshot P r b = Inr st"
    by auto
  then obtain k where k: "snap_sequence r = int k" unfolding snapshot_sound_def using zero_le_imp_eq_int by blast
  with r decode_snapshot_Inr [OF r(4)] full_replay_take [OF ledger_okD(1) [OF ok, of b], of P k] show ?thesis
    by (intro exI [of _ k]) (simp add: snapshot_sound_def)
qed

text \<open>
  A checkpoint certifies the head: when \<open>checkpoint_current_state\<close> succeeds, the state it was given is
  the replay of the brain's whole history, found from the latest snapshot and the tail alone, and storing
  it keeps the ledger sound.
\<close>

theorem checkpoint_is_replay:
  assumes "ledger_ok P L" and "checkpoint_current_state P s L = Inr (s', L')" and "reads_state P s"
    and "\<forall>t. full_replay P L (bs_brain_id s) None = Inr t \<longrightarrow> reads_state P t"
  shows "s' = s \<and> full_replay P L (bs_brain_id s) None = Inr s \<and> ledger_ok P L' \<and> history L' = history L"
proof -
  let ?b = "bs_brain_id s" and ?n = "bs_last_sequence s"
  let ?base = "case latest_of (filter (\<lambda>q. snap_brain_id q = ?b \<and> snap_schema_version q = STATE_SCHEMA_VERSION) (db_snapshots L)) of
    None \<Rightarrow> Inr (brain_genesis ?b) | Some base \<Rightarrow> decode_snapshot P base ?b"
  note nb = ledger_okD(1) [OF assms(1), of ?b]
  from assms(2) obtain st t where st: "valid_state s" "authoritative_head L ?b = Inr (Some ?n)" "?base = Inr st"
    "rfold (checkpoint_event P) st (filter (\<lambda>r. row_sequence r \<le> ?n) (rows_after L ?b (bs_last_sequence st))) = Inr t"
    "pf_state_text P t = pf_state_text P s" "store_checkpoint P s L = Inr (s', L')"
    by (auto simp: checkpoint_current_state_def Let_def rbind_eq_Inr of_option_eq_Inr split: if_splits)
  from head_numbered [OF assms(1) st(2)] have n: "?n = int (length (history L ?b))" .
  from checkpoint_base [OF assms(1) st(3)] obtain k where k: "bs_last_sequence st = int k"
    "replay_rows P (brain_genesis ?b) (take k (history L ?b)) = Inr st" by auto
  have "filter (\<lambda>r. row_sequence r \<le> ?n) (drop k (history L ?b)) = drop k (history L ?b)"
    using numbered_bounds [OF nb] by (auto simp: n filter_id_conv dest: in_set_dropD)
  with checkpoint_rows [OF st(4)] rows_after_drop [OF nb, of k] k
    replay_rows_append [of P "brain_genesis ?b" "take k (history L ?b)" "drop k (history L ?b)"]
  have full: "full_replay P L ?b None = Inr t" by (simp add: full_replay_all [OF nb])
  with assms(3,4) same_text [OF _ assms(3) st(5)] have t: "t = s" by blast
  have f: "full_replay P L ?b (Some ?n) = Inr s"
    using full full_replay_take [OF nb, of P "length (history L ?b)"] by (simp add: t n full_replay_all [OF nb])
  note sound = snapshot_of_sound [OF st(1) assms(3) f]
  from store_checkpoint_ok [OF assms(1) st(6) sound f] full t n show ?thesis by simp
qed

lemma checkpoint_is_replay_witness:
  "\<exists>L. checkpoint_current_state first_platform (brain_genesis sample_id) one_brain = Inr (brain_genesis sample_id, L) \<and>
     full_replay first_platform one_brain sample_id None = Inr (brain_genesis sample_id)"
proof -
  have "db_brains one_brain sample_id = Some 1" "db_snapshots one_brain = []" by (simp_all add: one_brain_def empty_database_def)
  then have "\<exists>L. checkpoint_current_state first_platform (brain_genesis sample_id) one_brain = Inr (brain_genesis sample_id, L)"
    using brain_genesis_valid [OF sample_id_uuid]
    by (simp add: checkpoint_current_state_def Let_def one_brain_latest store_checkpoint_def insert_snapshot_def
      authoritative_head_def latest_of_def)
  then obtain L where L: "checkpoint_current_state first_platform (brain_genesis sample_id) one_brain = Inr (brain_genesis sample_id, L)"
    by blast
  with checkpoint_is_replay [OF one_brain_ok L] show ?thesis
    by (simp add: one_brain_replay first_platform_def)
qed

lemma bootstrap_full:
  assumes "ledger_ok P L" and "is_uuid4 b"
  shows "bootstrap_state P L b = full_replay P L b None"
proof -
  note nb = ledger_okD(1) [OF assms(1), of b]
  have "full_replay P L b None = Inr s" if "db_audited L b = Some s" "authoritative_head L b = Inr (Some (bs_last_sequence s))" for s
    using ledger_okD(8) [OF assms(1) that(1)] head_numbered [OF assms(1) that(2)]
      full_replay_take [OF nb, of P "length (history L b)"] full_replay_all [OF nb]
    by (simp add: audit_sound_def)
  moreover have "authoritative_head L b = Inr None \<or> (\<exists>n. authoritative_head L b = Inr (Some n))"
    using ledger_okD(3) [OF assms(1), of b] by (auto simp: authoritative_head_def split: option.splits)
  moreover have v: "validate_id b = Inr b" using assms(2) by simp
  ultimately show ?thesis
    using replay_is_full [OF assms] full_replay_all [OF nb] by (auto simp: bootstrap_state_def v split: option.splits)
qed

text \<open>
  \<open>bootstrap_state\<close> is a replay: reusing the state that the startup audit left behind, while it still
  matches the allocator, gives what a replay of the ledger gives.
\<close>

theorem bootstrap_is_replay:
  assumes "ledger_ok P L" and "is_uuid4 b"
  shows "bootstrap_state P L b = full_replay P L b None"
  by (rule bootstrap_full [OF assms])

lemma bootstrap_is_replay_witness:
  "bootstrap_state first_platform one_brain sample_id = Inr (brain_genesis sample_id)"
  using bootstrap_is_replay [OF one_brain_ok sample_id_uuid] by (simp add: one_brain_replay)

text \<open>
  A foundation is replayable: \<open>create_brain_foundation\<close> leaves a sound ledger in which the new brain has
  exactly its genesis event, and replaying it succeeds with the state its preflight reduction computed.
\<close>

theorem foundation_replays:
  assumes "ledger_ok P L" and "create_brain_foundation P b name i w m L = Inr (e, L')" and "reads_event P e"
  shows "ledger_ok P L' \<and> history L' b = [event_row_of e 1] \<and> (\<exists>s. reduce_state (brain_genesis b) e = Inr s \<and>
    full_replay P L' b None = Inr s)"
proof -
  from assms(2) obtain e0 s N where st: "is_uuid4 b" "new_event ''brain.created'' b b [(''name'', name)] i w m no_provenance = Inr e0"
    "e = sequenced e0 1" "valid_event e" "reduce_state (brain_genesis b) e = Inr s" "db_brains L b = None"
    "insert_event (event_row_of e 1) (ensure_observability_row b (L\<lparr>db_brains := (db_brains L)(b \<mapsto> 2)\<rparr>)) = Inr N"
    "record_identity_name P b name (ev_event_id e) N = Inr L'"
    by (auto simp: create_brain_foundation_def rbind_eq_Inr sequenced_def split: if_splits)
  from st(2) have b: "ev_brain_id e = b" by (auto simp: new_event_def st(3))
  have h: "history L b = []" using ledger_okD(2) [OF assms(1) st(6)] .
  let ?M = "L\<lparr>db_brains := (db_brains L)(b \<mapsto> 2)\<rparr>"
  have M: "log_frame ?M (ensure_observability_row b ?M)" by simp
  have "grows L (event_row_of e 1) N"
    using insert_event_Inr [OF st(7)] M b h by (auto simp: grows_def log_frame_def)
  from grows_frame [OF this record_identity_name_frame [OF st(8)]] have g: "grows L (event_row_of e 1) L'" .
  have d: "decode_event P (event_row_of e 1) = Inr e" using assms(3) st(3,4) by (intro decode_row_of) auto
  from grows_ok [OF assms(1) g d] have ok: "ledger_ok P L'" .
  from grows_history [OF g] h b have "history L' b = [event_row_of e 1]" by simp
  with ok d st(5) full_replay_all [OF ledger_okD(1) [OF ok], of P b] show ?thesis by (simp add: replay_rows_def)
qed

lemma named_event_new:
  "new_event ''brain.created'' sample_id sample_id [(''name'', JStr ''alice'')] sample_id ''2026-01-01T00:00:00Z'' 0
     no_provenance = Inr (named_event ''alice'')"
proof -
  have "freeze_items [(''name'', JStr ''alice'')] = [(''name'', JStr ''alice'')]" by code_simp
  then show ?thesis
    using named_event_valid [of "''alice''"]
    by (simp add: new_event_def named_event_def sample_event_def no_provenance_def event_revalidated_def EVENT_SCHEMA_VERSION_def)
qed

lemma alice_key: "identity_name_normalization_key (echo e s) ''alice'' = Inr ''alice''"
  by (simp add: identity_name_normalization_key_def echo_def POST_UNICODE_14_RANGES_def)

lemma foundation_replays_witness:
  "\<exists>L s. ledger_ok (echo (sequenced (named_event ''alice'') 1) s) L \<and>
     create_brain_foundation (echo (sequenced (named_event ''alice'') 1) s) sample_id (JStr ''alice'') sample_id
       ''2026-01-01T00:00:00Z'' 0 empty_database = Inr (sequenced (named_event ''alice'') 1, L) \<and>
     history L sample_id = [event_row_of (sequenced (named_event ''alice'') 1) 1]"
proof -
  let ?e = "sequenced (named_event ''alice'') 1" and ?P = "echo (sequenced (named_event ''alice'') 1) (brain_genesis sample_id)"
  have e: "valid_event ?e" by (simp add: sequenced_def valid_event_sequenced named_event_valid)
  have "\<not> blank ''alice''" by (simp add: blank_Cons py_space_def)
  then obtain t where t: "reduce_state (brain_genesis sample_id) ?e = Inr t"
    using named_brain_exists [of "''alice''"] by (auto simp: sequenced_def)
  have v: "validate_id sample_id = Inr sample_id" by simp
  have "ev_brain_id ?e = sample_id" "ev_event_id ?e = sample_id" by (simp_all add: named_event_def)
  then have "\<exists>L. create_brain_foundation ?P sample_id (JStr ''alice'') sample_id ''2026-01-01T00:00:00Z'' 0 empty_database = Inr (?e, L)"
    using e t by (simp add: create_brain_foundation_def v named_event_new event_revalidated_def sequenced_def [symmetric]
      empty_database_def insert_event_def ensure_observability_row_def record_identity_name_def alice_key)
  then obtain L where L: "create_brain_foundation ?P sample_id (JStr ''alice'') sample_id ''2026-01-01T00:00:00Z'' 0 empty_database = Inr (?e, L)"
    by blast
  from foundation_replays [OF empty_ok L] L show ?thesis by auto
qed

section \<open>Pagination covers the history\<close>

lemma rmap_append: "rmap f (xs @ ys) = rbind (rmap f xs) (\<lambda>a. rbind (rmap f ys) (\<lambda>b. Inr (a @ b)))"
proof (induction xs)
  case (Cons x xs)
  then show ?case by (cases "f x"; cases "rmap f xs"; cases "rmap f ys") simp_all
qed simp

lemma rmap_last: "rmap f xs = Inr ys \<Longrightarrow> xs \<noteq> [] \<Longrightarrow> f (last xs) = Inr (last ys) \<and> ys \<noteq> []"
  by (induction xs arbitrary: ys) (auto simp: rbind_eq_Inr)

lemma decodes_all: "\<forall>r \<in> set rows. \<exists>e. decode_event P r = Inr e \<Longrightarrow> \<exists>es. rmap (decode_event P) rows = Inr es"
  by (induction rows) auto

text \<open>
  Pagination loses nothing and ends: whatever the page size, \<open>iter_events\<close> yields exactly the events of
  the brain after the cursor, each once and in sequence order, and never fails on a sound ledger.
\<close>

theorem pages_cover_history:
  assumes "ledger_ok P L" and "is_uuid4 b" and "1 \<le> page_size" and "page_size \<le> MAX_PAGE_SIZE"
  shows "iter_events P L b (int k) page_size = rmap (decode_event P) (drop k (history L b)) \<and>
    (\<exists>es. iter_events P L b (int k) page_size = Inr es)"
proof -
  note nb = ledger_okD(1) [OF assms(1), of b]
  have dec: "\<exists>e. decode_event P r = Inr e" if "r \<in> set (history L b)" for r
    using ledger_okD(5) [OF assms(1)] that by (auto simp: history_def)
  have v: "validate_id b = Inr b" using assms(2) by simp
  have page: "list_events P L b (int k) page_size = rmap (decode_event P) (take (nat page_size) (drop k (history L b)))" for k
    using assms(3,4) by (simp add: list_events_def v validate_page_def rows_after_drop [OF nb])
  have "pages_from P L b (int k) page_size = rmap (decode_event P) (drop k (history L b))" for k
  proof (induction "length (history L b) - k" arbitrary: k rule: less_induct)
    case less
    let ?rows = "take (nat page_size) (drop k (history L b))"
    obtain es where es: "rmap (decode_event P) ?rows = Inr es"
      using decodes_all [of ?rows P] dec by (meson in_set_dropD in_set_takeD)
    show ?case
    proof (cases "?rows = []")
      case True
      with assms(3) have "drop k (history L b) = []" by simp
      with es True show ?thesis by (subst pages_from.simps) (simp add: page)
    next
      case False
      let ?m = "k + length ?rows"
      have "last ?rows = history L b ! (?m - 1)" "?m - 1 < length (history L b)"
        using False by (auto simp: last_conv_nth min_def not_le)
      then have "row_sequence (last ?rows) = int (?m - 1) + 1" using numbered_nth [OF nb] by simp
      moreover have "0 < ?m" using False by auto
      ultimately have "row_sequence (last ?rows) = int ?m" by linarith
      with rmap_last [OF es False] decoded_sequence have c: "next_cursor (int k) es = int ?m" "es \<noteq> []"
        by (fastforce simp: next_cursor_def)+
      have "drop ?m (history L b) = drop (nat page_size) (drop k (history L b))"
        by (cases "nat page_size \<le> length (drop k (history L b))") (simp_all add: add.commute)
      moreover have "pages_from P L b (int ?m) page_size = rmap (decode_event P) (drop ?m (history L b))"
        using False by (intro less) auto
      moreover have "rmap (decode_event P) (drop k (history L b)) =
          rbind (Inr es) (\<lambda>a. rbind (rmap (decode_event P) (drop (nat page_size) (drop k (history L b)))) (\<lambda>b. Inr (a @ b)))"
        using rmap_append [of "decode_event P" ?rows "drop (nat page_size) (drop k (history L b))"] es
        by (simp only: append_take_drop_id)
      ultimately show ?thesis using c es by (subst pages_from.simps) (simp add: page)
    qed
  qed
  moreover have "\<exists>es. rmap (decode_event P) (drop k (history L b)) = Inr es"
    using dec in_set_dropD by (intro decodes_all) fast
  ultimately show ?thesis using assms(3,4) by (simp add: iter_events_def v validate_page_def)
qed

lemma pages_cover_history_witness: "iter_events first_platform empty_database sample_id 0 512 = Inr []"
  using pages_cover_history [OF empty_ok sample_id_uuid, of 512 first_platform 0] by (simp add: MAX_PAGE_SIZE_def)

section \<open>Reading back\<close>

lemma lookup_fresh: "k \<notin> key ` set xs \<Longrightarrow> key r = k \<Longrightarrow> lookup key (xs @ [r]) k = Some r"
  using lookup_None_iff [of key xs k] by (simp add: lookup_append)

text \<open>
  What was appended can be read back: after a new event is stored, \<open>get_event\<close> returns it for its
  identifier, and \<open>get_event_and_head\<close> returns it with the head of its brain, which is its sequence.
\<close>

theorem appended_event_readable:
  assumes "ledger_ok P L" and "append_event P e expected L = Inr ((stored, True), L')"
    and "reads_event P (sequenced e (ledger_head L (ev_brain_id e) + 1))"
  shows "get_event P L' (ev_event_id e) = Inr (Some stored) \<and>
    get_event_and_head P L' (ev_event_id e) (ev_brain_id e) = Inr (Some stored, ledger_head L (ev_brain_id e) + 1)"
  using assms(1,2)
proof (cases rule: append_event_cases)
  case (Inserted n)
  then have d: "decode_event P (event_row_of stored n) = Inr stored"
    using assms(3) by (intro decode_row_of) auto
  have ids: "validate_id (ev_event_id e) = Inr (ev_event_id e)" "validate_id (ev_brain_id e) = Inr (ev_brain_id e)"
    using valid_event_ids [OF Inserted(6)] by simp_all
  have "db_events L' = db_events L @ [event_row_of stored n]" "ev_event_id e \<notin> row_event_id ` set (db_events L)"
    using Inserted(3,9) by (auto simp: grows_def)
  then have "lookup row_event_id (db_events L') (ev_event_id e) = Some (event_row_of stored n)"
    using Inserted(3) by (simp add: lookup_fresh)
  moreover have "ledger_head L' (ev_brain_id e) = n"
    using ledger_head_length [OF grows_ok [OF assms(1) Inserted(9) d]] grows_history [OF Inserted(9)] Inserted(2,3)
    by (simp add: ledger_head_length [OF assms(1)])
  ultimately show ?thesis using d Inserted(2) by (simp add: get_event_def get_event_and_head_def ids)
qed simp

lemma appended_event_readable_witness:
  "\<exists>L. append_event first_platform first_event None empty_database = Inr ((sequenced first_event 1, True), L) \<and>
     get_event first_platform L sample_id = Inr (Some (sequenced first_event 1))"
proof -
  obtain L where L: "append_event first_platform first_event None empty_database = Inr ((sequenced first_event 1, True), L)"
    using first_append by blast
  with appended_event_readable [OF empty_ok L] show ?thesis by simp
qed

section \<open>The interface of the log\<close>

text \<open>
  What a client that keeps a replayed state of one brain may rely on: an expected append keeps the log
  good, lands on the expected sequence, and moves the replayed state by exactly the appended event.
  \<open>later\<close> relates a log to what other writers may have made of it.
\<close>

locale event_log =
  fixes ok :: "'l \<Rightarrow> bool"
    and readable :: "'e \<Rightarrow> int \<Rightarrow> bool"
    and later :: "'l \<Rightarrow> 'l \<Rightarrow> bool"
    and append :: "'e \<Rightarrow> int \<Rightarrow> 'l \<Rightarrow> (('e \<times> bool) \<times> 'l) res"
    and head :: "'l \<Rightarrow> int"
    and state :: "'l \<Rightarrow> 's res"
    and step :: "'s \<Rightarrow> 'e \<Rightarrow> 's res"
    and number :: "'e \<Rightarrow> int \<Rightarrow> 'e"
    and same :: "'e \<Rightarrow> 'e \<Rightarrow> bool"
  assumes later_ok: "ok l \<Longrightarrow> later l m \<Longrightarrow> ok m \<and> head l \<le> head m"
    and later_state: "ok l \<Longrightarrow> later l m \<Longrightarrow> head m = head l \<Longrightarrow> state m = state l"
    and append_ok: "ok m \<Longrightarrow> readable e n \<Longrightarrow> append e n m = Inr ((x, i), m') \<Longrightarrow> ok m' \<and> later m m'"
    and append_head: "ok m \<Longrightarrow> readable e n \<Longrightarrow> append e n m = Inr ((x, i), m') \<Longrightarrow>
      head m' = n \<and> head m = (if i then n - 1 else n)"
    and later_trans: "later l m \<Longrightarrow> later m m' \<Longrightarrow> later l m'"
    and append_inserts: "ok m \<Longrightarrow> readable e n \<Longrightarrow> append e n m = Inr ((x, True), m') \<Longrightarrow>
      x = number e n \<and> state m' = rbind (state m) (\<lambda>s. step s x)"
    and append_adopts: "ok l \<Longrightarrow> later l m \<Longrightarrow> head l = n - 1 \<Longrightarrow> readable e n \<Longrightarrow>
      append e n m = Inr ((x, False), m') \<Longrightarrow> same x (number e n) \<Longrightarrow>
      x = number e n \<and> m' = m \<and> state m = rbind (state l) (\<lambda>s. step s x)"
begin

text \<open>
  Compare and append: a client whose state is the replay of the log it read, and whose append lands one
  past it, ends with the replay of the new log by reducing the stored event, whether it inserted the event
  itself or another writer inserted the same event first.
\<close>

lemma compare_and_append:
  assumes "ok l" "later l m" "state l = Inr s" "head l = n - 1" "readable e n" "append e n m = Inr ((x, i), m')"
    and "same x (number e n)"
  shows "ok m' \<and> later l m' \<and> head m' = n \<and> x = number e n \<and> state m' = step s x"
proof -
  from later_ok [OF assms(1,2)] have m: "ok m" by simp
  note a = append_ok [OF m assms(5,6)] append_head [OF m assms(5,6)]
  have "later l m'" using later_trans [OF assms(2)] a by simp
  note a = a this
  show ?thesis
  proof (cases i)
    case True
    with a assms(4) have "head m = head l" by simp
    with later_state [OF assms(1,2)] append_inserts [OF m assms(5)] assms(3,6) a True show ?thesis by simp
  next
    case False
    with append_adopts [OF assms(1,2,4,5) _ assms(7)] assms(3,6) a show ?thesis by simp
  qed
qed

end

definition later_ledger :: "platform \<Rightarrow> database \<Rightarrow> database \<Rightarrow> bool" where
  "later_ledger P L M \<longleftrightarrow> ledger_ok P M \<and> (\<forall>b. \<exists>rs. history M b = history L b @ rs)"

lemma later_ledger_self [simp]: "ledger_ok P L \<Longrightarrow> later_ledger P L L"
  by (simp add: later_ledger_def)

lemma later_ledger_trans: "later_ledger P L M \<Longrightarrow> later_ledger P M N \<Longrightarrow> later_ledger P L N"
  unfolding later_ledger_def by (metis append_assoc)

lemma append_expected_event:
  "append_expected P e n L = Inr r \<longleftrightarrow> 1 \<le> n \<and> append_event P e (Some n) L = Inr r"
  by (auto simp: append_expected_def validate_expected_sequence_def)

lemma ledger_is_event_log:
  "event_log (ledger_ok P) (\<lambda>e n. ev_brain_id e = b \<and> reads_event P (sequenced e n)) (later_ledger P)
    (append_expected P) (\<lambda>L. ledger_head L b) (\<lambda>L. full_replay P L b None) reduce_state sequenced event_eq"
proof
  fix l m assume l: "ledger_ok P l" and lm: "later_ledger P l m"
  then obtain rs where rs: "history m b = history l b @ rs" and m: "ledger_ok P m" by (auto simp: later_ledger_def)
  show "ledger_ok P m \<and> ledger_head l b \<le> ledger_head m b" using m rs by (simp add: ledger_head_length [OF l] ledger_head_length [OF m])
  assume "ledger_head m b = ledger_head l b"
  with rs have "history m b = history l b" by (simp add: ledger_head_length [OF l] ledger_head_length [OF m])
  then show "full_replay P m b None = full_replay P l b None"
    by (simp add: full_replay_all [OF ledger_okD(1) [OF l]] full_replay_all [OF ledger_okD(1) [OF m]])
next
  fix m e n x i m'
  assume m: "ledger_ok P m" and e: "ev_brain_id e = b \<and> reads_event P (sequenced e n)"
    and a: "append_expected P e n m = Inr ((x, i), m')"
  from a have a': "append_event P e (Some n) m = Inr ((x, i), m')" by (simp add: append_expected_event)
  have ex: "ledger_ok P m' \<and> ledger_head m' b = n \<and> ledger_head m b = (if i then n - 1 else n) \<and>
      (\<forall>b'. \<exists>rs. history m' b' = history m b' @ rs)"
    using m a'
  proof (cases rule: append_event_cases)
    case (Inserted k)
    then have k: "k = n" by simp
    then have d: "decode_event P (event_row_of x n) = Inr x" using Inserted e by (intro decode_row_of) auto
    note ok = grows_ok [OF m Inserted(9) [unfolded k] d] and h = grows_history [OF Inserted(9)]
    have "\<exists>rs. history m' b' = history m b' @ rs" for b' using h [of b'] by (cases "b' = row_brain_id (event_row_of x k)") auto
    moreover have "ledger_head m' b = n" "ledger_head m b = n - 1"
      using h [of b] e Inserted(2,3) k by (auto simp: ledger_head_length [OF ok] ledger_head_length [OF m])
    ultimately show ?thesis using ok Inserted(1) by simp
  next
    case (Adopted row)
    then show ?thesis using append_existing_Inr [OF Adopted(6)] e m by auto
  qed
  then show "ledger_ok P m' \<and> later_ledger P m m'" by (simp add: later_ledger_def)
  show "ledger_head m' b = n \<and> ledger_head m b = (if i then n - 1 else n)" using ex by simp
next
  fix l m m' assume "later_ledger P l m" "later_ledger P m m'"
  then show "later_ledger P l m'" by (rule later_ledger_trans)
next
  fix m e n x m'
  assume m: "ledger_ok P m" and e: "ev_brain_id e = b \<and> reads_event P (sequenced e n)"
    and a: "append_expected P e n m = Inr ((x, True), m')"
  from a have a': "append_event P e (Some n) m = Inr ((x, True), m')" by (simp add: append_expected_event)
  from m a' show "x = sequenced e n \<and> full_replay P m' b None = rbind (full_replay P m b None) (\<lambda>s. reduce_state s x)"
  proof (cases rule: append_event_cases)
    case (Inserted k)
    then have k: "k = n" by simp
    then have d: "decode_event P (event_row_of x n) = Inr x" using Inserted e by (intro decode_row_of) auto
    note ok = grows_ok [OF m Inserted(9) [unfolded k] d] and h = grows_history [OF Inserted(9)]
    show ?thesis
      using h [of b] e d Inserted(3) k
      by (simp add: full_replay_all [OF ledger_okD(1) [OF ok]] full_replay_all [OF ledger_okD(1) [OF m]] replay_rows_append)
        (simp add: replay_rows_def)
  qed simp
next
  fix l m e n x m'
  assume l: "ledger_ok P l" and lm: "later_ledger P l m" and hl: "ledger_head l b = n - 1"
    and e: "ev_brain_id e = b \<and> reads_event P (sequenced e n)" and a: "append_expected P e n m = Inr ((x, False), m')"
    and same: "event_eq x (sequenced e n)"
  from lm obtain rs where rs: "history m b = history l b @ rs" and m: "ledger_ok P m" by (auto simp: later_ledger_def)
  from a have a': "append_event P e (Some n) m = Inr ((x, False), m')" by (simp add: append_expected_event)
  from m a' show "x = sequenced e n \<and> m' = m \<and> full_replay P m b None = rbind (full_replay P l b None) (\<lambda>s. reduce_state s x)"
  proof (cases rule: append_event_cases)
    case (Adopted row)
    note ex = append_existing_Inr [OF Adopted(6)]
    from ledger_okD(5) [OF m Adopted(4)] ex(1) have "row_envelope_json row = event_text False x" by simp
    with ex(1) have "pf_parse_event P (event_text False x) = Some x"
      by (auto simp: decode_event_def validate_event_json_def res_simps split: sum.splits if_splits)
    with same e have x: "x = sequenced e n" by (simp add: event_eq_def reads_event_def)
    with decode_event_Inr [OF ex(1)] Adopted(4) e have row: "row \<in> set (history m b)" "row_sequence row = n"
      by (auto simp: history_def)
    from ex(5) e have hm: "ledger_head m b = n" by auto
    with hl rs have "length rs = 1" by (simp add: ledger_head_length [OF l] ledger_head_length [OF m])
    then obtain r where r: "rs = [r]" by (auto simp: length_Suc_conv)
    have "numbered row_sequence (history l b @ [r])" using ledger_okD(1) [OF m, of b] rs r by simp
    with row hm rs r numbered_bounds [of row_sequence "history l b" row] have "row = r"
      by (auto simp: ledger_head_length [OF m] numbered_snoc)
    with ex(1) rs r x Adopted(2) show ?thesis
      by (simp add: full_replay_all [OF ledger_okD(1) [OF l]] full_replay_all [OF ledger_okD(1) [OF m]] replay_rows_append)
        (simp add: replay_rows_def)
  qed simp
qed

interpretation ledger_log: event_log "ledger_ok P" "\<lambda>e n. ev_brain_id e = b \<and> reads_event P (sequenced e n)" "later_ledger P"
  "append_expected P" "\<lambda>L. ledger_head L b" "\<lambda>L. full_replay P L b None" reduce_state sequenced event_eq
  for P :: platform and b :: string
  by (rule ledger_is_event_log)

end
