(* ===== verification/Specialists.thy ===== *)
theory Specialists imports Replay
begin

text \<open>
  \<^verbatim>\<open>core/workspace.py\<close>, the five specialists, \<open>derive_candidates\<close> and \<open>WorkspaceCoordinator.propose\<close>,
  over the whole brain state; when they can bid at all, and that the reducer accepts what they propose.
\<close>

section \<open>Bids\<close>

definition candidate_id :: "int \<Rightarrow> specialist \<Rightarrow> jobj \<Rightarrow> string" where
  "candidate_id cycle sp content = ''ws-'' @ take 24 (sha256_hex
     (int_text cycle @ '':'' @ specialist_name sp @ '':'' @ canonical_json (JObj content)))"

definition bid :: "int \<Rightarrow> specialist \<Rightarrow> rat \<Rightarrow> jobj \<Rightarrow> string list \<Rightarrow> ws_candidate res" where
  "bid cycle sp score content source_ids =
     rbind (of_option PyOverflowError (py_round 12 (min 1 (max 0 score)))) (\<lambda>rounded.
       mk_candidate \<lparr>wc_candidate_id = candidate_id cycle sp content, wc_specialist = sp, wc_score = rounded,
         wc_content = content, wc_source_ids = sorted_set source_ids, wc_cycle = cycle\<rparr>)"

definition id_array :: "string list \<Rightarrow> json" where
  "id_array ids = JArr (map JStr ids)"

section \<open>The specialists\<close>

text \<open>\<open>{item.proposition_id: item for item in observed}\<close>: the last of an identifier wins.\<close>

definition conflicts :: "brain_state \<Rightarrow> string list" where
  "conflicts s = (let observed = map (\<lambda>p. (wp_proposition_id p, p)) (wm_observed (bs_world s)) in
     map wp_proposition_id (filter (\<lambda>p. case map_of (rev observed) (wp_proposition_id p) of
         None \<Rightarrow> False
       | Some o' \<Rightarrow> \<not> json_eq (JObj (wp_content p)) (JObj (wp_content o')))
       (wm_believed (bs_world s))))"

definition prediction_error :: "brain_state \<Rightarrow> int \<Rightarrow> ws_candidate res" where
  "prediction_error s cycle =
     bid cycle PredictionError
       (fadd (rndq (2 / 10)) (min (rndq (7 / 10)) (fmul (of_nat (length (conflicts s))) (rndq (2 / 10)))))
       [(''conflicting_proposition_ids'', id_array (sort (conflicts s)))] (sort (conflicts s))"

definition top_energy :: "brain_state \<Rightarrow> energy_vector option" where
  "top_energy s = (case sort_key (\<lambda>e. (- activation e, en_action_id e)) (foldl (dict_put en_action_id) [] (bs_energy_records s)) of
     [] \<Rightarrow> None | e # _ \<Rightarrow> Some e)"

definition drives :: "brain_state \<Rightarrow> int \<Rightarrow> ws_candidate res" where
  "drives s cycle = (case top_energy s of
     None \<Rightarrow> bid cycle Drives (rndq (15 / 100)) [(''action_id'', JNull), (''activation'', JFloat 0)] []
   | Some e \<Rightarrow> bid cycle Drives (activation e)
       [(''action_id'', JStr (en_action_id e)), (''activation'', JFloat (activation e))] [en_action_id e])"

definition incomplete_actions :: "brain_state \<Rightarrow> string list" where
  "incomplete_actions s = sort (map ar_action_id (filter (\<lambda>a. ar_phase a \<noteq> Reconstructed)
     (foldl (dict_put ar_action_id) [] (bs_action_records s))))"

definition graded :: "string list \<Rightarrow> rat" where
  "graded ids = fadd (rndq (15 / 100)) (min (rndq (75 / 100)) (fmul (of_nat (length ids)) (rndq (15 / 100))))"

definition incomplete_action :: "brain_state \<Rightarrow> int \<Rightarrow> ws_candidate res" where
  "incomplete_action s cycle = bid cycle IncompleteAction (graded (incomplete_actions s))
     [(''action_ids'', id_array (incomplete_actions s))] (incomplete_actions s)"

definition prior_ids :: "brain_state \<Rightarrow> string list" where
  "prior_ids s = map wc_candidate_id (ws_broadcast (bs_workspace s))"

definition memory_score :: "brain_state \<Rightarrow> rat" where
  "memory_score s = (let score = (if bs_memories s = [] then rndq (15 / 100)
       else max (rndq (15 / 100)) (mr_salience (last (bs_memories s))))
     in if prior_ids s = [] then score else min 1 (fadd score (rndq (1 / 10))))"

definition memory_trace :: "brain_state \<Rightarrow> int \<Rightarrow> ws_candidate res" where
  "memory_trace s cycle =
     (let recent = (if bs_memories s = [] then None else Some (mr_memory_id (last (bs_memories s)))) in
      bid cycle MemoryTrace (memory_score s)
        [(''memory_id'', opt_json JStr recent), (''prior_broadcast_ids'', id_array (prior_ids s))]
        ((case recent of None \<Rightarrow> [] | Some m \<Rightarrow> [m]) @ prior_ids s))"

definition unmatched_keys :: "brain_state \<Rightarrow> string list" where
  "unmatched_keys s = (let observed = concat (map (\<lambda>p. map fst (wp_content p)) (wm_observed (bs_world s))) in
     sorted_set (filter (\<lambda>k. k \<notin> set observed) (map fst (pc_get NarrativeIdeal (bs_personality s)))))"

definition self_world_conflict :: "brain_state \<Rightarrow> int \<Rightarrow> ws_candidate res" where
  "self_world_conflict s cycle = bid cycle SelfWorldConflict (graded (unmatched_keys s))
     [(''unmatched_narrative_keys'', id_array (unmatched_keys s))] (unmatched_keys s)"

definition derive_candidates :: "brain_state \<Rightarrow> ws_candidate list res" where
  "derive_candidates s = (let cycle = ws_cycle (bs_workspace s) + 1 in
     rbind (prediction_error s cycle) (\<lambda>a.
     rbind (drives s cycle) (\<lambda>b.
     rbind (incomplete_action s cycle) (\<lambda>c.
     rbind (memory_trace s cycle) (\<lambda>d.
     rbind (self_world_conflict s cycle) (\<lambda>e.
     Inr [a, b, c, d, e]))))))"

definition propose :: "brain_state \<Rightarrow> ws_candidate list res" where
  "propose s = rbind (derive_candidates s) (\<lambda>cs. choose_broadcast cs (ws_capacity (bs_workspace s)))"

text \<open>The payload \<open>pulse\<close> writes for a proposal, in \<^verbatim>\<open>runtime/engine.py\<close>.\<close>

definition broadcast_payload :: "int \<Rightarrow> ws_candidate list \<Rightarrow> jobj" where
  "broadcast_payload cycle cs = [(''candidates'', JArr (map candidate_json cs)), (''cycle'', JInt cycle)]"

text \<open>The structured content \<open>pulse\<close> hands to the cognition port.\<close>

definition reflected_content :: "int \<Rightarrow> ws_candidate list \<Rightarrow> jobj" where
  "reflected_content cycle cs = [(''broadcast'', JArr (map candidate_json cs)), (''cycle'', JInt cycle)]"

section \<open>When the specialists can bid\<close>

definition sources_fit :: "string list \<Rightarrow> bool" where
  "sources_fit ids = (card (set ids) \<le> 256 \<and> list_all (\<lambda>i. \<not> blank i) ids)"

lemma sorted_set_fits: "length (sorted_set ids) \<le> 256 \<and> list_all (\<lambda>i. \<not> blank i) (sorted_set ids) \<longleftrightarrow> sources_fit ids"
proof -
  have "length (sorted_set ids) = card (set ids)"
    using distinct_card [OF set_sorted_set(2), of ids] by (simp add: set_sorted_set)
  then show ?thesis by (simp add: sources_fit_def list_all_iff set_sorted_set)
qed

lemma int_text_nonempty: "int_text i \<noteq> []"
  by (simp add: int_text_def nat_digits.simps [of i] nat_digits.simps [of "- i"])

lemma candidate_id_length: "str_len 1 256 (candidate_id c sp m)"
  by (auto simp: candidate_id_def str_len_def)

lemma id_array_frozen: "frozen (id_array ids)"
  by (simp add: id_array_def list_all_iff)

text \<open>A bid of frozen content succeeds exactly when its sources fit, whatever the score.\<close>

lemma bid_cases:
  assumes "frozen (JObj content)" "1 \<le> cycle"
  shows "if sources_fit ids
    then \<exists>c. bid cycle sp score content ids = Inr c \<and> valid_candidate c \<and> wc_cycle c = cycle \<and> wc_specialist c = sp
    else bid cycle sp score content ids = Inl (ValidationError ''WorkspaceCandidate'')"
proof -
  obtain a where a: "py_round 12 (min 1 (max 0 score)) = Some a" "0 \<le> a" "a \<le> 1" "is_f64 a"
    using py_round_between [of 0 "min 1 (max 0 score)" 1 12] by auto
  then show ?thesis
    using assms candidate_id_length [of cycle sp content] sorted_set_fits [of ids]
    by (auto simp: bid_def mk_candidate_def valid_candidate_def unit_float_def in_range_def)
qed

text \<open>The five lists of sources.\<close>

definition bid_sources :: "brain_state \<Rightarrow> string list list" where
  "bid_sources s = [conflicts s, (case top_energy s of None \<Rightarrow> [] | Some e \<Rightarrow> [en_action_id e]),
     incomplete_actions s, (if bs_memories s = [] then [] else [mr_memory_id (last (bs_memories s))]) @ prior_ids s,
     unmatched_keys s]"

lemma sources_fit_sort [simp]: "sources_fit (sort ids) \<longleftrightarrow> sources_fit ids"
  by (simp add: sources_fit_def list_all_iff)

definition bids_for :: "brain_state \<Rightarrow> specialist \<Rightarrow> string list \<Rightarrow> ws_candidate res \<Rightarrow> bool" where
  "bids_for s sp ids r = (if sources_fit ids
     then \<exists>c. r = Inr c \<and> valid_candidate c \<and> wc_cycle c = ws_cycle (bs_workspace s) + 1 \<and> wc_specialist c = sp
     else r = Inl (ValidationError ''WorkspaceCandidate''))"

lemma bid_bids_for:
  "frozen (JObj content) \<Longrightarrow> 0 \<le> ws_cycle (bs_workspace s) \<Longrightarrow>
   bids_for s sp ids (bid (ws_cycle (bs_workspace s) + 1) sp score content ids)"
  using bid_cases [of content "ws_cycle (bs_workspace s) + 1" ids sp score] by (simp add: bids_for_def)

lemma frozen_pair: "k < k' \<Longrightarrow> frozen v \<Longrightarrow> frozen v' \<Longrightarrow> frozen (JObj [(k, v), (k', v')])"
  by (simp add: sorted_keys_def)

lemma frozen_single: "frozen v \<Longrightarrow> frozen (JObj [(k, v)])"
  by (simp add: sorted_keys_def)

lemma activation_f64: "is_f64 (activation e)"
proof -
  define x where "x = min 1 (max 0 (activation_raw e))"
  have "of_int 0 \<le> x" "x \<le> of_int 1" by (simp_all add: x_def)
  then obtain a where "py_round 12 x = Some a" "is_f64 a" by (rule py_round_between [of 0 x 1 12]) simp_all
  then show ?thesis by (simp add: activation_def x_def)
qed

lemma prediction_error_bids: "0 \<le> ws_cycle (bs_workspace s) \<Longrightarrow>
    bids_for s PredictionError (conflicts s) (prediction_error s (ws_cycle (bs_workspace s) + 1))"
  using bid_bids_for [OF frozen_single [OF id_array_frozen], of s PredictionError "sort (conflicts s)"]
  by (simp add: prediction_error_def bids_for_def)

lemma drives_bids: "0 \<le> ws_cycle (bs_workspace s) \<Longrightarrow>
    bids_for s Drives (case top_energy s of None \<Rightarrow> [] | Some e \<Rightarrow> [en_action_id e]) (drives s (ws_cycle (bs_workspace s) + 1))"
proof -
  assume c: "0 \<le> ws_cycle (bs_workspace s)"
  have less: "''action_id'' < ''activation''" by code_simp
  show ?thesis
  proof (cases "top_energy s")
    case None
    have "frozen (JObj [(''action_id'', JNull), (''activation'', JFloat 0)])" by (rule frozen_pair [OF less]) simp_all
    with bid_bids_for [OF this c] None show ?thesis by (simp add: drives_def)
  next
    case (Some e)
    have "frozen (JObj [(''action_id'', JStr (en_action_id e)), (''activation'', JFloat (activation e))])"
      by (rule frozen_pair [OF less]) (simp_all add: activation_f64)
    with bid_bids_for [OF this c] Some show ?thesis by (simp add: drives_def)
  qed
qed

lemma incomplete_bids: "0 \<le> ws_cycle (bs_workspace s) \<Longrightarrow>
    bids_for s IncompleteAction (incomplete_actions s) (incomplete_action s (ws_cycle (bs_workspace s) + 1))"
  by (simp only: incomplete_action_def bid_bids_for [OF frozen_single [OF id_array_frozen]])

lemma memory_bids: "0 \<le> ws_cycle (bs_workspace s) \<Longrightarrow>
    bids_for s MemoryTrace ((if bs_memories s = [] then [] else [mr_memory_id (last (bs_memories s))]) @ prior_ids s)
      (memory_trace s (ws_cycle (bs_workspace s) + 1))"
proof -
  assume c: "0 \<le> ws_cycle (bs_workspace s)"
  have less: "''memory_id'' < ''prior_broadcast_ids''" by code_simp
  have f: "frozen (JObj [(''memory_id'', opt_json JStr m), (''prior_broadcast_ids'', id_array (prior_ids s))])" for m
    by (rule frozen_pair [OF less _ id_array_frozen]) (cases m; simp add: opt_json_def)
  show ?thesis using bid_bids_for [OF f c] by (simp add: memory_trace_def Let_def split: if_splits)
qed

lemma conflict_bids: "0 \<le> ws_cycle (bs_workspace s) \<Longrightarrow>
    bids_for s SelfWorldConflict (unmatched_keys s) (self_world_conflict s (ws_cycle (bs_workspace s) + 1))"
  by (simp only: self_world_conflict_def bid_bids_for [OF frozen_single [OF id_array_frozen]])

lemma five_bids:
  assumes "bids_for s p1 i1 r1" "bids_for s p2 i2 r2" "bids_for s p3 i3 r3" "bids_for s p4 i4 r4" "bids_for s p5 i5 r5"
  defines "r \<equiv> rbind r1 (\<lambda>a. rbind r2 (\<lambda>b. rbind r3 (\<lambda>c. rbind r4 (\<lambda>d. rbind r5 (\<lambda>e. Inr [a, b, c, d, e])))))"
  shows "if list_all sources_fit [i1, i2, i3, i4, i5]
    then \<exists>cs. r = Inr cs \<and> list_all valid_candidate cs \<and>
      list_all (\<lambda>c. wc_cycle c = ws_cycle (bs_workspace s) + 1) cs \<and> map wc_specialist cs = [p1, p2, p3, p4, p5]
    else r = Inl (ValidationError ''WorkspaceCandidate'')"
  using assms unfolding bids_for_def by (auto split: if_splits)

section \<open>Properties\<close>

lemma derive_cases:
  assumes "valid_state s"
  shows "if list_all sources_fit (bid_sources s)
    then \<exists>cs. derive_candidates s = Inr cs \<and> list_all valid_candidate cs \<and>
      list_all (\<lambda>c. wc_cycle c = ws_cycle (bs_workspace s) + 1) cs \<and>
      map wc_specialist cs = [PredictionError, Drives, IncompleteAction, MemoryTrace, SelfWorldConflict]
    else derive_candidates s = Inl (ValidationError ''WorkspaceCandidate'')"
proof -
  have c: "0 \<le> ws_cycle (bs_workspace s)"
    using assms by (simp add: valid_state_def valid_parts_def valid_workspace_def)
  show ?thesis
    using five_bids [OF prediction_error_bids [OF c] drives_bids [OF c] incomplete_bids [OF c] memory_bids [OF c]
        conflict_bids [OF c]]
    by (simp only: bid_sources_def derive_candidates_def Let_def)
qed

text \<open>
  When the specialists can bid: in a valid state, \<open>derive_candidates\<close> yields five valid bids for
  the next cycle, one of each specialist, exactly when each of the five source lists has at most 256
  distinct, non-blank entries; otherwise it fails with a raw validation error, which no handler of
  the pulse expects.
\<close>

theorem specialists_bid:
  assumes "valid_state s"
  shows "if list_all sources_fit (bid_sources s)
    then \<exists>cs. derive_candidates s = Inr cs \<and> list_all valid_candidate cs \<and>
      list_all (\<lambda>c. wc_cycle c = ws_cycle (bs_workspace s) + 1) cs \<and>
      map wc_specialist cs = [PredictionError, Drives, IncompleteAction, MemoryTrace, SelfWorldConflict]
    else derive_candidates s = Inl (ValidationError ''WorkspaceCandidate'')"
  by (rule derive_cases [OF assms])

lemma genesis_sources: "list_all sources_fit (bid_sources (brain_genesis b))"
  by (simp add: bid_sources_def brain_genesis_def sources_fit_def conflicts_def empty_world_def top_energy_def
      incomplete_actions_def prior_ids_def empty_workspace_def unmatched_keys_def personality_default_def sorted_set_def)

lemma genesis_derives: "\<exists>ds. derive_candidates (brain_genesis sample_id) = Inr ds"
  using five_bids [OF prediction_error_bids drives_bids incomplete_bids memory_bids conflict_bids, of "brain_genesis sample_id"]
    genesis_sources [of sample_id]
  unfolding bid_sources_def derive_candidates_def Let_def
  by (auto simp: brain_genesis_def empty_workspace_def)

lemma specialists_bid_witness:
  "valid_state (brain_genesis sample_id) \<and>
   (\<exists>cs. derive_candidates (brain_genesis sample_id) = Inr cs \<and> list_all valid_candidate cs \<and>
      map wc_specialist cs = [PredictionError, Drives, IncompleteAction, MemoryTrace, SelfWorldConflict])"
  using specialists_bid [OF brain_genesis_valid [OF sample_id_uuid]] genesis_sources [of sample_id]
    brain_genesis_valid [OF sample_id_uuid] by auto

lemma proposal_reduces:
  assumes "valid_state s" "propose s = Inr cs" "ev_event_type e = ''workspace.broadcast''"
    and "ev_payload e = broadcast_payload (ws_cycle (bs_workspace s) + 1) cs"
  shows "\<exists>w. reduce_workspace s e = Inr w \<and> valid_workspace w \<and> ws_broadcast w = cs \<and>
    ws_cycle w = ws_cycle (bs_workspace s) + 1 \<and> ws_capacity w = ws_capacity (bs_workspace s)"
proof -
  from assms(2) obtain ds where ds: "derive_candidates s = Inr ds" "choose_broadcast ds (ws_capacity (bs_workspace s)) = Inr cs"
    by (auto simp: propose_def rbind_eq_Inr)
  have w: "valid_workspace (bs_workspace s)" using assms(1) by (simp add: valid_state_def valid_parts_def)
  have d: "list_all valid_candidate ds" "list_all (\<lambda>c. wc_cycle c = ws_cycle (bs_workspace s) + 1) ds"
    using specialists_bid [OF assms(1)] ds(1) by (auto split: if_splits)
  have sub: "set cs \<subseteq> set ds" "length cs \<le> ws_capacity (bs_workspace s)" using choose_broadcast_shape [OF ds(2)] by auto
  have v: "list_all valid_candidate cs" "list_all (\<lambda>c. wc_cycle c = ws_cycle (bs_workspace s) + 1) cs"
    using d sub(1) by (auto simp: list_all_iff)
  have parse: "rmap workspace_candidate (map candidate_json cs) = Inr cs"
    using rmap_map [of cs workspace_candidate candidate_json "\<lambda>c. c"] v(1) candidate_payload
    by (simp add: list_all_iff)
  have again: "choose_broadcast cs (ws_capacity (bs_workspace s)) = Inr cs" by (rule broadcast_stable [OF ds(2)])
  let ?w = "\<lparr>ws_capacity = ws_capacity (bs_workspace s), ws_cycle = ws_cycle (bs_workspace s) + 1, ws_broadcast = cs\<rparr>"
  have "valid_workspace ?w" using w v(1) sub(2) by (simp add: valid_workspace_def)
  moreover have "\<not> list_ex (\<lambda>c. wc_cycle c \<noteq> ws_cycle (bs_workspace s) + 1) cs"
    using v(2) by (auto simp: list_ex_iff list_all_iff)
  ultimately have "reduce_workspace s e = Inr ?w"
    using assms(3,4) parse again
    by (simp add: reduce_workspace_def Let_def broadcast_payload_def jget_def jget_or_def)
  with \<open>valid_workspace ?w\<close> show ?thesis by (intro exI [of _ ?w]) simp
qed

text \<open>
  What the coordinator proposes, the reducer takes: a \<open>workspace.broadcast\<close> event with the proposed
  candidates of a valid state is reduced to a workspace that broadcasts exactly them, one cycle later.
\<close>

theorem proposal_accepted:
  assumes "valid_state s" "propose s = Inr cs" "ev_event_type e = ''workspace.broadcast''"
    and "ev_payload e = broadcast_payload (ws_cycle (bs_workspace s) + 1) cs"
  shows "\<exists>w. reduce_workspace s e = Inr w \<and> valid_workspace w \<and> ws_broadcast w = cs \<and>
    ws_cycle w = ws_cycle (bs_workspace s) + 1 \<and> ws_capacity w = ws_capacity (bs_workspace s)"
  by (rule proposal_reduces [OF assms])

lemma proposal_accepted_witness:
  "\<exists>cs w. propose (brain_genesis sample_id) = Inr cs \<and>
     reduce_workspace (brain_genesis sample_id) (sample_event ''workspace.broadcast'' (broadcast_payload 1 cs)) = Inr w \<and>
     ws_broadcast w = cs \<and> ws_cycle w = 1"
proof -
  let ?s = "brain_genesis sample_id"
  have c: "ws_cycle (bs_workspace ?s) = 0" "ws_capacity (bs_workspace ?s) = 4"
    by (simp_all add: brain_genesis_def empty_workspace_def DEFAULT_WORKSPACE_CAPACITY_def)
  obtain ds where "derive_candidates ?s = Inr ds" using genesis_derives by blast
  then have "\<exists>cs. propose ?s = Inr cs" by (simp add: propose_def choose_broadcast_def c limits)
  then obtain cs where cs: "propose ?s = Inr cs" by blast
  from proposal_accepted [OF brain_genesis_valid [OF sample_id_uuid] cs, of "sample_event ''workspace.broadcast'' (broadcast_payload 1 cs)"] cs c
  show ?thesis by auto
qed

end
