(* ===== verification/Texts.thy ===== *)
theory Texts imports Events
begin

text \<open>
  Canonical texts can be read from the left: a quoted string determines its content and the rest, so two
  events with the same canonical text have the same identifiers.
\<close>

definition unhex :: "char \<Rightarrow> int" where
  "unhex c = (if (of_char c :: int) < 58 then of_char c - 48 else of_char c - 87)"

lemma unhex_hex: "0 \<le> k \<Longrightarrow> k < 16 \<Longrightarrow> unhex (hex_char k) = k"
  by (auto simp: unhex_def hex_char_def of_char_of)

definition named_escape :: "char \<Rightarrow> char" where
  "named_escape y = (if y = CHR ''b'' then CHR 0x08 else if y = CHR ''t'' then CHR 0x09 else if y = CHR ''n'' then CHR 0x0A
     else if y = CHR ''f'' then CHR 0x0C else if y = CHR ''r'' then CHR 0x0D else y)"

definition unescape :: "string \<Rightarrow> char \<times> string" where
  "unescape s = (if hd s \<noteq> CHR 0x5C then (hd s, tl s)
     else if hd (tl s) = CHR ''u'' then (char_of (16 * unhex (s ! 4) + unhex (s ! 5)), drop 6 s)
     else (named_escape (hd (tl s)), drop 2 s))"

lemma backslash: "char_of (92::nat) = CHR 0x5C" and quote: "char_of (34::nat) = CHR 0x22"
  by code_simp+

lemma char_code: "(of_char c :: int) = int k \<Longrightarrow> k < 256 \<Longrightarrow> c = char_of k"
  by (metis char_of_char char_of_nat nat_int of_nat_of_char)

lemma of_char_nonneg: "0 \<le> (of_char c :: int)"
  by (metis of_nat_0_le_iff of_nat_of_char)

definition special_chars :: string where
  "special_chars = [CHR 0x22, CHR 0x5C, CHR 0x08, CHR 0x09, CHR 0x0A, CHR 0x0C, CHR 0x0D]"

lemma special_code: "(of_char c :: int) \<in> {34, 92, 8, 9, 10, 12, 13} \<longleftrightarrow> c \<in> set special_chars"
proof
  assume "(of_char c :: int) \<in> {34, 92, 8, 9, 10, 12, 13}"
  then have "(of_char c :: int) = int 34 \<or> (of_char c :: int) = int 92 \<or> (of_char c :: int) = int 8 \<or>
      (of_char c :: int) = int 9 \<or> (of_char c :: int) = int 10 \<or> (of_char c :: int) = int 12 \<or> (of_char c :: int) = int 13"
    by simp
  then have "c \<in> {char_of (34::nat), char_of (92::nat), char_of (8::nat), char_of (9::nat), char_of (10::nat),
      char_of (12::nat), char_of (13::nat)}"
    by (elim disjE) (drule char_code, simp, blast)+
  moreover have "{char_of (34::nat), char_of (92::nat), char_of (8::nat), char_of (9::nat), char_of (10::nat),
      char_of (12::nat), char_of (13::nat)} = set special_chars" by code_simp
  ultimately show "c \<in> set special_chars" by blast
next
  have "list_all (\<lambda>c. (of_char c :: int) \<in> set [34, 92, 8, 9, 10, 12, 13]) special_chars" by code_simp
  then show "c \<in> set special_chars \<Longrightarrow> (of_char c :: int) \<in> {34, 92, 8, 9, 10, 12, 13}"
    unfolding list_all_iff list.set by blast
qed

lemma special_texts:
  "escape_char (CHR 0x22) = [CHR 0x5C, CHR 0x22]" "escape_char (CHR 0x5C) = [CHR 0x5C, CHR 0x5C]"
  "escape_char (CHR 0x08) = [CHR 0x5C, CHR ''b'']" "escape_char (CHR 0x09) = [CHR 0x5C, CHR ''t'']"
  "escape_char (CHR 0x0A) = [CHR 0x5C, CHR ''n'']" "escape_char (CHR 0x0C) = [CHR 0x5C, CHR ''f'']"
  "escape_char (CHR 0x0D) = [CHR 0x5C, CHR ''r'']"
  by code_simp+

lemma unescape_named: "y \<noteq> CHR ''u'' \<Longrightarrow> unescape (CHR 0x5C # y # u) = (named_escape y, u)"
  by (simp add: unescape_def numeral_2_eq_2)

lemma unescape_special: "c \<in> set special_chars \<Longrightarrow> unescape (escape_char c @ u) = (c, u)"
  unfolding special_chars_def
  by (simp only: list.set insert_iff empty_iff, elim disjE)
    (simp_all add: special_texts unescape_named named_escape_def)

lemma unescape_escape: "unescape (escape_char c @ u) = (c, u)"
proof (cases "c \<in> set special_chars")
  case True
  then show ?thesis by (rule unescape_special)
next
  case False
  then have n: "(of_char c :: int) \<notin> {34, 92, 8, 9, 10, 12, 13}" by (simp only: special_code not_False_eq_True)
  show ?thesis
  proof (cases "(of_char c :: int) < 32")
    case True
    with n have e: "escape_char c = CHR 0x5C # CHR ''u'' # CHR ''0'' # CHR ''0'' #
        hex_char (of_char c div 16) # hex_char (of_char c mod 16) # []"
      by (simp add: escape_char_def backslash Let_def)
    have "0 \<le> (of_char c :: int)" by (rule of_char_nonneg)
    with True have "16 * unhex (hex_char (of_char c div 16)) + unhex (hex_char (of_char c mod 16)) = of_char c"
      by (simp add: unhex_hex)
    then show ?thesis by (simp add: unescape_def e eval_nat_numeral)
  next
    case large: False
    with n have e: "escape_char c = [c]" by (simp add: escape_char_def Let_def)
    have "CHR 0x5C \<in> set special_chars" by (simp add: special_chars_def)
    with False have "c \<noteq> CHR 0x5C" by blast
    then show ?thesis by (simp add: e unescape_def)
  qed
qed

lemma escape_char_inj: "escape_char c @ u = escape_char d @ v \<Longrightarrow> c = d \<and> u = v"
  by (metis prod.inject unescape_escape)

lemma escape_char_start: "\<exists>x r. escape_char c = x # r \<and> x \<noteq> CHR 0x22"
proof (cases "c = CHR 0x22")
  case True
  moreover have "escape_char CHR 0x22 = [CHR 0x5C, CHR 0x22]" by code_simp
  ultimately show ?thesis by simp
qed (simp add: escape_char_def Let_def backslash)

lemma quoted_body_inj:
  "concat (map escape_char s) @ CHR 0x22 # u = concat (map escape_char t) @ CHR 0x22 # v \<Longrightarrow> s = t \<and> u = v"
proof (induction s arbitrary: t)
  case (Nil t)
  then show ?case
  proof (cases t)
    case (Cons d t')
    obtain x r where "escape_char d = x # r" "x \<noteq> CHR 0x22" using escape_char_start by blast
    with Nil Cons show ?thesis by simp
  qed simp
next
  case (Cons c s t)
  show ?case
  proof (cases t)
    case Nil
    obtain x r where "escape_char c = x # r" "x \<noteq> CHR 0x22" using escape_char_start by blast
    with Cons.prems Nil show ?thesis by simp
  next
    case t: (Cons d t')
    have "escape_char c @ concat (map escape_char s) @ CHR 0x22 # u = escape_char d @ concat (map escape_char t') @ CHR 0x22 # v"
      using Cons.prems by (simp only: t list.map concat.simps append_assoc)
    from escape_char_inj [OF this] Cons.IH t show ?thesis by blast
  qed
qed

lemma quoted_inj: "quoted s @ u = quoted t @ v \<Longrightarrow> s = t \<and> u = v"
proof -
  assume "quoted s @ u = quoted t @ v"
  then have "concat (map escape_char s) @ CHR 0x22 # u = concat (map escape_char t) @ CHR 0x22 # v"
    unfolding quoted_def quote by simp
  then show ?thesis by (rule quoted_body_inj)
qed

lemma quoted_not_null: "quoted s @ u \<noteq> ''null'' @ v"
  unfolding quoted_def quote by simp

definition opt_text :: "string option \<Rightarrow> string" where
  "opt_text x = canonical_json (opt_json JStr x)"

lemma opt_text_inj: "opt_text x @ u = opt_text y @ v \<Longrightarrow> x = y \<and> u = v"
proof (cases x; cases y)
  fix a b assume t: "opt_text x @ u = opt_text y @ v" "x = Some a" "y = Some b"
  then have "quoted a @ u = quoted b @ v" by (simp add: opt_text_def opt_json_def)
  with t show ?thesis using quoted_inj by blast
next
  fix a assume "opt_text x @ u = opt_text y @ v" "x = Some a" "y = None"
  then have "quoted a @ u = ''null'' @ v" by (simp add: opt_text_def opt_json_def)
  then show ?thesis using quoted_not_null by blast
next
  fix b assume "opt_text x @ u = opt_text y @ v" "x = None" "y = Some b"
  then have "quoted b @ v = ''null'' @ u" by (simp add: opt_text_def opt_json_def)
  then show ?thesis using quoted_not_null by blast
qed (simp add: opt_text_def opt_json_def)

text \<open>The members of the envelope before the identifiers are read one by one.\<close>

fun members :: "(string \<times> (string option + string)) list \<Rightarrow> string" where
  "members [] = []"
| "members ((k, Inl x) # ms) = k @ opt_text x @ members ms"
| "members ((k, Inr a) # ms) = k @ quoted a @ members ms"

lemma members_inj:
  "members ms @ r = members ns @ q \<Longrightarrow> map (\<lambda>m. (fst m, isl (snd m))) ms = map (\<lambda>m. (fst m, isl (snd m))) ns \<Longrightarrow> ms = ns"
proof (induction ms arbitrary: ns)
  case (Cons m ms)
  then obtain n ns' where n: "ns = n # ns'" "fst n = fst m" "isl (snd n) = isl (snd m)"
    "map (\<lambda>m. (fst m, isl (snd m))) ms = map (\<lambda>m. (fst m, isl (snd m))) ns'" by (cases ns) auto
  obtain k v w where k: "m = (k, v)" "n = (k, w)" using n(2) by (metis prod.collapse)
  show ?case
  proof (cases v)
    case (Inl x)
    with n k obtain y where y: "w = Inl y" by (cases w) auto
    from Cons.prems(1) have "opt_text x @ members ms @ r = opt_text y @ members ns' @ q"
      by (simp only: n(1) k Inl y members.simps append_assoc same_append_eq)
    from opt_text_inj [OF this] Cons.IH [of ns'] n k Inl y show ?thesis by simp
  next
    case (Inr a)
    with n k obtain b where b: "w = Inr b" by (cases w) auto
    from Cons.prems(1) have "quoted a @ members ms @ r = quoted b @ members ns' @ q"
      by (simp only: n(1) k Inr b members.simps append_assoc same_append_eq)
    from quoted_inj [OF this] Cons.IH [of ns'] n k Inr b show ?thesis by simp
  qed
qed simp

definition leading :: "event_envelope \<Rightarrow> (string \<times> (string option + string)) list" where
  "leading e = [(''{'' @ quoted ''action_id'' @ '':'', Inl (ev_action_id e)),
     ('','' @ quoted ''actor_id'' @ '':'', Inr (ev_actor_id e)),
     ('','' @ quoted ''adapter_id'' @ '':'', Inl (ev_adapter_id e)),
     ('','' @ quoted ''brain_id'' @ '':'', Inr (ev_brain_id e)),
     ('','' @ quoted ''causation_id'' @ '':'', Inl (ev_causation_id e)),
     ('','' @ quoted ''correlation_id'' @ '':'', Inl (ev_correlation_id e)),
     ('','' @ quoted ''event_id'' @ '':'', Inr (ev_event_id e))]"

lemma event_text_shape: "\<exists>r. event_text x e = members (leading e) @ r"
  by (simp add: event_text_def canonical_data_def opt_text_def leading_def)

lemma event_text_ids:
  assumes "event_text x a = event_text x b"
  shows "ev_brain_id a = ev_brain_id b \<and> ev_event_id a = ev_event_id b \<and> ev_actor_id a = ev_actor_id b"
proof -
  from event_text_shape [of x a] obtain r where r: "event_text x a = members (leading a) @ r" ..
  from event_text_shape [of x b] obtain q where q: "event_text x b = members (leading b) @ q" ..
  have "map (\<lambda>m. (fst m, isl (snd m))) (leading a) = map (\<lambda>m. (fst m, isl (snd m))) (leading b)"
    by (simp only: leading_def list.map prod.sel sum.disc)
  from members_inj [OF assms [unfolded r q] this] show ?thesis
    by (simp only: leading_def list.inject prod.inject sum.inject simp_thms)
qed

end
