(* ===== verification/Engine.thy ===== *)
theory Engine imports Ledger Specialists Texts
begin

text \<open>
  The append-first engine of \<^verbatim>\<open>runtime/engine.py\<close>: one replay-derived state over a shared ledger. An
  operation maps the engine and the ledger to its result and their successors, because a failed operation
  may still have marked the engine as diverged or have appended. \<open>race\<close> is what other writers commit between
  the engine's read of the head and its own append. The theorems: the engine's state is always the replay of
  a prefix of the ledger and, after a success, of all of it; alone on its brain it never diverges; a failure
  can always be recorded.
\<close>

section \<open>State\<close>

record engine =
  en_brain_id :: string
  en_actor_id :: string
  en_state :: brain_state
  en_diverged :: bool
  en_published :: "(string \<times> int) list"

type_synonym 'a outcome = "'a res \<times> engine \<times> database"

definition and_then :: "'a outcome \<Rightarrow> ('a \<Rightarrow> engine \<Rightarrow> database \<Rightarrow> 'b outcome) \<Rightarrow> 'b outcome" where
  "and_then m f = (case m of (Inl err, E, L) \<Rightarrow> (Inl err, E, L) | (Inr x, E, L) \<Rightarrow> f x E L)"

definition lift_res :: "'a res \<Rightarrow> engine \<Rightarrow> database \<Rightarrow> 'a outcome" where
  "lift_res r E L = (r, E, L)"

definition new_engine :: "platform \<Rightarrow> string \<Rightarrow> string \<Rightarrow> database \<Rightarrow> engine res" where
  "new_engine P b a L =
     rbind (validate_id b) (\<lambda>b. rbind (validate_id a) (\<lambda>a. rbind (bootstrap_state P L b) (\<lambda>s.
     Inr \<lparr>en_brain_id = b, en_actor_id = a, en_state = s, en_diverged = False, en_published = []\<rparr>)))"

definition publish_state :: "brain_state \<Rightarrow> engine \<Rightarrow> engine" where
  "publish_state s E = E\<lparr>en_state := s, en_published := en_published E @ [(en_brain_id E, bs_last_sequence s)]\<rparr>"

definition diverge :: "engine \<Rightarrow> engine" where
  "diverge E = E\<lparr>en_diverged := True\<rparr>"

section \<open>Operations\<close>

definition engine_append ::
  "platform \<Rightarrow> (database \<Rightarrow> database) \<Rightarrow> event_envelope \<Rightarrow> engine \<Rightarrow> database \<Rightarrow> event_envelope outcome" where
  "engine_append P race event E L =
     (let last = bs_last_sequence (en_state E) in
      if ev_brain_id event \<noteq> en_brain_id E then (Inl (PyValueError ''event brain does not match engine brain''), E, L)
      else if ev_sequence event \<noteq> None then (Inl (PyValueError ''engine rejects presequenced client events''), E, L)
      else if en_diverged E then (Inl (EventConflictError ''engine sequence divergence requires a replayed restart''), E, L)
      else case get_event_and_head P L (ev_event_id event) (en_brain_id E) of
        Inl err \<Rightarrow> (Inl err, E, L)
      | Inr (existing, head) \<Rightarrow>
          if head \<noteq> last then
            (Inl (EventConflictError (''engine sequence divergence: authoritative ledger head '' @ int_text head @
              '' does not match replayed state '' @ int_text last @ ''; restart from ledger replay is required'')), diverge E, L)
          else case existing of
            Some x \<Rightarrow>
              if body_fingerprint x \<noteq> body_fingerprint event \<or> event_text True x \<noteq> event_text True event then
                (Inl (EventConflictError (''event ID '' @ ev_event_id event @ '' already has a different body'')), E, L)
              else if (case ev_sequence x of None \<Rightarrow> True | Some n \<Rightarrow> n > last) then
                (Inl (EventConflictError (''engine sequence divergence: exact event exists beyond '' @
                  ''the replayed state; restart from ledger replay is required'')), diverge E, L)
              else (Inr x, E, L)
          | None \<Rightarrow>
              case rbind (event_revalidated (sequenced event (last + 1))) (\<lambda>provisional.
                   rbind (reduce_state (en_state E) provisional) (\<lambda>successor. Inr (provisional, successor))) of
                Inl err \<Rightarrow> (Inl err, E, L)
              | Inr (provisional, successor) \<Rightarrow>
                  case append_expected P event (last + 1) (race L) of
                    Inl (ExpectedSequenceError _) \<Rightarrow>
                      (Inl (EventConflictError (''engine sequence divergence: expected sequence was lost; '' @
                        ''restart from ledger replay is required'')), diverge E, race L)
                  | Inl err \<Rightarrow> (Inl err, E, race L)
                  | Inr ((stored, _), L') \<Rightarrow>
                      if \<not> event_eq stored provisional then
                        (Inl (EventConflictError (''engine sequence divergence: stored envelope does not match '' @
                          ''provisionally validated sequence '' @ int_text (last + 1) @
                          ''; restart from ledger replay is required'')), diverge E, L')
                      else (Inr stored, publish_state successor E, L'))"

definition engine_checkpoint :: "platform \<Rightarrow> engine \<Rightarrow> database \<Rightarrow> brain_state outcome" where
  "engine_checkpoint P E L =
     (if en_diverged E then (Inl (EventConflictError ''engine sequence divergence requires a replayed restart''), E, L)
      else case checkpoint_current_state P (en_state E) L of
        Inr (s, L') \<Rightarrow> (Inr s, E, L')
      | Inl (LedgerIntegrityError m) \<Rightarrow> (Inl (LedgerIntegrityError m), diverge E, L)
      | Inl (SchemaVersionError m) \<Rightarrow> (Inl (SchemaVersionError m), diverge E, L)
      | Inl (SnapshotConflictError m) \<Rightarrow> (Inl (SnapshotConflictError m), diverge E, L)
      | Inl _ \<Rightarrow> (Inl (LedgerIntegrityError ''unexpected current-head checkpoint validation failure''), diverge E, L))"

text \<open>\<open>_event\<close> with the identifier, the wall time and the monotonic reading it takes from the environment.\<close>

record stamp =
  st_event_id :: string
  st_wall_time :: string
  st_monotonic_ns :: int

definition engine_event :: "string \<Rightarrow> jobj \<Rightarrow> stamp \<Rightarrow> engine \<Rightarrow> event_envelope res" where
  "engine_event t payload st E = new_event t (en_brain_id E) (en_actor_id E) payload (st_event_id st) (st_wall_time st)
     (st_monotonic_ns st) no_provenance"

definition emit :: "platform \<Rightarrow> (database \<Rightarrow> database) \<Rightarrow> string \<Rightarrow> jobj \<Rightarrow> stamp \<Rightarrow> engine \<Rightarrow> database \<Rightarrow> event_envelope outcome" where
  "emit P race t payload st E L = and_then (lift_res (engine_event t payload st E) E L) (engine_append P race)"

text \<open>\<open>pulse\<close>: the three events of one cycle, with the default coordinator and the local port.\<close>

definition pulse ::
  "platform \<Rightarrow> (database \<Rightarrow> database) \<Rightarrow> rat \<Rightarrow> stamp \<times> stamp \<times> stamp \<Rightarrow> engine \<Rightarrow> database \<Rightarrow> brain_state outcome" where
  "pulse P race elapsed sts E L =
     (if elapsed < 0 then (Inl (PyValueError ''elapsed_seconds must be finite and non-negative''), E, L)
      else case sts of (st1, st2, st3) \<Rightarrow>
        and_then (emit P race ''clock.tick'' [(''elapsed_seconds'', JFloat elapsed)] st1 E L) (\<lambda>_ E L.
        and_then (lift_res (propose (en_state E)) E L) (\<lambda>candidates E L.
        and_then (emit P race ''workspace.broadcast''
          (broadcast_payload (ws_cycle (bs_workspace (en_state E)) + 1) candidates) st2 E L) (\<lambda>_ E L.
        let w = bs_workspace (en_state E) in
        and_then (lift_res (reflect (reflected_content (ws_cycle w) (ws_broadcast w)) (map wc_candidate_id (ws_broadcast w))) E L) (\<lambda>result E L.
        and_then (emit P race ''cognition.reflected'' (result_payload result) st3 E L) (\<lambda>_ E L.
        (Inr (en_state E), E, L)))))))"

text \<open>
  \<open>sanitized_failure\<close>: every run of control characters becomes one space, and the result is stripped and
  cut. The exception's class name and its \<open>str\<close> are the arguments.
\<close>

definition control :: "char \<Rightarrow> bool" where
  "control c = (let n = (of_char c :: int) in n < 32 \<or> n = 127)"

function squeeze :: "string \<Rightarrow> string" where
  "squeeze [] = []"
| "squeeze (c # s) = (if control c then CHR '' '' # squeeze (dropWhile control s) else c # squeeze s)"
  by pat_completeness auto
termination
  by (relation "measure length") (auto simp: le_imp_less_Suc length_dropWhile_le)

definition sanitized_failure :: "string \<Rightarrow> string \<Rightarrow> string \<Rightarrow> jobj" where
  "sanitized_failure error_type text phase =
     (let m = py_strip (squeeze text); message = (if m = [] then ''no error message'' else m);
          ph = take 160 phase
      in [(''error_type'', JStr (take 160 error_type)), (''message'', JStr (take 512 message)),
          (''phase'', JStr (if ph = [] then ''runtime'' else ph))])"

definition record_failure ::
  "platform \<Rightarrow> (database \<Rightarrow> database) \<Rightarrow> string \<Rightarrow> string \<Rightarrow> string \<Rightarrow> stamp \<Rightarrow> engine \<Rightarrow> database \<Rightarrow> event_envelope outcome" where
  "record_failure P race error_type text phase st E L =
     emit P race ''runtime.failure'' (sanitized_failure error_type text phase) st E L"

definition record_recovered ::
  "platform \<Rightarrow> (database \<Rightarrow> database) \<Rightarrow> stamp \<Rightarrow> engine \<Rightarrow> database \<Rightarrow> event_envelope outcome" where
  "record_recovered P race st E L = emit P race ''runtime.recovered'' [(''status'', JStr ''healthy'')] st E L"

section \<open>The engine follows the ledger\<close>

definition tracks :: "platform \<Rightarrow> engine \<Rightarrow> database \<Rightarrow> bool" where
  "tracks P E L \<longleftrightarrow> ledger_ok P L \<and> is_uuid4 (en_brain_id E) \<and> 0 \<le> bs_last_sequence (en_state E) \<and>
     bs_last_sequence (en_state E) \<le> ledger_head L (en_brain_id E) \<and>
     full_replay P L (en_brain_id E) (Some (bs_last_sequence (en_state E))) = Inr (en_state E)"

definition synced :: "platform \<Rightarrow> engine \<Rightarrow> database \<Rightarrow> bool" where
  "synced P E L \<longleftrightarrow> tracks P E L \<and> full_replay P L (en_brain_id E) None = Inr (en_state E) \<and>
     ledger_head L (en_brain_id E) = bs_last_sequence (en_state E)"

lemma full_replay_head:
  assumes l: "ledger_ok P L"
  shows "full_replay P L b (Some (ledger_head L b)) = full_replay P L b None"
  by (simp add: ledger_head_length [OF l] full_replay_take [OF ledger_okD(1) [OF l]] full_replay_all [OF ledger_okD(1) [OF l]])

lemma replay_rows_last:
  "replay_rows P s rows = Inr t \<Longrightarrow> bs_brain_id t = bs_brain_id s"
proof (induction rows arbitrary: s)
  case (Cons r rows)
  then obtain e u where u: "reduce_state s e = Inr u" "replay_rows P u rows = Inr t"
    by (auto simp: replay_rows_def rbind_eq_Inr)
  with Cons.IH [OF u(2)] reduce_state_Inr [OF u(1)] show ?case by (simp add: log_of_def)
qed (simp add: replay_rows_def)

lemma synced_iff:
  "synced P E L \<longleftrightarrow> tracks P E L \<and> ledger_head L (en_brain_id E) = bs_last_sequence (en_state E)"
  using full_replay_head [of P L "en_brain_id E"] by (auto simp: synced_def tracks_def)

lemma tracks_brain: "tracks P E L \<Longrightarrow> bs_brain_id (en_state E) = en_brain_id E"
proof -
  assume t: "tracks P E L"
  then obtain k where "bs_last_sequence (en_state E) = int k" using zero_le_imp_eq_int unfolding tracks_def by blast
  moreover have "ledger_ok P L" using t by (simp add: tracks_def)
  ultimately have "replay_rows P (brain_genesis (en_brain_id E)) (take k (history L (en_brain_id E))) = Inr (en_state E)"
    using t by (simp add: tracks_def full_replay_take [OF ledger_okD(1)])
  from replay_rows_last [OF this] show ?thesis by simp
qed

lemma tracks_later: "tracks P E L \<Longrightarrow> later_ledger P L M \<Longrightarrow> tracks P E M"
proof -
  assume t: "tracks P E L" and m: "later_ledger P L M"
  from t have l: "ledger_ok P L" by (simp add: tracks_def)
  from t obtain k where k: "bs_last_sequence (en_state E) = int k" using zero_le_imp_eq_int unfolding tracks_def by blast
  from m obtain rs where M: "ledger_ok P M" "history M (en_brain_id E) = history L (en_brain_id E) @ rs"
    by (auto simp: later_ledger_def)
  from t k have "k \<le> length (history L (en_brain_id E))" by (simp add: tracks_def ledger_head_length [OF l])
  with t k M full_replay_take [OF ledger_okD(1) [OF l], of P "en_brain_id E" k]
    full_replay_take [OF ledger_okD(1) [OF M(1)], of P "en_brain_id E" k]
  show ?thesis by (simp add: tracks_def ledger_head_length [OF l] ledger_head_length [OF M(1)])
qed

lemma validate_ok: "is_uuid4 v \<Longrightarrow> validate_id v = Inr v"
  by (simp add: validate_id_def)

lemma replay_rows_sequence:
  "replay_rows P s rows = Inr t \<Longrightarrow> bs_last_sequence t = (if rows = [] then bs_last_sequence s else row_sequence (last rows))"
proof (induction rows arbitrary: s)
  case (Cons r rows)
  then obtain e u where u: "decode_event P r = Inr e" "reduce_state s e = Inr u" "replay_rows P u rows = Inr t"
    by (auto simp: replay_rows_def rbind_eq_Inr)
  then have "bs_last_sequence u = row_sequence r"
    using reduce_state_Inr [OF u(2)] decoded_sequence [OF u(1)] by (simp add: log_of_def)
  with Cons.IH [OF u(3)] show ?case by simp
qed (simp add: replay_rows_def)

lemma replayed_head:
  assumes l: "ledger_ok P L" and f: "full_replay P L b None = Inr s"
  shows "bs_last_sequence s = ledger_head L b"
proof -
  note nb = ledger_okD(1) [OF l, of b]
  from f have r: "replay_rows P (brain_genesis b) (history L b) = Inr s" by (simp add: full_replay_all [OF nb])
  show ?thesis
  proof (cases "history L b" rule: rev_cases)
    case Nil
    with replay_rows_sequence [OF r] show ?thesis by (simp add: ledger_head_length [OF l] brain_genesis_def)
  next
    case (snoc ys y)
    with replay_rows_sequence [OF r] nb show ?thesis by (simp add: ledger_head_length [OF l] numbered_snoc)
  qed
qed

lemma restarted:
  assumes "ledger_ok P L" "new_engine P b a L = Inr E"
  shows "synced P E L \<and> \<not> en_diverged E \<and> en_brain_id E = b \<and> en_actor_id E = a"
proof -
  from assms(2) have E: "is_uuid4 b" "bootstrap_state P L b = Inr (en_state E)" "en_brain_id E = b" "\<not> en_diverged E"
    "en_actor_id E = a" by (auto simp: new_engine_def rbind_eq_Inr)
  from E(2) have f: "full_replay P L b None = Inr (en_state E)" by (simp add: bootstrap_full [OF assms(1) E(1)])
  from replayed_head [OF assms(1) f] full_replay_head [OF assms(1), of b] f E assms(1) show ?thesis
    by (simp add: synced_def tracks_def ledger_head_length [OF assms(1)])
qed

text \<open>
  C18. A restart repairs a divergence: the engine that is built from a sound ledger, whatever was written to
  it, is undiverged and its state is the replay of all of it.
\<close>

theorem restart_is_synced:
  assumes "ledger_ok P L" and "new_engine P b a L = Inr E"
  shows "synced P E L \<and> \<not> en_diverged E \<and> en_brain_id E = b"
  using restarted [OF assms] by simp

text \<open>The engine, the event and the reader of the witnesses.\<close>

definition young_engine :: engine where
  "young_engine = \<lparr>en_brain_id = sample_id, en_actor_id = sample_id, en_state = brain_genesis sample_id,
     en_diverged = False, en_published = []\<rparr>"

definition boom_event :: event_envelope where
  "boom_event = sample_event ''runtime.failure'' (sanitized_failure ''ValueError'' ''boom'' ''pulse'')"

definition boom_platform :: platform where
  "boom_platform = echo (sequenced boom_event 1) (brain_genesis sample_id)"

definition sample_stamp :: stamp where
  "sample_stamp = \<lparr>st_event_id = sample_id, st_wall_time = ''2026-01-01T00:00:00Z'', st_monotonic_ns = 0\<rparr>"

lemma young_simps [simp]:
  "en_brain_id young_engine = sample_id" "en_actor_id young_engine = sample_id" "en_state young_engine = brain_genesis sample_id"
  "\<not> en_diverged young_engine" "bs_last_sequence (brain_genesis sample_id) = 0"
  "reads_event boom_platform (sequenced boom_event 1)" "ev_brain_id boom_event = sample_id" "ev_sequence boom_event = None"
  by (simp_all add: young_engine_def brain_genesis_def boom_platform_def boom_event_def)

lemma restart_is_synced_witness:
  "new_engine first_platform sample_id sample_id one_brain = Inr young_engine \<and> synced first_platform young_engine one_brain"
proof -
  have n: "new_engine first_platform sample_id sample_id one_brain = Inr young_engine"
    by (simp add: new_engine_def validate_ok bootstrap_full [OF one_brain_ok] one_brain_replay young_engine_def)
  with restart_is_synced [OF one_brain_ok n] show ?thesis by simp
qed

lemma young_synced: "synced P young_engine empty_database"
proof -
  have "full_replay P empty_database sample_id u = Inr (brain_genesis sample_id)" for u
    by (simp add: full_replay_def replay_rows_def empty_database_def)
  then show ?thesis by (simp add: synced_def tracks_def empty_ok)
qed

lemma diverge_simps [simp]:
  "en_state (diverge E) = en_state E" "en_diverged (diverge E)" "en_brain_id (diverge E) = en_brain_id E"
  "tracks P (diverge E) L = tracks P E L"
  by (simp_all add: diverge_def tracks_def)

lemma publish_simps [simp]:
  "en_state (publish_state s E) = s" "en_diverged (publish_state s E) = en_diverged E"
  "en_brain_id (publish_state s E) = en_brain_id E" "en_actor_id (publish_state s E) = en_actor_id E"
  by (simp_all add: publish_state_def)

lemma get_event_and_head_Inr:
  "get_event_and_head P L i b = Inr (x, h) \<Longrightarrow> h = ledger_head L b \<and> (x = None \<longleftrightarrow> i \<notin> row_event_id ` set (db_events L))"
  using lookup_None_iff [of row_event_id "db_events L" i]
  by (auto simp: get_event_and_head_def rbind_eq_Inr split: option.splits dest: lookup_SomeD)

lemma engine_append_cases:
  assumes "engine_append P race event E L = (r, E', L')"
  obtains (Refused) err where "r = Inl err" "E' = E \<or> E' = diverge E" "L' = L \<or> L' = race L"
  | (Mismatch) err x where "r = Inl err" "E' = diverge E" "ev_brain_id event = en_brain_id E"
      "append_expected P event (bs_last_sequence (en_state E) + 1) (race L) = Inr (x, L')"
  | (Known) x where "r = Inr x" "E' = E" "L' = L" "ledger_head L (en_brain_id E) = bs_last_sequence (en_state E)"
      "ev_event_id event \<in> row_event_id ` set (db_events L)"
  | (Appended) x i s where "r = Inr x" "E' = publish_state s E" "ev_brain_id event = en_brain_id E"
      "ledger_head L (en_brain_id E) = bs_last_sequence (en_state E)"
      "reduce_state (en_state E) (sequenced event (bs_last_sequence (en_state E) + 1)) = Inr s"
      "append_expected P event (bs_last_sequence (en_state E) + 1) (race L) = Inr ((x, i), L')"
      "event_eq x (sequenced event (bs_last_sequence (en_state E) + 1))"
proof -
  let ?n = "bs_last_sequence (en_state E) + 1"
  show thesis
  proof (cases "get_event_and_head P L (ev_event_id event) (en_brain_id E)")
    case (Inl err)
    with assms Refused show ?thesis by (auto simp: engine_append_def Let_def split: if_splits)
  next
    case (Inr xh)
    then obtain x where x: "get_event_and_head P L (ev_event_id event) (en_brain_id E) = Inr (x, ledger_head L (en_brain_id E))"
      using get_event_and_head_Inr by (cases xh) auto
    then have known: "x = None \<or> ev_event_id event \<in> row_event_id ` set (db_events L)"
      using get_event_and_head_Inr by blast
    show ?thesis
    proof (cases "rbind (event_revalidated (sequenced event ?n)) (\<lambda>p. rbind (reduce_state (en_state E) p) (\<lambda>s. Inr (p, s)))")
      case (Inl err)
      with assms x known Refused Known show ?thesis by (auto simp: engine_append_def Let_def split: if_splits option.splits)
    next
      case (Inr ps)
      then obtain s where s: "ps = (sequenced event ?n, s)" "reduce_state (en_state E) (sequenced event ?n) = Inr s"
        by (auto simp: rbind_eq_Inr)
      show ?thesis
      proof (cases "append_expected P event ?n (race L)")
        case (Inl err)
        with assms x known Inr s Refused Known show ?thesis
          by (auto simp: engine_append_def Let_def split: if_splits option.splits py_error.splits)
      next
        case (Inr y)
        obtain z i M where y: "y = ((z, i), M)" by (metis prod.exhaust)
        with assms x known \<open>_ = Inr ps\<close> Inr s Refused Known Mismatch Appended show ?thesis
          by (auto simp: engine_append_def Let_def split: if_splits option.splits)
      qed
    qed
  qed
qed

lemma engine_append_tracks:
  assumes "tracks P E L" and "later_ledger P L (race L)"
    and "reads_event P (sequenced event (bs_last_sequence (en_state E) + 1))"
    and "engine_append P race event E L = (r, E', L')"
  shows "tracks P E' L' \<and> later_ledger P L L' \<and>
    (case r of Inr x \<Rightarrow> synced P E' L' | Inl err \<Rightarrow> en_state E' = en_state E)"
proof -
  let ?b = "en_brain_id E" and ?n = "bs_last_sequence (en_state E) + 1"
  have l: "ledger_ok P L" using assms(1) by (simp add: tracks_def)
  have le: "later_ledger P L N" if "append_expected P event ?n (race L) = Inr (x, N)" "ev_brain_id event = ?b" for x N
    using ledger_log.append_ok [of P "race L" event ?b ?n] that assms(2,3) later_ledger_trans
    by (cases x) (auto simp: later_ledger_def)
  show ?thesis
    using assms(4)
  proof (cases rule: engine_append_cases)
    case (Refused err)
    then show ?thesis using assms(1,2) later_ledger_self [OF l] tracks_later [OF assms(1)] by auto
  next
    case (Mismatch err x)
    with le have "later_ledger P L L'" by blast
    with Mismatch tracks_later [OF assms(1)] show ?thesis by auto
  next
    case (Known x)
    with assms(1) show ?thesis by (simp add: synced_iff l)
  next
    case (Appended x i s)
    have "full_replay P L ?b None = Inr (en_state E)"
      using full_replay_head [OF l, of ?b] assms(1) Appended(4) by (simp add: tracks_def)
    from ledger_log.compare_and_append [OF l assms(2) this _ _ Appended(6,7)] Appended(3,4,5) assms(3)
    have m: "ledger_ok P L'" "later_ledger P L L'" "ledger_head L' ?b = ?n" "full_replay P L' ?b None = Inr s" by simp_all
    have "bs_last_sequence s = ?n" using reduce_state_Inr [OF Appended(5)] by (simp add: log_of_def)
    then have "tracks P E' L'"
      using assms(1) m full_replay_head [OF m(1), of ?b] Appended(2) by (simp add: tracks_def)
    with m Appended(1,2) \<open>bs_last_sequence s = ?n\<close> show ?thesis by (simp add: synced_iff)
  qed
qed



section \<open>A stale engine\<close>

lemma diverged_refuses:
  assumes "en_diverged E" "ev_brain_id event = en_brain_id E" "ev_sequence event = None"
  shows "engine_append P race event E L =
    (Inl (EventConflictError ''engine sequence divergence requires a replayed restart''), E, L)"
  using assms by (simp add: engine_append_def Let_def)

text \<open>
  A stale engine stops: when another writer has moved the brain's head, an append is refused with a
  conflict, writes nothing, changes no state, and marks the engine as diverged; and from then on every
  append for the brain is refused the same way, whatever the ledger has become.
\<close>

theorem stale_engine_stops:
  assumes "tracks P E L" and "\<not> synced P E L" and "\<not> en_diverged E"
    and "valid_event event" "ev_brain_id event = en_brain_id E" "ev_sequence event = None"
  shows "(\<exists>m. engine_append P race event E L = (Inl (EventConflictError m), diverge E, L)) \<and>
    (\<exists>m. engine_append P other event (diverge E) M = (Inl (EventConflictError m), diverge E, M))"
proof -
  from assms(1) have l: "ledger_ok P L" and b: "is_uuid4 (en_brain_id E)" by (simp_all add: tracks_def)
  have i: "is_uuid4 (ev_event_id event)" using valid_event_ids [OF assms(4)] by simp
  have "\<exists>x. get_event_and_head P L (ev_event_id event) (en_brain_id E) = Inr (x, ledger_head L (en_brain_id E))"
  proof (cases "lookup row_event_id (db_events L) (ev_event_id event)")
    case None
    with b i show ?thesis by (simp add: get_event_and_head_def validate_ok)
  next
    case (Some row)
    with ledger_okD(5) [OF l] lookup_SomeD obtain x where "decode_event P row = Inr x" by metis
    with Some b i show ?thesis by (simp add: get_event_and_head_def validate_ok)
  qed
  with assms show ?thesis by (auto simp: engine_append_def Let_def synced_iff diverged_refuses)
qed

lemma boom_event_valid: "valid_event boom_event" "valid_event (sequenced boom_event 1)"
proof -
  have "valid_event_type ''runtime.failure''" by code_simp
  then show "valid_event boom_event" unfolding boom_event_def
    by (intro sample_event_valid) (simp_all add: sanitized_failure_def Let_def sorted_keys_def)
  then show "valid_event (sequenced boom_event 1)" by (simp add: sequenced_def valid_event_sequenced boom_event_def)
qed

lemma stale_engine_stops_witness:
  "\<exists>L m. engine_append first_platform (\<lambda>L. L) boom_event young_engine L =
     (Inl (EventConflictError m), diverge young_engine, L)"
proof -
  obtain L where L: "append_expected first_platform first_event 1 empty_database = Inr ((sequenced first_event 1, True), L)"
    using first_expected by blast
  have h: "ledger_ok first_platform L" "ledger_head L sample_id = 1"
    using ledger_log.append_ok [OF empty_ok _ L, of sample_id] ledger_log.append_head [OF empty_ok _ L, of sample_id] by simp_all
  have "later_ledger first_platform empty_database L" using h(1) by (simp add: later_ledger_def)
  moreover have "tracks first_platform young_engine empty_database" using young_synced by (simp add: synced_def)
  ultimately have "tracks first_platform young_engine L" using tracks_later by blast
  moreover from this have "\<not> synced first_platform young_engine L" using h(2) by (simp add: synced_iff)
  ultimately have "\<exists>m. engine_append first_platform (\<lambda>L. L) boom_event young_engine L =
      (Inl (EventConflictError m), diverge young_engine, L)"
    using stale_engine_stops [of first_platform young_engine L boom_event "\<lambda>L. L"] boom_event_valid(1) by simp
  then show ?thesis by blast
qed

section \<open>An engine alone on its brain\<close>

lemma synced_ledger: "synced P E L \<Longrightarrow> ledger_ok P L"
  by (simp add: synced_def tracks_def)

lemma append_expected_at_head:
  assumes l: "ledger_ok P L" and e: "ev_sequence e = None" and n: "n = ledger_head L (ev_brain_id e) + 1"
    and fresh: "ev_event_id e \<notin> row_event_id ` set (db_events L)"
  shows "case append_expected P e n L of
      Inl err \<Rightarrow> (\<forall>m. err \<noteq> ExpectedSequenceError m)
    | Inr ((x, i), L') \<Rightarrow> x = sequenced e n"
proof (cases "append_expected P e n L")
  case (Inl err)
  have len: "n = int (length (history L (ev_brain_id e))) + 1" by (simp add: n ledger_head_length [OF l])
  have "append_new P e (Some n) L \<noteq> Inl (ExpectedSequenceError m)" for m
  proof -
    have "the (db_brains (ensure_observability_row (ev_brain_id e) (ensure_brain_row (ev_brain_id e) L)) (ev_brain_id e)) = n"
      using ledger_okD(2,3) [OF l, of "ev_brain_id e"] len
      by (auto simp: ensure_observability_row_def ensure_brain_row_def split: option.splits)
    then show ?thesis
      by (auto simp: append_new_def Let_def rbind_eq_Inl event_revalidated_def insert_event_def register_event_def
        record_identity_name_def identity_name_normalization_key_def record_gap_observability_def observability_row_def
        persisted_count_def checked_add_def split: if_splits json.splits option.splits)
  qed
  moreover have "append_existing P e (Some n) (ledger_head L (ev_brain_id e)) r \<noteq> Inl (ExpectedSequenceError m)"
    if "r \<in> set (db_events L)" for r m
  proof
    assume a: "append_existing P e (Some n) (ledger_head L (ev_brain_id e)) r = Inl (ExpectedSequenceError m)"
    from ledger_okD(5) [OF l \<open>r \<in> set (db_events L)\<close>] obtain y where y: "decode_event P r = Inr y" by blast
    with a n have "event_text True y = event_text True e"
      by (auto simp: append_existing_def split: if_splits)
    with event_text_ids decode_event_Inr [OF y] have "row_event_id r = ev_event_id e" by metis
    with \<open>r \<in> set (db_events L)\<close> fresh show False by force
  qed
  ultimately have no: "append_new P e (Some n) L \<noteq> Inl (ExpectedSequenceError m)"
      "r \<in> set (db_events L) \<Longrightarrow> append_existing P e (Some n) (ledger_head L (ev_brain_id e)) r \<noteq> Inl (ExpectedSequenceError m)"
    for m r by blast+
  let ?Q = "\<lambda>r. row_event_id r = ev_event_id e \<or> row_body_fingerprint r = body_fingerprint e"
  have "append_event P e (Some n) L \<noteq> Inl (ExpectedSequenceError m)" for m
  proof (cases "valid_event e")
    case False
    then show ?thesis by (simp add: append_event_def event_revalidated_def)
  next
    case v: True
    show ?thesis
    proof (cases "filter ?Q (db_events L)")
      case Nil
      with v no(1) show ?thesis by (simp add: append_event_def event_revalidated_def rbind_eq_Inl split_beta)
    next
      case (Cons r rs)
      then have "r \<in> set (db_events L)" by (metis filter_is_subset list.set_intros(1) subsetD)
      with v no(2) Cons show ?thesis
        by (cases rs) (simp_all add: append_event_def event_revalidated_def rbind_eq_Inl)
    qed
  qed
  moreover have "err = PyValueError ''expected_sequence must be positive'' \<or> append_event P e (Some n) L = Inl err"
    using Inl by (auto simp: append_expected_def validate_expected_sequence_def split: if_splits)
  ultimately show ?thesis using Inl by auto
next
  case (Inr y)
  obtain x i L' where y: "y = ((x, i), L')" by (metis prod.exhaust)
  with Inr have "append_event P e (Some n) L = Inr ((x, i), L')" by (simp add: append_expected_event)
  with l have "x = sequenced e n"
  proof (cases rule: append_event_cases)
    case (Adopted row)
    from append_existing_Inr [OF Adopted(6)] n show ?thesis by simp
  qed (use n in simp)
  with Inr y show ?thesis by simp
qed

text \<open>
  An engine that is the only writer of its brain never diverges: from a state that is the replay of the
  ledger, every append, successful or refused for any reason, leaves it undiverged and still the replay of
  the ledger.
\<close>

theorem lone_engine_never_diverges:
  assumes "synced P E L" and "\<not> en_diverged E"
    and "reads_event P (sequenced event (bs_last_sequence (en_state E) + 1))"
    and "engine_append P (\<lambda>L. L) event E L = (r, E', L')"
  shows "\<not> en_diverged E' \<and> synced P E' L'"
proof -
  let ?n = "bs_last_sequence (en_state E) + 1" and ?b = "en_brain_id E"
  have l: "ledger_ok P L" and h: "ledger_head L ?b = bs_last_sequence (en_state E)"
    using assms(1) by (simp_all add: synced_def tracks_def)
  have refines: "tracks P E' L'" "case r of Inr x \<Rightarrow> synced P E' L' | Inl err \<Rightarrow> en_state E' = en_state E"
    using engine_append_tracks [OF _ _ assms(3,4)] assms(1) l by (simp_all add: synced_def)
  consider x where "r = Inr x" "\<not> en_diverged E'" | err where "r = Inl err" "E' = E" "L' = L"
  proof (cases "ev_brain_id event = ?b \<and> ev_sequence event = None")
    case False
    with assms(2,4) that(2) show thesis by (auto simp: engine_append_def Let_def split: if_splits)
  next
    case True
    show thesis
    proof (cases "get_event_and_head P L (ev_event_id event) ?b")
      case (Inl err)
      with assms(2,4) True that(2) show thesis by (auto simp: engine_append_def Let_def)
    next
      case (Inr xh)
      then obtain y where y: "get_event_and_head P L (ev_event_id event) ?b = Inr (y, ledger_head L ?b)"
        using get_event_and_head_Inr by (cases xh) auto
      show thesis
      proof (cases y)
        case (Some z)
        with y obtain row where row: "row \<in> set (db_events L)" "decode_event P row = Inr z"
          by (auto simp: get_event_and_head_def rbind_eq_Inr dest: lookup_SomeD split: option.splits)
        have "row_sequence row \<le> bs_last_sequence (en_state E)" if "event_text True z = event_text True event"
        proof -
          from event_text_ids [OF that] decode_event_Inr [OF row(2)] True have "row \<in> set (history L ?b)"
            using row(1) by (simp add: history_def)
          from numbered_bounds [OF ledger_okD(1) [OF l] this] h show ?thesis by (simp add: ledger_head_length [OF l])
        qed
        with decode_event_Inr [OF row(2)] assms(2,4) True y Some h that show thesis
          by (auto simp: engine_append_def Let_def split: if_splits)
      next
        case None
        have fresh: "ev_event_id event \<notin> row_event_id ` set (db_events L)"
          using get_event_and_head_Inr [OF y] None by blast
        have a: "case append_expected P event ?n L of Inl err \<Rightarrow> (\<forall>m. err \<noteq> ExpectedSequenceError m)
            | Inr ((x, i), L') \<Rightarrow> x = sequenced event ?n"
          using append_expected_at_head [OF l _ _ fresh] True h by simp
        show thesis
        proof (cases "rbind (event_revalidated (sequenced event ?n)) (\<lambda>p. rbind (reduce_state (en_state E) p) (\<lambda>s. Inr (p, s)))")
          case (Inl err)
          with assms(2,4) True y None h that show thesis by (auto simp: engine_append_def Let_def)
        next
          case (Inr ps)
          then obtain s where s: "ps = (sequenced event ?n, s)" by (auto simp: rbind_eq_Inr)
          show thesis
          proof (cases "append_expected P event ?n L")
            case (Inl err)
            with assms(2,4) True y None h Inr s a that show thesis
              by (auto simp: engine_append_def Let_def split: py_error.splits)
          next
            case out: (Inr z)
            obtain x i M where z: "z = ((x, i), M)" by (metis prod.exhaust)
            with a out True h have "x = sequenced event ?n" by simp
            with assms(2,4) True y None h Inr s out z that show thesis
              by (auto simp: engine_append_def Let_def event_eq_def)
          qed
        qed
      qed
    qed
  qed
  then show ?thesis using refines assms(1,2) by cases simp_all
qed

lemma lone_engine_never_diverges_witness:
  "\<exists>r E' L'. engine_append boom_platform (\<lambda>L. L) boom_event young_engine empty_database = (r, E', L') \<and>
     \<not> en_diverged E' \<and> synced boom_platform E' L'"
proof -
  obtain r E' L' where a: "engine_append boom_platform (\<lambda>L. L) boom_event young_engine empty_database = (r, E', L')"
    by (metis prod.exhaust)
  from lone_engine_never_diverges [OF young_synced _ _ a] a show ?thesis by simp
qed

section \<open>Recording failures\<close>

lemma insertion_succeeds:
  assumes l: "ledger_ok P L" and v: "valid_event e" "ev_sequence e = None" and n: "n = ledger_head L (ev_brain_id e) + 1"
    and fresh: "ev_event_id e \<notin> row_event_id ` set (db_events L)" "body_fingerprint e \<notin> row_body_fingerprint ` set (db_events L)"
    and plain: "ev_event_type e \<notin> {''brain.created'', ''identity.named'', ''semantic.gap'', ''trace.gap''}"
  shows "\<exists>L'. append_expected P e n L = Inr ((sequenced e n, True), L') \<and>
    db_events L' = db_events L @ [event_row_of (sequenced e n) n]"
proof -
  let ?b = "ev_brain_id e"
  define M where "M = ensure_observability_row ?b (ensure_brain_row ?b L)"
  have len: "n = int (length (history L ?b)) + 1" by (simp add: n ledger_head_length [OF l])
  have M: "db_events M = db_events L" "db_brains M ?b = Some n"
    using ledger_okD(2,3) [OF l, of ?b] len
    by (auto simp: M_def ensure_observability_row_def ensure_brain_row_def split: option.splits)
  have "\<not> (row_brain_id q = ?b \<and> row_sequence q = n)" if "q \<in> set (db_events L)" for q
    using numbered_bounds [OF ledger_okD(1) [OF l], of q ?b] that len by (auto simp: history_def)
  with M fresh(1) len have ins: "insert_event (event_row_of (sequenced e n) n) (M\<lparr>db_brains := (db_brains M)(?b \<mapsto> n + 1)\<rparr>) =
      Inr (M\<lparr>db_brains := (db_brains M)(?b \<mapsto> n + 1), db_events := db_events L @ [event_row_of (sequenced e n) n]\<rparr>)"
    by (auto simp: insert_event_def list_ex_iff image_iff)
  have "filter (\<lambda>r. row_event_id r = ev_event_id e \<or> row_body_fingerprint r = body_fingerprint e) (db_events L) = []"
    using fresh by (auto simp: filter_empty_conv image_iff)
  moreover have "valid_event (sequenced e n)" using v len by (simp add: sequenced_def valid_event_sequenced)
  ultimately show ?thesis
    using v len plain ins M(2)
    by (simp add: append_expected_def validate_expected_sequence_def append_event_def event_revalidated_def append_new_def
      Let_def register_event_def sequenced_def [symmetric] M_def [symmetric])
qed

lemma fresh_lookup: "i \<notin> row_event_id ` set (db_events L) \<Longrightarrow> is_uuid4 i \<Longrightarrow> is_uuid4 b \<Longrightarrow>
    get_event_and_head P L i b = Inr (None, ledger_head L b)"
proof -
  assume i: "i \<notin> row_event_id ` set (db_events L)" "is_uuid4 i" "is_uuid4 b"
  then show ?thesis using lookup_None_iff [of row_event_id "db_events L" i]
    by (simp add: get_event_and_head_def validate_ok)
qed

lemma engine_append_fresh:
  assumes "synced P E L" "\<not> en_diverged E" "valid_event e" "ev_sequence e = None" "ev_brain_id e = en_brain_id E"
    and "ev_event_id e \<notin> row_event_id ` set (db_events L)" "body_fingerprint e \<notin> row_body_fingerprint ` set (db_events L)"
    and "ev_event_type e \<notin> {''brain.created'', ''identity.named'', ''semantic.gap'', ''trace.gap''}"
    and "reduce_state (en_state E) (sequenced e (bs_last_sequence (en_state E) + 1)) = Inr s"
  shows "\<exists>L'. engine_append P (\<lambda>L. L) e E L =
      (Inr (sequenced e (bs_last_sequence (en_state E) + 1)), publish_state s E, L') \<and>
    db_events L' = db_events L @ [event_row_of (sequenced e (bs_last_sequence (en_state E) + 1)) (bs_last_sequence (en_state E) + 1)]"
proof -
  let ?n = "bs_last_sequence (en_state E) + 1"
  have l: "ledger_ok P L" and h: "ledger_head L (en_brain_id E) = bs_last_sequence (en_state E)" "0 \<le> bs_last_sequence (en_state E)"
    using assms(1) by (simp_all add: synced_def tracks_def)
  have "is_uuid4 (ev_event_id e)" "is_uuid4 (en_brain_id E)" using valid_event_ids [OF assms(3)] assms(5) by simp_all
  note g = fresh_lookup [OF assms(6) this, of P]
  obtain L' where "append_expected P e ?n L = Inr ((sequenced e ?n, True), L')"
    "db_events L' = db_events L @ [event_row_of (sequenced e ?n) ?n]"
    using insertion_succeeds [OF l assms(3,4) _ assms(6,7,8)] h assms(5) by metis
  moreover have "valid_event (sequenced e ?n)" using assms(3) h(2) by (simp add: sequenced_def valid_event_sequenced)
  ultimately show ?thesis
    using assms(2,4,5,9) g h(1) by (simp add: engine_append_def Let_def event_revalidated_def event_eq_def)
qed

lemma synced_admits: "synced P E L \<Longrightarrow> valid_event e \<Longrightarrow> ev_brain_id e = en_brain_id E \<Longrightarrow>
    event_admitted (en_state E) (sequenced e (bs_last_sequence (en_state E) + 1)) = Inr ()"
  using tracks_brain [of P E L] valid_event_def [of e]
  by (simp add: synced_def event_admitted_def sequenced_def EVENT_SCHEMA_VERSION_def)

lemma squeeze_text: "list_all (\<lambda>c. \<not> control c) (squeeze s)"
  by (induction s rule: squeeze.induct) (auto simp: control_def)

lemma failure_payload:
  "error_type \<noteq> [] \<Longrightarrow> freeze_items (sanitized_failure error_type text phase) = sanitized_failure error_type text phase"
  by (intro freeze_items_frozen) (simp add: sanitized_failure_def Let_def sorted_keys_def)

lemma strip_drops: "set (py_strip s) \<subseteq> set s"
  by (auto simp: py_strip_def dest!: set_dropWhileD)

lemma failure_of_payload:
  assumes "error_type \<noteq> []" "ev_payload e = sanitized_failure error_type text phase"
  shows "\<exists>f. runtime_failure_of e = Inr f \<and> rf_error_type f = take 160 error_type \<and>
    rf_phase f = (if phase = [] then ''runtime'' else take 160 phase) \<and>
    list_all (\<lambda>c. \<not> control c) (rf_message f) \<and> rf_message f \<noteq> [] \<and> length (rf_message f) \<le> 512"
proof -
  let ?m = "py_strip (squeeze text)"
  define message where "message = take 512 (if ?m = [] then ''no error message'' else ?m)"
  define ph where "ph = (if phase = [] then ''runtime'' else take 160 phase)"
  have items: "str_item (JObj (ev_payload e)) ''error_type'' = Inr (take 160 error_type)"
    "str_item (JObj (ev_payload e)) ''message'' = Inr message" "str_item (JObj (ev_payload e)) ''phase'' = Inr ph"
    using assms(2) by (simp_all add: sanitized_failure_def Let_def message_def ph_def str_item_def json_item_def jitem_def)
  have "list_all (\<lambda>c. \<not> control c) ?m" using squeeze_text strip_drops by (fastforce simp: list_all_iff)
  moreover have "list_all (\<lambda>c. \<not> control c) ''no error message''" by code_simp
  ultimately have m: "list_all (\<lambda>c. \<not> control c) message" "message \<noteq> []" "length message \<le> 512"
    by (auto simp: message_def list_all_iff dest: in_set_takeD)
  then have "valid_failure \<lparr>rf_error_type = take 160 error_type, rf_message = message, rf_phase = ph\<rparr>"
    using assms(1) by (simp add: valid_failure_def str_len_def ph_def Suc_le_eq)
  with m show ?thesis by (simp add: runtime_failure_of_def items ph_def)
qed

text \<open>
  A failure can always be recorded: whatever the text of the exception, an undiverged engine that is the
  only writer of its brain persists a \<open>runtime.failure\<close> event for it, with a bounded single-line message,
  and ends degraded, consistent and still the replay of the ledger. The fresh identifier and fingerprint
  are the hypotheses on the stamp.
\<close>

theorem failures_recordable:
  assumes "synced P E L" "\<not> en_diverged E" "brain_ok (en_state E)" "error_type \<noteq> []"
    and "engine_event ''runtime.failure'' (sanitized_failure error_type text phase) st E = Inr e"
    and "ev_event_id e \<notin> row_event_id ` set (db_events L)" "body_fingerprint e \<notin> row_body_fingerprint ` set (db_events L)"
    and "reads_event P (sequenced e (bs_last_sequence (en_state E) + 1))"
  shows "\<exists>x E' L' f. record_failure P (\<lambda>L. L) error_type text phase st E L = (Inr x, E', L') \<and> synced P E' L' \<and>
    \<not> en_diverged E' \<and> brain_ok (en_state E') \<and> rt_health (bs_runtime (en_state E')) = Degraded \<and>
    rt_last_failure (bs_runtime (en_state E')) = Some f \<and> list_all (\<lambda>c. \<not> control c) (rf_message f) \<and>
    length (rf_message f) \<le> 512"
proof -
  let ?n = "bs_last_sequence (en_state E) + 1"
  have e: "valid_event e" "ev_sequence e = None" "ev_brain_id e = en_brain_id E" "ev_event_type e = ''runtime.failure''"
    "ev_payload e = sanitized_failure error_type text phase"
    using assms(4,5) by (auto simp: engine_event_def new_event_def failure_payload)
  obtain f where f: "runtime_failure_of (sequenced e ?n) = Inr f" "list_all (\<lambda>c. \<not> control c) (rf_message f)"
    "length (rf_message f) \<le> 512"
    using failure_of_payload [OF assms(4), of "sequenced e ?n" "text" phase] e(5) by auto
  have "0 \<le> bs_last_sequence (en_state E)" using assms(1) by (simp add: synced_def tracks_def)
  then have "valid_event (sequenced e ?n)" using e(1) by (simp add: sequenced_def valid_event_sequenced)
  from reduce_failure [OF assms(3) this synced_admits [OF assms(1) e(1,3)] _ f(1)] e(4)
  obtain s where s: "reduce_state (en_state E) (sequenced e ?n) = Inr s" "brain_ok s" "rt_health (bs_runtime s) = Degraded"
    "rt_last_failure (bs_runtime s) = Some f" by auto
  obtain L' where a: "engine_append P (\<lambda>L. L) e E L = (Inr (sequenced e ?n), publish_state s E, L')"
    using engine_append_fresh [OF assms(1,2) e(1,2,3) assms(6,7) _ s(1)] e(4) by auto
  have "tracks P E L" "later_ledger P L L" using assms(1) by (simp_all add: synced_def tracks_def)
  from engine_append_tracks [OF this assms(8) a] have "synced P (publish_state s E) L'" by simp
  with a s f assms(2,5) show ?thesis by (simp add: record_failure_def emit_def and_then_def lift_res_def)
qed

lemma boom_event_new:
  "engine_event ''runtime.failure'' (sanitized_failure ''ValueError'' ''boom'' ''pulse'') sample_stamp young_engine = Inr boom_event"
  using boom_event_valid(1)
  by (simp add: engine_event_def new_event_def failure_payload boom_event_def sample_event_def sample_stamp_def
    no_provenance_def event_revalidated_def EVENT_SCHEMA_VERSION_def)

lemma failures_recordable_witness:
  "\<exists>x E' L'. record_failure boom_platform (\<lambda>L. L) ''ValueError'' ''boom'' ''pulse'' sample_stamp young_engine empty_database =
     (Inr x, E', L') \<and> rt_health (bs_runtime (en_state E')) = Degraded"
  using failures_recordable [OF young_synced [of boom_platform] _ _ _ boom_event_new] brain_genesis_ok [OF sample_id_uuid]
  by (auto simp: empty_database_def)

end
