(* ===== verification/Pulse.thy ===== *)
theory Pulse imports Engine
begin

text \<open>
  One cycle of \<open>ConsciousEngine.pulse\<close>, first as a function of the state alone: the three events it writes
  and the state they reduce to. The theorems: on a consistent brain whose specialists can bid the cycle
  always has a result, and the pulse of an engine that is the only writer of its brain writes exactly these
  events and ends in exactly this state.
\<close>

section \<open>The three reductions\<close>

lemma reduce_succeeds:
  assumes "brain_ok s" "valid_event e" "event_admitted s e = Inr ()"
    and "reduce_values s e = Inr v" "brain_ok v"
  shows "reduce_state s e = Inr v"
  using assms brain_ok_valid [OF assms(1)] brain_ok_valid [OF assms(5)]
  by (simp add: reduce_state_def state_revalidated_def event_revalidated_def state_from_data_def valid_state_def)

lemma advanced_layers: "advance_personality_clock p c = Inr q \<Longrightarrow> pc_get l q = pc_get l p"
  by (cases l) (auto simp: advance_personality_clock_def personality_revalidated_def keep_domain_def rbind_eq_Inr
    split: sum.splits if_splits py_error.splits)

lemma reduce_tick:
  assumes "brain_ok s" "valid_event e" "event_admitted s e = Inr ()" "ev_event_type e = ''clock.tick''"
    and "ev_payload e = [(''elapsed_seconds'', JFloat elapsed)]" "is_f64 elapsed" "0 \<le> elapsed"
    and "rnd64 (bs_logical_clock s + elapsed) = Some clock"
  shows "\<exists>s'. reduce_state s e = Inr s' \<and> brain_ok s' \<and> same_view s s' \<and> bs_workspace s' = bs_workspace s \<and>
    bs_logical_clock s' = clock"
proof -
  have "reduce_workspace s e = Inr (bs_workspace s)" using assms(4) by (simp add: reduce_workspace_def)
  from quiet_view [OF assms(1-3) _ this] obtain v where v: "prepared s e v" "reduce_values s e = typed_stage s e v"
    "same_view s v" "bs_workspace v = bs_workspace s" using assms(4) by (auto simp: quiet_events_def)
  have "jget (ev_payload e) ''elapsed_seconds'' = JFloat elapsed" by (simp add: assms(5) jget_def jget_or_def)
  from clock_stage_succeeds [OF v(1) assms(4) this assms(6,7,8)] obtain p v' where
    v': "clock_stage s e v = Inr v'" "brain_ok v'" "bs_logical_clock v' = clock"
      "advance_personality_clock (bs_personality s) clock = Inr p"
      "v' = v\<lparr>bs_logical_clock := clock, bs_personality := p, bs_runtime := bs_runtime v'\<rparr>" by blast
  have "reduce_values s e = Inr v'" using v(2) v'(1) assms(4) by (simp add: typed_stage_def)
  from reduce_succeeds [OF assms(1-3) this v'(2)] have "reduce_state s e = Inr v'" .
  moreover have "bs_world v' = bs_world v" "bs_memories v' = bs_memories v" "bs_action_records v' = bs_action_records v"
    "bs_energy_records v' = bs_energy_records v" "bs_personality v' = p" "bs_workspace v' = bs_workspace v"
    by (subst v'(5), simp)+
  ultimately show ?thesis using v(3,4) v'(2,3) advanced_layers [OF v'(4)] by (simp add: same_view_def)
qed

lemma reduce_broadcast:
  assumes "brain_ok s" "valid_event e" "event_admitted s e = Inr ()" "ev_event_type e = ''workspace.broadcast''"
    and "propose s = Inr cs" "ev_payload e = broadcast_payload (ws_cycle (bs_workspace s) + 1) cs"
  shows "\<exists>s'. reduce_state s e = Inr s' \<and> brain_ok s' \<and> ws_broadcast (bs_workspace s') = cs \<and>
    ws_cycle (bs_workspace s') = ws_cycle (bs_workspace s) + 1 \<and> bs_logical_clock s' = bs_logical_clock s"
proof -
  from proposal_reduces [OF brain_ok_valid [OF assms(1)] assms(5,4,6)] obtain w where
    w: "reduce_workspace s e = Inr w" "ws_broadcast w = cs" "ws_cycle w = ws_cycle (bs_workspace s) + 1" by blast
  from quiet_view [OF assms(1-3) _ w(1)] obtain v where v: "prepared s e v" "reduce_values s e = typed_stage s e v"
    "bs_workspace v = w" using assms(4) by (auto simp: quiet_events_def)
  have t: "typed_stage s e v = Inr v" using assms(4) by (simp add: typed_stage_def)
  from v(1) assms(4) have "brain_ok v" "bs_logical_clock v = bs_logical_clock s" by (auto simp: prepared_def brain_ok_def names_ok_def)
  with reduce_succeeds [OF assms(1-3)] v t w show ?thesis by auto
qed

lemma reduce_reflected:
  assumes "brain_ok s" "valid_event e" "event_admitted s e = Inr ()" "ev_event_type e = ''cognition.reflected''"
    and "cognition_result_from_payload (ev_payload e) = Inr r" "reflection_fits e"
  shows "\<exists>s'. reduce_state s e = Inr s' \<and> brain_ok s' \<and> bs_workspace s' = bs_workspace s \<and>
    bs_logical_clock s' = bs_logical_clock s"
proof -
  have "reduce_workspace s e = Inr (bs_workspace s)" using assms(4) by (simp add: reduce_workspace_def)
  from quiet_view [OF assms(1-3) _ this] obtain v where v: "prepared s e v" "reduce_values s e = typed_stage s e v"
    "bs_workspace v = bs_workspace s" using assms(4) by (auto simp: quiet_events_def)
  have t: "typed_stage s e v = cognition_stage s e v" using assms(4) by (simp add: typed_stage_def)
  from cognition_stage_parsed [OF v(1) assms(4,5)] assms(6) obtain v' where
    v': "cognition_stage s e v = Inr v'" "brain_ok v'" by (auto split: sum.splits)
  have "bs_workspace v' = bs_workspace v" "bs_logical_clock v' = bs_logical_clock v" "bs_logical_clock v = bs_logical_clock s"
    using v'(1) v(1) by (auto simp: prepared_def cognition_stage_def rbind_eq_Inr Let_def admit_def split: if_splits)
  with reduce_succeeds [OF assms(1-3) _ v'(2)] v t v' show ?thesis by auto
qed

section \<open>The payloads\<close>

lemma candidate_frozen: "valid_candidate c \<Longrightarrow> frozen (candidate_json c)"
  by (simp add: candidate_json_def valid_candidate_def unit_float_def sorted_keys_def list_all_iff)

lemma broadcast_frozen: "list_all valid_candidate cs \<Longrightarrow> frozen (JObj (broadcast_payload n cs))"
  by (simp add: broadcast_payload_def sorted_keys_def list_all_iff candidate_frozen)

lemma reflected_frozen: "list_all valid_candidate cs \<Longrightarrow> frozen (JObj (reflected_content n cs))"
  by (simp add: reflected_content_def sorted_keys_def list_all_iff candidate_frozen)

lemma alternative_frozen: "valid_alternative a \<Longrightarrow> frozen (alternative_json a)"
  by (simp add: alternative_json_def valid_alternative_def sorted_keys_def list_all_iff)

lemma result_frozen: "valid_result r \<Longrightarrow> frozen (JObj (result_payload r))"
  by (simp add: result_payload_def valid_result_def sorted_keys_def list_all_iff alternative_frozen unit_float_def)

lemma bid_id: "bid n sp x m ids = Inr c \<Longrightarrow> \<not> blank (wc_candidate_id c)"
  by (auto simp: bid_def rbind_eq_Inr candidate_id_def blank_Cons py_space_def)

lemma derived_ids: "derive_candidates s = Inr cs \<Longrightarrow> c \<in> set cs \<Longrightarrow> \<not> blank (wc_candidate_id c)"
  by (auto simp: derive_candidates_def Let_def rbind_eq_Inr prediction_error_def drives_def incomplete_action_def
    memory_trace_def self_world_conflict_def split: option.splits dest!: bid_id)

lemma proposal_shape:
  assumes "valid_state s" "propose s = Inr cs"
  shows "list_all valid_candidate cs \<and> list_all (\<lambda>c. \<not> blank (wc_candidate_id c)) cs \<and> length cs \<le> 64"
proof -
  from assms(2) obtain ds where ds: "derive_candidates s = Inr ds" "choose_broadcast ds (ws_capacity (bs_workspace s)) = Inr cs"
    by (auto simp: propose_def rbind_eq_Inr)
  have "ws_capacity (bs_workspace s) \<le> 64"
    using assms(1) by (simp add: valid_state_def valid_parts_def valid_workspace_def MAX_WORKSPACE_BROADCAST_def)
  then show ?thesis
    using derive_cases [OF assms(1)] derived_ids [OF ds(1)] ds(1) choose_broadcast_shape [OF ds(2)]
    by (auto simp: list_all_iff split: if_splits)
qed

lemma proposal_exists:
  assumes "valid_state s" "list_all sources_fit (bid_sources s)"
  shows "\<exists>cs. propose s = Inr cs"
proof -
  obtain ds where "derive_candidates s = Inr ds" using derive_cases [OF assms(1)] assms(2) by auto
  moreover have "1 \<le> ws_capacity (bs_workspace s)" "ws_capacity (bs_workspace s) \<le> MAX_WORKSPACE_BROADCAST"
    using assms(1) by (simp_all add: valid_state_def valid_parts_def valid_workspace_def)
  ultimately show ?thesis by (simp add: propose_def choose_broadcast_def)
qed

lemma reflection_of_broadcast:
  assumes "list_all valid_candidate cs" "list_all (\<lambda>c. \<not> blank (wc_candidate_id c)) cs" "length cs \<le> 64"
  shows "\<exists>r. reflect (reflected_content n cs) (map wc_candidate_id cs) = Inr r \<and> valid_result r \<and>
    length (cr_source_ids r) \<le> 256 \<and> list_all (\<lambda>i. \<not> blank i) (cr_source_ids r) \<and>
    str_len 1 64 (cr_algorithm_version r) \<and> str_len 1 64 (cr_config_version r)"
proof -
  from reflect_answers [OF reflected_frozen [OF assms(1)], of n "map wc_candidate_id cs"] obtain r where
    r: "reflect (reflected_content n cs) (map wc_candidate_id cs) = Inr r" "valid_result r"
      "set (cr_source_ids r) = wc_candidate_id ` set cs" "distinct (cr_source_ids r)" by auto
  have "length (cr_source_ids r) = card (wc_candidate_id ` set cs)" using distinct_card [OF r(4)] r(3) by simp
  also have "\<dots> \<le> length cs" using card_image_le [of "set cs" wc_candidate_id] card_length [of cs] by simp
  finally have "length (cr_source_ids r) \<le> 256" using assms(3) by simp
  moreover have "list_all (\<lambda>i. \<not> blank i) (cr_source_ids r)" using r(3) assms(2) by (auto simp: list_all_iff)
  moreover have "cr_algorithm_version r = COGNITION_ALGORITHM_VERSION \<and> cr_config_version r = COGNITION_CONFIG_VERSION"
    using r(1) by (auto simp: reflect_def Let_def rbind_eq_Inr mk_result_def split: if_splits)
  ultimately show ?thesis using r
    by (simp add: COGNITION_ALGORITHM_VERSION_def COGNITION_CONFIG_VERSION_def str_len_def)
qed

section \<open>The plan of a pulse\<close>

definition plan_event :: "string \<Rightarrow> jobj \<Rightarrow> stamp \<Rightarrow> string \<Rightarrow> brain_state \<Rightarrow> (event_envelope \<times> brain_state) res" where
  "plan_event t payload st a s =
     rbind (new_event t (bs_brain_id s) a payload (st_event_id st) (st_wall_time st) (st_monotonic_ns st) no_provenance) (\<lambda>e.
     rbind (reduce_state s (sequenced e (bs_last_sequence s + 1))) (\<lambda>s'. Inr (e, s')))"

definition pulse_plan :: "rat \<Rightarrow> stamp \<times> stamp \<times> stamp \<Rightarrow> string \<Rightarrow> brain_state \<Rightarrow> (event_envelope list \<times> brain_state) res" where
  "pulse_plan elapsed sts a s = (case sts of (st1, st2, st3) \<Rightarrow>
     rbind (plan_event ''clock.tick'' [(''elapsed_seconds'', JFloat elapsed)] st1 a s) (\<lambda>(e1, s1).
     rbind (propose s1) (\<lambda>candidates.
     rbind (plan_event ''workspace.broadcast''
       (broadcast_payload (ws_cycle (bs_workspace s1) + 1) candidates) st2 a s1) (\<lambda>(e2, s2).
     let w = bs_workspace s2 in
     rbind (reflect (reflected_content (ws_cycle w) (ws_broadcast w)) (map wc_candidate_id (ws_broadcast w))) (\<lambda>result.
     rbind (plan_event ''cognition.reflected'' (result_payload result) st3 a s2) (\<lambda>(e3, s3).
     Inr ([e1, e2, e3], s3)))))))"

definition stamp_ok :: "stamp \<Rightarrow> bool" where
  "stamp_ok st \<longleftrightarrow> is_uuid4 (st_event_id st) \<and> 0 \<le> st_monotonic_ns st"

lemma planned_event:
  assumes "brain_ok s" "stamp_ok st" "is_uuid4 a" "valid_event_type t" "frozen (JObj payload)"
  obtains e where "new_event t (bs_brain_id s) a payload (st_event_id st) (st_wall_time st) (st_monotonic_ns st)
      no_provenance = Inr e"
    "ev_event_type e = t" "ev_payload e = payload" "ev_event_id e = st_event_id st"
    "valid_event (sequenced e (bs_last_sequence s + 1))"
    "event_admitted s (sequenced e (bs_last_sequence s + 1)) = Inr ()"
proof -
  define e where "e = \<lparr>ev_schema_version = 1, ev_event_id = st_event_id st, ev_event_type = t,
    ev_brain_id = bs_brain_id s, ev_sequence = None, ev_wall_time = st_wall_time st,
    ev_monotonic_ns = st_monotonic_ns st, ev_actor_id = a, ev_adapter_id = None, ev_session_id = None,
    ev_turn_id = None, ev_action_id = None, ev_causation_id = None, ev_correlation_id = None, ev_payload = payload\<rparr>"
  have s: "is_uuid4 (bs_brain_id s)" "0 \<le> bs_last_sequence s"
    using brain_ok_valid [OF assms(1)] by (simp_all add: valid_state_def valid_parts_def state_shell_def)
  have v: "valid_event e"
    using assms s by (simp add: e_def valid_event_def EVENT_SCHEMA_VERSION_def stamp_ok_def valid_provenance_def)
  show thesis
  proof
    show "new_event t (bs_brain_id s) a payload (st_event_id st) (st_wall_time st) (st_monotonic_ns st) no_provenance = Inr e"
      using v assms(5) by (simp add: new_event_def no_provenance_def e_def EVENT_SCHEMA_VERSION_def freeze_items_frozen
        event_revalidated_def)
    show "valid_event (sequenced e (bs_last_sequence s + 1))" using v s(2) by (simp add: sequenced_def valid_event_sequenced)
    show "event_admitted s (sequenced e (bs_last_sequence s + 1)) = Inr ()"
      by (simp add: event_admitted_def sequenced_def e_def)
  qed (simp_all add: e_def)
qed

lemma planned_reduction:
  assumes "new_event t (bs_brain_id s) a payload (st_event_id st) (st_wall_time st) (st_monotonic_ns st) no_provenance = Inr e"
    and "reduce_state s (sequenced e (bs_last_sequence s + 1)) = Inr s'"
  shows "plan_event t payload st a s = Inr (e, s') \<and> bs_brain_id s' = bs_brain_id s \<and>
    bs_last_sequence s' = bs_last_sequence s + 1"
  using assms reduce_state_Inr [OF assms(2)] by (simp add: plan_event_def log_of_def sequenced_def)

lemma pulse_event_types:
  "valid_event_type ''clock.tick''" "valid_event_type ''workspace.broadcast''" "valid_event_type ''cognition.reflected''"
  by code_simp+

lemma same_sources: "same_view s t \<Longrightarrow> bs_workspace t = bs_workspace s \<Longrightarrow> bid_sources t = bid_sources s"
  by (simp add: bid_sources_def same_view_def conflicts_def top_energy_def incomplete_actions_def prior_ids_def unmatched_keys_def)

lemma plan_exists:
  assumes "brain_ok s" "list_all sources_fit (bid_sources s)" "is_uuid4 a" "list_all stamp_ok [st1, st2, st3]"
    and "is_f64 elapsed" "0 \<le> elapsed" "rnd64 (bs_logical_clock s + elapsed) = Some clock"
  shows "\<exists>es t. pulse_plan elapsed (st1, st2, st3) a s = Inr (es, t) \<and> brain_ok t \<and>
    map ev_event_type es = [''clock.tick'', ''workspace.broadcast'', ''cognition.reflected''] \<and>
    map ev_event_id es = map st_event_id [st1, st2, st3] \<and>
    bs_last_sequence t = bs_last_sequence s + 3 \<and> bs_logical_clock t = clock \<and>
    ws_cycle (bs_workspace t) = ws_cycle (bs_workspace s) + 1"
proof -
  have f1: "frozen (JObj [(''elapsed_seconds'', JFloat elapsed)])" using assms(5) by simp
  have st: "stamp_ok st1" "stamp_ok st2" "stamp_ok st3" using assms(4) by simp_all
  obtain e1 where e1: "new_event ''clock.tick'' (bs_brain_id s) a [(''elapsed_seconds'', JFloat elapsed)] (st_event_id st1)
      (st_wall_time st1) (st_monotonic_ns st1) no_provenance = Inr e1" "ev_event_type e1 = ''clock.tick''"
    "ev_payload e1 = [(''elapsed_seconds'', JFloat elapsed)]" "ev_event_id e1 = st_event_id st1"
    "valid_event (sequenced e1 (bs_last_sequence s + 1))" "event_admitted s (sequenced e1 (bs_last_sequence s + 1)) = Inr ()"
    by (rule planned_event [OF assms(1) st(1) assms(3) pulse_event_types(1) f1])
  from reduce_tick [OF assms(1) e1(5,6) _ _ assms(5,6,7)] e1(2,3) obtain s1 where
    s1: "reduce_state s (sequenced e1 (bs_last_sequence s + 1)) = Inr s1" "brain_ok s1" "same_view s s1"
      "bs_workspace s1 = bs_workspace s" "bs_logical_clock s1 = clock" by auto
  note p1 = planned_reduction [OF e1(1) s1(1)]
  have v1: "valid_state s1" by (rule brain_ok_valid [OF s1(2)])
  obtain cs where cs: "propose s1 = Inr cs" using proposal_exists [OF v1] same_sources [OF s1(3,4)] assms(2) by auto
  note shape = proposal_shape [OF v1 cs]
  let ?n = "ws_cycle (bs_workspace s1) + 1"
  have f2: "frozen (JObj (broadcast_payload ?n cs))" using shape broadcast_frozen by blast
  obtain e2 where e2: "new_event ''workspace.broadcast'' (bs_brain_id s1) a (broadcast_payload ?n cs) (st_event_id st2)
      (st_wall_time st2) (st_monotonic_ns st2) no_provenance = Inr e2" "ev_event_type e2 = ''workspace.broadcast''"
    "ev_payload e2 = broadcast_payload ?n cs" "ev_event_id e2 = st_event_id st2"
    "valid_event (sequenced e2 (bs_last_sequence s1 + 1))" "event_admitted s1 (sequenced e2 (bs_last_sequence s1 + 1)) = Inr ()"
    by (rule planned_event [OF s1(2) st(2) assms(3) pulse_event_types(2) f2])
  from reduce_broadcast [OF s1(2) e2(5,6) _ cs] e2(2,3) obtain s2 where
    s2: "reduce_state s1 (sequenced e2 (bs_last_sequence s1 + 1)) = Inr s2" "brain_ok s2"
      "ws_broadcast (bs_workspace s2) = cs" "ws_cycle (bs_workspace s2) = ?n" "bs_logical_clock s2 = clock"
    using s1(5) by auto
  note p2 = planned_reduction [OF e2(1) s2(1)]
  from reflection_of_broadcast [of cs ?n] shape obtain r where
    r: "reflect (reflected_content ?n cs) (map wc_candidate_id cs) = Inr r" "valid_result r"
      "length (cr_source_ids r) \<le> 256" "list_all (\<lambda>i. \<not> blank i) (cr_source_ids r)"
      "str_len 1 64 (cr_algorithm_version r)" "str_len 1 64 (cr_config_version r)" by auto
  obtain e3 where e3: "new_event ''cognition.reflected'' (bs_brain_id s2) a (result_payload r) (st_event_id st3)
      (st_wall_time st3) (st_monotonic_ns st3) no_provenance = Inr e3" "ev_event_type e3 = ''cognition.reflected''"
    "ev_payload e3 = result_payload r" "ev_event_id e3 = st_event_id st3"
    "valid_event (sequenced e3 (bs_last_sequence s2 + 1))" "event_admitted s2 (sequenced e3 (bs_last_sequence s2 + 1)) = Inr ()"
    by (rule planned_event [OF s2(2) st(3) assms(3) pulse_event_types(3) result_frozen [OF r(2)]])
  have parsed: "cognition_result_from_payload (ev_payload (sequenced e3 (bs_last_sequence s2 + 1))) = Inr r"
    using e3(3) result_roundtrip [OF r(2)] by simp
  with r have "reflection_fits (sequenced e3 (bs_last_sequence s2 + 1))" by (simp add: reflection_fits_def)
  from reduce_reflected [OF s2(2) e3(5,6) _ parsed this] e3(2) obtain s3 where
    s3: "reduce_state s2 (sequenced e3 (bs_last_sequence s2 + 1)) = Inr s3" "brain_ok s3"
      "bs_workspace s3 = bs_workspace s2" "bs_logical_clock s3 = clock" using s2(5) by auto
  note p3 = planned_reduction [OF e3(1) s3(1)]
  have "pulse_plan elapsed (st1, st2, st3) a s = Inr ([e1, e2, e3], s3)"
    using p1 p2 p3 cs r(1) s2(3,4) by (simp add: pulse_plan_def Let_def)
  then show ?thesis
    using e1(2,4) e2(2,4) e3(2,4) p1 p2 p3 s1(4) s2(4) s3
    by (intro exI [of _ "[e1, e2, e3]"] exI [of _ s3]) simp
qed

text \<open>
  C36. A cycle of a consistent brain cannot fail: when each list of sources of the specialists has at most
  256 non-blank entries and the logical clock stays finite, a pulse has a plan. Its three events are
  accepted by the reducer one after the other, and they advance the sequence by three, the clock by the
  elapsed time and the workspace by one cycle, and leave a consistent brain.
\<close>

theorem pulse_plan_succeeds:
  assumes "brain_ok s" "list_all sources_fit (bid_sources s)" "is_uuid4 a" "list_all stamp_ok [st1, st2, st3]"
    and "is_f64 elapsed" "0 \<le> elapsed" "rnd64 (bs_logical_clock s + elapsed) = Some clock"
  shows "\<exists>es t. pulse_plan elapsed (st1, st2, st3) a s = Inr (es, t) \<and> brain_ok t \<and>
    map ev_event_type es = [''clock.tick'', ''workspace.broadcast'', ''cognition.reflected''] \<and>
    bs_last_sequence t = bs_last_sequence s + 3 \<and> bs_logical_clock t = clock \<and>
    ws_cycle (bs_workspace t) = ws_cycle (bs_workspace s) + 1"
  using plan_exists [OF assms] by (elim exE conjE) (intro exI conjI)

lemma pulse_plan_succeeds_witness:
  "\<exists>es t. pulse_plan 1 (sample_stamp, sample_stamp, sample_stamp) sample_id (brain_genesis sample_id) = Inr (es, t) \<and>
     brain_ok t \<and> bs_last_sequence t = 3 \<and> bs_logical_clock t = 1"
proof -
  have "rnd64 (bs_logical_clock (brain_genesis sample_id) + 1) = Some 1" using f64_numerals(2) by (simp add: brain_genesis_def is_f64_def)
  moreover have "stamp_ok sample_stamp" by (simp add: stamp_ok_def sample_stamp_def)
  ultimately show ?thesis
    using pulse_plan_succeeds [OF brain_genesis_ok [OF sample_id_uuid] genesis_sources sample_id_uuid,
      of sample_stamp sample_stamp sample_stamp 1 1] f64_numerals(2) by (auto simp: brain_genesis_def)
qed

section \<open>The pulse of a lone engine\<close>

lemma emit_planned:
  assumes "synced P E L" "\<not> en_diverged E" "plan_event t payload st (en_actor_id E) (en_state E) = Inr (e, s)"
    and "t \<notin> {''brain.created'', ''identity.named'', ''semantic.gap'', ''trace.gap''}"
    and "ev_event_id e \<notin> row_event_id ` set (db_events L)" "body_fingerprint e \<notin> row_body_fingerprint ` set (db_events L)"
    and "reads_event P (sequenced e (bs_last_sequence (en_state E) + 1))"
  shows "\<exists>L'. emit P (\<lambda>L. L) t payload st E L =
      (Inr (sequenced e (bs_last_sequence (en_state E) + 1)), publish_state s E, L') \<and>
    synced P (publish_state s E) L' \<and> bs_last_sequence s = bs_last_sequence (en_state E) + 1 \<and>
    db_events L' = db_events L @ [event_row_of (sequenced e (bs_last_sequence (en_state E) + 1)) (bs_last_sequence (en_state E) + 1)]"
proof -
  let ?n = "bs_last_sequence (en_state E) + 1"
  have b: "bs_brain_id (en_state E) = en_brain_id E" using tracks_brain assms(1) by (auto simp: synced_def)
  with assms(3) have e: "engine_event t payload st E = Inr e" "reduce_state (en_state E) (sequenced e ?n) = Inr s"
    by (auto simp: plan_event_def rbind_eq_Inr engine_event_def)
  have v: "valid_event e" "ev_sequence e = None" "ev_brain_id e = en_brain_id E" "ev_event_type e = t"
    using e(1) by (auto simp: engine_event_def new_event_def)
  obtain L' where L': "engine_append P (\<lambda>L. L) e E L = (Inr (sequenced e ?n), publish_state s E, L')"
    "db_events L' = db_events L @ [event_row_of (sequenced e ?n) ?n]"
    using engine_append_fresh [OF assms(1,2) v(1-3) assms(5,6) _ e(2)] assms(4) v(4) by auto
  have "tracks P E L" "later_ledger P L L" using assms(1) by (simp_all add: synced_def tracks_def)
  from engine_append_tracks [OF this assms(7) L'(1)] have "synced P (publish_state s E) L'" by simp
  moreover have "bs_last_sequence s = ?n" using reduce_state_Inr [OF e(2)] by (simp add: log_of_def sequenced_def)
  ultimately show ?thesis using L' e(1) by (simp add: emit_def and_then_def lift_res_def)
qed

text \<open>The events as the ledger numbers them after \<open>n\<close>, and the case that SHA-256 collides on them.\<close>

definition numbered_events :: "int \<Rightarrow> event_envelope list \<Rightarrow> event_envelope list" where
  "numbered_events n es = map (\<lambda>(i, e). sequenced e (n + int i)) (enumerate 1 es)"

definition fingerprints_clash :: "event_envelope list \<Rightarrow> database \<Rightarrow> bool" where
  "fingerprints_clash es L \<longleftrightarrow> \<not> distinct (map body_fingerprint es) \<or>
     list_ex (\<lambda>e. body_fingerprint e \<in> row_body_fingerprint ` set (db_events L)) es"

definition fresh_ids :: "event_envelope list \<Rightarrow> database \<Rightarrow> bool" where
  "fresh_ids es L \<longleftrightarrow> distinct (map ev_event_id es) \<and> list_all (\<lambda>e. ev_event_id e \<notin> row_event_id ` set (db_events L)) es"

definition row_of :: "event_envelope \<Rightarrow> event_row" where
  "row_of e = event_row_of e (the (ev_sequence e))"

lemma pulse_unfold:
  assumes "0 \<le> elapsed"
    and "emit P race ''clock.tick'' [(''elapsed_seconds'', JFloat elapsed)] st1 E L = (Inr x1, E1, L1)"
    and "propose (en_state E1) = Inr cs"
    and "emit P race ''workspace.broadcast'' (broadcast_payload (ws_cycle (bs_workspace (en_state E1)) + 1) cs) st2 E1 L1 = (Inr x2, E2, L2)"
    and "bs_workspace (en_state E2) = w"
    and "reflect (reflected_content (ws_cycle w) (ws_broadcast w)) (map wc_candidate_id (ws_broadcast w)) = Inr r"
    and "emit P race ''cognition.reflected'' (result_payload r) st3 E2 L2 = (Inr x3, E3, L3)"
  shows "pulse P race elapsed (st1, st2, st3) E L = (Inr (en_state E3), E3, L3)"
  using assms by (simp add: pulse_def and_then_def lift_res_def Let_def)

lemma pulse_planned:
  assumes "synced P E L" "\<not> en_diverged E" "0 \<le> elapsed"
    and "pulse_plan elapsed sts (en_actor_id E) (en_state E) = Inr (es, t)"
    and "fresh_ids es L" "list_all (reads_event P) (numbered_events (bs_last_sequence (en_state E)) es)"
  shows "fingerprints_clash es L \<or> (\<exists>E' L'. pulse P (\<lambda>L. L) elapsed sts E L = (Inr t, E', L') \<and>
    en_state E' = t \<and> en_actor_id E' = en_actor_id E \<and> \<not> en_diverged E' \<and> synced P E' L' \<and>
    db_events L' = db_events L @ map row_of (numbered_events (bs_last_sequence (en_state E)) es))"
proof (cases "fingerprints_clash es L")
  case False
  let ?n = "bs_last_sequence (en_state E)"
  obtain st1 st2 st3 where sts: "sts = (st1, st2, st3)" by (cases sts)
  from assms(4) obtain e1 s1 cs e2 s2 r e3 where
    p1: "plan_event ''clock.tick'' [(''elapsed_seconds'', JFloat elapsed)] st1 (en_actor_id E) (en_state E) = Inr (e1, s1)"
    and cs: "propose s1 = Inr cs"
    and p2: "plan_event ''workspace.broadcast'' (broadcast_payload (ws_cycle (bs_workspace s1) + 1) cs) st2 (en_actor_id E) s1 = Inr (e2, s2)"
    and r: "reflect (reflected_content (ws_cycle (bs_workspace s2)) (ws_broadcast (bs_workspace s2)))
      (map wc_candidate_id (ws_broadcast (bs_workspace s2))) = Inr r"
    and p3: "plan_event ''cognition.reflected'' (result_payload r) st3 (en_actor_id E) s2 = Inr (e3, t)"
    and es: "es = [e1, e2, e3]"
    by (auto simp: pulse_plan_def sts rbind_eq_Inr Let_def)
  have ids: "ev_event_id e1 \<notin> row_event_id ` set (db_events L)" "ev_event_id e2 \<notin> row_event_id ` set (db_events L)"
      "ev_event_id e3 \<notin> row_event_id ` set (db_events L)" "distinct [ev_event_id e1, ev_event_id e2, ev_event_id e3]"
    using assms(5) by (simp_all add: es fresh_ids_def)
  have fps: "body_fingerprint e1 \<notin> row_body_fingerprint ` set (db_events L)" "body_fingerprint e2 \<notin> row_body_fingerprint ` set (db_events L)"
      "body_fingerprint e3 \<notin> row_body_fingerprint ` set (db_events L)" "distinct [body_fingerprint e1, body_fingerprint e2, body_fingerprint e3]"
    using False by (simp_all add: es fingerprints_clash_def)
  have reads: "reads_event P (sequenced e1 (?n + 1))" "reads_event P (sequenced e2 (?n + 2))" "reads_event P (sequenced e3 (?n + 3))"
    using assms(6) by (simp_all add: es numbered_events_def)
  let ?E1 = "publish_state s1 E" and ?E2 = "publish_state s2 (publish_state s1 E)"
  obtain L1 where L1: "emit P (\<lambda>L. L) ''clock.tick'' [(''elapsed_seconds'', JFloat elapsed)] st1 E L = (Inr (sequenced e1 (?n + 1)), ?E1, L1)"
    "synced P ?E1 L1" "bs_last_sequence s1 = ?n + 1" "db_events L1 = db_events L @ [event_row_of (sequenced e1 (?n + 1)) (?n + 1)]"
    using emit_planned [OF assms(1,2) p1 _ ids(1) fps(1) reads(1)] by auto
  have n2: "?n + 1 + 1 = ?n + 2" "?n + 2 + 1 = ?n + 3" by simp_all
  obtain L2 where L2: "emit P (\<lambda>L. L) ''workspace.broadcast'' (broadcast_payload (ws_cycle (bs_workspace s1) + 1) cs) st2 ?E1 L1 =
      (Inr (sequenced e2 (?n + 2)), ?E2, L2)"
    "synced P ?E2 L2" "bs_last_sequence s2 = ?n + 2" "db_events L2 = db_events L1 @ [event_row_of (sequenced e2 (?n + 2)) (?n + 2)]"
    using emit_planned [OF L1(2), of "''workspace.broadcast''" "broadcast_payload (ws_cycle (bs_workspace s1) + 1) cs" st2 e2 s2] p2 ids fps reads(2) assms(2) L1(3,4) by (auto simp: n2)
  obtain L3 where L3: "emit P (\<lambda>L. L) ''cognition.reflected'' (result_payload r) st3 ?E2 L2 =
      (Inr (sequenced e3 (?n + 3)), publish_state t ?E2, L3)"
    "synced P (publish_state t ?E2) L3" "db_events L3 = db_events L2 @ [event_row_of (sequenced e3 (?n + 3)) (?n + 3)]"
    using emit_planned [OF L2(2), of "''cognition.reflected''" "result_payload r" st3 e3 t] p3 ids fps reads(3) assms(2) L1(4) L2(3,4) by (auto simp: n2)
  have "pulse P (\<lambda>L. L) elapsed sts E L = (Inr t, publish_state t ?E2, L3)"
    using pulse_unfold [OF assms(3) L1(1) _ _ refl _ L3(1), of cs] L2(1) cs r by (simp add: sts)
  then show ?thesis using L1(4) L2(4) L3 assms(2)
    by (simp add: es numbered_events_def row_of_def sequenced_def)
qed simp

text \<open>
  C37. The pulse of an engine that is the only writer of its brain is its plan: unless two of the bodies
  have the same SHA-256, the pulse returns the planned state, publishes it, stays undiverged and synced, and
  has appended exactly the three planned events in their order.
\<close>

theorem pulse_refines_plan:
  assumes "synced P E L" "\<not> en_diverged E" "0 \<le> elapsed"
    and "pulse_plan elapsed sts (en_actor_id E) (en_state E) = Inr (es, t)"
    and "fresh_ids es L" "list_all (reads_event P) (numbered_events (bs_last_sequence (en_state E)) es)"
  shows "fingerprints_clash es L \<or> (\<exists>E' L'. pulse P (\<lambda>L. L) elapsed sts E L = (Inr t, E', L') \<and>
    en_state E' = t \<and> en_actor_id E' = en_actor_id E \<and> \<not> en_diverged E' \<and> synced P E' L' \<and>
    db_events L' = db_events L @ map row_of (numbered_events (bs_last_sequence (en_state E)) es))"
  by (rule pulse_planned [OF assms])

lemma plan_event_sequence: "plan_event t payload st a s = Inr (e, s') \<Longrightarrow> bs_last_sequence s' = bs_last_sequence s + 1"
  by (auto simp: plan_event_def rbind_eq_Inr log_of_def dest!: reduce_state_Inr)

lemma pulse_plan_length:
  "pulse_plan elapsed sts a s = Inr (es, t) \<Longrightarrow> length es = 3 \<and> bs_last_sequence t = bs_last_sequence s + 3"
  by (cases sts) (auto simp: pulse_plan_def rbind_eq_Inr Let_def dest!: plan_event_sequence)

lemma numbered_rows:
  "row_event_id ` set (map row_of (numbered_events n es)) = ev_event_id ` set es"
  "row_body_fingerprint ` set (map row_of (numbered_events n es)) = body_fingerprint ` set es"
proof -
  have "map (row_event_id \<circ> row_of) (numbered_events n es) = map ev_event_id es"
    "map (row_body_fingerprint \<circ> row_of) (numbered_events n es) = map body_fingerprint es"
    by (rule nth_equalityI; simp add: numbered_events_def nth_enumerate_eq row_of_def)+
  then show "row_event_id ` set (map row_of (numbered_events n es)) = ev_event_id ` set es"
    "row_body_fingerprint ` set (map row_of (numbered_events n es)) = body_fingerprint ` set es"
    by (metis image_set map_map)+
qed

text \<open>A reader of any list of events with distinct identifiers, for the witnesses.\<close>

definition reader :: "event_envelope list \<Rightarrow> platform" where
  "reader es = (echo first_event (brain_genesis sample_id))\<lparr>pf_parse_event := (\<lambda>t. find (\<lambda>e. event_text False e = t) es)\<rparr>"

lemma reader_reads: "distinct (map ev_event_id es) \<Longrightarrow> list_all (reads_event (reader es)) es"
proof -
  assume d: "distinct (map ev_event_id es)"
  have "find (\<lambda>e'. event_text False e' = event_text False e) es = Some e" if "e \<in> set es" for e
    using d that
  proof (induction es)
    case (Cons x es)
    show ?case
    proof (cases "x = e")
      case False
      with Cons.prems have "ev_event_id x \<noteq> ev_event_id e" "e \<in> set es" by auto
      with event_text_ids [of False x e] Cons show ?thesis by auto
    qed simp
  qed simp
  then show ?thesis by (simp add: list_all_iff reads_event_def reader_def)
qed

definition three_stamps :: "stamp \<times> stamp \<times> stamp" where
  "three_stamps = (sample_stamp, sample_stamp\<lparr>st_event_id := ''22222222-2222-4222-8222-222222222222''\<rparr>,
     sample_stamp\<lparr>st_event_id := ''33333333-3333-4333-8333-333333333333''\<rparr>)"

lemma three_stamps_ok:
  "list_all stamp_ok [fst three_stamps, fst (snd three_stamps), snd (snd three_stamps)]"
  "distinct (map st_event_id [fst three_stamps, fst (snd three_stamps), snd (snd three_stamps)])"
  by code_simp+

lemma pulse_refines_plan_witness:
  "\<exists>P es t. pulse_plan 1 three_stamps sample_id (brain_genesis sample_id) = Inr (es, t) \<and>
     (fingerprints_clash es empty_database \<or> (\<exists>E' L'. pulse P (\<lambda>L. L) 1 three_stamps young_engine empty_database = (Inr t, E', L') \<and>
       synced P E' L' \<and> length (db_events L') = 3))"
proof -
  have c: "rnd64 (bs_logical_clock (brain_genesis sample_id) + 1) = Some 1"
    using f64_numerals(2) by (simp add: brain_genesis_def is_f64_def)
  have st: "three_stamps = (fst three_stamps, fst (snd three_stamps), snd (snd three_stamps))" by simp
  from plan_exists [OF brain_genesis_ok [OF sample_id_uuid] genesis_sources sample_id_uuid three_stamps_ok(1) _ _ c]
    f64_numerals(2) obtain es t where p: "pulse_plan 1 three_stamps sample_id (brain_genesis sample_id) = Inr (es, t)"
    "map ev_event_id es = map st_event_id [fst three_stamps, fst (snd three_stamps), snd (snd three_stamps)]"
    using st by auto
  then have d: "distinct (map ev_event_id es)" and l: "length es = 3"
    using three_stamps_ok(2) map_eq_imp_length_eq [OF p(2)] by simp_all
  let ?es = "numbered_events 0 es"
  have n: "map ev_event_id ?es = map ev_event_id es"
    by (rule nth_equalityI) (simp_all add: numbered_events_def nth_enumerate_eq)
  then have "list_all (reads_event (reader ?es)) ?es" using reader_reads [of ?es] d by simp
  moreover have "fresh_ids es empty_database" using d by (simp add: fresh_ids_def empty_database_def list_all_iff)
  ultimately show ?thesis
    using pulse_refines_plan [OF young_synced, of 1 three_stamps es t "reader ?es"] p l
    by (intro exI [of _ "reader ?es"] exI [of _ es] exI [of _ t]) (auto simp: numbered_events_def empty_database_def)
qed

end
