(* ===== verification/Scheduler.thy ===== *)
theory Scheduler imports Pulse
begin

text \<open>
  \<^verbatim>\<open>runtime/scheduler.py\<close>: the continuous scheduler, one \<open>step\<close> per delayed wake. The clock samples, the
  event stamps and the text of exceptions come from the environment of a step. The theorems: the health the
  scheduler reports after a step is the truth about that step, and a lone engine whose brain can pulse makes
  progress on every wake and recovers from a degraded state with it.
\<close>

section \<open>State\<close>

text \<open>What \<open>monotonic()\<close> and a caller may hand over where a number is expected.\<close>

datatype py_number = PyInt int | PyFloat rat | PyNonFinite | PyOther

record scheduler =
  sc_interval_seconds :: rat
  sc_last_wake :: rat
  sc_volatile_degraded :: bool
  sc_failure_event_persisted :: bool
  sc_last_error_type :: "string option"
  sc_stop :: bool
  sc_running :: bool

record scheduler_health =
  sh_status :: string
  sh_failure_event_persisted :: bool
  sh_last_error_type :: "string option"
  sh_running :: bool

text \<open>\<open>float(value)\<close> of a finite number, as the checks use it; \<open>None\<close> is an infinity or a NaN.\<close>

definition number_float :: "py_number \<Rightarrow> rat option res" where
  "number_float v = (case v of
     PyInt n \<Rightarrow> rbind (of_option PyOverflowError (rnd64 (of_int n))) (\<lambda>x. Inr (Some x))
   | PyFloat x \<Rightarrow> Inr (Some x) | PyNonFinite \<Rightarrow> Inr None | PyOther \<Rightarrow> Inl (PyTypeError ''float''))"

definition validated_shutdown_timeout :: "py_number \<Rightarrow> rat res" where
  "validated_shutdown_timeout v =
     (let bad = Inl (PyValueError ''scheduler timeout must be finite and non-negative'') in
      if v = PyOther then bad
      else rbind (number_float v) (\<lambda>x. case x of None \<Rightarrow> bad | Some t \<Rightarrow> if t < 0 then bad else Inr t))"

definition new_scheduler :: "py_number \<Rightarrow> py_number \<Rightarrow> scheduler res" where
  "new_scheduler interval sample =
     (let bad = Inl (PyValueError ''interval_seconds must be finite and positive'') in
      if interval = PyOther then bad
      else rbind (number_float interval) (\<lambda>i. case i of None \<Rightarrow> bad | Some i \<Rightarrow>
        if i \<le> 0 then bad
        else rbind (number_float sample) (\<lambda>w. case w of
          None \<Rightarrow> Inl (PyValueError ''monotonic clock must return a finite value'')
        | Some w \<Rightarrow> Inr \<lparr>sc_interval_seconds = i, sc_last_wake = w, sc_volatile_degraded = False,
            sc_failure_event_persisted = True, sc_last_error_type = None, sc_stop = False, sc_running = False\<rparr>)))"

definition degraded :: "scheduler \<Rightarrow> engine \<Rightarrow> bool" where
  "degraded S E \<longleftrightarrow> sc_volatile_degraded S \<or> rt_health (bs_runtime (en_state E)) = Degraded"

definition health_of :: "scheduler \<Rightarrow> engine \<Rightarrow> scheduler_health" where
  "health_of S E = \<lparr>sh_status = (if degraded S E then ''degraded'' else ''healthy''),
     sh_failure_event_persisted = sc_failure_event_persisted S,
     sh_last_error_type = sc_last_error_type S, sh_running = sc_running S\<rparr>"

section \<open>A step\<close>

text \<open>\<open>type(error).__name__\<close>.\<close>

fun error_name :: "py_error \<Rightarrow> string" where
  "error_name (DomainInvariantError _) = ''DomainInvariantError''"
| "error_name (DomainCapacityError _) = ''DomainCapacityError''"
| "error_name (SchemaVersionError _) = ''SchemaVersionError''"
| "error_name (EventConflictError _) = ''EventConflictError''"
| "error_name (ExpectedSequenceError _) = ''ExpectedSequenceError''"
| "error_name (LedgerIntegrityError _) = ''LedgerIntegrityError''"
| "error_name (SnapshotConflictError _) = ''SnapshotConflictError''"
| "error_name (RuntimeOwnershipError _) = ''RuntimeOwnershipError''"
| "error_name (SchedulerShutdownError _) = ''SchedulerShutdownError''"
| "error_name (BridgeBindingError _) = ''BridgeBindingError''"
| "error_name (BridgeClosedError _) = ''BridgeClosedError''"
| "error_name (BridgeCleanClosedError _) = ''BridgeCleanClosedError''"
| "error_name (BridgeAbandonedError _) = ''BridgeAbandonedError''"
| "error_name (CaptureGapRequiredError _) = ''CaptureGapRequiredError''"
| "error_name (CaptureSequenceError _) = ''CaptureSequenceError''"
| "error_name (IdempotencyConflictError _) = ''IdempotencyConflictError''"
| "error_name (FrameSizeError _) = ''FrameSizeError''"
| "error_name (ResponseSizeError _) = ''ResponseSizeError''"
| "error_name (ValidationError _) = ''ValidationError''"
| "error_name (PyValueError _) = ''ValueError''"
| "error_name (PyTypeError _) = ''TypeError''"
| "error_name PyOverflowError = ''OverflowError''"
| "error_name (PyKeyError _) = ''KeyError''"
| "error_name (PyRuntimeError _) = ''RuntimeError''"
| "error_name (IdentityNameNormalizationError _) = ''IdentityNameNormalizationError''"
| "error_name (SqliteIntegrityError _) = ''IntegrityError''"

record wake_env =
  we_sample :: py_number
  we_pulse :: "stamp \<times> stamp \<times> stamp"
  we_recovered :: stamp
  we_failure :: stamp

text \<open>The wake time and the elapsed time, both of them finite and the second not negative.\<close>

definition wake :: "py_number \<Rightarrow> rat \<Rightarrow> (rat \<times> rat) res" where
  "wake sample last_wake =
     (let bad = Inl (PyRuntimeError ''monotonic clock moved backwards or became non-finite'') in
      if sample = PyOther then Inl (PyRuntimeError ''monotonic clock returned a non-numeric sample'')
      else rbind (number_float sample) (\<lambda>now. case now of None \<Rightarrow> bad | Some now \<Rightarrow>
        case rnd64 (now - last_wake) of None \<Rightarrow> bad | Some elapsed \<Rightarrow>
          if elapsed < 0 then bad else Inr (now, elapsed)))"

lemma wake_Inr:
  assumes "wake sample last_wake = Inr (now, elapsed)"
  shows "number_float sample = Inr (Some now)" "rnd64 (now - last_wake) = Some elapsed" "0 \<le> elapsed"
proof -
  from assms obtain x where x: "number_float sample = Inr x" by (auto simp: wake_def Let_def rbind_eq_Inr split: if_splits)
  with assms obtain y where "x = Some y" by (cases x) (auto simp: wake_def Let_def split: if_splits)
  with x assms show "number_float sample = Inr (Some now)" "rnd64 (now - last_wake) = Some elapsed" "0 \<le> elapsed"
    by (auto simp: wake_def Let_def split: if_splits option.splits)
qed

definition attempt ::
  "platform \<Rightarrow> (database \<Rightarrow> database) \<Rightarrow> wake_env \<Rightarrow> scheduler \<Rightarrow> engine \<Rightarrow> database \<Rightarrow> scheduler \<times> unit outcome" where
  "attempt P race env S E L = (case wake (we_sample env) (sc_last_wake S) of
     Inl err \<Rightarrow> (S, Inl err, E, L)
   | Inr (now, elapsed) \<Rightarrow>
       (S\<lparr>sc_last_wake := now\<rparr>,
        and_then (pulse P race elapsed (we_pulse env) E L) (\<lambda>_ E' L'.
        if degraded S E then and_then (record_recovered P race (we_recovered env) E' L') (\<lambda>_ E' L'. (Inr (), E', L'))
        else (Inr (), E', L'))))"

definition sched_step ::
  "platform \<Rightarrow> (database \<Rightarrow> database) \<Rightarrow> (py_error \<Rightarrow> string) \<Rightarrow> wake_env \<Rightarrow> scheduler \<Rightarrow> engine \<Rightarrow> database \<Rightarrow>
    bool \<times> scheduler \<times> engine \<times> database" where
  "sched_step P race str_of env S E L = (case attempt P race env S E L of
     (S', Inr _, E', L') \<Rightarrow> (True, S'\<lparr>sc_volatile_degraded := False, sc_failure_event_persisted := True\<rparr>, E', L')
   | (S', Inl err, E', L') \<Rightarrow>
       (case record_failure P race (error_name err) (str_of err) ''c0.pulse'' (we_failure env) E' L' of
          (Inl err2, E'', L'') \<Rightarrow> (False, S'\<lparr>sc_last_error_type := Some (error_name err2),
            sc_volatile_degraded := True, sc_failure_event_persisted := False\<rparr>, E'', L'')
        | (Inr _, E'', L'') \<Rightarrow> (False, S'\<lparr>sc_last_error_type := Some (error_name err),
            sc_volatile_degraded := False, sc_failure_event_persisted := True\<rparr>, E'', L'')))"

section \<open>The loop\<close>

text \<open>
  One round of \<open>run\<close>: whether \<open>stop()\<close> was called before the loop's test and before the end of the sleep, and
  the environment of the step. The loop is cut off after the given rounds; the first component says that it
  has ended.
\<close>

record sched_round =
  rd_stop_before :: bool
  rd_stop_sleeping :: bool
  rd_env :: wake_env

definition stop_if :: "bool \<Rightarrow> scheduler \<Rightarrow> scheduler" where
  "stop_if b S = (if b then S\<lparr>sc_stop := True\<rparr> else S)"

fun run_rounds ::
  "platform \<Rightarrow> (database \<Rightarrow> database) \<Rightarrow> (py_error \<Rightarrow> string) \<Rightarrow> nat option \<Rightarrow> sched_round list \<Rightarrow> scheduler \<Rightarrow> engine \<Rightarrow>
    database \<Rightarrow> bool \<times> scheduler \<times> engine \<times> database" where
  "run_rounds P race str_of left [] S E L = (sc_stop S \<or> left = Some 0, S, E, L)"
| "run_rounds P race str_of left (rd # rds) S E L =
     (let S = stop_if (rd_stop_before rd) S in
      if sc_stop S \<or> left = Some 0 then (True, S, E, L)
      else let S = stop_if (rd_stop_sleeping rd) S in
        if sc_stop S then (True, S, E, L)
        else case sched_step P race str_of (rd_env rd) S E L of (_, S, E, L) \<Rightarrow>
          run_rounds P race str_of (map_option (\<lambda>n. n - 1) left) rds S E L)"

definition run_scheduler ::
  "platform \<Rightarrow> (database \<Rightarrow> database) \<Rightarrow> (py_error \<Rightarrow> string) \<Rightarrow> int option \<Rightarrow> sched_round list \<Rightarrow> scheduler \<Rightarrow> engine \<Rightarrow>
    database \<Rightarrow> (bool \<times> scheduler \<times> engine \<times> database) res" where
  "run_scheduler P race str_of max_ticks rds S E L =
     (case max_ticks of Some n \<Rightarrow> if n < 0 then Inl (PyValueError ''max_ticks must be a non-negative integer or None'')
        else Inr (run_rounds P race str_of (Some (nat n)) rds S E L)
      | None \<Rightarrow> Inr (run_rounds P race str_of None rds S E L))"

text \<open>\<open>start\<close>, and \<open>join\<close> and \<open>stop\<close>: whether the thread exits before the deadline is the environment's choice.\<close>

definition start_scheduler :: "scheduler \<Rightarrow> scheduler" where
  "start_scheduler S = (if sc_running S then S else S\<lparr>sc_stop := False, sc_running := True\<rparr>)"

definition join_scheduler :: "py_number \<Rightarrow> bool \<Rightarrow> bool \<Rightarrow> scheduler \<Rightarrow> scheduler res" where
  "join_scheduler timeout on_own_thread exits S = rbind (validated_shutdown_timeout timeout) (\<lambda>_.
     if \<not> sc_running S then Inr S
     else if on_own_thread then Inl (SchedulerShutdownError ''cannot join the current scheduler thread'')
     else if exits then Inr (S\<lparr>sc_running := False\<rparr>)
     else Inl (SchedulerShutdownError ''scheduler writer did not exit before the shutdown deadline''))"

definition stop_scheduler :: "py_number \<Rightarrow> bool \<Rightarrow> bool \<Rightarrow> scheduler \<Rightarrow> scheduler res \<times> scheduler" where
  "stop_scheduler timeout on_own_thread exits S = (case validated_shutdown_timeout timeout of
     Inl err \<Rightarrow> (Inl err, S)
   | Inr _ \<Rightarrow> (join_scheduler timeout on_own_thread exits (S\<lparr>sc_stop := True\<rparr>), S\<lparr>sc_stop := True\<rparr>))"

section \<open>What an append of the engine can do\<close>

lemma append_new_ids:
  "append_new P e expected L = Inr (stored, L') \<Longrightarrow>
   row_event_id ` set (db_events L') = insert (ev_event_id e) (row_event_id ` set (db_events L))"
proof -
  assume a: "append_new P e expected L = Inr (stored, L')"
  define b where "b = ev_brain_id e"
  define M where "M = ensure_observability_row b (ensure_brain_row b L)"
  have M: "db_events M = db_events L"
    by (simp add: M_def ensure_observability_row_def ensure_brain_row_def split: option.splits)
  from a obtain N n where st: "stored = e\<lparr>ev_sequence := Some n\<rparr>"
    "insert_event (event_row_of stored n) (M\<lparr>db_brains := (db_brains M)(b \<mapsto> n + 1)\<rparr>) = Inr N" "log_frame N L'"
    unfolding append_new_def Let_def b_def [symmetric] M_def [symmetric]
    by (auto simp: rbind_eq_Inr split: if_splits dest!: register_event_frame)
  from insert_event_Inr [OF st(2)] st(1,3) M show ?thesis by (auto simp: log_frame_def)
qed

lemma append_expected_ids:
  assumes "append_expected P e n L = Inr (x, L')"
  shows "row_event_id ` set (db_events L') \<subseteq> insert (ev_event_id e) (row_event_id ` set (db_events L))"
proof -
  from assms have "append_event P e (Some n) L = Inr (x, L')"
    by (auto simp: append_expected_def validate_expected_sequence_def split: if_splits)
  then show ?thesis
    by (auto simp: append_event_def rbind_eq_Inr split: list.splits dest!: append_new_ids)
qed

text \<open>Other writers do not take the identifiers the scheduler is about to use.\<close>

definition foreign :: "string set \<Rightarrow> (database \<Rightarrow> database) \<Rightarrow> bool" where
  "foreign I race \<longleftrightarrow> (\<forall>L. row_event_id ` set (db_events (race L)) \<inter> I \<subseteq> row_event_id ` set (db_events L))"

definition unused :: "string set \<Rightarrow> database \<Rightarrow> bool" where
  "unused I L \<longleftrightarrow> row_event_id ` set (db_events L) \<inter> I = {}"

lemma engine_append_unused:
  assumes "engine_append P race e E L = (r, E', L')" "foreign I race" "unused I L" "ev_event_id e \<in> I"
  shows "(case r of Inl err \<Rightarrow> en_state E' = en_state E
      | Inr x \<Rightarrow> reduce_state (en_state E) (sequenced e (bs_last_sequence (en_state E) + 1)) = Inr (en_state E')) \<and>
    unused (I - {ev_event_id e}) L'"
proof -
  have rl: "unused I (race L)" using assms(2,3) by (auto simp: foreign_def unused_def)
  then have grown: "unused (I - {ev_event_id e}) M" if "append_expected P e n (race L) = Inr (x, M)" for n x M
    using append_expected_ids [OF that] unfolding unused_def by blast
  from assms(1) show ?thesis
  proof (cases rule: engine_append_cases)
    case (Refused err)
    with rl assms(3) show ?thesis by (auto simp: unused_def)
  next
    case (Known x)
    with assms(3,4) show ?thesis by (auto simp: unused_def)
  qed (use grown in auto)
qed

lemma emit_unused:
  assumes "emit P race t payload st E L = (r, E', L')" "foreign I race" "unused I L" "st_event_id st \<in> I"
  shows "(case r of Inl err \<Rightarrow> en_state E' = en_state E
      | Inr x \<Rightarrow> \<exists>e. valid_event e \<and> ev_event_type e = t \<and> ev_payload e = freeze_items payload \<and>
          reduce_state (en_state E) e = Inr (en_state E')) \<and>
    unused (I - {st_event_id st}) L'"
proof (cases "engine_event t payload st E")
  case (Inl err)
  with assms(1) have "r = Inl err" "E' = E" "L' = L" by (simp_all add: emit_def and_then_def lift_res_def)
  with assms(3) show ?thesis by (auto simp: unused_def)
next
  case (Inr e)
  then have e: "ev_event_type e = t" "ev_payload e = freeze_items payload" "ev_event_id e = st_event_id st"
    by (auto simp: engine_event_def new_event_def)
  from Inr assms(1) have a: "engine_append P race e E L = (r, E', L')" by (simp add: emit_def and_then_def lift_res_def)
  have u: "unused (I - {st_event_id st}) L'" and
    c: "case r of Inl err \<Rightarrow> en_state E' = en_state E
      | Inr x \<Rightarrow> reduce_state (en_state E) (sequenced e (bs_last_sequence (en_state E) + 1)) = Inr (en_state E')"
    using engine_append_unused [OF a assms(2,3)] assms(4) e(3) by (simp_all add: e(3))
  have "valid_event (sequenced e n)" if "reduce_state (en_state E) (sequenced e n) = Inr s" for n s
    using that by (auto simp: reduce_state_def rbind_eq_Inr)
  with u c e show ?thesis by (cases r) (auto intro!: exI [of _ "sequenced e (bs_last_sequence (en_state E) + 1)"])
qed

section \<open>The health of the reduced state\<close>

lemma reduced_quiet:
  assumes "brain_ok s" "reduce_state s e = Inr s'" "ev_event_type e \<in> set quiet_events"
  obtains v where "prepared s e v" "typed_stage s e v = Inr s'"
proof -
  from assms(2) have e: "valid_event e" "event_admitted s e = Inr ()" "reduce_values s e = Inr s'"
    by (auto simp: reduce_state_def rbind_eq_Inr state_from_data_def split: if_splits)
  show thesis
  proof (rule reduce_values_cases [OF assms(1) e(1,2)])
    fix v assume "prepared s e v" "reduce_values s e = typed_stage s e v"
    with e(3) that show thesis by simp
  qed (use e(3) in auto)
qed

lemma pulse_event_keeps_health:
  assumes "brain_ok s" "reduce_state s e = Inr s'" "valid_event e"
    and "ev_event_type e \<in> {''clock.tick'', ''workspace.broadcast'', ''cognition.reflected''}"
  shows "brain_ok s' \<and> rt_health (bs_runtime s') = rt_health (bs_runtime s)"
proof -
  have q: "ev_event_type e \<in> set quiet_events" using assms(4) by (auto simp: quiet_events_def)
  obtain v where v: "prepared s e v" "typed_stage s e v = Inr s'" by (rule reduced_quiet [OF assms(1,2) q])
  from v(1) have r: "bs_runtime v = bs_runtime s" by (simp add: prepared_def)
  have "rt_health (bs_runtime s') = rt_health (bs_runtime s)"
    using v(2) r assms(4)
    by (auto simp: typed_stage_def clock_stage_def cognition_stage_def rbind_eq_Inr Let_def admit_def split: if_splits option.splits)
  with reduce_state_ok [OF assms(1,3)] assms(2,4) show ?thesis by auto
qed

lemma failure_degrades:
  assumes "brain_ok s" "reduce_state s e = Inr s'" "valid_event e" "ev_event_type e = ''runtime.failure''"
  shows "brain_ok s' \<and> rt_health (bs_runtime s') = Degraded"
proof -
  obtain v where v: "typed_stage s e v = Inr s'"
    by (rule reduced_quiet [OF assms(1,2)]) (simp add: quiet_events_def assms(4))
  then have "rt_health (bs_runtime s') = Degraded"
    using assms(4) by (auto simp: typed_stage_def failure_stage_def rbind_eq_Inr Let_def split: if_splits)
  with reduce_state_ok [OF assms(1,3)] assms(2,4) show ?thesis by auto
qed

lemma recovery_heals:
  assumes "brain_ok s" "reduce_state s e = Inr s'" "valid_event e" "ev_event_type e = ''runtime.recovered''"
  shows "brain_ok s' \<and> rt_health (bs_runtime s') = Healthy"
proof -
  obtain v where v: "typed_stage s e v = Inr s'"
    by (rule reduced_quiet [OF assms(1,2)]) (simp add: quiet_events_def assms(4))
  then have "rt_health (bs_runtime s') = Healthy"
    using assms(4) by (auto simp: typed_stage_def recovered_stage_def Let_def split: if_splits)
  with reduce_state_ok [OF assms(1,3)] assms(2,4) show ?thesis by auto
qed

section \<open>A step tells the truth\<close>

text \<open>What holds of the engine and the ledger after an operation, whether it succeeded or failed.\<close>

definition leaves :: "(engine \<Rightarrow> database \<Rightarrow> bool) \<Rightarrow> 'a outcome \<Rightarrow> bool" where
  "leaves Q m = (case m of (_, E, L) \<Rightarrow> Q E L)"

lemma leaves_and_then:
  assumes "leaves Q m" "\<And>E L. Q E L \<Longrightarrow> Q' E L" "\<And>x E L. Q E L \<Longrightarrow> leaves Q' (f x E L)"
  shows "leaves Q' (and_then m f)"
proof -
  obtain r E L where m: "m = (r, E, L)" by (metis prod.exhaust)
  with assms show ?thesis by (cases r) (simp_all add: leaves_def and_then_def)
qed

lemma leaves_lift: "Q E L \<Longrightarrow> leaves Q (lift_res r E L)"
  by (simp add: leaves_def lift_res_def)

definition calm :: "health \<Rightarrow> string set \<Rightarrow> engine \<Rightarrow> database \<Rightarrow> bool" where
  "calm h I E L \<longleftrightarrow> brain_ok (en_state E) \<and> rt_health (bs_runtime (en_state E)) = h \<and> unused I L"

lemma foreign_mono: "foreign I race \<Longrightarrow> J \<subseteq> I \<Longrightarrow> foreign J race"
  unfolding foreign_def by blast

lemma unused_mono: "unused I L \<Longrightarrow> J \<subseteq> I \<Longrightarrow> unused J L"
  unfolding unused_def by blast

lemma calm_mono: "calm h I E L \<Longrightarrow> J \<subseteq> I \<Longrightarrow> calm h J E L"
  by (auto simp: calm_def intro: unused_mono)

lemma emit_calm:
  assumes "calm h I E L" "foreign I race" "st_event_id st \<in> I"
    and "t \<in> {''clock.tick'', ''workspace.broadcast'', ''cognition.reflected''}"
  shows "leaves (calm h (I - {st_event_id st})) (emit P race t payload st E L)"
proof -
  obtain r E' L' where e: "emit P race t payload st E L = (r, E', L')" by (metis prod.exhaust)
  from assms(1) have c: "brain_ok (en_state E)" "rt_health (bs_runtime (en_state E)) = h" "unused I L"
    by (simp_all add: calm_def)
  note u = emit_unused [OF e assms(2) c(3) assms(3)]
  have "brain_ok (en_state E') \<and> rt_health (bs_runtime (en_state E')) = h"
  proof (cases r)
    case (Inr x)
    with u obtain e where "valid_event e" "ev_event_type e = t" "reduce_state (en_state E) e = Inr (en_state E')" by auto
    with pulse_event_keeps_health [OF c(1)] assms(4) c(2) show ?thesis by simp
  qed (use u c in simp)
  with u e show ?thesis by (simp add: leaves_def calm_def)
qed

lemma pulse_calm:
  assumes "calm h I E L" "foreign I race" "distinct (map st_event_id [st1, st2, st3])"
    and "st_event_id ` {st1, st2, st3} \<subseteq> I"
  shows "leaves (calm h (I - st_event_id ` {st1, st2, st3})) (pulse P race elapsed (st1, st2, st3) E L)"
proof (cases "elapsed < 0")
  case True
  with calm_mono [OF assms(1)] show ?thesis by (simp add: pulse_def leaves_def)
next
  case False
  let ?I1 = "I - {st_event_id st1}" and ?I2 = "I - {st_event_id st1} - {st_event_id st2}"
  let ?J = "I - st_event_id ` {st1, st2, st3}"
  have f: "foreign ?I1 race" "foreign ?I2 race" by (rule foreign_mono [OF assms(2)], blast)+
  have ids: "st_event_id st2 \<in> ?I1" "st_event_id st3 \<in> ?I2" "st_event_id st1 \<in> I" using assms(3,4) by auto
  have j: "?J = ?I2 - {st_event_id st3}" by auto
  show ?thesis
    unfolding pulse_def if_not_P [OF False] prod.case Let_def
  proof (rule leaves_and_then [OF emit_calm [OF assms(1,2) ids(3)]])
    fix E1 L1 assume c1: "calm h ?I1 E1 L1"
    then show "calm h ?J E1 L1" by (rule calm_mono) auto
    show "leaves (calm h ?J) (and_then (lift_res (propose (en_state E1)) E1 L1) (\<lambda>candidates E L.
        and_then (emit P race ''workspace.broadcast''
          (broadcast_payload (ws_cycle (bs_workspace (en_state E)) + 1) candidates) st2 E L) (\<lambda>_ E L.
        and_then (lift_res (reflect (reflected_content (ws_cycle (bs_workspace (en_state E))) (ws_broadcast (bs_workspace (en_state E))))
          (map wc_candidate_id (ws_broadcast (bs_workspace (en_state E))))) E L) (\<lambda>result E L.
        and_then (emit P race ''cognition.reflected'' (result_payload result) st3 E L) (\<lambda>_ E L.
        (Inr (en_state E), E, L))))))"
    proof (rule leaves_and_then [OF leaves_lift [where Q = "calm h ?I1", OF c1]])
      fix candidates E L assume c: "calm h ?I1 E L"
      then show "calm h ?J E L" by (rule calm_mono) auto
      show "leaves (calm h ?J) (and_then (emit P race ''workspace.broadcast''
          (broadcast_payload (ws_cycle (bs_workspace (en_state E)) + 1) candidates) st2 E L) (\<lambda>_ E L.
        and_then (lift_res (reflect (reflected_content (ws_cycle (bs_workspace (en_state E))) (ws_broadcast (bs_workspace (en_state E))))
          (map wc_candidate_id (ws_broadcast (bs_workspace (en_state E))))) E L) (\<lambda>result E L.
        and_then (emit P race ''cognition.reflected'' (result_payload result) st3 E L) (\<lambda>_ E L.
        (Inr (en_state E), E, L)))))"
      proof (rule leaves_and_then [OF emit_calm [OF c f(1) ids(1)]])
        fix E2 L2 assume c2: "calm h ?I2 E2 L2"
        then show "calm h ?J E2 L2" by (rule calm_mono) auto
        show "leaves (calm h ?J) (and_then (lift_res (reflect (reflected_content (ws_cycle (bs_workspace (en_state E2)))
            (ws_broadcast (bs_workspace (en_state E2)))) (map wc_candidate_id (ws_broadcast (bs_workspace (en_state E2))))) E2 L2)
          (\<lambda>result E L. and_then (emit P race ''cognition.reflected'' (result_payload result) st3 E L) (\<lambda>_ E L.
            (Inr (en_state E), E, L))))"
        proof (rule leaves_and_then [OF leaves_lift [where Q = "calm h ?I2", OF c2]])
          fix result E L assume c: "calm h ?I2 E L"
          then show "calm h ?J E L" by (rule calm_mono) auto
          show "leaves (calm h ?J) (and_then (emit P race ''cognition.reflected'' (result_payload result) st3 E L)
              (\<lambda>_ E L. (Inr (en_state E), E, L)))"
            unfolding j by (rule leaves_and_then [OF emit_calm [OF c f(2) ids(2)]]) (simp_all add: leaves_def)
        qed
      qed simp
    qed
  qed simp
qed

definition wake_ids :: "wake_env \<Rightarrow> string list" where
  "wake_ids env = (case we_pulse env of (a, b, c) \<Rightarrow> map st_event_id [a, b, c, we_recovered env, we_failure env])"

lemma attempt_result:
  assumes "attempt P race env S E L = (S', r, E', L')" "brain_ok (en_state E)"
    and "distinct (wake_ids env)" "foreign (set (wake_ids env)) race" "unused (set (wake_ids env)) L"
  shows "brain_ok (en_state E') \<and> unused {st_event_id (we_failure env)} L' \<and>
    (r = Inr () \<longrightarrow> rt_health (bs_runtime (en_state E')) = Healthy)"
proof (cases "wake (we_sample env) (sc_last_wake S)")
  case (Inl err)
  with assms(1) have "r = Inl err" "E' = E" "L' = L" by (simp_all add: attempt_def)
  with assms(2) unused_mono [OF assms(5)] show ?thesis by (cases "we_pulse env") (simp add: wake_ids_def)
next
  case (Inr w)
  obtain now elapsed where w: "w = (now, elapsed)" by (cases w)
  obtain st1 st2 st3 where sts: "we_pulse env = (st1, st2, st3)" by (cases "we_pulse env")
  let ?h = "rt_health (bs_runtime (en_state E))" and ?I = "set (wake_ids env)"
  let ?R = "?I - st_event_id ` {st1, st2, st3}"
  have ids: "distinct (map st_event_id [st1, st2, st3])" "st_event_id ` {st1, st2, st3} \<subseteq> ?I"
    "st_event_id (we_recovered env) \<in> ?R" "st_event_id (we_failure env) \<in> ?R - {st_event_id (we_recovered env)}"
    using assms(3) by (auto simp: wake_ids_def sts)
  have f: "foreign ?R race" by (rule foreign_mono [OF assms(4)]) blast
  have c: "calm ?h ?I E L" using assms(2,5) by (simp add: calm_def)
  obtain r1 E1 L1 where p: "pulse P race elapsed (st1, st2, st3) E L = (r1, E1, L1)" by (metis prod.exhaust)
  from pulse_calm [OF c assms(4) ids(1,2), of P elapsed] p have
    c1: "brain_ok (en_state E1)" "rt_health (bs_runtime (en_state E1)) = ?h" "unused ?R L1" by (simp_all add: leaves_def calm_def)
  have u1: "unused {st_event_id (we_failure env)} L1" by (rule unused_mono [OF c1(3)]) (use ids(4) in simp)
  note a = assms(1) [unfolded attempt_def Inr w sts, simplified, unfolded p]
  show ?thesis
  proof (cases r1)
    case (Inl err)
    with a c1 u1 show ?thesis by (auto simp: and_then_def)
  next
    case r1: (Inr s)
    show ?thesis
    proof (cases "degraded S E")
      case False
      then have "?h = Healthy" by (cases ?h) (simp_all add: degraded_def)
      with a r1 False c1 u1 show ?thesis by (auto simp: and_then_def)
    next
      case True
      obtain r2 E2 L2 where e: "emit P race ''runtime.recovered'' [(''status'', JStr ''healthy'')] (we_recovered env) E1 L1 = (r2, E2, L2)"
        by (metis prod.exhaust)
      note u = emit_unused [OF e f c1(3) ids(3)]
      from u have "unused (?R - {st_event_id (we_recovered env)}) L2" by blast
      then have u2: "unused {st_event_id (we_failure env)} L2" by (rule unused_mono) (use ids(4) in simp)
      show ?thesis
      proof (cases r2)
        case (Inl err)
        with a r1 True e u c1 u2 show ?thesis by (auto simp: and_then_def record_recovered_def)
      next
        case (Inr x)
        with u obtain ev where "valid_event ev" "ev_event_type ev = ''runtime.recovered''" "reduce_state (en_state E1) ev = Inr (en_state E2)" by auto
        with recovery_heals [OF c1(1)] a r1 True e Inr u2 show ?thesis by (auto simp: and_then_def record_recovered_def)
      qed
    qed
  qed
qed

text \<open>
  C38. The scheduler's health is the truth about its last step: whatever other writers do to the ledger, and
  whether the clock, the pulse, the recovery or even the record of the failure fails, the step succeeds
  exactly if its attempt raised nothing, and the status is healthy if it succeeded and degraded if it did not.
  A failed step names the error its attempt raised if the failure event was recorded, and says that it was
  persisted; it names the error the recording raised if that failed too, and says that nothing was persisted.
  A successful step leaves the last error's name alone. The brain stays consistent.
\<close>

theorem health_tells_truth:
  assumes "sched_step P race str_of env S E L = (ok, S', E', L')" "brain_ok (en_state E)"
    and "distinct (wake_ids env)" "foreign (set (wake_ids env)) race" "unused (set (wake_ids env)) L"
  shows "sh_status (health_of S' E') = (if ok then ''healthy'' else ''degraded'') \<and>
    (case attempt P race env S E L of
       (_, Inr _, _, _) \<Rightarrow> ok \<and> sh_failure_event_persisted (health_of S' E') \<and> sh_last_error_type (health_of S' E') = sc_last_error_type S
     | (_, Inl err, E1, L1) \<Rightarrow> \<not> ok \<and>
         (case record_failure P race (error_name err) (str_of err) ''c0.pulse'' (we_failure env) E1 L1 of
            (Inr _, _, _) \<Rightarrow> sh_failure_event_persisted (health_of S' E') \<and> sh_last_error_type (health_of S' E') = Some (error_name err)
          | (Inl err2, _, _) \<Rightarrow> \<not> sh_failure_event_persisted (health_of S' E') \<and>
              sh_last_error_type (health_of S' E') = Some (error_name err2))) \<and>
    (sh_failure_event_persisted (health_of S' E') \<longleftrightarrow> \<not> sc_volatile_degraded S') \<and> brain_ok (en_state E')"
proof -
  obtain S1 r E1 L1 where a: "attempt P race env S E L = (S1, r, E1, L1)" by (metis prod.exhaust)
  note ar = attempt_result [OF a assms(2-5)]
  have keep: "sc_last_error_type S1 = sc_last_error_type S" using a by (auto simp: attempt_def split: sum.splits prod.splits)
  show ?thesis
  proof (cases r)
    case (Inr u)
    with assms(1) a ar keep show ?thesis by (auto simp: sched_step_def health_of_def degraded_def)
  next
    case (Inl err)
    let ?p = "sanitized_failure (error_name err) (str_of err) ''c0.pulse''"
    obtain r2 E2 L2 where e: "emit P race ''runtime.failure'' ?p (we_failure env) E1 L1 = (r2, E2, L2)" by (metis prod.exhaust)
    have f: "foreign {st_event_id (we_failure env)} race"
      by (rule foreign_mono [OF assms(4)]) (cases "we_pulse env", simp add: wake_ids_def)
    from ar have u: "unused {st_event_id (we_failure env)} L1" by blast
    note c = emit_unused [OF e f u]
    show ?thesis
    proof (cases r2)
      case (Inl err2)
      with assms(1) a e c ar \<open>r = Inl err\<close> show ?thesis
        by (auto simp: sched_step_def record_failure_def health_of_def degraded_def)
    next
      case (Inr x)
      with c obtain ev where "valid_event ev" "ev_event_type ev = ''runtime.failure''" "reduce_state (en_state E1) ev = Inr (en_state E2)" by auto
      with failure_degrades ar have "brain_ok (en_state E2)" "rt_health (bs_runtime (en_state E2)) = Degraded" by blast+
      with assms(1) a e Inr \<open>r = Inl err\<close> show ?thesis
        by (auto simp: sched_step_def record_failure_def health_of_def degraded_def)
    qed
  qed
qed

lemma tick_env_ids: "distinct (wake_ids \<lparr>we_sample = x, we_pulse = three_stamps,
    we_recovered = sample_stamp\<lparr>st_event_id := ''44444444-4444-4444-8444-444444444444''\<rparr>,
    we_failure = sample_stamp\<lparr>st_event_id := ''55555555-5555-4555-8555-555555555555''\<rparr>\<rparr>)"
  by (simp add: wake_ids_def three_stamps_def sample_stamp_def sample_id_def)

definition tick_env :: "py_number \<Rightarrow> wake_env" where
  "tick_env x = \<lparr>we_sample = x, we_pulse = three_stamps,
    we_recovered = sample_stamp\<lparr>st_event_id := ''44444444-4444-4444-8444-444444444444''\<rparr>,
    we_failure = sample_stamp\<lparr>st_event_id := ''55555555-5555-4555-8555-555555555555''\<rparr>\<rparr>"

definition young_scheduler :: scheduler where
  "young_scheduler = \<lparr>sc_interval_seconds = 1, sc_last_wake = 0, sc_volatile_degraded = False,
     sc_failure_event_persisted = True, sc_last_error_type = None, sc_stop = False, sc_running = False\<rparr>"

lemma health_tells_truth_witness:
  "\<exists>S' E' L'. sched_step boom_platform (\<lambda>L. L) (\<lambda>_. ''lost'') (tick_env PyOther) young_scheduler young_engine empty_database = (False, S', E', L') \<and>
     sh_status (health_of S' E') = ''degraded'' \<and> sh_last_error_type (health_of S' E') \<noteq> None \<and>
     brain_ok (en_state E')"
proof -
  obtain ok S' E' L' where s: "sched_step boom_platform (\<lambda>L. L) (\<lambda>_. ''lost'') (tick_env PyOther) young_scheduler young_engine empty_database = (ok, S', E', L')"
    by (metis prod.exhaust)
  have "\<not> ok" using s by (auto simp: sched_step_def attempt_def tick_env_def wake_def split: sum.splits prod.splits)
  moreover have "foreign I (\<lambda>L. L)" "unused I empty_database" for I by (auto simp: foreign_def unused_def empty_database_def)
  moreover obtain r2 E2 L2 where "record_failure boom_platform (\<lambda>L. L) ''RuntimeError'' ''lost'' ''c0.pulse''
      (we_failure (tick_env PyOther)) young_engine empty_database = (r2, E2, L2)" by (metis prod.exhaust)
  moreover have "attempt boom_platform (\<lambda>L. L) (tick_env PyOther) young_scheduler young_engine empty_database =
      (young_scheduler, Inl (PyRuntimeError ''monotonic clock returned a non-numeric sample''), young_engine, empty_database)"
    by (simp add: attempt_def tick_env_def wake_def)
  ultimately show ?thesis
    using health_tells_truth [OF s _ tick_env_ids [of PyOther, folded tick_env_def]] s brain_genesis_ok [OF sample_id_uuid]
    by (cases r2) auto
qed

section \<open>Progress\<close>

text \<open>The events of a successful step and the state they reduce to.\<close>

definition step_plan :: "wake_env \<Rightarrow> rat \<Rightarrow> scheduler \<Rightarrow> engine \<Rightarrow> (event_envelope list \<times> brain_state) res" where
  "step_plan env elapsed S E = rbind (pulse_plan elapsed (we_pulse env) (en_actor_id E) (en_state E)) (\<lambda>(es, t).
     if degraded S E then rbind (plan_event ''runtime.recovered'' [(''status'', JStr ''healthy'')] (we_recovered env) (en_actor_id E) t)
       (\<lambda>(e, t'). Inr (es @ [e], t'))
     else Inr (es, t))"

lemma recovery_planned:
  assumes "brain_ok s" "stamp_ok st" "is_uuid4 a"
  shows "\<exists>e s'. plan_event ''runtime.recovered'' [(''status'', JStr ''healthy'')] st a s = Inr (e, s') \<and> brain_ok s' \<and>
    rt_health (bs_runtime s') = Healthy \<and> ev_event_id e = st_event_id st"
proof -
  have t: "valid_event_type ''runtime.recovered''" by code_simp
  have f: "frozen (JObj [(''status'', JStr ''healthy'')])" by simp
  obtain e where e: "new_event ''runtime.recovered'' (bs_brain_id s) a [(''status'', JStr ''healthy'')] (st_event_id st)
      (st_wall_time st) (st_monotonic_ns st) no_provenance = Inr e" "ev_event_type e = ''runtime.recovered''"
    "ev_payload e = [(''status'', JStr ''healthy'')]" "ev_event_id e = st_event_id st"
    "valid_event (sequenced e (bs_last_sequence s + 1))" "event_admitted s (sequenced e (bs_last_sequence s + 1)) = Inr ()"
    by (rule planned_event [OF assms t f])
  from reduce_recovered [OF assms(1) e(5,6)] e(2) obtain s' where
    "reduce_state s (sequenced e (bs_last_sequence s + 1)) = Inr s'" "brain_ok s'" "rt_health (bs_runtime s') = Healthy" by auto
  with planned_reduction [OF e(1)] e(4) show ?thesis by auto
qed

lemma numbered_snoc_events: "numbered_events n (es @ [e]) = numbered_events n es @ [sequenced e (n + int (length es) + 1)]"
  by (simp add: numbered_events_def enumerate_append_eq algebra_simps)

lemma step_planned:
  assumes "synced P E L" "\<not> en_diverged E" "wake (we_sample env) (sc_last_wake S) = Inr (now, elapsed)"
    and "step_plan env elapsed S E = Inr (es, t)" "fresh_ids es L" "\<not> fingerprints_clash es L"
    and "list_all (reads_event P) (numbered_events (bs_last_sequence (en_state E)) es)"
  shows "\<exists>S' E' L'. sched_step P (\<lambda>L. L) str_of env S E L = (True, S', E', L') \<and> sc_last_wake S' = now \<and>
    \<not> sc_volatile_degraded S' \<and> en_state E' = t \<and> \<not> en_diverged E' \<and> synced P E' L' \<and>
    db_events L' = db_events L @ map row_of (numbered_events (bs_last_sequence (en_state E)) es)"
proof -
  let ?n = "bs_last_sequence (en_state E)" and ?a = "en_actor_id E"
  note e0 = wake_Inr(3) [OF assms(3)]
  from assms(4) obtain ps u where p: "pulse_plan elapsed (we_pulse env) ?a (en_state E) = Inr (ps, u)"
    and rest: "if degraded S E then \<exists>e t'. plan_event ''runtime.recovered'' [(''status'', JStr ''healthy'')] (we_recovered env) ?a u = Inr (e, t') \<and>
      es = ps @ [e] \<and> t = t' else es = ps \<and> t = u"
    by (auto simp: step_plan_def rbind_eq_Inr split: if_splits)
  obtain qs where qs: "es = ps @ qs" using rest by (auto split: if_splits)
  have fresh: "fresh_ids ps L" "\<not> fingerprints_clash ps L" "list_all (reads_event P) (numbered_events ?n ps)"
    using assms(5,6,7) by (auto simp: qs fresh_ids_def fingerprints_clash_def numbered_events_def enumerate_append_eq)
  from pulse_planned [OF assms(1,2) e0 p fresh(1,3)] fresh(2) obtain E1 L1 where
    1: "pulse P (\<lambda>L. L) elapsed (we_pulse env) E L = (Inr u, E1, L1)" "en_state E1 = u" "en_actor_id E1 = ?a" "\<not> en_diverged E1"
      "synced P E1 L1" "db_events L1 = db_events L @ map row_of (numbered_events ?n ps)" by blast
  show ?thesis
  proof (cases "degraded S E")
    case False
    with rest 1 assms(3) show ?thesis by (simp add: sched_step_def attempt_def and_then_def)
  next
    case True
    with rest obtain e where e: "plan_event ''runtime.recovered'' [(''status'', JStr ''healthy'')] (we_recovered env) ?a u = Inr (e, t)"
      "es = ps @ [e]" by auto
    have n: "bs_last_sequence u + 1 = ?n + int (length ps) + 1" using pulse_plan_length [OF p] by simp
    have rows: "row_event_id ` set (db_events L1) = row_event_id ` set (db_events L) \<union> ev_event_id ` set ps"
      "row_body_fingerprint ` set (db_events L1) = row_body_fingerprint ` set (db_events L) \<union> body_fingerprint ` set ps"
      using numbered_rows [of ?n ps] by (simp_all add: 1(6) image_Un)
    have "ev_event_id e \<notin> row_event_id ` set (db_events L1)" "body_fingerprint e \<notin> row_body_fingerprint ` set (db_events L1)"
      "reads_event P (sequenced e (bs_last_sequence u + 1))"
      using assms(5,6,7) by (auto simp: e(2) rows fresh_ids_def fingerprints_clash_def numbered_snoc_events n)
    from emit_planned [OF 1(5,4), of "''runtime.recovered''" "[(''status'', JStr ''healthy'')]" "we_recovered env" e t] this e(1)
    obtain L2 where L2: "record_recovered P (\<lambda>L. L) (we_recovered env) E1 L1 = (Inr (sequenced e (bs_last_sequence u + 1)), publish_state t E1, L2)"
      "synced P (publish_state t E1) L2" "db_events L2 = db_events L1 @ [event_row_of (sequenced e (bs_last_sequence u + 1)) (bs_last_sequence u + 1)]"
      by (auto simp: 1(2,3) record_recovered_def)
    with True 1 assms(3) show ?thesis
      by (simp add: sched_step_def attempt_def and_then_def e(2) numbered_snoc_events row_of_def n)
  qed
qed

text \<open>
  The scheduler makes progress: on every forward wake, the step of a lone engine whose brain is
  consistent and can bid succeeds, unless SHA-256 collides on the bodies of its events. It appends exactly the
  planned events, three for a cycle and a fourth that ends a degraded period, and leaves a healthy, consistent
  brain that is the replay of the ledger.
\<close>

theorem scheduler_progresses:
  assumes "synced P E L" "\<not> en_diverged E" "brain_ok (en_state E)" "list_all sources_fit (bid_sources (en_state E))"
    and "wake (we_sample env) (sc_last_wake S) = Inr (now, elapsed)" "rnd64 (bs_logical_clock (en_state E) + elapsed) = Some clock"
    and "we_pulse env = (st1, st2, st3)" "list_all stamp_ok [st1, st2, st3, we_recovered env]" "is_uuid4 (en_actor_id E)"
    and "distinct (map st_event_id [st1, st2, st3, we_recovered env])"
    and "unused (st_event_id ` {st1, st2, st3, we_recovered env}) L"
    and "\<forall>es t. step_plan env elapsed S E = Inr (es, t) \<longrightarrow> list_all (reads_event P) (numbered_events (bs_last_sequence (en_state E)) es)"
  shows "\<exists>es t. step_plan env elapsed S E = Inr (es, t) \<and> brain_ok t \<and> length es = (if degraded S E then 4 else 3) \<and>
    (fingerprints_clash es L \<or> (\<exists>S' E' L'. sched_step P (\<lambda>L. L) str_of env S E L = (True, S', E', L') \<and>
      sc_last_wake S' = now \<and> en_state E' = t \<and> \<not> en_diverged E' \<and> synced P E' L' \<and>
      db_events L' = db_events L @ map row_of (numbered_events (bs_last_sequence (en_state E)) es)))"
proof -
  have el: "is_f64 elapsed" "0 \<le> elapsed" using rnd64_f64 [OF wake_Inr(2) [OF assms(5)]] wake_Inr(3) [OF assms(5)] .
  have st: "list_all stamp_ok [st1, st2, st3]" "stamp_ok (we_recovered env)" using assms(8) by simp_all
  from plan_exists [OF assms(3,4,9) st(1) el assms(6)] obtain ps u where
    p: "pulse_plan elapsed (st1, st2, st3) (en_actor_id E) (en_state E) = Inr (ps, u)" "brain_ok u"
      "map ev_event_id ps = map st_event_id [st1, st2, st3]" by blast
  from recovery_planned [OF p(2) st(2) assms(9)] obtain e u' where
    r: "plan_event ''runtime.recovered'' [(''status'', JStr ''healthy'')] (we_recovered env) (en_actor_id E) u = Inr (e, u')"
      "brain_ok u'" "ev_event_id e = st_event_id (we_recovered env)" by blast
  define es where "es = (if degraded S E then ps @ [e] else ps)"
  define t where "t = (if degraded S E then u' else u)"
  have plan: "step_plan env elapsed S E = Inr (es, t)"
    using p(1) r(1) assms(7) by (simp add: step_plan_def es_def t_def)
  have t: "brain_ok t" "length es = (if degraded S E then 4 else 3)"
    using p(2) r(2) pulse_plan_length [OF p(1)] by (simp_all add: t_def es_def)
  have "set (map ev_event_id ps) = st_event_id ` {st1, st2, st3}" "distinct (map ev_event_id ps)"
    unfolding p(3) using assms(10) by simp_all
  then have "ev_event_id ` set es \<subseteq> st_event_id ` {st1, st2, st3, we_recovered env}" "distinct (map ev_event_id es)"
    using assms(10) r(3) by (auto simp: es_def)
  then have "fresh_ids es L" using assms(11) unfolding fresh_ids_def unused_def list_all_iff by blast
  with step_planned [OF assms(1,2,5) plan] assms(12) plan t show ?thesis by blast
qed

lemma scheduler_progresses_witness:
  "\<exists>P es t. step_plan (tick_env (PyInt 1)) 1 young_scheduler young_engine = Inr (es, t) \<and> brain_ok t \<and>
     (fingerprints_clash es empty_database \<or> (\<exists>S' E' L'. sched_step P (\<lambda>L. L) (\<lambda>_. ''lost'') (tick_env (PyInt 1))
       young_scheduler young_engine empty_database = (True, S', E', L') \<and> synced P E' L' \<and> length (db_events L') = 3))"
proof -
  let ?env = "tick_env (PyInt 1)" and ?L = empty_database
  have one: "rnd64 1 = Some 1" "rnd64 (bs_logical_clock (brain_genesis sample_id) + 1) = Some 1"
    using f64_numerals(2) by (simp_all add: brain_genesis_def is_f64_def)
  then have w: "wake (we_sample ?env) (sc_last_wake young_scheduler) = Inr (1, 1)"
    by (simp add: wake_def tick_env_def young_scheduler_def number_float_def)
  have st: "we_pulse ?env = (fst three_stamps, fst (snd three_stamps), snd (snd three_stamps))" by (simp add: tick_env_def)
  have ok: "list_all stamp_ok [fst three_stamps, fst (snd three_stamps), snd (snd three_stamps), we_recovered ?env]"
    "distinct (map st_event_id [fst three_stamps, fst (snd three_stamps), snd (snd three_stamps), we_recovered ?env])"
    by code_simp+
  have u: "unused I ?L" for I by (simp add: unused_def empty_database_def)
  have same: "step_plan ?env 1 young_scheduler young_engine = pulse_plan 1 three_stamps sample_id (brain_genesis sample_id)"
    by (auto simp: step_plan_def degraded_def young_scheduler_def tick_env_def brain_genesis_def initial_runtime_def rbind_def
      split: sum.splits)
  obtain es t where p: "step_plan ?env 1 young_scheduler young_engine = Inr (es, t)" "brain_ok t"
    "map ev_event_id es = map st_event_id [fst three_stamps, fst (snd three_stamps), snd (snd three_stamps)]"
    using plan_exists [OF brain_genesis_ok [OF sample_id_uuid] genesis_sources sample_id_uuid three_stamps_ok(1) _ _ one(2)]
      f64_numerals(2) by (auto simp: same)
  let ?es = "numbered_events 0 es"
  have "map ev_event_id ?es = map ev_event_id es"
    by (rule nth_equalityI) (simp_all add: numbered_events_def nth_enumerate_eq)
  then have r: "list_all (reads_event (reader ?es)) ?es" using reader_reads [of ?es] three_stamps_ok(2) p(3) by simp
  have "\<forall>es t. step_plan ?env 1 young_scheduler young_engine = Inr (es, t) \<longrightarrow>
      list_all (reads_event (reader ?es)) (numbered_events (bs_last_sequence (en_state young_engine)) es)"
    using p(1) r by simp
  with scheduler_progresses [OF young_synced _ _ _ w _ st ok(1) _ ok(2) u, of 1 "reader ?es" "\<lambda>_. ''lost''"]
    brain_genesis_ok [OF sample_id_uuid] genesis_sources one(2) p(1)
  show ?thesis
    by (intro exI [of _ "reader ?es"] exI [of _ es] exI [of _ t])
      (auto simp: numbered_events_def empty_database_def degraded_def young_scheduler_def brain_genesis_def initial_runtime_def)
qed

end
