(* ===== verification/Snapshots.thy ===== *)
theory Snapshots imports Scheduler
begin

text \<open>
  \<^verbatim>\<open>runtime/snapshot.py\<close>: the snapshot worker, which coalesces the publications of the engines into at most
  one pending checkpoint per brain. Registrations and notifications interleave with the worker thread, which
  takes a brain, processes it and finishes it in three steps. The theorems: no due checkpoint is ever lost,
  an idle worker without an error is less than one interval behind, and a round always takes its brain off
  the list of pending ones.
\<close>

section \<open>State\<close>

text \<open>
  \<open>sw_engines\<close> maps a brain to the identity of its registered engine object. A failure is an error of the
  modelled code or a transient input/output error, which the environment injects by its class name.
\<close>

record worker =
  sw_interval_events :: int
  sw_has_sink :: bool
  sw_engines :: "string \<Rightarrow> nat option"
  sw_observed_heads :: "string \<Rightarrow> int option"
  sw_last_snapshot :: "string \<Rightarrow> int option"
  sw_next_attempt :: "string \<Rightarrow> int option"
  sw_pending :: "string set"
  sw_processing :: "string option"
  sw_stopping :: bool
  sw_snapshot_count :: int
  sw_latest_sequence :: int
  sw_errors :: "(string \<times> string) list"
  sw_fatal :: "string list"

datatype worker_error = TransientIO string | Raised py_error

definition error_type :: "worker_error \<Rightarrow> string" where
  "error_type e = take 160 (case e of TransientIO n \<Rightarrow> n | Raised err \<Rightarrow> error_name err)"

definition is_transient_io_error :: "worker_error \<Rightarrow> bool" where
  "is_transient_io_error e = (case e of TransientIO _ \<Rightarrow> True | Raised _ \<Rightarrow> False)"

definition DEFAULT_SNAPSHOT_INTERVAL_EVENTS :: int where "DEFAULT_SNAPSHOT_INTERVAL_EVENTS = 1024"

definition validate_snapshot_interval :: "py_number \<Rightarrow> int res" where
  "validate_snapshot_interval v = (case v of
     PyInt n \<Rightarrow> if n < 1 then Inl (PyValueError ''snapshot interval_events must be a positive integer'') else Inr n
   | _ \<Rightarrow> Inl (PyValueError ''snapshot interval_events must be a positive integer''))"

definition validated_timeout :: "py_number \<Rightarrow> rat res" where
  "validated_timeout v =
     (let bad = Inl (PyValueError ''snapshot worker timeout must be finite and non-negative'') in
      if v = PyOther then bad
      else rbind (number_float v) (\<lambda>x. case x of None \<Rightarrow> bad | Some t \<Rightarrow> if t < 0 then bad else Inr t))"

definition new_worker :: "py_number \<Rightarrow> bool \<Rightarrow> worker res" where
  "new_worker interval sink = rbind (validate_snapshot_interval interval) (\<lambda>n. Inr \<lparr>
     sw_interval_events = n, sw_has_sink = sink, sw_engines = Map.empty, sw_observed_heads = Map.empty,
     sw_last_snapshot = Map.empty, sw_next_attempt = Map.empty, sw_pending = {}, sw_processing = None,
     sw_stopping = False, sw_snapshot_count = 0, sw_latest_sequence = 0, sw_errors = [], sw_fatal = []\<rparr>)"

section \<open>Operations\<close>

definition clear_error :: "string \<Rightarrow> worker \<Rightarrow> worker" where
  "clear_error b W = W\<lparr>sw_errors := filter (\<lambda>p. fst p \<noteq> b) (sw_errors W)\<rparr>"

definition record_error :: "string \<Rightarrow> worker_error \<Rightarrow> worker \<Rightarrow> worker" where
  "record_error b e W = W\<lparr>sw_errors := filter (\<lambda>p. fst p \<noteq> b) (sw_errors W) @ [(b, error_type e)]\<rparr>"

definition get_or :: "(string \<Rightarrow> int option) \<Rightarrow> string \<Rightarrow> int \<Rightarrow> int" where
  "get_or m b d = (case m b of None \<Rightarrow> d | Some n \<Rightarrow> n)"

definition due_at :: "worker \<Rightarrow> string \<Rightarrow> int \<Rightarrow> bool" where
  "due_at W b n = (case sw_next_attempt W b of None \<Rightarrow> True | Some k \<Rightarrow> k \<le> n)"

definition register :: "nat \<Rightarrow> engine \<Rightarrow> int option \<Rightarrow> worker \<Rightarrow> worker res" where
  "register ref E known W =
     (let b = en_brain_id E in
      if (case known of None \<Rightarrow> False | Some n \<Rightarrow> n < 0) then
        Inl (PyValueError ''known snapshot sequence must be non-negative'')
      else if sw_engines W b \<noteq> None \<and> sw_engines W b \<noteq> Some ref then
        Inl (PyRuntimeError ''a different engine is already registered'')
      else
        let W = W\<lparr>sw_engines := (sw_engines W)(b \<mapsto> ref), sw_observed_heads := (sw_observed_heads W)
              (b \<mapsto> max (get_or (sw_observed_heads W) b 0) (bs_last_sequence (en_state E)))\<rparr>;
            W = (case known of None \<Rightarrow> W | Some n \<Rightarrow> W\<lparr>sw_last_snapshot := (sw_last_snapshot W)(b \<mapsto> n),
              sw_next_attempt := (sw_next_attempt W)(b \<mapsto> n + sw_interval_events W)\<rparr>)
        in Inr (if due_at W b (get_or (sw_observed_heads W) b 0) then W\<lparr>sw_pending := insert b (sw_pending W)\<rparr> else W))"

definition notify :: "string \<Rightarrow> int \<Rightarrow> worker \<Rightarrow> worker" where
  "notify b n W =
     (let W = W\<lparr>sw_observed_heads := (sw_observed_heads W)(b \<mapsto> max (get_or (sw_observed_heads W) b 0) n)\<rparr> in
      if sw_engines W b = None then W
      else if due_at W b n then W\<lparr>sw_pending := insert b (sw_pending W)\<rparr> else W)"

definition faulty :: "string option \<Rightarrow> 'a res \<Rightarrow> worker_error + 'a" where
  "faulty f m = (case f of Some n \<Rightarrow> Inl (TransientIO n)
     | None \<Rightarrow> (case m of Inl err \<Rightarrow> Inl (Raised err) | Inr x \<Rightarrow> Inr x))"

definition set_next :: "string \<Rightarrow> int \<Rightarrow> worker \<Rightarrow> worker" where
  "set_next b n W = W\<lparr>sw_next_attempt := (sw_next_attempt W)(b \<mapsto> n)\<rparr>"

definition sink :: "worker_error \<Rightarrow> worker \<Rightarrow> worker" where
  "sink e W = (if \<not> is_transient_io_error e \<and> sw_has_sink W then W\<lparr>sw_fatal := sw_fatal W @ [error_type e]\<rparr> else W)"

text \<open>The first lines of \<open>_process\<close>: the latest snapshot, loaded the first time.\<close>

definition load_latest ::
  "platform \<Rightarrow> string option \<Rightarrow> string \<Rightarrow> worker \<Rightarrow> database \<Rightarrow> worker_error + int \<times> worker" where
  "load_latest P fault b W L = (case sw_last_snapshot W b of
     Some n \<Rightarrow> Inr (n, W)
   | None \<Rightarrow> (case faulty fault (load_snapshot P L b) of
       Inl e \<Rightarrow> Inl e
     | Inr s \<Rightarrow> let n = (case s of None \<Rightarrow> 0 | Some s \<Rightarrow> bs_last_sequence s)
         in Inr (n, clear_error b (W\<lparr>sw_last_snapshot := (sw_last_snapshot W)(b \<mapsto> n)\<rparr>))))"

definition process ::
  "platform \<Rightarrow> string option \<Rightarrow> string option \<Rightarrow> string \<Rightarrow> worker \<Rightarrow> engine \<Rightarrow> database \<Rightarrow>
    worker_error option \<times> worker \<times> engine \<times> database" where
  "process P load_fault save_fault b W E L = (case load_latest P load_fault b W L of
     Inl e \<Rightarrow> (Some e, W, E, L)
   | Inr (latest, W) \<Rightarrow>
       let observed = get_or (sw_observed_heads W) b (bs_last_sequence (en_state E)) in
       if observed - latest < sw_interval_events W then (None, set_next b (latest + sw_interval_events W) W, E, L)
       else
         let attempted = bs_last_sequence (en_state E);
             (r, E', L') = (if save_fault = None then engine_checkpoint P E L else (Inr (en_state E), E, L))
         in case faulty save_fault r of
              Inl e \<Rightarrow> (None, sink e (set_next b (attempted + sw_interval_events W) (record_error b e W)), E', L')
            | Inr saved \<Rightarrow>
                let n = bs_last_sequence saved; W = W\<lparr>sw_last_snapshot := (sw_last_snapshot W)(b \<mapsto> n)\<rparr>;
                    W = set_next b (n + sw_interval_events W) W
                in (None, clear_error b (W\<lparr>sw_snapshot_count := sw_snapshot_count W + 1,
                     sw_latest_sequence := max (sw_latest_sequence W) n\<rparr>), E', L'))"

definition record_unhandled_failure :: "string \<Rightarrow> worker_error \<Rightarrow> worker \<Rightarrow> worker" where
  "record_unhandled_failure b e W =
     sink e (set_next b (get_or (sw_observed_heads W) b 0 + sw_interval_events W) (record_error b e W))"

text \<open>The three steps of a round of \<open>_run\<close>: a pending brain is taken, processed and finished.\<close>

definition take_pending :: "string \<Rightarrow> worker \<Rightarrow> worker" where
  "take_pending b W = W\<lparr>sw_pending := sw_pending W - {b}, sw_processing := Some b\<rparr>"

definition attempt_process ::
  "platform \<Rightarrow> string option \<Rightarrow> string option \<Rightarrow> string \<Rightarrow> worker \<Rightarrow> engine \<Rightarrow> database \<Rightarrow> worker \<times> engine \<times> database" where
  "attempt_process P f g b W E L = (case process P f g b W E L of
     (None, W', E', L') \<Rightarrow> (W', E', L')
   | (Some e, W', E', L') \<Rightarrow> (record_unhandled_failure b e W', E', L'))"

definition finish :: "string \<Rightarrow> worker \<Rightarrow> worker" where
  "finish b W = (let W = W\<lparr>sw_processing := None\<rparr> in
     case sw_next_attempt W b of
       Some n \<Rightarrow> if n \<le> get_or (sw_observed_heads W) b 0 then W\<lparr>sw_pending := insert b (sw_pending W)\<rparr> else W
     | None \<Rightarrow> W)"

definition idle :: "worker \<Rightarrow> bool" where
  "idle W \<longleftrightarrow> sw_pending W = {} \<and> sw_processing W = None"

record worker_health =
  wh_status :: string
  wh_running :: bool
  wh_pending_brain_count :: nat
  wh_snapshot_count :: int
  wh_latest_sequence :: int
  wh_last_error_type :: "string option"

definition worker_health_of :: "bool \<Rightarrow> worker \<Rightarrow> worker_health" where
  "worker_health_of running W =
     (let last_error = (if sw_errors W = [] then None else Some (snd (last (sw_errors W)))) in
      \<lparr>wh_status = (if last_error \<noteq> None \<or> \<not> running then ''degraded'' else ''healthy''),
       wh_running = running,
       wh_pending_brain_count = card (sw_pending W) + (if sw_processing W = None then 0 else 1),
       wh_snapshot_count = sw_snapshot_count W, wh_latest_sequence = sw_latest_sequence W,
       wh_last_error_type = last_error\<rparr>)"

text \<open>\<open>stop\<close>: whether the thread exits before the deadline is the environment's choice.\<close>

definition stop_worker :: "py_number \<Rightarrow> bool \<Rightarrow> bool \<Rightarrow> bool \<Rightarrow> worker \<Rightarrow> unit res \<times> worker" where
  "stop_worker timeout running on_own_thread exits W = (case validated_timeout timeout of
     Inl err \<Rightarrow> (Inl err, W)
   | Inr _ \<Rightarrow>
       (if \<not> running then Inr ()
        else if on_own_thread then Inl (SchedulerShutdownError ''cannot join the current snapshot worker'')
        else if exits then Inr ()
        else Inl (SchedulerShutdownError ''snapshot worker did not exit before the shutdown deadline''),
        W\<lparr>sw_stopping := True\<rparr>))"

section \<open>The worker thread and its clients\<close>

text \<open>
  The interleavings: a registration, a publication of any sequence of any brain, or the next step of the
  thread, whose position within a round is the flag (the brain it took has been processed). The engine
  objects and the ledger of the moment are those the environment provides.
\<close>

inductive worker_step :: "platform \<Rightarrow> worker \<times> bool \<Rightarrow> worker \<times> bool \<Rightarrow> bool" for P where
  Register: "register ref E known W = Inr W' \<Longrightarrow> worker_step P (W, d) (W', d)"
| Notify: "worker_step P (W, d) (notify b n W, d)"
| Take: "b \<in> sw_pending W \<Longrightarrow> sw_processing W = None \<Longrightarrow> worker_step P (W, d) (take_pending b W, False)"
| Process: "sw_processing W = Some b \<Longrightarrow> attempt_process P f g b W E L = (W', E', L') \<Longrightarrow> worker_step P (W, False) (W', True)"
| Finish: "sw_processing W = Some b \<Longrightarrow> worker_step P (W, True) (finish b W, False)"

inductive worker_run :: "platform \<Rightarrow> worker \<times> bool \<Rightarrow> worker \<times> bool \<Rightarrow> bool" for P where
  Start: "worker_run P w w"
| Step: "worker_run P w w' \<Longrightarrow> worker_step P w' w'' \<Longrightarrow> worker_run P w w''"

inductive_cases worker_stepE: "worker_step P (W, d) (W', d')"

section \<open>The invariant\<close>

text \<open>
  Every registered brain that is due is pending or being processed; a next attempt is one interval after the
  last snapshot unless an error of the brain is recorded; a processed brain has a next attempt.
\<close>

definition covered :: "worker \<Rightarrow> bool" where
  "covered W \<longleftrightarrow> (\<forall>b. sw_engines W b \<noteq> None \<longrightarrow> sw_observed_heads W b \<noteq> None \<and>
     (due_at W b (get_or (sw_observed_heads W) b 0) \<longrightarrow> b \<in> sw_pending W \<or> sw_processing W = Some b))"

definition paced :: "worker \<Rightarrow> bool" where
  "paced W \<longleftrightarrow> (\<forall>b n. sw_next_attempt W b = Some n \<longrightarrow>
     b \<in> fst ` set (sw_errors W) \<or> (\<exists>m. sw_last_snapshot W b = Some m \<and> n = m + sw_interval_events W))"

definition processed :: "worker \<times> bool \<Rightarrow> bool" where
  "processed w \<longleftrightarrow> (\<forall>b. snd w \<and> sw_processing (fst w) = Some b \<longrightarrow> sw_next_attempt (fst w) b \<noteq> None)"

definition worker_ok :: "worker \<times> bool \<Rightarrow> bool" where
  "worker_ok w \<longleftrightarrow> covered (fst w) \<and> paced (fst w) \<and> processed w"

text \<open>Everything but the entries of one brain stays as it is.\<close>

definition only_at :: "string \<Rightarrow> worker \<Rightarrow> worker \<Rightarrow> bool" where
  "only_at b W W' \<longleftrightarrow> sw_engines W' = sw_engines W \<and> sw_observed_heads W' = sw_observed_heads W \<and>
     sw_interval_events W' = sw_interval_events W \<and> sw_pending W' = sw_pending W \<and> sw_processing W' = sw_processing W \<and>
     (\<forall>c. c \<noteq> b \<longrightarrow> sw_next_attempt W' c = sw_next_attempt W c \<and> sw_last_snapshot W' c = sw_last_snapshot W c \<and>
       (c \<in> fst ` set (sw_errors W') \<longleftrightarrow> c \<in> fst ` set (sw_errors W)))"

lemma only_at_refl [simp]: "only_at b W W"
  by (simp add: only_at_def)

lemma only_at_trans: "only_at b W V \<Longrightarrow> only_at b V U \<Longrightarrow> only_at b W U"
  by (simp add: only_at_def)

lemma only_at_steps [simp]:
  "only_at b W (set_next b n W)" "only_at b W (sink e W)"
  "only_at b W (W\<lparr>sw_last_snapshot := (sw_last_snapshot W)(b \<mapsto> n)\<rparr>)"
  "only_at b W (W\<lparr>sw_snapshot_count := k, sw_latest_sequence := l\<rparr>)"
  by (simp_all add: only_at_def set_next_def sink_def)

lemma only_at_errors [simp]: "only_at b W (clear_error b W)" "only_at b W (record_error b e W)"
  by (force simp: only_at_def clear_error_def record_error_def image_iff)+

lemma set_next_simps [simp]:
  "sw_next_attempt (set_next b n W) b = Some n" "sw_last_snapshot (set_next b n W) = sw_last_snapshot W"
  "sw_errors (set_next b n W) = sw_errors W" "sw_interval_events (set_next b n W) = sw_interval_events W"
  "sw_observed_heads (set_next b n W) = sw_observed_heads W"
  by (simp_all add: set_next_def)

lemma sink_simps [simp]:
  "sw_next_attempt (sink e W) = sw_next_attempt W" "sw_last_snapshot (sink e W) = sw_last_snapshot W"
  "sw_errors (sink e W) = sw_errors W" "sw_interval_events (sink e W) = sw_interval_events W"
  by (simp_all add: sink_def)

lemma error_simps [simp]:
  "sw_next_attempt (clear_error b W) = sw_next_attempt W" "sw_last_snapshot (clear_error b W) = sw_last_snapshot W"
  "sw_interval_events (clear_error b W) = sw_interval_events W" "sw_interval_events (record_error b e W) = sw_interval_events W"
  "sw_observed_heads (clear_error b W) = sw_observed_heads W" "sw_observed_heads (record_error b e W) = sw_observed_heads W"
  "b \<in> fst ` set (sw_errors (record_error b e W))"
  by (simp_all add: clear_error_def record_error_def)

text \<open>What processing a brain does to its own entries.\<close>

definition settled :: "worker \<Rightarrow> string \<Rightarrow> bool" where
  "settled W b \<longleftrightarrow> (\<exists>n. sw_next_attempt W b = Some n \<and>
     (b \<in> fst ` set (sw_errors W) \<or> (\<exists>m. sw_last_snapshot W b = Some m \<and> n = m + sw_interval_events W)))"

lemma load_latest_at:
  assumes "load_latest P f b W L = Inr (n, V)"
  shows "only_at b W V" "sw_last_snapshot V b = Some n"
proof -
  have "only_at b W V \<and> sw_last_snapshot V b = Some n"
  proof (cases "sw_last_snapshot W b")
    case None
    with assms obtain s where "faulty f (load_snapshot P L b) = Inr s"
      by (cases "faulty f (load_snapshot P L b)") (simp_all add: load_latest_def)
    with None assms have s: "V = clear_error b (W\<lparr>sw_last_snapshot := (sw_last_snapshot W)(b \<mapsto> n)\<rparr>)"
      by (auto simp: load_latest_def Let_def)
    have "only_at b W V" unfolding s by (rule only_at_trans [OF only_at_steps(3) only_at_errors(1)])
    then show ?thesis by (simp add: s)
  qed (use assms in \<open>simp add: load_latest_def\<close>)
  then show "only_at b W V" "sw_last_snapshot V b = Some n" by simp_all
qed

lemma failed_at:
  "only_at b W (sink e (set_next b n (record_error b e W)))" "settled (sink e (set_next b n (record_error b e W))) b"
proof -
  show "only_at b W (sink e (set_next b n (record_error b e W)))"
    by (rule only_at_trans [OF only_at_errors(2) only_at_trans [OF only_at_steps(1) only_at_steps(2)]])
qed (simp add: settled_def)

lemma attempt_process_at:
  assumes "attempt_process P f g b W E L = (W', E', L')"
  shows "only_at b W W' \<and> settled W' b"
proof (cases "load_latest P f b W L")
  case (Inl e)
  with assms have "W' = record_unhandled_failure b e W" by (simp add: attempt_process_def process_def)
  then show ?thesis by (simp add: record_unhandled_failure_def failed_at)
next
  case (Inr nV)
  obtain n V where nV: "nV = (n, V)" by (cases nV)
  note V = load_latest_at [OF Inr [unfolded nV]]
  let ?observed = "get_or (sw_observed_heads V) b (bs_last_sequence (en_state E))"
  show ?thesis
  proof (cases "?observed - n < sw_interval_events V")
    case True
    with assms Inr nV have "W' = set_next b (n + sw_interval_events V) V" by (simp add: attempt_process_def process_def Let_def)
    with V only_at_trans [OF V(1)] show ?thesis by (simp add: settled_def)
  next
    case False
    obtain r E1 L1 where r: "(if g = None then engine_checkpoint P E L else (Inr (en_state E), E, L)) = (r, E1, L1)"
      by (metis prod.exhaust)
    show ?thesis
    proof (cases "faulty g r")
      case (Inl e)
      with assms Inr nV False r have "W' = sink e (set_next b (bs_last_sequence (en_state E) + sw_interval_events V) (record_error b e V))"
        by (simp add: attempt_process_def process_def Let_def)
      with failed_at [where b = b and W = V and e = e] only_at_trans [OF V(1)] show ?thesis by simp
    next
      case saved: (Inr s)
      let ?n = "bs_last_sequence s"
      let ?W1 = "V\<lparr>sw_last_snapshot := (sw_last_snapshot V)(b \<mapsto> ?n)\<rparr>"
      let ?W2 = "set_next b (?n + sw_interval_events ?W1) ?W1"
      let ?W3 = "?W2\<lparr>sw_snapshot_count := sw_snapshot_count ?W2 + 1, sw_latest_sequence := max (sw_latest_sequence ?W2) ?n\<rparr>"
      from assms Inr nV False r saved have W': "W' = clear_error b ?W3"
        by (simp add: attempt_process_def process_def Let_def)
      have "only_at b V W'"
        unfolding W' by (rule only_at_trans [OF only_at_steps(3) only_at_trans [OF only_at_steps(1)
          only_at_trans [OF only_at_steps(4) only_at_errors(1)]]])
      moreover have "settled W' b" by (simp add: W' settled_def)
      ultimately show ?thesis using only_at_trans [OF V(1)] by blast
    qed
  qed
qed

lemma due_at_Some: "sw_next_attempt W b = Some n \<Longrightarrow> due_at W b k \<longleftrightarrow> n \<le> k"
  by (simp add: due_at_def)

lemma due_at_frame [simp]:
  "due_at (W\<lparr>sw_processing := p\<rparr>) b k = due_at W b k" "due_at (W\<lparr>sw_pending := q\<rparr>) b k = due_at W b k"
  by (simp_all add: due_at_def)

lemma register_ok:
  assumes "register ref E known W = Inr W'" "worker_ok (W, d)"
  shows "worker_ok (W', d)"
proof -
  let ?b = "en_brain_id E"
  define V where "V = W\<lparr>sw_engines := (sw_engines W)(?b \<mapsto> ref), sw_observed_heads := (sw_observed_heads W)
    (?b \<mapsto> max (get_or (sw_observed_heads W) ?b 0) (bs_last_sequence (en_state E)))\<rparr>"
  define U where "U = (case known of None \<Rightarrow> V | Some n \<Rightarrow> V\<lparr>sw_last_snapshot := (sw_last_snapshot V)(?b \<mapsto> n),
    sw_next_attempt := (sw_next_attempt V)(?b \<mapsto> n + sw_interval_events V)\<rparr>)"
  from assms(1) have W': "W' = (if due_at U ?b (get_or (sw_observed_heads U) ?b 0) then U\<lparr>sw_pending := insert ?b (sw_pending U)\<rparr> else U)"
    by (auto simp: register_def Let_def V_def U_def split: if_splits option.splits)
  have "covered W'" "paced W'" "processed (W', d)"
    using assms(2) unfolding worker_ok_def covered_def paced_def processed_def W'
    by (auto simp: U_def V_def due_at_def get_or_def split: option.splits)
  then show ?thesis by (simp add: worker_ok_def)
qed

lemma notify_ok:
  assumes "worker_ok (W, d)"
  shows "worker_ok (notify b n W, d)"
proof -
  have "covered (notify b n W)"
    using assms unfolding worker_ok_def covered_def
    by (auto simp: notify_def Let_def due_at_def get_or_def split: option.splits)
  moreover have "paced (notify b n W)" "processed (notify b n W, d)"
    using assms by (auto simp: worker_ok_def paced_def processed_def notify_def Let_def)
  ultimately show ?thesis by (simp add: worker_ok_def)
qed

lemma process_ok:
  assumes "worker_ok (W, False)" "sw_processing W = Some b" "only_at b W W'" "settled W' b"
  shows "worker_ok (W', True)"
proof -
  have "covered W'"
    using assms unfolding worker_ok_def covered_def only_at_def by (auto simp: due_at_def)
  moreover have "paced W'"
    unfolding paced_def
  proof (intro allI impI)
    fix c n assume c: "sw_next_attempt W' c = Some n"
    show "c \<in> fst ` set (sw_errors W') \<or> (\<exists>m. sw_last_snapshot W' c = Some m \<and> n = m + sw_interval_events W')"
    proof (cases "c = b")
      case True
      with assms(4) c show ?thesis by (auto simp: settled_def)
    next
      case False
      with assms(1,3) c show ?thesis by (auto simp: worker_ok_def paced_def only_at_def)
    qed
  qed
  moreover have "processed (W', True)" using assms(2,3,4) by (auto simp: processed_def only_at_def settled_def)
  ultimately show ?thesis by (simp add: worker_ok_def)
qed

lemma finish_ok:
  assumes "worker_ok (W, True)" "sw_processing W = Some b"
  shows "worker_ok (finish b W, False)"
proof -
  from assms obtain n where n: "sw_next_attempt W b = Some n" by (auto simp: worker_ok_def processed_def)
  have "covered (finish b W)"
    using assms n unfolding worker_ok_def covered_def by (auto simp: finish_def Let_def due_at_Some)
  moreover have "paced (finish b W)" "processed (finish b W, False)"
    using assms n by (auto simp: worker_ok_def paced_def processed_def finish_def Let_def)
  ultimately show ?thesis by (simp add: worker_ok_def)
qed

lemma worker_step_ok: "worker_step P w w' \<Longrightarrow> worker_ok w \<Longrightarrow> worker_ok w'"
proof (induction rule: worker_step.induct)
  case (Take b W d)
  then show ?case by (auto simp: worker_ok_def covered_def paced_def processed_def take_pending_def due_at_def)
next
  case (Process W b f g E L W' E' L')
  with attempt_process_at process_ok show ?case by blast
qed (auto intro: register_ok notify_ok finish_ok)

lemma worker_run_ok: "worker_run P w w' \<Longrightarrow> worker_ok w \<Longrightarrow> worker_ok w'"
  by (induction rule: worker_run.induct) (auto intro: worker_step_ok)

lemma new_worker_ok: "new_worker i k = Inr W \<Longrightarrow> worker_ok (W, False) \<and> 1 \<le> sw_interval_events W"
  by (auto simp: new_worker_def validate_snapshot_interval_def rbind_eq_Inr worker_ok_def covered_def paced_def processed_def
    split: py_number.splits if_splits)

section \<open>Properties\<close>

text \<open>
  C39. The snapshot worker loses no checkpoint: however registrations, publications and the steps of its
  thread interleave, and whatever errors its checkpoints meet, a registered brain that is due is pending or
  being processed; and when the worker is idle, a brain without a recorded error has published less than
  one interval of events since its last snapshot.
\<close>

theorem worker_keeps_up:
  assumes "new_worker interval has_sink = Inr W0" "worker_run P (W0, False) (W, d)" "sw_engines W b = Some ref"
  shows "(\<exists>n. sw_observed_heads W b = Some n \<and> (due_at W b n \<longrightarrow> b \<in> sw_pending W \<or> sw_processing W = Some b)) \<and>
    (idle W \<longrightarrow> b \<in> fst ` set (sw_errors W) \<or>
      (\<exists>n m. sw_observed_heads W b = Some n \<and> sw_last_snapshot W b = Some m \<and> n < m + sw_interval_events W))"
proof -
  have "worker_ok (W, d)" using worker_run_ok [OF assms(2)] new_worker_ok [OF assms(1)] by blast
  then have ok: "covered W" "paced W" by (simp_all add: worker_ok_def)
  from ok(1) assms(3) obtain n where n: "sw_observed_heads W b = Some n"
    "due_at W b n \<longrightarrow> b \<in> sw_pending W \<or> sw_processing W = Some b" by (force simp: covered_def get_or_def)
  have "b \<in> fst ` set (sw_errors W) \<or> (\<exists>m. sw_last_snapshot W b = Some m \<and> n < m + sw_interval_events W)" if "idle W"
  proof -
    from that n(2) have "\<not> due_at W b n" by (simp add: idle_def)
    then obtain k where "sw_next_attempt W b = Some k" "n < k" by (auto simp: due_at_def split: option.splits)
    with ok(2) show ?thesis by (auto simp: paced_def)
  qed
  with n show ?thesis by blast
qed

lemma checkpointed_sequence:
  "checkpoint_current_state P s L = Inr (s', L') \<Longrightarrow> bs_last_sequence s' = bs_last_sequence s"
proof -
  assume "checkpoint_current_state P s L = Inr (s', L')"
  then have "store_checkpoint P s L = Inr (s', L')"
    by (auto simp: checkpoint_current_state_def Let_def rbind_eq_Inr split: if_splits)
  then show ?thesis
    by (auto simp: store_checkpoint_def rbind_eq_Inr decode_snapshot_def split: option.splits if_splits sum.splits)
qed

lemma engine_checkpoint_sequence:
  "engine_checkpoint P E L = (Inr s, E', L') \<Longrightarrow> bs_last_sequence s = bs_last_sequence (en_state E)"
  by (auto simp: engine_checkpoint_def split: if_splits sum.splits py_error.splits dest: checkpointed_sequence)

lemma attempt_process_next:
  assumes "attempt_process P f g b W E L = (W', E', L')" "sw_observed_heads W b = Some n" "n \<le> bs_last_sequence (en_state E)"
    and "1 \<le> sw_interval_events W"
  shows "\<exists>k. sw_next_attempt W' b = Some k \<and> get_or (sw_observed_heads W') b 0 < k"
proof -
  have o': "sw_observed_heads W' b = Some n" using attempt_process_at [OF assms(1)] assms(2) by (simp add: only_at_def)
  show ?thesis
  proof (cases "load_latest P f b W L")
    case (Inl e)
    with assms(1) have "W' = record_unhandled_failure b e W" by (simp add: attempt_process_def process_def)
    with assms(2,4) o' show ?thesis by (simp add: record_unhandled_failure_def get_or_def)
  next
    case (Inr mV)
    obtain m V where mV: "mV = (m, V)" by (cases mV)
    note V = load_latest_at(1) [OF Inr [unfolded mV]]
    then have i: "sw_interval_events V = sw_interval_events W" "sw_observed_heads V b = Some n"
      using assms(2) by (simp_all add: only_at_def)
    obtain r E1 L1 where r: "(if g = None then engine_checkpoint P E L else (Inr (en_state E), E, L)) = (r, E1, L1)"
      by (metis prod.exhaust)
    have rs: "bs_last_sequence s = bs_last_sequence (en_state E)" if "faulty g r = Inr s" for s
      using that r engine_checkpoint_sequence by (auto simp: faulty_def split: option.splits sum.splits if_splits)
    have "\<exists>k. sw_next_attempt W' b = Some k \<and> n < k"
    proof (cases "n - m < sw_interval_events W")
      case True
      with assms(1) Inr mV i show ?thesis by (auto simp: attempt_process_def process_def Let_def get_or_def)
    next
      case False
      with assms(1,3,4) Inr mV i r rs show ?thesis
        by (cases "faulty g r") (auto simp: attempt_process_def process_def Let_def get_or_def)
    qed
    then show ?thesis using o' by (simp add: get_or_def)
  qed
qed

text \<open>
  C40. Every round makes progress: when no publication of the brain comes in between, taking a pending brain,
  processing it, with whatever result, and finishing it removes it from the pending brains and adds no
  other, so that a worker without new publications becomes idle after as many rounds as brains are pending.
\<close>

theorem worker_round_settles:
  assumes "b \<in> sw_pending W" "finite (sw_pending W)" "sw_observed_heads W b = Some n" "n \<le> bs_last_sequence (en_state E)"
    and "1 \<le> sw_interval_events W" "attempt_process P f g b (take_pending b W) E L = (W', E', L')"
  shows "sw_pending (finish b W') = sw_pending W - {b} \<and> sw_processing (finish b W') = None \<and>
    card (sw_pending (finish b W')) < card (sw_pending W)"
proof -
  have t: "sw_observed_heads (take_pending b W) b = Some n" "1 \<le> sw_interval_events (take_pending b W)"
    using assms(3,5) by (simp_all add: take_pending_def)
  from attempt_process_next [OF assms(6) t(1) assms(4) t(2)] obtain k where
    "sw_next_attempt W' b = Some k" "get_or (sw_observed_heads W') b 0 < k" by blast
  moreover have "sw_pending W' = sw_pending W - {b}"
    using attempt_process_at [OF assms(6)] by (simp add: only_at_def take_pending_def)
  moreover have "0 < card (sw_pending W)" using assms(1,2) card_gt_0_iff by blast
  ultimately show ?thesis using assms(1,2) by (simp add: finish_def Let_def)
qed

text \<open>A worker with one registered brain that has just been notified of its first event.\<close>

definition young_worker :: worker where
  "young_worker = \<lparr>sw_interval_events = 1, sw_has_sink = True, sw_engines = Map.empty, sw_observed_heads = Map.empty,
     sw_last_snapshot = Map.empty, sw_next_attempt = Map.empty, sw_pending = {}, sw_processing = None,
     sw_stopping = False, sw_snapshot_count = 0, sw_latest_sequence = 0, sw_errors = [], sw_fatal = []\<rparr>"

lemma young_worker_new: "new_worker (PyInt 1) True = Inr young_worker"
  by (simp add: new_worker_def validate_snapshot_interval_def young_worker_def)

lemma worker_keeps_up_witness:
  "\<exists>W. worker_run first_platform (young_worker, False) (W, False) \<and> sw_engines W sample_id = Some 0 \<and>
     sample_id \<in> sw_pending W"
proof -
  obtain W where W: "register 0 young_engine None young_worker = Inr W"
    by (simp add: register_def Let_def young_worker_def)
  then have e: "sw_engines W sample_id = Some 0" "due_at W sample_id n" "sw_processing W = None" for n
    by (auto simp: register_def Let_def young_worker_def due_at_def)
  have r: "worker_run first_platform (young_worker, False) (W, False)"
    by (rule worker_run.Step [OF worker_run.Start worker_step.Register [OF W]])
  from worker_keeps_up [OF young_worker_new r e(1)] e r show ?thesis by auto
qed

lemma worker_round_settles_witness:
  "\<exists>W W' E' L'. register 0 young_engine None young_worker = Inr W \<and>
     attempt_process first_platform None None sample_id (take_pending sample_id W) young_engine one_brain = (W', E', L') \<and>
     sw_pending (finish sample_id W') = {}"
proof -
  obtain W where W: "register 0 young_engine None young_worker = Inr W"
    by (simp add: register_def Let_def young_worker_def)
  then have e: "sw_pending W = {sample_id}" "sw_observed_heads W sample_id = Some 0" "sw_interval_events W = 1"
    by (auto simp: register_def Let_def young_worker_def due_at_def get_or_def)
  obtain W' E' L' where p: "attempt_process first_platform None None sample_id (take_pending sample_id W) young_engine one_brain = (W', E', L')"
    by (metis prod.exhaust)
  from worker_round_settles [OF _ _ e(2) _ _ p] W p e show ?thesis by auto
qed

end
