(* ===== verification/LeaseTable.thy ===== *)
theory LeaseTable imports Prelude
begin

text \<open>
  What the two lease tables of \<^verbatim>\<open>runtime/store.py\<close> share: rows that are pairwise kept apart by the unique
  indices, that are inserted pending, and of which an update settles one pending row. The locale takes the
  key, the owner, the pending test, the terminal event and the two relations of a table and proves that no
  row is lost or changed once it is settled.
\<close>

text \<open>A row is kept, or settled once: only a pending row changes, and it keeps its request.\<close>

definition settles :: "('r \<Rightarrow> bool) \<Rightarrow> ('r \<Rightarrow> 'r \<Rightarrow> bool) \<Rightarrow> 'r \<Rightarrow> 'r \<Rightarrow> bool" where
  "settles pending same q r \<longleftrightarrow> r = q \<or> pending q \<and> \<not> pending r \<and> same q r"

definition rows_move :: "('r \<Rightarrow> bool) \<Rightarrow> ('r \<Rightarrow> 'r \<Rightarrow> bool) \<Rightarrow> 'r list \<Rightarrow> 'r list \<Rightarrow> bool" where
  "rows_move pending same rows rows' \<longleftrightarrow> (\<exists>old new. rows' = old @ new \<and> list_all2 (settles pending same) rows old)"

definition update_rows :: "('r \<Rightarrow> 'k) \<Rightarrow> 'k \<Rightarrow> ('r \<Rightarrow> 'r) \<Rightarrow> 'r list \<Rightarrow> 'r list" where
  "update_rows key i f rows = map (\<lambda>q. if key q = i then f q else q) rows"

lemma update_rows_lookup: "(\<And>r. key (f r) = key r) \<Longrightarrow> lookup key (update_rows key i f rows) i = map_option f (lookup key rows i)"
  by (induction rows) (auto simp: update_rows_def)

locale lease_table =
  fixes key :: "'r \<Rightarrow> 'k" and owner :: "'r \<Rightarrow> 'b" and pending :: "'r \<Rightarrow> bool" and terminal :: "'r \<Rightarrow> 't option"
    and apart :: "'r \<Rightarrow> 'r \<Rightarrow> bool" and same :: "'r \<Rightarrow> 'r \<Rightarrow> bool"
  assumes apart_sym: "apart p q \<Longrightarrow> apart q p"
    and apart_key: "apart p q \<Longrightarrow> key p \<noteq> key q"
    and apart_pending: "apart p q \<Longrightarrow> pending p \<Longrightarrow> pending q \<Longrightarrow> owner p \<noteq> owner q"
    and apart_terminal: "apart p q \<Longrightarrow> terminal p \<noteq> None \<Longrightarrow> terminal q \<noteq> terminal p"
    and same_refl: "same p p"
    and same_trans: "same p q \<Longrightarrow> same q r \<Longrightarrow> same p r"
    and same_key: "same p q \<Longrightarrow> key q = key p"
begin

lemma move_append: "rows_move pending same rows (rows @ new)"
  unfolding rows_move_def by (rule exI [of _ rows]) (simp add: settles_def list_all2_same)

lemma move_refl: "rows_move pending same rows rows"
  using move_append [of rows "[]"] by simp

lemma move_trans:
  assumes "rows_move pending same xs ys" "rows_move pending same ys zs"
  shows "rows_move pending same xs zs"
proof -
  have trans: "settles pending same p q \<Longrightarrow> settles pending same q r \<Longrightarrow> settles pending same p r" for p q r
    by (auto simp: settles_def intro: same_trans)
  from assms obtain old new old' new' where m: "ys = old @ new" "list_all2 (settles pending same) xs old"
    "zs = old' @ new'" "list_all2 (settles pending same) (old @ new) old'" by (auto simp: rows_move_def)
  from m(4) obtain k l where k: "old' = k @ l" "list_all2 (settles pending same) old k" by (auto simp: list_all2_append1)
  have "list_all2 (settles pending same) xs k" using list_all2_trans [OF trans m(2) k(2)] .
  with m(3) k(1) show ?thesis unfolding rows_move_def by (intro exI [of _ k] exI [of _ "l @ new'"]) simp
qed

lemma moved_row:
  assumes "rows_move pending same rows rows'" "r \<in> set rows"
  obtains r' where "r' \<in> set rows'" "same r r'" "\<not> pending r \<Longrightarrow> r' = r"
proof -
  from assms(1) obtain old new where m: "rows' = old @ new" "list_all2 (settles pending same) rows old"
    by (auto simp: rows_move_def)
  from assms(2) obtain k where "k < length rows" "r = rows ! k" by (auto simp: in_set_conv_nth)
  with m have "old ! k \<in> set rows'" "settles pending same r (old ! k)" by (auto simp: list_all2_conv_all_nth)
  with that [of "old ! k"] same_refl show ?thesis by (auto simp: settles_def)
qed

lemma distinct_keys: "sorted_wrt apart rows \<Longrightarrow> distinct (map key rows)"
  by (induction rows) (auto dest: apart_key)

lemma lookup_row: "sorted_wrt apart rows \<Longrightarrow> r \<in> set rows \<Longrightarrow> lookup key rows (key r) = Some r"
  by (simp add: lookup_distinct distinct_keys)

lemma apart_rows: "sorted_wrt apart rows \<Longrightarrow> r \<in> set rows \<Longrightarrow> q \<in> set rows \<Longrightarrow> key r \<noteq> key q \<Longrightarrow> apart r q"
  by (induction rows) (auto intro: apart_sym)

lemma insert_apart: "sorted_wrt apart rows \<Longrightarrow> list_all (apart r) rows \<Longrightarrow> sorted_wrt apart (rows @ [r])"
  by (auto simp: sorted_wrt_append list_all_iff apart_sym)

lemma update_moves:
  assumes "sorted_wrt apart rows" "lookup key rows i = Some r" "pending r"
    and apart: "list_all (apart (f r)) (filter (\<lambda>q. key q \<noteq> i) rows)"
    and f: "\<And>r. same r (f r) \<and> \<not> pending (f r)"
  shows "sorted_wrt apart (update_rows key i f rows)" "rows_move pending same rows (update_rows key i f rows)"
    "set (update_rows key i f rows) \<subseteq> insert (f r) (set rows)"
proof -
  let ?g = "\<lambda>q. if key q = i then f q else q"
  have unique: "q = r" if "q \<in> set rows" "key q = i" for q
    using lookup_row [OF assms(1) that(1)] that(2) assms(2) by simp
  have other: "apart (f r) q" if "q \<in> set rows" "key q \<noteq> i" for q using that apart by (simp add: list_all_iff)
  have "apart (?g x) (?g y)" if s: "x \<in> set rows" "y \<in> set rows" "apart x y" for x y
  proof (cases "key x = i")
    case True
    with unique [OF s(1)] other [OF s(2)] apart_key [OF s(3)] show ?thesis by simp
  next
    case False
    with unique [OF s(2)] other [OF s(1)] s(3) show ?thesis by (auto intro: apart_sym)
  qed
  then show "sorted_wrt apart (update_rows key i f rows)"
    using assms(1) unfolding update_rows_def sorted_wrt_map by (blast intro: sorted_wrt_mono_rel)
  have "settles pending same q (?g q)" if "q \<in> set rows" for q
    using unique [OF that] f assms(3) by (auto simp: settles_def)
  then have "list_all2 (settles pending same) rows (update_rows key i f rows)"
    by (simp add: update_rows_def list_all2_map2 list_all2_same)
  then show "rows_move pending same rows (update_rows key i f rows)"
    unfolding rows_move_def by (intro exI [of _ "update_rows key i f rows"] exI [of _ "[]"]) simp
  show "set (update_rows key i f rows) \<subseteq> insert (f r) (set rows)" using unique by (auto simp: update_rows_def)
qed

lemma one_pending: "sorted_wrt apart rows \<Longrightarrow> length (filter (\<lambda>r. owner r = b \<and> pending r) rows) \<le> 1"
proof (induction rows)
  case (Cons a rows)
  have "filter (\<lambda>r. owner r = b \<and> pending r) rows = []" if "owner a = b" "pending a"
    using Cons.prems that apart_pending [of a] by (fastforce simp: filter_empty_conv)
  with Cons show ?case by auto
qed simp

lemma terminal_unique:
  assumes "sorted_wrt apart rows" "r \<in> set rows" "q \<in> set rows" "terminal r \<noteq> None" "terminal q = terminal r"
  shows "q = r"
proof -
  have "key q = key r" using apart_rows [OF assms(1-3)] apart_terminal [of r q] assms(4,5) by metis
  with lookup_row [OF assms(1,2)] lookup_row [OF assms(1,3)] show ?thesis by simp
qed

end

end
