(* ===== verification/Leases.thy ===== *)
theory Leases imports Pulse LeaseTable
begin

text \<open>
  Identity naming: the choices and leases of \<^verbatim>\<open>protocol/identity.py\<close>, the leases of \<^verbatim>\<open>runtime/store.py\<close> from
  claim to completion, failure or supersession, and the engine operations around them. The rows keep
  instants as microseconds; their text round trip and the digest of a choice are those of the code. The
  theorems: a brain has at most one pending lease and a terminal lease never changes; a completion
  names the brain through a chain of three events and is idempotent; an engine stays the replay of the
  ledger under all of them.
\<close>

section \<open>Choices\<close>

definition IDENTITY_NAME_MAX_CODEPOINTS :: nat where "IDENTITY_NAME_MAX_CODEPOINTS = 160"
definition IDENTITY_NAME_MAX_UTF8_BYTES :: nat where "IDENTITY_NAME_MAX_UTF8_BYTES = 512"
definition IDENTITY_REASON_MAX_CODEPOINTS :: nat where "IDENTITY_REASON_MAX_CODEPOINTS = 512"
definition IDENTITY_REASON_MAX_UTF8_BYTES :: nat where "IDENTITY_REASON_MAX_UTF8_BYTES = 2048"
definition IDENTITY_NAMING_LEASE_SECONDS :: int where "IDENTITY_NAMING_LEASE_SECONDS = 120"

text \<open>The encoded length: characters of the model are below 256, so two bytes are the most one takes.\<close>

definition utf8_length :: "string \<Rightarrow> nat" where
  "utf8_length s = sum_list (map (\<lambda>c. if (of_char c :: int) < 128 then 1 else 2) s)"

definition is_noncharacter :: "char \<Rightarrow> bool" where
  "is_noncharacter c = (let n = (of_char c :: int) in 0xFDD0 \<le> n \<and> n \<le> 0xFDEF \<or> n mod 0x10000 \<in> {0xFFFE, 0xFFFF})"

definition validate_choice_text :: "platform \<Rightarrow> string \<Rightarrow> string \<Rightarrow> nat \<Rightarrow> bool \<Rightarrow> string res" where
  "validate_choice_text P v field max_utf8_bytes require_nfkc =
     (if py_strip v = [] \<or> v \<noteq> py_strip v then Inl (PyValueError (''identity '' @ field @ '' must be exact and non-blank''))
      else if require_nfkc \<and> pf_nfkc P v \<noteq> v then Inl (PyValueError ''identity name must already be in NFKC form'')
      else if list_ex (\<lambda>c. pf_category P c \<in> {''Cc'', ''Cs''} \<or> is_noncharacter c) v then
        Inl (PyValueError (''identity '' @ field @ '' contains a forbidden codepoint''))
      else if utf8_length v > max_utf8_bytes then Inl (PyValueError (''identity '' @ field @ '' exceeds its UTF-8 byte bound''))
      else Inr v)"

definition valid_choice :: "platform \<Rightarrow> identity_choice \<Rightarrow> bool" where
  "valid_choice P c \<longleftrightarrow> ic_schema_version c = 1 \<and>
     str_len 1 IDENTITY_NAME_MAX_CODEPOINTS (ic_name c) \<and> str_len 1 IDENTITY_REASON_MAX_CODEPOINTS (ic_reason c) \<and>
     (case identity_name_normalization_key P (ic_name c) of Inl _ \<Rightarrow> False | Inr _ \<Rightarrow> True) \<and>
     validate_choice_text P (ic_name c) ''name'' IDENTITY_NAME_MAX_UTF8_BYTES True = Inr (ic_name c) \<and>
     validate_choice_text P (ic_reason c) ''reason'' IDENTITY_REASON_MAX_UTF8_BYTES False = Inr (ic_reason c)"

definition choice_revalidated :: "platform \<Rightarrow> identity_choice \<Rightarrow> identity_choice res" where
  "choice_revalidated P c = (if valid_choice P c then Inr c else Inl (ValidationError ''IdentityChoiceV1''))"

definition choice_text :: "identity_choice \<Rightarrow> string" where
  "choice_text c = canonical_json (JObj [(''name'', JStr (ic_name c)), (''reason'', JStr (ic_reason c)),
     (''schema_version'', JInt (ic_schema_version c))])"

definition choice_fingerprint :: "identity_choice \<Rightarrow> string" where
  "choice_fingerprint c = sha256_hex (choice_text c)"

section \<open>The status of a lease\<close>

record identity_lease =
  nl_lease_id :: string
  nl_brain_id :: string
  nl_state_sequence :: int
  nl_expires_at :: int

definition mk_identity_lease :: "identity_lease \<Rightarrow> identity_lease res" where
  "mk_identity_lease l = (if is_uuid4 (nl_lease_id l) \<and> is_uuid4 (nl_brain_id l) \<and> 1 \<le> nl_state_sequence l
     then Inr l else Inl (ValidationError ''IdentityNamingLeaseV1''))"

record identity_status =
  ns_lease_id :: string
  ns_brain_id :: string
  ns_state_sequence :: int
  ns_status :: lease_status
  ns_requested_at :: int
  ns_expires_at :: int
  ns_choice :: "identity_choice option"
  ns_failure_code :: "string option"
  ns_terminal_event_id :: "string option"
  ns_terminal_at :: "int option"

definition code_char :: "char \<Rightarrow> bool" where
  "code_char c = (let n = (of_char c :: int) in 65 \<le> n \<and> n \<le> 90 \<or> 97 \<le> n \<and> n \<le> 122 \<or> 48 \<le> n \<and> n \<le> 57 \<or> n = 95)"

definition valid_failure_code :: "string \<Rightarrow> bool" where
  "valid_failure_code s \<longleftrightarrow> str_len 1 160 s \<and> list_all (\<lambda>c. code_char c \<or> c \<in> {CHR ''.'', CHR ''-''}) s"

text \<open>\<open>_terminal_shape\<close>, with the instants in microseconds.\<close>

definition terminal_shape :: "identity_status \<Rightarrow> bool" where
  "terminal_shape s \<longleftrightarrow>
     ns_expires_at s = ns_requested_at s + IDENTITY_NAMING_LEASE_SECONDS * 1000000 \<and>
     (case ns_status s of
        Pending \<Rightarrow> ns_choice s = None \<and> ns_failure_code s = None \<and> ns_terminal_event_id s = None \<and> ns_terminal_at s = None
      | Completed \<Rightarrow> ns_choice s \<noteq> None \<and> ns_failure_code s = None \<and> ns_terminal_event_id s \<noteq> None \<and> ns_terminal_at s \<noteq> None
      | Failed \<Rightarrow> ns_failure_code s \<noteq> None \<and> ns_terminal_event_id s \<noteq> None \<and> ns_terminal_at s \<noteq> None
      | Superseded \<Rightarrow> ns_choice s = None \<and> ns_terminal_at s \<noteq> None \<and>
          (ns_failure_code s = Some ''expired'' \<and> ns_terminal_event_id s = None \<or>
           ns_failure_code s = Some ''identity_already_named'' \<and> ns_terminal_event_id s \<noteq> None)) \<and>
     (case ns_terminal_at s of None \<Rightarrow> True | Some t \<Rightarrow> ns_requested_at s \<le> t \<and>
        (ns_status s \<in> {Completed, Failed} \<longrightarrow> t < ns_expires_at s) \<and>
        (ns_status s = Superseded \<longrightarrow>
          (ns_failure_code s = Some ''expired'' \<longrightarrow> ns_expires_at s \<le> t) \<and>
          (ns_failure_code s = Some ''identity_already_named'' \<longrightarrow> t < ns_expires_at s)))"

definition valid_status :: "identity_status \<Rightarrow> bool" where
  "valid_status s \<longleftrightarrow> is_uuid4 (ns_lease_id s) \<and> is_uuid4 (ns_brain_id s) \<and> 1 \<le> ns_state_sequence s \<and>
     (case ns_failure_code s of None \<Rightarrow> True | Some c \<Rightarrow> valid_failure_code c) \<and>
     (case ns_terminal_event_id s of None \<Rightarrow> True | Some i \<Rightarrow> is_uuid4 i) \<and> terminal_shape s"

definition row_choice :: "platform \<Rightarrow> identity_lease_row \<Rightarrow> identity_choice option res" where
  "row_choice P r = (case il_choice_json r of
     Some t \<Rightarrow> (case rbind (of_option (ValidationError ''IdentityChoiceV1'') (pf_parse_choice P t)) (choice_revalidated P) of
         Inl _ \<Rightarrow> Inl (LedgerIntegrityError ''identity naming choice is invalid'')
       | Inr c \<Rightarrow> if choice_text c \<noteq> t \<or> il_choice_fingerprint r \<noteq> Some (choice_fingerprint c) then
             Inl (LedgerIntegrityError ''identity naming choice integrity check failed'')
           else Inr (Some c))
   | None \<Rightarrow> if il_choice_fingerprint r \<noteq> None then
       Inl (LedgerIntegrityError ''identity naming choice fingerprint is orphaned'')
     else Inr None)"

definition status_from_row :: "platform \<Rightarrow> identity_lease_row \<Rightarrow> identity_status res" where
  "status_from_row P r = rbind (row_choice P r) (\<lambda>choice.
     let s = \<lparr>ns_lease_id = il_lease_id r, ns_brain_id = il_brain_id r, ns_state_sequence = il_request_sequence r,
       ns_status = il_status r, ns_requested_at = il_requested_at r, ns_expires_at = il_expires_at r, ns_choice = choice,
       ns_failure_code = il_failure_code r, ns_terminal_event_id = il_terminal_event_id r, ns_terminal_at = il_terminal_at r\<rparr>
     in if valid_status s then Inr s else Inl (LedgerIntegrityError ''identity naming lease row is invalid''))"

section \<open>The tables\<close>

definition identity_lease_row :: "database \<Rightarrow> string \<Rightarrow> identity_lease_row res" where
  "identity_lease_row L i = of_option (PyKeyError i) (lookup il_lease_id (db_identity_leases L) i)"

definition identity_naming_status :: "platform \<Rightarrow> database \<Rightarrow> string \<Rightarrow> identity_status res" where
  "identity_naming_status P L i = rbind (validate_id i) (\<lambda>i. rbind (identity_lease_row L i) (status_from_row P))"

definition identity_naming_brain_id :: "platform \<Rightarrow> database \<Rightarrow> string \<Rightarrow> string res" where
  "identity_naming_brain_id P L i = rbind (identity_naming_status P L i) (\<lambda>s. Inr (ns_brain_id s))"

text \<open>The \<open>CHECK\<close>, \<open>UNIQUE\<close> and \<open>FOREIGN KEY\<close> constraints of the lease table, against the other rows.\<close>

definition row_checks :: "identity_lease_row \<Rightarrow> bool" where
  "row_checks r \<longleftrightarrow> 1 \<le> il_request_sequence r \<and> (il_choice_fingerprint r = None \<longleftrightarrow> il_choice_json r = None) \<and>
     (case il_choice_fingerprint r of None \<Rightarrow> True | Some f \<Rightarrow> length f = 64) \<and>
     (case il_status r of
        Pending \<Rightarrow> il_choice_json r = None \<and> il_failure_code r = None \<and> il_terminal_event_id r = None \<and> il_terminal_at r = None
      | Completed \<Rightarrow> il_choice_json r \<noteq> None \<and> il_failure_code r = None \<and> il_terminal_event_id r \<noteq> None \<and> il_terminal_at r \<noteq> None
      | Failed \<Rightarrow> il_failure_code r \<noteq> None \<and> il_terminal_event_id r \<noteq> None \<and> il_terminal_at r \<noteq> None
      | Superseded \<Rightarrow> il_choice_json r = None \<and> il_terminal_at r \<noteq> None \<and>
          (il_failure_code r = Some ''expired'' \<and> il_terminal_event_id r = None \<or>
           il_failure_code r = Some ''identity_already_named'' \<and> il_terminal_event_id r \<noteq> None))"

definition apart :: "identity_lease_row \<Rightarrow> identity_lease_row \<Rightarrow> bool" where
  "apart r q \<longleftrightarrow> il_lease_id q \<noteq> il_lease_id r \<and> il_request_event_id q \<noteq> il_request_event_id r \<and>
     (il_terminal_event_id r = None \<or> il_terminal_event_id q \<noteq> il_terminal_event_id r) \<and>
     \<not> (il_status r = Pending \<and> il_status q = Pending \<and> il_brain_id q = il_brain_id r)"

definition row_refs :: "database \<Rightarrow> identity_lease_row \<Rightarrow> bool" where
  "row_refs L r \<longleftrightarrow> db_brains L (il_brain_id r) \<noteq> None \<and>
     list_ex (\<lambda>e. row_event_id e = il_request_event_id r) (db_events L) \<and>
     (case il_terminal_event_id r of None \<Rightarrow> True | Some t \<Rightarrow> list_ex (\<lambda>e. row_event_id e = t) (db_events L))"

definition row_keys :: "database \<Rightarrow> identity_lease_row \<Rightarrow> identity_lease_row list \<Rightarrow> bool" where
  "row_keys L r others \<longleftrightarrow> row_refs L r \<and> list_all (apart r) others"

definition insert_lease :: "identity_lease_row \<Rightarrow> database \<Rightarrow> database res" where
  "insert_lease r L = (if row_checks r \<and> row_keys L r (db_identity_leases L)
     then Inr (L\<lparr>db_identity_leases := db_identity_leases L @ [r]\<rparr>)
     else Inl (SqliteIntegrityError ''identity_naming_lease''))"

text \<open>\<open>UPDATE ... WHERE lease_id = ? AND status = 'pending'\<close>, whose row count has to be one.\<close>

definition update_lease ::
  "string \<Rightarrow> (identity_lease_row \<Rightarrow> identity_lease_row) \<Rightarrow> string \<Rightarrow> database \<Rightarrow> database res" where
  "update_lease i f lost L = (case lookup il_lease_id (db_identity_leases L) i of
     None \<Rightarrow> Inl (LedgerIntegrityError lost)
   | Some r \<Rightarrow>
       if il_status r \<noteq> Pending then Inl (LedgerIntegrityError lost)
       else if row_checks (f r) \<and> row_keys L (f r) (filter (\<lambda>q. il_lease_id q \<noteq> i) (db_identity_leases L))
       then Inr (L\<lparr>db_identity_leases := update_rows il_lease_id i f (db_identity_leases L)\<rparr>)
       else Inl (SqliteIntegrityError ''identity_naming_lease''))"

section \<open>Events of the store\<close>

definition IDENTITY_ADAPTER_ID :: string where "IDENTITY_ADAPTER_ID = ''alice-brain-hermes-identity-v1''"
definition IDENTITY_PURPOSE :: string where "IDENTITY_PURPOSE = ''identity_self_naming''"

definition naming_event :: "string \<Rightarrow> jobj \<Rightarrow> stamp \<Rightarrow> string \<Rightarrow> string \<Rightarrow> event_envelope res" where
  "naming_event t payload st b a = new_event t b a payload (st_event_id st) (st_wall_time st) (st_monotonic_ns st)
     (no_provenance\<lparr>pv_adapter_id := Some IDENTITY_ADAPTER_ID\<rparr>)"

text \<open>A batch: every event is sequenced and reduced before the first is inserted.\<close>

fun sequence_events :: "string \<Rightarrow> int \<Rightarrow> brain_state \<Rightarrow> event_envelope list \<Rightarrow> (event_envelope list \<times> brain_state) res" where
  "sequence_events b n s [] = Inr ([], s)"
| "sequence_events b n s (e # es) =
     (if ev_brain_id e \<noteq> b \<or> ev_sequence e \<noteq> None then
        Inl (PyValueError ''identity event batch changed its brain or sequence'')
      else rbind (event_revalidated (sequenced e n)) (\<lambda>p. rbind (reduce_state s p) (\<lambda>s'.
        rbind (sequence_events b (n + 1) s' es) (\<lambda>(ps, t). Inr (p # ps, t)))))"

definition insert_sequenced :: "event_envelope \<Rightarrow> database \<Rightarrow> database res" where
  "insert_sequenced p L = insert_event (event_row_of p (the (ev_sequence p))) L"

definition insert_batch ::
  "brain_state \<Rightarrow> event_envelope list \<Rightarrow> database \<Rightarrow> ((event_envelope list \<times> brain_state) \<times> database) res" where
  "insert_batch state events L =
     (let b = bs_brain_id state; n = bs_last_sequence state + 1 in
      if events = [] then Inl (PyValueError ''identity event batch cannot be empty'')
      else rbind (sequence_events b n state events) (\<lambda>(ps, t).
        if db_brains L b \<noteq> Some n then
          Inl (ExpectedSequenceError ''identity naming sequence was lost before event insert'')
        else rbind (rfold (\<lambda>L p. insert_sequenced p L) (L\<lparr>db_brains := (db_brains L)(b \<mapsto> bs_last_sequence t + 1)\<rparr>) ps) (\<lambda>L.
          Inr ((ps, t), L))))"

definition require_head :: "brain_state \<Rightarrow> database \<Rightarrow> unit res" where
  "require_head state L = rbind (authoritative_head L (bs_brain_id state)) (\<lambda>h.
     if h \<noteq> Some (bs_last_sequence state) then
       Inl (ExpectedSequenceError ''identity naming state does not match authoritative head'')
     else Inr ())"

text \<open>The event a name came from: the last naming event of the brain that carries it.\<close>

fun find_name_event :: "platform \<Rightarrow> string \<Rightarrow> event_row list \<Rightarrow> event_envelope res" where
  "find_name_event P name [] = Inl (LedgerIntegrityError ''named identity lacks its source event'')"
| "find_name_event P name (r # rs) = rbind (decode_event P r) (\<lambda>e.
     if ev_event_type e \<in> {''brain.created'', ''identity.named''} \<and> jget (ev_payload e) ''name'' = JStr name then Inr e
     else find_name_event P name rs)"

definition last_identity_name_event :: "platform \<Rightarrow> database \<Rightarrow> string \<Rightarrow> string \<Rightarrow> event_envelope res" where
  "last_identity_name_event P L b name = find_name_event P name
     (rev (sort_key row_sequence (filter (\<lambda>r. row_brain_id r = b) (db_events L))))"

definition current_identity_name_source :: "platform \<Rightarrow> database \<Rightarrow> brain_state \<Rightarrow> event_envelope res" where
  "current_identity_name_source P L state = (case id_name (bs_identity state) of
     None \<Rightarrow> Inl (LedgerIntegrityError ''unnamed identity has no naming source'')
   | Some name \<Rightarrow> rbind (last_identity_name_event P L (bs_brain_id state) name) (\<lambda>source.
       let lost = Inl (LedgerIntegrityError ''named identity registry lost its current source event'') in
       case lookup nr_brain_id (db_names L) (bs_brain_id state) of
         None \<Rightarrow> lost
       | Some r \<Rightarrow> rbind (identity_name_normalization_key P name) (\<lambda>key.
           if nr_normalized_name r \<noteq> key \<or> nr_display_name r \<noteq> name \<or> nr_source_event_id r \<noteq> ev_event_id source
           then lost else Inr source)))"

section \<open>Supersession\<close>

definition supersede_pending ::
  "string \<Rightarrow> int \<Rightarrow> int \<Rightarrow> string \<Rightarrow> string option \<Rightarrow> database \<Rightarrow> database res" where
  "supersede_pending i now requested_at reason source L =
     (if now < requested_at then Inl (PyValueError ''identity naming terminal time predates its request'')
      else rbind
        (if reason = ''expired'' then
           (if source \<noteq> None then Inl (PyValueError ''expired identity lease cannot cite a name event'') else Inr None)
         else if reason = ''identity_already_named'' then
           (case source of None \<Rightarrow> Inl (PyValueError ''named identity lease requires its source event'')
            | Some e \<Rightarrow> rbind (validate_id e) (\<lambda>e. Inr (Some e)))
         else Inl (PyValueError ''identity naming supersession reason is invalid'')) (\<lambda>source.
      update_lease i (\<lambda>r. r\<lparr>il_status := Superseded, il_failure_code := Some reason, il_terminal_event_id := source,
        il_terminal_at := Some now\<rparr>) ''identity naming lease supersession was lost'' L))"

section \<open>Claim\<close>

record claim_result =
  cl_lease :: "identity_lease option"
  cl_successor :: "brain_state option"

definition naming_actor :: "brain_state \<Rightarrow> string \<Rightarrow> (brain_state \<times> string) res" where
  "naming_actor state actor = rbind (state_revalidated state) (\<lambda>s. rbind (validate_id actor) (\<lambda>a.
     if a \<noteq> bs_brain_id s then Inl (PyValueError ''identity naming actor must be the brain self actor'')
     else Inr (s, a)))"

definition claim_request :: "brain_state \<Rightarrow> string \<Rightarrow> int \<Rightarrow> string \<Rightarrow> stamp \<Rightarrow> event_envelope res" where
  "claim_request s a now lease_id st = naming_event ''cognition.requested''
     [(''schema_version'', JInt 1), (''purpose'', JStr IDENTITY_PURPOSE), (''lease_id'', JStr lease_id),
      (''requested_at'', JStr (iso_text now)),
      (''expires_at'', JStr (iso_text (now + IDENTITY_NAMING_LEASE_SECONDS * 1000000)))] st (bs_brain_id s) a"

text \<open>The pending lease of the brain: kept, or superseded because it expired or the brain has a name.\<close>

definition settle_pending :: "platform \<Rightarrow> brain_state \<Rightarrow> int \<Rightarrow> database \<Rightarrow> (bool \<times> database) res" where
  "settle_pending P s now L =
     (case find (\<lambda>r. il_brain_id r = bs_brain_id s \<and> il_status r = Pending) (db_identity_leases L) of
        None \<Rightarrow> Inr (False, L)
      | Some r \<Rightarrow> rbind (status_from_row P r) (\<lambda>pending.
          if now < ns_expires_at pending \<and> id_name (bs_identity s) = None then Inr (True, L)
          else if ns_expires_at pending \<le> now then
            rbind (supersede_pending (ns_lease_id pending) now (ns_requested_at pending) ''expired'' None L) (\<lambda>L. Inr (False, L))
          else rbind (current_identity_name_source P L s) (\<lambda>source.
            rbind (supersede_pending (ns_lease_id pending) now (ns_requested_at pending) ''identity_already_named''
              (Some (ev_event_id source)) L) (\<lambda>L. Inr (False, L)))))"

definition claim_identity_naming ::
  "platform \<Rightarrow> brain_state \<Rightarrow> string \<Rightarrow> int \<Rightarrow> string \<Rightarrow> stamp \<Rightarrow> database \<Rightarrow> (claim_result \<times> database) res" where
  "claim_identity_naming P expected_state actor now lease_id st L =
     rbind (naming_actor expected_state actor) (\<lambda>(s, a).
     rbind (claim_request s a now lease_id st) (\<lambda>request.
     rbind (require_head s L) (\<lambda>_.
     rbind (settle_pending P s now L) (\<lambda>(live, L).
     if live \<or> id_name (bs_identity s) \<noteq> None then Inr (\<lparr>cl_lease = None, cl_successor = None\<rparr>, L)
     else rbind (insert_batch s [request] L) (\<lambda>((es, t), L).
       let expires_at = now + IDENTITY_NAMING_LEASE_SECONDS * 1000000; n = the (ev_sequence (hd es)) in
       rbind (insert_lease \<lparr>il_lease_id = lease_id, il_brain_id = bs_brain_id s, il_request_sequence = n,
           il_status = Pending, il_requested_at = now, il_expires_at = expires_at,
           il_request_event_id = ev_event_id (hd es), il_choice_fingerprint = None, il_choice_json = None,
           il_failure_code = None, il_terminal_event_id = None, il_terminal_at = None\<rparr> L) (\<lambda>L.
       rbind (mk_identity_lease \<lparr>nl_lease_id = lease_id, nl_brain_id = bs_brain_id s, nl_state_sequence = n,
           nl_expires_at = expires_at\<rparr>) (\<lambda>lease.
       Inr (\<lparr>cl_lease = Some lease, cl_successor = Some t\<rparr>, L))))))))"

section \<open>Completion\<close>

type_synonym terminal_result = "lease_status \<times> brain_state option"

definition completion_events ::
  "identity_choice \<Rightarrow> string \<Rightarrow> int \<Rightarrow> stamp \<times> stamp \<times> stamp \<Rightarrow> string \<Rightarrow> string \<Rightarrow> event_envelope list res" where
  "completion_events c i now sts b a = (case sts of (st1, st2, st3) \<Rightarrow>
     rbind (naming_event ''cognition.completed''
       [(''schema_version'', JInt 1), (''purpose'', JStr IDENTITY_PURPOSE), (''lease_id'', JStr i),
        (''choice_fingerprint'', JStr (choice_fingerprint c)), (''structured'', JBool True),
        (''terminal_at'', JStr (iso_text now))] st1 b a) (\<lambda>completed.
     rbind (naming_event ''c1.deliberated''
       [(''schema_version'', JInt 1), (''purpose'', JStr IDENTITY_PURPOSE), (''lease_id'', JStr i),
        (''name'', JStr (ic_name c)), (''reason'', JStr (ic_reason c)),
        (''source_event_id'', JStr (ev_event_id completed)), (''terminal_at'', JStr (iso_text now))] st2 b a) (\<lambda>deliberated.
     rbind (naming_event ''identity.named''
       [(''schema_version'', JInt 1), (''purpose'', JStr IDENTITY_PURPOSE), (''lease_id'', JStr i),
        (''name'', JStr (ic_name c)), (''reason'', JStr (ic_reason c)),
        (''source_event_id'', JStr (ev_event_id deliberated)), (''terminal_at'', JStr (iso_text now))] st3 b a) (\<lambda>named.
     Inr [completed, deliberated, named]))))"

definition failure_event :: "jobj \<Rightarrow> string \<Rightarrow> int \<Rightarrow> stamp \<Rightarrow> string \<Rightarrow> string \<Rightarrow> event_envelope res" where
  "failure_event extra i now st b a = naming_event ''cognition.failed''
     ([(''schema_version'', JInt 1), (''purpose'', JStr IDENTITY_PURPOSE), (''lease_id'', JStr i)] @ extra @
      [(''terminal_at'', JStr (iso_text now))]) st b a"

text \<open>
  The live part of a terminal operation: a lease past its expiry, or of a brain that has got a name, is
  superseded instead.
\<close>

definition settle_terminal ::
  "platform \<Rightarrow> identity_status \<Rightarrow> brain_state \<Rightarrow> int \<Rightarrow> (database \<Rightarrow> (terminal_result \<times> database) res) \<Rightarrow> database \<Rightarrow>
    (terminal_result \<times> database) res" where
  "settle_terminal P status s now live L =
     (if now < ns_requested_at status then Inl (PyValueError ''identity naming terminal time predates its request'')
      else if ns_expires_at status \<le> now then
        rbind (supersede_pending (ns_lease_id status) now (ns_requested_at status) ''expired'' None L) (\<lambda>L.
        Inr ((Superseded, None), L))
      else if id_name (bs_identity s) \<noteq> None then
        rbind (current_identity_name_source P L s) (\<lambda>source.
        rbind (supersede_pending (ns_lease_id status) now (ns_requested_at status) ''identity_already_named''
          (Some (ev_event_id source)) L) (\<lambda>L. Inr ((Superseded, None), L)))
      else live L)"

definition refuse_name ::
  "identity_choice \<Rightarrow> string \<Rightarrow> int \<Rightarrow> stamp \<Rightarrow> brain_state \<Rightarrow> string \<Rightarrow> database \<Rightarrow> (terminal_result \<times> database) res" where
  "refuse_name c i now st s a L =
     rbind (failure_event [(''failure_code'', JStr ''name_conflict''), (''choice_fingerprint'', JStr (choice_fingerprint c))]
       i now st (bs_brain_id s) a) (\<lambda>failed.
     rbind (insert_batch s [failed] L) (\<lambda>((es, t), L).
     rbind (update_lease i (\<lambda>r. r\<lparr>il_status := Failed, il_choice_fingerprint := Some (choice_fingerprint c),
         il_choice_json := Some (choice_text c), il_failure_code := Some ''name_conflict'',
         il_terminal_event_id := Some (ev_event_id (hd es)), il_terminal_at := Some now\<rparr>)
       ''identity naming conflict result was not persisted'' L) (\<lambda>L.
     Inr ((Failed, Some t), L))))"

definition accept_name ::
  "platform \<Rightarrow> identity_choice \<Rightarrow> string \<Rightarrow> int \<Rightarrow> stamp \<times> stamp \<times> stamp \<Rightarrow> brain_state \<Rightarrow> string \<Rightarrow> database \<Rightarrow>
    (terminal_result \<times> database) res" where
  "accept_name P c i now sts s a L =
     rbind (completion_events c i now sts (bs_brain_id s) a) (\<lambda>events.
     rbind (insert_batch s events L) (\<lambda>((es, t), L).
     rbind (record_identity_name P (bs_brain_id s) (JStr (ic_name c)) (ev_event_id (last es)) L) (\<lambda>L.
     rbind (update_lease i (\<lambda>r. r\<lparr>il_status := Completed, il_choice_fingerprint := Some (choice_fingerprint c),
         il_choice_json := Some (choice_text c), il_terminal_event_id := Some (ev_event_id (last es)),
         il_terminal_at := Some now\<rparr>) ''completed identity naming result was not persisted'' L) (\<lambda>L.
     Inr ((Completed, Some t), L)))))"

definition complete_identity_naming ::
  "platform \<Rightarrow> string \<Rightarrow> identity_choice \<Rightarrow> brain_state \<Rightarrow> string \<Rightarrow> int \<Rightarrow> stamp \<times> stamp \<times> stamp \<Rightarrow> database \<Rightarrow>
    (terminal_result \<times> database) res" where
  "complete_identity_naming P i choice expected_state actor now sts L =
     rbind (validate_id i) (\<lambda>i.
     rbind (choice_revalidated P choice) (\<lambda>c.
     rbind (naming_actor expected_state actor) (\<lambda>(s, a).
     rbind (identity_lease_row L i) (\<lambda>row.
     rbind (status_from_row P row) (\<lambda>status.
     if ns_brain_id status \<noteq> bs_brain_id s then Inl (PyValueError ''identity naming lease changed brain identity'')
     else rbind (require_head s L) (\<lambda>_. case ns_status status of
       Completed \<Rightarrow> if ns_choice status \<noteq> Some c then
           Inl (IdempotencyConflictError ''identity naming lease has a different completed choice'')
         else Inr ((Completed, None), L)
     | Failed \<Rightarrow> if ns_choice status \<noteq> None \<and> ns_choice status \<noteq> Some c then
           Inl (IdempotencyConflictError ''identity naming lease has a different failed choice'')
         else Inr ((if ns_choice status = Some c then Failed else Superseded, None), L)
     | Superseded \<Rightarrow> Inr ((Superseded, None), L)
     | Pending \<Rightarrow> settle_terminal P status s now (\<lambda>L.
         rbind (identity_name_normalization_key P (ic_name c)) (\<lambda>key.
         if list_ex (\<lambda>r. nr_normalized_name r = key \<and> nr_brain_id r \<noteq> bs_brain_id s) (db_names L)
         then refuse_name c i now (fst sts) s a L
         else accept_name P c i now sts s a L)) L))))))"

section \<open>Failure\<close>

text \<open>\<open>^(?:invalid_structured_choice|llm_error\.[A-Za-z0-9_]{1,80})$\<close>.\<close>

definition worker_failure_code :: "string \<Rightarrow> string \<Rightarrow> bool" where
  "worker_failure_code invalid s \<longleftrightarrow> s = invalid \<or>
     (take 10 s = ''llm_error.'' \<and> str_len 1 80 (drop 10 s) \<and> list_all code_char (drop 10 s))"

definition fail_identity_naming ::
  "platform \<Rightarrow> string \<Rightarrow> string \<Rightarrow> brain_state \<Rightarrow> string \<Rightarrow> int \<Rightarrow> stamp \<Rightarrow> database \<Rightarrow> (terminal_result \<times> database) res" where
  "fail_identity_naming P i code expected_state actor now st L =
     rbind (validate_id i) (\<lambda>i.
     if \<not> worker_failure_code ''invalid_structured_choice'' code then
       Inl (PyValueError ''identity naming failure code is invalid'')
     else
     rbind (naming_actor expected_state actor) (\<lambda>(s, a).
     rbind (identity_lease_row L i) (\<lambda>row.
     rbind (status_from_row P row) (\<lambda>status.
     if ns_brain_id status \<noteq> bs_brain_id s then Inl (PyValueError ''identity naming lease changed brain identity'')
     else rbind (require_head s L) (\<lambda>_. case ns_status status of
       Failed \<Rightarrow> if ns_failure_code status \<noteq> Some code \<or> ns_choice status \<noteq> None then
           Inl (IdempotencyConflictError ''identity naming lease has a different failure'')
         else Inr ((Failed, None), L)
     | Completed \<Rightarrow> Inr ((Superseded, None), L)
     | Superseded \<Rightarrow> Inr ((Superseded, None), L)
     | Pending \<Rightarrow> settle_terminal P status s now (\<lambda>L.
         rbind (failure_event [(''failure_code'', JStr code)] i now st (bs_brain_id s) a) (\<lambda>failed.
         rbind (insert_batch s [failed] L) (\<lambda>((es, t), L).
         rbind (update_lease i (\<lambda>r. r\<lparr>il_status := Failed, il_failure_code := Some code,
             il_terminal_event_id := Some (ev_event_id (hd es)), il_terminal_at := Some now\<rparr>)
           ''identity naming failure was not persisted'' L) (\<lambda>L.
         Inr ((Failed, Some t), L))))) L)))))"

section \<open>Batches\<close>

lemma insert_sequenced_Inr:
  assumes "insert_sequenced p L = Inr L'"
  shows "L' = L\<lparr>db_events := db_events L @ [row_of p]\<rparr>" "ev_event_id p \<notin> row_event_id ` set (db_events L)"
  using insert_event_Inr [of "row_of p" L L'] assms by (auto simp: insert_sequenced_def row_of_def)

lemma sequence_events_length:
  "sequence_events b n s es = Inr (ps, t) \<Longrightarrow> length ps = length es \<and> (bs_last_sequence s = n - 1 \<longrightarrow> bs_last_sequence t = n - 1 + int (length es))"
proof (induction es arbitrary: n s ps t)
  case (Cons e es)
  then obtain s' qs where r: "reduce_state s (sequenced e n) = Inr s'" "sequence_events b (n + 1) s' es = Inr (qs, t)"
    "ps = sequenced e n # qs" by (auto simp: rbind_eq_Inr split: if_splits)
  have "bs_last_sequence s' = n" using reduce_state_Inr [OF r(1)] by (simp add: log_of_def)
  with Cons.IH [OF r(2)] r(3) show ?case by simp
qed simp

lemma sequenced_batch_grows:
  assumes "ledger_ok P L" "sequence_events b n s es = Inr (ps, t)" "n = int (length (history L b)) + 1"
    and "rfold (\<lambda>L p. insert_sequenced p L) (L\<lparr>db_brains := (db_brains L)(b \<mapsto> n + int (length ps))\<rparr>) ps = Inr L'"
    and "list_all (reads_event P) ps" "ps \<noteq> [] \<or> db_brains L b = Some n"
  shows "ledger_ok P L' \<and> (\<forall>c. history L' c = history L c @ (if c = b then map row_of ps else [])) \<and>
    replay_rows P s (map row_of ps) = Inr t \<and> db_names L' = db_names L \<and> db_identity_leases L' = db_identity_leases L"
  using assms
proof (induction es arbitrary: L n s ps)
  case Nil
  then have id: "(db_brains L)(b \<mapsto> n) = db_brains L" by (intro fun_upd_idem) simp
  have "L' = L" using Nil.prems(2,4) id by simp
  with Nil show ?case by (simp add: replay_rows_def)
next
  case (Cons e es)
  from Cons.prems(2) obtain s' qs where e: "ev_brain_id e = b" "valid_event (sequenced e n)" "reduce_state s (sequenced e n) = Inr s'"
    "sequence_events b (n + 1) s' es = Inr (qs, t)" "ps = sequenced e n # qs"
    by (auto simp: rbind_eq_Inr split: if_splits)
  define p where "p = sequenced e n"
  have p: "row_of p = event_row_of p n" "ev_brain_id p = b" "ev_sequence p = Some n" "valid_event p"
    using e by (simp_all add: p_def row_of_def)
  have len: "n + int (length ps) = n + 1 + int (length qs)" by (simp add: e(5))
  from Cons.prems(4) have "rbind (insert_sequenced p (L\<lparr>db_brains := (db_brains L)(b \<mapsto> n + 1 + int (length qs))\<rparr>))
      (\<lambda>M. rfold (\<lambda>L p. insert_sequenced p L) M qs) = Inr L'"
    unfolding len unfolding e(5) rfold.simps p_def .
  then obtain M where M: "insert_sequenced p (L\<lparr>db_brains := (db_brains L)(b \<mapsto> n + 1 + int (length qs))\<rparr>) = Inr M"
    "rfold (\<lambda>L p. insert_sequenced p L) M qs = Inr L'"
    unfolding rbind_eq_Inr by blast
  define L1 where "L1 = L\<lparr>db_brains := (db_brains L)(b \<mapsto> n + 1), db_events := db_events L @ [row_of p]\<rparr>"
  have M': "M = L1\<lparr>db_brains := (db_brains L1)(b \<mapsto> n + 1 + int (length qs))\<rparr>" "ev_event_id p \<notin> row_event_id ` set (db_events L)"
    using insert_sequenced_Inr [OF M(1)] by (simp_all add: L1_def)
  have g: "grows L (event_row_of p n) L1"
    using M'(2) Cons.prems(3) p by (simp add: grows_def L1_def)
  have d: "decode_event P (event_row_of p n) = Inr p"
    using Cons.prems(5) e(5) p by (intro decode_row_of) (simp_all add: p_def)
  note ok = grows_ok [OF Cons.prems(1) g d] and h = grows_history [OF g]
  have rest: "rfold (\<lambda>L p. insert_sequenced p L) (L1\<lparr>db_brains := (db_brains L1)(b \<mapsto> n + 1 + int (length qs))\<rparr>) qs = Inr L'"
    using M(2) unfolding M'(1) .
  have ih: "ledger_ok P L' \<and> (\<forall>c. history L' c = history L1 c @ (if c = b then map row_of qs else [])) \<and>
      replay_rows P s' (map row_of qs) = Inr t \<and> db_names L' = db_names L1 \<and> db_identity_leases L' = db_identity_leases L1"
  proof (rule Cons.IH [OF ok e(4) _ rest])
    show "n + 1 = int (length (history L1 b)) + 1" using Cons.prems(3) h [of b] p(2) by simp
    show "list_all (reads_event P) qs" using Cons.prems(5) e(5) by simp
    show "qs \<noteq> [] \<or> db_brains L1 b = Some (n + 1)" by (simp add: L1_def)
  qed
  have r: "replay_rows P s (map row_of ps) = replay_rows P s' (map row_of qs)"
    using d e(3,5) p(1) by (simp add: replay_rows_def p_def)
  show ?case using ih r h p(1,2) e(5) by (auto simp: L1_def p_def)
qed

text \<open>
  What a transaction on one brain may do to the ledger: append rows to its history alone, which reduce the
  state it started from to the state it ends with.
\<close>

definition advances :: "platform \<Rightarrow> string \<Rightarrow> brain_state \<Rightarrow> database \<Rightarrow> brain_state \<Rightarrow> database \<Rightarrow> bool" where
  "advances P b s L t L' \<longleftrightarrow> ledger_ok P L' \<and> (\<forall>c. c \<noteq> b \<longrightarrow> history L' c = history L c) \<and>
     (\<exists>rows. history L' b = history L b @ rows \<and> replay_rows P s rows = Inr t)"

lemma advances_refl: "ledger_ok P L \<Longrightarrow> advances P b s L s L"
  by (auto simp: advances_def replay_rows_def)

lemma advances_frame: "advances P b s L t M \<Longrightarrow> log_frame M N \<Longrightarrow> advances P b s L t N"
  by (simp add: advances_def log_frame_ok log_frame_history)

lemma advances_from: "log_frame L M \<Longrightarrow> advances P b s M t N \<Longrightarrow> advances P b s L t N"
  by (simp add: advances_def log_frame_history)

lemma advances_ok: "advances P b s L t L' \<Longrightarrow> ledger_ok P L'"
  by (simp add: advances_def)

lemma advances_later: "advances P b s L t L' \<Longrightarrow> later_ledger P L L'"
  unfolding later_ledger_def advances_def by (metis append_Nil2)

lemma advances_replay:
  assumes "ledger_ok P L" "full_replay P L b None = Inr s" "advances P b s L t L'"
  shows "full_replay P L' b None = Inr t"
proof -
  from assms(3) obtain rows where "ledger_ok P L'" "history L' b = history L b @ rows" "replay_rows P s rows = Inr t"
    by (auto simp: advances_def)
  moreover have "replay_rows P (brain_genesis b) (history L b) = Inr s"
    using assms(2) full_replay_all [OF ledger_okD(1) [OF assms(1)]] by simp
  ultimately show ?thesis by (simp add: full_replay_all [OF ledger_okD(1)] replay_rows_append)
qed

lemma insert_batch_advances:
  assumes "ledger_ok P L" "insert_batch s es L = Inr ((ps, t), L')" "list_all (reads_event P) ps"
  shows "advances P (bs_brain_id s) s L t L'" "db_identity_leases L' = db_identity_leases L" "db_names L' = db_names L"
    "history L' (bs_brain_id s) = history L (bs_brain_id s) @ map row_of ps" "length ps = length es" "ps \<noteq> []"
    "sequence_events (bs_brain_id s) (bs_last_sequence s + 1) s es = Inr (ps, t)"
proof -
  let ?b = "bs_brain_id s" and ?n = "bs_last_sequence s + 1"
  from assms(2) have q: "sequence_events ?b ?n s es = Inr (ps, t)" "db_brains L ?b = Some ?n" "es \<noteq> []"
    "rfold (\<lambda>L p. insert_sequenced p L) (L\<lparr>db_brains := (db_brains L)(?b \<mapsto> bs_last_sequence t + 1)\<rparr>) ps = Inr L'"
    by (auto simp: insert_batch_def Let_def rbind_eq_Inr split: if_splits)
  have n: "?n = int (length (history L ?b)) + 1" using ledger_okD(3) [OF assms(1) q(2)] .
  have t: "bs_last_sequence t + 1 = ?n + int (length ps)" using sequence_events_length [OF q(1)] by simp
  have g: "ledger_ok P L' \<and> (\<forall>c. history L' c = history L c @ (if c = ?b then map row_of ps else [])) \<and>
    replay_rows P s (map row_of ps) = Inr t \<and> db_names L' = db_names L \<and> db_identity_leases L' = db_identity_leases L"
    by (rule sequenced_batch_grows [OF assms(1) q(1) n q(4) [unfolded t] assms(3)]) (simp add: q(2))
  then show "advances P ?b s L t L'" by (auto simp: advances_def)
  show "db_identity_leases L' = db_identity_leases L" "db_names L' = db_names L"
    "history L' ?b = history L ?b @ map row_of ps" using g by simp_all
  show "length ps = length es" "ps \<noteq> []" using sequence_events_length [OF q(1)] q(3) by auto
  show "sequence_events ?b ?n s es = Inr (ps, t)" by (rule q(1))
qed

lemma sequence_events_numbered:
  "sequence_events b n s es = Inr (ps, t) \<Longrightarrow> ps = numbered_events (n - 1) es \<and>
    list_all (\<lambda>e. ev_brain_id e = b \<and> ev_sequence e = None) es"
proof (induction es arbitrary: n s ps t)
  case (Cons e es)
  then obtain s' qs where r: "sequence_events b (n + 1) s' es = Inr (qs, t)" "ps = sequenced e n # qs"
    "ev_brain_id e = b" "ev_sequence e = None" by (auto simp: rbind_eq_Inr split: if_splits)
  have "numbered_events (n - 1) (e # es) = sequenced e n # numbered_events n es"
    by (auto simp: numbered_events_def enumerate_Suc_eq algebra_simps)
  with Cons.IH [OF r(1)] r(2,3,4) show ?case by simp
qed (simp add: numbered_events_def)

end
