(* ===== verification/Naming.thy ===== *)
theory Naming imports Leases
begin

text \<open>
  Identity naming, its theorems: the lease table keeps its constraints and a settled lease never changes,
  whatever operations follow each other; a live lease can be completed, a completion names the brain
  through a chain of three events and is idempotent; and an engine stays the replay of the ledger under
  the three operations.
\<close>

section \<open>The lease table\<close>

lemma insert_lease_Inr: "insert_lease r L = Inr L' \<Longrightarrow> row_checks r \<and> row_keys L r (db_identity_leases L) \<and>
    L' = L\<lparr>db_identity_leases := db_identity_leases L @ [r]\<rparr>"
  by (auto simp: insert_lease_def split: if_splits)

lemma update_lease_Inr: "update_lease i f lost L = Inr L' \<Longrightarrow> \<exists>r. lookup il_lease_id (db_identity_leases L) i = Some r \<and>
    il_status r = Pending \<and> row_checks (f r) \<and> row_keys L (f r) (filter (\<lambda>q. il_lease_id q \<noteq> i) (db_identity_leases L)) \<and>
    L' = L\<lparr>db_identity_leases := update_rows il_lease_id i f (db_identity_leases L)\<rparr>"
  by (auto simp: update_lease_def split: option.splits if_splits)

lemma update_lease_frame: "update_lease i f lost L = Inr L' \<Longrightarrow> log_frame L L'"
  by (auto dest: update_lease_Inr)

lemma insert_lease_frame: "insert_lease r L = Inr L' \<Longrightarrow> log_frame L L'"
  by (auto dest: insert_lease_Inr)

text \<open>The constraints of the table hold of every row against the others.\<close>

definition leases_ok :: "database \<Rightarrow> bool" where
  "leases_ok L \<longleftrightarrow> sorted_wrt apart (db_identity_leases L) \<and>
     (\<forall>r \<in> set (db_identity_leases L). row_checks r \<and> row_refs L r)"

definition same_request :: "identity_lease_row \<Rightarrow> identity_lease_row \<Rightarrow> bool" where
  "same_request q r \<longleftrightarrow> il_lease_id r = il_lease_id q \<and> il_brain_id r = il_brain_id q \<and>
     il_request_sequence r = il_request_sequence q \<and> il_requested_at r = il_requested_at q \<and>
     il_expires_at r = il_expires_at q \<and> il_request_event_id r = il_request_event_id q"

interpretation naming: lease_table il_lease_id il_brain_id "\<lambda>r. il_status r = Pending" il_terminal_event_id apart same_request
  by unfold_locales (auto simp: apart_def same_request_def)

abbreviation leases_move :: "database \<Rightarrow> database \<Rightarrow> bool" where
  "leases_move L L' \<equiv> rows_move (\<lambda>r. il_status r = Pending) same_request (db_identity_leases L) (db_identity_leases L')"

lemma leases_ok_lookup: "leases_ok L \<Longrightarrow> r \<in> set (db_identity_leases L) \<Longrightarrow>
    lookup il_lease_id (db_identity_leases L) (il_lease_id r) = Some r"
  by (simp add: leases_ok_def naming.lookup_row)

text \<open>The event log may only grow under the leases.\<close>

definition log_grows :: "database \<Rightarrow> database \<Rightarrow> bool" where
  "log_grows L M \<longleftrightarrow> db_identity_leases M = db_identity_leases L \<and> set (db_events L) \<subseteq> set (db_events M) \<and>
     (\<forall>b. db_brains L b \<noteq> None \<longrightarrow> db_brains M b \<noteq> None)"

lemma log_grows_refs: "log_grows L M \<Longrightarrow> row_refs L r \<Longrightarrow> row_refs M r"
  by (auto simp: log_grows_def row_refs_def list_ex_iff split: option.splits)

lemma log_grows_leases: "log_grows L M \<Longrightarrow> leases_ok L \<Longrightarrow> leases_ok M \<and> leases_move L M"
  using log_grows_refs [of L M] by (auto simp: leases_ok_def log_grows_def naming.move_refl)

lemma frame_grows: "log_frame L M \<Longrightarrow> db_identity_leases M = db_identity_leases L \<Longrightarrow> log_grows L M"
  by (simp add: log_frame_def log_grows_def)

lemma row_refs_update [simp]: "row_refs (L\<lparr>db_identity_leases := rows\<rparr>) r = row_refs L r"
  by (simp add: row_refs_def split: option.split)

lemma leases_ok_insert:
  assumes "leases_ok L" "insert_lease r L = Inr L'"
  shows "leases_ok L' \<and> leases_move L L'"
proof -
  from insert_lease_Inr [OF assms(2)] have r: "row_checks r" "row_refs L r" "list_all (apart r) (db_identity_leases L)"
    "L' = L\<lparr>db_identity_leases := db_identity_leases L @ [r]\<rparr>" by (auto simp: row_keys_def)
  then have "leases_ok L'" using assms(1) naming.insert_apart by (auto simp: leases_ok_def)
  then show ?thesis using naming.move_append r(4) by simp
qed

lemma leases_ok_update:
  assumes "leases_ok L" "update_lease i f lost L = Inr L'"
    and f: "\<And>r. same_request r (f r) \<and> il_status (f r) \<noteq> Pending"
  shows "leases_ok L' \<and> leases_move L L'"
proof -
  from update_lease_Inr [OF assms(2)] obtain r where r: "lookup il_lease_id (db_identity_leases L) i = Some r" "il_status r = Pending"
    "row_checks (f r)" "row_refs L (f r)" "list_all (apart (f r)) (filter (\<lambda>q. il_lease_id q \<noteq> i) (db_identity_leases L))"
    "L' = L\<lparr>db_identity_leases := update_rows il_lease_id i f (db_identity_leases L)\<rparr>" by (auto simp: row_keys_def)
  from assms(1) have ok: "sorted_wrt apart (db_identity_leases L)" by (simp add: leases_ok_def)
  note moves = naming.update_moves [OF ok r(1,2,5) f]
  have "\<forall>q \<in> set (update_rows il_lease_id i f (db_identity_leases L)). row_checks q \<and> row_refs L q"
    using moves(3) assms(1) r(3,4) by (auto simp: leases_ok_def)
  with moves(1) have "leases_ok L'" unfolding leases_ok_def r(6) by simp
  then show ?thesis using moves(2) r(6) by simp
qed

section \<open>The operations keep the table\<close>

definition lease_safe :: "database \<Rightarrow> database \<Rightarrow> bool" where
  "lease_safe L L' \<longleftrightarrow> (leases_ok L \<longrightarrow> leases_ok L' \<and> leases_move L L')"

lemma lease_safe_refl [simp]: "lease_safe L L"
  by (simp add: lease_safe_def naming.move_refl)

lemma lease_safe_trans: "lease_safe L M \<Longrightarrow> lease_safe M N \<Longrightarrow> lease_safe L N"
  unfolding lease_safe_def using naming.move_trans by blast

lemma lease_safe_grows: "log_grows L M \<Longrightarrow> lease_safe L M"
  by (simp add: lease_safe_def log_grows_leases)

lemma lease_safe_insert: "insert_lease r L = Inr L' \<Longrightarrow> lease_safe L L'"
  by (simp add: lease_safe_def leases_ok_insert)

lemma lease_safe_update:
  "update_lease i f lost L = Inr L' \<Longrightarrow> (\<And>r. same_request r (f r) \<and> il_status (f r) \<noteq> Pending) \<Longrightarrow> lease_safe L L'"
  by (simp add: lease_safe_def leases_ok_update)

lemma batch_grows: "rfold (\<lambda>L p. insert_sequenced p L) L ps = Inr L' \<Longrightarrow> log_grows L L'"
proof (induction ps arbitrary: L)
  case (Cons p ps)
  then obtain M where "insert_sequenced p L = Inr M" "log_grows M L'" by (auto simp: rbind_eq_Inr)
  with insert_sequenced_Inr [of p L M] show ?case by (auto simp: log_grows_def)
qed (simp add: log_grows_def)

lemma insert_batch_grows: "insert_batch s es L = Inr (r, L') \<Longrightarrow> log_grows L L'"
  by (cases r) (auto simp: insert_batch_def Let_def rbind_eq_Inr log_grows_def split: if_splits dest!: batch_grows)

lemma record_name_grows: "record_identity_name P b n src L = Inr L' \<Longrightarrow> log_grows L L'"
  by (frule record_identity_name_frame, rule frame_grows)
    (auto simp: record_identity_name_def rbind_eq_Inr split: json.splits if_splits)

lemma supersede_safe: "supersede_pending i now q reason src L = Inr L' \<Longrightarrow> lease_safe L L'"
  by (auto simp: supersede_pending_def rbind_eq_Inr same_request_def split: if_splits option.splits
    elim!: lease_safe_update)

lemma settle_pending_safe: "settle_pending P s now L = Inr (live, L') \<Longrightarrow> lease_safe L L'"
  by (auto simp: settle_pending_def rbind_eq_Inr split: if_splits option.splits dest: supersede_safe)

lemma claim_safe:
  assumes "claim_identity_naming P s a now i st L = Inr (r, L')"
  shows "lease_safe L L'"
proof -
  from assms obtain v live M where m: "settle_pending P v now L = Inr (live, M)"
    "L' = M \<or> (\<exists>es x N q. insert_batch v es M = Inr (x, N) \<and> insert_lease q N = Inr L')"
    by (auto simp: claim_identity_naming_def rbind_eq_Inr Let_def split: if_splits) blast+
  have "lease_safe M L'" using m(2)
    by (auto dest: lease_safe_insert insert_batch_grows [THEN lease_safe_grows] intro: lease_safe_trans)
  with settle_pending_safe [OF m(1)] show ?thesis by (rule lease_safe_trans)
qed

lemma settle_terminal_safe:
  assumes "settle_terminal P status s now live L = Inr (r, L')" "live L = Inr (r, L') \<Longrightarrow> lease_safe L L'"
  shows "lease_safe L L'"
  using assms by (auto simp: settle_terminal_def rbind_eq_Inr split: if_splits dest: supersede_safe)

lemma batch_then_update:
  assumes "insert_batch s es L = Inr (x, M)" "update_lease i f lost M = Inr L'"
    "\<And>r. same_request r (f r) \<and> il_status (f r) \<noteq> Pending"
  shows "lease_safe L L'"
  using lease_safe_trans [OF lease_safe_grows [OF insert_batch_grows [OF assms(1)]] lease_safe_update [OF assms(2,3)]] .

lemma refuse_safe: "refuse_name c i now st s a L = Inr (r, L') \<Longrightarrow> lease_safe L L'"
  by (auto simp: refuse_name_def rbind_eq_Inr same_request_def elim!: batch_then_update)

lemma accept_safe:
  assumes "accept_name P c i now sts s a L = Inr (r, L')"
  shows "lease_safe L L'"
proof -
  from assms obtain es x M n src N f where m: "insert_batch s es L = Inr (x, M)"
    "record_identity_name P (bs_brain_id s) n src M = Inr N" "lease_safe N L'"
    by (auto simp: accept_name_def rbind_eq_Inr same_request_def dest!: lease_safe_update)
  show ?thesis using lease_safe_grows [OF insert_batch_grows [OF m(1)]] lease_safe_grows [OF record_name_grows [OF m(2)]] m(3)
    by (blast intro: lease_safe_trans)
qed

lemma complete_safe:
  assumes "complete_identity_naming P i choice state actor now sts L = Inr (r, L')"
  shows "lease_safe L L'"
  using assms
  by (auto simp: complete_identity_naming_def rbind_eq_Inr split: if_splits lease_status.splits
    elim!: settle_terminal_safe refuse_safe accept_safe)

lemma fail_safe:
  assumes "fail_identity_naming P i code state actor now st L = Inr (r, L')"
  shows "lease_safe L L'"
  using assms
  by (auto simp: fail_identity_naming_def rbind_eq_Inr same_request_def split: if_splits lease_status.splits
    elim!: settle_terminal_safe batch_then_update)

section \<open>A completion names the brain\<close>

lemma map_of_jput_upd: "map_of (jput k v m) = (map_of m)(k \<mapsto> v)"
  by (induction k v m rule: jput.induct) (auto simp: fun_eq_iff)

lemma jget_frozen_items: "jget (freeze_items m) k = freeze (jget m k)"
  by (induction m) (auto simp: jget_def jget_or_def map_of_jput_upd)

lemma naming_event_Inr:
  "naming_event t payload st b a = Inr e \<Longrightarrow> ev_event_type e = t \<and> ev_brain_id e = b \<and> ev_event_id e = st_event_id st \<and>
     ev_payload e = freeze_items payload"
  by (auto simp: naming_event_def new_event_def event_revalidated_def split: if_splits)

lemma numbered_three: "numbered_events n [x, y, z] = [sequenced x (n + 1), sequenced y (n + 2), sequenced z (n + 3)]"
  by (simp add: numbered_events_def)

lemma reduce_name:
  assumes "reduce_state s e = Inr t" "ev_event_type e = ''identity.named''" "jget (ev_payload e) ''name'' = JStr n"
  shows "bs_name t = Some n" "id_name (bs_identity t) = Some n"
proof -
  from assms(1) obtain v where v: "typed_stage s e v = Inr t" "state_shell t"
    by (auto simp: reduce_state_def reduce_values_def state_from_data_def Let_def rbind_eq_Inr split: if_splits)
  show "bs_name t = Some n" using v(1) assms(2,3) by (auto simp: typed_stage_def name_stage_def split: if_splits)
  then show "id_name (bs_identity t) = Some n" using v(2) by (simp add: state_shell_def identity_matches_brain_def)
qed

lemma sequence_events_valid: "sequence_events b n s es = Inr (ps, t) \<Longrightarrow> list_all valid_event ps"
  by (induction es arbitrary: n s ps) (fastforce simp: rbind_eq_Inr split: if_splits)+

lemma completion_events_Inr:
  assumes "completion_events c i now sts b a = Inr es"
  obtains x y z where "es = [x, y, z]" "ev_event_type x = ''cognition.completed''" "ev_event_type y = ''c1.deliberated''"
    "ev_event_type z = ''identity.named''" "jget (ev_payload y) ''source_event_id'' = JStr (ev_event_id x)"
    "jget (ev_payload z) ''source_event_id'' = JStr (ev_event_id y)" "jget (ev_payload z) ''name'' = JStr (ic_name c)"
    "jget (ev_payload x) ''choice_fingerprint'' = JStr (choice_fingerprint c)"
    "\<forall>e \<in> {x, y, z}. ev_brain_id e = b \<and> jget (ev_payload e) ''lease_id'' = JStr i"
  using assms unfolding completion_events_def
  by (auto simp: rbind_eq_Inr jget_frozen_items jget_def jget_or_def split: prod.splits dest!: naming_event_Inr)

lemma completed_Inr:
  assumes "complete_identity_naming P i c s a now sts L = Inr ((Completed, Some t), L')"
  obtains row where "valid_choice P c" "a = bs_brain_id s" "is_uuid4 i" "lookup il_lease_id (db_identity_leases L) i = Some row"
    "\<exists>st. status_from_row P row = Inr st" "il_status row = Pending" "il_brain_id row = bs_brain_id s"
    "il_requested_at row \<le> now" "now < il_expires_at row"
    "id_name (bs_identity s) = None" "accept_name P c i now sts s a L = Inr ((Completed, Some t), L')"
proof -
  from assms obtain row st where r: "valid_choice P c" "a = bs_brain_id s" "is_uuid4 i"
    "lookup il_lease_id (db_identity_leases L) i = Some row" "status_from_row P row = Inr st" "ns_status st = Pending"
    "ns_brain_id st = bs_brain_id s" "ns_requested_at st \<le> now" "now < ns_expires_at st"
    "id_name (bs_identity s) = None" "accept_name P c i now sts s a L = Inr ((Completed, Some t), L')"
    unfolding complete_identity_naming_def choice_revalidated_def naming_actor_def identity_lease_row_def
    by (auto simp: rbind_eq_Inr settle_terminal_def refuse_name_def state_revalidated_def of_option_def
      split: if_splits lease_status.splits option.splits)
  moreover have "ns_status st = il_status row" "ns_brain_id st = il_brain_id row"
      "ns_requested_at st = il_requested_at row" "ns_expires_at st = il_expires_at row"
    using r(5) by (auto simp: status_from_row_def Let_def rbind_eq_Inr split: if_splits)
  ultimately show ?thesis by (intro that [of row]) auto
qed

lemma accept_Inr:
  assumes "accept_name P c i now sts s a L = Inr ((x, t'), L')"
  obtains es ps t M N where "completion_events c i now sts (bs_brain_id s) a = Inr es"
    "insert_batch s es L = Inr ((ps, t), M)" "t' = Some t"
    "record_identity_name P (bs_brain_id s) (JStr (ic_name c)) (ev_event_id (last ps)) M = Inr N"
    "update_lease i (\<lambda>r. r\<lparr>il_status := Completed, il_choice_fingerprint := Some (choice_fingerprint c),
         il_choice_json := Some (choice_text c), il_terminal_event_id := Some (ev_event_id (last ps)),
         il_terminal_at := Some now\<rparr>) ''completed identity naming result was not persisted'' N = Inr L'"
  using assms by (auto simp: accept_name_def rbind_eq_Inr)

lemma recorded_name:
  assumes "record_identity_name P b (JStr n) src L = Inr L'"
  shows "db_identity_leases L' = db_identity_leases L"
    "\<exists>r. lookup nr_brain_id (db_names L') b = Some r \<and> nr_display_name r = n \<and> nr_source_event_id r = src"
proof -
  from assms obtain r where r: "L' = L\<lparr>db_names := put_last nr_brain_id (db_names L) r\<rparr>" "nr_brain_id r = b"
    "nr_display_name r = n" "nr_source_event_id r = src"
    by (auto simp: record_identity_name_def rbind_eq_Inr split: if_splits)
  then show "db_identity_leases L' = db_identity_leases L" by simp
  show "\<exists>r. lookup nr_brain_id (db_names L') b = Some r \<and> nr_display_name r = n \<and> nr_source_event_id r = src"
    using put_last_same [of nr_brain_id "db_names L" r] r by auto
qed

lemma updated_lease:
  assumes "update_lease i f lost L = Inr L'" "\<And>r. il_lease_id (f r) = il_lease_id r"
  obtains r where "lookup il_lease_id (db_identity_leases L) i = Some r" "lookup il_lease_id (db_identity_leases L') i = Some (f r)"
    "db_names L' = db_names L" "log_frame L L'"
proof -
  from update_lease_Inr [OF assms(1)] obtain r where r: "lookup il_lease_id (db_identity_leases L) i = Some r"
    "L' = L\<lparr>db_identity_leases := update_rows il_lease_id i f (db_identity_leases L)\<rparr>" by blast
  with update_rows_lookup [of il_lease_id f, OF assms(2)] that [of r] show ?thesis by simp
qed

text \<open>
  C19. A completed naming is three events on the brain's own history, each citing the one before: the
  completed cognition with the fingerprint of the choice, the deliberation, the name. The state the
  operation returns is the replay of the extended ledger and carries the chosen name in both its places;
  the registry holds the name under the last event; the lease is completed with it, inside its time; and
  no other brain's history has changed. Asked of the JSON reader: the three events read back.
\<close>

theorem completion_names_brain:
  assumes "ledger_ok P L" "full_replay P L (bs_brain_id s) None = Inr s"
    and "complete_identity_naming P i c s a now sts L = Inr ((Completed, Some t), L')"
    and "\<And>es. completion_events c i now sts (bs_brain_id s) a = Inr es \<Longrightarrow>
      list_all (reads_event P) (numbered_events (bs_last_sequence s) es)"
  shows "\<exists>completed deliberated named row r.
    history L' (bs_brain_id s) = history L (bs_brain_id s) @ map row_of [completed, deliberated, named] \<and>
    ev_event_type completed = ''cognition.completed'' \<and> ev_event_type deliberated = ''c1.deliberated'' \<and>
    ev_event_type named = ''identity.named'' \<and>
    jget (ev_payload completed) ''choice_fingerprint'' = JStr (choice_fingerprint c) \<and>
    jget (ev_payload deliberated) ''source_event_id'' = JStr (ev_event_id completed) \<and>
    jget (ev_payload named) ''source_event_id'' = JStr (ev_event_id deliberated) \<and>
    ledger_ok P L' \<and> full_replay P L' (bs_brain_id s) None = Inr t \<and>
    id_name (bs_identity t) = Some (ic_name c) \<and> bs_name t = Some (ic_name c) \<and>
    lookup nr_brain_id (db_names L') (bs_brain_id s) = Some r \<and> nr_display_name r = ic_name c \<and>
    nr_source_event_id r = ev_event_id named \<and>
    lookup il_lease_id (db_identity_leases L') i = Some row \<and> il_status row = Completed \<and>
    il_terminal_event_id row = Some (ev_event_id named) \<and> il_requested_at row \<le> now \<and> now < il_expires_at row \<and>
    (\<forall>b. b \<noteq> bs_brain_id s \<longrightarrow> history L' b = history L b)"
proof -
  let ?b = "bs_brain_id s"
  obtain row where row: "lookup il_lease_id (db_identity_leases L) i = Some row" "il_requested_at row \<le> now"
    "now < il_expires_at row" "accept_name P c i now sts s a L = Inr ((Completed, Some t), L')"
    using completed_Inr [OF assms(3)] by metis
  obtain es ps M N where q: "completion_events c i now sts ?b a = Inr es" "insert_batch s es L = Inr ((ps, t), M)"
    "record_identity_name P ?b (JStr (ic_name c)) (ev_event_id (last ps)) M = Inr N"
    "update_lease i (\<lambda>r. r\<lparr>il_status := Completed, il_choice_fingerprint := Some (choice_fingerprint c),
         il_choice_json := Some (choice_text c), il_terminal_event_id := Some (ev_event_id (last ps)),
         il_terminal_at := Some now\<rparr>) ''completed identity naming result was not persisted'' N = Inr L'"
    by (rule accept_Inr [OF row(4)]) auto
  obtain x y z where e: "es = [x, y, z]" "ev_event_type x = ''cognition.completed''" "ev_event_type y = ''c1.deliberated''"
    "ev_event_type z = ''identity.named''" "jget (ev_payload y) ''source_event_id'' = JStr (ev_event_id x)"
    "jget (ev_payload z) ''source_event_id'' = JStr (ev_event_id y)" "jget (ev_payload z) ''name'' = JStr (ic_name c)"
    "jget (ev_payload x) ''choice_fingerprint'' = JStr (choice_fingerprint c)"
    by (rule completion_events_Inr [OF q(1)])
  have seq: "sequence_events ?b (bs_last_sequence s + 1) s es = Inr (ps, t)"
    using q(2) by (auto simp: insert_batch_def Let_def rbind_eq_Inr split: if_splits)
  have ps: "ps = numbered_events (bs_last_sequence s) es" using sequence_events_numbered [OF seq] by simp
  note adv = insert_batch_advances [OF assms(1) q(2) assms(4) [OF q(1), folded ps]]
  let ?n = "bs_last_sequence s"
  have three: "ps = [sequenced x (?n + 1), sequenced y (?n + 2), sequenced z (?n + 3)]" using ps e(1) numbered_three by simp
  from seq three obtain u where u: "reduce_state u (sequenced z (?n + 3)) = Inr t"
    by (auto simp: e(1) rbind_eq_Inr split: if_splits)
  note named = reduce_name [OF u, simplified, OF e(4,7)]
  have frames: "log_frame M L'" using record_identity_name_frame [OF q(3)] update_lease_frame [OF q(4)] log_frame_trans by blast
  have adv': "advances P ?b s L t L'" by (rule advances_frame [OF adv(1) frames])
  obtain r where r: "lookup nr_brain_id (db_names N) ?b = Some r" "nr_display_name r = ic_name c"
    "nr_source_event_id r = ev_event_id (last ps)" using recorded_name(2) [OF q(3)] by blast
  obtain r' where r': "lookup il_lease_id (db_identity_leases N) i = Some r'" "db_names L' = db_names N"
    "lookup il_lease_id (db_identity_leases L') i = Some (r'\<lparr>il_status := Completed, il_choice_fingerprint := Some (choice_fingerprint c),
         il_choice_json := Some (choice_text c), il_terminal_event_id := Some (ev_event_id (last ps)), il_terminal_at := Some now\<rparr>)"
    by (rule updated_lease [OF q(4)]) auto
  have "r' = row" using r'(1) row(1) recorded_name(1) [OF q(3)] adv(2) by simp
  then show ?thesis
    using three e(2-8) named adv(4) adv' advances_replay [OF assms(1,2) adv'] advances_ok [OF adv'] r r' row(2,3) log_frame_history [OF frames]
    by (intro exI [of _ "sequenced x (?n + 1)"] exI [of _ "sequenced y (?n + 2)"] exI [of _ "sequenced z (?n + 3)"])
      (simp add: advances_def)
qed

section \<open>A live lease completes\<close>

lemma numbered_Cons: "numbered_events n (e # es) = sequenced e (n + 1) # numbered_events (n + 1) es"
  by (auto simp: numbered_events_def enumerate_Suc_eq algebra_simps)

lemma reduce_named:
  assumes "brain_ok s" "valid_event e" "event_admitted s e = Inr ()" "ev_event_type e = ''identity.named''"
    and n: "jget (ev_payload e) ''name'' = JStr n" "\<not> blank n" "length n \<le> 160"
  shows "\<exists>s'. reduce_state s e = Inr s' \<and> brain_ok s'"
proof -
  let ?i = "(bs_identity s)\<lparr>id_name := Some n\<rparr>" and ?t = "is_authorized (bs_identity s) (ev_actor_id e) (ev_adapter_id e)"
  have "valid_identity (bs_identity s)" using assms(1) by (simp add: brain_ok_def consistent_def identity_ok_def)
  then have i: "reduce_identity (bs_identity s) e = Inr ?i"
    using assms(4) n valid_identity_rename [of _ "Some n"] by (simp add: reduce_identity_def)
  have "length (bs_action_records s) \<le> MAX_ACTION_RECORDS"
    using assms(1) all_countedD [of s WActions] by (simp add: brain_ok_def consistent_def counted_def Let_def)
  then have q: "reduce_personality (bs_personality s) e (bs_logical_clock s) = Inr (bs_personality s)"
    "reduce_actions (bs_action_records s) e ?t = Inr (bs_action_records s, [])"
    "bound_actions (bs_action_records s) = Inr (None, bs_action_records s)"
    "reduce_world (bs_world s) e ?t [] = Inr (bs_world s)"
    "reduce_workspace s e = Inr (bs_workspace s)" "reduce_memory s e = Inr (bs_memories s)"
    using assms(4)
    by (auto simp: reduce_personality_def reduce_actions_def action_lifecycle_events_def bound_actions_def
      reduce_world_def event_layer_def reduce_workspace_def reduce_memory_def)
  from stages_prepare [OF assms(1-3) i q refl] obtain v where v: "prepared s e v" "reduce_values s e = typed_stage s e v" by blast
  define v' where "v' = v\<lparr>bs_name := Some n\<rparr>"
  have st: "name_stage e v = Inr v'" using assms(4) n unfolding name_stage_def by (simp add: v'_def)
  have "brain_ok v'" using name_stage_ok [OF st v(1)] assms(4) n by (simp add: name_fits_def)
  then show ?thesis using reduce_succeeds [OF assms(1-3)] v(2) assms(4) st by (auto simp: typed_stage_def)
qed

lemma jput_values: "list_all (\<lambda>p. Q (snd p)) m \<Longrightarrow> Q v \<Longrightarrow> list_all (\<lambda>p. Q (snd p)) (jput k v m)"
  by (induction k v m rule: jput.induct) auto

lemma frozen_items: "list_all (\<lambda>p. frozen (snd p)) m \<Longrightarrow> frozen (JObj (freeze_items m))"
proof (induction m)
  case (Cons p m)
  obtain k v where p: "p = (k, v)" by (cases p)
  with Cons have "frozen v" "list_all (\<lambda>p. frozen (snd p)) (freeze_items m)" by simp_all
  then show ?case using jput_values [of frozen "freeze_items m" "freeze v" k] sorted_keys_freeze_items [of "p # m"]
    by (simp add: p freeze_frozen)
qed simp

lemma naming_event_exists:
  assumes "brain_ok s" "stamp_ok st" "is_uuid4 a" "valid_event_type t" "frozen (JObj (freeze_items payload))"
    and b: "b = bs_brain_id s" "n = bs_last_sequence s + 1"
  obtains e where "naming_event t payload st b a = Inr e" "ev_event_type e = t" "ev_payload e = freeze_items payload"
    "ev_event_id e = st_event_id st" "ev_brain_id e = b" "ev_sequence e = None" "valid_event (sequenced e n)"
    "event_admitted s (sequenced e n) = Inr ()"
proof -
  define e where "e = \<lparr>ev_schema_version = 1, ev_event_id = st_event_id st, ev_event_type = t,
    ev_brain_id = b, ev_sequence = None, ev_wall_time = st_wall_time st,
    ev_monotonic_ns = st_monotonic_ns st, ev_actor_id = a, ev_adapter_id = Some IDENTITY_ADAPTER_ID, ev_session_id = None,
    ev_turn_id = None, ev_action_id = None, ev_causation_id = None, ev_correlation_id = None, ev_payload = freeze_items payload\<rparr>"
  have s: "is_uuid4 b" "0 \<le> bs_last_sequence s"
    using brain_ok_valid [OF assms(1)] b by (simp_all add: valid_state_def valid_parts_def state_shell_def)
  have "valid_provenance (Some IDENTITY_ADAPTER_ID)" by code_simp
  then have v: "valid_event e"
    using assms s by (simp add: e_def valid_event_def EVENT_SCHEMA_VERSION_def stamp_ok_def) (simp add: valid_provenance_def)
  show thesis
  proof
    show "naming_event t payload st b a = Inr e"
      using v by (simp add: naming_event_def new_event_def no_provenance_def e_def EVENT_SCHEMA_VERSION_def event_revalidated_def)
    show "valid_event (sequenced e n)" using v s(2) b by (simp add: sequenced_def valid_event_sequenced)
    show "event_admitted s (sequenced e n) = Inr ()" using b by (simp add: event_admitted_def sequenced_def e_def)
  qed (simp_all add: e_def)
qed

lemma fresh_ids_Cons:
  assumes "fresh_ids (e # es) L"
  shows "ev_event_id e \<notin> row_event_id ` set (db_events L)" "fresh_ids es (L\<lparr>db_events := db_events L @ [row_of (sequenced e n)]\<rparr>)"
proof -
  from assms have "ev_event_id x \<noteq> ev_event_id e" if "x \<in> set es" for x
    using imageI [OF that, of ev_event_id] by (auto simp: fresh_ids_def)
  with assms show "ev_event_id e \<notin> row_event_id ` set (db_events L)"
    "fresh_ids es (L\<lparr>db_events := db_events L @ [row_of (sequenced e n)]\<rparr>)"
    by (auto simp: fresh_ids_def row_of_def list_all_iff)
qed

lemma claim_request_exists:
  assumes "brain_ok s" "stamp_ok st" "is_uuid4 a"
  shows "\<exists>e. claim_request s a now i st = Inr e"
proof -
  have t: "valid_event_type ''cognition.requested''" by code_simp
  let ?p = "[(''schema_version'', JInt 1), (''purpose'', JStr IDENTITY_PURPOSE), (''lease_id'', JStr i),
    (''requested_at'', JStr (iso_text now)), (''expires_at'', JStr (iso_text (now + IDENTITY_NAMING_LEASE_SECONDS * 1000000)))]"
  obtain e where "naming_event ''cognition.requested'' ?p st (bs_brain_id s) a = Inr e"
    by (rule naming_event_exists [OF assms t frozen_items refl refl, where payload = ?p]) simp_all
  then show ?thesis by (simp add: claim_request_def)
qed

lemma batch_inserts:
  assumes "db_brains L b \<noteq> None" "\<forall>q \<in> set (db_events L). row_brain_id q = b \<longrightarrow> row_sequence q \<le> n" "0 \<le> n"
    and "list_all (\<lambda>e. ev_brain_id e = b) es" "fresh_ids es L"
  shows "\<exists>L'. rfold (\<lambda>L p. insert_sequenced p L) L (numbered_events n es) = Inr L'"
  using assms
proof (induction es arbitrary: L n)
  case (Cons e es)
  let ?p = "sequenced e (n + 1)"
  let ?M = "L\<lparr>db_events := db_events L @ [row_of ?p]\<rparr>"
  have "row_event_id q \<noteq> ev_event_id e \<and> \<not> (row_brain_id q = b \<and> row_sequence q = n + 1)" if "q \<in> set (db_events L)" for q
    using bspec [OF Cons.prems(2) that] fresh_ids_Cons(1) [OF Cons.prems(5)] that by (auto simp: image_iff)
  with Cons.prems(1,3,4) have "insert_sequenced ?p L = Inr ?M"
    by (auto simp: insert_sequenced_def insert_event_def row_of_def list_ex_iff)
  moreover have "\<exists>L'. rfold (\<lambda>L p. insert_sequenced p L) ?M (numbered_events (n + 1) es) = Inr L'"
    using Cons.prems by (intro Cons.IH fresh_ids_Cons(2)) (auto simp: row_of_def)
  ultimately show ?case by (simp add: numbered_Cons)
qed (simp add: numbered_events_def)

lemma sequence_three:
  assumes "reduce_state s (sequenced x n) = Inr u" "reduce_state u (sequenced y (n + 1)) = Inr v" "reduce_state v (sequenced z (n + 1 + 1)) = Inr t"
    and "list_all (\<lambda>e. ev_brain_id e = b \<and> ev_sequence e = None) [x, y, z]"
    and "valid_event (sequenced x n)" "valid_event (sequenced y (n + 1))" "valid_event (sequenced z (n + 1 + 1))"
  shows "sequence_events b n s [x, y, z] = Inr ([sequenced x n, sequenced y (n + 1), sequenced z (n + 1 + 1)], t)"
  using assms by (simp add: event_revalidated_def)

lemma naming_types:
  "valid_event_type ''cognition.completed''" "valid_event_type ''c1.deliberated''" "valid_event_type ''identity.named''"
  by code_simp+

lemma completion_plan:
  assumes "brain_ok s" "list_all stamp_ok [st1, st2, st3]" "is_uuid4 a" "\<not> blank (ic_name c)" "length (ic_name c) \<le> 160"
  shows "\<exists>es ps t. completion_events c i now (st1, st2, st3) (bs_brain_id s) a = Inr es \<and> length es = 3 \<and>
    sequence_events (bs_brain_id s) (bs_last_sequence s + 1) s es = Inr (ps, t) \<and> brain_ok t \<and>
    map ev_event_id es = map st_event_id [st1, st2, st3] \<and> bs_last_sequence t = bs_last_sequence s + 3"
proof -
  let ?b = "bs_brain_id s" and ?n = "bs_last_sequence s + 1"
  have st: "stamp_ok st1" "stamp_ok st2" "stamp_ok st3" using assms(2) by simp_all
  have step: "bs_brain_id s' = bs_brain_id r \<and> bs_last_sequence s' = m" if "reduce_state r (sequenced e m) = Inr s'" for r e m s'
    using reduce_state_Inr [OF that] by (simp add: log_of_def)
  let ?p1 = "[(''schema_version'', JInt 1), (''purpose'', JStr IDENTITY_PURPOSE), (''lease_id'', JStr i),
    (''choice_fingerprint'', JStr (choice_fingerprint c)), (''structured'', JBool True), (''terminal_at'', JStr (iso_text now))]"
  obtain x where x: "naming_event ''cognition.completed'' ?p1 st1 ?b a = Inr x" "ev_event_type x = ''cognition.completed''"
    "ev_event_id x = st_event_id st1" "ev_brain_id x = ?b" "ev_sequence x = None" "valid_event (sequenced x ?n)"
    "event_admitted s (sequenced x ?n) = Inr ()"
    by (rule naming_event_exists [OF assms(1) st(1) assms(3) naming_types(1) _ refl refl, where payload = ?p1]) (simp_all add: sorted_keys_def)
  obtain u where u: "reduce_state s (sequenced x ?n) = Inr u" "brain_ok u"
    using reduce_untyped [OF assms(1) x(6,7)] x(2) by (auto simp: untyped_events_def)
  let ?p2 = "[(''schema_version'', JInt 1), (''purpose'', JStr IDENTITY_PURPOSE), (''lease_id'', JStr i),
    (''name'', JStr (ic_name c)), (''reason'', JStr (ic_reason c)), (''source_event_id'', JStr (ev_event_id x)),
    (''terminal_at'', JStr (iso_text now))]"
  have b2: "?b = bs_brain_id u" "?n + 1 = bs_last_sequence u + 1" using step [OF u(1)] by simp_all
  obtain y where y: "naming_event ''c1.deliberated'' ?p2 st2 ?b a = Inr y" "ev_event_type y = ''c1.deliberated''"
    "ev_event_id y = st_event_id st2" "ev_brain_id y = ?b" "ev_sequence y = None" "valid_event (sequenced y (?n + 1))"
    "event_admitted u (sequenced y (?n + 1)) = Inr ()"
    by (rule naming_event_exists [OF u(2) st(2) assms(3) naming_types(2) _ b2, where payload = ?p2]) (simp_all add: sorted_keys_def)
  obtain v where v: "reduce_state u (sequenced y (?n + 1)) = Inr v" "brain_ok v"
    using reduce_untyped [OF u(2) y(6,7)] y(2) by (auto simp: untyped_events_def)
  let ?p3 = "[(''schema_version'', JInt 1), (''purpose'', JStr IDENTITY_PURPOSE), (''lease_id'', JStr i),
    (''name'', JStr (ic_name c)), (''reason'', JStr (ic_reason c)), (''source_event_id'', JStr (ev_event_id y)),
    (''terminal_at'', JStr (iso_text now))]"
  have b3: "?b = bs_brain_id v" "?n + 1 + 1 = bs_last_sequence v + 1" using step [OF u(1)] step [OF v(1)] by simp_all
  obtain z where z: "naming_event ''identity.named'' ?p3 st3 ?b a = Inr z" "ev_event_type z = ''identity.named''"
    "ev_payload z = freeze_items ?p3" "ev_event_id z = st_event_id st3" "ev_brain_id z = ?b" "ev_sequence z = None"
    "valid_event (sequenced z (?n + 1 + 1))" "event_admitted v (sequenced z (?n + 1 + 1)) = Inr ()"
    by (rule naming_event_exists [OF v(2) st(3) assms(3) naming_types(3) _ b3, where payload = ?p3]) (simp_all add: sorted_keys_def)
  have "jget (ev_payload (sequenced z (?n + 1 + 1))) ''name'' = JStr (ic_name c)"
    by (simp only: sequenced_simps z(3) jget_frozen_items) (simp add: jget_def jget_or_def)
  with reduce_named [OF v(2) z(7,8)] z(2) assms(4,5) obtain t where
    t: "reduce_state v (sequenced z (?n + 1 + 1)) = Inr t" "brain_ok t" by auto
  have "completion_events c i now (st1, st2, st3) ?b a = Inr [x, y, z]"
    using x(1) y(1) z(1) by (simp add: completion_events_def)
  moreover have "list_all (\<lambda>e. ev_brain_id e = ?b \<and> ev_sequence e = None) [x, y, z]" using x y z by simp
  note sequence_three [OF u(1) v(1) t(1) this x(6) y(6) z(7)]
  ultimately show ?thesis using t step [OF t(1)] x(3) y(3) z(4) by (intro exI conjI) (assumption | simp)+
qed

lemma batch_rows: "rfold (\<lambda>L p. insert_sequenced p L) L ps = Inr L' \<Longrightarrow>
    L' = L\<lparr>db_events := db_events L @ map row_of ps\<rparr>"
proof (induction ps arbitrary: L)
  case (Cons p ps)
  then obtain M where "insert_sequenced p L = Inr M" "L' = M\<lparr>db_events := db_events M @ map row_of ps\<rparr>" by (auto simp: rbind_eq_Inr)
  with insert_sequenced_Inr [of p L M] show ?case by simp
qed simp

lemma row_status: "status_from_row P r = Inr st \<Longrightarrow> ns_status st = il_status r \<and> ns_brain_id st = il_brain_id r \<and>
    ns_lease_id st = il_lease_id r \<and> ns_requested_at st = il_requested_at r \<and> ns_expires_at st = il_expires_at r \<and>
    valid_status st"
  by (auto simp: status_from_row_def Let_def rbind_eq_Inr split: if_splits)

lemma complete_accepts:
  assumes "valid_choice P c" "valid_state s" "is_uuid4 (bs_brain_id s)" "db_brains L (bs_brain_id s) = Some (bs_last_sequence s + 1)"
    and "0 \<le> bs_last_sequence s" "id_name (bs_identity s) = None" "identity_name_normalization_key P (ic_name c) = Inr key"
    and "lookup il_lease_id (db_identity_leases L) i = Some row" "status_from_row P row = Inr st" "il_status row = Pending"
    and "il_brain_id row = bs_brain_id s" "il_requested_at row \<le> now" "now < il_expires_at row" "is_uuid4 i"
    and "\<not> list_ex (\<lambda>r. nr_normalized_name r = key \<and> nr_brain_id r \<noteq> bs_brain_id s) (db_names L)"
  shows "complete_identity_naming P i c s (bs_brain_id s) now sts L = accept_name P c i now sts s (bs_brain_id s) L"
  using assms row_status [OF assms(9)]
  by (simp add: complete_identity_naming_def choice_revalidated_def naming_actor_def state_revalidated_def validate_ok
    identity_lease_row_def require_head_def authoritative_head_def settle_terminal_def)

text \<open>The terminal row of an accepted choice passes the constraints: its event is new, so no other row has it.\<close>

lemma completed_row_stored:
  assumes "leases_ok L" "row \<in> set (db_identity_leases L)" "il_status row = Pending" "log_grows L N" "log_frame N N'"
    "db_identity_leases N' = db_identity_leases L"
    and "e \<in> set (db_events N)" "row_event_id e \<notin> row_event_id ` set (db_events L)"
  shows "\<exists>L'. update_lease (il_lease_id row) (\<lambda>r. r\<lparr>il_status := Completed, il_choice_fingerprint := Some (choice_fingerprint c),
       il_choice_json := Some (choice_text c), il_terminal_event_id := Some (row_event_id e), il_terminal_at := Some now\<rparr>) lost N' = Inr L'"
proof -
  let ?f = "\<lambda>r. r\<lparr>il_status := Completed, il_choice_fingerprint := Some (choice_fingerprint c),
     il_choice_json := Some (choice_text c), il_terminal_event_id := Some (row_event_id e), il_terminal_at := Some now\<rparr>"
  have look: "lookup il_lease_id (db_identity_leases N') (il_lease_id row) = Some row"
    using leases_ok_lookup [OF assms(1,2)] assms(6) by simp
  have row: "row_checks row" "row_refs L row" using assms(1,2) by (auto simp: leases_ok_def)
  have checks: "row_checks (?f row)" using row(1) assms(3) by (simp add: row_checks_def choice_fingerprint_def)
  have "log_grows L N'" using assms(4-6) by (auto simp: log_grows_def log_frame_def)
  from log_grows_refs [OF this row(2)] have refs: "row_refs N' (?f row)"
    using assms(5,7) by (auto simp: row_refs_def log_frame_def list_ex_iff)
  have others: "apart (?f row) q" if q: "q \<in> set (db_identity_leases L)" "il_lease_id q \<noteq> il_lease_id row" for q
  proof -
    have "apart row q" using naming.apart_rows [OF _ assms(2) q(1)] assms(1) q(2) by (simp add: leases_ok_def)
    moreover have "row_refs L q" using assms(1) q(1) by (simp add: leases_ok_def)
    then have "il_terminal_event_id q \<noteq> Some (row_event_id e)" using assms(8) by (auto simp: row_refs_def list_ex_iff) (metis imageI)
    ultimately show ?thesis by (auto simp: apart_def)
  qed
  then have "list_all (apart (?f row)) (filter (\<lambda>q. il_lease_id q \<noteq> il_lease_id row) (db_identity_leases N'))"
    using assms(6) by (simp add: list_all_iff)
  then have "row_keys N' (?f row) (filter (\<lambda>q. il_lease_id q \<noteq> il_lease_id row) (db_identity_leases N'))"
    using refs by (simp add: row_keys_def)
  with look checks assms(3) show ?thesis unfolding update_lease_def by simp
qed

lemma lease_completes:
  assumes "ledger_ok P L" "leases_ok L" "brain_ok s" "db_brains L (bs_brain_id s) = Some (bs_last_sequence s + 1)"
    and "id_name (bs_identity s) = None" "valid_choice P c" "identity_name_normalization_key P (ic_name c) = Inr key"
    and "row \<in> set (db_identity_leases L)" "status_from_row P row = Inr st" "il_status row = Pending"
    and "il_brain_id row = bs_brain_id s" "il_requested_at row \<le> now" "now < il_expires_at row"
    and "list_all stamp_ok [st1, st2, st3]" "distinct (map st_event_id [st1, st2, st3])"
    and "list_all (\<lambda>i. i \<notin> row_event_id ` set (db_events L)) (map st_event_id [st1, st2, st3])"
    and "list_all (\<lambda>r. nr_brain_id r = bs_brain_id s \<or> nr_normalized_name r \<noteq> key \<and> nr_source_event_id r \<noteq> st_event_id st3) (db_names L)"
  shows "\<exists>t L'. complete_identity_naming P (il_lease_id row) c s (bs_brain_id s) now (st1, st2, st3) L =
    Inr ((Completed, Some t), L') \<and> brain_ok t"
proof -
  let ?b = "bs_brain_id s" and ?n = "bs_last_sequence s"
  have c: "\<not> blank (ic_name c)" "length (ic_name c) \<le> 160"
    using assms(6) by (auto simp: valid_choice_def validate_choice_text_def blank_def str_len_def IDENTITY_NAME_MAX_CODEPOINTS_def split: if_splits)
  have b: "is_uuid4 ?b" "0 \<le> ?n" "valid_state s"
    using brain_ok_valid [OF assms(3)] by (simp_all add: valid_state_def valid_parts_def state_shell_def)
  obtain es ps t where e: "completion_events c (il_lease_id row) now (st1, st2, st3) ?b ?b = Inr es"
    "sequence_events ?b (?n + 1) s es = Inr (ps, t)" "brain_ok t"
    "map ev_event_id es = map st_event_id [st1, st2, st3]" "bs_last_sequence t = ?n + 3" "length es = 3"
    using completion_plan [OF assms(3,14) b(1) c] by blast
  note num = sequence_events_numbered [OF e(2)]
  have head: "?n = int (length (history L ?b))" using ledger_okD(3) [OF assms(1,4)] by simp
  let ?M = "L\<lparr>db_brains := (db_brains L)(?b \<mapsto> bs_last_sequence t + 1)\<rparr>"
  have "list_all (\<lambda>i. i \<notin> row_event_id ` set (db_events L)) (map ev_event_id es)" "distinct (map ev_event_id es)"
    unfolding e(4) by (rule assms)+
  then have fresh: "fresh_ids es ?M" "fresh_ids es L" by (simp_all add: fresh_ids_def list.pred_map o_def)
  have old: "\<forall>q \<in> set (db_events ?M). row_brain_id q = ?b \<longrightarrow> row_sequence q \<le> ?n"
    using numbered_bounds [OF ledger_okD(1) [OF assms(1)], of _ ?b] head by (auto simp: history_def)
  obtain N where N: "rfold (\<lambda>L p. insert_sequenced p L) ?M (numbered_events ?n es) = Inr N"
    using batch_inserts [OF _ old b(2) _ fresh(1)] num by (auto simp: list_all_iff)
  have "es \<noteq> []" using e(6) by auto
  with e(2) N assms(4) num have batch: "insert_batch s es L = Inr ((ps, t), N)"
    by (simp add: insert_batch_def)
  have es: "N = L\<lparr>db_brains := (db_brains L)(?b \<mapsto> bs_last_sequence t + 1), db_events := db_events L @ map row_of ps\<rparr>"
    using batch_rows [OF N] num by simp
  have "map ev_event_id ps = map ev_event_id es" using num by (auto simp: numbered_events_def nth_enumerate_eq intro!: nth_equalityI)
  with e(4) have ids: "map ev_event_id ps = [st_event_id st1, st_event_id st2, st_event_id st3]" by simp
  then have last: "ev_event_id (last ps) = st_event_id st3" "ps \<noteq> []" by (auto simp: map_eq_Cons_conv)
  have taken: "\<not> list_ex (\<lambda>r. nr_brain_id r \<noteq> ?b \<and> (nr_normalized_name r = key \<or> nr_source_event_id r = ev_event_id (last ps))) (db_names N)"
    using assms(17) es last(1) by (auto simp: list_all_iff list_ex_iff)
  then obtain N' where N': "record_identity_name P ?b (JStr (ic_name c)) (ev_event_id (last ps)) N = Inr N'"
    using assms(7) unfolding record_identity_name_def by simp
  let ?e = "row_of (last ps)"
  have e': "row_event_id ?e = ev_event_id (last ps)" by (simp add: row_of_def)
  have "?e \<in> set (db_events N)" using es last(2) by simp
  moreover have "row_event_id ?e \<notin> row_event_id ` set (db_events L)" using assms(16) e' last(1) by simp
  moreover have "db_identity_leases N' = db_identity_leases L" using recorded_name(1) [OF N'] es by simp
  ultimately obtain L' where L': "update_lease (il_lease_id row) (\<lambda>r. r\<lparr>il_status := Completed, il_choice_fingerprint := Some (choice_fingerprint c),
       il_choice_json := Some (choice_text c), il_terminal_event_id := Some (row_event_id ?e), il_terminal_at := Some now\<rparr>)
       ''completed identity naming result was not persisted'' N' = Inr L'"
    using completed_row_stored [OF assms(2,8,10) insert_batch_grows [OF batch] record_identity_name_frame [OF N']] by blast
  have "accept_name P c (il_lease_id row) now (st1, st2, st3) s ?b L = Inr ((Completed, Some t), L')"
    using e(1) batch N' L' e' by (simp add: accept_name_def)
  moreover have "complete_identity_naming P (il_lease_id row) c s ?b now (st1, st2, st3) L =
      accept_name P c (il_lease_id row) now (st1, st2, st3) s ?b L"
  proof (rule complete_accepts [OF assms(6) b(3,1) assms(4) b(2) assms(5,7) leases_ok_lookup [OF assms(2,8)] assms(9-13)])
    show "is_uuid4 (il_lease_id row)" using row_status [OF assms(9)] by (auto simp: valid_status_def)
    show "\<not> list_ex (\<lambda>r. nr_normalized_name r = key \<and> nr_brain_id r \<noteq> ?b) (db_names L)"
      using assms(17) by (auto simp: list_all_iff list_ex_iff)
  qed
  ultimately show ?thesis using e(3) by simp
qed

text \<open>
  A live lease can always be completed: on a sound ledger at the head of a consistent unnamed brain, a
  pending lease of the brain that has not expired is completed by any valid choice whose name no other
  brain carries, when the three events have fresh identifiers, and the brain stays consistent.
\<close>

theorem live_lease_completes:
  assumes "ledger_ok P L" "leases_ok L" "brain_ok s" "db_brains L (bs_brain_id s) = Some (bs_last_sequence s + 1)"
    and "id_name (bs_identity s) = None" "valid_choice P c" "identity_name_normalization_key P (ic_name c) = Inr key"
    and "row \<in> set (db_identity_leases L)" "status_from_row P row = Inr st" "il_status row = Pending"
    and "il_brain_id row = bs_brain_id s" "il_requested_at row \<le> now" "now < il_expires_at row"
    and "list_all stamp_ok [st1, st2, st3]" "distinct (map st_event_id [st1, st2, st3])"
    and "list_all (\<lambda>i. i \<notin> row_event_id ` set (db_events L)) (map st_event_id [st1, st2, st3])"
    and "list_all (\<lambda>r. nr_brain_id r = bs_brain_id s \<or> nr_normalized_name r \<noteq> key \<and> nr_source_event_id r \<noteq> st_event_id st3) (db_names L)"
  shows "\<exists>t L'. complete_identity_naming P (il_lease_id row) c s (bs_brain_id s) now (st1, st2, st3) L =
    Inr ((Completed, Some t), L') \<and> brain_ok t"
  by (rule lease_completes [OF assms])

text \<open>A brain with one event and one pending lease, and a choice, for the witnesses.\<close>

definition request_event :: event_envelope where
  "request_event = sample_event ''cognition.requested'' []"

definition pending_lease :: identity_lease_row where
  "pending_lease = \<lparr>il_lease_id = sample_id, il_brain_id = sample_id, il_request_sequence = 1, il_status = Pending,
     il_requested_at = 0, il_expires_at = 120000000, il_request_event_id = sample_id, il_choice_fingerprint = None,
     il_choice_json = None, il_failure_code = None, il_terminal_event_id = None, il_terminal_at = None\<rparr>"

definition leased_db :: database where
  "leased_db = empty_database\<lparr>db_brains := [sample_id \<mapsto> 2],
     db_events := [event_row_of (sequenced request_event 1) 1], db_identity_leases := [pending_lease]\<rparr>"

definition alice_choice :: identity_choice where
  "alice_choice = \<lparr>ic_schema_version = 1, ic_name = ''alice'', ic_reason = ''calm''\<rparr>"

definition naming_platform :: "event_envelope list \<Rightarrow> platform" where
  "naming_platform es = (reader (sequenced request_event 1 # es))\<lparr>pf_parse_choice := \<lambda>_. Some alice_choice\<rparr>"

definition naming_stamps :: "stamp \<times> stamp \<times> stamp" where
  "naming_stamps = (sample_stamp\<lparr>st_event_id := ''22222222-2222-4222-8222-222222222222''\<rparr>,
     sample_stamp\<lparr>st_event_id := ''33333333-3333-4333-8333-333333333333''\<rparr>,
     sample_stamp\<lparr>st_event_id := ''44444444-4444-4444-8444-444444444444''\<rparr>)"

lemma request_event_valid: "valid_event request_event" "valid_event (sequenced request_event 1)"
proof -
  have "valid_event_type ''cognition.requested''" by code_simp
  then show "valid_event request_event" by (simp add: request_event_def sample_event_valid)
  then show "valid_event (sequenced request_event 1)" by (simp add: sequenced_def valid_event_sequenced)
qed

lemma request_decodes: "decode_event (naming_platform es) (event_row_of (sequenced request_event 1) 1) = Inr (sequenced request_event 1)"
  using request_event_valid by (intro decode_row_of) (simp_all add: reads_event_def naming_platform_def reader_def)

lemma leased_ok: "ledger_ok (naming_platform es) leased_db"
proof -
  have "grows empty_database (event_row_of (sequenced request_event 1) 1) leased_db"
    by (simp add: grows_def leased_db_def empty_database_def history_def request_event_def)
  from grows_ok [OF empty_ok this request_decodes] show ?thesis .
qed

lemma leased_leases: "leases_ok leased_db"
  by (simp add: leases_ok_def leased_db_def row_checks_def row_refs_def pending_lease_def request_event_def)

lemma leased_state:
  "\<exists>s. full_replay (naming_platform es) leased_db sample_id None = Inr s \<and> brain_ok s \<and> bs_brain_id s = sample_id \<and>
     bs_last_sequence s = 1 \<and> id_name (bs_identity s) = None"
proof -
  let ?e = "sequenced request_event 1" and ?s = "brain_genesis sample_id"
  have ok: "brain_ok ?s" by (rule brain_genesis_ok) simp
  have adm: "event_admitted ?s ?e = Inr ()" by (simp add: event_admitted_def request_event_def sequenced_def brain_genesis_def)
  obtain s where s: "reduce_state ?s ?e = Inr s" "brain_ok s" "bs_name s = bs_name ?s"
    using reduce_untyped [OF ok request_event_valid(2) adm] by (auto simp: request_event_def untyped_events_def)
  have "bs_brain_id s = sample_id" "bs_last_sequence s = 1" using reduce_state_Inr [OF s(1)] by (simp_all add: log_of_def)
  moreover have "id_name (bs_identity s) = None" using s(2,3) by (simp add: brain_ok_def names_ok_def brain_genesis_def)
  moreover have "history leased_db sample_id = [event_row_of ?e 1]" by (simp add: history_def leased_db_def request_event_def)
  then have "full_replay (naming_platform es) leased_db sample_id None = Inr s"
    using full_replay_all [OF ledger_okD(1) [OF leased_ok], of "naming_platform es" sample_id] s(1) request_decodes
    by (simp add: replay_rows_def)
  ultimately show ?thesis using s(2) by blast
qed

lemma alice_valid: "valid_choice (naming_platform es) alice_choice"
  "identity_name_normalization_key (naming_platform es) (ic_name alice_choice) = Inr ''alice''"
proof -
  have k: "identity_name_normalization_key (naming_platform es) ''alice'' = Inr ''alice''"
    by (simp add: identity_name_normalization_key_def echo_def naming_platform_def reader_def POST_UNICODE_14_RANGES_def)
  then show "identity_name_normalization_key (naming_platform es) (ic_name alice_choice) = Inr ''alice''" by (simp add: alice_choice_def)
  have "py_strip ''alice'' = ''alice''" "py_strip ''calm'' = ''calm''" "utf8_length ''alice'' \<le> IDENTITY_NAME_MAX_UTF8_BYTES"
    "utf8_length ''calm'' \<le> IDENTITY_REASON_MAX_UTF8_BYTES" "list_all (\<lambda>c. \<not> is_noncharacter c) ''alicecalm''"
    "str_len 1 IDENTITY_NAME_MAX_CODEPOINTS ''alice''" "str_len 1 IDENTITY_REASON_MAX_CODEPOINTS ''calm''"
    by code_simp+
  with k show "valid_choice (naming_platform es) alice_choice"
    by (simp add: valid_choice_def alice_choice_def validate_choice_text_def naming_platform_def reader_def echo_def)
qed

lemma pending_reads: "\<exists>st. status_from_row P pending_lease = Inr st"
proof -
  have "valid_status \<lparr>ns_lease_id = sample_id, ns_brain_id = sample_id, ns_state_sequence = 1, ns_status = Pending,
      ns_requested_at = 0, ns_expires_at = 120000000, ns_choice = None, ns_failure_code = None,
      ns_terminal_event_id = None, ns_terminal_at = None\<rparr>" by code_simp
  then show ?thesis by (simp add: status_from_row_def row_choice_def pending_lease_def Let_def)
qed

lemma naming_stamps_ok:
  "list_all stamp_ok [fst naming_stamps, fst (snd naming_stamps), snd (snd naming_stamps)]"
  "distinct (sample_id # map st_event_id [fst naming_stamps, fst (snd naming_stamps), snd (snd naming_stamps)])"
  by code_simp+

lemma leased_completes:
  assumes "brain_ok s" "bs_brain_id s = sample_id" "bs_last_sequence s = 1" "id_name (bs_identity s) = None"
  shows "\<exists>t L'. complete_identity_naming (naming_platform es) sample_id alice_choice s sample_id 1 naming_stamps leased_db =
    Inr ((Completed, Some t), L') \<and> brain_ok t"
proof -
  obtain st where st: "status_from_row (naming_platform es) pending_lease = Inr st" using pending_reads by blast
  have i: "il_lease_id pending_lease = sample_id" by (simp add: pending_lease_def)
  have fresh: "list_all (\<lambda>i. i \<notin> row_event_id ` set (db_events leased_db))
      (map st_event_id [fst naming_stamps, fst (snd naming_stamps), snd (snd naming_stamps)])"
    using naming_stamps_ok(2) by (auto simp: leased_db_def request_event_def)
  show ?thesis
    using lease_completes [OF leased_ok leased_leases assms(1) _ assms(4) alice_valid _ st _ _ _ _ naming_stamps_ok(1) _ fresh, of 1]
      naming_stamps_ok(2) assms(2,3)
    by (simp add: i leased_db_def) (simp add: pending_lease_def empty_database_def)
qed

lemma live_lease_completes_witness:
  "\<exists>s t L'. complete_identity_naming (naming_platform []) sample_id alice_choice s sample_id 1 naming_stamps leased_db =
    Inr ((Completed, Some t), L') \<and> brain_ok t"
proof -
  obtain s where s: "brain_ok s" "bs_brain_id s = sample_id" "bs_last_sequence s = 1" "id_name (bs_identity s) = None"
    using leased_state by blast
  obtain st where st: "status_from_row (naming_platform []) pending_lease = Inr st" using pending_reads by blast
  have i: "il_lease_id pending_lease = sample_id" by (simp add: pending_lease_def)
  have fresh: "list_all (\<lambda>i. i \<notin> row_event_id ` set (db_events leased_db))
      (map st_event_id [fst naming_stamps, fst (snd naming_stamps), snd (snd naming_stamps)])"
    using naming_stamps_ok(2) by (auto simp: leased_db_def request_event_def)
  have "\<exists>t L'. complete_identity_naming (naming_platform []) sample_id alice_choice s sample_id 1 naming_stamps leased_db =
      Inr ((Completed, Some t), L') \<and> brain_ok t"
    using live_lease_completes [OF leased_ok leased_leases s(1) _ s(4) alice_valid _ st _ _ _ _ naming_stamps_ok(1) _ fresh, of 1]
      naming_stamps_ok(2) s(2,3)
    by (simp add: i leased_db_def) (simp add: pending_lease_def empty_database_def)
  then show ?thesis by blast
qed

lemma leased_replay:
  "full_replay (naming_platform es) leased_db sample_id None = reduce_state (brain_genesis sample_id) (sequenced request_event 1)"
proof -
  have "history leased_db sample_id = [event_row_of (sequenced request_event 1) 1]" by (simp add: history_def leased_db_def request_event_def)
  then show ?thesis
    using full_replay_all [OF ledger_okD(1) [OF leased_ok], of "naming_platform es" sample_id] request_decodes [of es]
    by (cases "reduce_state (brain_genesis sample_id) (sequenced request_event 1)") (simp_all add: replay_rows_def)
qed

text \<open>The completed lease of the witnesses, read by a platform that reads its events.\<close>

lemma leased_completion:
  "\<exists>es s t L'. full_replay (naming_platform es) leased_db sample_id None = Inr s \<and> bs_brain_id s = sample_id \<and>
    complete_identity_naming (naming_platform es) sample_id alice_choice s sample_id 1 naming_stamps leased_db = Inr ((Completed, Some t), L') \<and>
    (\<forall>xs. completion_events alice_choice sample_id 1 naming_stamps (bs_brain_id s) sample_id = Inr xs \<longrightarrow>
      list_all (reads_event (naming_platform es)) (numbered_events (bs_last_sequence s) xs))"
proof -
  obtain s where s: "full_replay (naming_platform []) leased_db sample_id None = Inr s" "brain_ok s" "bs_brain_id s = sample_id"
    "bs_last_sequence s = 1" "id_name (bs_identity s) = None" using leased_state by blast
  obtain s1 s2 s3 where st: "naming_stamps = (s1, s2, s3)" using prod_cases3 by blast
  have c: "\<not> blank (ic_name alice_choice)" "length (ic_name alice_choice) \<le> 160"
    by (simp_all add: alice_choice_def blank_Cons py_space_def)
  have ok: "list_all stamp_ok [s1, s2, s3]" "distinct (sample_id # map st_event_id [s1, s2, s3])"
    using naming_stamps_ok unfolding st by simp_all
  from completion_plan [OF s(2) ok(1) sample_id_uuid c, of sample_id 1] obtain xs where
    xs: "completion_events alice_choice sample_id 1 naming_stamps (bs_brain_id s) sample_id = Inr xs"
      "map ev_event_id xs = map st_event_id [s1, s2, s3]" using st by auto
  define es where "es = numbered_events (bs_last_sequence s) xs"
  have "map ev_event_id es = map ev_event_id xs"
    by (rule nth_equalityI) (simp_all add: es_def numbered_events_def nth_enumerate_eq)
  with xs(2) ok(2) have "distinct (map ev_event_id (sequenced request_event 1 # es))"
    by (simp add: request_event_def)
  from reader_reads [OF this] have reads: "list_all (reads_event (naming_platform es)) es"
    by (simp add: naming_platform_def reads_event_def list_all_iff)
  obtain t L' where fin: "complete_identity_naming (naming_platform es) sample_id alice_choice s sample_id 1 naming_stamps leased_db =
    Inr ((Completed, Some t), L')" using leased_completes [OF s(2-5)] by blast
  obtain s' where s': "full_replay (naming_platform es) leased_db sample_id None = Inr s'" using leased_state [of es] by blast
  have "full_replay (naming_platform es) leased_db sample_id None = Inr s" using s(1) leased_replay by simp
  note facts = this s(3) fin reads xs(1)
  show ?thesis
    by (rule exI [of _ es], rule exI [of _ s], rule exI [of _ t], rule exI [of _ L']) (use facts in \<open>simp add: es_def\<close>)
qed

lemma completion_names_brain_witness:
  "\<exists>P s t L'. complete_identity_naming P sample_id alice_choice s sample_id 1 naming_stamps leased_db = Inr ((Completed, Some t), L') \<and>
     bs_name t = Some ''alice'' \<and> length (history L' sample_id) = 4"
proof -
  obtain es s t L' where c: "full_replay (naming_platform es) leased_db sample_id None = Inr s" "bs_brain_id s = sample_id"
    "complete_identity_naming (naming_platform es) sample_id alice_choice s sample_id 1 naming_stamps leased_db = Inr ((Completed, Some t), L')"
    "\<forall>xs. completion_events alice_choice sample_id 1 naming_stamps (bs_brain_id s) sample_id = Inr xs \<longrightarrow>
      list_all (reads_event (naming_platform es)) (numbered_events (bs_last_sequence s) xs)"
    using leased_completion by blast
  have "history leased_db sample_id = [event_row_of (sequenced request_event 1) 1]" by (simp add: history_def leased_db_def request_event_def)
  with completion_names_brain [OF leased_ok c(1) [folded c(2)] c(3) c(4) [rule_format]] c(2)
  have "bs_name t = Some ''alice'' \<and> length (history L' sample_id) = 4" by (auto simp: alice_choice_def)
  with c(3) show ?thesis by blast
qed

text \<open>The row a completion leaves.\<close>

lemma completed_row:
  assumes "complete_identity_naming P i c s a now sts L = Inr ((Completed, Some t), L')"
  obtains row where "lookup il_lease_id (db_identity_leases L') i = Some row" "il_status row = Completed"
    "il_choice_json row = Some (choice_text c)" "il_choice_fingerprint row = Some (choice_fingerprint c)"
    "il_brain_id row = bs_brain_id s" "pf_parse_choice P (choice_text c) = Some c \<Longrightarrow>
      \<exists>st. status_from_row P row = Inr st \<and> ns_choice st = Some c \<and> ns_failure_code st = None"
proof -
  obtain row where row: "valid_choice P c" "lookup il_lease_id (db_identity_leases L) i = Some row"
    "\<exists>st. status_from_row P row = Inr st" "il_status row = Pending" "il_brain_id row = bs_brain_id s"
    "il_requested_at row \<le> now" "now < il_expires_at row" "accept_name P c i now sts s a L = Inr ((Completed, Some t), L')"
    by (rule completed_Inr [OF assms]) auto
  obtain es ps M N where q: "completion_events c i now sts (bs_brain_id s) a = Inr es"
    "insert_batch s es L = Inr ((ps, t), M)"
    "record_identity_name P (bs_brain_id s) (JStr (ic_name c)) (ev_event_id (last ps)) M = Inr N"
    "update_lease i (\<lambda>r. r\<lparr>il_status := Completed, il_choice_fingerprint := Some (choice_fingerprint c),
         il_choice_json := Some (choice_text c), il_terminal_event_id := Some (ev_event_id (last ps)),
         il_terminal_at := Some now\<rparr>) ''completed identity naming result was not persisted'' N = Inr L'"
    by (rule accept_Inr [OF row(8)]) auto
  let ?f = "\<lambda>r. r\<lparr>il_status := Completed, il_choice_fingerprint := Some (choice_fingerprint c),
         il_choice_json := Some (choice_text c), il_terminal_event_id := Some (ev_event_id (last ps)),
         il_terminal_at := Some now\<rparr>"
  have same: "db_identity_leases N = db_identity_leases L"
    using recorded_name(1) [OF q(3)] insert_batch_grows [OF q(2)] by (simp add: log_grows_def)
  obtain r' where "lookup il_lease_id (db_identity_leases N) i = Some r'" "lookup il_lease_id (db_identity_leases L') i = Some (?f r')"
    by (rule updated_lease [OF q(4)]) auto
  with row(2) same have new: "lookup il_lease_id (db_identity_leases L') i = Some (?f row)" by simp
  have seq: "sequence_events (bs_brain_id s) (bs_last_sequence s + 1) s es = Inr (ps, t)" "es \<noteq> []"
    using q(2) by (auto simp: insert_batch_def Let_def rbind_eq_Inr split: if_splits)
  have "ps \<noteq> []" using sequence_events_length [OF seq(1)] seq(2) by auto
  then have id: "is_uuid4 (ev_event_id (last ps))"
    using sequence_events_valid [OF seq(1)] by (auto simp: list_all_iff dest: valid_event_ids)
  obtain st where st: "status_from_row P row = Inr st" using row(3) by blast
  show thesis
  proof (rule that [of "?f row"])
    assume reads: "pf_parse_choice P (choice_text c) = Some c"
    have "row_choice P (?f row) = Inr (Some c)" using reads row(1) by (simp add: row_choice_def choice_revalidated_def)
    moreover from st row(4) have "valid_status st" "ns_failure_code st = None" "il_failure_code row = None"
      "st = st\<lparr>ns_lease_id := il_lease_id row, ns_brain_id := il_brain_id row, ns_state_sequence := il_request_sequence row,
        ns_status := Pending, ns_requested_at := il_requested_at row, ns_expires_at := il_expires_at row\<rparr>"
      by (auto simp: status_from_row_def Let_def rbind_eq_Inr valid_status_def terminal_shape_def split: if_splits)
    ultimately show "\<exists>st. status_from_row P (?f row) = Inr st \<and> ns_choice st = Some c \<and> ns_failure_code st = None"
      using st row(4,6,7) id
      by (auto simp: status_from_row_def Let_def rbind_eq_Inr valid_status_def terminal_shape_def split: if_splits)
  qed (use new row(5) in simp_all)
qed

lemma sequence_events_brain: "sequence_events b n s es = Inr (ps, t) \<Longrightarrow> bs_brain_id t = bs_brain_id s"
  by (induction es arbitrary: n s ps) (fastforce simp: rbind_eq_Inr log_of_def split: if_splits dest: reduce_state_Inr)+

lemma insert_batch_head:
  assumes "insert_batch s es L = Inr ((ps, t), L')" "0 \<le> bs_last_sequence s"
  shows "bs_brain_id t = bs_brain_id s" "authoritative_head L' (bs_brain_id s) = Inr (Some (bs_last_sequence t))"
proof -
  from assms(1) have q: "sequence_events (bs_brain_id s) (bs_last_sequence s + 1) s es = Inr (ps, t)"
    "rfold (\<lambda>L p. insert_sequenced p L) (L\<lparr>db_brains := (db_brains L)(bs_brain_id s \<mapsto> bs_last_sequence t + 1)\<rparr>) ps = Inr L'"
    by (auto simp: insert_batch_def Let_def rbind_eq_Inr split: if_splits)
  show "bs_brain_id t = bs_brain_id s" by (rule sequence_events_brain [OF q(1)])
  show "authoritative_head L' (bs_brain_id s) = Inr (Some (bs_last_sequence t))"
    using batch_rows [OF q(2)] sequence_events_length [OF q(1)] assms(2) by (simp add: authoritative_head_def)
qed

lemma frame_head: "log_frame L M \<Longrightarrow> authoritative_head M b = authoritative_head L b"
  by (simp add: authoritative_head_def log_frame_def)

lemma completed_head:
  assumes "complete_identity_naming P i c s a now sts L = Inr ((Completed, Some t), L')"
  shows "bs_brain_id t = bs_brain_id s" "authoritative_head L' (bs_brain_id s) = Inr (Some (bs_last_sequence t))"
proof -
  have "valid_state s" using assms by (auto simp: complete_identity_naming_def naming_actor_def state_revalidated_def rbind_eq_Inr split: if_splits)
  then have n: "0 \<le> bs_last_sequence s" by (simp add: valid_state_def state_shell_def)
  have "accept_name P c i now sts s a L = Inr ((Completed, Some t), L')" by (rule completed_Inr [OF assms])
  from accept_Inr [OF this] obtain es ps t' M N f lost where q: "insert_batch s es L = Inr ((ps, t'), M)"
    "Some t = Some t'" "record_identity_name P (bs_brain_id s) (JStr (ic_name c)) (ev_event_id (last ps)) M = Inr N"
    "update_lease i f lost N = Inr L'" by metis
  have "log_frame M L'" using record_identity_name_frame [OF q(3)] update_lease_frame [OF q(4)] log_frame_trans by blast
  with insert_batch_head [OF q(1) n] q(2) show "bs_brain_id t = bs_brain_id s"
    "authoritative_head L' (bs_brain_id s) = Inr (Some (bs_last_sequence t))" by (simp_all add: frame_head)
qed

section \<open>Runs of the naming operations\<close>

lemma log_grows_refl [simp]: "log_grows L L"
  by (simp add: log_grows_def)

lemma log_grows_trans: "log_grows L M \<Longrightarrow> log_grows M N \<Longrightarrow> log_grows L N"
  by (auto simp: log_grows_def)

lemma register_grows: "register_event P e L = Inr L' \<Longrightarrow> log_grows L L'"
proof -
  assume "register_event P e L = Inr L'"
  then obtain M where m: "M = L \<or> record_identity_name P (ev_brain_id e) (jget (ev_payload e) ''name'') (ev_event_id e) L = Inr M"
    "L' = M \<or> record_gap_observability (ev_brain_id e) M = Inr L'"
    by (auto simp: register_event_def rbind_eq_Inr split: if_splits)
  have "log_grows L M" using m(1) record_name_grows log_grows_refl by blast
  moreover from m(2) have "log_grows M L'" by (auto simp: record_gap_observability_def rbind_eq_Inr log_grows_def)
  ultimately show ?thesis by (rule log_grows_trans)
qed

lemma append_grows:
  assumes "append_event P e expected L = Inr (r, L')"
  shows "log_grows L L'"
proof -
  have ensure: "log_grows L (ensure_observability_row b (ensure_brain_row b L))" for b
    by (auto simp: ensure_observability_row_def ensure_brain_row_def log_grows_def split: option.splits)
  let ?b = "ev_brain_id e" and ?M = "ensure_observability_row (ev_brain_id e) (ensure_brain_row (ev_brain_id e) L)"
  from assms consider "L' = L"
    | stored n N where "insert_event (event_row_of stored n) (?M\<lparr>db_brains := (db_brains ?M)(?b \<mapsto> n + 1)\<rparr>) = Inr N"
        "register_event P stored N = Inr L'"
    by (auto simp: append_event_def append_new_def Let_def rbind_eq_Inr split: list.splits if_splits)
  then show ?thesis
  proof cases
    case (2 stored n N)
    have "log_grows ?M N" using insert_event_Inr [OF 2(1)] by (auto simp: log_grows_def)
    with ensure [of ?b] register_grows [OF 2(2)] show ?thesis by (blast intro: log_grows_trans)
  qed (simp add: log_grows_def)
qed

text \<open>
  What may happen to the database between two looks at a lease: claims, completions and failures by any
  caller with any state and clock, and appends of events.
\<close>

inductive naming_step :: "platform \<Rightarrow> database \<Rightarrow> database \<Rightarrow> bool" for P where
  claimed: "claim_identity_naming P s a now i st L = Inr (r, L') \<Longrightarrow> naming_step P L L'"
| completed: "complete_identity_naming P i c s a now sts L = Inr (r, L') \<Longrightarrow> naming_step P L L'"
| failed: "fail_identity_naming P i code s a now st L = Inr (r, L') \<Longrightarrow> naming_step P L L'"
| logged: "append_event P e expected L = Inr (r, L') \<Longrightarrow> naming_step P L L'"

lemma naming_step_safe: "naming_step P L L' \<Longrightarrow> lease_safe L L'"
  by (induction rule: naming_step.induct)
    (auto dest: claim_safe complete_safe fail_safe append_grows [THEN lease_safe_grows])

lemma naming_run_safe: "(naming_step P)\<^sup>*\<^sup>* L L' \<Longrightarrow> lease_safe L L'"
  by (induction rule: rtranclp_induct) (auto intro: lease_safe_trans naming_step_safe)

text \<open>
  C20. The leases of identity naming are settled once. Whatever claims, completions, failures and appends
  follow each other, in any order and from any callers, a brain never has more than one pending lease, no
  lease disappears or changes what was requested, a settled lease keeps its status, choice, failure and
  terminal event for ever, and two leases never share a terminal event.
\<close>

theorem naming_leases_final:
  assumes "leases_ok L" "(naming_step P)\<^sup>*\<^sup>* L L'"
  shows "leases_ok L' \<and>
    (\<forall>b. length (filter (\<lambda>r. il_brain_id r = b \<and> il_status r = Pending) (db_identity_leases L')) \<le> 1) \<and>
    (\<forall>r \<in> set (db_identity_leases L). \<exists>r' \<in> set (db_identity_leases L'). same_request r r' \<and> (il_status r \<noteq> Pending \<longrightarrow> r' = r)) \<and>
    (\<forall>r \<in> set (db_identity_leases L'). \<forall>q \<in> set (db_identity_leases L'). il_terminal_event_id r \<noteq> None \<longrightarrow>
      il_terminal_event_id q = il_terminal_event_id r \<longrightarrow> q = r)"
proof -
  have safe: "leases_ok L'" "leases_move L L'" using naming_run_safe [OF assms(2)] assms(1) by (simp_all add: lease_safe_def)
  then have apart: "sorted_wrt apart (db_identity_leases L')" by (simp add: leases_ok_def)
  have kept: "\<exists>r' \<in> set (db_identity_leases L'). same_request r r' \<and> (il_status r \<noteq> Pending \<longrightarrow> r' = r)"
    if r: "r \<in> set (db_identity_leases L)" for r
  proof -
    obtain r' where "r' \<in> set (db_identity_leases L')" "same_request r r'" "il_status r \<noteq> Pending \<Longrightarrow> r' = r"
      by (rule naming.moved_row [OF safe(2) r]) auto
    then show ?thesis by blast
  qed
  with safe naming.one_pending [OF apart] naming.terminal_unique [OF apart] show ?thesis by blast
qed

lemma naming_leases_final_witness:
  "\<exists>P L'. (naming_step P)\<^sup>*\<^sup>* leased_db L' \<and> leases_ok L' \<and>
     (\<exists>r' \<in> set (db_identity_leases L'). same_request pending_lease r' \<and> il_status r' = Completed)"
proof -
  obtain s where s: "brain_ok s" "bs_brain_id s = sample_id" "bs_last_sequence s = 1" "id_name (bs_identity s) = None"
    using leased_state by blast
  obtain t L' where c: "complete_identity_naming (naming_platform []) sample_id alice_choice s sample_id 1 naming_stamps leased_db =
    Inr ((Completed, Some t), L')" using leased_completes [OF s] by blast
  have run: "(naming_step (naming_platform []))\<^sup>*\<^sup>* leased_db L'" using naming_step.completed [OF c] by blast
  obtain row where row: "lookup il_lease_id (db_identity_leases L') sample_id = Some row" "il_status row = Completed"
    by (rule completed_row [OF c]) auto
  have "pending_lease \<in> set (db_identity_leases leased_db)" "il_lease_id pending_lease = sample_id"
    by (simp_all add: leased_db_def pending_lease_def)
  with naming_leases_final [OF leased_leases run] obtain r' where
    r': "leases_ok L'" "r' \<in> set (db_identity_leases L')" "same_request pending_lease r'" "il_lease_id r' = sample_id"
    unfolding same_request_def by (metis (no_types, lifting))
  with leases_ok_lookup [OF r'(1,2)] row have "il_status r' = Completed" by simp
  with run r' show ?thesis by blast
qed

text \<open>A completed lease answers every later caller from its row.\<close>

lemma completed_answers:
  assumes "lookup il_lease_id (db_identity_leases L) i = Some row" "status_from_row P row = Inr st" "il_status row = Completed"
    and "ns_choice st = Some c" "il_brain_id row = bs_brain_id s" "is_uuid4 i" "valid_state s" "is_uuid4 (bs_brain_id s)"
    and "authoritative_head L (bs_brain_id s) = Inr (Some (bs_last_sequence s))"
  shows "valid_choice P c \<Longrightarrow> complete_identity_naming P i c s (bs_brain_id s) now sts L = Inr ((Completed, None), L)"
    "valid_choice P c' \<Longrightarrow> c' \<noteq> c \<Longrightarrow> complete_identity_naming P i c' s (bs_brain_id s) now sts L =
      Inl (IdempotencyConflictError ''identity naming lease has a different completed choice'')"
    "worker_failure_code ''invalid_structured_choice'' code \<Longrightarrow>
      fail_identity_naming P i code s (bs_brain_id s) now st1 L = Inr ((Superseded, None), L)"
  using assms row_status [OF assms(2)]
  by (simp_all add: complete_identity_naming_def fail_identity_naming_def choice_revalidated_def naming_actor_def
    state_revalidated_def validate_ok identity_lease_row_def require_head_def)

text \<open>
  C21. A completion is final and idempotent. After it, whatever claims, completions, failures and appends
  have followed, a caller at the head of the brain that completes the lease with the same choice again is
  told that it is completed and changes nothing; another choice is refused as a conflict; and a worker that
  reports a failure for the lease is told that it was superseded. Asked of the JSON reader: it reads the
  choice back.
\<close>

theorem completion_final:
  assumes "leases_ok L" "complete_identity_naming P i c s a now sts L = Inr ((Completed, Some t), L')"
    and "(naming_step P)\<^sup>*\<^sup>* L' M" "pf_parse_choice P (choice_text c) = Some c"
    and "valid_state u" "bs_brain_id u = bs_brain_id s" "authoritative_head M (bs_brain_id s) = Inr (Some (bs_last_sequence u))"
  shows "complete_identity_naming P i c u (bs_brain_id s) later sts' M = Inr ((Completed, None), M) \<and>
    (valid_choice P c' \<longrightarrow> c' \<noteq> c \<longrightarrow> complete_identity_naming P i c' u (bs_brain_id s) later sts' M =
       Inl (IdempotencyConflictError ''identity naming lease has a different completed choice'')) \<and>
    (worker_failure_code ''invalid_structured_choice'' code \<longrightarrow>
       fail_identity_naming P i code u (bs_brain_id s) later st M = Inr ((Superseded, None), M))"
proof -
  obtain row where row: "lookup il_lease_id (db_identity_leases L') i = Some row" "il_status row = Completed"
    "il_brain_id row = bs_brain_id s" "\<exists>st. status_from_row P row = Inr st \<and> ns_choice st = Some c"
    by (rule completed_row [OF assms(2)]) (use assms(4) in auto)
  then obtain rs where rs: "status_from_row P row = Inr rs" "ns_choice rs = Some c" by blast
  have safe: "leases_ok L'" using complete_safe [OF assms(2)] assms(1) by (simp add: lease_safe_def)
  have run: "leases_ok M" "leases_move L' M" using naming_run_safe [OF assms(3)] safe by (simp_all add: lease_safe_def)
  from lookup_SomeD [OF row(1)] have mem: "row \<in> set (db_identity_leases L')" "il_lease_id row = i" by simp_all
  have "row \<in> set (db_identity_leases M)" by (rule naming.moved_row [OF run(2) mem(1)]) (use row(2) in simp)
  from leases_ok_lookup [OF run(1) this] mem(2) have look: "lookup il_lease_id (db_identity_leases M) i = Some row" by simp
  have ids: "is_uuid4 i" "is_uuid4 (bs_brain_id u)" using row_status [OF rs(1)] row(3) mem(2) assms(6) by (auto simp: valid_status_def)
  have c: "valid_choice P c" by (rule completed_Inr [OF assms(2)])
  note answers = completed_answers [OF look rs(1) row(2) rs(2) _ ids(1) assms(5) ids(2)]
  show ?thesis using answers row(3) assms(6,7) c by simp
qed

lemma completion_final_witness:
  "\<exists>s t L'. complete_identity_naming (naming_platform []) sample_id alice_choice s sample_id 1 naming_stamps leased_db = Inr ((Completed, Some t), L') \<and>
     complete_identity_naming (naming_platform []) sample_id alice_choice t sample_id 2 naming_stamps L' = Inr ((Completed, None), L') \<and>
     fail_identity_naming (naming_platform []) sample_id ''invalid_structured_choice'' t sample_id 2 sample_stamp L' = Inr ((Superseded, None), L')"
proof -
  obtain s where s: "brain_ok s" "bs_brain_id s = sample_id" "bs_last_sequence s = 1" "id_name (bs_identity s) = None"
    using leased_state by blast
  obtain t L' where c: "complete_identity_naming (naming_platform []) sample_id alice_choice s sample_id 1 naming_stamps leased_db =
    Inr ((Completed, Some t), L')" "brain_ok t" using leased_completes [OF s] by blast
  note head = completed_head [OF c(1)]
  have "pf_parse_choice (naming_platform []) (choice_text alice_choice) = Some alice_choice" by (simp add: naming_platform_def)
  from completion_final [OF leased_leases c(1) rtranclp.rtrancl_refl this brain_ok_valid [OF c(2)], of 2 naming_stamps alice_choice
      "''invalid_structured_choice''" sample_stamp] head s(2)
  have "complete_identity_naming (naming_platform []) sample_id alice_choice t sample_id 2 naming_stamps L' = Inr ((Completed, None), L') \<and>
     fail_identity_naming (naming_platform []) sample_id ''invalid_structured_choice'' t sample_id 2 sample_stamp L' = Inr ((Superseded, None), L')"
    by (simp add: worker_failure_code_def)
  with c(1) show ?thesis by blast
qed

end
