(* ===== verification/Guarded.thy ===== *)
theory Guarded imports Leases
begin

text \<open>
  The lease operations of \<^verbatim>\<open>runtime/engine.py\<close>: one ledger transaction on the engine's state under its lock.
  A lost sequence or a database error marks the engine as diverged; a success publishes the successor. The
  locale is the contract between the engine and such a transaction: it starts from the head of the brain,
  it appends what reduces the state to its successor, and a failure has changed nothing. Under it an engine
  stays the replay of the ledger.
\<close>

definition guarded ::
  "string \<Rightarrow> (brain_state \<Rightarrow> database \<Rightarrow> (('a \<times> brain_state option) \<times> database) res) \<Rightarrow> engine \<Rightarrow> database \<Rightarrow> 'a outcome" where
  "guarded lost op E L =
     (if en_diverged E then (Inl (EventConflictError ''engine sequence divergence requires a replayed restart''), E, L)
      else case op (en_state E) L of
        Inl (ExpectedSequenceError _) \<Rightarrow> (Inl (EventConflictError lost), diverge E, L)
      | Inl (SqliteIntegrityError m) \<Rightarrow> (Inl (SqliteIntegrityError m), diverge E, L)
      | Inl err \<Rightarrow> (Inl err, E, L)
      | Inr ((result, successor), L') \<Rightarrow>
          (Inr result, (case successor of None \<Rightarrow> E | Some s \<Rightarrow> publish_state s E), L'))"

definition claim_transaction ::
  "platform \<Rightarrow> string \<Rightarrow> int \<Rightarrow> string \<Rightarrow> stamp \<Rightarrow> brain_state \<Rightarrow> database \<Rightarrow>
    ((identity_lease option \<times> brain_state option) \<times> database) res" where
  "claim_transaction P a now lease_id st s L =
     rbind (claim_identity_naming P s a now lease_id st L) (\<lambda>(r, L'). Inr ((cl_lease r, cl_successor r), L'))"

definition engine_claim_identity_naming ::
  "platform \<Rightarrow> int \<Rightarrow> string \<Rightarrow> stamp \<Rightarrow> engine \<Rightarrow> database \<Rightarrow> identity_lease option outcome" where
  "engine_claim_identity_naming P now lease_id st E L =
     guarded ''engine sequence divergence during identity lease claim''
       (claim_transaction P (en_actor_id E) now lease_id st) E L"

definition engine_complete_identity_naming ::
  "platform \<Rightarrow> string \<Rightarrow> identity_choice \<Rightarrow> int \<Rightarrow> stamp \<times> stamp \<times> stamp \<Rightarrow> engine \<Rightarrow> database \<Rightarrow> lease_status outcome" where
  "engine_complete_identity_naming P i c now sts E L =
     guarded ''engine sequence divergence during identity completion''
       (\<lambda>s L. complete_identity_naming P i c s (en_actor_id E) now sts L) E L"

definition engine_fail_identity_naming ::
  "platform \<Rightarrow> string \<Rightarrow> string \<Rightarrow> int \<Rightarrow> stamp \<Rightarrow> engine \<Rightarrow> database \<Rightarrow> lease_status outcome" where
  "engine_fail_identity_naming P i code now st E L =
     guarded ''engine sequence divergence during identity failure''
       (\<lambda>s L. fail_identity_naming P i code s (en_actor_id E) now st L) E L"

section \<open>The contract\<close>

text \<open>\<open>batches s L\<close> are the event batches the transaction may write from \<open>s\<close> to \<open>L\<close>; the reader is asked to read them.\<close>

definition reads_batches :: "platform \<Rightarrow> (brain_state \<Rightarrow> database \<Rightarrow> event_envelope list set) \<Rightarrow> brain_state \<Rightarrow> database \<Rightarrow> bool" where
  "reads_batches P batches s L \<longleftrightarrow> (\<forall>es \<in> batches s L. list_all (reads_event P) (numbered_events (bs_last_sequence s) es))"

text \<open>
  The engine after an operation: the replay of a prefix of the ledger, to which it has only appended; on
  success the replay of all of it; on a failure neither the ledger nor the state has changed.
\<close>

definition follows :: "platform \<Rightarrow> engine \<Rightarrow> database \<Rightarrow> 'a outcome \<Rightarrow> bool" where
  "follows P E L out \<longleftrightarrow> (case out of (r, E', L') \<Rightarrow> tracks P E' L' \<and> later_ledger P L L' \<and>
     (case r of Inr _ \<Rightarrow> synced P E' L' \<and> \<not> en_diverged E' | Inl _ \<Rightarrow> L' = L \<and> en_state E' = en_state E))"

locale state_transaction =
  fixes P :: platform and op :: "brain_state \<Rightarrow> database \<Rightarrow> (('a \<times> brain_state option) \<times> database) res"
    and batches :: "brain_state \<Rightarrow> database \<Rightarrow> event_envelope list set"
  assumes at_head: "op s L = Inr (r, L') \<Longrightarrow> authoritative_head L (bs_brain_id s) = Inr (Some (bs_last_sequence s))"
    and advance: "op s L = Inr ((x, successor), L') \<Longrightarrow> ledger_ok P L \<Longrightarrow> reads_batches P batches s L \<Longrightarrow>
      advances P (bs_brain_id s) s L (case successor of None \<Rightarrow> s | Some t \<Rightarrow> t) L'"
begin

lemma success:
  assumes "tracks P E L" "reads_batches P batches (en_state E) L" "op (en_state E) L = Inr ((x, successor), L')"
  shows "synced P (case successor of None \<Rightarrow> E | Some t \<Rightarrow> publish_state t E) L' \<and> later_ledger P L L'"
proof -
  let ?s = "en_state E" and ?t = "case successor of None \<Rightarrow> en_state E | Some t \<Rightarrow> t"
  have l: "ledger_ok P L" and id: "bs_brain_id ?s = en_brain_id E" "is_uuid4 (en_brain_id E)"
    using assms(1) tracks_brain by (simp_all add: tracks_def)
  have "bs_last_sequence ?s = int (length (history L (en_brain_id E)))"
    using head_numbered [OF l at_head [OF assms(3)]] id(1) by simp
  with assms(1) have "synced P E L" by (simp add: synced_iff ledger_head_length [OF l])
  then have f: "full_replay P L (en_brain_id E) None = Inr ?s" by (simp add: synced_def)
  note adv = advance [OF assms(3) l assms(2), unfolded id(1)]
  note l' = advances_ok [OF adv] and f' = advances_replay [OF l f adv]
  have "bs_last_sequence ?t = ledger_head L' (en_brain_id E)" by (rule replayed_head [OF l' f'])
  with f' l' id(2) full_replay_head [OF l', of "en_brain_id E"] have "synced P (E\<lparr>en_state := ?t\<rparr>) L'"
    by (simp add: synced_def tracks_def ledger_head_length [OF l'])
  then have "synced P (case successor of None \<Rightarrow> E | Some t \<Rightarrow> publish_state t E) L'"
    by (cases successor) (simp_all add: synced_def tracks_def publish_state_def)
  with advances_later [OF adv] show ?thesis by simp
qed

lemma guarded_follows:
  assumes "tracks P E L" "reads_batches P batches (en_state E) L"
  shows "follows P E L (guarded lost op E L)"
proof (cases "en_diverged E")
  case True
  with assms show ?thesis by (auto simp: follows_def guarded_def tracks_def)
next
  case False
  show ?thesis
  proof (cases "op (en_state E) L")
    case (Inl err)
    with assms False show ?thesis by (cases err) (auto simp: follows_def guarded_def tracks_def)
  next
    case (Inr y)
    obtain x successor M where y: "y = ((x, successor), M)" by (metis prod.exhaust)
    from success [OF assms(1,2) Inr [unfolded y]] Inr y False show ?thesis
      by (cases successor) (auto simp: follows_def guarded_def synced_def)
  qed
qed

lemma stale_diverges:
  assumes "\<not> en_diverged E" "op (en_state E) L = Inl (ExpectedSequenceError m)"
  shows "guarded lost op E L = (Inl (EventConflictError lost), diverge E, L)"
  using assms by (simp add: guarded_def)

end

end
