(* ===== verification/NamingEngine.thy ===== *)
theory NamingEngine imports Naming Guarded
begin

text \<open>
  The three naming operations meet the contract of \<open>state_transaction\<close>, so an engine stays the replay of
  the ledger under them.
\<close>

lemma supersede_frame: "supersede_pending i now q reason src L = Inr L' \<Longrightarrow> log_frame L L'"
  by (auto simp: supersede_pending_def rbind_eq_Inr split: if_splits option.splits elim: update_lease_frame)

lemma settle_pending_frame: "settle_pending P s now L = Inr (live, L') \<Longrightarrow> log_frame L L'"
  by (auto simp: settle_pending_def rbind_eq_Inr split: if_splits option.splits dest: supersede_frame)

lemma require_head_Inr: "require_head s L = Inr () \<longleftrightarrow> authoritative_head L (bs_brain_id s) = Inr (Some (bs_last_sequence s))"
  by (auto simp: require_head_def rbind_eq_Inr split: if_splits)

lemma batch_advances:
  assumes "ledger_ok P L" "log_frame L M" "insert_batch s es M = Inr ((ps, t), N)" "log_frame N L'"
    and "list_all (reads_event P) (numbered_events (bs_last_sequence s) es)"
  shows "advances P (bs_brain_id s) s L t L'"
proof -
  have m: "ledger_ok P M" using log_frame_ok [OF assms(2)] assms(1) by simp
  have "sequence_events (bs_brain_id s) (bs_last_sequence s + 1) s es = Inr (ps, t)"
    using assms(3) by (auto simp: insert_batch_def Let_def rbind_eq_Inr split: if_splits)
  then have "list_all (reads_event P) ps" using sequence_events_numbered assms(5) by fastforce
  from insert_batch_advances(1) [OF m assms(3) this] show ?thesis
    using advances_frame assms(4) advances_from [OF assms(2)] by blast
qed

lemma frame_advances: "ledger_ok P L \<Longrightarrow> log_frame L L' \<Longrightarrow> advances P b s L s L'"
  using advances_frame [OF advances_refl] .

section \<open>Claim\<close>

definition claim_batches :: "string \<Rightarrow> int \<Rightarrow> string \<Rightarrow> stamp \<Rightarrow> brain_state \<Rightarrow> database \<Rightarrow> event_envelope list set" where
  "claim_batches a now i st s L = {[e] | e. claim_request s a now i st = Inr e}"

interpretation claiming: state_transaction P "claim_transaction P a now i st" "claim_batches a now i st" for P a now i st
proof
  fix s L r L'
  assume "claim_transaction P a now i st s L = Inr (r, L')"
  then show "authoritative_head L (bs_brain_id s) = Inr (Some (bs_last_sequence s))"
    by (auto simp: claim_transaction_def claim_identity_naming_def naming_actor_def state_revalidated_def rbind_eq_Inr
      require_head_Inr split: if_splits)
next
  fix s L x successor L'
  assume c: "claim_transaction P a now i st s L = Inr ((x, successor), L')"
    and ok: "ledger_ok P L" and r: "reads_batches P (claim_batches a now i st) s L"
  from c obtain e live M where m: "claim_request s a now i st = Inr e" "settle_pending P s now L = Inr (live, M)"
    "L' = M \<and> successor = None \<or> (\<exists>ps t N q. insert_batch s [e] M = Inr ((ps, t), N) \<and>
      insert_lease q N = Inr L' \<and> successor = Some t)"
    by (auto simp: claim_transaction_def claim_identity_naming_def naming_actor_def state_revalidated_def rbind_eq_Inr Let_def
      split: if_splits) blast
  have "list_all (reads_event P) (numbered_events (bs_last_sequence s) [e])"
    using r m(1) by (auto simp: reads_batches_def claim_batches_def)
  with m(3) show "advances P (bs_brain_id s) s L (case successor of None \<Rightarrow> s | Some t \<Rightarrow> t) L'"
    using frame_advances [OF ok] settle_pending_frame [OF m(2)] batch_advances [OF ok] insert_lease_frame by fastforce
qed

section \<open>Completion and failure\<close>

definition completion_batches :: "identity_choice \<Rightarrow> string \<Rightarrow> int \<Rightarrow> stamp \<times> stamp \<times> stamp \<Rightarrow> string \<Rightarrow> brain_state \<Rightarrow> database \<Rightarrow> event_envelope list set" where
  "completion_batches c i now sts a s L = {es. completion_events c i now sts (bs_brain_id s) a = Inr es} \<union>
     {[e] | e. failure_event [(''failure_code'', JStr ''name_conflict''), (''choice_fingerprint'', JStr (choice_fingerprint c))]
        i now (fst sts) (bs_brain_id s) a = Inr e}"

definition failure_batches :: "string \<Rightarrow> string \<Rightarrow> int \<Rightarrow> stamp \<Rightarrow> string \<Rightarrow> brain_state \<Rightarrow> database \<Rightarrow> event_envelope list set" where
  "failure_batches code i now st a s L = {[e] | e. failure_event [(''failure_code'', JStr code)] i now st (bs_brain_id s) a = Inr e}"

lemma settle_terminal_advances:
  assumes "settle_terminal P status s now live L = Inr ((x, successor), L')" "ledger_ok P L"
    and "live L = Inr ((x, successor), L') \<Longrightarrow> advances P b s L (case successor of None \<Rightarrow> s | Some t \<Rightarrow> t) L'"
  shows "advances P b s L (case successor of None \<Rightarrow> s | Some t \<Rightarrow> t) L'"
  using assms frame_advances [OF assms(2)]
  by (auto simp: settle_terminal_def rbind_eq_Inr split: if_splits dest: supersede_frame)

lemma refuse_advances:
  assumes "refuse_name c i now st s a L = Inr ((x, successor), L')" "ledger_ok P L"
    and "reads_batches P (completion_batches c i now sts a) s L" "fst sts = st"
  shows "advances P (bs_brain_id s) s L (case successor of None \<Rightarrow> s | Some t \<Rightarrow> t) L'"
proof -
  from assms(1) obtain e ps t M f lost where m: "failure_event [(''failure_code'', JStr ''name_conflict''),
      (''choice_fingerprint'', JStr (choice_fingerprint c))] i now st (bs_brain_id s) a = Inr e"
    "insert_batch s [e] L = Inr ((ps, t), M)" "update_lease i f lost M = Inr L'" "successor = Some t"
    by (auto simp: refuse_name_def rbind_eq_Inr)
  have "list_all (reads_event P) (numbered_events (bs_last_sequence s) [e])"
    using assms(3,4) m(1) unfolding reads_batches_def completion_batches_def by blast
  from batch_advances [OF assms(2) log_frame_simps(1) m(2) update_lease_frame [OF m(3)] this] m(4) show ?thesis by simp
qed

lemma accept_advances:
  assumes "accept_name P c i now sts s a L = Inr ((x, successor), L')" "ledger_ok P L"
    and "reads_batches P (completion_batches c i now sts a) s L"
  shows "advances P (bs_brain_id s) s L (case successor of None \<Rightarrow> s | Some t \<Rightarrow> t) L'"
proof -
  from assms(1) obtain es ps t M N f lost n src where m: "completion_events c i now sts (bs_brain_id s) a = Inr es"
    "insert_batch s es L = Inr ((ps, t), M)" "record_identity_name P (bs_brain_id s) n src M = Inr N"
    "update_lease i f lost N = Inr L'" "successor = Some t"
    by (auto simp: accept_name_def rbind_eq_Inr)
  have "list_all (reads_event P) (numbered_events (bs_last_sequence s) es)"
    using assms(3) m(1) unfolding reads_batches_def completion_batches_def by blast
  from batch_advances [OF assms(2) log_frame_simps(1) m(2) log_frame_trans [OF record_identity_name_frame [OF m(3)]
    update_lease_frame [OF m(4)]] this] m(5) show ?thesis by simp
qed

interpretation completing: state_transaction P "\<lambda>s L. complete_identity_naming P i c s a now sts L"
  "completion_batches c i now sts a" for P i c a now sts
proof
  fix s L r L'
  assume "complete_identity_naming P i c s a now sts L = Inr (r, L')"
  then show "authoritative_head L (bs_brain_id s) = Inr (Some (bs_last_sequence s))"
    by (auto simp: complete_identity_naming_def naming_actor_def state_revalidated_def rbind_eq_Inr require_head_Inr split: if_splits)
next
  fix s L x successor L'
  assume c: "complete_identity_naming P i c s a now sts L = Inr ((x, successor), L')"
    and ok: "ledger_ok P L" and r: "reads_batches P (completion_batches c i now sts a) s L"
  from c show "advances P (bs_brain_id s) s L (case successor of None \<Rightarrow> s | Some t \<Rightarrow> t) L'"
    using frame_advances [OF ok log_frame_simps(1)] ok r
    by (auto simp: complete_identity_naming_def naming_actor_def state_revalidated_def choice_revalidated_def rbind_eq_Inr
      split: if_splits lease_status.splits elim!: settle_terminal_advances refuse_advances accept_advances)
qed

interpretation failing: state_transaction P "\<lambda>s L. fail_identity_naming P i code s a now st L"
  "failure_batches code i now st a" for P i code a now st
proof
  fix s L r L'
  assume "fail_identity_naming P i code s a now st L = Inr (r, L')"
  then show "authoritative_head L (bs_brain_id s) = Inr (Some (bs_last_sequence s))"
    by (auto simp: fail_identity_naming_def naming_actor_def state_revalidated_def rbind_eq_Inr require_head_Inr split: if_splits)
next
  fix s L x successor L'
  assume c: "fail_identity_naming P i code s a now st L = Inr ((x, successor), L')"
    and ok: "ledger_ok P L" and r: "reads_batches P (failure_batches code i now st a) s L"
  have live: "advances P (bs_brain_id s) s L t L'"
    if "failure_event [(''failure_code'', JStr code)] i now st (bs_brain_id s) a = Inr e"
      "insert_batch s [e] L = Inr ((ps, t), M)" "update_lease i f lost M = Inr L'" for e ps t M f lost
  proof (rule batch_advances [OF ok log_frame_simps(1) that(2) update_lease_frame [OF that(3)]])
    show "list_all (reads_event P) (numbered_events (bs_last_sequence s) [e])"
      using r that(1) unfolding reads_batches_def failure_batches_def by blast
  qed
  have a: "a = bs_brain_id s" using c
    by (auto simp: fail_identity_naming_def naming_actor_def state_revalidated_def rbind_eq_Inr split: if_splits)
  from c show "advances P (bs_brain_id s) s L (case successor of None \<Rightarrow> s | Some t \<Rightarrow> t) L'"
    using frame_advances [OF ok log_frame_simps(1)] ok live [unfolded a]
    by (auto simp: fail_identity_naming_def naming_actor_def state_revalidated_def rbind_eq_Inr
      split: if_splits lease_status.splits elim!: settle_terminal_advances)
qed

text \<open>
  C22. An engine stays the replay of the ledger under the naming operations. Whoever else has written to the
  ledger before, a claim, a completion or a failure of a lease leaves the engine's state the replay of a
  prefix of the ledger and appends to it alone; when it succeeds, the state is the replay of the whole ledger
  and the engine has not diverged; and when it fails, neither the ledger nor the state has changed. Asked of
  the JSON reader: it reads the events that the operation may write.
\<close>

theorem engine_follows_naming:
  assumes "tracks P E L"
  shows "(reads_batches P (claim_batches (en_actor_id E) now i st) (en_state E) L \<longrightarrow>
      follows P E L (engine_claim_identity_naming P now i st E L)) \<and>
    (reads_batches P (completion_batches c i now sts (en_actor_id E)) (en_state E) L \<longrightarrow>
      follows P E L (engine_complete_identity_naming P i c now sts E L)) \<and>
    (reads_batches P (failure_batches code i now st (en_actor_id E)) (en_state E) L \<longrightarrow>
      follows P E L (engine_fail_identity_naming P i code now st E L))"
  unfolding engine_claim_identity_naming_def engine_complete_identity_naming_def engine_fail_identity_naming_def
  using claiming.guarded_follows [OF assms] completing.guarded_follows [OF assms] failing.guarded_follows [OF assms] by simp

lemma engine_follows_naming_witness:
  "\<exists>P E. engine_claim_identity_naming P 1 sample_id (fst naming_stamps) E leased_db = (Inr None, E, leased_db) \<and>
     synced P E leased_db"
proof -
  let ?st = "fst naming_stamps"
  define es where "es s = (case claim_request s sample_id 1 sample_id ?st of Inl _ \<Rightarrow> [] | Inr e \<Rightarrow> [sequenced e 2])" for s
  obtain s where s: "full_replay (naming_platform []) leased_db sample_id None = Inr s" "brain_ok s" "bs_brain_id s = sample_id"
    "bs_last_sequence s = 1" "id_name (bs_identity s) = None" using leased_state by blast
  let ?P = "naming_platform (es s)" and ?E = "young_engine\<lparr>en_state := s\<rparr>"
  have f: "full_replay ?P leased_db sample_id None = Inr s" using s(1) leased_replay by simp
  have ids: "is_uuid4 sample_id" "valid_state s" using brain_ok_valid [OF s(2)] by simp_all
  have head: "authoritative_head leased_db sample_id = Inr (Some 1)" by (simp add: authoritative_head_def leased_db_def)
  have "tracks ?P ?E leased_db"
    using f full_replay_head [OF leased_ok, of "es s" sample_id] replayed_head [OF leased_ok f] s(4) leased_ok
    by (simp add: tracks_def ids)
  moreover have "reads_batches ?P (claim_batches (en_actor_id ?E) 1 sample_id ?st) (en_state ?E) leased_db"
  proof -
    have "reads_event ?P (sequenced e 2)" if "claim_request s sample_id 1 sample_id ?st = Inr e" for e
    proof -
      have "ev_event_id e = st_event_id ?st" using that naming_event_Inr by (auto simp: claim_request_def)
      then have "distinct (map ev_event_id (sequenced request_event 1 # es s))"
        using naming_stamps_ok(2) that by (simp add: es_def request_event_def)
      from reader_reads [OF this] that show ?thesis by (simp add: naming_platform_def reads_event_def es_def)
    qed
    then show ?thesis using s(4) by (auto simp: reads_batches_def claim_batches_def numbered_events_def)
  qed
  moreover note engine_follows_naming [of ?P ?E leased_db 1 sample_id ?st]
  ultimately have follows: "follows ?P ?E leased_db (engine_claim_identity_naming ?P 1 sample_id ?st ?E leased_db)" by blast
  obtain st where st: "status_from_row ?P pending_lease = Inr st" using pending_reads by blast
  have "stamp_ok ?st" using naming_stamps_ok(1) by simp
  then obtain e where e: "claim_request s sample_id 1 sample_id ?st = Inr e"
    using claim_request_exists [OF s(2) _ ids(1)] by blast
  have "claim_identity_naming ?P s sample_id 1 sample_id ?st leased_db = Inr (\<lparr>cl_lease = None, cl_successor = None\<rparr>, leased_db)"
    using e st row_status [OF st] head s(3-5) ids
    by (simp add: claim_identity_naming_def naming_actor_def state_revalidated_def validate_ok require_head_def settle_pending_def)
      (simp add: leased_db_def pending_lease_def)
  then have "engine_claim_identity_naming ?P 1 sample_id ?st ?E leased_db = (Inr None, ?E, leased_db)"
    by (simp add: engine_claim_identity_naming_def guarded_def claim_transaction_def)
  with follows show ?thesis by (intro exI [of _ ?P] exI [of _ ?E]) (simp add: follows_def)
qed

end
