(* ===== verification/Assessments.thy ===== *)
theory Assessments imports NamingEngine
begin

text \<open>
  Energy assessment: the wire models of \<^verbatim>\<open>protocol/energy.py\<close>, the assessment leases of
  \<^verbatim>\<open>runtime/store.py\<close> from claim to completion, failure or expiry, and the engine operations around them.
  A host model assesses the energy of one pending action at a time; the vector it chooses reaches the brain
  only through an event that cites the completed cognition. The observation models of the bridge are a
  parameter, as are the JSON readers.
\<close>

section \<open>Wire models\<close>

definition ENERGY_ASSESSMENT_LEASE_SECONDS :: int where "ENERGY_ASSESSMENT_LEASE_SECONDS = 120"
definition MAX_ENERGY_ASSESSMENT_INPUT_BYTES :: nat where "MAX_ENERGY_ASSESSMENT_INPUT_BYTES = 262144"

record energy_choice =
  ec_schema_version :: int
  ec_deficits :: jobj
  ec_salience :: rat
  ec_urgency :: rat
  ec_valence :: rat
  ec_arousal :: rat
  ec_control :: rat
  ec_resources :: rat
  ec_cost :: rat
  ec_personality_relevance :: rat
  ec_evidence_basis :: jobj
  ec_unknown_dimensions :: "string list"
  ec_summary :: string

definition bounded_deficits :: "jobj \<Rightarrow> bool" where
  "bounded_deficits m \<longleftrightarrow> length m \<le> 16 \<and> list_all (\<lambda>(k, v). \<not> blank k \<and> length k \<le> 160 \<and>
     (case v of JInt i \<Rightarrow> 0 \<le> i \<and> i \<le> 1 | JFloat q \<Rightarrow> 0 \<le> q \<and> q \<le> 1 | _ \<Rightarrow> False)) m"

definition bounded_evidence :: "jobj \<Rightarrow> bool" where
  "bounded_evidence m \<longleftrightarrow> length m \<le> length ENERGY_DIMENSIONS \<and> list_all (\<lambda>(k, v). k \<in> set ENERGY_DIMENSIONS \<and>
     (case v of JStr s \<Rightarrow> \<not> blank s \<and> s = py_strip s \<and> length s \<le> 512 \<and> utf8_length s \<le> 2048 | _ \<Rightarrow> False)) m"

definition choice_partition :: "energy_choice \<Rightarrow> bool" where
  "choice_partition c \<longleftrightarrow> distinct (ec_unknown_dimensions c) \<and> set (ec_unknown_dimensions c) \<subseteq> set ENERGY_DIMENSIONS \<and>
     fst ` set (ec_evidence_basis c) \<inter> set (ec_unknown_dimensions c) = {} \<and>
     fst ` set (ec_evidence_basis c) \<union> set (ec_unknown_dimensions c) = set ENERGY_DIMENSIONS"

definition valid_energy_choice :: "energy_choice \<Rightarrow> bool" where
  "valid_energy_choice c \<longleftrightarrow> ec_schema_version c = 1 \<and>
     frozen (JObj (ec_deficits c)) \<and> bounded_deficits (ec_deficits c) \<and>
     list_all unit_float [ec_salience c, ec_urgency c, ec_control c, ec_resources c, ec_cost c, ec_personality_relevance c] \<and>
     list_all signed_unit_float [ec_valence c, ec_arousal c] \<and>
     frozen (JObj (ec_evidence_basis c)) \<and> bounded_evidence (ec_evidence_basis c) \<and>
     choice_partition c \<and> str_len 1 512 (ec_summary c)"

text \<open>\<open>model_dump\<close> without the schema version.\<close>

definition choice_payload :: "energy_choice \<Rightarrow> jobj" where
  "choice_payload c =
     [(''deficits'', JObj (ec_deficits c)), (''salience'', JFloat (ec_salience c)), (''urgency'', JFloat (ec_urgency c)),
      (''valence'', JFloat (ec_valence c)), (''arousal'', JFloat (ec_arousal c)), (''control'', JFloat (ec_control c)),
      (''resources'', JFloat (ec_resources c)), (''cost'', JFloat (ec_cost c)),
      (''personality_relevance'', JFloat (ec_personality_relevance c)), (''evidence_basis'', JObj (ec_evidence_basis c)),
      (''unknown_dimensions'', JArr (map JStr (ec_unknown_dimensions c))), (''summary'', JStr (ec_summary c))]"

definition energy_choice_text :: "energy_choice \<Rightarrow> string" where
  "energy_choice_text c = canonical_json (freeze (JObj ((''schema_version'', JInt (ec_schema_version c)) # choice_payload c)))"

record energy_usage =
  eu_input_tokens :: int
  eu_output_tokens :: int
  eu_total_tokens :: int
  eu_cache_read_tokens :: int
  eu_cache_write_tokens :: int
  eu_cost_usd :: "rat option"

record energy_provenance =
  ep_schema_version :: int
  ep_agent_id :: string
  ep_audit :: jobj
  ep_input_sha256 :: string
  ep_model :: string
  ep_prompt_version :: string
  ep_provider :: string
  ep_usage :: energy_usage

definition valid_usage :: "energy_usage \<Rightarrow> bool" where
  "valid_usage u \<longleftrightarrow> 0 \<le> eu_input_tokens u \<and> 0 \<le> eu_output_tokens u \<and> 0 \<le> eu_total_tokens u \<and>
     0 \<le> eu_cache_read_tokens u \<and> 0 \<le> eu_cache_write_tokens u \<and>
     (case eu_cost_usd u of None \<Rightarrow> True | Some q \<Rightarrow> is_f64 q \<and> 0 \<le> q)"

definition bounded_audit :: "jobj \<Rightarrow> bool" where
  "bounded_audit m \<longleftrightarrow> length m \<le> 16 \<and> list_all (\<lambda>(k, v). length k \<le> 160 \<and>
     (case v of JStr s \<Rightarrow> length s \<le> 512 | _ \<Rightarrow> False)) m"

definition valid_energy_provenance :: "energy_provenance \<Rightarrow> bool" where
  "valid_energy_provenance p \<longleftrightarrow> ep_schema_version p = 1 \<and> str_len 1 512 (ep_agent_id p) \<and>
     frozen (JObj (ep_audit p)) \<and> bounded_audit (ep_audit p) \<and> is_sha256 (ep_input_sha256 p) \<and>
     str_len 1 512 (ep_model p) \<and> ep_prompt_version p = ''alice-energy-v1'' \<and> str_len 1 512 (ep_provider p) \<and>
     valid_usage (ep_usage p)"

definition usage_json :: "energy_usage \<Rightarrow> json" where
  "usage_json u = JObj
     [(''input_tokens'', JInt (eu_input_tokens u)), (''output_tokens'', JInt (eu_output_tokens u)),
      (''total_tokens'', JInt (eu_total_tokens u)), (''cache_read_tokens'', JInt (eu_cache_read_tokens u)),
      (''cache_write_tokens'', JInt (eu_cache_write_tokens u)), (''cost_usd'', opt_json JFloat (eu_cost_usd u))]"

definition provenance_payload :: "energy_provenance \<Rightarrow> jobj" where
  "provenance_payload p =
     [(''schema_version'', JInt (ep_schema_version p)), (''agent_id'', JStr (ep_agent_id p)), (''audit'', JObj (ep_audit p)),
      (''input_sha256'', JStr (ep_input_sha256 p)), (''model'', JStr (ep_model p)),
      (''prompt_version'', JStr (ep_prompt_version p)), (''provider'', JStr (ep_provider p)), (''usage'', usage_json (ep_usage p))]"

definition energy_provenance_text :: "energy_provenance \<Rightarrow> string" where
  "energy_provenance_text p = canonical_json (freeze (JObj (provenance_payload p)))"

record energy_lease =
  ea_lease_id :: string
  ea_brain_id :: string
  ea_action_id :: string
  ea_request_event_id :: string
  ea_state_sequence :: int
  ea_expires_at :: int
  ea_assessment_input :: jobj

definition mk_energy_lease :: "energy_lease \<Rightarrow> energy_lease res" where
  "mk_energy_lease l =
     (if is_uuid4 (ea_lease_id l) \<and> is_uuid4 (ea_brain_id l) \<and> is_uuid4 (ea_request_event_id l) \<and>
         \<not> blank (ea_action_id l) \<and> ea_action_id l = py_strip (ea_action_id l) \<and> length (ea_action_id l) \<le> 512 \<and>
         1 \<le> ea_state_sequence l \<and>
         utf8_length (canonical_json (JObj (ea_assessment_input l))) \<le> MAX_ENERGY_ASSESSMENT_INPUT_BYTES
      then Inr l else Inl (ValidationError ''EnergyAssessmentLeaseV1''))"

text \<open>Python's equality of two choices: a deficit may be an integer on one side and a float on the other.\<close>

definition same_choice :: "energy_choice \<Rightarrow> energy_choice \<Rightarrow> bool" where
  "same_choice c d \<longleftrightarrow> map (\<lambda>(k, v). (k, json_number v)) (ec_deficits c) = map (\<lambda>(k, v). (k, json_number v)) (ec_deficits d) \<and>
     c\<lparr>ec_deficits := []\<rparr> = d\<lparr>ec_deficits := []\<rparr>"

section \<open>Readers\<close>

text \<open>
  The library code the leases use: \<open>json.loads\<close>, pydantic's strict readers of the two models, and
  \<open>validate_observation_json\<close>, of which the leases look at the hook and the dumped payload.
\<close>

record energy_reader =
  er_json :: "string \<Rightarrow> json option"
  er_choice :: "string \<Rightarrow> energy_choice option"
  er_provenance :: "string \<Rightarrow> energy_provenance option"
  er_observation :: "json \<Rightarrow> (string \<times> jobj) option"

section \<open>The status of a lease\<close>

record energy_status_row =
  es_lease_id :: string
  es_brain_id :: string
  es_action_id :: string
  es_action_request_event_id :: string
  es_state_sequence :: int
  es_request_event_id :: string
  es_status :: lease_status
  es_requested_at :: int
  es_expires_at :: int
  es_input_fingerprint :: string
  es_assessment_input :: jobj
  es_choice :: "energy_choice option"
  es_provenance :: "energy_provenance option"
  es_failure_code :: "string option"
  es_terminal_event_id :: "string option"
  es_terminal_at :: "int option"

definition row_input :: "energy_reader \<Rightarrow> energy_lease_row \<Rightarrow> jobj option" where
  "row_input R r = (case er_json R (el_input_json r) of
     Some (JObj m) \<Rightarrow>
       if canonical_json (JObj (freeze_items m)) = el_input_json r \<and> sha256_hex (el_input_json r) = el_input_fingerprint r
       then Some (freeze_items m) else None
   | _ \<Rightarrow> None)"

text \<open>A stored model: absent with its fingerprint, or read back to its own text and fingerprint.\<close>

definition stored ::
  "(string \<Rightarrow> 'a option) \<Rightarrow> ('a \<Rightarrow> bool) \<Rightarrow> ('a \<Rightarrow> string) \<Rightarrow> string option \<Rightarrow> string option \<Rightarrow> 'a option option" where
  "stored rd ok txt json fp = (case json of
     None \<Rightarrow> if fp = None then Some None else None
   | Some t \<Rightarrow> (case rd t of
       None \<Rightarrow> None
     | Some x \<Rightarrow> if ok x \<and> txt x = t \<and> fp = Some (sha256_hex t) then Some (Some x) else None))"

definition energy_status_from_row :: "energy_reader \<Rightarrow> energy_lease_row \<Rightarrow> energy_status_row res" where
  "energy_status_from_row R r = (case (row_input R r,
       stored (er_choice R) valid_energy_choice energy_choice_text (el_choice_json r) (el_choice_fingerprint r),
       stored (er_provenance R) valid_energy_provenance energy_provenance_text (el_provenance_json r) (el_provenance_fingerprint r)) of
     (Some m, Some c, Some p) \<Rightarrow>
       if list_all is_uuid4 [el_lease_id r, el_brain_id r, el_action_request_event_id r, el_request_event_id r] then
         Inr \<lparr>es_lease_id = el_lease_id r, es_brain_id = el_brain_id r, es_action_id = el_action_id r,
           es_action_request_event_id = el_action_request_event_id r, es_state_sequence = el_request_sequence r,
           es_request_event_id = el_request_event_id r, es_status = el_status r, es_requested_at = el_requested_at r,
           es_expires_at = el_expires_at r, es_input_fingerprint = el_input_fingerprint r, es_assessment_input = m,
           es_choice = c, es_provenance = p, es_failure_code = el_failure_code r,
           es_terminal_event_id = el_terminal_event_id r, es_terminal_at = el_terminal_at r\<rparr>
       else Inl (LedgerIntegrityError ''energy assessment lease row is invalid'')
   | _ \<Rightarrow> Inl (LedgerIntegrityError ''energy assessment lease row is invalid''))"

definition energy_lease_row :: "database \<Rightarrow> string \<Rightarrow> energy_lease_row res" where
  "energy_lease_row L i = of_option (PyKeyError i) (lookup el_lease_id (db_energy_leases L) i)"

definition energy_assessment_brain_id :: "energy_reader \<Rightarrow> database \<Rightarrow> string \<Rightarrow> string res" where
  "energy_assessment_brain_id R L i = rbind (validate_id i) (\<lambda>i. rbind (energy_lease_row L i) (\<lambda>r.
     rbind (energy_status_from_row R r) (\<lambda>s. Inr (es_brain_id s))))"

section \<open>The table\<close>

definition energy_row_checks :: "energy_lease_row \<Rightarrow> bool" where
  "energy_row_checks r \<longleftrightarrow> str_len 1 512 (el_action_id r) \<and> 1 \<le> el_request_sequence r \<and> length (el_input_fingerprint r) = 64 \<and>
     (case el_choice_fingerprint r of None \<Rightarrow> True | Some f \<Rightarrow> length f = 64) \<and>
     (case el_provenance_fingerprint r of None \<Rightarrow> True | Some f \<Rightarrow> length f = 64) \<and>
     (el_choice_fingerprint r = None \<longleftrightarrow> el_choice_json r = None) \<and>
     (el_provenance_fingerprint r = None \<longleftrightarrow> el_provenance_json r = None) \<and>
     (case el_status r of
        Pending \<Rightarrow> el_choice_json r = None \<and> el_provenance_json r = None \<and> el_failure_code r = None \<and>
          el_terminal_event_id r = None \<and> el_terminal_at r = None
      | Completed \<Rightarrow> el_choice_json r \<noteq> None \<and> el_provenance_json r \<noteq> None \<and> el_failure_code r = None \<and>
          el_terminal_event_id r \<noteq> None \<and> el_terminal_at r \<noteq> None
      | Failed \<Rightarrow> el_choice_json r = None \<and> el_provenance_json r = None \<and> el_failure_code r \<noteq> None \<and>
          el_terminal_event_id r \<noteq> None \<and> el_terminal_at r \<noteq> None
      | Superseded \<Rightarrow> el_choice_json r = None \<and> el_provenance_json r = None \<and> el_failure_code r = Some ''expired'' \<and>
          el_terminal_event_id r = None \<and> el_terminal_at r \<noteq> None)"

definition energy_apart :: "energy_lease_row \<Rightarrow> energy_lease_row \<Rightarrow> bool" where
  "energy_apart r q \<longleftrightarrow> el_lease_id q \<noteq> el_lease_id r \<and> el_request_event_id q \<noteq> el_request_event_id r \<and>
     (el_terminal_event_id r = None \<or> el_terminal_event_id q \<noteq> el_terminal_event_id r) \<and>
     \<not> (el_status r = Pending \<and> el_status q = Pending \<and> el_brain_id q = el_brain_id r)"

definition energy_refs :: "database \<Rightarrow> energy_lease_row \<Rightarrow> bool" where
  "energy_refs L r \<longleftrightarrow> db_brains L (el_brain_id r) \<noteq> None \<and>
     list_ex (\<lambda>e. row_event_id e = el_action_request_event_id r) (db_events L) \<and>
     list_ex (\<lambda>e. row_event_id e = el_request_event_id r) (db_events L) \<and>
     (case el_terminal_event_id r of None \<Rightarrow> True | Some t \<Rightarrow> list_ex (\<lambda>e. row_event_id e = t) (db_events L))"

definition insert_energy_lease :: "energy_lease_row \<Rightarrow> database \<Rightarrow> database res" where
  "insert_energy_lease r L =
     (if energy_row_checks r \<and> energy_refs L r \<and> list_all (energy_apart r) (db_energy_leases L)
      then Inr (L\<lparr>db_energy_leases := db_energy_leases L @ [r]\<rparr>)
      else Inl (SqliteIntegrityError ''energy_assessment_lease''))"

definition update_energy_lease ::
  "string \<Rightarrow> (energy_lease_row \<Rightarrow> energy_lease_row) \<Rightarrow> string \<Rightarrow> database \<Rightarrow> database res" where
  "update_energy_lease i f lost L = (case lookup el_lease_id (db_energy_leases L) i of
     None \<Rightarrow> Inl (LedgerIntegrityError lost)
   | Some r \<Rightarrow>
       if el_status r \<noteq> Pending then Inl (LedgerIntegrityError lost)
       else if energy_row_checks (f r) \<and> energy_refs L (f r) \<and>
           list_all (energy_apart (f r)) (filter (\<lambda>q. el_lease_id q \<noteq> i) (db_energy_leases L))
       then Inr (L\<lparr>db_energy_leases := update_rows el_lease_id i f (db_energy_leases L)\<rparr>)
       else Inl (SqliteIntegrityError ''energy_assessment_lease''))"

section \<open>The assessment input\<close>

fun rd_value :: "rd_phase \<Rightarrow> string" where
  "rd_value RdSimulate = ''simulate''"
| "rd_value RdPrepare = ''prepare''"
| "rd_value RdReconstruct = ''reconstruct''"

fun outcome_value :: "action_outcome \<Rightarrow> string" where
  "outcome_value OutSuccess = ''success''"
| "outcome_value OutFailure = ''failure''"

definition json_fingerprint :: "json \<Rightarrow> string" where
  "json_fingerprint v = sha256_hex (canonical_json (freeze v))"

text \<open>The situation of an action: its intent, or the observation of the tool call it came from.\<close>

definition energy_situation ::
  "energy_reader \<Rightarrow> platform \<Rightarrow> database \<Rightarrow> brain_state \<Rightarrow> action_record \<Rightarrow> jobj res" where
  "energy_situation R P L s action = (let intent = ar_intent action in case jget intent ''raw_event_id'' of
     JStr i \<Rightarrow> rbind (validate_id i) (\<lambda>i. case lookup row_event_id (db_events L) i of
         None \<Rightarrow> Inl (LedgerIntegrityError ''Hermes energy assessment raw observation is missing'')
       | Some row \<Rightarrow> rbind (decode_event P row) (\<lambda>raw. case er_observation R (JObj (ev_payload raw)) of
           None \<Rightarrow> Inl (LedgerIntegrityError ''Hermes energy assessment raw observation is invalid'')
         | Some (hook, payload) \<Rightarrow>
             if hook \<noteq> ''pre_tool_call'' \<or> ev_brain_id raw \<noteq> bs_brain_id s \<or>
                jget payload ''tool_name'' \<noteq> jget intent ''tool_name'' \<or>
                JStr (json_fingerprint (jget payload ''args'')) \<noteq> jget intent ''args_sha256'' \<or>
                JStr (json_fingerprint (jget payload ''middleware_trace'')) \<noteq> jget intent ''middleware_trace_sha256''
             then Inl (LedgerIntegrityError ''Hermes energy assessment raw observation changed action intent'')
             else Inr payload))
   | _ \<Rightarrow> Inr intent)"

definition energy_assessment_input ::
  "energy_reader \<Rightarrow> platform \<Rightarrow> database \<Rightarrow> brain_state \<Rightarrow> string \<Rightarrow> string \<Rightarrow> jobj res" where
  "energy_assessment_input R P L s aid request_event_id = (case state_action s aid of
     None \<Rightarrow> Inl (PyKeyError aid)
   | Some action \<Rightarrow> rbind (energy_situation R P L s action) (\<lambda>st. Inr (freeze_items
       [(''schema_version'', JInt 1), (''action_id'', JStr aid), (''action_request_event_id'', JStr request_event_id),
        (''pc'', JObj [(''traits'', JObj (pc_traits (bs_personality s))),
          (''adaptations'', JObj (pc_adaptations (bs_personality s))),
          (''narrative_ideal'', JObj (pc_narrative_ideal (bs_personality s)))]),
        (''st'', JObj st),
        (''rd'', JObj [(''phase'', JStr (rd_value (ar_rd_phase action))),
          (''prepared_branch_id'', opt_json JStr (ar_prepared_branch_id action)),
          (''execution_confirmed'', opt_json JBool (ar_execution_confirmed action)),
          (''outcome'', opt_json JStr (map_option outcome_value (ar_outcome action))),
          (''reconstruction'', opt_json JObj (ar_reconstruction action))]),
        (''state_sequence'', JInt (bs_last_sequence s))])))"

section \<open>Claim\<close>

definition ENERGY_ADAPTER_ID :: string where "ENERGY_ADAPTER_ID = ''alice-brain-hermes-energy-v1''"
definition ENERGY_PURPOSE :: string where "ENERGY_PURPOSE = ''alice_energy_assessment''"

definition energy_event :: "string \<Rightarrow> jobj \<Rightarrow> stamp \<Rightarrow> string \<Rightarrow> string \<Rightarrow> string \<Rightarrow> event_envelope res" where
  "energy_event t payload st b a aid = new_event t b a payload (st_event_id st) (st_wall_time st) (st_monotonic_ns st)
     (no_provenance\<lparr>pv_action_id := Some aid, pv_adapter_id := Some ENERGY_ADAPTER_ID\<rparr>)"

definition supersede_pending_energy :: "string \<Rightarrow> int \<Rightarrow> int \<Rightarrow> database \<Rightarrow> database res" where
  "supersede_pending_energy i now requested_at L =
     (if now < requested_at then Inl (PyValueError ''energy assessment terminal time predates its request'')
      else update_energy_lease i (\<lambda>r. r\<lparr>el_status := Superseded, el_failure_code := Some ''expired'',
        el_terminal_at := Some now\<rparr>) ''energy assessment supersession was lost'' L)"

definition energy_actor :: "brain_state \<Rightarrow> string \<Rightarrow> (brain_state \<times> string) res" where
  "energy_actor state actor = rbind (state_revalidated state) (\<lambda>s. rbind (validate_id actor) (\<lambda>a.
     if a \<noteq> bs_brain_id s then Inl (PyValueError ''energy assessment actor must be the brain self actor'')
     else Inr (s, a)))"

text \<open>The pending lease of the brain: kept while it is live, else superseded.\<close>

definition settle_pending_energy :: "energy_reader \<Rightarrow> brain_state \<Rightarrow> int \<Rightarrow> database \<Rightarrow> (bool \<times> database) res" where
  "settle_pending_energy R s now L =
     (case find (\<lambda>r. el_brain_id r = bs_brain_id s \<and> el_status r = Pending) (db_energy_leases L) of
        None \<Rightarrow> Inr (False, L)
      | Some r \<Rightarrow> rbind (energy_status_from_row R r) (\<lambda>pending.
          if now < es_expires_at pending then Inr (True, L)
          else rbind (supersede_pending_energy (es_lease_id pending) now (es_requested_at pending) L) (\<lambda>L. Inr (False, L))))"

text \<open>The first action that waits for an assessment and has no terminal lease.\<close>

definition energy_candidate :: "brain_state \<Rightarrow> database \<Rightarrow> action_record option" where
  "energy_candidate s L =
     (let terminal = map el_action_id (filter (\<lambda>r. el_brain_id r = bs_brain_id s \<and> el_status r \<in> {Completed, Failed})
         (db_energy_leases L))
      in find (\<lambda>a. ar_energy_status a = EnergyPending \<and> ar_energy_request_event_id a \<noteq> None \<and>
           ar_action_id a \<notin> set terminal) (bs_action_records s))"

definition energy_request_source :: "platform \<Rightarrow> database \<Rightarrow> brain_state \<Rightarrow> action_record \<Rightarrow> string res" where
  "energy_request_source P L s action = rbind (validate_id (the (ar_energy_request_event_id action))) (\<lambda>i.
     case lookup row_event_id (db_events L) i of
       None \<Rightarrow> Inl (LedgerIntegrityError ''energy action request event is missing'')
     | Some row \<Rightarrow> rbind (decode_event P row) (\<lambda>source.
         if ev_brain_id source \<noteq> bs_brain_id s \<or> ev_event_type source \<noteq> ''action.energy_requested'' \<or>
            ev_action_id source \<noteq> Some (ar_action_id action)
         then Inl (LedgerIntegrityError ''energy action request source is invalid'')
         else Inr i))"

definition energy_claim_event ::
  "brain_state \<Rightarrow> string \<Rightarrow> int \<Rightarrow> string \<Rightarrow> stamp \<Rightarrow> string \<Rightarrow> string \<Rightarrow> string \<Rightarrow> event_envelope res" where
  "energy_claim_event s a now lease_id st aid source input_sha = energy_event ''cognition.requested''
     [(''schema_version'', JInt 1), (''purpose'', JStr ENERGY_PURPOSE), (''lease_id'', JStr lease_id),
      (''action_id'', JStr aid), (''action_request_event_id'', JStr source), (''input_sha256'', JStr input_sha),
      (''requested_at'', JStr (iso_text now)),
      (''expires_at'', JStr (iso_text (now + ENERGY_ASSESSMENT_LEASE_SECONDS * 1000000)))] st (bs_brain_id s) a aid"

definition claim_energy_assessment ::
  "energy_reader \<Rightarrow> platform \<Rightarrow> string \<Rightarrow> int \<Rightarrow> string \<Rightarrow> stamp \<Rightarrow> brain_state \<Rightarrow> database \<Rightarrow>
    ((energy_lease option \<times> brain_state option) \<times> database) res" where
  "claim_energy_assessment R P actor now lease_id st expected_state L =
     rbind (energy_actor expected_state actor) (\<lambda>(s, a).
     rbind (require_head s L) (\<lambda>_.
     rbind (settle_pending_energy R s now L) (\<lambda>(live, L).
     if live then Inr ((None, None), L)
     else case energy_candidate s L of
       None \<Rightarrow> Inr ((None, None), L)
     | Some action \<Rightarrow>
         rbind (energy_request_source P L s action) (\<lambda>source.
         rbind (energy_assessment_input R P L s (ar_action_id action) source) (\<lambda>input.
         let input_json = canonical_json (JObj input); input_sha = sha256_hex input_json;
             expires_at = now + ENERGY_ASSESSMENT_LEASE_SECONDS * 1000000 in
         rbind (energy_claim_event s a now lease_id st (ar_action_id action) source input_sha) (\<lambda>requested.
         rbind (insert_batch s [requested] L) (\<lambda>((es, t), L).
         let request = hd es; n = the (ev_sequence request) in
         rbind (insert_energy_lease \<lparr>el_lease_id = lease_id, el_brain_id = bs_brain_id s, el_action_id = ar_action_id action,
             el_action_request_event_id = source, el_request_sequence = n, el_request_event_id = ev_event_id request,
             el_status = Pending, el_requested_at = now, el_expires_at = expires_at, el_input_fingerprint = input_sha,
             el_input_json = input_json, el_choice_fingerprint = None, el_choice_json = None,
             el_provenance_fingerprint = None, el_provenance_json = None, el_failure_code = None,
             el_terminal_event_id = None, el_terminal_at = None\<rparr> L) (\<lambda>L.
         rbind (mk_energy_lease \<lparr>ea_lease_id = lease_id, ea_brain_id = bs_brain_id s, ea_action_id = ar_action_id action,
             ea_request_event_id = ev_event_id request, ea_state_sequence = n, ea_expires_at = expires_at,
             ea_assessment_input = input\<rparr>) (\<lambda>lease.
         Inr ((Some lease, Some t), L))))))))))"

section \<open>Completion\<close>

definition choice_revalidated_energy :: "energy_choice \<Rightarrow> energy_choice res" where
  "choice_revalidated_energy c = (if valid_energy_choice c then Inr c else Inl (ValidationError ''EnergyAssessmentChoiceV1''))"

definition provenance_revalidated :: "energy_provenance \<Rightarrow> energy_provenance res" where
  "provenance_revalidated p = (if valid_energy_provenance p then Inr p else Inl (ValidationError ''EnergyAssessmentProvenanceV1''))"

definition assessment_events ::
  "energy_choice \<Rightarrow> energy_provenance \<Rightarrow> energy_status_row \<Rightarrow> int \<Rightarrow> stamp \<times> stamp \<Rightarrow> string \<Rightarrow> string \<Rightarrow> event_envelope list res" where
  "assessment_events c p status now sts b a = (case sts of (st1, st2) \<Rightarrow>
     rbind (energy_event ''cognition.completed''
       [(''schema_version'', JInt 1), (''purpose'', JStr ENERGY_PURPOSE), (''lease_id'', JStr (es_lease_id status)),
        (''action_id'', JStr (es_action_id status)),
        (''choice_fingerprint'', JStr (sha256_hex (energy_choice_text c))),
        (''provenance_fingerprint'', JStr (sha256_hex (energy_provenance_text p))),
        (''input_sha256'', JStr (es_input_fingerprint status)), (''structured'', JBool True),
        (''terminal_at'', JStr (iso_text now))] st1 b a (es_action_id status)) (\<lambda>completed.
     rbind (energy_event ''action.energy_assessed''
       ([(''action_id'', JStr (es_action_id status))] @ choice_payload c @
        [(''assessment_source'', JStr ''hermes_host_llm''), (''assessment_summary'', JStr (ec_summary c)),
         (''provenance'', JObj (provenance_payload p)), (''lease_id'', JStr (es_lease_id status)),
         (''source_event_id'', JStr (ev_event_id completed))]) st2 b a (es_action_id status)) (\<lambda>assessed.
     Inr [completed, assessed])))"

definition awaits_assessment :: "brain_state \<Rightarrow> energy_status_row \<Rightarrow> bool" where
  "awaits_assessment s status \<longleftrightarrow> (case state_action s (es_action_id status) of None \<Rightarrow> False | Some action \<Rightarrow>
     ar_energy_status action = EnergyPending \<and> ar_energy_request_event_id action = Some (es_action_request_event_id status))"

definition complete_energy_assessment ::
  "energy_reader \<Rightarrow> string \<Rightarrow> energy_choice \<Rightarrow> energy_provenance \<Rightarrow> string \<Rightarrow> int \<Rightarrow> stamp \<times> stamp \<Rightarrow> brain_state \<Rightarrow> database \<Rightarrow>
    (terminal_result \<times> database) res" where
  "complete_energy_assessment R i choice prov actor now sts expected_state L =
     rbind (validate_id i) (\<lambda>i.
     rbind (choice_revalidated_energy choice) (\<lambda>c.
     rbind (provenance_revalidated prov) (\<lambda>p.
     rbind (energy_actor expected_state actor) (\<lambda>(s, a).
     rbind (energy_lease_row L i) (\<lambda>row.
     rbind (energy_status_from_row R row) (\<lambda>status.
     if es_brain_id status \<noteq> bs_brain_id s then Inl (PyValueError ''energy assessment lease changed brain identity'')
     else rbind (require_head s L) (\<lambda>_.
     if es_status status = Completed then
       (if (case es_choice status of None \<Rightarrow> True | Some d \<Rightarrow> \<not> same_choice d c) \<or> es_provenance status \<noteq> Some p then
          Inl (IdempotencyConflictError ''energy assessment lease has different completed evidence'')
        else Inr ((Completed, None), L))
     else if es_status status \<in> {Failed, Superseded} then Inr ((Superseded, None), L)
     else if ep_input_sha256 p \<noteq> es_input_fingerprint status then
       Inl (PyValueError ''energy provenance does not match assessment input'')
     else if now < es_requested_at status then Inl (PyValueError ''energy assessment terminal time predates its request'')
     else if es_expires_at status \<le> now then
       rbind (supersede_pending_energy i now (es_requested_at status) L) (\<lambda>L. Inr ((Superseded, None), L))
     else if \<not> awaits_assessment s status then
       Inl (LedgerIntegrityError ''energy assessment action is not the requested pending action'')
     else
       rbind (assessment_events c p status now sts (bs_brain_id s) a) (\<lambda>events.
       rbind (insert_batch s events L) (\<lambda>((es, t), L).
       rbind (update_energy_lease i (\<lambda>r. r\<lparr>el_status := Completed,
           el_choice_fingerprint := Some (sha256_hex (energy_choice_text c)), el_choice_json := Some (energy_choice_text c),
           el_provenance_fingerprint := Some (sha256_hex (energy_provenance_text p)),
           el_provenance_json := Some (energy_provenance_text p),
           el_terminal_event_id := Some (ev_event_id (last es)), el_terminal_at := Some now\<rparr>)
         ''energy assessment result was not persisted'' L) (\<lambda>L.
       Inr ((Completed, Some t), L)))))))))))"

section \<open>Failure\<close>

definition assessment_failures ::
  "string \<Rightarrow> energy_status_row \<Rightarrow> int \<Rightarrow> stamp \<times> stamp \<Rightarrow> string \<Rightarrow> string \<Rightarrow> event_envelope list res" where
  "assessment_failures code status now sts b a = (case sts of (st1, st2) \<Rightarrow>
     rbind (energy_event ''cognition.failed''
       [(''schema_version'', JInt 1), (''purpose'', JStr ENERGY_PURPOSE), (''lease_id'', JStr (es_lease_id status)),
        (''action_id'', JStr (es_action_id status)), (''failure_code'', JStr code), (''terminal_at'', JStr (iso_text now))]
       st1 b a (es_action_id status)) (\<lambda>failed.
     rbind (energy_event ''action.energy_assessment_failed''
       [(''action_id'', JStr (es_action_id status)), (''failure_code'', JStr code), (''lease_id'', JStr (es_lease_id status)),
        (''source_event_id'', JStr (ev_event_id failed))] st2 b a (es_action_id status)) (\<lambda>action_failed.
     Inr [failed, action_failed])))"

definition fail_energy_assessment ::
  "energy_reader \<Rightarrow> string \<Rightarrow> string \<Rightarrow> string \<Rightarrow> int \<Rightarrow> stamp \<times> stamp \<Rightarrow> brain_state \<Rightarrow> database \<Rightarrow> (terminal_result \<times> database) res" where
  "fail_energy_assessment R i code actor now sts expected_state L =
     rbind (validate_id i) (\<lambda>i.
     if \<not> worker_failure_code ''invalid_structured_assessment'' code then
       Inl (PyValueError ''energy assessment failure code is invalid'')
     else
     rbind (energy_actor expected_state actor) (\<lambda>(s, a).
     rbind (energy_lease_row L i) (\<lambda>row.
     rbind (energy_status_from_row R row) (\<lambda>status.
     if es_brain_id status \<noteq> bs_brain_id s then Inl (PyValueError ''energy assessment lease changed brain identity'')
     else rbind (require_head s L) (\<lambda>_.
     if es_status status = Failed then
       (if es_failure_code status \<noteq> Some code then
          Inl (IdempotencyConflictError ''energy assessment lease has a different failure'')
        else Inr ((Failed, None), L))
     else if es_status status \<in> {Completed, Superseded} then Inr ((Superseded, None), L)
     else if now < es_requested_at status then Inl (PyValueError ''energy assessment terminal time predates its request'')
     else if es_expires_at status \<le> now then
       rbind (supersede_pending_energy i now (es_requested_at status) L) (\<lambda>L. Inr ((Superseded, None), L))
     else
       rbind (assessment_failures code status now sts (bs_brain_id s) a) (\<lambda>events.
       rbind (insert_batch s events L) (\<lambda>((es, t), L).
       rbind (update_energy_lease i (\<lambda>r. r\<lparr>el_status := Failed, el_failure_code := Some code,
           el_terminal_event_id := Some (ev_event_id (last es)), el_terminal_at := Some now\<rparr>)
         ''energy assessment failure was not persisted'' L) (\<lambda>L.
       Inr ((Failed, Some t), L)))))))))"

section \<open>The engine's operations\<close>

definition engine_claim_energy_assessment ::
  "energy_reader \<Rightarrow> platform \<Rightarrow> int \<Rightarrow> string \<Rightarrow> stamp \<Rightarrow> engine \<Rightarrow> database \<Rightarrow> energy_lease option outcome" where
  "engine_claim_energy_assessment R P now lease_id st E L =
     guarded ''engine sequence divergence during energy lease claim''
       (claim_energy_assessment R P (en_actor_id E) now lease_id st) E L"

definition engine_complete_energy_assessment ::
  "energy_reader \<Rightarrow> string \<Rightarrow> energy_choice \<Rightarrow> energy_provenance \<Rightarrow> int \<Rightarrow> stamp \<times> stamp \<Rightarrow> engine \<Rightarrow> database \<Rightarrow> lease_status outcome" where
  "engine_complete_energy_assessment R i choice prov now sts E L =
     (case provenance_revalidated prov of
        Inl err \<Rightarrow> (Inl err, E, L)
      | Inr p \<Rightarrow> guarded ''engine sequence divergence during energy completion''
          (complete_energy_assessment R i choice p (en_actor_id E) now sts) E L)"

definition engine_fail_energy_assessment ::
  "energy_reader \<Rightarrow> string \<Rightarrow> string \<Rightarrow> int \<Rightarrow> stamp \<times> stamp \<Rightarrow> engine \<Rightarrow> database \<Rightarrow> lease_status outcome" where
  "engine_fail_energy_assessment R i code now sts E L =
     guarded ''engine sequence divergence during energy failure''
       (fail_energy_assessment R i code (en_actor_id E) now sts) E L"

end
