(* ===== verification/Assessed.thy ===== *)
theory Assessed imports Assessments
begin

text \<open>
  Energy assessment, its theorems: the lease table keeps its constraints and a settled lease never changes;
  a completion gives the pending action exactly the chosen vector, through two events of which the second
  cites the first; a live lease can be completed; and an engine stays the replay of the ledger under the
  three operations.
\<close>

section \<open>The lease table\<close>

definition energy_leases_ok :: "database \<Rightarrow> bool" where
  "energy_leases_ok L \<longleftrightarrow> sorted_wrt energy_apart (db_energy_leases L) \<and>
     (\<forall>r \<in> set (db_energy_leases L). energy_row_checks r \<and> energy_refs L r)"

definition same_job :: "energy_lease_row \<Rightarrow> energy_lease_row \<Rightarrow> bool" where
  "same_job q r \<longleftrightarrow> el_lease_id r = el_lease_id q \<and> el_brain_id r = el_brain_id q \<and> el_action_id r = el_action_id q \<and>
     el_action_request_event_id r = el_action_request_event_id q \<and> el_request_sequence r = el_request_sequence q \<and>
     el_request_event_id r = el_request_event_id q \<and> el_requested_at r = el_requested_at q \<and>
     el_expires_at r = el_expires_at q \<and> el_input_json r = el_input_json q \<and> el_input_fingerprint r = el_input_fingerprint q"

interpretation assessing: lease_table el_lease_id el_brain_id "\<lambda>r. el_status r = Pending" el_terminal_event_id energy_apart same_job
  by unfold_locales (auto simp: energy_apart_def same_job_def)

abbreviation energy_leases_move :: "database \<Rightarrow> database \<Rightarrow> bool" where
  "energy_leases_move L L' \<equiv> rows_move (\<lambda>r. el_status r = Pending) same_job (db_energy_leases L) (db_energy_leases L')"

definition energy_safe :: "database \<Rightarrow> database \<Rightarrow> bool" where
  "energy_safe L L' \<longleftrightarrow> (energy_leases_ok L \<longrightarrow> energy_leases_ok L' \<and> energy_leases_move L L')"

lemma energy_safe_refl [simp]: "energy_safe L L"
  by (simp add: energy_safe_def assessing.move_refl)

lemma energy_safe_trans: "energy_safe L M \<Longrightarrow> energy_safe M N \<Longrightarrow> energy_safe L N"
  unfolding energy_safe_def using assessing.move_trans by blast

lemma energy_refs_update [simp]: "energy_refs (L\<lparr>db_energy_leases := rows\<rparr>) r = energy_refs L r"
  by (simp add: energy_refs_def split: option.split)

text \<open>The event log may only grow under the leases.\<close>

definition energy_grows :: "database \<Rightarrow> database \<Rightarrow> bool" where
  "energy_grows L M \<longleftrightarrow> db_energy_leases M = db_energy_leases L \<and> set (db_events L) \<subseteq> set (db_events M) \<and>
     (\<forall>b. db_brains L b \<noteq> None \<longrightarrow> db_brains M b \<noteq> None)"

lemma energy_grows_refs: "energy_grows L M \<Longrightarrow> energy_refs L r \<Longrightarrow> energy_refs M r"
  by (auto simp: energy_grows_def energy_refs_def list_ex_iff split: option.splits)

lemma energy_safe_grows: "energy_grows L M \<Longrightarrow> energy_safe L M"
  using energy_grows_refs [of L M] by (auto simp: energy_safe_def energy_leases_ok_def energy_grows_def assessing.move_refl)

lemma insert_energy_Inr: "insert_energy_lease r L = Inr L' \<Longrightarrow> energy_row_checks r \<and> energy_refs L r \<and>
    list_all (energy_apart r) (db_energy_leases L) \<and> L' = L\<lparr>db_energy_leases := db_energy_leases L @ [r]\<rparr>"
  by (auto simp: insert_energy_lease_def split: if_splits)

lemma update_energy_Inr: "update_energy_lease i f lost L = Inr L' \<Longrightarrow> \<exists>r. lookup el_lease_id (db_energy_leases L) i = Some r \<and>
    el_status r = Pending \<and> energy_row_checks (f r) \<and> energy_refs L (f r) \<and>
    list_all (energy_apart (f r)) (filter (\<lambda>q. el_lease_id q \<noteq> i) (db_energy_leases L)) \<and>
    L' = L\<lparr>db_energy_leases := update_rows el_lease_id i f (db_energy_leases L)\<rparr>"
  by (auto simp: update_energy_lease_def split: option.splits if_splits)

lemma energy_frames:
  "insert_energy_lease r L = Inr L' \<Longrightarrow> log_frame L L'"
  "update_energy_lease i f lost L = Inr L' \<Longrightarrow> log_frame L L'"
  by (auto dest: insert_energy_Inr update_energy_Inr)

lemma energy_safe_insert:
  assumes "insert_energy_lease r L = Inr L'"
  shows "energy_safe L L'"
proof -
  from insert_energy_Inr [OF assms] have r: "energy_row_checks r" "energy_refs L r" "list_all (energy_apart r) (db_energy_leases L)"
    "L' = L\<lparr>db_energy_leases := db_energy_leases L @ [r]\<rparr>" by auto
  then have "energy_leases_ok L \<longrightarrow> energy_leases_ok L'" using assessing.insert_apart by (auto simp: energy_leases_ok_def)
  then show ?thesis using assessing.move_append r(4) by (simp add: energy_safe_def)
qed

lemma energy_safe_update:
  assumes "update_energy_lease i f lost L = Inr L'" and f: "\<And>r. same_job r (f r) \<and> el_status (f r) \<noteq> Pending"
  shows "energy_safe L L'"
  unfolding energy_safe_def
proof
  assume ok: "energy_leases_ok L"
  from update_energy_Inr [OF assms(1)] obtain r where r: "lookup el_lease_id (db_energy_leases L) i = Some r" "el_status r = Pending"
    "energy_row_checks (f r)" "energy_refs L (f r)"
    "list_all (energy_apart (f r)) (filter (\<lambda>q. el_lease_id q \<noteq> i) (db_energy_leases L))"
    "L' = L\<lparr>db_energy_leases := update_rows el_lease_id i f (db_energy_leases L)\<rparr>" by blast
  from ok have "sorted_wrt energy_apart (db_energy_leases L)" by (simp add: energy_leases_ok_def)
  note moves = assessing.update_moves [OF this r(1,2,5) f]
  have "\<forall>q \<in> set (update_rows el_lease_id i f (db_energy_leases L)). energy_row_checks q \<and> energy_refs L q"
    using moves(3) ok r(3,4) by (auto simp: energy_leases_ok_def)
  with moves(1) have "energy_leases_ok L'" unfolding energy_leases_ok_def r(6) by simp
  then show "energy_leases_ok L' \<and> energy_leases_move L L'" using moves(2) r(6) by simp
qed

lemma insert_batch_energy:
  assumes "insert_batch s es L = Inr (x, L')"
  shows "energy_safe L L'"
proof -
  obtain ps t where x: "x = (ps, t)" by (cases x)
  from assms obtain M where "rfold (\<lambda>L p. insert_sequenced p L) (L\<lparr>db_brains := M\<rparr>) ps = Inr L'" "\<And>b. db_brains L b \<noteq> None \<Longrightarrow> M b \<noteq> None"
    unfolding x by (auto simp: insert_batch_def Let_def rbind_eq_Inr split: if_splits)
  with batch_rows [OF this(1)] show ?thesis by (intro energy_safe_grows) (simp add: energy_grows_def)
qed

lemma supersede_energy_safe: "supersede_pending_energy i now q L = Inr L' \<Longrightarrow> energy_safe L L' \<and> log_frame L L'"
  by (auto simp: supersede_pending_energy_def same_job_def split: if_splits elim!: energy_safe_update elim: energy_frames)

lemma settle_energy_safe: "settle_pending_energy R s now L = Inr (live, L') \<Longrightarrow> energy_safe L L' \<and> log_frame L L'"
  by (auto simp: settle_pending_energy_def rbind_eq_Inr split: if_splits option.splits dest: supersede_energy_safe)

section \<open>The operations\<close>

text \<open>The batches that the operations may write; a claim asks for the first pending action without a terminal lease.\<close>

definition energy_claim_batches ::
  "energy_reader \<Rightarrow> platform \<Rightarrow> string \<Rightarrow> int \<Rightarrow> string \<Rightarrow> stamp \<Rightarrow> brain_state \<Rightarrow> database \<Rightarrow> event_envelope list set" where
  "energy_claim_batches R P a now i st s L = {[e] | e M action source input.
     settle_pending_energy R s now L = Inr (False, M) \<and> energy_candidate s M = Some action \<and>
     energy_assessment_input R P M s (ar_action_id action) source = Inr input \<and>
     energy_claim_event s a now i st (ar_action_id action) source (sha256_hex (canonical_json (JObj input))) = Inr e}"

definition energy_completion_batches ::
  "energy_reader \<Rightarrow> energy_choice \<Rightarrow> energy_provenance \<Rightarrow> string \<Rightarrow> int \<Rightarrow> stamp \<times> stamp \<Rightarrow> string \<Rightarrow> brain_state \<Rightarrow> database \<Rightarrow> event_envelope list set" where
  "energy_completion_batches R c p i now sts a s L = {es. \<exists>row status. energy_lease_row L i = Inr row \<and>
     energy_status_from_row R row = Inr status \<and> assessment_events c p status now sts (bs_brain_id s) a = Inr es}"

definition energy_failure_batches ::
  "energy_reader \<Rightarrow> string \<Rightarrow> string \<Rightarrow> int \<Rightarrow> stamp \<times> stamp \<Rightarrow> string \<Rightarrow> brain_state \<Rightarrow> database \<Rightarrow> event_envelope list set" where
  "energy_failure_batches R code i now sts a s L = {es. \<exists>row status. energy_lease_row L i = Inr row \<and>
     energy_status_from_row R row = Inr status \<and> assessment_failures code status now sts (bs_brain_id s) a = Inr es}"

lemma energy_claim_cases:
  assumes "claim_energy_assessment R P a now i st s L = Inr ((x, successor), L')"
  obtains live M where "require_head s L = Inr ()" "settle_pending_energy R s now L = Inr (live, M)" "L' = M" "successor = None"
  | M es ps t N q where "require_head s L = Inr ()" "settle_pending_energy R s now L = Inr (False, M)" "successor = Some t"
      "es \<in> energy_claim_batches R P a now i st s L" "insert_batch s es M = Inr ((ps, t), N)" "insert_energy_lease q N = Inr L'"
proof -
  from assms have h: "require_head s L = Inr ()" "a = bs_brain_id s"
    by (auto simp: claim_energy_assessment_def energy_actor_def state_revalidated_def rbind_eq_Inr split: if_splits)
  from assms obtain live M where m: "settle_pending_energy R s now L = Inr (live, M)"
    by (auto simp: claim_energy_assessment_def energy_actor_def state_revalidated_def rbind_eq_Inr split: if_splits)
  show thesis
  proof (cases "live \<or> energy_candidate s M = None")
    case True
    with assms m have "L' = M" "successor = None"
      by (auto simp: claim_energy_assessment_def energy_actor_def state_revalidated_def rbind_eq_Inr split: if_splits)
    with h m that(1) show ?thesis by blast
  next
    case False
    then obtain action where c: "\<not> live" "energy_candidate s M = Some action" by auto
    with assms m obtain source input e ps t N q where q: "energy_assessment_input R P M s (ar_action_id action) source = Inr input"
      "energy_claim_event s a now i st (ar_action_id action) source (sha256_hex (canonical_json (JObj input))) = Inr e"
      "insert_batch s [e] M = Inr ((ps, t), N)" "insert_energy_lease q N = Inr L'" "successor = Some t"
      by (auto simp: claim_energy_assessment_def energy_actor_def state_revalidated_def rbind_eq_Inr Let_def split: if_splits)
    moreover have "[e] \<in> energy_claim_batches R P a now i st s L"
      using q(1,2) c m unfolding energy_claim_batches_def by auto
    moreover have "settle_pending_energy R s now L = Inr (False, M)" using m c(1) by simp
    ultimately show ?thesis using h that(2) by blast
  qed
qed

lemma energy_complete_cases:
  assumes "complete_energy_assessment R i c p a now sts s L = Inr ((x, successor), L')"
  obtains "require_head s L = Inr ()" "L' = L \<or> (\<exists>q. supersede_pending_energy i now q L = Inr L')" "successor = None" "x = Completed \<longrightarrow> L' = L"
  | row status es ps t N where "require_head s L = Inr ()" "x = Completed" "successor = Some t" "a = bs_brain_id s" "is_uuid4 i"
      "valid_energy_choice c" "valid_energy_provenance p" "valid_state s"
      "energy_lease_row L i = Inr row" "energy_status_from_row R row = Inr status" "es_status status = Pending"
      "ep_input_sha256 p = es_input_fingerprint status" "es_requested_at status \<le> now" "now < es_expires_at status"
      "awaits_assessment s status" "assessment_events c p status now sts (bs_brain_id s) a = Inr es"
      "insert_batch s es L = Inr ((ps, t), N)"
      "update_energy_lease i (\<lambda>r. r\<lparr>el_status := Completed,
           el_choice_fingerprint := Some (sha256_hex (energy_choice_text c)), el_choice_json := Some (energy_choice_text c),
           el_provenance_fingerprint := Some (sha256_hex (energy_provenance_text p)),
           el_provenance_json := Some (energy_provenance_text p),
           el_terminal_event_id := Some (ev_event_id (last ps)), el_terminal_at := Some now\<rparr>)
         ''energy assessment result was not persisted'' N = Inr L'"
proof -
  from assms obtain row status where h: "require_head s L = Inr ()" "a = bs_brain_id s" "is_uuid4 i" "valid_energy_choice c"
    "valid_energy_provenance p" "valid_state s" "energy_lease_row L i = Inr row" "energy_status_from_row R row = Inr status"
    by (auto simp: complete_energy_assessment_def energy_actor_def state_revalidated_def choice_revalidated_energy_def
      provenance_revalidated_def rbind_eq_Inr split: if_splits)
  show thesis
  proof (cases "es_status status = Pending \<and> now < es_expires_at status")
    case False
    with assms h have "L' = L \<or> (\<exists>q. supersede_pending_energy i now q L = Inr L')" "successor = None" "x = Completed \<longrightarrow> L' = L"
      by (cases "es_status status"; auto simp: complete_energy_assessment_def energy_actor_def state_revalidated_def
        choice_revalidated_energy_def provenance_revalidated_def rbind_eq_Inr split: if_splits)+
    with h that(1) show ?thesis by blast
  next
    case True
    with assms h obtain es ps t N where q: "x = Completed" "successor = Some t"
      "ep_input_sha256 p = es_input_fingerprint status" "es_requested_at status \<le> now"
      "awaits_assessment s status" "assessment_events c p status now sts (bs_brain_id s) a = Inr es"
      "insert_batch s es L = Inr ((ps, t), N)"
      "update_energy_lease i (\<lambda>r. r\<lparr>el_status := Completed,
           el_choice_fingerprint := Some (sha256_hex (energy_choice_text c)), el_choice_json := Some (energy_choice_text c),
           el_provenance_fingerprint := Some (sha256_hex (energy_provenance_text p)),
           el_provenance_json := Some (energy_provenance_text p),
           el_terminal_event_id := Some (ev_event_id (last ps)), el_terminal_at := Some now\<rparr>)
         ''energy assessment result was not persisted'' N = Inr L'"
      by (auto simp: complete_energy_assessment_def energy_actor_def state_revalidated_def choice_revalidated_energy_def
        provenance_revalidated_def rbind_eq_Inr split: if_splits)
    with h True that(2) show ?thesis by blast
  qed
qed

lemma energy_fail_cases:
  assumes "fail_energy_assessment R i code a now sts s L = Inr ((x, successor), L')"
  obtains "require_head s L = Inr ()" "L' = L \<or> (\<exists>q. supersede_pending_energy i now q L = Inr L')" "successor = None"
  | es ps t N f lost where "require_head s L = Inr ()" "successor = Some t"
      "es \<in> energy_failure_batches R code i now sts a s L" "insert_batch s es L = Inr ((ps, t), N)"
      "update_energy_lease i f lost N = Inr L'" "\<And>r. same_job r (f r) \<and> el_status (f r) \<noteq> Pending"
proof -
  from assms obtain row status where h: "require_head s L = Inr ()" "a = bs_brain_id s" "is_uuid4 i"
    "energy_lease_row L i = Inr row" "energy_status_from_row R row = Inr status"
    by (auto simp: fail_energy_assessment_def energy_actor_def state_revalidated_def rbind_eq_Inr split: if_splits)
  show thesis
  proof (cases "es_status status = Pending \<and> now < es_expires_at status")
    case False
    with assms h have "L' = L \<or> (\<exists>q. supersede_pending_energy i now q L = Inr L')" "successor = None"
      by (cases "es_status status"; auto simp: fail_energy_assessment_def energy_actor_def state_revalidated_def
        rbind_eq_Inr split: if_splits)+
    with h that(1) show ?thesis by blast
  next
    case True
    with assms h obtain es ps t N where q: "successor = Some t" "assessment_failures code status now sts (bs_brain_id s) a = Inr es"
      "insert_batch s es L = Inr ((ps, t), N)"
      "update_energy_lease i (\<lambda>r. r\<lparr>el_status := Failed, el_failure_code := Some code,
           el_terminal_event_id := Some (ev_event_id (last ps)), el_terminal_at := Some now\<rparr>)
         ''energy assessment failure was not persisted'' N = Inr L'"
      by (auto simp: fail_energy_assessment_def energy_actor_def state_revalidated_def rbind_eq_Inr split: if_splits)
    moreover have "es \<in> energy_failure_batches R code i now sts a s L" using q(2) h by (auto simp: energy_failure_batches_def)
    ultimately show ?thesis using h(1) that(2) by (auto simp: same_job_def)
  qed
qed

lemma energy_claim_safe: "claim_energy_assessment R P a now i st s L = Inr ((x, successor), L') \<Longrightarrow> energy_safe L L'"
  by (erule energy_claim_cases)
    (auto dest!: settle_energy_safe insert_batch_energy energy_safe_insert intro: energy_safe_trans)

lemma energy_complete_safe: "complete_energy_assessment R i c p a now sts s L = Inr ((x, successor), L') \<Longrightarrow> energy_safe L L'"
  by (erule energy_complete_cases)
    (auto simp: same_job_def dest!: supersede_energy_safe insert_batch_energy energy_safe_update intro: energy_safe_trans)

lemma energy_fail_safe: "fail_energy_assessment R i code a now sts s L = Inr ((x, successor), L') \<Longrightarrow> energy_safe L L'"
  by (erule energy_fail_cases)
    (auto dest!: supersede_energy_safe insert_batch_energy dest: energy_safe_update intro: energy_safe_trans)

section \<open>The contract with the engine\<close>

interpretation energy_claiming: state_transaction P "claim_energy_assessment R P a now i st" "energy_claim_batches R P a now i st"
  for R P a now i st
proof
  fix s L r L'
  assume c: "claim_energy_assessment R P a now i st s L = Inr (r, L')"
  obtain x y where "r = (x, y)" by (cases r)
  with c show "authoritative_head L (bs_brain_id s) = Inr (Some (bs_last_sequence s))"
    using energy_claim_cases require_head_Inr by metis
next
  fix s L x successor L'
  assume c: "claim_energy_assessment R P a now i st s L = Inr ((x, successor), L')"
    and ok: "ledger_ok P L" and r: "reads_batches P (energy_claim_batches R P a now i st) s L"
  from c show "advances P (bs_brain_id s) s L (case successor of None \<Rightarrow> s | Some t \<Rightarrow> t) L'"
  proof (cases rule: energy_claim_cases)
    case (1 live M)
    with settle_energy_safe [OF 1(2)] frame_advances [OF ok] show ?thesis by simp
  next
    case (2 M es ps t N q)
    with r have "list_all (reads_event P) (numbered_events (bs_last_sequence s) es)" by (auto simp: reads_batches_def)
    from batch_advances [OF ok _ 2(5) energy_frames(1) [OF 2(6)] this] settle_energy_safe [OF 2(2)] 2(3) show ?thesis by simp
  qed
qed

interpretation energy_completing: state_transaction P "complete_energy_assessment R i c p a now sts"
  "energy_completion_batches R c p i now sts a" for P R i c p a now sts
proof
  fix s L r L'
  assume c: "complete_energy_assessment R i c p a now sts s L = Inr (r, L')"
  obtain x y where "r = (x, y)" by (cases r)
  with c show "authoritative_head L (bs_brain_id s) = Inr (Some (bs_last_sequence s))"
    using energy_complete_cases require_head_Inr by metis
next
  fix s L x successor L'
  assume c: "complete_energy_assessment R i c p a now sts s L = Inr ((x, successor), L')"
    and ok: "ledger_ok P L" and r: "reads_batches P (energy_completion_batches R c p i now sts a) s L"
  from c show "advances P (bs_brain_id s) s L (case successor of None \<Rightarrow> s | Some t \<Rightarrow> t) L'"
  proof (cases rule: energy_complete_cases)
    case 1
    with supersede_energy_safe frame_advances [OF ok] log_frame_simps(1) show ?thesis by auto
  next
    case (2 row status es ps t N)
    have "es \<in> energy_completion_batches R c p i now sts a s L" using 2(9,10,16) by (auto simp: energy_completion_batches_def)
    with r have "list_all (reads_event P) (numbered_events (bs_last_sequence s) es)" by (auto simp: reads_batches_def)
    from batch_advances [OF ok log_frame_simps(1) 2(17) energy_frames(2) [OF 2(18)] this] 2(3) show ?thesis by simp
  qed
qed

interpretation energy_failing: state_transaction P "fail_energy_assessment R i code a now sts"
  "energy_failure_batches R code i now sts a" for P R i code a now sts
proof
  fix s L r L'
  assume c: "fail_energy_assessment R i code a now sts s L = Inr (r, L')"
  obtain x y where "r = (x, y)" by (cases r)
  with c show "authoritative_head L (bs_brain_id s) = Inr (Some (bs_last_sequence s))"
    using energy_fail_cases require_head_Inr by metis
next
  fix s L x successor L'
  assume c: "fail_energy_assessment R i code a now sts s L = Inr ((x, successor), L')"
    and ok: "ledger_ok P L" and r: "reads_batches P (energy_failure_batches R code i now sts a) s L"
  from c show "advances P (bs_brain_id s) s L (case successor of None \<Rightarrow> s | Some t \<Rightarrow> t) L'"
  proof (cases rule: energy_fail_cases)
    case 1
    with supersede_energy_safe frame_advances [OF ok] log_frame_simps(1) show ?thesis by auto
  next
    case (2 es ps t N f lost)
    with r have "list_all (reads_event P) (numbered_events (bs_last_sequence s) es)" by (auto simp: reads_batches_def)
    from batch_advances [OF ok log_frame_simps(1) 2(4) energy_frames(2) [OF 2(5)] this] 2(2) show ?thesis by simp
  qed
qed

section \<open>The action events an assessment writes\<close>

definition assessment_event_types :: "string list" where
  "assessment_event_types = [''action.proposed'', ''action.energy_requested'', ''action.energy_assessed'', ''action.energy_assessment_failed'']"

lemma action_event_prepares:
  assumes "brain_ok s" "valid_event e" "event_admitted s e = Inr ()" "ev_event_type e \<in> set assessment_event_types"
    and "reduce_actions (bs_action_records s) e (is_authorized (bs_identity s) (ev_actor_id e) (ev_adapter_id e)) = Inr (xs, [])"
    and "length xs \<le> MAX_ACTION_RECORDS"
  shows "\<exists>v. prepared s e v \<and> reduce_values s e = typed_stage s e v \<and> bs_action_records v = xs"
proof -
  let ?t = "is_authorized (bs_identity s) (ev_actor_id e) (ev_adapter_id e)"
  have q: "reduce_identity (bs_identity s) e = Inr (bs_identity s)"
    "reduce_personality (bs_personality s) e (bs_logical_clock s) = Inr (bs_personality s)"
    "bound_actions xs = Inr (None, xs)" "reduce_world (bs_world s) e ?t [] = Inr (bs_world s)"
    "reduce_workspace s e = Inr (bs_workspace s)" "reduce_memory s e = Inr (bs_memories s)"
    using assms(4,6)
    by (auto simp: assessment_event_types_def reduce_identity_def reduce_personality_def bound_actions_def
      reduce_world_def event_layer_def reduce_workspace_def reduce_memory_def)
  from stages_prepare [OF assms(1-3) q(1,2) assms(5) q(3-6) refl] show ?thesis by blast
qed

lemma reduce_values_actions:
  assumes "reduce_values s e = Inr t"
  shows "\<exists>xs g. reduce_actions (bs_action_records s) e (is_authorized (bs_identity s) (ev_actor_id e) (ev_adapter_id e)) = Inr (xs, g)"
  using assms by (auto simp: reduce_values_def action_stage_def Let_def rbind_eq_Inr)

lemma replace_action_lookup: "lookup ar_action_id (replace_action xs b) (ar_action_id b) = Some b"
  by (simp add: replace_action_put put_last_same)

lemma replace_action_length: "distinct (map ar_action_id xs) \<Longrightarrow> ar_action_id b \<in> ar_action_id ` set xs \<Longrightarrow> length (replace_action xs b) = length xs"
  by (simp add: replace_action_put put_last_length)

lemma upsert_lookup:
  "lookup en_action_id (if MAX_ENERGY_RECORDS < length (upsert_energy es e) then last_n MAX_ENERGY_RECORDS (upsert_energy es e)
     else upsert_energy es e) (en_action_id e) = Some e"
proof -
  have "lookup en_action_id (filter (\<lambda>i. en_action_id i \<noteq> en_action_id e) es @ [e]) (en_action_id e) = Some e"
    by (simp add: lookup_append lookup_filter_same)
  moreover have "lookup en_action_id (last_n k (filter (\<lambda>i. en_action_id i \<noteq> en_action_id e) es) @ [e]) (en_action_id e) = Some e" for k
  proof -
    have "lookup en_action_id (last_n k (filter (\<lambda>i. en_action_id i \<noteq> en_action_id e) es)) (en_action_id e) = None"
      using set_last_n [of k "filter (\<lambda>i. en_action_id i \<noteq> en_action_id e) es"] by (auto simp: lookup_None_iff)
    then show ?thesis by (simp add: lookup_append)
  qed
  ultimately show ?thesis by (simp add: upsert_energy_def last_n_snoc MAX_ENERGY_RECORDS_def)
qed

lemma admit_fields: "admit n k d v = Inr v' \<Longrightarrow> bs_action_records v' = bs_action_records v \<and> bs_energy_records v' = bs_energy_records v"
  by (auto simp: admit_def rbind_eq_Inr)

lemma reduce_assessed:
  assumes "brain_ok s" "reduce_state s e = Inr t" "ev_event_type e = ''action.energy_assessed''"
  shows "\<exists>aid a b energy. action_id_from_event e = Inr aid \<and> state_action s aid = Some a \<and> assess_energy a e = Inr b \<and>
    state_action t aid = Some b \<and> energy_from_event e = Inr energy \<and> state_energy t aid = Some energy"
proof -
  let ?t = "is_authorized (bs_identity s) (ev_actor_id e) (ev_adapter_id e)"
  from assms(2) have e: "valid_event e" "event_admitted s e = Inr ()" "reduce_values s e = Inr t"
    by (auto simp: reduce_state_def state_revalidated_def event_revalidated_def state_from_data_def rbind_eq_Inr split: if_splits)
  obtain xs g where r: "reduce_actions (bs_action_records s) e ?t = Inr (xs, g)" using reduce_values_actions [OF e(3)] by blast
  then obtain aid a b where q: "action_id_from_event e = Inr aid" "lookup ar_action_id (bs_action_records s) aid = Some a"
    "assess_energy a e = Inr b" "xs = replace_action (bs_action_records s) b" "g = []"
    using assms(3) by (auto simp: reduce_actions_def action_lifecycle_events_def find_action_def step_action_def rbind_eq_Inr
      split: sum.splits option.splits)
  have ids: "ar_action_id a = aid" "ar_action_id b = ar_action_id a"
    using lookup_SomeD [OF q(2)] q(3) by (auto simp: assess_energy_def action_validated_def split: if_splits)
  have wf: "distinct (map ar_action_id (bs_action_records s))" "length (bs_action_records s) \<le> MAX_ACTION_RECORDS"
    using assms(1) all_countedD [of s WActions]
    by (simp_all add: brain_ok_def consistent_def counted_def Let_def actions_ok_def actions_wf_def)
  have "length xs \<le> MAX_ACTION_RECORDS"
    using replace_action_length [OF wf(1), of b] lookup_SomeD [OF q(2)] ids wf(2) q(4) by (metis imageI)
  from action_event_prepares [OF assms(1) e(1,2) _ r [unfolded q(5)] this] assms(3) obtain v where
    v: "reduce_values s e = typed_stage s e v" "bs_action_records v = xs" by (auto simp: assessment_event_types_def)
  with e(3) assms(3) have "assessed_stage s e v = Inr t" by (simp add: typed_stage_def)
  with q(1,2) obtain energy n d where st: "energy_from_event e = Inr energy"
    "admit WEnergies n d (v\<lparr>bs_energy_records := (if MAX_ENERGY_RECORDS < length (upsert_energy (bs_energy_records s) energy)
       then last_n MAX_ENERGY_RECORDS (upsert_energy (bs_energy_records s) energy) else upsert_energy (bs_energy_records s) energy)\<rparr>) = Inr t"
    by (auto simp: assessed_stage_def Let_def rbind_eq_Inr state_action_def split del: if_split)
  have key: "en_action_id energy = aid"
    using energy_from_event_id [OF st(1)] q(1) by (auto simp: action_id_from_event_def jget_def jget_or_def split: json.splits if_splits)
  have "state_energy t aid = Some energy" using admit_fields [OF st(2)] upsert_lookup [of "bs_energy_records s" energy] key
    by (simp add: state_energy_def)
  moreover have "state_action t aid = Some b" using admit_fields [OF st(2)] v(2) q(4) replace_action_lookup [of "bs_action_records s" b] ids
    by (simp add: state_action_def)
  ultimately show ?thesis using q st(1) by (auto simp: state_action_def)
qed

section \<open>A completion reaches the action\<close>

text \<open>The vector of a choice.\<close>

definition chosen_vector :: "energy_choice \<Rightarrow> energy_provenance \<Rightarrow> string \<Rightarrow> energy_vector" where
  "chosen_vector c p aid = \<lparr>en_action_id = aid, en_assessment_source = Some ''hermes_host_llm'',
     en_assessment_summary = Some (ec_summary c), en_provenance = freeze_items (provenance_payload p),
     en_evidence_basis = ec_evidence_basis c, en_unknown_dimensions = ec_unknown_dimensions c, en_deficits = ec_deficits c,
     en_salience = ec_salience c, en_urgency = ec_urgency c, en_valence = ec_valence c, en_arousal = ec_arousal c,
     en_control = ec_control c, en_resources = ec_resources c, en_cost = ec_cost c,
     en_personality_relevance = ec_personality_relevance c\<rparr>"

lemma map_of_frozen_items: "map_of (freeze_items m) k = map_option freeze (map_of m k)"
  by (induction m) (auto simp: map_of_jput)

lemma chosen_vector_parsed:
  assumes "valid_energy_choice c" "ev_payload e = freeze_items ([(''action_id'', JStr aid)] @ choice_payload c @
        [(''assessment_source'', JStr ''hermes_host_llm''), (''assessment_summary'', JStr (ec_summary c)),
         (''provenance'', JObj (provenance_payload p)), (''lease_id'', JStr i), (''source_event_id'', JStr src)])"
    and "energy_from_event e = Inr energy"
  shows "energy = chosen_vector c p aid"
proof -
  have f: "freeze_items (ec_deficits c) = ec_deficits c" "freeze_items (ec_evidence_basis c) = ec_evidence_basis c"
    using assms(1) freeze_items_frozen by (simp_all add: valid_energy_choice_def del: frozen.simps)
  from assms(3) show ?thesis
    unfolding energy_from_event_def energy_of_payload_def assms(2)
    by (simp add: rewrap_eq_Inr jitem_def jget_def jget_or_def map_of_frozen_items choice_payload_def obj_item_or_empty_def
      float_item_def chosen_vector_def Let_def f o_def as_strs_map split: if_splits)
qed

lemma energy_event_Inr:
  "energy_event t payload st b a aid = Inr e \<Longrightarrow> ev_event_type e = t \<and> ev_brain_id e = b \<and> ev_event_id e = st_event_id st \<and>
     ev_payload e = freeze_items payload \<and> ev_action_id e = Some aid"
  by (auto simp: energy_event_def new_event_def event_revalidated_def split: if_splits)

lemma assessment_events_Inr:
  assumes "assessment_events c p status now sts b a = Inr es"
  obtains x y where "es = [x, y]" "ev_event_type x = ''cognition.completed''" "ev_event_type y = ''action.energy_assessed''"
    "jget (ev_payload x) ''input_sha256'' = JStr (es_input_fingerprint status)"
    "jget (ev_payload y) ''source_event_id'' = JStr (ev_event_id x)"
    "ev_payload y = freeze_items ([(''action_id'', JStr (es_action_id status))] @ choice_payload c @
        [(''assessment_source'', JStr ''hermes_host_llm''), (''assessment_summary'', JStr (ec_summary c)),
         (''provenance'', JObj (provenance_payload p)), (''lease_id'', JStr (es_lease_id status)),
         (''source_event_id'', JStr (ev_event_id x))])"
proof -
  obtain s1 s2 where "sts = (s1, s2)" by (cases sts)
  with assms obtain x y where e: "energy_event ''cognition.completed''
       [(''schema_version'', JInt 1), (''purpose'', JStr ENERGY_PURPOSE), (''lease_id'', JStr (es_lease_id status)),
        (''action_id'', JStr (es_action_id status)),
        (''choice_fingerprint'', JStr (sha256_hex (energy_choice_text c))),
        (''provenance_fingerprint'', JStr (sha256_hex (energy_provenance_text p))),
        (''input_sha256'', JStr (es_input_fingerprint status)), (''structured'', JBool True),
        (''terminal_at'', JStr (iso_text now))] s1 b a (es_action_id status) = Inr x"
    "energy_event ''action.energy_assessed''
       ([(''action_id'', JStr (es_action_id status))] @ choice_payload c @
        [(''assessment_source'', JStr ''hermes_host_llm''), (''assessment_summary'', JStr (ec_summary c)),
         (''provenance'', JObj (provenance_payload p)), (''lease_id'', JStr (es_lease_id status)),
         (''source_event_id'', JStr (ev_event_id x))]) s2 b a (es_action_id status) = Inr y" "es = [x, y]"
    unfolding assessment_events_def by (auto simp: rbind_eq_Inr simp del: append.simps)
  show thesis
    by (rule that [OF e(3)])
      (use energy_event_Inr [OF e(1)] energy_event_Inr [OF e(2)] in \<open>simp_all add: jget_frozen_items jget_def jget_or_def choice_payload_def
        map_of_frozen_items\<close>)
qed

lemma numbered_two: "numbered_events n [x, y] = [sequenced x (n + 1), sequenced y (n + 2)]"
  by (simp add: numbered_events_def)

lemma updated_energy:
  assumes "update_energy_lease i f lost L = Inr L'" "\<And>r. el_lease_id (f r) = el_lease_id r"
  obtains r where "lookup el_lease_id (db_energy_leases L) i = Some r" "lookup el_lease_id (db_energy_leases L') i = Some (f r)"
    "log_frame L L'"
proof -
  from update_energy_Inr [OF assms(1)] obtain r where r: "lookup el_lease_id (db_energy_leases L) i = Some r"
    "L' = L\<lparr>db_energy_leases := update_rows el_lease_id i f (db_energy_leases L)\<rparr>" by blast
  with update_rows_lookup [of el_lease_id f, OF assms(2)] that [of r] show ?thesis by simp
qed

lemma energy_row_status: "energy_status_from_row R r = Inr st \<Longrightarrow> es_lease_id st = el_lease_id r \<and> es_brain_id st = el_brain_id r \<and>
    es_action_id st = el_action_id r \<and> es_action_request_event_id st = el_action_request_event_id r \<and> es_status st = el_status r \<and>
    es_requested_at st = el_requested_at r \<and> es_expires_at st = el_expires_at r \<and> es_input_fingerprint st = el_input_fingerprint r"
  by (auto simp: energy_status_from_row_def split: option.splits if_splits)

text \<open>
  C23. A completed assessment reaches its action. The brain's history grows by two events, the completed
  cognition with the fingerprint of the input the host was given, which is the one its provenance names, and
  the assessment that cites it; in the state the operation returns, the action of the lease is assessed by
  exactly that event and its energy is exactly the chosen vector, with the host as its source; and the
  lease is completed with that event, inside its time. Asked of the JSON reader: the two events read back.
\<close>

theorem assessment_reaches_action:
  assumes "ledger_ok P L" "brain_ok s" "complete_energy_assessment R i c p a now sts s L = Inr ((Completed, Some t), L')"
    and "reads_batches P (energy_completion_batches R c p i now sts a) s L"
  shows "\<exists>completed assessed row action.
    history L' (bs_brain_id s) = history L (bs_brain_id s) @ map row_of [completed, assessed] \<and>
    ev_event_type completed = ''cognition.completed'' \<and> ev_event_type assessed = ''action.energy_assessed'' \<and>
    jget (ev_payload completed) ''input_sha256'' = JStr (ep_input_sha256 p) \<and>
    jget (ev_payload assessed) ''source_event_id'' = JStr (ev_event_id completed) \<and>
    lookup el_lease_id (db_energy_leases L') i = Some row \<and> el_status row = Completed \<and>
    el_terminal_event_id row = Some (ev_event_id assessed) \<and> el_input_fingerprint row = ep_input_sha256 p \<and>
    el_requested_at row \<le> now \<and> now < el_expires_at row \<and>
    state_energy t (el_action_id row) = Some (chosen_vector c p (el_action_id row)) \<and>
    state_action t (el_action_id row) = Some action \<and> ar_energy_status action = Assessed \<and>
    ar_energy_assessment_event_id action = Some (ev_event_id assessed)"
  using assms(3)
proof (cases rule: energy_complete_cases)
  case (2 row status es ps u N)
  let ?b = "bs_brain_id s" and ?n = "bs_last_sequence s"
  obtain x y where e: "es = [x, y]" "ev_event_type x = ''cognition.completed''" "ev_event_type y = ''action.energy_assessed''"
    "jget (ev_payload x) ''input_sha256'' = JStr (es_input_fingerprint status)"
    "jget (ev_payload y) ''source_event_id'' = JStr (ev_event_id x)"
    "ev_payload y = freeze_items ([(''action_id'', JStr (es_action_id status))] @ choice_payload c @
        [(''assessment_source'', JStr ''hermes_host_llm''), (''assessment_summary'', JStr (ec_summary c)),
         (''provenance'', JObj (provenance_payload p)), (''lease_id'', JStr (es_lease_id status)),
         (''source_event_id'', JStr (ev_event_id x))])"
    by (rule assessment_events_Inr [OF 2(16)])
  have seq: "sequence_events ?b (?n + 1) s es = Inr (ps, u)" and t: "u = t"
    using 2(17,3) by (auto simp: insert_batch_def Let_def rbind_eq_Inr split: if_splits)
  have two: "ps = [sequenced x (?n + 1), sequenced y (?n + 2)]" using sequence_events_numbered [OF seq] e(1) numbered_two by simp
  have "es \<in> energy_completion_batches R c p i now sts a s L" using 2(9,10,16) by (auto simp: energy_completion_batches_def)
  with assms(4) sequence_events_numbered [OF seq] have "list_all (reads_event P) ps" by (simp add: reads_batches_def)
  note adv = insert_batch_advances [OF assms(1) 2(17) this]
  from seq obtain s1 where s1: "reduce_state s (sequenced x (?n + 1)) = Inr s1" "reduce_state s1 (sequenced y (?n + 2)) = Inr t"
    "valid_event (sequenced x (?n + 1))" unfolding two e(1) t by (auto simp: rbind_eq_Inr split: if_splits)
  have "event_admitted s (sequenced x (?n + 1)) = Inr ()" using reduce_state_Inr [OF s1(1)] by simp
  from reduce_untyped [OF assms(2) s1(3) this] e(2) s1(1) have ok: "brain_ok s1" by (auto simp: untyped_events_def)
  obtain aid ac b energy where f: "action_id_from_event (sequenced y (?n + 2)) = Inr aid" "assess_energy ac (sequenced y (?n + 2)) = Inr b"
    "state_action t aid = Some b" "energy_from_event (sequenced y (?n + 2)) = Inr energy" "state_energy t aid = Some energy"
    using reduce_assessed [OF ok s1(2)] e(3) by auto
  note st = energy_row_status [OF 2(10)]
  have "jget (ev_payload y) ''action_id'' = JStr (es_action_id status)" unfolding e(6)
    by (simp add: jget_def jget_or_def map_of_jput)
  with f(1) st have aid: "aid = el_action_id row" by (auto simp: action_id_from_event_def split: if_splits)
  have energy: "energy = chosen_vector c p aid"
    using chosen_vector_parsed [OF 2(6) _ f(4), of "es_action_id status" p] e(6) st aid by simp
  have b: "ar_energy_status b = Assessed" "ar_energy_assessment_event_id b = Some (ev_event_id y)"
    using f(2) by (auto simp: assess_energy_def action_validated_def split: if_splits)
  have same: "db_energy_leases N = db_energy_leases L"
    using 2(17) by (auto simp: insert_batch_def Let_def rbind_eq_Inr split: if_splits dest!: batch_rows)
  have row: "lookup el_lease_id (db_energy_leases L) i = Some row"
    using 2(9) by (auto simp: energy_lease_row_def of_option_def split: option.splits)
  obtain r where r: "lookup el_lease_id (db_energy_leases N) i = Some r" "lookup el_lease_id (db_energy_leases L') i = Some (r\<lparr>el_status := Completed,
           el_choice_fingerprint := Some (sha256_hex (energy_choice_text c)), el_choice_json := Some (energy_choice_text c),
           el_provenance_fingerprint := Some (sha256_hex (energy_provenance_text p)),
           el_provenance_json := Some (energy_provenance_text p),
           el_terminal_event_id := Some (ev_event_id (last ps)), el_terminal_at := Some now\<rparr>)" "log_frame N L'"
    by (rule updated_energy [OF 2(18)]) auto
  with same row have "r = row" by simp
  with r(2) two e(2-5) adv(4) st 2(12-14) f(3,5) energy aid b log_frame_history [OF r(3)] show ?thesis
    by (intro exI [of _ "sequenced x (?n + 1)"] exI [of _ "sequenced y (?n + 2)"]) simp
qed simp

end
