(* ===== verification/AssessedLive.thy ===== *)
theory AssessedLive imports Assessed
begin

text \<open>
  A live assessment completes: the two events of a completion always reduce on a consistent brain whose
  action awaits them. With it the properties of the leases get their witnesses: an action proposed, its
  energy requested and leased.
\<close>

section \<open>Events of an assessment\<close>

lemma frozen_item_list: "list_all (\<lambda>p. frozen (freeze (snd p))) m \<Longrightarrow> frozen (JObj (freeze_items m))"
proof (induction m)
  case (Cons p m)
  obtain k v where p: "p = (k, v)" by (cases p)
  with Cons have "frozen (freeze v)" "list_all (\<lambda>p. frozen (snd p)) (freeze_items m)" by simp_all
  then show ?case using jput_values [of frozen "freeze_items m" "freeze v" k] sorted_keys_freeze_items [of "p # m"]
    by (simp add: p)
qed simp

lemma energy_event_exists:
  assumes "brain_ok s" "stamp_ok st" "is_uuid4 a" "valid_event_type t" "frozen (JObj (freeze_items payload))"
    and aid: "valid_provenance (Some aid)" and b: "b = bs_brain_id s" "n = bs_last_sequence s + 1"
  obtains e where "energy_event t payload st b a aid = Inr e" "ev_event_type e = t" "ev_payload e = freeze_items payload"
    "ev_event_id e = st_event_id st" "ev_action_id e = Some aid" "ev_brain_id e = b" "ev_sequence e = None"
    "valid_event (sequenced e n)" "event_admitted s (sequenced e n) = Inr ()"
proof -
  define e where "e = \<lparr>ev_schema_version = 1, ev_event_id = st_event_id st, ev_event_type = t,
    ev_brain_id = b, ev_sequence = None, ev_wall_time = st_wall_time st,
    ev_monotonic_ns = st_monotonic_ns st, ev_actor_id = a, ev_adapter_id = Some ENERGY_ADAPTER_ID, ev_session_id = None,
    ev_turn_id = None, ev_action_id = Some aid, ev_causation_id = None, ev_correlation_id = None, ev_payload = freeze_items payload\<rparr>"
  have s: "is_uuid4 b" "0 \<le> bs_last_sequence s"
    using brain_ok_valid [OF assms(1)] b by (simp_all add: valid_state_def valid_parts_def state_shell_def)
  have "valid_provenance (Some ENERGY_ADAPTER_ID)" by code_simp
  with aid have v: "valid_event e"
    using assms(2-5) s by (simp add: e_def valid_event_def EVENT_SCHEMA_VERSION_def stamp_ok_def) (simp add: valid_provenance_def)
  show thesis
  proof
    show "energy_event t payload st b a aid = Inr e"
      using v by (simp add: energy_event_def new_event_def no_provenance_def e_def EVENT_SCHEMA_VERSION_def event_revalidated_def)
    show "valid_event (sequenced e n)" using v s(2) b by (simp add: sequenced_def valid_event_sequenced)
    show "event_admitted s (sequenced e n) = Inr ()" using b by (simp add: event_admitted_def sequenced_def e_def)
  qed (simp_all add: e_def)
qed

section \<open>The chosen vector is a vector\<close>

lemma usage_frozen: "valid_usage u \<Longrightarrow> frozen (freeze (usage_json u))"
  unfolding usage_json_def freeze.simps
  by (rule frozen_item_list) (auto simp: valid_usage_def opt_json_def split: option.split)

lemma provenance_frozen: "valid_energy_provenance p \<Longrightarrow> frozen (JObj (freeze_items (provenance_payload p)))"
proof (rule frozen_item_list)
  assume p: "valid_energy_provenance p"
  then have "frozen (freeze (JObj (ep_audit p)))" "frozen (freeze (usage_json (ep_usage p)))"
    using freeze_frozen [of "JObj (ep_audit p)"] usage_frozen by (simp_all add: valid_energy_provenance_def del: frozen.simps freeze.simps)
  then show "list_all (\<lambda>p. frozen (freeze (snd p))) (provenance_payload p)"
    unfolding provenance_payload_def by (simp del: freeze.simps(2))
qed

lemma jput_length: "length (jput k v m) \<le> Suc (length m)"
  by (induction k v m rule: jput.induct) auto

lemma freeze_items_length: "length (freeze_items m) \<le> length m"
proof (induction m)
  case (Cons p m)
  with jput_length [of "fst p" "freeze (snd p)" "freeze_items m"] show ?case by (cases p) simp
qed simp

lemma small_deficits: "bounded_deficits m \<Longrightarrow> frozen (JObj m) \<Longrightarrow> valid_numeric_map 0 1 m"
proof -
  assume m: "bounded_deficits m" "frozen (JObj m)"
  have "float_of_int 0 = Some 0" "float_of_int 1 = Some 1"
    using f64_numerals by (simp_all add: float_of_int_def is_f64_def)
  moreover have "i = 0 \<or> i = 1" if "0 \<le> i" "i \<le> 1" for i :: int using that by arith
  ultimately have small: "float_of_int i = Some (of_int i)" if "0 \<le> i" "i \<le> 1" for i using that by fastforce
  have "case as_float v of None \<Rightarrow> False | Some q \<Rightarrow> in_range 0 1 q"
    if "case v of JInt i \<Rightarrow> 0 \<le> i \<and> i \<le> 1 | JFloat q \<Rightarrow> 0 \<le> q \<and> q \<le> 1 | _ \<Rightarrow> False" for v
    using that by (cases v) (auto simp: in_range_def small)
  then show "valid_numeric_map 0 1 m" using m unfolding bounded_deficits_def valid_numeric_map_def list_all_iff by blast
qed

lemma chosen_valid:
  assumes "valid_energy_choice c" "valid_energy_provenance p" "str_len 1 512 aid"
  shows "valid_energy (chosen_vector c p aid)"
proof -
  have c: "frozen (JObj (ec_deficits c))" "bounded_deficits (ec_deficits c)" "frozen (JObj (ec_evidence_basis c))"
    "bounded_evidence (ec_evidence_basis c)" "choice_partition c"
    using assms(1) by (simp_all add: valid_energy_choice_def)
  have unknown: "set (ec_unknown_dimensions c) \<subseteq> set ENERGY_DIMENSIONS" "distinct (ec_unknown_dimensions c)"
    using c(5) by (simp_all add: choice_partition_def)
  have "distinct ENERGY_DIMENSIONS" by code_simp
  with unknown card_mono [OF _ unknown(1)] have len: "length (ec_unknown_dimensions c) \<le> length ENERGY_DIMENSIONS"
    by (simp add: distinct_card)
  have part: "evidence_partition (ec_evidence_basis c) (ec_unknown_dimensions c)"
    using c(5) by (auto simp: evidence_partition_def choice_partition_def list_all_iff)
  have prov: "length (freeze_items (provenance_payload p)) \<le> 32"
    using freeze_items_length [of "provenance_payload p"] by (simp add: provenance_payload_def)
  have basis: "valid_evidence_basis (ec_evidence_basis c)"
    using c(4) by (auto simp: bounded_evidence_def valid_evidence_basis_def list_all_iff split: json.splits)
  have rest: "list_all unit_float [ec_salience c, ec_urgency c, ec_control c, ec_resources c, ec_cost c, ec_personality_relevance c]"
    "list_all signed_unit_float [ec_valence c, ec_arousal c]" "length (ec_summary c) \<le> 512"
    using assms(1) by (simp_all add: valid_energy_choice_def str_len_def)
  show ?thesis
    unfolding valid_energy_def chosen_vector_def energy_vector.simps
    using rest provenance_frozen [OF assms(2)] prov basis unknown len part small_deficits [OF c(2,1)] c(3) assms(3)
    by (simp add: valid_unknown_dimensions_def list_all_iff subset_iff del: frozen.simps)
qed

lemma chosen_vector_reads:
  assumes "valid_energy_choice c" "valid_energy_provenance p" "str_len 1 512 aid"
    and "ev_payload e = freeze_items ([(''action_id'', JStr aid)] @ choice_payload c @
        [(''assessment_source'', JStr ''hermes_host_llm''), (''assessment_summary'', JStr (ec_summary c)),
         (''provenance'', JObj (provenance_payload p)), (''lease_id'', JStr i), (''source_event_id'', JStr src)])"
  shows "energy_from_event e = Inr (chosen_vector c p aid)"
proof -
  have f: "freeze_items (ec_deficits c) = ec_deficits c" "freeze_items (ec_evidence_basis c) = ec_evidence_basis c"
    using assms(1) freeze_items_frozen by (simp_all add: valid_energy_choice_def del: frozen.simps)
  have v: "valid_energy \<lparr>en_action_id = aid, en_assessment_source = Some ''hermes_host_llm'',
     en_assessment_summary = Some (ec_summary c), en_provenance = freeze_items (provenance_payload p),
     en_evidence_basis = ec_evidence_basis c, en_unknown_dimensions = ec_unknown_dimensions c, en_deficits = ec_deficits c,
     en_salience = ec_salience c, en_urgency = ec_urgency c, en_valence = ec_valence c, en_arousal = ec_arousal c,
     en_control = ec_control c, en_resources = ec_resources c, en_cost = ec_cost c,
     en_personality_relevance = ec_personality_relevance c\<rparr>"
    using chosen_valid [OF assms(1-3)] by (simp add: chosen_vector_def)
  show ?thesis
    unfolding energy_from_event_def energy_of_payload_def assms(4)
    by (simp add: rewrap_def jitem_def jget_def jget_or_def map_of_frozen_items choice_payload_def obj_item_or_empty_def
      float_item_def chosen_vector_def Let_def f o_def as_strs_map v of_option_def)
qed

lemma assessment_payload_frozen:
  assumes "valid_energy_choice c" "valid_energy_provenance p"
  shows "frozen (JObj (freeze_items ([(''action_id'', JStr aid)] @ choice_payload c @
        [(''assessment_source'', JStr ''hermes_host_llm''), (''assessment_summary'', JStr (ec_summary c)),
         (''provenance'', JObj (provenance_payload p)), (''lease_id'', JStr i), (''source_event_id'', JStr src)])))"
proof (rule frozen_item_list)
  have c: "frozen (JObj (ec_deficits c))" "frozen (JObj (ec_evidence_basis c))"
    "list_all is_f64 [ec_salience c, ec_urgency c, ec_valence c, ec_arousal c, ec_control c, ec_resources c, ec_cost c, ec_personality_relevance c]"
    using assms(1) by (simp_all add: valid_energy_choice_def unit_float_def signed_unit_float_def)
  have "list_all frozen (map JStr xs)" for xs by (simp add: list_all_iff)
  with c provenance_frozen [OF assms(2)] freeze_items_frozen [OF c(1)] freeze_items_frozen [OF c(2)]
  show "list_all (\<lambda>p. frozen (freeze (snd p))) ([(''action_id'', JStr aid)] @ choice_payload c @
        [(''assessment_source'', JStr ''hermes_host_llm''), (''assessment_summary'', JStr (ec_summary c)),
         (''provenance'', JObj (provenance_payload p)), (''lease_id'', JStr i), (''source_event_id'', JStr src)])"
    by (simp add: choice_payload_def list_all_iff)
qed

section \<open>The two events reduce\<close>

lemma assess_pending:
  assumes "valid_action a" "ar_energy_status a = EnergyPending"
  shows "\<exists>b. assess_energy a e = Inr b \<and> ar_action_id b = ar_action_id a"
proof -
  let ?b = "a\<lparr>ar_energy_status := Assessed, ar_energy_assessment_event_id := Some (ev_event_id e), ar_energy_failure_code := None\<rparr>"
  have "lifecycle_claims ?b = lifecycle_claims a" "canonical_claims ?b = canonical_claims a"
    by (simp_all add: lifecycle_claims_def canonical_claims_def split: option.split)
  then have "valid_action ?b" using assms(1) by (simp add: valid_action_def energy_claims_def bounded_opt_def)
  then show ?thesis using assms(2) by (simp add: assess_energy_def action_validated_def)
qed

lemma reduce_assessment:
  assumes "brain_ok s" "valid_event e" "event_admitted s e = Inr ()" "ev_event_type e = ''action.energy_assessed''"
    and "state_action s aid = Some a" "ar_energy_status a = EnergyPending"
    and "valid_energy_choice c" "valid_energy_provenance p" "\<not> blank aid" "ev_action_id e = Some aid"
    and "ev_payload e = freeze_items ([(''action_id'', JStr aid)] @ choice_payload c @
        [(''assessment_source'', JStr ''hermes_host_llm''), (''assessment_summary'', JStr (ec_summary c)),
         (''provenance'', JObj (provenance_payload p)), (''lease_id'', JStr i), (''source_event_id'', JStr src)])"
  shows "\<exists>t. reduce_state s e = Inr t \<and> brain_ok t"
proof -
  have wf: "actions_wf (bs_action_records s)" "length (bs_action_records s) \<le> MAX_ACTION_RECORDS"
    using assms(1) all_countedD [of s WActions] by (simp_all add: brain_ok_def consistent_def counted_def Let_def actions_ok_def)
  have a: "lookup ar_action_id (bs_action_records s) aid = Some a" "ar_action_id a = aid"
    using assms(5) lookup_SomeD [of ar_action_id "bs_action_records s" aid a] by (simp_all add: state_action_def)
  with wf(1) lookup_SomeD [OF a(1)] have va: "valid_action a" by (auto simp: actions_wf_def action_wf_def list_all_iff)
  then have sl: "str_len 1 512 aid" using a(2) by (simp add: valid_action_def)
  have "jget (ev_payload e) ''action_id'' = JStr aid"
    unfolding assms(11) jget_frozen_items by (simp add: jget_def jget_or_def)
  then have id: "action_id_from_event e = Inr aid" using assms(9,10) by (simp add: action_id_from_event_def)
  obtain b where b: "assess_energy a e = Inr b" "ar_action_id b = ar_action_id a" using assess_pending [OF va assms(6)] by blast
  let ?t = "is_authorized (bs_identity s) (ev_actor_id e) (ev_adapter_id e)"
  have r: "reduce_actions (bs_action_records s) e ?t = Inr (replace_action (bs_action_records s) b, [])"
    using id a(1) b(1) assms(4) by (simp add: reduce_actions_def action_lifecycle_events_def find_action_def step_action_def)
  have "length (replace_action (bs_action_records s) b) \<le> MAX_ACTION_RECORDS"
    using replace_action_length [of "bs_action_records s" b] wf imageI [of a _ ar_action_id] lookup_SomeD [OF a(1)] b(2) by (simp add: actions_wf_def)
  from action_event_prepares [OF assms(1-3) _ r this] assms(4) obtain v where
    v: "prepared s e v" "reduce_values s e = typed_stage s e v" by (auto simp: assessment_event_types_def)
  have "state_action s aid \<noteq> None" using assms(5) by simp
  from assessed_stage_succeeds [OF v(1) assms(4) id this chosen_vector_reads [OF assms(7,8) sl assms(11)]] obtain v' where
    v': "assessed_stage s e v = Inr v'" "brain_ok v'" by blast
  then have "reduce_values s e = Inr v'" using v(2) assms(4) by (simp add: typed_stage_def)
  from reduce_succeeds [OF assms(1-3) this v'(2)] v'(2) show ?thesis by blast
qed

lemma untyped_actions:
  assumes "brain_ok s" "valid_event e" "event_admitted s e = Inr ()" "ev_event_type e \<in> set untyped_events" "reduce_state s e = Inr t"
  shows "bs_action_records t = bs_action_records s"
proof -
  have "reduce_workspace s e = Inr (bs_workspace s)" using assms(4) by (auto simp: reduce_workspace_def untyped_events_def)
  from quiet_view [OF assms(1-3) _ this] assms(4) obtain v where "reduce_values s e = typed_stage s e v" "same_view s v"
    by (auto simp: quiet_events_def)
  moreover have "typed_stage s e v = Inr v" using assms(4) by (auto simp: typed_stage_def untyped_events_def)
  ultimately show ?thesis using assms(5)
    by (auto simp: reduce_state_def state_from_data_def rbind_eq_Inr same_view_def split: if_splits)
qed

lemma sequenced_action [simp]: "ev_action_id (sequenced e n) = ev_action_id e"
  by (simp add: sequenced_def)

lemma assessment_types: "valid_event_type ''cognition.completed''" "valid_event_type ''action.energy_assessed''"
  by code_simp+

lemma assessment_plan:
  assumes "brain_ok s" "list_all stamp_ok [st1, st2]" "is_uuid4 a" "valid_energy_choice c" "valid_energy_provenance p"
    and "state_action s (es_action_id status) = Some action" "ar_energy_status action = EnergyPending" "\<not> blank (es_action_id status)"
  shows "\<exists>es ps t. assessment_events c p status now (st1, st2) (bs_brain_id s) a = Inr es \<and> length es = 2 \<and>
    sequence_events (bs_brain_id s) (bs_last_sequence s + 1) s es = Inr (ps, t) \<and> brain_ok t \<and>
    map ev_event_id es = map st_event_id [st1, st2] \<and> bs_last_sequence t = bs_last_sequence s + 2"
proof -
  let ?b = "bs_brain_id s" and ?n = "bs_last_sequence s + 1" and ?aid = "es_action_id status"
  have st: "stamp_ok st1" "stamp_ok st2" using assms(2) by simp_all
  have step: "bs_brain_id s' = bs_brain_id r \<and> bs_last_sequence s' = m" if "reduce_state r (sequenced e m) = Inr s'" for r e m s'
    using reduce_state_Inr [OF that] by (simp add: log_of_def)
  have "valid_action action"
    using assms(1,6) by (auto simp: brain_ok_def consistent_def actions_ok_def actions_wf_def action_wf_def list_all_iff
      state_action_def dest: lookup_SomeD)
  moreover have "ar_action_id action = ?aid" using assms(6) by (auto simp: state_action_def dest: lookup_SomeD)
  ultimately have aid: "valid_provenance (Some ?aid)" using assms(8) by (simp add: valid_provenance_def valid_action_def str_len_def)
  let ?p1 = "[(''schema_version'', JInt 1), (''purpose'', JStr ENERGY_PURPOSE), (''lease_id'', JStr (es_lease_id status)),
        (''action_id'', JStr ?aid), (''choice_fingerprint'', JStr (sha256_hex (energy_choice_text c))),
        (''provenance_fingerprint'', JStr (sha256_hex (energy_provenance_text p))),
        (''input_sha256'', JStr (es_input_fingerprint status)), (''structured'', JBool True), (''terminal_at'', JStr (iso_text now))]"
  have f: "frozen (JObj (freeze_items ?p1))" by (rule frozen_item_list) simp
  obtain x where x: "energy_event ''cognition.completed'' ?p1 st1 ?b a ?aid = Inr x" "ev_event_type x = ''cognition.completed''"
    "ev_event_id x = st_event_id st1" "ev_brain_id x = ?b" "ev_sequence x = None" "valid_event (sequenced x ?n)"
    "event_admitted s (sequenced x ?n) = Inr ()"
    by (rule energy_event_exists [OF assms(1) st(1) assms(3) assessment_types(1) f aid refl refl])
  obtain u where u: "reduce_state s (sequenced x ?n) = Inr u" "brain_ok u"
    using reduce_untyped [OF assms(1) x(6,7)] x(2) by (auto simp: untyped_events_def)
  have "bs_action_records u = bs_action_records s"
    using untyped_actions [OF assms(1) x(6,7) _ u(1)] x(2) by (simp add: untyped_events_def)
  then have pending: "state_action u ?aid = Some action" using assms(6) by (simp add: state_action_def)
  let ?p2 = "[(''action_id'', JStr ?aid)] @ choice_payload c @
        [(''assessment_source'', JStr ''hermes_host_llm''), (''assessment_summary'', JStr (ec_summary c)),
         (''provenance'', JObj (provenance_payload p)), (''lease_id'', JStr (es_lease_id status)),
         (''source_event_id'', JStr (ev_event_id x))]"
  have b2: "?b = bs_brain_id u" "?n + 1 = bs_last_sequence u + 1" using step [OF u(1)] by simp_all
  obtain y where y: "energy_event ''action.energy_assessed'' ?p2 st2 ?b a ?aid = Inr y" "ev_event_type y = ''action.energy_assessed''"
    "ev_payload y = freeze_items ?p2" "ev_event_id y = st_event_id st2" "ev_action_id y = Some ?aid" "ev_brain_id y = ?b"
    "ev_sequence y = None" "valid_event (sequenced y (?n + 1))" "event_admitted u (sequenced y (?n + 1)) = Inr ()"
    by (rule energy_event_exists [OF u(2) st(2) assms(3) assessment_types(2) assessment_payload_frozen [OF assms(4,5)] aid b2])
  obtain t where t: "reduce_state u (sequenced y (?n + 1)) = Inr t" "brain_ok t"
    using reduce_assessment [OF u(2) y(8,9) _ pending assms(7,4,5,8), of "es_lease_id status" "ev_event_id x"] y(2,3,5) by auto
  have "assessment_events c p status now (st1, st2) ?b a = Inr [x, y]"
    unfolding assessment_events_def using x(1) y(1) by simp
  moreover have "sequence_events ?b ?n s [x, y] = Inr ([sequenced x ?n, sequenced y (?n + 1)], t)"
    using u(1) t(1) x(4-6) y(6-8) by (simp add: event_revalidated_def)
  ultimately show ?thesis using t step [OF t(1)] x(3) y(4) by (intro exI conjI) (assumption | simp)+
qed

section \<open>A live lease completes\<close>

lemma energy_leases_lookup: "energy_leases_ok L \<Longrightarrow> r \<in> set (db_energy_leases L) \<Longrightarrow>
    lookup el_lease_id (db_energy_leases L) (el_lease_id r) = Some r"
  by (simp add: energy_leases_ok_def assessing.lookup_row)

lemma assessed_row_stored:
  assumes "energy_leases_ok L" "row \<in> set (db_energy_leases L)" "el_status row = Pending" "energy_grows L N"
    and "e \<in> set (db_events N)" "row_event_id e \<notin> row_event_id ` set (db_events L)"
  shows "\<exists>L'. update_energy_lease (el_lease_id row) (\<lambda>r. r\<lparr>el_status := Completed,
       el_choice_fingerprint := Some (sha256_hex x), el_choice_json := Some x, el_provenance_fingerprint := Some (sha256_hex y),
       el_provenance_json := Some y, el_terminal_event_id := Some (row_event_id e), el_terminal_at := Some now\<rparr>) lost N = Inr L'"
proof -
  let ?f = "\<lambda>r. r\<lparr>el_status := Completed, el_choice_fingerprint := Some (sha256_hex x), el_choice_json := Some x,
     el_provenance_fingerprint := Some (sha256_hex y), el_provenance_json := Some y,
     el_terminal_event_id := Some (row_event_id e), el_terminal_at := Some now\<rparr>"
  have same: "db_energy_leases N = db_energy_leases L" using assms(4) by (simp add: energy_grows_def)
  have look: "lookup el_lease_id (db_energy_leases N) (el_lease_id row) = Some row"
    using energy_leases_lookup [OF assms(1,2)] same by simp
  have row: "energy_row_checks row" "energy_refs L row" using assms(1,2) by (auto simp: energy_leases_ok_def)
  have checks: "energy_row_checks (?f row)" using row(1) assms(3) by (simp add: energy_row_checks_def)
  have refs: "energy_refs N (?f row)"
    using energy_grows_refs [OF assms(4) row(2)] assms(5) by (auto simp: energy_refs_def list_ex_iff)
  have others: "energy_apart (?f row) q" if q: "q \<in> set (db_energy_leases L)" "el_lease_id q \<noteq> el_lease_id row" for q
  proof -
    have "energy_apart row q" using assessing.apart_rows [OF _ assms(2) q(1)] assms(1) q(2) by (simp add: energy_leases_ok_def)
    moreover have "energy_refs L q" using assms(1) q(1) by (simp add: energy_leases_ok_def)
    then have "el_terminal_event_id q \<noteq> Some (row_event_id e)" using assms(6) by (auto simp: energy_refs_def list_ex_iff) (metis imageI)
    ultimately show ?thesis by (auto simp: energy_apart_def)
  qed
  then have "list_all (energy_apart (?f row)) (filter (\<lambda>q. el_lease_id q \<noteq> el_lease_id row) (db_energy_leases N))"
    using same by (simp add: list_all_iff)
  with look checks refs assms(3) show ?thesis unfolding update_energy_lease_def by simp
qed

lemma batch_fits:
  assumes "ledger_ok P L" "db_brains L (bs_brain_id s) = Some (bs_last_sequence s + 1)" "es \<noteq> []" "0 \<le> bs_last_sequence s"
    and "sequence_events (bs_brain_id s) (bs_last_sequence s + 1) s es = Inr (ps, t)" "fresh_ids es L"
  shows "\<exists>N. insert_batch s es L = Inr ((ps, t), N) \<and> energy_grows L N \<and> db_events N = db_events L @ map row_of ps"
proof -
  let ?b = "bs_brain_id s" and ?n = "bs_last_sequence s"
  note num = sequence_events_numbered [OF assms(5)]
  have head: "?n = int (length (history L ?b))" using ledger_okD(3) [OF assms(1,2)] by simp
  let ?M = "L\<lparr>db_brains := (db_brains L)(?b \<mapsto> bs_last_sequence t + 1)\<rparr>"
  have old: "\<forall>q \<in> set (db_events ?M). row_brain_id q = ?b \<longrightarrow> row_sequence q \<le> ?n"
    using numbered_bounds [OF ledger_okD(1) [OF assms(1)], of _ ?b] head by (auto simp: history_def)
  have "fresh_ids es ?M" using assms(6) by (simp add: fresh_ids_def)
  then obtain N where N: "rfold (\<lambda>L p. insert_sequenced p L) ?M (numbered_events ?n es) = Inr N"
    using batch_inserts [OF _ old assms(4)] num by (auto simp: list_all_iff)
  with assms(2,3,5) num have "insert_batch s es L = Inr ((ps, t), N)" by (simp add: insert_batch_def)
  moreover have "N = ?M\<lparr>db_events := db_events L @ map row_of ps\<rparr>" using batch_rows [OF N] num by simp
  ultimately show ?thesis by (auto simp: energy_grows_def)
qed

lemma assessment_completes:
  assumes "ledger_ok P L" "energy_leases_ok L" "brain_ok s" "db_brains L (bs_brain_id s) = Some (bs_last_sequence s + 1)"
    and "valid_energy_choice c" "valid_energy_provenance p" "row \<in> set (db_energy_leases L)"
    and "energy_status_from_row R row = Inr status" "el_status row = Pending" "el_brain_id row = bs_brain_id s"
    and "ep_input_sha256 p = el_input_fingerprint row" "el_requested_at row \<le> now" "now < el_expires_at row"
    and "state_action s (el_action_id row) = Some action" "ar_energy_status action = EnergyPending"
    and "ar_energy_request_event_id action = Some (el_action_request_event_id row)" "\<not> blank (el_action_id row)"
    and "list_all stamp_ok [st1, st2]" "distinct (map st_event_id [st1, st2])"
    and "list_all (\<lambda>i. i \<notin> row_event_id ` set (db_events L)) (map st_event_id [st1, st2])"
  shows "\<exists>t L'. complete_energy_assessment R (el_lease_id row) c p (bs_brain_id s) now (st1, st2) s L =
    Inr ((Completed, Some t), L') \<and> brain_ok t"
proof -
  let ?b = "bs_brain_id s" and ?n = "bs_last_sequence s"
  have b: "is_uuid4 ?b" "0 \<le> ?n" "valid_state s"
    using brain_ok_valid [OF assms(3)] by (simp_all add: valid_state_def valid_parts_def state_shell_def)
  note st = energy_row_status [OF assms(8)]
  have i: "is_uuid4 (el_lease_id row)" using assms(8) by (auto simp: energy_status_from_row_def split: option.splits if_splits)
  have aw: "state_action s (es_action_id status) = Some action" "\<not> blank (es_action_id status)" using assms(14,17) st by simp_all
  obtain es ps t where e: "assessment_events c p status now (st1, st2) ?b ?b = Inr es" "length es = 2"
    "sequence_events ?b (?n + 1) s es = Inr (ps, t)" "brain_ok t" "map ev_event_id es = map st_event_id [st1, st2]"
    using assessment_plan [OF assms(3,18) b(1) assms(5,6) aw(1) assms(15) aw(2)] by blast
  note num = sequence_events_numbered [OF e(3)]
  have "list_all (\<lambda>i. i \<notin> row_event_id ` set (db_events L)) (map ev_event_id es)" "distinct (map ev_event_id es)"
    unfolding e(5) by (rule assms)+
  then have fresh: "fresh_ids es L" by (simp add: fresh_ids_def list.pred_map o_def)
  have ne: "es \<noteq> []" using e(2) by auto
  obtain N where N: "insert_batch s es L = Inr ((ps, t), N)" "energy_grows L N" "db_events N = db_events L @ map row_of ps"
    using batch_fits [OF assms(1,4) ne b(2) e(3) fresh] by blast
  have "map ev_event_id ps = map ev_event_id es" using num by (auto simp: numbered_events_def nth_enumerate_eq intro!: nth_equalityI)
  with e(5) have ids: "map ev_event_id ps = [st_event_id st1, st_event_id st2]" by simp
  then have last: "ev_event_id (last ps) = st_event_id st2" "ps \<noteq> []" by (auto simp: map_eq_Cons_conv)
  let ?e = "row_of (last ps)"
  have e': "row_event_id ?e = ev_event_id (last ps)" by (simp add: row_of_def)
  have "?e \<in> set (db_events N)" using N(3) last(2) by simp
  moreover have "row_event_id ?e \<notin> row_event_id ` set (db_events L)" using assms(20) e' last(1) by simp
  ultimately obtain L' where L': "update_energy_lease (el_lease_id row) (\<lambda>r. r\<lparr>el_status := Completed,
       el_choice_fingerprint := Some (sha256_hex (energy_choice_text c)), el_choice_json := Some (energy_choice_text c),
       el_provenance_fingerprint := Some (sha256_hex (energy_provenance_text p)), el_provenance_json := Some (energy_provenance_text p),
       el_terminal_event_id := Some (ev_event_id (last ps)), el_terminal_at := Some now\<rparr>)
       ''energy assessment result was not persisted'' N = Inr L'"
    using assessed_row_stored [OF assms(2,7,9) N(2)] e' by metis
  have "authoritative_head L ?b = Inr (Some ?n)" using assms(4) b(2) by (simp add: authoritative_head_def)
  then have "complete_energy_assessment R (el_lease_id row) c p ?b now (st1, st2) s L = Inr ((Completed, Some t), L')"
    using e(1) N(1) L' i b assms(5,6,8-16) st energy_leases_lookup [OF assms(2,7)]
    by (simp add: complete_energy_assessment_def energy_actor_def state_revalidated_def choice_revalidated_energy_def
      provenance_revalidated_def validate_ok energy_lease_row_def of_option_def require_head_def awaits_assessment_def)
  with e(4) show ?thesis by blast
qed

text \<open>
  C24. A live assessment can always be completed: on a sound ledger at the head of a consistent brain, a pending
  lease of the brain that has not expired, whose action still awaits the request the lease is for, is completed
  by any valid choice with a provenance of the leased input, when the two events have fresh identifiers, and the
  brain stays consistent.
\<close>

theorem live_assessment_completes:
  assumes "ledger_ok P L" "energy_leases_ok L" "brain_ok s" "db_brains L (bs_brain_id s) = Some (bs_last_sequence s + 1)"
    and "valid_energy_choice c" "valid_energy_provenance p" "row \<in> set (db_energy_leases L)"
    and "energy_status_from_row R row = Inr status" "el_status row = Pending" "el_brain_id row = bs_brain_id s"
    and "ep_input_sha256 p = el_input_fingerprint row" "el_requested_at row \<le> now" "now < el_expires_at row"
    and "state_action s (el_action_id row) = Some action" "ar_energy_status action = EnergyPending"
    and "ar_energy_request_event_id action = Some (el_action_request_event_id row)" "\<not> blank (el_action_id row)"
    and "list_all stamp_ok [st1, st2]" "distinct (map st_event_id [st1, st2])"
    and "list_all (\<lambda>i. i \<notin> row_event_id ` set (db_events L)) (map st_event_id [st1, st2])"
  shows "\<exists>t L'. complete_energy_assessment R (el_lease_id row) c p (bs_brain_id s) now (st1, st2) s L =
    Inr ((Completed, Some t), L') \<and> brain_ok t"
  by (rule assessment_completes [OF assms])

section \<open>A brain whose action awaits its energy\<close>

text \<open>Three events: the action is proposed, its energy is requested, the cognition is asked for.\<close>

lemma reduce_action_event:
  assumes "brain_ok s" "valid_event e" "event_admitted s e = Inr ()"
    and "ev_event_type e \<in> {''action.proposed'', ''action.energy_requested''}" "map_of (ev_payload e) ''reassessment_reason'' = None"
    and "\<And>t. reduce_actions (bs_action_records s) e t = Inr (xs, [])" "length xs \<le> MAX_ACTION_RECORDS"
  shows "\<exists>t. reduce_state s e = Inr t \<and> brain_ok t \<and> bs_action_records t = xs"
proof -
  have "ev_event_type e \<in> set assessment_event_types" using assms(4) by (auto simp: assessment_event_types_def)
  from action_event_prepares [OF assms(1-3) this assms(6,7)] obtain v where
    v: "prepared s e v" "reduce_values s e = typed_stage s e v" "bs_action_records v = xs" by blast
  have "typed_stage s e v = Inr v"
    using assms(4,5) typed_stage_other [of e s v] by (auto simp: typed_events_def jget_def jget_or_def)
  then have "reduce_state s e = state_from_data v"
    using v(2) assms(2,3) brain_ok_valid [OF assms(1)] by (simp add: reduce_state_def state_revalidated_def event_revalidated_def)
  with v(3) reduce_state_ok [OF assms(1,2)] assms(4) show ?thesis
    by (auto simp: state_from_data_def escapes_def split: if_splits)
qed

definition energy_request_id :: string where
  "energy_request_id = ''22222222-2222-4222-8222-222222222222''"

definition energy_cognition_id :: string where
  "energy_cognition_id = ''33333333-3333-4333-8333-333333333333''"

definition proposed_event :: event_envelope where
  "proposed_event = action_event ''action.proposed'' [(''intent'', JObj [])]"

definition energy_request_event :: event_envelope where
  "energy_request_event = (action_event ''action.energy_requested'' [])\<lparr>ev_event_id := energy_request_id\<rparr>"

definition energy_cognition_event :: event_envelope where
  "energy_cognition_event = (sample_event ''cognition.requested'' [])\<lparr>ev_event_id := energy_cognition_id\<rparr>"

definition awaiting_events :: "event_envelope list" where
  "awaiting_events = [sequenced proposed_event 1, sequenced energy_request_event 2, sequenced energy_cognition_event 3]"

definition energy_lease_sample :: energy_lease_row where
  "energy_lease_sample = \<lparr>el_lease_id = sample_id, el_brain_id = sample_id, el_action_id = ''a'',
     el_action_request_event_id = energy_request_id, el_request_sequence = 3, el_request_event_id = energy_cognition_id,
     el_status = Pending, el_requested_at = 0, el_expires_at = 120000000, el_input_fingerprint = sha256_hex ''{}'',
     el_input_json = ''{}'', el_choice_fingerprint = None, el_choice_json = None, el_provenance_fingerprint = None,
     el_provenance_json = None, el_failure_code = None, el_terminal_event_id = None, el_terminal_at = None\<rparr>"

definition awaiting_db :: database where
  "awaiting_db = empty_database\<lparr>db_brains := [sample_id \<mapsto> 4],
     db_events := map (\<lambda>e. event_row_of e (the (ev_sequence e))) awaiting_events, db_energy_leases := [energy_lease_sample]\<rparr>"

definition calm_choice :: energy_choice where
  "calm_choice = \<lparr>ec_schema_version = 1, ec_deficits = [], ec_salience = 0, ec_urgency = 1, ec_valence = 0, ec_arousal = 0,
     ec_control = 0, ec_resources = 0, ec_cost = 0, ec_personality_relevance = 0, ec_evidence_basis = [],
     ec_unknown_dimensions = ENERGY_DIMENSIONS, ec_summary = ''calm''\<rparr>"

definition calm_provenance :: energy_provenance where
  "calm_provenance = \<lparr>ep_schema_version = 1, ep_agent_id = ''host'', ep_audit = [], ep_input_sha256 = sha256_hex ''{}'',
     ep_model = ''m'', ep_prompt_version = ''alice-energy-v1'', ep_provider = ''p'',
     ep_usage = \<lparr>eu_input_tokens = 0, eu_output_tokens = 0, eu_total_tokens = 0, eu_cache_read_tokens = 0,
       eu_cache_write_tokens = 0, eu_cost_usd = None\<rparr>\<rparr>"

definition calm_reader :: energy_reader where
  "calm_reader = \<lparr>er_json = (\<lambda>_. Some (JObj [])), er_choice = (\<lambda>_. None), er_provenance = (\<lambda>_. None),
     er_observation = (\<lambda>_. None)\<rparr>"

definition energy_stamps :: "stamp \<times> stamp" where
  "energy_stamps = (sample_stamp\<lparr>st_event_id := ''44444444-4444-4444-8444-444444444444''\<rparr>,
     sample_stamp\<lparr>st_event_id := ''55555555-5555-4555-8555-555555555555''\<rparr>)"

lemma awaiting_ids:
  "is_uuid4 energy_request_id" "is_uuid4 energy_cognition_id" "list_all stamp_ok [fst energy_stamps, snd energy_stamps]"
  "distinct (map ev_event_id awaiting_events @ map st_event_id [fst energy_stamps, snd energy_stamps])"
  by code_simp+

lemma awaiting_valid: "list_all valid_event awaiting_events"
proof -
  have t: "valid_event_type ''action.proposed''" "valid_event_type ''action.energy_requested''" "valid_event_type ''cognition.requested''"
    by code_simp+
  have v: "valid_event (sample_event x p)" if "valid_event_type x" "frozen (JObj p)" for x p using sample_event_valid [OF that] .
  have "valid_event proposed_event" unfolding proposed_event_def action_event_def by (rule v [OF t(1)]) (simp add: sorted_keys_def)
  moreover have "valid_event energy_request_event"
    using v [OF t(2), of "[(''action_id'', JStr ''a'')]"] awaiting_ids(1)
    by (simp add: energy_request_event_def action_event_def valid_event_def)
  moreover have "valid_event energy_cognition_event"
    using v [OF t(3), of "[]"] awaiting_ids(2) by (simp add: energy_cognition_event_def valid_event_def)
  ultimately show ?thesis by (simp add: awaiting_events_def sequenced_def valid_event_sequenced)
qed

lemma awaiting_state:
  "\<exists>s action. brain_ok s \<and> bs_brain_id s = sample_id \<and> bs_last_sequence s = 3 \<and> state_action s ''a'' = Some action \<and>
     ar_energy_status action = EnergyPending \<and> ar_energy_request_event_id action = Some energy_request_id"
proof -
  let ?s = "brain_genesis sample_id" and ?x = "sequenced proposed_event 1" and ?y = "sequenced energy_request_event 2"
    and ?z = "sequenced energy_cognition_event 3"
  have v: "valid_event ?x" "valid_event ?y" "valid_event ?z" using awaiting_valid by (simp_all add: awaiting_events_def)
  have log: "bs_brain_id r = bs_brain_id s \<and> bs_last_sequence r = n" if "reduce_state s (sequenced e n) = Inr r" for r s e n
    using reduce_state_Inr [OF that] by (simp add: log_of_def)
  let ?a = "sample_action\<lparr>ar_phase := Proposed, ar_phase_history := [Proposed], ar_rd_phase := RdSimulate\<rparr>"
  have va: "valid_action ?a"
    by (simp add: sample_action_def valid_action_def str_len_def bounded_opt_def lifecycle_claims_def canonical_claims_def energy_claims_def)
  have ok: "brain_ok ?s" by (rule brain_genesis_ok) simp
  have ex: "event_admitted ?s ?x = Inr ()"
    by (simp add: event_admitted_def proposed_event_def action_event_def sequenced_def brain_genesis_def)
  have rx: "reduce_actions (bs_action_records ?s) ?x t = Inr ([?a], [])" for t
    using va by (simp add: brain_genesis_def reduce_actions_def action_lifecycle_events_def proposed_event_def action_event_def
      action_id_from_event_def jget_def jget_or_def blank_Cons py_space_def propose_action_def rewrap_def action_validated_def
      sequenced_def sample_action_def)
  obtain s1 where s1: "reduce_state ?s ?x = Inr s1" "brain_ok s1" "bs_action_records s1 = [?a]"
    using reduce_action_event [OF ok v(1) ex _ _ rx] by (auto simp: proposed_event_def action_event_def MAX_ACTION_RECORDS_def)
  let ?b = "?a\<lparr>ar_energy_status := EnergyPending, ar_energy_request_event_id := Some energy_request_id\<rparr>"
  have vb: "valid_action ?b"
    by (simp add: sample_action_def valid_action_def str_len_def bounded_opt_def lifecycle_claims_def canonical_claims_def energy_claims_def)
  have ey: "event_admitted s1 ?y = Inr ()" using log [OF s1(1)]
    by (simp add: event_admitted_def energy_request_event_def action_event_def sequenced_def brain_genesis_def)
  have ry: "reduce_actions (bs_action_records s1) ?y t = Inr ([?b], [])" for t
    unfolding s1(3) using vb by (simp add: reduce_actions_def action_lifecycle_events_def energy_request_event_def action_event_def
      action_id_from_event_def jget_def jget_or_def blank_Cons py_space_def find_action_def step_action_def request_energy_def
      action_validated_def sequenced_def sample_action_def replace_action_def)
  obtain s2 where s2: "reduce_state s1 ?y = Inr s2" "brain_ok s2" "bs_action_records s2 = [?b]"
    using reduce_action_event [OF s1(2) v(2) ey _ _ ry] by (auto simp: energy_request_event_def action_event_def MAX_ACTION_RECORDS_def)
  have ez: "event_admitted s2 ?z = Inr ()" using log [OF s1(1)] log [OF s2(1)]
    by (simp add: event_admitted_def energy_cognition_event_def sequenced_def brain_genesis_def)
  have tz: "ev_event_type ?z \<in> set untyped_events" by (simp add: energy_cognition_event_def untyped_events_def)
  obtain s3 where s3: "reduce_state s2 ?z = Inr s3" "brain_ok s3" using reduce_untyped [OF s2(2) v(3) ez tz] by blast
  have "bs_action_records s3 = [?b]" using untyped_actions [OF s2(2) v(3) ez tz s3(1)] s2(3) by simp
  then have "state_action s3 ''a'' = Some ?b" by (simp add: state_action_def sample_action_def)
  moreover have "bs_brain_id s3 = sample_id" "bs_last_sequence s3 = 3" using log [OF s1(1)] log [OF s2(1)] log [OF s3(1)]
    by (simp_all add: brain_genesis_def)
  ultimately show ?thesis using s3(2) by (intro exI [of _ s3] exI [of _ ?b]) simp
qed

definition awaiting_platform :: "event_envelope list \<Rightarrow> platform" where
  "awaiting_platform es = reader (awaiting_events @ es)"

lemma awaiting_ok:
  assumes "distinct (map ev_event_id (awaiting_events @ es))"
  shows "ledger_ok (awaiting_platform es) awaiting_db"
proof -
  let ?P = "awaiting_platform es" and ?x = "sequenced proposed_event 1" and ?y = "sequenced energy_request_event 2"
    and ?z = "sequenced energy_cognition_event 3"
  have "list_all (reads_event ?P) awaiting_events" using reader_reads [OF assms] by (simp add: awaiting_platform_def)
  with awaiting_valid have d: "decode_event ?P (event_row_of ?x 1) = Inr ?x" "decode_event ?P (event_row_of ?y 2) = Inr ?y"
    "decode_event ?P (event_row_of ?z 3) = Inr ?z" by (simp_all add: awaiting_events_def decode_row_of)
  have id: "distinct [sample_id, energy_request_id, energy_cognition_id]" using awaiting_ids(4)
    by (simp add: awaiting_events_def proposed_event_def action_event_def energy_request_event_def energy_cognition_event_def)
  let ?L1 = "awaiting_db\<lparr>db_brains := [sample_id \<mapsto> 2], db_events := [event_row_of ?x 1]\<rparr>"
  let ?L2 = "awaiting_db\<lparr>db_brains := [sample_id \<mapsto> 3], db_events := [event_row_of ?x 1, event_row_of ?y 2]\<rparr>"
  have e: "ev_brain_id proposed_event = sample_id" "ev_brain_id energy_request_event = sample_id" "ev_brain_id energy_cognition_event = sample_id"
    "ev_event_id proposed_event = sample_id" "ev_event_id energy_request_event = energy_request_id" "ev_event_id energy_cognition_event = energy_cognition_id"
    by (simp_all add: proposed_event_def action_event_def energy_request_event_def energy_cognition_event_def)
  have "grows empty_database (event_row_of ?x 1) ?L1"
    by (simp add: grows_def awaiting_db_def empty_database_def history_def e)
  from grows_ok [OF empty_ok this d(1)] have l1: "ledger_ok ?P ?L1" .
  have "grows ?L1 (event_row_of ?y 2) ?L2" using id
    by (auto simp: grows_def awaiting_db_def empty_database_def history_def e)
  from grows_ok [OF l1 this d(2)] have l2: "ledger_ok ?P ?L2" .
  have "grows ?L2 (event_row_of ?z 3) awaiting_db" using id
    by (auto simp: grows_def awaiting_db_def empty_database_def history_def e awaiting_events_def)
  from grows_ok [OF l2 this d(3)] show ?thesis .
qed

lemma awaiting_leases: "energy_leases_ok awaiting_db"
  by (simp add: energy_leases_ok_def awaiting_db_def energy_row_checks_def energy_refs_def energy_lease_sample_def awaiting_events_def
    str_len_def proposed_event_def action_event_def energy_request_event_def energy_cognition_event_def)

lemma calm_valid: "valid_energy_choice calm_choice" "valid_energy_provenance calm_provenance"
proof -
  have "choice_partition calm_choice" by code_simp
  moreover have "bounded_deficits []" "bounded_evidence []" by code_simp+
  ultimately show "valid_energy_choice calm_choice"
    by (simp add: valid_energy_choice_def calm_choice_def unit_float_def signed_unit_float_def in_range_def str_len_def sorted_keys_def)
  have "bounded_audit []" by code_simp
  then show "valid_energy_provenance calm_provenance"
    by (simp add: valid_energy_provenance_def calm_provenance_def is_sha256_hex str_len_def sorted_keys_def valid_usage_def)
qed

lemma lease_reads: "\<exists>st. energy_status_from_row calm_reader energy_lease_sample = Inr st"
  using awaiting_ids by (simp add: energy_status_from_row_def row_input_def calm_reader_def energy_lease_sample_def stored_def)

lemma awaiting_facts:
  assumes "brain_ok s" "bs_brain_id s = sample_id" "bs_last_sequence s = 3" "state_action s ''a'' = Some action"
    "ar_energy_status action = EnergyPending" "ar_energy_request_event_id action = Some energy_request_id"
  shows "db_brains awaiting_db (bs_brain_id s) = Some (bs_last_sequence s + 1)" "energy_lease_sample \<in> set (db_energy_leases awaiting_db)"
    "el_status energy_lease_sample = Pending" "el_brain_id energy_lease_sample = bs_brain_id s"
    "ep_input_sha256 calm_provenance = el_input_fingerprint energy_lease_sample"
    "el_requested_at energy_lease_sample \<le> 1" "1 < el_expires_at energy_lease_sample"
    "state_action s (el_action_id energy_lease_sample) = Some action" "ar_energy_status action = EnergyPending"
    "ar_energy_request_event_id action = Some (el_action_request_event_id energy_lease_sample)"
    "\<not> blank (el_action_id energy_lease_sample)" "list_all stamp_ok [fst energy_stamps, snd energy_stamps]"
    "distinct (map st_event_id [fst energy_stamps, snd energy_stamps])"
    "list_all (\<lambda>i. i \<notin> row_event_id ` set (db_events awaiting_db)) (map st_event_id [fst energy_stamps, snd energy_stamps])"
  using assms awaiting_ids(3,4)
  by (auto simp: awaiting_db_def energy_lease_sample_def calm_provenance_def blank_Cons py_space_def awaiting_events_def)

lemma awaiting_completes:
  assumes "brain_ok s" "bs_brain_id s = sample_id" "bs_last_sequence s = 3" "state_action s ''a'' = Some action"
    "ar_energy_status action = EnergyPending" "ar_energy_request_event_id action = Some energy_request_id"
  shows "\<exists>t L'. complete_energy_assessment calm_reader sample_id calm_choice calm_provenance sample_id 1 energy_stamps s awaiting_db =
    Inr ((Completed, Some t), L') \<and> brain_ok t"
proof -
  obtain st where st: "energy_status_from_row calm_reader energy_lease_sample = Inr st" using lease_reads by blast
  have "ledger_ok (awaiting_platform []) awaiting_db" using awaiting_ids(4) by (intro awaiting_ok) simp
  from assessment_completes [OF this awaiting_leases assms(1) awaiting_facts(1) [OF assms] calm_valid awaiting_facts(2) [OF assms] st
      awaiting_facts(3-14) [OF assms]] assms(2)
  show ?thesis by (simp add: energy_lease_sample_def)
qed

lemma live_assessment_completes_witness:
  "\<exists>s t L'. complete_energy_assessment calm_reader sample_id calm_choice calm_provenance sample_id 1 energy_stamps s awaiting_db =
    Inr ((Completed, Some t), L') \<and> brain_ok t"
proof -
  obtain s action where s: "brain_ok s" "bs_brain_id s = sample_id" "bs_last_sequence s = 3" "state_action s ''a'' = Some action"
    "ar_energy_status action = EnergyPending" "ar_energy_request_event_id action = Some energy_request_id" using awaiting_state by blast
  obtain st where st: "energy_status_from_row calm_reader energy_lease_sample = Inr st" using lease_reads by blast
  have "ledger_ok (awaiting_platform []) awaiting_db" using awaiting_ids(4) by (intro awaiting_ok) simp
  from live_assessment_completes [OF this awaiting_leases s(1) awaiting_facts(1) [OF s] calm_valid awaiting_facts(2) [OF s] st
      awaiting_facts(3-14) [OF s]] s(2)
  show ?thesis by (auto simp: energy_lease_sample_def)
qed

lemma assessment_event_ids:
  "assessment_events c p status now (x1, x2) b a = Inr es \<Longrightarrow> map ev_event_id es = [st_event_id x1, st_event_id x2]"
  by (auto simp: assessment_events_def rbind_eq_Inr dest!: energy_event_Inr)

lemma assessment_reaches_action_witness:
  "\<exists>P s t L' energy. ledger_ok P awaiting_db \<and>
     complete_energy_assessment calm_reader sample_id calm_choice calm_provenance sample_id 1 energy_stamps s awaiting_db =
       Inr ((Completed, Some t), L') \<and>
     length (history L' sample_id) = 5 \<and> state_energy t ''a'' = Some energy \<and> en_urgency energy = 1"
proof -
  obtain s action where s: "brain_ok s" "bs_brain_id s = sample_id" "bs_last_sequence s = 3" "state_action s ''a'' = Some action"
    "ar_energy_status action = EnergyPending" "ar_energy_request_event_id action = Some energy_request_id" using awaiting_state by blast
  obtain t L' where c: "complete_energy_assessment calm_reader sample_id calm_choice calm_provenance sample_id 1 energy_stamps s awaiting_db =
    Inr ((Completed, Some t), L')" using awaiting_completes [OF s] by blast
  let ?B = "energy_completion_batches calm_reader calm_choice calm_provenance sample_id 1 energy_stamps sample_id s awaiting_db"
  have "ys = zs" if "ys \<in> ?B" "zs \<in> ?B" for ys zs using that by (auto simp: energy_completion_batches_def)
  then obtain xs where xs: "\<And>ys. ys \<in> ?B \<Longrightarrow> ys = xs" by blast
  define es where "es = (if xs \<in> ?B then numbered_events 3 xs else [])"
  have "distinct (map ev_event_id (awaiting_events @ es))"
  proof (cases "xs \<in> ?B")
    case True
    then obtain status where "assessment_events calm_choice calm_provenance status 1 energy_stamps (bs_brain_id s) sample_id = Inr xs"
      by (auto simp: energy_completion_batches_def)
    then have "map ev_event_id xs = map st_event_id [fst energy_stamps, snd energy_stamps]"
      by (cases energy_stamps) (simp add: assessment_event_ids)
    moreover have "map ev_event_id (numbered_events 3 xs) = map ev_event_id xs"
      by (rule nth_equalityI) (simp_all add: numbered_events_def nth_enumerate_eq)
    ultimately show ?thesis using awaiting_ids(4) True by (simp add: es_def)
  next
    case False
    with awaiting_ids(4) show ?thesis by (simp add: es_def)
  qed
  note d = this
  let ?P = "awaiting_platform es"
  have "list_all (reads_event ?P) es" using reader_reads [OF d] by (simp add: awaiting_platform_def)
  then have "reads_batches ?P (energy_completion_batches calm_reader calm_choice calm_provenance sample_id 1 energy_stamps sample_id) s awaiting_db"
    using xs s(3) by (fastforce simp: reads_batches_def es_def)
  from assessment_reaches_action [OF awaiting_ok [OF d] s(1) c this] obtain row where
    row: "length (history L' sample_id) = length (history awaiting_db sample_id) + 2"
      "lookup el_lease_id (db_energy_leases L') sample_id = Some row"
      "state_energy t (el_action_id row) = Some (chosen_vector calm_choice calm_provenance (el_action_id row))"
      "ar_energy_status (the (state_action t (el_action_id row))) = Assessed" using s(2) by auto
  have "energy_safe awaiting_db L'" by (rule energy_complete_safe [OF c])
  then have "energy_leases_ok L'" "energy_leases_move awaiting_db L'" using awaiting_leases by (simp_all add: energy_safe_def)
  then obtain row' where "row' \<in> set (db_energy_leases L')" "same_job energy_lease_sample row'" "energy_leases_ok L'"
    using assessing.moved_row [of "db_energy_leases awaiting_db" "db_energy_leases L'" energy_lease_sample]
    by (auto simp: awaiting_db_def)
  with energy_leases_lookup [of L' row'] row(2) have "el_action_id row = ''a''"
    by (auto simp: same_job_def energy_lease_sample_def)
  moreover have "length (history awaiting_db sample_id) = 3"
    by (simp add: history_def awaiting_db_def awaiting_events_def proposed_event_def action_event_def energy_request_event_def energy_cognition_event_def)
  ultimately show ?thesis using awaiting_ok [OF d] c row(1,3)
    by (intro exI [of _ ?P] exI [of _ s] exI [of _ t] exI [of _ L'] exI [of _ "chosen_vector calm_choice calm_provenance ''a''"])
      (simp add: chosen_vector_def calm_choice_def)
qed

section \<open>Runs of the assessment operations\<close>

text \<open>What may happen to the leases: claims, completions and failures by any caller, and appends of events.\<close>

lemma registered_energy: "register_event P e L = Inr L' \<Longrightarrow> db_energy_leases L' = db_energy_leases L"
proof -
  assume "register_event P e L = Inr L'"
  then obtain M where m: "M = L \<or> record_identity_name P (ev_brain_id e) (jget (ev_payload e) ''name'') (ev_event_id e) L = Inr M"
    "L' = M \<or> record_gap_observability (ev_brain_id e) M = Inr L'"
    by (auto simp: register_event_def rbind_eq_Inr split: if_splits)
  have "db_energy_leases M = db_energy_leases L" using m(1) by (auto simp: record_identity_name_def rbind_eq_Inr split: json.splits if_splits)
  moreover from m(2) have "db_energy_leases L' = db_energy_leases M" by (auto simp: record_gap_observability_def rbind_eq_Inr)
  ultimately show ?thesis by simp
qed

lemma append_energy_grows:
  assumes "append_event P e expected L = Inr (r, L')"
  shows "energy_grows L L'"
proof -
  let ?b = "ev_brain_id e" and ?M = "ensure_observability_row (ev_brain_id e) (ensure_brain_row (ev_brain_id e) L)"
  have ensure: "db_energy_leases ?M = db_energy_leases L"
    by (auto simp: ensure_observability_row_def ensure_brain_row_def split: option.splits)
  from assms consider "L' = L"
    | stored n N where "insert_event (event_row_of stored n) (?M\<lparr>db_brains := (db_brains ?M)(?b \<mapsto> n + 1)\<rparr>) = Inr N"
        "register_event P stored N = Inr L'"
    by (auto simp: append_event_def append_new_def Let_def rbind_eq_Inr split: list.splits if_splits)
  then have "db_energy_leases L' = db_energy_leases L"
  proof cases
    case (2 stored n N)
    with insert_event_Inr [OF 2(1)] registered_energy [OF 2(2)] ensure show ?thesis by simp
  qed simp
  with append_grows [OF assms] show ?thesis by (simp add: energy_grows_def log_grows_def)
qed

inductive energy_step :: "energy_reader \<Rightarrow> platform \<Rightarrow> database \<Rightarrow> database \<Rightarrow> bool" for R P where
  claimed: "claim_energy_assessment R P a now i st s L = Inr (r, L') \<Longrightarrow> energy_step R P L L'"
| completed: "complete_energy_assessment R i c p a now sts s L = Inr (r, L') \<Longrightarrow> energy_step R P L L'"
| failed: "fail_energy_assessment R i code a now sts s L = Inr (r, L') \<Longrightarrow> energy_step R P L L'"
| logged: "append_event P e expected L = Inr (r', L') \<Longrightarrow> energy_step R P L L'"

lemma energy_step_safe: "energy_step R P L L' \<Longrightarrow> energy_safe L L'"
  by (induction rule: energy_step.induct)
    (metis prod.exhaust energy_claim_safe energy_complete_safe energy_fail_safe append_energy_grows energy_safe_grows)+

lemma energy_run_safe: "(energy_step R P)\<^sup>*\<^sup>* L L' \<Longrightarrow> energy_safe L L'"
  by (induction rule: rtranclp_induct) (auto intro: energy_safe_trans energy_step_safe)

text \<open>
  The leases of energy assessment are settled once. Whatever claims, completions, failures and appends
  follow each other, in any order and from any callers, a brain never has more than one pending lease, no
  lease disappears or changes the action and the input it was given for, a settled lease keeps its choice,
  provenance, failure and terminal event for ever, and two leases never share a terminal event.
\<close>

theorem energy_leases_final:
  assumes "energy_leases_ok L" "(energy_step R P)\<^sup>*\<^sup>* L L'"
  shows "energy_leases_ok L' \<and>
    (\<forall>b. length (filter (\<lambda>r. el_brain_id r = b \<and> el_status r = Pending) (db_energy_leases L')) \<le> 1) \<and>
    (\<forall>r \<in> set (db_energy_leases L). \<exists>r' \<in> set (db_energy_leases L'). same_job r r' \<and> (el_status r \<noteq> Pending \<longrightarrow> r' = r)) \<and>
    (\<forall>r \<in> set (db_energy_leases L'). \<forall>q \<in> set (db_energy_leases L'). el_terminal_event_id r \<noteq> None \<longrightarrow>
      el_terminal_event_id q = el_terminal_event_id r \<longrightarrow> q = r)"
proof -
  have safe: "energy_leases_ok L'" "energy_leases_move L L'" using energy_run_safe [OF assms(2)] assms(1) by (simp_all add: energy_safe_def)
  then have apart: "sorted_wrt energy_apart (db_energy_leases L')" by (simp add: energy_leases_ok_def)
  have kept: "\<exists>r' \<in> set (db_energy_leases L'). same_job r r' \<and> (el_status r \<noteq> Pending \<longrightarrow> r' = r)"
    if r: "r \<in> set (db_energy_leases L)" for r
  proof -
    obtain r' where "r' \<in> set (db_energy_leases L')" "same_job r r'" "el_status r \<noteq> Pending \<Longrightarrow> r' = r"
      by (rule assessing.moved_row [OF safe(2) r]) auto
    then show ?thesis by blast
  qed
  with safe assessing.one_pending [OF apart] assessing.terminal_unique [OF apart] show ?thesis by blast
qed

lemma energy_leases_final_witness:
  "\<exists>L'. (energy_step calm_reader (awaiting_platform []))\<^sup>*\<^sup>* awaiting_db L' \<and> L' \<noteq> awaiting_db \<and> energy_leases_ok L'"
proof -
  obtain s action where s: "brain_ok s" "bs_brain_id s = sample_id" "bs_last_sequence s = 3" "state_action s ''a'' = Some action"
    "ar_energy_status action = EnergyPending" "ar_energy_request_event_id action = Some energy_request_id" using awaiting_state by blast
  obtain t L' where c: "complete_energy_assessment calm_reader sample_id calm_choice calm_provenance sample_id 1 energy_stamps s awaiting_db =
    Inr ((Completed, Some t), L')" using awaiting_completes [OF s] by blast
  then have run: "(energy_step calm_reader (awaiting_platform []))\<^sup>*\<^sup>* awaiting_db L'" using energy_step.completed by blast
  have "require_head s L' \<noteq> Inr ()"
  proof -
    from c obtain es ps u N f lost where "insert_batch s es awaiting_db = Inr ((ps, u), N)" "es \<noteq> []" "update_energy_lease sample_id f lost N = Inr L'"
      by (cases rule: energy_complete_cases) (auto elim!: assessment_events_Inr)
    then show ?thesis
      by (auto simp: insert_batch_def Let_def rbind_eq_Inr require_head_Inr authoritative_head_def split: if_splits
        dest!: batch_rows sequence_events_length update_energy_Inr)
  qed
  moreover have "require_head s awaiting_db = Inr ()" using s(2,3) by (simp add: require_head_Inr authoritative_head_def awaiting_db_def)
  ultimately have "L' \<noteq> awaiting_db" by auto
  with run energy_leases_final [OF awaiting_leases run] show ?thesis by blast
qed

text \<open>
  An engine stays the replay of the ledger under the assessment operations: whoever else has written to the
  ledger before, a claim, a completion or a failure leaves the engine's state the replay of a prefix of the
  ledger and appends to it alone; on success the state is the replay of the whole ledger and the engine has
  not diverged; on a failure neither the ledger nor the state has changed. Asked of the JSON reader: it reads
  the events that the operation may write.
\<close>

theorem engine_follows_energy:
  assumes "tracks P E L"
  shows "(reads_batches P (energy_claim_batches R P (en_actor_id E) now i st) (en_state E) L \<longrightarrow>
      follows P E L (engine_claim_energy_assessment R P now i st E L)) \<and>
    (reads_batches P (energy_completion_batches R c p i now sts (en_actor_id E)) (en_state E) L \<longrightarrow>
      follows P E L (engine_complete_energy_assessment R i c p now sts E L)) \<and>
    (reads_batches P (energy_failure_batches R code i now sts (en_actor_id E)) (en_state E) L \<longrightarrow>
      follows P E L (engine_fail_energy_assessment R i code now sts E L))"
proof -
  have "follows P E L (Inl err, E, L)" for err :: py_error using assms by (auto simp: follows_def tracks_def)
  then show ?thesis
    unfolding engine_claim_energy_assessment_def engine_complete_energy_assessment_def engine_fail_energy_assessment_def
    using energy_claiming.guarded_follows [OF assms] energy_completing.guarded_follows [OF assms] energy_failing.guarded_follows [OF assms]
    by (auto simp: provenance_revalidated_def)
qed

lemma engine_follows_energy_witness:
  "\<exists>P E. engine_claim_energy_assessment calm_reader P 1 sample_id (fst naming_stamps) E leased_db = (Inr None, E, leased_db) \<and>
     synced P E leased_db"
proof -
  let ?st = "fst naming_stamps" and ?P = "naming_platform []"
  obtain s where s: "reduce_state (brain_genesis sample_id) (sequenced request_event 1) = Inr s" "brain_ok s"
    using leased_state leased_replay by metis
  have adm: "event_admitted (brain_genesis sample_id) (sequenced request_event 1) = Inr ()" "brain_ok (brain_genesis sample_id)"
    using reduce_state_Inr [OF s(1)] brain_genesis_ok [OF sample_id_uuid] by simp_all
  have "bs_action_records s = []"
    using untyped_actions [OF adm(2) request_event_valid(2) adm(1) _ s(1)] by (simp add: request_event_def untyped_events_def brain_genesis_def)
  then have none: "energy_candidate s L = None" for L by (simp add: energy_candidate_def)
  have b: "bs_brain_id s = sample_id" "bs_last_sequence s = 1" "valid_state s"
    using reduce_state_Inr [OF s(1)] brain_ok_valid [OF s(2)] by (simp_all add: log_of_def brain_genesis_def)
  let ?E = "young_engine\<lparr>en_state := s\<rparr>"
  have f: "full_replay ?P leased_db sample_id None = Inr s" using s(1) leased_replay by simp
  have "tracks ?P ?E leased_db"
    using f full_replay_head [OF leased_ok, of "[]" sample_id] replayed_head [OF leased_ok f] b(2) leased_ok
    by (simp add: tracks_def)
  moreover have p: "db_energy_leases leased_db = []" by (simp add: leased_db_def empty_database_def)
  then have "reads_batches ?P (energy_claim_batches calm_reader ?P (en_actor_id ?E) 1 sample_id ?st) (en_state ?E) leased_db"
    using none by (simp add: reads_batches_def energy_claim_batches_def)
  moreover note engine_follows_energy [of ?P ?E leased_db calm_reader 1 sample_id ?st]
  ultimately have follows: "follows ?P ?E leased_db (engine_claim_energy_assessment calm_reader ?P 1 sample_id ?st ?E leased_db)" by blast
  have "authoritative_head leased_db sample_id = Inr (Some 1)" by (simp add: authoritative_head_def leased_db_def)
  then have "claim_energy_assessment calm_reader ?P sample_id 1 sample_id ?st s leased_db = Inr ((None, None), leased_db)"
    using none b p by (simp add: claim_energy_assessment_def energy_actor_def state_revalidated_def validate_ok require_head_def
      settle_pending_energy_def)
  then have "engine_claim_energy_assessment calm_reader ?P 1 sample_id ?st ?E leased_db = (Inr None, ?E, leased_db)"
    by (simp add: engine_claim_energy_assessment_def guarded_def)
  with follows show ?thesis by (intro exI [of _ ?P] exI [of _ ?E]) (simp add: follows_def)
qed

end
