(* ===== verification/Histories.thy ===== *)
theory Histories imports AssessedLive
begin

text \<open>
  Actions over whole histories of the brain: what \<open>reduce_state\<close> does to the collection of actions, eviction
  included, and so what becomes of an action that was blocked.
\<close>

section \<open>The actions of a reduction\<close>

text \<open>After the action stage no stage touches the collection.\<close>

lemma admit_actions: "admit n k d v = Inr v' \<Longrightarrow> bs_action_records v' = bs_action_records v"
  by (simp add: admit_fields)

lemma maybe_admit_actions: "(if b then admit n k d v else Inr v) = Inr v' \<Longrightarrow> bs_action_records v' = bs_action_records v"
  by (auto split: if_splits dest: admit_actions)

lemma fold_actions: "(\<And>v x v'. f v x = Inr v' \<Longrightarrow> bs_action_records v' = bs_action_records v) \<Longrightarrow> rfold f v xs = Inr v' \<Longrightarrow>
    bs_action_records v' = bs_action_records v"
  by (rule rfold_invariant [where P = "\<lambda>w. bs_action_records w = bs_action_records v"]) auto

lemma world_stage_actions: "world_stage s e t g v = Inr v' \<Longrightarrow> bs_action_records v' = bs_action_records v"
  unfolding world_stage_def rbind_eq_Inr
  by (elim exE conjE, drule fold_actions [rotated]) (auto simp: admit_world_def Let_def dest: maybe_admit_actions)

lemma memory_stage_actions: "memory_stage s e v = Inr v' \<Longrightarrow> bs_action_records v' = bs_action_records v"
  by (auto simp: memory_stage_def rbind_eq_Inr Let_def split: if_splits dest!: admit_actions)

lemma typed_stage_actions: "typed_stage s e v = Inr v' \<Longrightarrow> bs_action_records v' = bs_action_records v"
proof -
  assume t: "typed_stage s e v = Inr v'"
  have "name_stage e v = Inr v' \<Longrightarrow> bs_action_records v' = bs_action_records v"
    by (auto simp: name_stage_def split: option.splits if_splits)
  moreover have "clock_stage s e v = Inr v' \<Longrightarrow> bs_action_records v' = bs_action_records v"
    by (auto simp: clock_stage_def rbind_eq_Inr Let_def split: option.splits if_splits)
  moreover have "capabilities_stage e v = Inr v' \<Longrightarrow> bs_action_records v' = bs_action_records v"
    by (auto simp: capabilities_stage_def split: json.splits if_splits)
  moreover have "legacy_stage s e v = Inr v' \<Longrightarrow> bs_action_records v' = bs_action_records v"
    by (auto simp: legacy_stage_def rbind_eq_Inr split: if_splits dest!: admit_actions)
  moreover have "assessed_stage s e v = Inr v' \<Longrightarrow> bs_action_records v' = bs_action_records v"
    by (auto simp: assessed_stage_def rbind_eq_Inr Let_def split: if_splits dest!: admit_actions)
  moreover have "simulation_stage s e v = Inr v' \<Longrightarrow> bs_action_records v' = bs_action_records v"
    by (auto simp: simulation_stage_def rbind_eq_Inr Let_def dest!: admit_actions)
  moreover have "cognition_stage s e v = Inr v' \<Longrightarrow> bs_action_records v' = bs_action_records v"
    by (auto simp: cognition_stage_def rbind_eq_Inr Let_def split: if_splits dest!: admit_actions)
  moreover have "failure_stage s e v = Inr v' \<Longrightarrow> bs_action_records v' = bs_action_records v"
    by (auto simp: failure_stage_def rbind_eq_Inr Let_def split: if_splits)
  moreover have "recovered_stage s v = Inr v' \<Longrightarrow> bs_action_records v' = bs_action_records v"
    by (auto simp: recovered_stage_def Let_def split: if_splits)
  moreover have "bs_action_records (v\<lparr>bs_trace_complete := False\<rparr>) = bs_action_records v" by simp
  ultimately show ?thesis using t unfolding typed_stage_def Let_def by (metis (no_types) sum.inject(2))
qed

lemma action_stage_actions:
  assumes "action_stage s e t v = Inr (v', g)"
  shows "\<exists>xs ev. reduce_actions (bs_action_records s) e t = Inr (xs, g) \<and> bound_actions xs = Inr (ev, bs_action_records v')"
  using assms by (auto simp: action_stage_def rbind_eq_Inr Let_def split: if_splits option.splits dest!: admit_actions)

lemma reduce_state_actions:
  assumes "reduce_state s e = Inr t"
  shows "\<exists>xs g ev trusted. reduce_actions (bs_action_records s) e trusted = Inr (xs, g) \<and> bound_actions xs = Inr (ev, bs_action_records t)"
proof -
  let ?t = "is_authorized (bs_identity s) (ev_actor_id e) (ev_adapter_id e)"
  from assms have "reduce_values s e = Inr t"
    by (auto simp: reduce_state_def state_revalidated_def event_revalidated_def state_from_data_def rbind_eq_Inr split: if_splits)
  then obtain v2 v3 g v4 w v5 where st: "action_stage s e ?t v2 = Inr (v3, g)" "world_stage s e ?t g v3 = Inr v4"
    "memory_stage s e (v4\<lparr>bs_workspace := w\<rparr>) = Inr v5" "typed_stage s e v5 = Inr t"
    by (auto simp: reduce_values_def Let_def rbind_eq_Inr)
  from typed_stage_actions [OF st(4)] memory_stage_actions [OF st(3)] world_stage_actions [OF st(2)]
  have "bs_action_records t = bs_action_records v3" by simp
  with action_stage_actions [OF st(1)] show ?thesis by metis
qed

section \<open>Blocked actions\<close>

text \<open>An event whose creation name fits, so that the reduction keeps the brain consistent.\<close>

definition fitting :: "event_envelope \<Rightarrow> bool" where
  "fitting e \<longleftrightarrow> valid_event e \<and> (ev_event_type e = ''brain.created'' \<longrightarrow> name_fits e)"

lemma fitting_keeps: "brain_ok s \<Longrightarrow> fitting e \<Longrightarrow> reduce_state s e = Inr t \<Longrightarrow> brain_ok t"
  using reduce_state_ok [of s e] by (auto simp: fitting_def)

definition gone :: "brain_state \<Rightarrow> string \<Rightarrow> bool" where
  "gone s aid \<longleftrightarrow> state_action s aid = None \<and> length (bs_action_records s) = MAX_ACTION_RECORDS"

lemma lookup_without: "distinct (map key (l @ x # r)) \<Longrightarrow> lookup key (l @ r) k = (if k = key x then None else lookup key (l @ x # r) k)"
  by (induction l) (auto simp: lookup_None_iff)

lemma blocked_reduces:
  assumes "brain_ok s" "fitting e" "reduce_state s e = Inr t" "state_action s aid = Some a" "blocked_life a"
  shows "(\<exists>b. state_action t aid = Some b \<and> blocked_life b) \<or> gone t aid"
proof -
  from reduce_state_actions [OF assms(3)] obtain xs g ev trusted where
    r: "reduce_actions (bs_action_records s) e trusted = Inr (xs, g)" "bound_actions xs = Inr (ev, bs_action_records t)" by blast
  have wf: "actions_wf (bs_action_records s)" using assms(1) by (simp add: brain_ok_def consistent_def actions_ok_def)
  have step: "actions_step (bs_action_records s) (e, trusted) = Inr xs" using r(1) by (simp add: actions_step_def)
  from blocked_stays [OF step wf, of aid a] assms(4,5) obtain b where
    b: "lookup ar_action_id xs aid = Some b" "blocked_life b" by (auto simp: state_action_def)
  have wx: "actions_wf xs" by (rule reduce_actions_wf [OF r(1) wf])
  show ?thesis
  proof (cases ev)
    case None
    with r(2) have "bs_action_records t = xs" by (auto simp: bound_actions_def split: if_splits option.splits)
    with b show ?thesis by (auto simp: state_action_def)
  next
    case (Some i)
    with r(2) obtain x where x: "MAX_ACTION_RECORDS < length xs" "evict_first evictable xs = Some (x, bs_action_records t)"
      by (auto simp: bound_actions_def split: if_splits option.splits)
    from evict_first_Some [OF x(2)] obtain l r' where lr: "xs = l @ x # r'" "bs_action_records t = l @ r'" by blast
    have "distinct (map ar_action_id (l @ x # r'))" using wx lr(1) by (simp add: actions_wf_def)
    from lookup_without [OF this, of aid] lr b(1) have
      k: "state_action t aid = (if aid = ar_action_id x then None else Some b)" by (simp add: state_action_def)
    have "length (bs_action_records t) \<le> MAX_ACTION_RECORDS"
      using fitting_keeps [OF assms(1,2,3)] all_countedD [of t WActions] by (simp add: brain_ok_def consistent_def counted_def Let_def)
    with x(1) lr have "length (bs_action_records t) = MAX_ACTION_RECORDS" by simp
    with k b(2) show ?thesis by (auto simp: gone_def split: if_splits)
  qed
qed

lemma blocked_run:
  assumes "brain_ok s" "list_all fitting es" "reduce_many s es = Inr t" "state_action s aid = Some a" "blocked_life a"
  shows "(\<exists>b. state_action t aid = Some b \<and> never_executed b) \<or>
    (\<exists>k u. k \<le> length es \<and> reduce_many s (take k es) = Inr u \<and> gone u aid)"
  using assms
proof (induction es arbitrary: s a)
  case Nil
  then have "action_wf a" by (auto simp: brain_ok_def consistent_def actions_ok_def actions_wf_def list_all_iff state_action_def dest: lookup_SomeD)
  with Nil.prems blocked_not_executed show ?case by (auto simp: reduce_many_def)
next
  case (Cons e es)
  from Cons.prems(3) obtain u where u: "reduce_state s e = Inr u" "reduce_many u es = Inr t" by (auto simp: reduce_many_def rbind_eq_Inr)
  have first: "reduce_many s (take (Suc k) (e # es)) = reduce_many u (take k es)" for k using u(1) by (simp add: reduce_many_def)
  have e: "fitting e" "list_all fitting es" using Cons.prems(2) by simp_all
  note ok = fitting_keeps [OF Cons.prems(1) e(1) u(1)]
  from blocked_reduces [OF Cons.prems(1) e(1) u(1) Cons.prems(4,5)] show ?case
  proof (elim disjE exE conjE)
    fix b assume "state_action u aid = Some b" "blocked_life b"
    from Cons.IH [OF ok e(2) u(2) this] first show ?case by (metis Suc_le_mono length_Cons)
  next
    assume "gone u aid"
    with first [of 0] show ?case by (intro disjI2 exI [of _ "Suc 0"] exI [of _ u]) (simp add: reduce_many_def)
  qed
qed

text \<open>
  C4. A blocked action is never executed. From a consistent brain that keeps an action which has been blocked, after
  any accepted history of valid events with a name that fits, the action is still kept, its execution is refused
  and nothing was dispatched, received or observed of it; or it was evicted on the way, and then only because the
  collection was full when one more action came.
\<close>

theorem blocked_never_executes:
  assumes "brain_ok s" "list_all fitting es" "reduce_many s es = Inr t" "state_action s aid = Some a"
    and "Blocked \<in> set (ar_phase_history a)"
  shows "(\<exists>b. state_action t aid = Some b \<and> never_executed b) \<or>
    (\<exists>k u. k \<le> length es \<and> reduce_many s (take k es) = Inr u \<and> gone u aid)"
proof (rule blocked_run [OF assms(1-4)])
  have "action_wf a" using assms(1,4)
    by (auto simp: brain_ok_def consistent_def actions_ok_def actions_wf_def list_all_iff state_action_def dest: lookup_SomeD)
  with assms(5) show "blocked_life a" by (simp add: blocked_lives)
qed

section \<open>A brain with a blocked action\<close>

text \<open>It keeps one action of three and has evicted five reflections.\<close>

definition worn_counter :: "ws_name \<Rightarrow> ws_counter" where
  "worn_counter n = (case n of WActions \<Rightarrow> \<lparr>ct_total = 3, ct_evicted = 2\<rparr> | WReflections \<Rightarrow> \<lparr>ct_total = 5, ct_evicted = 5\<rparr>
     | _ \<Rightarrow> wk_counter initial_working_set n)"

definition worn_brain :: brain_state where
  "worn_brain = (brain_genesis sample_id)\<lparr>bs_action_records := [blocked_action],
     bs_working_set := initial_working_set\<lparr>wk_counter := worn_counter\<rparr>\<rparr>"

lemma worn_ok: "brain_ok worn_brain"
proof -
  note g = brain_genesis_ok [OF sample_id_uuid]
  have other: "counted n worn_brain \<and> valid_counter (wk_counter (bs_working_set worn_brain) n)" for n
  proof -
    have "counted n (brain_genesis sample_id) \<and> valid_counter (wk_counter (bs_working_set (brain_genesis sample_id)) n)"
      using all_countedD [of "brain_genesis sample_id" n] g by (simp add: brain_ok_def consistent_def)
    moreover have "cg_reflections (bs_cognition worn_brain) = []" by (simp add: worn_brain_def brain_genesis_def empty_cognition_def)
    ultimately show ?thesis
      by (cases n) (auto simp: counted_def Let_def valid_counter_def worn_counter_def worn_brain_def brain_genesis_def
        limits)
  qed
  have "action_wf blocked_action" using action_wfI [OF blocked_action_valid(1), of LBlocked]
    by (simp add: at_life_def sample_simps)
  with g show ?thesis using other
    by (simp add: brain_ok_def consistent_def all_counted_def list_all_iff names_ok_def clocks_ok_def actions_ok_def
        identity_ok_def events_counted_def distinct_ids_def actions_wf_def worn_brain_def brain_genesis_def)
qed

lemma reconstruct_event_simps [simp]:
  "ev_event_type reconstruct_event = ''action.reconstructed''" "ev_payload reconstruct_event = [(''action_id'', JStr ''a'')]"
  by (simp_all add: reconstruct_event_def action_event_def)

lemma worn_reconstructs:
  "\<exists>t. reduce_state worn_brain reconstruct_event = Inr t \<and> bs_action_records t = [refused_action]"
proof -
  let ?s = worn_brain and ?e = reconstruct_event
  let ?t = "is_authorized (bs_identity ?s) (ev_actor_id ?e) (ev_adapter_id ?e)"
  have ty: "valid_event_type ''action.reconstructed''" by code_simp
  have v: "valid_event ?e" using ty by (simp add: reconstruct_event_def action_event_def sample_event_valid)
  have a: "event_admitted ?s ?e = Inr ()"
    by (simp add: event_admitted_def reconstruct_event_def action_event_def sample_event_def EVENT_SCHEMA_VERSION_def worn_brain_def
        brain_genesis_def)
  have r: "reduce_actions (bs_action_records ?s) ?e ?t = Inr ([refused_action], [])"
    using reconstruct_blocked by (simp add: worn_brain_def)
  have q: "reduce_identity (bs_identity ?s) ?e = Inr (bs_identity ?s)"
    "reduce_personality (bs_personality ?s) ?e (bs_logical_clock ?s) = Inr (bs_personality ?s)"
    "bound_actions [refused_action] = Inr (None, [refused_action])" "reduce_world (bs_world ?s) ?e ?t [] = Inr (bs_world ?s)"
    "reduce_workspace ?s ?e = Inr (bs_workspace ?s)" "reduce_memory ?s ?e = Inr (bs_memories ?s)"
    by (simp_all add: reduce_identity_def reduce_personality_def bound_actions_def reduce_world_def event_layer_def
      reduce_workspace_def reduce_memory_def MAX_ACTION_RECORDS_def)
  from stages_prepare [OF worn_ok v a q(1,2) r q(3-6) refl] obtain w where
    w: "prepared ?s ?e w" "reduce_values ?s ?e = typed_stage ?s ?e w" "bs_action_records w = [refused_action]" by blast
  have "typed_stage ?s ?e w = Inr w" using typed_stage_other(1) [of ?e ?s w] by (simp add: typed_events_def)
  then have "reduce_state ?s ?e = state_from_data w"
    using w(2) v a brain_ok_valid [OF worn_ok] by (simp add: reduce_state_def state_revalidated_def event_revalidated_def)
  with w(3) reduce_state_ok [OF worn_ok v] show ?thesis
    by (auto simp: state_from_data_def escapes_def split: if_splits)
qed

lemma blocked_never_executes_witness:
  "\<exists>t b. reduce_many worn_brain [reconstruct_event] = Inr t \<and> state_action t ''a'' = Some b \<and> never_executed b"
proof -
  obtain t where t: "reduce_state worn_brain reconstruct_event = Inr t" "bs_action_records t = [refused_action]"
    using worn_reconstructs by blast
  have "valid_event reconstruct_event" using t(1) by (auto simp: reduce_state_def event_revalidated_def rbind_eq_Inr split: if_splits)
  then have f: "list_all fitting [reconstruct_event]" by (simp add: fitting_def)
  have m: "reduce_many worn_brain [reconstruct_event] = Inr t" using t(1) by (simp add: reduce_many_def)
  have s: "state_action worn_brain ''a'' = Some blocked_action" by (simp add: state_action_def worn_brain_def sample_simps)
  have "state_action t ''a'' \<noteq> None" by (simp add: state_action_def t(2) sample_simps)
  moreover have "\<not> gone u ''a''" if "reduce_many worn_brain (take k [reconstruct_event]) = Inr u" for k u
  proof (cases k)
    case 0
    with that s show ?thesis by (auto simp: reduce_many_def gone_def)
  next
    case (Suc j)
    with that m t(2) show ?thesis by (auto simp: gone_def state_action_def sample_simps)
  qed
  ultimately show ?thesis
    using blocked_never_executes [OF worn_ok f m s] m by (auto simp: sample_simps)
qed

end
