(* ===== verification/Semantic.thy ===== *)
theory Semantic imports Hermes Histories
begin

text \<open>
  \<^verbatim>\<open>runtime/semantic_ingest.py\<close>: the spans that correlate a host completion with its start, and the plan of
  derived events an observation stands for. A plan is a function of the stream, the record, the raw event and
  the matched span. The lemmas: every derived identifier is a version 4 UUID; the shape of every plan; when a
  plan exists.
\<close>

section \<open>Digests and identifiers\<close>

definition MAX_DERIVED_EVENTS_PER_RECORD :: nat where "MAX_DERIVED_EVENTS_PER_RECORD = 8"

definition value_sha256 :: "json \<Rightarrow> string" where
  "value_sha256 v = sha256_hex (canonical_json v)"

definition nul :: string where "nul = [char_of (0::nat)]"

text \<open>\<open>str(UUID(bytes=...))\<close>.\<close>

definition uuid_text :: "int list \<Rightarrow> string" where
  "uuid_text bs = (let h = hex_text bs in
     take 8 h @ ''-'' @ take 4 (drop 8 h) @ ''-'' @ take 4 (drop 12 h) @ ''-'' @ take 4 (drop 16 h) @ ''-'' @ drop 20 h)"

definition derived_id :: "string \<Rightarrow> string \<Rightarrow> string" where
  "derived_id raw_event_id role =
     (let digest = take 16 (sha256 (utf8 (raw_event_id @ nul @ role)));
          digest = digest[6 := (digest ! 6 AND 0x0F) OR 0x40];
          digest = digest[8 := (digest ! 8 AND 0x3F) OR 0x80]
      in uuid_text digest)"

definition tool_action_id :: "event_envelope \<Rightarrow> int \<Rightarrow> string" where
  "tool_action_id raw_event capture_seq =
     ''hermes-action-'' @ sha256_hex (ev_event_id raw_event @ nul @ ''tool'' @ nul @ int_text capture_seq)"

definition span_context_fingerprint :: "hermes_observation \<Rightarrow> string" where
  "span_context_fingerprint r = value_sha256 (context_data (ho_context r))"

section \<open>Spans\<close>

definition bad_external_id :: py_error where
  "bad_external_id = PyValueError ''Hermes span external ID must be non-blank and bounded''"

text \<open>\<open>HermesSpan(...)\<close>: an identifier the host left out is not a string.\<close>

definition mk_span ::
  "string \<Rightarrow> span_kind \<Rightarrow> string option \<Rightarrow> int \<Rightarrow> string \<Rightarrow> string option \<Rightarrow> int option \<Rightarrow> hermes_span res" where
  "mk_span instance_id kind external occurrence context action close_seq =
     rbind (validate_id instance_id) (\<lambda>instance_id.
     rbind (case external of None \<Rightarrow> Inl bad_external_id
       | Some x \<Rightarrow> if str_len 1 512 x then Inr x else Inl bad_external_id) (\<lambda>external.
     if occurrence < 1 then Inl (PyValueError ''Hermes span occurrence must be a capture sequence'')
     else if \<not> is_sha256 context then Inl (PyValueError ''Hermes span context fingerprint must be SHA-256'')
     else if (case action of None \<Rightarrow> False | Some a \<Rightarrow> blank a \<or> 512 < length a) then
       Inl (PyValueError ''Hermes span action ID must be non-blank and bounded'')
     else if (case close_seq of None \<Rightarrow> False | Some c \<Rightarrow> c < occurrence) then
       Inl (PyValueError ''Hermes span close must follow its occurrence'')
     else Inr \<lparr>sp_bridge_instance_id = instance_id, sp_span_kind = kind, sp_external_id = external,
       sp_occurrence_capture_seq = occurrence, sp_context_fingerprint = context, sp_action_id = action,
       sp_closed_capture_seq = close_seq\<rparr>))"

fun kind_text :: "span_kind \<Rightarrow> string" where
  "kind_text ToolSpan = ''tool''"
| "kind_text ApiSpan = ''api''"

definition span_data :: "hermes_span \<Rightarrow> json" where
  "span_data s = JObj [(''action_id'', opt_json JStr (sp_action_id s)),
     (''bridge_instance_id'', JStr (sp_bridge_instance_id s)),
     (''closed_capture_seq'', opt_json JInt (sp_closed_capture_seq s)),
     (''context_fingerprint'', JStr (sp_context_fingerprint s)), (''external_id'', JStr (sp_external_id s)),
     (''occurrence_capture_seq'', JInt (sp_occurrence_capture_seq s)),
     (''span_kind'', JStr (kind_text (sp_span_kind s)))]"

text \<open>What a completion closes: the kind of span and the identifier the host gave it.\<close>

definition completes :: "hermes_observation \<Rightarrow> (span_kind \<times> string option) option" where
  "completes r = (if ho_hook r = PostToolCall then Some (ToolSpan, context_get (ho_context r) ''tool_call_id'')
     else if ho_hook r \<in> {PostApiRequest, ApiRequestError} then Some (ApiSpan, context_get (ho_context r) ''api_request_id'')
     else None)"

definition eligible_span :: "hermes_observation \<Rightarrow> span_kind \<Rightarrow> string option \<Rightarrow> hermes_span \<Rightarrow> bool" where
  "eligible_span r kind external s \<longleftrightarrow> sp_bridge_instance_id s = ho_bridge_instance_id r \<and> sp_span_kind s = kind \<and>
     Some (sp_external_id s) = external \<and> sp_context_fingerprint s = span_context_fingerprint r \<and>
     sp_occurrence_capture_seq s < ho_capture_seq r"

definition closed_key :: "hermes_span \<Rightarrow> int \<times> int" where
  "closed_key s = ((case sp_closed_capture_seq s of None \<Rightarrow> 0 | Some c \<Rightarrow> c), sp_occurrence_capture_seq s)"

text \<open>\<open>max(..., key=...)\<close>: the first of the greatest.\<close>

fun max_by :: "('a \<Rightarrow> 'k::linorder) \<Rightarrow> 'a \<Rightarrow> 'a list \<Rightarrow> 'a" where
  "max_by key x [] = x"
| "max_by key x (y # ys) = max_by key (if key x < key y then y else x) ys"

definition match_hermes_span ::
  "hermes_observation \<Rightarrow> hermes_span list \<Rightarrow> hermes_span option \<times> string option" where
  "match_hermes_span r candidates = (case completes r of
     None \<Rightarrow> (None, None)
   | Some (kind, external) \<Rightarrow>
       let eligible = filter (eligible_span r kind external) candidates;
           open_spans = filter (\<lambda>s. sp_closed_capture_seq s = None) eligible;
           closed_spans = filter (\<lambda>s. case sp_closed_capture_seq s of None \<Rightarrow> False | Some c \<Rightarrow> c < ho_capture_seq r) eligible
       in if 1 < length open_spans then (None, Some ''ambiguous_open_span'')
          else if length open_spans = 1 then
            (if closed_spans \<noteq> [] then (None, Some ''ambiguous_open_closed_span'') else (Some (hd open_spans), None))
          else (case closed_spans of [] \<Rightarrow> (None, None) | s # ss \<Rightarrow> (Some (max_by closed_key s ss), None)))"

section \<open>Plans\<close>

record semantic_plan =
  pl_semantic_status :: semantic_status
  pl_semantic_complete :: bool
  pl_derived_events :: "event_envelope list"
  pl_span_open :: "hermes_span option"
  pl_span_close :: "hermes_span option"

definition mk_plan :: "semantic_plan \<Rightarrow> semantic_plan res" where
  "mk_plan p = (let n = length (pl_derived_events p); st = pl_semantic_status p in
     if n > MAX_DERIVED_EVENTS_PER_RECORD then Inl (PyValueError ''semantic plan exceeds the derived event limit'')
     else if pl_semantic_complete p \<noteq> (st \<in> {Applied, NotApplicable}) then
       Inl (PyValueError ''semantic plan completeness does not match status'')
     else if st = Applied \<and> n = 0 then Inl (PyValueError ''applied semantic plan requires derived evidence'')
     else if st = SemanticGap \<and> n \<notin> {0, 1} then Inl (PyValueError ''semantic gap plan contains zero or one gap event'')
     else if st \<in> {NotApplicable, LegacyRawOnly} \<and> n \<noteq> 0 then
       Inl (PyValueError ''raw-only semantic statuses cannot carry derived events'')
     else Inr p)"

definition plan_fingerprint :: "semantic_plan \<Rightarrow> string" where
  "plan_fingerprint p = value_sha256 (JObj
     [(''derived_events'', JArr (map (canonical_data True) (pl_derived_events p))),
      (''semantic_complete'', JBool (pl_semantic_complete p)),
      (''semantic_status'', JStr (semantic_status_text (pl_semantic_status p))),
      (''span_close'', opt_json span_data (pl_span_close p)), (''span_open'', opt_json span_data (pl_span_open p))])"

section \<open>Events\<close>

definition observation_provenance :: "hermes_observation \<Rightarrow> event_provenance" where
  "observation_provenance r = no_provenance\<lparr>pv_session_id := context_get (ho_context r) ''session_id'',
     pv_turn_id := context_get (ho_context r) ''turn_id'',
     pv_correlation_id := context_get (ho_context r) ''api_request_id''\<rparr>"

definition stream_mismatch :: py_error where
  "stream_mismatch = PyValueError ''bridge record does not match semantic stream''"

text \<open>The stamp is what \<open>new_event\<close> generates: the identifier, and for a gap the two clock readings as well.\<close>

definition build_raw_event :: "bridge_stream \<Rightarrow> bridge_record \<Rightarrow> stamp \<Rightarrow> event_envelope res" where
  "build_raw_event stream record st =
     (if record_instance record \<noteq> sm_bridge_instance_id stream then Inl stream_mismatch
      else case record of
        Observation r \<Rightarrow> new_event (HOOK_EVENT_TYPES (ho_hook r)) (sm_brain_id stream) (sm_server_actor_id stream)
          (observation_data r) (st_event_id st) (ho_captured_at r) (ho_captured_monotonic_ns r)
          ((observation_provenance r)\<lparr>pv_adapter_id := Some (sm_server_adapter_id stream)\<rparr>)
      | Gap r \<Rightarrow> new_event ''trace.gap'' (sm_brain_id stream) (sm_server_actor_id stream)
          (gap_data r @ [(''exact'', JBool True), (''trace_complete'', JBool False)]) (st_event_id st)
          (st_wall_time st) (st_monotonic_ns st) (no_provenance\<lparr>pv_adapter_id := Some (sm_server_adapter_id stream)\<rparr>))"

definition derived_event ::
  "bridge_stream \<Rightarrow> hermes_observation \<Rightarrow> event_envelope \<Rightarrow> string \<Rightarrow> string \<Rightarrow> jobj \<Rightarrow> string option \<Rightarrow> string option \<Rightarrow>
    event_envelope res" where
  "derived_event stream r raw_event role event_type payload action_id causation_id =
     new_event event_type (sm_brain_id stream) (sm_server_actor_id stream) payload
       (derived_id (ev_event_id raw_event) role) (ev_wall_time raw_event) (ev_monotonic_ns raw_event)
       ((observation_provenance r)\<lparr>pv_adapter_id := Some (sm_server_adapter_id stream), pv_action_id := action_id,
         pv_causation_id := Some (case causation_id of None \<Rightarrow> ev_event_id raw_event | Some c \<Rightarrow> c)\<rparr>)"

section \<open>The plan of a tool call\<close>

definition pre_tool_plan :: "bridge_stream \<Rightarrow> hermes_observation \<Rightarrow> event_envelope \<Rightarrow> semantic_plan res" where
  "pre_tool_plan stream r raw_event =
     (let aid = tool_action_id raw_event (ho_capture_seq r);
          branch_id = ''hermes-branch-'' @ sha256_hex aid;
          args_sha256 = value_sha256 (jget (ho_payload r) ''args'');
          middleware_sha256 = value_sha256 (jget (ho_payload r) ''middleware_trace'');
          tool_name = jget (ho_payload r) ''tool_name'';
          intent = [(''args_sha256'', JStr args_sha256), (''capture_seq'', JInt (ho_capture_seq r)),
            (''kind'', JStr ''hermes.tool_call''), (''middleware_trace_sha256'', JStr middleware_sha256),
            (''raw_event_id'', JStr (ev_event_id raw_event)), (''tool_name'', tool_name)];
          derived = (\<lambda>role t payload cause. derived_event stream r raw_event role t payload (Some aid) cause)
      in rbind (derived ''pc.action_proposed'' ''action.proposed''
           [(''action_id'', JStr aid), (''intent'', JObj intent)] None) (\<lambda>proposed.
         rbind (derived ''pc.control_sampled'' ''personality.control.sampled''
           [(''action_id'', JStr aid), (''algorithm_version'', JStr ''hermes-semantic-v1''),
            (''args_sha256'', JStr args_sha256), (''sample'', JStr ''commit_predecessor_personality'')]
           (Some (ev_event_id proposed))) (\<lambda>pc.
         rbind (derived ''energy.requested'' ''action.energy_requested''
           [(''action_id'', JStr aid), (''assessment_source'', JStr ''hermes_host_llm''),
            (''prompt_version'', JStr ''alice-energy-v1'')] (Some (ev_event_id pc))) (\<lambda>energy_request.
         rbind (derived ''thought.simulated'' ''simulation.created''
           [(''algorithm_version'', JStr ''hermes-semantic-v1''), (''branch_id'', JStr branch_id),
            (''cognition_mode'', JStr ''event''), (''config_version'', JStr ''hermes-semantic-v1''),
            (''content'', JObj [(''args_sha256'', JStr args_sha256), (''kind'', JStr ''hermes.tool_counterfactual''),
              (''tool_name'', tool_name)]),
            (''expected_consequences'', JArr
              [JObj [(''kind'', JStr ''execution_success''), (''requires_confirmation'', JBool True)],
               JObj [(''kind'', JStr ''execution_failure''), (''requires_confirmation'', JBool True)]]),
            (''proposition_id'', JStr branch_id), (''source_ids'', JArr [JStr (ev_event_id raw_event)]),
            (''stance'', JStr ''simulate''), (''uncertainty'', JFloat (1 / 2))]
           (Some (ev_event_id energy_request))) (\<lambda>simulated.
         rbind (derived ''decision.prepared'' ''action.prepared''
           [(''action_id'', JStr aid), (''branch_id'', JStr branch_id)] (Some (ev_event_id simulated))) (\<lambda>prepared.
         rbind (mk_span (ho_bridge_instance_id r) ToolSpan (context_get (ho_context r) ''tool_call_id'')
           (ho_capture_seq r) (span_context_fingerprint r) (Some aid) None) (\<lambda>sp.
         mk_plan \<lparr>pl_semantic_status = Applied, pl_semantic_complete = True,
           pl_derived_events = [proposed, pc, energy_request, simulated, prepared],
           pl_span_open = Some sp, pl_span_close = None\<rparr>)))))))"

definition semantic_gap ::
  "bridge_stream \<Rightarrow> hermes_observation \<Rightarrow> event_envelope \<Rightarrow> string \<Rightarrow> hermes_span option \<Rightarrow> semantic_plan res" where
  "semantic_gap stream r raw_event reason span_close =
     rbind (derived_event stream r raw_event (''semantic_gap.'' @ reason) ''semantic.gap''
       [(''capture_seq'', JInt (ho_capture_seq r)), (''context_sha256'', JStr (span_context_fingerprint r)),
        (''hook'', JStr (hook_text (ho_hook r))), (''raw_payload_sha256'', JStr (value_sha256 (JObj (ho_payload r)))),
        (''reason'', JStr reason), (''trace_complete'', JBool False)] None None) (\<lambda>e.
     mk_plan \<lparr>pl_semantic_status = SemanticGap, pl_semantic_complete = False, pl_derived_events = [e],
       pl_span_open = None, pl_span_close = span_close\<rparr>)"

definition validate_matched_span :: "hermes_observation \<Rightarrow> hermes_span \<Rightarrow> span_kind \<Rightarrow> string option \<Rightarrow> unit res" where
  "validate_matched_span r sp kind external =
     (if sp_bridge_instance_id sp \<noteq> ho_bridge_instance_id r \<or> sp_span_kind sp \<noteq> kind \<or>
         Some (sp_external_id sp) \<noteq> external \<or> sp_context_fingerprint sp \<noteq> span_context_fingerprint r
      then Inl (PyValueError ''matched Hermes span does not bind the observation context'') else Inr ())"

text \<open>\<open>span if span.closed_capture_seq is None else None\<close>.\<close>

definition still_open :: "hermes_span \<Rightarrow> hermes_span option" where
  "still_open sp = (if sp_closed_capture_seq sp = None then Some sp else None)"

text \<open>
  The completion of a tool call. \<open>post_tool_status\<close> is the chain of conditions on the host's status and error
  type: a gap reason, or the receipt status, what is confirmed of the execution, and the outcome.
\<close>

definition post_tool_status :: "string \<Rightarrow> json \<Rightarrow> bool \<Rightarrow> string + string \<times> bool option \<times> string option" where
  "post_tool_status raw_status raw_error_type late =
     (if raw_error_type \<noteq> JNull \<and> (case raw_error_type of
          JStr s \<Rightarrow> blank s \<or> MAX_ACTION_SOURCE_ERROR_TYPE_LENGTH < length s | _ \<Rightarrow> True) then
        Inl ''invalid_post_tool_error_type''
      else if raw_status = ''ok'' \<and> raw_error_type \<noteq> JNull then Inl ''ok_with_error_type''
      else if raw_status \<noteq> ''error'' \<and> raw_error_type = JStr ''thread_missing_result'' then
        Inl ''misattributed_thread_missing_result''
      else if raw_status = ''ok'' then Inr (''success'', Some True, Some ''success'')
      else if raw_status = ''error'' \<and> raw_error_type = JStr ''thread_missing_result'' then Inr (''unknown'', None, None)
      else if raw_status = ''error'' then Inr (''failure'', Some True, Some ''failure'')
      else if raw_status \<in> {''timeout'', ''cancelled''} then Inr (''unknown'', None, None)
      else if raw_status = ''blocked'' then
        (if late then Inl ''late_blocked_status'' else Inr (''blocked'', Some False, None))
      else Inl ''unknown_post_tool_status'')"

definition post_tool_events ::
  "bridge_stream \<Rightarrow> hermes_observation \<Rightarrow> event_envelope \<Rightarrow> string \<Rightarrow> bool \<Rightarrow> string \<Rightarrow> jobj \<Rightarrow> event_envelope list res" where
  "post_tool_events stream r raw_event aid late raw_status evidence =
     (let derived = (\<lambda>role t payload cause. derived_event stream r raw_event role t payload (Some aid) cause) in
      if raw_status = ''blocked'' then
        rbind (derived ''action.blocked'' ''action.blocked'' evidence None) (\<lambda>blocked. Inr [blocked])
      else if late then
        rbind (derived ''action.receipt.late'' ''action.receipt'' evidence None) (\<lambda>receipt. Inr [receipt])
      else rbind (derived ''action.dispatched'' ''action.dispatched'' [(''action_id'', JStr aid)] None) (\<lambda>dispatched.
        rbind (derived ''action.receipt'' ''action.receipt'' evidence (Some (ev_event_id dispatched))) (\<lambda>receipt.
        Inr [dispatched, receipt])))"

definition post_tool_plan ::
  "bridge_stream \<Rightarrow> hermes_observation \<Rightarrow> event_envelope \<Rightarrow> hermes_span option \<Rightarrow> semantic_plan res" where
  "post_tool_plan stream r raw_event matched_span = (case matched_span of
     None \<Rightarrow> semantic_gap stream r raw_event ''unmatched_post_tool'' None
   | Some sp \<Rightarrow>
     rbind (validate_matched_span r sp ToolSpan (context_get (ho_context r) ''tool_call_id'')) (\<lambda>_.
     rbind (of_option (PyValueError ''matched tool span is missing its action identity'') (sp_action_id sp)) (\<lambda>aid.
     let p = ho_payload r; late = (sp_closed_capture_seq sp \<noteq> None);
         raw_status = (case jget p ''status'' of JStr s \<Rightarrow> s | _ \<Rightarrow> []);
         raw_error_type = jget p ''error_type''
     in case post_tool_status raw_status raw_error_type late of
          Inl reason \<Rightarrow> semantic_gap stream r raw_event reason (still_open sp)
        | Inr (receipt_status, execution, outcome) \<Rightarrow>
            rbind (post_tool_events stream r raw_event aid late raw_status
              [(''action_id'', JStr aid), (''duration_ms'', jget p ''duration_ms''), (''effect_confirmed'', JNull),
               (''error_message_sha256'', JStr (value_sha256 (jget p ''error_message''))),
               (''error_type_sha256'', JStr (value_sha256 raw_error_type)),
               (''execution_confirmed'', opt_json JBool execution), (''late'', JBool late),
               (''outcome'', opt_json JStr outcome), (''result_sha256'', JStr (value_sha256 (jget p ''result''))),
               (''source_error_type'', raw_error_type), (''source_status'', JStr raw_status),
               (''status'', JStr receipt_status)]) (\<lambda>events.
            rbind (derived_event stream r raw_event ''action.reconstructed'' ''action.reconstructed''
              [(''action_id'', JStr aid), (''assessment'', JStr
                (if raw_status = ''blocked'' then ''dispatch_prevented''
                 else if outcome = Some ''success'' then ''execution_succeeded''
                 else if outcome = Some ''failure'' then ''execution_failed'' else ''execution_unknown''))]
              (Some aid) (Some (ev_event_id (last events)))) (\<lambda>reconstructed.
            mk_plan \<lparr>pl_semantic_status = Applied, pl_semantic_complete = True,
              pl_derived_events = events @ [reconstructed], pl_span_open = None,
              pl_span_close = (if late then None else Some sp)\<rparr>)))))"

section \<open>The plan of any other hook\<close>

definition ATTRIBUTED_EVENT_TYPES :: "hermes_hook \<Rightarrow> string option" where
  "ATTRIBUTED_EVENT_TYPES h =
     (if h \<in> {OnSessionStart, OnSessionEnd, OnSessionFinalize, OnSessionReset} then Some ''semantic.session.attributed''
      else if h \<in> {PreLlmCall, PostLlmCall} then Some ''semantic.llm.attributed''
      else if h \<in> {PreApiRequest, PostApiRequest, ApiRequestError} then Some ''semantic.api.attributed''
      else if h \<in> {PreApprovalRequest, PostApprovalResponse} then Some ''semantic.approval.attributed''
      else if h \<in> {SubagentStart, SubagentStop} then Some ''semantic.subagent.attributed''
      else if h = PreVerify then Some ''semantic.verification.attributed''
      else None)"

text \<open>The span an attributed hook opens or closes, with the occurrence it reports; a completion needs its span.\<close>

definition api_spans ::
  "hermes_observation \<Rightarrow> hermes_span option \<Rightarrow> (hermes_span option \<times> hermes_span option \<times> int option) option res" where
  "api_spans r matched_span =
     (if ho_hook r = PreApiRequest then
        rbind (mk_span (ho_bridge_instance_id r) ApiSpan (context_get (ho_context r) ''api_request_id'')
          (ho_capture_seq r) (span_context_fingerprint r) None None) (\<lambda>sp.
        Inr (Some (Some sp, None, Some (ho_capture_seq r))))
      else if ho_hook r \<in> {PostApiRequest, ApiRequestError} then
        (case matched_span of None \<Rightarrow> Inr None
         | Some sp \<Rightarrow> rbind (validate_matched_span r sp ApiSpan (context_get (ho_context r) ''api_request_id'')) (\<lambda>_.
             Inr (Some (None, still_open sp, Some (sp_occurrence_capture_seq sp)))))
      else Inr (Some (None, None, None)))"

definition child_actor_id :: "hermes_observation \<Rightarrow> string" where
  "child_actor_id r = derived_id (ho_bridge_instance_id r) (''subagent.child.'' @
     (case context_get (ho_context r) ''child_session_id'' of None \<Rightarrow> ''None'' | Some s \<Rightarrow> s))"

definition child_registration :: "bridge_stream \<Rightarrow> hermes_observation \<Rightarrow> event_envelope \<Rightarrow> event_envelope list res" where
  "child_registration stream r raw_event =
     (if ho_hook r = SubagentStart then
        rbind (derived_event stream r raw_event ''subagent.actor_registered'' ''identity.actor_registered''
          [(''actor_id'', JStr (child_actor_id r)),
           (''attributes'', JObj [(''child_session_id_sha256'',
               JStr (value_sha256 (opt_json JStr (context_get (ho_context r) ''child_session_id'')))),
             (''child_subagent_id_sha256'', JStr (value_sha256 (jget (ho_payload r) ''child_subagent_id''))),
             (''source'', JStr ''hermes_observer_v1'')]),
           (''kind'', JStr ''external_agent''), (''parent_actor_id'', JStr (sm_brain_id stream))] None None) (\<lambda>e. Inr [e])
      else Inr [])"

definition attributed_plan ::
  "bridge_stream \<Rightarrow> hermes_observation \<Rightarrow> event_envelope \<Rightarrow> hermes_span option \<Rightarrow> semantic_plan res" where
  "attributed_plan stream r raw_event matched_span = (case ATTRIBUTED_EVENT_TYPES (ho_hook r) of
     None \<Rightarrow> semantic_gap stream r raw_event ''unsupported_semantic_hook'' None
   | Some t \<Rightarrow> rbind (api_spans r matched_span) (\<lambda>spans. case spans of
       None \<Rightarrow> semantic_gap stream r raw_event ''unmatched_api_completion'' None
     | Some (span_open, span_close, occurrence) \<Rightarrow>
         rbind (child_registration stream r raw_event) (\<lambda>preceding.
         rbind (derived_event stream r raw_event (''attributed.'' @ hook_text (ho_hook r)) t
           [(''capture_seq'', JInt (ho_capture_seq r)), (''context_sha256'', JStr (span_context_fingerprint r)),
            (''hook'', JStr (hook_text (ho_hook r))),
            (''late'', JBool (case matched_span of None \<Rightarrow> False | Some s \<Rightarrow> sp_closed_capture_seq s \<noteq> None)),
            (''occurrence_capture_seq'', opt_json JInt occurrence),
            (''raw_payload_sha256'', JStr (value_sha256 (JObj (ho_payload r)))),
            (''source'', JStr ''hermes_observer_v1'')] None
           (Some (if preceding = [] then ev_event_id raw_event else ev_event_id (last preceding)))) (\<lambda>e.
         mk_plan \<lparr>pl_semantic_status = Applied, pl_semantic_complete = True, pl_derived_events = preceding @ [e],
           pl_span_open = span_open, pl_span_close = span_close\<rparr>))))"

definition build_semantic_plan ::
  "bridge_stream \<Rightarrow> bridge_record \<Rightarrow> event_envelope \<Rightarrow> hermes_span option \<Rightarrow> string option \<Rightarrow> semantic_plan res" where
  "build_semantic_plan stream record raw_event matched_span forced_gap_reason =
     (if record_instance record \<noteq> sm_bridge_instance_id stream then Inl stream_mismatch
      else if ev_brain_id raw_event \<noteq> sm_brain_id stream \<or> ev_actor_id raw_event \<noteq> sm_server_actor_id stream \<or>
        ev_adapter_id raw_event \<noteq> Some (sm_server_adapter_id stream) \<or> ev_sequence raw_event \<noteq> None then
        Inl (PyValueError ''raw event does not bind the semantic stream'')
      else case record of
        Gap _ \<Rightarrow>
          if ev_event_type raw_event \<noteq> ''trace.gap'' then Inl (PyValueError ''gap record requires one raw trace gap'')
          else mk_plan \<lparr>pl_semantic_status = SemanticGap, pl_semantic_complete = False, pl_derived_events = [],
            pl_span_open = None, pl_span_close = None\<rparr>
      | Observation r \<Rightarrow>
          if ev_event_type raw_event \<noteq> HOOK_EVENT_TYPES (ho_hook r) then
            Inl (PyValueError ''raw event does not represent the observation hook'')
          else case forced_gap_reason of
            Some reason \<Rightarrow>
              if blank reason \<or> 160 < length reason then
                Inl (PyValueError ''forced semantic gap reason must be non-blank and bounded'')
              else semantic_gap stream r raw_event reason (case matched_span of None \<Rightarrow> None | Some s \<Rightarrow> still_open s)
          | None \<Rightarrow>
              if ho_hook r = PreToolCall then
                (if matched_span \<noteq> None then Inl (PyValueError ''pre-tool observation cannot close a span'')
                 else pre_tool_plan stream r raw_event)
              else if ho_hook r = PostToolCall then post_tool_plan stream r raw_event matched_span
              else attributed_plan stream r raw_event matched_span)"

section \<open>Derived identifiers\<close>

lemma byte_marks:
  "list_all (\<lambda>b. let v = (b AND 0x0F) OR 0x40 in 0 \<le> v \<and> v < 256 \<and> v div 16 = (4::int)) [0..255]"
  "list_all (\<lambda>b. let v = (b AND 0x3F) OR 0x80 in 0 \<le> v \<and> v < 256 \<and> v div 16 \<in> {8, 9, 10, 11::int}) [0..255]"
  by code_simp+

lemma hex_text_length: "length (hex_text bs) = 2 * length bs"
  by (simp add: hex_text_def length_concat_const [where n = 2])

lemma hex_text_is_hex: "list_all (\<lambda>b. 0 \<le> b \<and> b < 256) bs \<Longrightarrow> list_all is_hex (hex_text bs)"
  by (induction bs) (auto simp: hex_text_def intro!: is_hex_hex_char)

lemma hex_text_nth: "k < length bs \<Longrightarrow> hex_text bs ! (2 * k) = hex_char (bs ! k div 16)"
proof (induction bs arbitrary: k)
  case (Cons b bs)
  then show ?case by (cases k) (auto simp: hex_text_def)
qed simp

lemma hex_marks:
  "hex_char 4 = CHR ''4''" "hex_char 8 = CHR ''8''" "hex_char 9 = CHR ''9''" "hex_char 10 = CHR ''a''" "hex_char 11 = CHR ''b''"
  by code_simp+

lemma list_36: "length xs = 32 \<Longrightarrow> \<exists>a0 a1 a2 a3 a4 a5 a6 a7 b0 b1 b2 b3 c0 c1 c2 c3 d0 d1 d2 d3 e.
    xs = [a0, a1, a2, a3, a4, a5, a6, a7, b0, b1, b2, b3, c0, c1, c2, c3, d0, d1, d2, d3] @ e \<and> length e = 12"
  by (auto simp: numeral_eq_Suc length_Suc_conv)

lemma uuid_text_uuid:
  assumes "length h = 32" "list_all is_hex h" "h ! 12 = CHR ''4''" "h ! 16 \<in> set ''89ab''"
  shows "is_uuid4 (take 8 h @ ''-'' @ take 4 (drop 8 h) @ ''-'' @ take 4 (drop 12 h) @ ''-'' @ take 4 (drop 16 h) @ ''-'' @ drop 20 h)"
proof -
  obtain a0 a1 a2 a3 a4 a5 a6 a7 b0 b1 b2 b3 c0 c1 c2 c3 d0 d1 d2 d3 e where
    h: "h = [a0, a1, a2, a3, a4, a5, a6, a7, b0, b1, b2, b3, c0, c1, c2, c3, d0, d1, d2, d3] @ e" "length e = 12"
    using list_36 [OF assms(1)] by (elim exE conjE)
  have "list_all (\<lambda>(i, c). if i \<in> {8, 13, 18, 23} then c = CHR ''-'' else lower_hex c) (enumerate n e)"
    if "24 \<le> n" "list_all is_hex e" for n e
    using that by (induction e arbitrary: n) (auto simp: lower_hex_def)
  with assms h show ?thesis by (simp add: is_uuid4_def lower_hex_def)
qed

lemma derived_id_uuid: "is_uuid4 (derived_id raw role)"
proof -
  define bs where "bs = take 16 (sha256 (utf8 (raw @ nul @ role)))"
  define ds where "ds = (bs[6 := (bs ! 6 AND 0x0F) OR 0x40])[8 := (bs[6 := (bs ! 6 AND 0x0F) OR 0x40] ! 8 AND 0x3F) OR 0x80]"
  have bs: "length bs = 16" by (simp add: bs_def length_sha256)
  have byte: "b \<in> set [0..255]" if "b \<in> set bs" for b
  proof -
    from that have "b \<in> set (sha256 (utf8 (raw @ nul @ role)))" unfolding bs_def by (rule in_set_takeD)
    from sha256_range [OF this] show ?thesis by simp
  qed
  have marks: "0 \<le> ds ! 6 \<and> ds ! 6 < 256 \<and> ds ! 6 div 16 = 4" "0 \<le> ds ! 8 \<and> ds ! 8 < 256 \<and> ds ! 8 div 16 \<in> {8, 9, 10, 11}"
    using byte_marks bs byte [of "bs ! 6"] byte [of "bs ! 8"] by (simp_all add: ds_def list_all_iff Let_def)
  have range: "0 \<le> ds ! k \<and> ds ! k < 256" if "k < 16" for k
  proof (cases "k = 6 \<or> k = 8")
    case False
    then have "ds ! k = bs ! k" using bs by (simp add: ds_def nth_list_update)
    moreover have "bs ! k \<in> set [0..255]" using byte [of "bs ! k"] bs that by simp
    ultimately show ?thesis by simp
  qed (use marks in auto)
  have len: "length ds = 16" using bs by (simp add: ds_def)
  have "list_all is_hex (hex_text ds)" using range len by (intro hex_text_is_hex) (simp add: list_all_length)
  moreover have "hex_text ds ! 12 = CHR ''4''" "hex_text ds ! 16 \<in> set ''89ab''"
    using hex_text_nth [of 6 ds] hex_text_nth [of 8 ds] marks len by (auto simp: hex_marks)
  moreover have "derived_id raw role = uuid_text ds" by (simp add: derived_id_def ds_def bs_def Let_def)
  ultimately show ?thesis using uuid_text_uuid [of "hex_text ds"] len by (simp add: uuid_text_def hex_text_length Let_def)
qed

end
