(* ===== verification/Plans.thy ===== *)
theory Plans imports Semantic
begin

text \<open>
  What is proved of \<^verbatim>\<open>runtime/semantic_ingest.py\<close>: the shape of every plan, the choice of a matched span, when
  an observation has a plan, and the identifiers the host may leave empty that make the raw event fail.
\<close>

section \<open>Derived events\<close>

definition derived_for :: "bridge_stream \<Rightarrow> event_envelope \<Rightarrow> event_envelope \<Rightarrow> bool" where
  "derived_for stream raw e \<longleftrightarrow> valid_event e \<and> ev_sequence e = None \<and> ev_brain_id e = sm_brain_id stream \<and>
     ev_actor_id e = sm_server_actor_id stream \<and> ev_adapter_id e = Some (sm_server_adapter_id stream) \<and>
     ev_wall_time e = ev_wall_time raw \<and> ev_monotonic_ns e = ev_monotonic_ns raw"

text \<open>Each event names its predecessor as its cause, the first one the raw event.\<close>

fun causal_chain :: "string \<Rightarrow> event_envelope list \<Rightarrow> bool" where
  "causal_chain i [] = True"
| "causal_chain i (e # es) = (ev_causation_id e = Some i \<and> causal_chain (ev_event_id e) es)"

lemma causal_chain_snoc:
  "causal_chain i (es @ [e]) \<longleftrightarrow> causal_chain i es \<and> ev_causation_id e = Some (if es = [] then i else ev_event_id (last es))"
  by (induction es arbitrary: i) auto

definition semantic_event_types :: "string list" where
  "semantic_event_types = [''action.proposed'', ''personality.control.sampled'', ''action.energy_requested'',
     ''simulation.created'', ''action.prepared'', ''action.blocked'', ''action.dispatched'', ''action.receipt'',
     ''action.reconstructed'', ''identity.actor_registered'', ''semantic.session.attributed'', ''semantic.llm.attributed'',
     ''semantic.api.attributed'', ''semantic.approval.attributed'', ''semantic.subagent.attributed'',
     ''semantic.verification.attributed'']"

lemma derived_event_Inr:
  "derived_event stream r raw role t p aid c = Inr e \<Longrightarrow> derived_for stream raw e \<and> ev_event_type e = t \<and>
     ev_payload e = freeze_items p \<and> ev_event_id e = derived_id (ev_event_id raw) role \<and> ev_action_id e = aid \<and>
     ev_causation_id e = Some (case c of None \<Rightarrow> ev_event_id raw | Some c \<Rightarrow> c)"
  by (auto simp: derived_event_def new_event_def derived_for_def)

lemma mk_plan_Inr: "mk_plan p = Inr q \<Longrightarrow> q = p"
  by (auto simp: mk_plan_def Let_def split: if_splits)

definition plan_sound :: "bridge_stream \<Rightarrow> event_envelope \<Rightarrow> hermes_span option \<Rightarrow> semantic_plan \<Rightarrow> bool" where
  "plan_sound stream raw matched p \<longleftrightarrow>
     list_all (derived_for stream raw) (pl_derived_events p) \<and> causal_chain (ev_event_id raw) (pl_derived_events p) \<and>
     length (pl_derived_events p) \<le> 5 \<and>
     (case pl_semantic_status p of
        Applied \<Rightarrow> pl_semantic_complete p \<and> pl_derived_events p \<noteq> [] \<and>
          set (map ev_event_type (pl_derived_events p)) \<subseteq> set semantic_event_types
      | SemanticGap \<Rightarrow> \<not> pl_semantic_complete p \<and> pl_span_open p = None \<and>
          map ev_event_type (pl_derived_events p) \<in> {[], [''semantic.gap'']}
      | _ \<Rightarrow> False) \<and>
     (pl_span_open p = None \<or> pl_span_close p = None) \<and>
     (case pl_span_close p of None \<Rightarrow> True | Some s \<Rightarrow> matched = Some s \<and> sp_closed_capture_seq s = None) \<and>
     (case pl_span_open p of None \<Rightarrow> True | Some s \<Rightarrow> sp_closed_capture_seq s = None)"

lemma semantic_gap_sound:
  "semantic_gap stream r raw reason close = Inr p \<Longrightarrow>
   (case close of None \<Rightarrow> True | Some s \<Rightarrow> matched = Some s \<and> sp_closed_capture_seq s = None) \<Longrightarrow> plan_sound stream raw matched p"
  by (auto simp: semantic_gap_def rbind_eq_Inr plan_sound_def dest!: derived_event_Inr mk_plan_Inr)

lemma mk_span_Inr: "mk_span i k x n c a z = Inr s \<Longrightarrow> sp_bridge_instance_id s = i \<and> sp_span_kind s = k \<and>
    Some (sp_external_id s) = x \<and> sp_occurrence_capture_seq s = n \<and> sp_context_fingerprint s = c \<and> sp_action_id s = a \<and>
    sp_closed_capture_seq s = z \<and> is_uuid4 i \<and> 1 \<le> n"
  by (auto simp: mk_span_def rbind_eq_Inr split: option.splits if_splits)

lemma pre_tool_plan_sound: "pre_tool_plan stream r raw = Inr p \<Longrightarrow> plan_sound stream raw m p"
  unfolding pre_tool_plan_def Let_def
  by (auto simp: rbind_eq_Inr plan_sound_def semantic_event_types_def dest!: derived_event_Inr mk_plan_Inr mk_span_Inr)

lemma post_tool_events_Inr:
  assumes "post_tool_events stream r raw aid late st ev = Inr es"
  shows "list_all (derived_for stream raw) es \<and> causal_chain (ev_event_id raw) es \<and> es \<noteq> [] \<and> length es \<le> 2 \<and>
    set (map ev_event_type es) \<subseteq> set semantic_event_types"
  using assms by (auto simp: post_tool_events_def Let_def rbind_eq_Inr semantic_event_types_def dest!: derived_event_Inr split: if_splits)

lemma post_tool_plan_sound: "post_tool_plan stream r raw m = Inr p \<Longrightarrow> plan_sound stream raw m p"
proof (cases m)
  case (Some s)
  assume p: "post_tool_plan stream r raw m = Inr p"
  show ?thesis
  proof (cases "post_tool_status (case jget (ho_payload r) ''status'' of JStr s \<Rightarrow> s | _ \<Rightarrow> [])
      (jget (ho_payload r) ''error_type'') (sp_closed_capture_seq s \<noteq> None)")
    case (Inl reason)
    with p Some show ?thesis
      by (auto simp: post_tool_plan_def Let_def rbind_eq_Inr still_open_def intro!: semantic_gap_sound split: if_splits)
  next
    case (Inr c)
    obtain rs ex out where c: "c = (rs, ex, out)" by (cases c)
    from p Some Inr c obtain aid ev es d t payload where
      d: "post_tool_events stream r raw aid (sp_closed_capture_seq s \<noteq> None) t ev = Inr es"
        "derived_event stream r raw ''action.reconstructed'' ''action.reconstructed'' payload (Some aid) (Some (ev_event_id (last es))) = Inr d"
        "mk_plan \<lparr>pl_semantic_status = Applied, pl_semantic_complete = True, pl_derived_events = es @ [d],
           pl_span_open = None, pl_span_close = (if sp_closed_capture_seq s \<noteq> None then None else Some s)\<rparr> = Inr p"
      by (auto simp: post_tool_plan_def Let_def rbind_eq_Inr)
    from post_tool_events_Inr [OF d(1)] derived_event_Inr [OF d(2)] mk_plan_Inr [OF d(3)] Some show ?thesis
      by (auto simp: plan_sound_def causal_chain_snoc semantic_event_types_def)
  qed
qed (auto simp: post_tool_plan_def intro: semantic_gap_sound)

lemma child_registration_Inr:
  assumes "child_registration stream r raw = Inr es"
  shows "list_all (derived_for stream raw) es \<and> causal_chain (ev_event_id raw) es \<and> length es \<le> 1 \<and>
    set (map ev_event_type es) \<subseteq> {''identity.actor_registered''}"
  using assms by (auto simp: child_registration_def rbind_eq_Inr dest!: derived_event_Inr split: if_splits)

lemma api_spans_Inr:
  assumes "api_spans r m = Inr (Some (o', c, n))"
  shows "(o' = None \<or> c = None) \<and> (case c of None \<Rightarrow> True | Some s \<Rightarrow> m = Some s \<and> sp_closed_capture_seq s = None) \<and>
    (case o' of None \<Rightarrow> True | Some s \<Rightarrow> sp_closed_capture_seq s = None)"
  using assms by (auto simp: api_spans_def rbind_eq_Inr still_open_def dest!: mk_span_Inr split: if_splits option.splits)

lemma attributed_type: "ATTRIBUTED_EVENT_TYPES h = Some t \<Longrightarrow> t \<in> set semantic_event_types"
  by (auto simp: ATTRIBUTED_EVENT_TYPES_def semantic_event_types_def split: if_splits)

lemma attributed_plan_sound: "attributed_plan stream r raw m = Inr p \<Longrightarrow> plan_sound stream raw m p"
proof (cases "ATTRIBUTED_EVENT_TYPES (ho_hook r)")
  case (Some t)
  assume p: "attributed_plan stream r raw m = Inr p"
  with Some obtain spans where s: "api_spans r m = Inr spans" by (auto simp: attributed_plan_def rbind_eq_Inr)
  show ?thesis
  proof (cases spans)
    case None
    with p Some s show ?thesis by (auto simp: attributed_plan_def intro: semantic_gap_sound)
  next
    case (Some c)
    obtain o' cl n where c: "c = (o', cl, n)" by (cases c)
    from p \<open>ATTRIBUTED_EVENT_TYPES (ho_hook r) = Some t\<close> s Some c obtain es d payload role where
      d: "child_registration stream r raw = Inr es"
        "derived_event stream r raw role t payload None (Some (if es = [] then ev_event_id raw else ev_event_id (last es))) = Inr d"
        "mk_plan \<lparr>pl_semantic_status = Applied, pl_semantic_complete = True, pl_derived_events = es @ [d],
           pl_span_open = o', pl_span_close = cl\<rparr> = Inr p"
      by (auto simp: attributed_plan_def rbind_eq_Inr)
    from child_registration_Inr [OF d(1)] derived_event_Inr [OF d(2)] mk_plan_Inr [OF d(3)]
      api_spans_Inr [of r m o' cl n] s Some c attributed_type [OF \<open>ATTRIBUTED_EVENT_TYPES (ho_hook r) = Some t\<close>]
    show ?thesis by (auto simp: plan_sound_def causal_chain_snoc semantic_event_types_def)
  qed
qed (auto simp: attributed_plan_def intro: semantic_gap_sound)

lemma plan_is_sound:
  assumes "build_semantic_plan stream record raw matched forced = Inr p"
  shows "plan_sound stream raw matched p"
proof (cases "record")
  case (Observation r)
  with assms show ?thesis
    by (auto simp: build_semantic_plan_def intro: pre_tool_plan_sound post_tool_plan_sound attributed_plan_sound
        split: if_splits option.splits)
      (auto intro!: semantic_gap_sound simp: still_open_def)
next
  case (Gap g)
  with assms show ?thesis
    by (auto simp: build_semantic_plan_def plan_sound_def dest!: mk_plan_Inr split: if_splits)
qed

text \<open>
  C26. Every plan is well typed: its events are valid unsequenced events of the stream's brain, actor and adapter at
  the time of the raw event, at most five of the eight allowed, and each names the one before it as its cause,
  the first one the raw event. An applied plan is complete and has events, all of the sixteen semantic types; a
  gap is incomplete, opens no span and derives nothing but a single gap event. A plan never opens and closes a span at
  once, and it closes only the matched span while that is open.
\<close>

theorem plans_well_typed:
  assumes "build_semantic_plan stream record raw matched forced = Inr p"
  shows "plan_sound stream raw matched p"
  by (rule plan_is_sound [OF assms])

section \<open>The matched span\<close>

lemma max_by_greatest: "max_by key x ys \<in> set (x # ys) \<and> (\<forall>y \<in> set (x # ys). key y \<le> key (max_by key x ys))"
proof (induction ys arbitrary: x)
  case (Cons y ys)
  show ?case using Cons.IH [of y] Cons.IH [of x] by auto
qed simp

definition earlier_close :: "hermes_observation \<Rightarrow> hermes_span \<Rightarrow> bool" where
  "earlier_close r s \<longleftrightarrow> (case sp_closed_capture_seq s of None \<Rightarrow> False | Some c \<Rightarrow> c < ho_capture_seq r)"

lemma match_cases:
  assumes "completes r = Some (kind, external)" "match_hermes_span r cs = (m, gap)"
  shows "case m of
      Some s \<Rightarrow> gap = None \<and> s \<in> set cs \<and> eligible_span r kind external s \<and>
        (if sp_closed_capture_seq s = None then
           filter (\<lambda>q. eligible_span r kind external q \<and> sp_closed_capture_seq q = None) cs = [s] \<and>
           \<not> list_ex (\<lambda>q. eligible_span r kind external q \<and> earlier_close r q) cs
         else \<not> list_ex (\<lambda>q. eligible_span r kind external q \<and> sp_closed_capture_seq q = None) cs \<and> earlier_close r s \<and>
           list_all (\<lambda>q. closed_key q \<le> closed_key s) (filter (\<lambda>q. eligible_span r kind external q \<and> earlier_close r q) cs))
    | None \<Rightarrow> gap = None \<longleftrightarrow> \<not> list_ex (\<lambda>q. eligible_span r kind external q \<and>
        (sp_closed_capture_seq q = None \<or> earlier_close r q)) cs"
proof -
  define op where "op = filter (\<lambda>q. eligible_span r kind external q \<and> sp_closed_capture_seq q = None) cs"
  define cl where "cl = filter (\<lambda>q. eligible_span r kind external q \<and> earlier_close r q) cs"
  have f: "filter (\<lambda>s. sp_closed_capture_seq s = None) (filter (eligible_span r kind external) cs) = op"
    "filter (\<lambda>s. case sp_closed_capture_seq s of None \<Rightarrow> False | Some c \<Rightarrow> c < ho_capture_seq r)
      (filter (eligible_span r kind external) cs) = cl"
    by (simp_all add: op_def cl_def earlier_close_def)
  have m: "(m, gap) = (if 1 < length op then (None, Some ''ambiguous_open_span'')
      else if length op = 1 then
        (if cl \<noteq> [] then (None, Some ''ambiguous_open_closed_span'') else (Some (hd op), None))
      else (case cl of [] \<Rightarrow> (None, None) | s # ss \<Rightarrow> (Some (max_by closed_key s ss), None)))"
    using assms(2) unfolding match_hermes_span_def Let_def assms(1) option.case prod.case f by (rule sym)
  have set_op: "q \<in> set op \<longleftrightarrow> q \<in> set cs \<and> eligible_span r kind external q \<and> sp_closed_capture_seq q = None" for q
    by (auto simp: op_def)
  have set_cl: "q \<in> set cl \<longleftrightarrow> q \<in> set cs \<and> eligible_span r kind external q \<and> earlier_close r q" for q
    by (auto simp: cl_def)
  have closed: "earlier_close r q \<Longrightarrow> sp_closed_capture_seq q \<noteq> None" for q
    by (auto simp: earlier_close_def split: option.splits)
  consider "1 < length op" | s where "op = [s]" "cl \<noteq> []" | s where "op = [s]" "cl = []"
    | "op = []" "cl = []" | s ss where "op = []" "cl = s # ss"
    by (cases op; cases cl; cases "tl op") auto
  then show ?thesis
  proof cases
    case 1
    then have "hd op \<in> set op" by (cases op) auto
    with 1 m set_op show ?thesis by (auto simp: list_ex_iff)
  next
    case (2 s)
    then have "s \<in> set op" by simp
    with 2 m set_op show ?thesis by (auto simp: list_ex_iff)
  next
    case (3 s)
    then have "m = Some s" "gap = None" "s \<in> set op" using m by auto
    moreover from this have "sp_closed_capture_seq s = None" "s \<in> set cs" "eligible_span r kind external s"
      using set_op by blast+
    moreover have "\<not> (eligible_span r kind external q \<and> earlier_close r q)" if "q \<in> set cs" for q
      using 3 set_cl that by auto
    ultimately show ?thesis using 3(1) by (simp add: list_ex_iff op_def)
  next
    case 4
    with m set_op set_cl show ?thesis by (auto simp: list_ex_iff)
  next
    case (5 s ss)
    then have "m = Some (max_by closed_key s ss)" "gap = None" using m by auto
    with 5 max_by_greatest [of closed_key s ss] set_op set_cl closed show ?thesis
      by (auto simp: list_ex_iff list_all_iff cl_def [symmetric])
  qed
qed

text \<open>
  C27. The span a completion is matched with is never guessed. A matched span is one of the candidates of the
  same bridge, kind, identifier and context that started before the record; if it is open it is the only open one
  and none of them was closed before; if it was closed, nothing is open and it is the latest closed one, by its
  close and then by its start. Without a match either nothing was eligible or the ambiguity is named.
\<close>

theorem match_is_unambiguous:
  assumes "completes r = Some (kind, external)" "match_hermes_span r cs = (m, gap)"
  shows "case m of
      Some s \<Rightarrow> gap = None \<and> s \<in> set cs \<and> eligible_span r kind external s \<and>
        (if sp_closed_capture_seq s = None then
           filter (\<lambda>q. eligible_span r kind external q \<and> sp_closed_capture_seq q = None) cs = [s] \<and>
           \<not> list_ex (\<lambda>q. eligible_span r kind external q \<and> earlier_close r q) cs
         else \<not> list_ex (\<lambda>q. eligible_span r kind external q \<and> sp_closed_capture_seq q = None) cs \<and> earlier_close r s \<and>
           list_all (\<lambda>q. closed_key q \<le> closed_key s) (filter (\<lambda>q. eligible_span r kind external q \<and> earlier_close r q) cs))
    | None \<Rightarrow> gap = None \<longleftrightarrow> \<not> list_ex (\<lambda>q. eligible_span r kind external q \<and>
        (sp_closed_capture_seq q = None \<or> earlier_close r q)) cs"
  by (rule match_cases [OF assms])

section \<open>Frozen records\<close>

lemma wire_frozen: "wire_ok t v \<Longrightarrow> frozen v"
  by (cases t; cases v) auto

lemma hook_keys_sorted: "sorted_keys (snd (hook_models h))" "sorted_wrt (<) (fst (hook_models h))"
proof -
  have "list_all (\<lambda>h. sorted_keys (snd (hook_models h)) \<and> sorted_wrt (<) (fst (hook_models h)))
    [OnSessionStart, OnSessionEnd, OnSessionFinalize, OnSessionReset, PreLlmCall, PostLlmCall, PreApiRequest, PostApiRequest,
     ApiRequestError, PreToolCall, PostToolCall, PreApprovalRequest, PostApprovalResponse, SubagentStart, SubagentStop, PreVerify]"
    by code_simp
  then show "sorted_keys (snd (hook_models h))" "sorted_wrt (<) (fst (hook_models h))" by (cases h; simp)+
qed

lemma payload_frozen: "valid_observation r \<Longrightarrow> frozen (JObj (ho_payload r))"
proof -
  assume "valid_observation r"
  then have p: "list_all2 (\<lambda>(k, t) (k', v). k' = k \<and> wire_ok t v) (snd (hook_models (ho_hook r))) (ho_payload r)"
    by (simp add: valid_observation_def)
  have "map fst ps = map fst ms \<and> list_all (\<lambda>p. frozen (snd p)) ps"
    if "list_all2 (\<lambda>(k, t) (k', v). k' = k \<and> wire_ok t v) ms ps" for ms :: model_fields and ps
    using that by (induction rule: list_all2_induct) (auto intro: wire_frozen)
  from this [OF p] show ?thesis using hook_keys_sorted(1) [of "ho_hook r"] by (simp add: sorted_keys_def)
qed

lemma payload_get_frozen: "valid_observation r \<Longrightarrow> frozen (jget (ho_payload r) k)"
  by (simp add: payload_frozen jget_frozen del: frozen.simps)

lemma frozen_freeze: "frozen v \<Longrightarrow> frozen (freeze v)"
  by (simp add: freeze_frozen)

lemma frozen_members: "list_all (\<lambda>p. frozen (freeze (snd p))) m \<Longrightarrow> frozen (freeze (JObj m))"
  using frozen_item_list by simp

section \<open>When a plan exists\<close>

text \<open>What \<open>build_raw_event\<close> returns for an observation.\<close>

definition raw_of :: "bridge_stream \<Rightarrow> hermes_observation \<Rightarrow> event_envelope \<Rightarrow> bool" where
  "raw_of stream r raw \<longleftrightarrow> valid_event raw \<and> ev_brain_id raw = sm_brain_id stream \<and>
     ev_actor_id raw = sm_server_actor_id stream \<and> ev_adapter_id raw = Some (sm_server_adapter_id stream) \<and>
     ev_sequence raw = None \<and> ev_event_type raw = HOOK_EVENT_TYPES (ho_hook r) \<and>
     ho_bridge_instance_id r = sm_bridge_instance_id stream \<and>
     list_all (\<lambda>k. valid_provenance (context_get (ho_context r) k)) [''session_id'', ''turn_id'', ''api_request_id'']"

lemma raw_event_of: "build_raw_event stream (Observation r) st = Inr raw \<Longrightarrow> raw_of stream r raw"
  by (auto simp: build_raw_event_def new_event_def raw_of_def observation_provenance_def no_provenance_def valid_event_def
      split: if_splits)

lemma semantic_types_valid: "list_all valid_event_type (''semantic.gap'' # semantic_event_types)"
  by code_simp

lemma raw_ids: "raw_of stream r raw \<Longrightarrow> is_uuid4 (sm_brain_id stream) \<and> is_uuid4 (sm_server_actor_id stream) \<and>
    valid_provenance (Some (sm_server_adapter_id stream)) \<and> is_uuid4 (ev_event_id raw) \<and> 0 \<le> ev_monotonic_ns raw"
  by (auto simp: raw_of_def valid_event_def)

lemma rbind_ex: "\<exists>x. m = Inr x \<Longrightarrow> (\<And>x. m = Inr x \<Longrightarrow> \<exists>y. f x = Inr y) \<Longrightarrow> \<exists>y. rbind m f = Inr y"
  by auto

lemma if_ex: "(b \<Longrightarrow> \<exists>y. x = Inr y) \<Longrightarrow> (\<not> b \<Longrightarrow> \<exists>y. z = Inr y) \<Longrightarrow> \<exists>y. (if b then x else z) = Inr y"
  by simp

lemma derived_event_exists:
  assumes "raw_of stream r raw" "t \<in> set (''semantic.gap'' # semantic_event_types)"
    and "list_all (\<lambda>p. frozen (freeze (snd p))) p" "valid_provenance aid" "valid_provenance c"
  shows "\<exists>e. derived_event stream r raw role t p aid c = Inr e"
proof -
  have "valid_event_type t" using assms(2) semantic_types_valid by (auto simp: list_all_iff)
  moreover have "valid_provenance (Some (ev_event_id raw))" using assms(1) valid_event_ids [of raw] uuid4_not_blank uuid4_length
    by (auto simp: raw_of_def valid_provenance_def)
  then have "valid_provenance (Some (case c of None \<Rightarrow> ev_event_id raw | Some c \<Rightarrow> c))" using assms(5) by (cases c) auto
  moreover have "frozen (JObj (freeze_items p))" using frozen_item_list assms(3) by blast
  moreover have "list_all (\<lambda>k. valid_provenance (context_get (ho_context r) k)) [''session_id'', ''turn_id'', ''api_request_id'']"
    using assms(1) by (simp add: raw_of_def)
  ultimately show ?thesis using raw_ids [OF assms(1)] assms(4) derived_id_uuid [of "ev_event_id raw" role]
    by (simp add: derived_event_def new_event_def observation_provenance_def no_provenance_def valid_event_def
        EVENT_SCHEMA_VERSION_def del: frozen.simps)
qed

lemma derived_provenance: "derived_for stream raw e \<Longrightarrow> valid_provenance (Some (ev_event_id e))"
  using valid_event_ids [of e] uuid4_not_blank [of "ev_event_id e"] uuid4_length [of "ev_event_id e"]
  by (simp add: derived_for_def valid_provenance_def)

lemma semantic_gap_exists: "raw_of stream r raw \<Longrightarrow> \<exists>p. semantic_gap stream r raw reason close = Inr p"
  using derived_event_exists [of stream r raw "''semantic.gap''"
      "[(''capture_seq'', JInt (ho_capture_seq r)), (''context_sha256'', JStr (span_context_fingerprint r)),
        (''hook'', JStr (hook_text (ho_hook r))), (''raw_payload_sha256'', JStr (value_sha256 (JObj (ho_payload r)))),
        (''reason'', JStr reason), (''trace_complete'', JBool False)]" None None "''semantic_gap.'' @ reason"]
  by (auto simp: semantic_gap_def mk_plan_def MAX_DERIVED_EVENTS_PER_RECORD_def valid_provenance_def)

lemma context_sha256: "is_sha256 (span_context_fingerprint r)"
  by (simp add: span_context_fingerprint_def value_sha256_def is_sha256_hex)

lemma action_id_provenance: "valid_provenance None" "valid_provenance (Some (tool_action_id raw n))"
  by (simp_all add: valid_provenance_def tool_action_id_def blank_Cons py_space_def)

lemma pre_tool_plan_exists:
  assumes "raw_of stream r raw" "valid_observation r" "context_get (ho_context r) ''tool_call_id'' = Some x" "str_len 1 512 x"
  shows "\<exists>p. pre_tool_plan stream r raw = Inr p"
proof -
  let ?aid = "tool_action_id raw (ho_capture_seq r)"
  note ex = derived_event_exists [OF assms(1) _ _ action_id_provenance(2)]
  note next_cause = derived_provenance [OF conjunct1 [OF derived_event_Inr]]
  note frozen = frozen_freeze [OF payload_get_frozen [OF assms(2)]] frozen_members
  have sp: "\<exists>s. mk_span (ho_bridge_instance_id r) ToolSpan (Some x) (ho_capture_seq r) (span_context_fingerprint r) (Some ?aid) None = Inr s"
    using assms(2,4) context_sha256 action_id_provenance(2) [of raw "ho_capture_seq r"]
    by (auto simp: mk_span_def valid_observation_def valid_provenance_def validate_id_def)
  show ?thesis
    unfolding pre_tool_plan_def Let_def assms(3)
    by (intro rbind_ex ex sp)
      (auto simp: semantic_event_types_def mk_plan_def MAX_DERIVED_EVENTS_PER_RECORD_def frozen
        action_id_provenance simp del: frozen.simps(2) freeze.simps(2) intro: next_cause)
qed

lemma post_tool_events_exist:
  assumes "raw_of stream r raw" "valid_provenance (Some aid)" "list_all (\<lambda>p. frozen (freeze (snd p))) evidence"
  shows "\<exists>es. post_tool_events stream r raw aid late st evidence = Inr es"
proof -
  note ex = derived_event_exists [OF assms(1) _ _ assms(2)]
  note next_cause = derived_provenance [OF conjunct1 [OF derived_event_Inr]]
  show ?thesis
    unfolding post_tool_events_def Let_def
    by (intro if_ex rbind_ex ex)
      (auto simp: semantic_event_types_def action_id_provenance assms(3) intro: next_cause)
qed

lemma post_tool_plan_exists:
  assumes "raw_of stream r raw" "valid_observation r"
    and "case m of None \<Rightarrow> True | Some s \<Rightarrow> eligible_span r ToolSpan (context_get (ho_context r) ''tool_call_id'') s \<and>
      sp_action_id s \<noteq> None \<and> valid_provenance (sp_action_id s)"
  shows "\<exists>p. post_tool_plan stream r raw m = Inr p"
proof (cases m)
  case None
  with semantic_gap_exists [OF assms(1)] show ?thesis by (simp add: post_tool_plan_def)
next
  case (Some s)
  with assms(3) obtain aid where s: "validate_matched_span r s ToolSpan (context_get (ho_context r) ''tool_call_id'') = Inr ()"
    "sp_action_id s = Some aid" "valid_provenance (Some aid)" by (auto simp: eligible_span_def validate_matched_span_def)
  note frozen = frozen_freeze [OF payload_get_frozen [OF assms(2)]]
  note ex = derived_event_exists [OF assms(1) _ _ s(3)]
  have last: "valid_provenance (Some (ev_event_id (last es)))" if "post_tool_events stream r raw aid l st ev = Inr es" for es l st ev
    using post_tool_events_Inr [OF that] last_in_set [of es] by (auto simp: list_all_iff intro: derived_provenance)
  have plan: "\<exists>p. mk_plan \<lparr>pl_semantic_status = Applied, pl_semantic_complete = True, pl_derived_events = es @ [d],
      pl_span_open = None, pl_span_close = c\<rparr> = Inr p" if "post_tool_events stream r raw aid l st ev = Inr es" for es l st ev d c
    using post_tool_events_Inr [OF that] by (simp add: mk_plan_def MAX_DERIVED_EVENTS_PER_RECORD_def)
  show ?thesis
  proof (cases "post_tool_status (case jget (ho_payload r) ''status'' of JStr s \<Rightarrow> s | _ \<Rightarrow> [])
      (jget (ho_payload r) ''error_type'') (sp_closed_capture_seq s \<noteq> None)")
    case (Inl reason)
    with s Some semantic_gap_exists [OF assms(1)] show ?thesis by (simp add: post_tool_plan_def Let_def)
  next
    case (Inr c)
    obtain rs e out where c: "c = (rs, e, out)" by (cases c)
    show ?thesis
      unfolding post_tool_plan_def Some option.case s(1,2) rbind_simps of_option_simps Let_def Inr c sum.case prod.case
      by (intro rbind_ex post_tool_events_exist [OF assms(1) s(3)] ex)
        (auto simp: frozen opt_json_def semantic_event_types_def split: option.split intro: last plan)
  qed
qed

lemma attributed_plan_exists:
  assumes "raw_of stream r raw" "valid_observation r" "ho_hook r \<noteq> PreToolCall" "ho_hook r \<noteq> PostToolCall"
    and "ho_hook r = PreApiRequest \<Longrightarrow> context_get (ho_context r) ''api_request_id'' \<noteq> None"
    and "case m of None \<Rightarrow> True | Some s \<Rightarrow> eligible_span r ApiSpan (context_get (ho_context r) ''api_request_id'') s"
  shows "\<exists>p. attributed_plan stream r raw m = Inr p"
proof -
  obtain t where t: "ATTRIBUTED_EVENT_TYPES (ho_hook r) = Some t" using assms(3,4) by (cases "ho_hook r") (auto simp: ATTRIBUTED_EVENT_TYPES_def)
  have "valid_provenance (context_get (ho_context r) ''api_request_id'')" using assms(1) by (simp add: raw_of_def)
  then have x: "str_len 1 512 x" if "context_get (ho_context r) ''api_request_id'' = Some x" for x
    using that by (cases x) (auto simp: valid_provenance_def str_len_def)
  have "\<exists>spans. api_spans r m = Inr spans"
    using assms(2,5,6) x context_sha256 [of r]
    by (cases m) (auto simp: api_spans_def mk_span_def validate_id_def valid_observation_def validate_matched_span_def eligible_span_def
        rbind_def split: option.splits)
  then obtain spans where spans: "api_spans r m = Inr spans" ..
  note frozen = frozen_freeze [OF payload_get_frozen [OF assms(2)]] frozen_members
  have child: "\<exists>es. child_registration stream r raw = Inr es"
  proof (cases "ho_hook r = SubagentStart")
    case True
    show ?thesis
      unfolding child_registration_def if_P [OF True]
      by (intro rbind_ex derived_event_exists [OF assms(1)])
        (auto simp: semantic_event_types_def action_id_provenance frozen simp del: frozen.simps(2) freeze.simps(2))
  qed (simp add: child_registration_def)
  have last: "valid_provenance (Some (if es = [] then ev_event_id raw else ev_event_id (last es)))"
    if "child_registration stream r raw = Inr es" for es
  proof (cases "es = []")
    case True
    with raw_ids [OF assms(1)] uuid4_not_blank [of "ev_event_id raw"] uuid4_length [of "ev_event_id raw"]
    show ?thesis by (simp add: valid_provenance_def)
  next
    case False
    with child_registration_Inr [OF that] last_in_set [OF False] have "derived_for stream raw (last es)" by (auto simp: list_all_iff)
    with False show ?thesis by (simp add: derived_provenance)
  qed
  then have causes: "child_registration stream r raw = Inr [] \<Longrightarrow> valid_provenance (Some (ev_event_id raw))"
    "\<And>es. child_registration stream r raw = Inr es \<Longrightarrow> es \<noteq> [] \<Longrightarrow> valid_provenance (Some (ev_event_id (last es)))"
    by fastforce+
  have plan: "\<exists>p. mk_plan \<lparr>pl_semantic_status = Applied, pl_semantic_complete = True, pl_derived_events = es @ [d],
      pl_span_open = s1, pl_span_close = s2\<rparr> = Inr p" if "child_registration stream r raw = Inr es" for es d s1 s2
    using child_registration_Inr [OF that] by (simp add: mk_plan_def MAX_DERIVED_EVENTS_PER_RECORD_def)
  show ?thesis
  proof (cases spans)
    case None
    with t spans semantic_gap_exists [OF assms(1)] show ?thesis by (simp add: attributed_plan_def)
  next
    case (Some c)
    obtain s1 s2 n where c: "c = (s1, s2, n)" by (cases c)
    have type: "t \<in> set (''semantic.gap'' # semantic_event_types)" using attributed_type [OF t] by simp
    show ?thesis
      unfolding attributed_plan_def t spans Some c option.case rbind_simps prod.case
      by (intro rbind_ex child derived_event_exists [OF assms(1) type])
        (auto simp: opt_json_def action_id_provenance split: option.split intro: causes plan)
  qed
qed

definition matchable_span :: "hermes_span \<Rightarrow> bool" where
  "matchable_span s \<longleftrightarrow> sp_span_kind s \<noteq> ToolSpan \<or> sp_action_id s \<noteq> None \<and> valid_provenance (sp_action_id s)"

lemma context_bounded: "valid_observation r \<Longrightarrow> context_get (ho_context r) k = Some x \<Longrightarrow> length x \<le> 512"
  by (auto simp: valid_observation_def context_get_def list_all_iff host_identifier_def split: option.splits dest!: map_of_SomeD)

lemma matched_eligible:
  assumes "match_hermes_span r cs = (Some s, gap)"
  obtains kind external where "completes r = Some (kind, external)" "s \<in> set cs" "eligible_span r kind external s"
proof (cases "completes r")
  case None
  with assms show ?thesis by (simp add: match_hermes_span_def)
next
  case (Some c)
  obtain kind external where "c = (kind, external)" by (cases c)
  with Some match_cases [of r kind external cs "Some s" gap] assms that show ?thesis by simp
qed

text \<open>
  C28. The plan of an observation cannot fail where the host named what it refers to: a valid observation whose
  raw event exists has a plan for the span it is matched with among spans as the store keeps them, whatever gap is
  forced on it, provided a tool call carries a call identifier and an API request a request identifier.
\<close>

theorem observation_has_plan:
  assumes "valid_observation r" "build_raw_event stream (Observation r) st = Inr raw"
    and "match_hermes_span r cs = (m, gap)" "list_all matchable_span cs"
    and "ho_hook r = PreToolCall \<Longrightarrow> context_get (ho_context r) ''tool_call_id'' \<notin> {None, Some []}"
    and "ho_hook r = PreApiRequest \<Longrightarrow> context_get (ho_context r) ''api_request_id'' \<noteq> None"
    and "case forced of None \<Rightarrow> True | Some reason \<Rightarrow> \<not> blank reason \<and> length reason \<le> 160"
  shows "\<exists>p. build_semantic_plan stream (Observation r) raw m forced = Inr p"
proof -
  note raw = raw_event_of [OF assms(2)]
  have matched: "\<exists>kind external. completes r = Some (kind, external) \<and> eligible_span r kind external s \<and> matchable_span s"
    if "m = Some s" for s
    using assms(3,4) that matched_eligible [of r cs s gap] by (auto simp: list_all_iff) metis
  show ?thesis
  proof (cases forced)
    case (Some reason)
    with raw assms(7) semantic_gap_exists [OF raw] show ?thesis by (simp add: build_semantic_plan_def raw_of_def)
  next
    case None
    have "\<exists>p. pre_tool_plan stream r raw = Inr p" if h: "ho_hook r = PreToolCall"
    proof -
      from assms(5) [OF h] obtain x where x: "context_get (ho_context r) ''tool_call_id'' = Some x" "x \<noteq> []" by auto
      with context_bounded [OF assms(1) x(1)] have "str_len 1 512 x" by (cases x) (auto simp: str_len_def)
      with x(1) pre_tool_plan_exists [OF raw assms(1)] show ?thesis by blast
    qed
    moreover have "m = None" if "ho_hook r = PreToolCall"
      using matched that by (cases m) (auto simp: completes_def)
    moreover have "\<exists>p. post_tool_plan stream r raw m = Inr p" if "ho_hook r = PostToolCall"
      using post_tool_plan_exists [OF raw assms(1), of m] matched that
      by (cases m) (auto simp: completes_def eligible_span_def matchable_span_def)
    moreover have "\<exists>p. attributed_plan stream r raw m = Inr p" if "ho_hook r \<noteq> PreToolCall" "ho_hook r \<noteq> PostToolCall"
      using attributed_plan_exists [OF raw assms(1) that assms(6), of m] matched that
      by (cases m) (auto simp: completes_def split: if_splits)
    ultimately show ?thesis using None raw by (simp add: build_semantic_plan_def raw_of_def)
  qed
qed

section \<open>What the host may leave empty\<close>

lemma pre_tool_needs_call_id:
  assumes "raw_of stream r raw" "valid_observation r" "context_get (ho_context r) ''tool_call_id'' \<in> {None, Some []}"
  shows "pre_tool_plan stream r raw = Inl bad_external_id"
proof -
  have bad: "mk_span (ho_bridge_instance_id r) ToolSpan (context_get (ho_context r) ''tool_call_id'') (ho_capture_seq r)
      (span_context_fingerprint r) (Some aid) None = Inl bad_external_id" for aid
    using assms(2,3) by (auto simp: mk_span_def validate_id_def valid_observation_def str_len_def)
  have bind: "\<exists>x. m = Inr x \<Longrightarrow> (\<And>x. m = Inr x \<Longrightarrow> f x = Inl e) \<Longrightarrow> rbind m f = Inl e" for m :: "event_envelope res" and f :: "event_envelope \<Rightarrow> semantic_plan res" and e
    by auto
  note ex = derived_event_exists [OF assms(1) _ _ action_id_provenance(2)]
  note next_cause = derived_provenance [OF conjunct1 [OF derived_event_Inr]]
  note frozen = frozen_freeze [OF payload_get_frozen [OF assms(2)]] frozen_members
  show ?thesis
    unfolding pre_tool_plan_def Let_def
    by (intro bind ex)
      (auto simp: semantic_event_types_def frozen action_id_provenance bad simp del: frozen.simps(2) freeze.simps(2)
        intro: next_cause)
qed

text \<open>The identifiers that a raw event carries as its provenance.\<close>

definition named_by_host :: "hermes_observation \<Rightarrow> bool" where
  "named_by_host r \<longleftrightarrow> list_all (\<lambda>k. case context_get (ho_context r) k of None \<Rightarrow> True | Some x \<Rightarrow> \<not> blank x)
     [''session_id'', ''turn_id'', ''api_request_id'']"

lemma hook_types_valid: "valid_event_type (HOOK_EVENT_TYPES h)"
proof -
  have "list_all (\<lambda>h. valid_event_type (HOOK_EVENT_TYPES h)) [OnSessionStart, OnSessionEnd, OnSessionFinalize, OnSessionReset,
      PreLlmCall, PostLlmCall, PreApiRequest, PostApiRequest, ApiRequestError, PreToolCall, PostToolCall, PreApprovalRequest,
      PostApprovalResponse, SubagentStart, SubagentStop, PreVerify]" by code_simp
  then show ?thesis by (cases h) simp_all
qed

lemma observation_freezes: "valid_observation r \<Longrightarrow> frozen (JObj (freeze_items (observation_data r)))"
proof -
  assume v: "valid_observation r"
  have "list_all (\<lambda>p. frozen (freeze (snd p))) (map (\<lambda>(k, x). (k, opt_json JStr x)) (ho_context r))"
    by (auto simp: list_all_iff opt_json_def split: option.split)
  then have "frozen (freeze (context_data (ho_context r)))" unfolding context_data_def by (rule frozen_members)
  moreover have "frozen (JObj (cv_channels (ho_coverage r)))" using v by (simp add: valid_observation_def valid_coverage_def)
  then have "frozen (freeze (coverage_data (ho_coverage r)))" unfolding coverage_data_def
    by (intro frozen_members) (simp add: frozen_freeze del: frozen.simps(2) freeze.simps(2))
  ultimately show ?thesis using payload_frozen [OF v]
    by (intro frozen_item_list) (simp add: observation_data_def frozen_freeze del: frozen.simps(2) freeze.simps(2))
qed

lemma raw_event_when_named:
  assumes "valid_observation r" "valid_stream stream" "ho_bridge_instance_id r = sm_bridge_instance_id stream"
    and "\<not> blank (sm_server_adapter_id stream)" "is_uuid4 (st_event_id st)"
  shows "if named_by_host r then \<exists>raw. build_raw_event stream (Observation r) st = Inr raw
    else build_raw_event stream (Observation r) st = Inl (ValidationError ''EventEnvelope'')"
proof -
  have "valid_provenance (context_get (ho_context r) k) \<longleftrightarrow>
      (case context_get (ho_context r) k of None \<Rightarrow> True | Some x \<Rightarrow> \<not> blank x)" for k
    using context_bounded [OF assms(1), of k] by (auto simp: valid_provenance_def split: option.split)
  then have n: "named_by_host r \<longleftrightarrow> list_all (\<lambda>k. valid_provenance (context_get (ho_context r) k))
      [''session_id'', ''turn_id'', ''api_request_id'']" by (simp add: named_by_host_def)
  have a: "valid_provenance (Some (sm_server_adapter_id stream))"
    using assms(2,4) by (simp add: valid_provenance_def valid_stream_def str_len_def)
  have o: "0 \<le> ho_captured_monotonic_ns r" using assms(1) by (simp add: valid_observation_def)
  show ?thesis
    using assms(2,3,5) n a o observation_freezes [OF assms(1)] hook_types_valid [of "ho_hook r"]
    by (simp add: build_raw_event_def new_event_def event_revalidated_def valid_event_def valid_stream_def
        observation_provenance_def no_provenance_def valid_provenance_def [of None] EVENT_SCHEMA_VERSION_def del: frozen.simps)
qed

text \<open>
  C29. A defect of the code: an identifier the host may leave empty makes its observation impossible to ingest. The
  models accept an empty session, turn or request identifier, because the host sends one, but a valid observation on
  a valid stream has a raw event exactly if none of the three is blank; otherwise building it raises a raw validation
  error. And a tool call that names all three but carries no call identifier has a raw event but, unless the store
  forces a gap on it, no plan, not even one that records a semantic gap: its span refuses the absent identifier.
\<close>

theorem empty_identifiers_refused:
  assumes "valid_observation r" "valid_stream stream" "ho_bridge_instance_id r = sm_bridge_instance_id stream"
    and "\<not> blank (sm_server_adapter_id stream)" "is_uuid4 (st_event_id st)"
  shows "(\<not> named_by_host r \<longrightarrow> build_raw_event stream (Observation r) st = Inl (ValidationError ''EventEnvelope'')) \<and>
    (named_by_host r \<longrightarrow> (\<exists>raw. build_raw_event stream (Observation r) st = Inr raw \<and>
      (ho_hook r = PreToolCall \<and> context_get (ho_context r) ''tool_call_id'' \<in> {None, Some []} \<longrightarrow>
        build_semantic_plan stream (Observation r) raw None None = Inl bad_external_id)))"
proof (cases "named_by_host r")
  case True
  with raw_event_when_named [OF assms] obtain raw where b: "build_raw_event stream (Observation r) st = Inr raw" by auto
  note raw = raw_event_of [OF b]
  have "build_semantic_plan stream (Observation r) raw None None = Inl bad_external_id"
    if "ho_hook r = PreToolCall" "context_get (ho_context r) ''tool_call_id'' \<in> {None, Some []}"
    using pre_tool_needs_call_id [OF raw assms(1) that(2)] raw that(1) by (simp add: build_semantic_plan_def raw_of_def)
  with True b show ?thesis by blast
qed (use raw_event_when_named [OF assms] in simp)

section \<open>A concrete tool call\<close>

definition sample_coverage :: capture_coverage where
  "sample_coverage = \<lparr>cv_policy_version = ''v1'', cv_capture_coverage = ''full'', cv_redacted_paths = 0,
     cv_truncated_paths = 0, cv_unsupported_paths = 0, cv_omitted_nodes = 0, cv_channels = []\<rparr>"

definition sample_call :: "string option \<Rightarrow> string option \<Rightarrow> hermes_observation" where
  "sample_call session call = \<lparr>ho_bridge_instance_id = sample_id, ho_capture_seq = 2,
     ho_captured_at = ''2026-01-01T00:00:00Z'', ho_captured_monotonic_ns = 5, ho_hook = PreToolCall,
     ho_context = [(''api_request_id'', None), (''session_id'', session), (''task_id'', None),
       (''tool_call_id'', call), (''turn_id'', None)],
     ho_payload = [(''args'', JNull), (''extensions'', JObj []), (''middleware_trace'', JNull), (''tool_name'', JStr ''ls'')],
     ho_coverage = sample_coverage\<rparr>"

definition sample_stream :: bridge_stream where
  "sample_stream = \<lparr>sm_bridge_instance_id = sample_id, sm_brain_id = sample_id, sm_server_actor_id = sample_id,
     sm_server_adapter_id = ''hermes'', sm_next_capture_seq = 2, sm_status = StreamOpen, sm_connected_nonce = Some ''n'',
     sm_disconnected_reason = None, sm_disconnected_at = None, sm_last_seen = 0, sm_closed_final_seq = None\<rparr>"

lemma sample_tree: "bounded_tree (JObj (observation_data (sample_call s c))) = Inr ()"
  if "s \<in> {Some ''s'', Some []}" "c \<in> {Some ''c'', None}"
  using that by (auto simp: bounded_tree_def observation_data_def sample_call_def sample_coverage_def context_data_def coverage_data_def
    MAX_BRIDGE_RECORD_NODES_def MAX_BRIDGE_RECORD_DEPTH_def MAX_BRIDGE_CONTAINER_ITEMS_def MAX_BRIDGE_KEY_BYTES_def
    MAX_BRIDGE_STRING_BYTES_def MIN_BRIDGE_INTEGER_def MAX_BRIDGE_INTEGER_def opt_json_def utf8_def sample_id_def)

lemma sample_text:
  "length (utf8 (canonical_json (JObj (observation_data (sample_call (Some ''s'') (Some ''c'')))))) < 800"
  "length (utf8 (canonical_json (JObj (observation_data (sample_call (Some []) None))))) < 800"
  "length (utf8 (canonical_json (JObj (observation_data (sample_call (Some ''s'') None))))) < 800"
  by code_simp+

lemma sample_call_valid: "valid_observation (sample_call (Some ''s'') (Some ''c''))" "valid_observation (sample_call (Some []) None)"
  "valid_observation (sample_call (Some ''s'') None)"
proof -
  have "is_uuid4 sample_id" by code_simp
  then show "valid_observation (sample_call (Some ''s'') (Some ''c''))" "valid_observation (sample_call (Some []) None)"
    "valid_observation (sample_call (Some ''s'') None)"
    using sample_tree [of "Some ''s''" "Some ''c''"] sample_tree [of "Some []" None] sample_tree [of "Some ''s''" None] sample_text
    by (simp_all add: valid_observation_def sample_call_def sample_coverage_def valid_coverage_def record_size_ok_def str_len_def
        tool_context_def pre_tool_payload_def host_identifier_def MAX_CAPTURE_SEQUENCE_def MAX_BRIDGE_INTEGER_def wire_text_def
        MAX_BRIDGE_RECORD_BYTES_def MAX_COVERAGE_CHANNELS_def)
qed

lemma sample_raw: "\<exists>raw. build_raw_event sample_stream (Observation (sample_call (Some ''s'') (Some ''c''))) sample_stamp = Inr raw"
proof -
  have "\<not> (case build_raw_event sample_stream (Observation (sample_call (Some ''s'') (Some ''c''))) sample_stamp of Inl _ \<Rightarrow> True | Inr _ \<Rightarrow> False)"
    by code_simp
  then show ?thesis by (simp split: sum.splits)
qed

lemma sample_match: "match_hermes_span (sample_call s c) [] = (None, None)"
  by (simp add: match_hermes_span_def completes_def sample_call_def)

lemma observation_has_plan_witness:
  "\<exists>raw p. build_semantic_plan sample_stream (Observation (sample_call (Some ''s'') (Some ''c''))) raw None None = Inr p"
proof -
  obtain raw where "build_raw_event sample_stream (Observation (sample_call (Some ''s'') (Some ''c''))) sample_stamp = Inr raw"
    using sample_raw by blast
  from observation_has_plan [OF sample_call_valid(1) this sample_match, of None] show ?thesis
    by (auto simp: sample_call_def context_get_def)
qed

lemma plans_well_typed_witness:
  "\<exists>raw p. build_semantic_plan sample_stream (Observation (sample_call (Some ''s'') (Some ''c''))) raw None None = Inr p \<and>
     plan_sound sample_stream raw None p"
proof -
  let ?r = "sample_call (Some ''s'') (Some ''c'')"
  obtain raw where "build_raw_event sample_stream (Observation ?r) sample_stamp = Inr raw" using sample_raw by blast
  note raw = raw_event_of [OF this]
  obtain p where "pre_tool_plan sample_stream ?r raw = Inr p"
    using pre_tool_plan_exists [OF raw sample_call_valid(1)] by (auto simp: sample_call_def context_get_def str_len_def)
  then have p: "build_semantic_plan sample_stream (Observation ?r) raw None None = Inr p"
    using raw by (simp add: build_semantic_plan_def raw_of_def sample_call_def)
  from plans_well_typed [OF this] p show ?thesis by blast
qed

lemma sample_stream_valid: "valid_stream sample_stream" "\<not> blank (sm_server_adapter_id sample_stream)"
    "is_uuid4 (st_event_id sample_stamp)"
  by code_simp+

lemma empty_identifiers_refused_witness:
  "build_raw_event sample_stream (Observation (sample_call (Some []) None)) sample_stamp = Inl (ValidationError ''EventEnvelope'') \<and>
   (\<exists>raw. build_raw_event sample_stream (Observation (sample_call (Some ''s'') None)) sample_stamp = Inr raw \<and>
     build_semantic_plan sample_stream (Observation (sample_call (Some ''s'') None)) raw None None = Inl bad_external_id)"
proof -
  have i: "ho_bridge_instance_id (sample_call a b) = sm_bridge_instance_id sample_stream" for a b
    by (simp add: sample_call_def sample_stream_def)
  have n: "\<not> named_by_host (sample_call (Some []) None)" "named_by_host (sample_call (Some ''s'') None)"
    "ho_hook (sample_call (Some ''s'') None) = PreToolCall"
    "context_get (ho_context (sample_call (Some ''s'') None)) ''tool_call_id'' = None"
    by (simp_all add: named_by_host_def sample_call_def context_get_def blank_iff py_space_def)
  show ?thesis
    using empty_identifiers_refused [OF sample_call_valid(2) sample_stream_valid(1) i sample_stream_valid(2,3)]
      empty_identifiers_refused [OF sample_call_valid(3) sample_stream_valid(1) i sample_stream_valid(2,3)] n by auto
qed

definition sample_completion :: hermes_observation where
  "sample_completion = (sample_call (Some ''s'') (Some ''c''))\<lparr>ho_capture_seq := 7, ho_hook := PostToolCall\<rparr>"

definition sample_span :: "int \<Rightarrow> int option \<Rightarrow> hermes_span" where
  "sample_span n c = \<lparr>sp_bridge_instance_id = sample_id, sp_span_kind = ToolSpan, sp_external_id = ''c'',
     sp_occurrence_capture_seq = n, sp_context_fingerprint = span_context_fingerprint sample_completion,
     sp_action_id = Some ''a'', sp_closed_capture_seq = c\<rparr>"

lemma match_is_unambiguous_witness:
  "match_hermes_span sample_completion [sample_span 2 (Some 4), sample_span 3 (Some 5)] = (Some (sample_span 3 (Some 5)), None) \<and>
     earlier_close sample_completion (sample_span 3 (Some 5))"
proof -
  have c: "completes sample_completion = Some (ToolSpan, Some ''c'')"
    by (simp add: completes_def sample_completion_def sample_call_def context_get_def)
  have m: "match_hermes_span sample_completion [sample_span 2 (Some 4), sample_span 3 (Some 5)] = (Some (sample_span 3 (Some 5)), None)"
    using c by (simp add: match_hermes_span_def eligible_span_def sample_span_def closed_key_def)
      (simp add: sample_completion_def sample_call_def)
  from match_is_unambiguous [OF c m] m show ?thesis by (simp add: sample_span_def)
qed

end
