(* ===== verification/Spans.thy ===== *)
theory Spans imports Plans
begin

text \<open>
  The span table of \<^verbatim>\<open>runtime/store.py\<close>: finding the span a completion belongs to, making room for a new one,
  opening and closing. A stream keeps at most 256 spans; only closed ones are evicted. The lemmas: a plan the
  capacity check has let through settles, keeps the bound, and loses no open span.
\<close>

section \<open>Operations\<close>

definition MAX_HERMES_SPANS_PER_STREAM :: nat where "MAX_HERMES_SPANS_PER_STREAM = 256"

definition span_from_row :: "hermes_span \<Rightarrow> hermes_span res" where
  "span_from_row r = mk_span (sp_bridge_instance_id r) (sp_span_kind r) (Some (sp_external_id r))
     (sp_occurrence_capture_seq r) (sp_context_fingerprint r) (sp_action_id r) (sp_closed_capture_seq r)"

definition matched_span :: "database \<Rightarrow> bridge_record \<Rightarrow> (hermes_span option \<times> string option) res" where
  "matched_span L record = (case record of
     Gap _ \<Rightarrow> Inr (None, None)
   | Observation r \<Rightarrow> (case completes r of
       None \<Rightarrow> Inr (None, None)
     | Some (kind, external) \<Rightarrow>
         rbind (rmap span_from_row (take (MAX_HERMES_SPANS_PER_STREAM + 1)
           (sort_key (\<lambda>s. - sp_occurrence_capture_seq s)
             (filter (\<lambda>s. sp_bridge_instance_id s = ho_bridge_instance_id r \<and> sp_span_kind s = kind \<and>
               Some (sp_external_id s) = external \<and> sp_context_fingerprint s = span_context_fingerprint r) (db_spans L)))))
           (\<lambda>candidates. Inr (match_hermes_span r candidates))))"

definition semantic_lifecycle_gap :: "brain_state \<Rightarrow> bridge_record \<Rightarrow> hermes_span option \<Rightarrow> string option" where
  "semantic_lifecycle_gap state record matched = (case (record, matched) of
     (Observation r, Some sp) \<Rightarrow>
       if ho_hook r \<noteq> PostToolCall then None
       else let late = (sp_closed_capture_seq sp \<noteq> None);
                unavailable = Some (if late then ''late_action_unavailable'' else ''action_unavailable'')
            in (case sp_action_id sp of None \<Rightarrow> unavailable | Some aid \<Rightarrow>
              (case state_action state aid of None \<Rightarrow> unavailable | Some action \<Rightarrow>
                if Blocked \<in> set (ar_phase_history action) \<or> ar_execution_confirmed action = Some False then
                  Some ''late_completion_after_blocked''
                else if \<not> late then (if ar_phase action = Prepared then None else Some ''action_state_mismatch'')
                else if ar_phase action \<notin> {Receipted, Reconstructed} then Some ''late_action_state_mismatch''
                else None))
   | _ \<Rightarrow> None)"

type_synonym span_victim = "span_kind \<times> string \<times> int"

definition victim_of :: "hermes_span \<Rightarrow> span_victim" where
  "victim_of s = (sp_span_kind s, sp_external_id s, sp_occurrence_capture_seq s)"

definition stream_spans :: "string \<Rightarrow> database \<Rightarrow> hermes_span list" where
  "stream_spans i L = filter (\<lambda>s. sp_bridge_instance_id s = i) (db_spans L)"

text \<open>\<open>... closed_capture_seq IS NOT NULL ORDER BY closed_capture_seq, occurrence_capture_seq LIMIT ?\<close>.\<close>

definition closed_victims :: "string \<Rightarrow> nat \<Rightarrow> database \<Rightarrow> span_victim list" where
  "closed_victims i n L =
     map victim_of (take n (sort_key closed_key (filter (\<lambda>s. sp_closed_capture_seq s \<noteq> None) (stream_spans i L))))"

definition opens_span :: "bridge_record \<Rightarrow> bool" where
  "opens_span record = (case record of Observation r \<Rightarrow> ho_hook r \<in> {PreToolCall, PreApiRequest} | Gap _ \<Rightarrow> False)"

definition prepare_span_capacity :: "database \<Rightarrow> bridge_record \<Rightarrow> string option \<times> span_victim list" where
  "prepare_span_capacity L record =
     (if \<not> opens_span record then (None, [])
      else let i = record_instance record; n = length (stream_spans i L) in
        if n < MAX_HERMES_SPANS_PER_STREAM then (None, [])
        else let selected = closed_victims i (n - MAX_HERMES_SPANS_PER_STREAM + 1) L in
          (if MAX_HERMES_SPANS_PER_STREAM \<le> n - length selected then Some ''span_capacity_all_open'' else None, selected))"

definition delete_spans :: "(hermes_span \<Rightarrow> bool) \<Rightarrow> database \<Rightarrow> database" where
  "delete_spans p L = L\<lparr>db_spans := filter (\<lambda>s. \<not> p s) (db_spans L)\<rparr>"

definition evict_span :: "string \<Rightarrow> database \<Rightarrow> span_victim \<Rightarrow> database res" where
  "evict_span i L v = (let p = (\<lambda>s. sp_bridge_instance_id s = i \<and> victim_of s = v \<and> sp_closed_capture_seq s \<noteq> None) in
     if length (filter p (db_spans L)) \<noteq> 1 then
       Inl (LedgerIntegrityError ''selected closed Hermes span was lost before eviction'')
     else Inr (delete_spans p L))"

definition evict_spans :: "string \<Rightarrow> span_victim list \<Rightarrow> database \<Rightarrow> database res" where
  "evict_spans i victims L = rfold (evict_span i) L victims"

text \<open>The \<open>CHECK\<close> constraints, the primary key and the foreign key of the table.\<close>

definition span_checks :: "hermes_span \<Rightarrow> bool" where
  "span_checks s \<longleftrightarrow> str_len 1 512 (sp_external_id s) \<and> 1 \<le> sp_occurrence_capture_seq s \<and>
     length (sp_context_fingerprint s) = 64 \<and> (case sp_action_id s of None \<Rightarrow> True | Some a \<Rightarrow> str_len 1 512 a) \<and>
     (case sp_closed_capture_seq s of None \<Rightarrow> True | Some c \<Rightarrow> sp_occurrence_capture_seq s \<le> c)"

definition span_pkey :: "hermes_span \<Rightarrow> string \<times> span_victim" where
  "span_pkey s = (sp_bridge_instance_id s, victim_of s)"

definition close_span :: "int \<Rightarrow> hermes_span \<Rightarrow> database \<Rightarrow> database res" where
  "close_span n sp L = (let p = (\<lambda>s. span_pkey s = span_pkey sp \<and>
       sp_context_fingerprint s = sp_context_fingerprint sp \<and> sp_closed_capture_seq s = None) in
     if length (filter p (db_spans L)) \<noteq> 1 then Inl (LedgerIntegrityError ''matched Hermes span was lost before close'')
     else let spans = map (\<lambda>s. if p s then s\<lparr>sp_closed_capture_seq := Some n\<rparr> else s) (db_spans L) in
       if list_all span_checks (filter (\<lambda>s. span_pkey s = span_pkey sp) spans) then Inr (L\<lparr>db_spans := spans\<rparr>)
       else Inl (SqliteIntegrityError ''hermes_span''))"

definition open_span :: "hermes_span \<Rightarrow> database \<Rightarrow> database res" where
  "open_span sp L = (let row = sp\<lparr>sp_closed_capture_seq := None\<rparr> in
     if span_checks row \<and> span_pkey row \<notin> set (map span_pkey (db_spans L)) \<and>
       list_ex (\<lambda>r. sm_bridge_instance_id r = sp_bridge_instance_id row) (db_streams L)
     then Inr (L\<lparr>db_spans := db_spans L @ [row]\<rparr>) else Inl (SqliteIntegrityError ''hermes_span''))"

text \<open>The last check of \<open>_apply_semantic_spans_in_transaction\<close>, with the deletions before it.\<close>

definition trim_spans :: "string \<Rightarrow> database \<Rightarrow> database res" where
  "trim_spans i L = (let n = length (stream_spans i L) in
     if n \<le> MAX_HERMES_SPANS_PER_STREAM then Inr L
     else let victims = closed_victims i (n - MAX_HERMES_SPANS_PER_STREAM) L;
              L = delete_spans (\<lambda>s. sp_bridge_instance_id s = i \<and> victim_of s \<in> set victims) L
          in if length (stream_spans i L) > MAX_HERMES_SPANS_PER_STREAM then
               Inl (LedgerIntegrityError ''open Hermes spans exceed capacity; no open span was discarded'')
             else Inr L)"

definition apply_spans :: "semantic_plan \<Rightarrow> int \<Rightarrow> database \<Rightarrow> database res" where
  "apply_spans plan closing_capture_seq L =
     rbind (case pl_span_close plan of None \<Rightarrow> Inr L | Some sp \<Rightarrow> close_span closing_capture_seq sp L) (\<lambda>L.
     rbind (case pl_span_open plan of None \<Rightarrow> Inr L | Some sp \<Rightarrow> open_span sp L) (\<lambda>L.
     case (pl_span_open plan, pl_span_close plan) of
       (Some sp, _) \<Rightarrow> trim_spans (sp_bridge_instance_id sp) L
     | (None, Some sp) \<Rightarrow> trim_spans (sp_bridge_instance_id sp) L
     | (None, None) \<Rightarrow> Inr L))"

text \<open>What a commit does with the span table once its plan is made.\<close>

definition settle_spans :: "string \<Rightarrow> semantic_plan \<Rightarrow> span_victim list \<Rightarrow> int \<Rightarrow> database \<Rightarrow> database res" where
  "settle_spans i plan victims closing_capture_seq L =
     rbind (if pl_span_open plan \<noteq> None then evict_spans i victims L else Inr L) (apply_spans plan closing_capture_seq)"

section \<open>The table\<close>

definition span_table_ok :: "database \<Rightarrow> bool" where
  "span_table_ok L \<longleftrightarrow> distinct (map span_pkey (db_spans L)) \<and> list_all span_checks (db_spans L)"

definition spans_bounded :: "database \<Rightarrow> bool" where
  "spans_bounded L \<longleftrightarrow> (\<forall>i. length (stream_spans i L) \<le> MAX_HERMES_SPANS_PER_STREAM)"

definition open_spans :: "database \<Rightarrow> hermes_span list" where
  "open_spans L = filter (\<lambda>s. sp_closed_capture_seq s = None) (db_spans L)"

lemma pkey_unique: "distinct (map span_pkey ss) \<Longrightarrow> s \<in> set ss \<Longrightarrow> filter (\<lambda>q. span_pkey q = span_pkey s) ss = [s]"
proof (induction ss)
  case (Cons a ss)
  show ?case
  proof (cases "a = s")
    case True
    with Cons.prems have "filter (\<lambda>q. span_pkey q = span_pkey s) ss = []"
      by (auto simp: filter_empty_conv) (metis image_eqI)
    with True show ?thesis by simp
  next
    case False
    with Cons.prems have "s \<in> set ss" "span_pkey a \<noteq> span_pkey s" by auto
    with Cons show ?thesis by simp
  qed
qed simp

lemma filter_conj: "filter p (filter q xs) = filter (\<lambda>x. q x \<and> p x) xs"
  by simp

lemma evict_spans_exact:
  assumes "span_table_ok L" "distinct vs"
    and "\<forall>v \<in> set vs. \<exists>s \<in> set (db_spans L). span_pkey s = (i, v) \<and> sp_closed_capture_seq s \<noteq> None"
  shows "evict_spans i vs L = Inr (delete_spans (\<lambda>s. sp_bridge_instance_id s = i \<and> victim_of s \<in> set vs) L)"
  using assms
proof (induction vs arbitrary: L)
  case Nil
  then show ?case by (simp add: evict_spans_def delete_spans_def)
next
  case (Cons v vs)
  obtain s where s: "s \<in> set (db_spans L)" "span_pkey s = (i, v)" "sp_closed_capture_seq s \<noteq> None" using Cons.prems(3) by auto
  have u: "filter (\<lambda>q. span_pkey q = span_pkey s) (db_spans L) = [s]"
    using Cons.prems(1) s(1) pkey_unique by (simp add: span_table_ok_def)
  let ?p = "\<lambda>q. sp_bridge_instance_id q = i \<and> victim_of q = v \<and> sp_closed_capture_seq q \<noteq> None"
  have pq: "?p q \<longleftrightarrow> span_pkey q = span_pkey s" if "q \<in> set (db_spans L)" for q
  proof -
    have "q = s" if k: "span_pkey q = span_pkey s"
    proof -
      have "q \<in> set (filter (\<lambda>q. span_pkey q = span_pkey s) (db_spans L))" using k \<open>q \<in> set (db_spans L)\<close> by simp
      with u show ?thesis by simp
    qed
    with s show ?thesis by (auto simp: span_pkey_def)
  qed
  then have "filter ?p (db_spans L) = [s]" using u by (simp cong: filter_cong)
  then have e: "evict_span i L v = Inr (delete_spans ?p L)" by (simp add: evict_span_def Let_def)
  let ?M = "delete_spans ?p L"
  have ok: "span_table_ok ?M" using Cons.prems(1)
    by (auto simp: span_table_ok_def delete_spans_def list_all_iff distinct_map intro: inj_on_subset)
  have rest: "\<forall>w \<in> set vs. \<exists>q \<in> set (db_spans ?M). span_pkey q = (i, w) \<and> sp_closed_capture_seq q \<noteq> None"
  proof
    fix w assume w: "w \<in> set vs"
    with Cons.prems(3) obtain q where "q \<in> set (db_spans L)" "span_pkey q = (i, w)" "sp_closed_capture_seq q \<noteq> None" by auto
    moreover have "w \<noteq> v" using w Cons.prems(2) by auto
    ultimately show "\<exists>q \<in> set (db_spans ?M). span_pkey q = (i, w) \<and> sp_closed_capture_seq q \<noteq> None"
      by (auto simp: delete_spans_def span_pkey_def)
  qed
  have "filter (\<lambda>q. \<not> ?p q) (db_spans L) = filter (\<lambda>q. \<not> (sp_bridge_instance_id q = i \<and> victim_of q = v)) (db_spans L)"
    using pq s by (intro filter_cong) (auto simp: span_pkey_def)
  then have d: "delete_spans (\<lambda>s. sp_bridge_instance_id s = i \<and> victim_of s \<in> set vs) ?M =
      delete_spans (\<lambda>s. sp_bridge_instance_id s = i \<and> victim_of s \<in> set (v # vs)) L"
    by (simp add: delete_spans_def)
      (intro arg_cong [where f = "\<lambda>x. L\<lparr>db_spans := x\<rparr>"] filter_cong refl, blast)
  have "evict_spans i (v # vs) L = evict_spans i vs ?M" by (simp add: evict_spans_def e)
  also have "\<dots> = Inr (delete_spans (\<lambda>s. sp_bridge_instance_id s = i \<and> victim_of s \<in> set vs) ?M)"
    using Cons.IH [OF ok] Cons.prems(2) rest by simp
  finally show ?case using d by simp
qed

lemma closed_victims_found:
  assumes "v \<in> set (closed_victims i n L)"
  shows "\<exists>s \<in> set (db_spans L). span_pkey s = (i, v) \<and> sp_closed_capture_seq s \<noteq> None"
proof -
  from assms obtain s where "s \<in> set (take n (sort_key closed_key (filter (\<lambda>s. sp_closed_capture_seq s \<noteq> None) (stream_spans i L))))"
    "v = victim_of s" by (auto simp: closed_victims_def)
  then have "s \<in> set (filter (\<lambda>s. sp_closed_capture_seq s \<noteq> None) (stream_spans i L))" by (metis in_set_takeD set_sort)
  with \<open>v = victim_of s\<close> show ?thesis by (auto simp: stream_spans_def span_pkey_def)
qed

lemma distinct_victims: "span_table_ok L \<Longrightarrow> distinct (closed_victims i n L)"
proof -
  assume "span_table_ok L"
  then have d: "inj_on span_pkey (set (db_spans L))" "distinct (db_spans L)" by (auto simp: span_table_ok_def distinct_map)
  let ?xs = "sort_key closed_key (filter (\<lambda>s. sp_closed_capture_seq s \<noteq> None) (stream_spans i L))"
  have "inj_on victim_of (set ?xs)"
  proof (rule inj_onI)
    fix s q assume "s \<in> set ?xs" "q \<in> set ?xs" "victim_of s = victim_of q"
    then show "s = q" using inj_onD [OF d(1), of s q] by (auto simp: stream_spans_def span_pkey_def)
  qed
  moreover have "distinct ?xs" using d(2) by (simp add: stream_spans_def)
  ultimately have "distinct (map victim_of ?xs)" by (simp add: distinct_map)
  then show ?thesis using distinct_take [of "map victim_of ?xs" n] by (simp add: closed_victims_def take_map)
qed

lemma delete_victims_frame:
  assumes "span_table_ok L" "\<forall>v \<in> set vs. \<exists>s \<in> set (db_spans L). span_pkey s = (i, v) \<and> sp_closed_capture_seq s \<noteq> None"
    and "distinct vs"
  defines "M \<equiv> delete_spans (\<lambda>s. sp_bridge_instance_id s = i \<and> victim_of s \<in> set vs) L"
  shows "span_table_ok M" "open_spans M = open_spans L" "length (stream_spans i M) + length vs = length (stream_spans i L)"
    "j \<noteq> i \<Longrightarrow> stream_spans j M = stream_spans j L" "db_streams M = db_streams L"
proof -
  have inj: "inj_on span_pkey (set (db_spans L))" using assms(1) by (auto simp: span_table_ok_def distinct_map)
  have closed: "sp_closed_capture_seq s \<noteq> None" if "s \<in> set (db_spans L)" "sp_bridge_instance_id s = i" "victim_of s \<in> set vs" for s
  proof -
    note m = that
    obtain q where q: "q \<in> set (db_spans L)" "span_pkey q = (i, victim_of s)" "sp_closed_capture_seq q \<noteq> None"
      using assms(2) m(3) by auto
    have "span_pkey s = span_pkey q" using q(2) m(2) by (simp add: span_pkey_def)
    from inj_onD [OF inj this m(1) q(1)] q(3) show ?thesis by simp
  qed
  show "span_table_ok M" using assms(1)
    by (auto simp: M_def span_table_ok_def delete_spans_def list_all_iff distinct_map intro: inj_on_subset)
  have "\<not> (sp_bridge_instance_id s = i \<and> victim_of s \<in> set vs)" if "s \<in> set (db_spans L)" "sp_closed_capture_seq s = None" for s
    using closed [OF that(1)] that(2) by blast
  then show "open_spans M = open_spans L" by (auto simp: M_def open_spans_def delete_spans_def intro!: filter_cong)
  show "j \<noteq> i \<Longrightarrow> stream_spans j M = stream_spans j L"
    by (auto simp: M_def stream_spans_def delete_spans_def intro!: filter_cong)
  show "db_streams M = db_streams L" by (simp add: M_def delete_spans_def)
  let ?xs = "stream_spans i L"
  have "length (filter (\<lambda>s. victim_of s \<in> set vs) ?xs) = length vs"
  proof -
    have "inj_on victim_of (set (filter (\<lambda>s. victim_of s \<in> set vs) ?xs))"
      using inj by (auto simp: inj_on_def stream_spans_def span_pkey_def)
    moreover have "distinct (filter (\<lambda>s. victim_of s \<in> set vs) ?xs)"
      using assms(1) by (simp add: stream_spans_def span_table_ok_def distinct_map)
    moreover have "victim_of ` set (filter (\<lambda>s. victim_of s \<in> set vs) ?xs) = set vs"
      using assms(2) by (force simp: stream_spans_def span_pkey_def image_iff)
    ultimately have "card (set vs) = length (filter (\<lambda>s. victim_of s \<in> set vs) ?xs)"
      by (metis card_image distinct_card)
    with assms(3) show ?thesis by (simp add: distinct_card)
  qed
  moreover have "stream_spans i M = filter (\<lambda>s. victim_of s \<notin> set vs) ?xs"
    by (auto simp: M_def stream_spans_def delete_spans_def intro: filter_cong)
  ultimately show "length (stream_spans i M) + length vs = length ?xs"
    using sum_length_filter_compl [of "\<lambda>s. victim_of s \<in> set vs" ?xs] by simp
qed

lemma close_span_exact:
  assumes "span_table_ok L" "sp \<in> set (db_spans L)" "sp_closed_capture_seq sp = None" "sp_occurrence_capture_seq sp \<le> n"
  defines "M \<equiv> L\<lparr>db_spans := map (\<lambda>s. if s = sp then s\<lparr>sp_closed_capture_seq := Some n\<rparr> else s) (db_spans L)\<rparr>"
  shows "close_span n sp L = Inr M" "span_table_ok M" "length (stream_spans j M) = length (stream_spans j L)"
    "open_spans M = filter (\<lambda>s. s \<noteq> sp) (open_spans L)"
proof -
  have inj: "inj_on span_pkey (set (db_spans L))" using assms(1) by (auto simp: span_table_ok_def distinct_map)
  have p: "(span_pkey s = span_pkey sp \<and> sp_context_fingerprint s = sp_context_fingerprint sp \<and> sp_closed_capture_seq s = None) = (s = sp)"
    if "s \<in> set (db_spans L)" for s using inj_onD [OF inj, of s sp] that assms(2,3) by auto
  then have f: "filter (\<lambda>s. span_pkey s = span_pkey sp \<and> sp_context_fingerprint s = sp_context_fingerprint sp \<and>
      sp_closed_capture_seq s = None) (db_spans L) = filter (\<lambda>s. s = sp) (db_spans L)"
    and m: "map (\<lambda>s. if span_pkey s = span_pkey sp \<and> sp_context_fingerprint s = sp_context_fingerprint sp \<and>
      sp_closed_capture_seq s = None then s\<lparr>sp_closed_capture_seq := Some n\<rparr> else s) (db_spans L) = db_spans M"
    by (auto simp: M_def intro!: filter_cong)
  have one: "filter (\<lambda>s. s = sp) (db_spans L) = [sp]"
  proof -
    have "filter (\<lambda>q. span_pkey q = span_pkey sp) (db_spans L) = [sp]"
      using assms(1,2) pkey_unique by (simp add: span_table_ok_def)
    moreover have "filter (\<lambda>s. s = sp) (db_spans L) = filter (\<lambda>q. span_pkey q = span_pkey sp) (db_spans L)"
      using inj assms(2) by (intro filter_cong) (auto dest: inj_onD)
    ultimately show ?thesis by simp
  qed
  have checks: "list_all span_checks (db_spans M)" using assms(1,2,4)
    by (auto simp: M_def span_table_ok_def list_all_iff span_checks_def)
  have keys: "map span_pkey (db_spans M) = map span_pkey (db_spans L)"
    by (auto simp: M_def span_pkey_def victim_of_def)
  show "close_span n sp L = Inr M" unfolding close_span_def Let_def f m one using checks
    by (auto simp: list_all_iff M_def)
  show "span_table_ok M" using assms(1) checks keys by (simp add: span_table_ok_def)
  show "length (stream_spans j M) = length (stream_spans j L)"
    by (simp add: stream_spans_def M_def filter_map o_def) (intro arg_cong [where f = length] filter_cong refl, auto)
  show "open_spans M = filter (\<lambda>s. s \<noteq> sp) (open_spans L)"
  proof -
    have "filter (\<lambda>s. sp_closed_capture_seq s = None) (map (\<lambda>s. if s = sp then s\<lparr>sp_closed_capture_seq := Some n\<rparr> else s) ss) =
        filter (\<lambda>s. s \<noteq> sp) (filter (\<lambda>s. sp_closed_capture_seq s = None) ss)" for ss
      by (induction ss) auto
    then show ?thesis by (simp add: open_spans_def M_def)
  qed
qed

text \<open>What a plan asks of the table: the span it closes is an open row, the one it opens is new and of a known stream.\<close>

definition plan_fits_table :: "string \<Rightarrow> int \<Rightarrow> semantic_plan \<Rightarrow> database \<Rightarrow> bool" where
  "plan_fits_table i n plan L \<longleftrightarrow> (pl_span_open plan = None \<or> pl_span_close plan = None) \<and>
     (case pl_span_close plan of None \<Rightarrow> True
      | Some sp \<Rightarrow> sp \<in> set (db_spans L) \<and> sp_closed_capture_seq sp = None \<and> sp_occurrence_capture_seq sp \<le> n) \<and>
     (case pl_span_open plan of None \<Rightarrow> True
      | Some sp \<Rightarrow> sp_bridge_instance_id sp = i \<and> sp_closed_capture_seq sp = None \<and> span_checks sp \<and>
          span_pkey sp \<notin> set (map span_pkey (db_spans L)) \<and> list_ex (\<lambda>r. sm_bridge_instance_id r = i) (db_streams L))"

lemma settle_spans_exact:
  assumes "span_table_ok L" "spans_bounded L" "prepare_span_capacity L record = (gap, victims)"
    and "gap = None \<and> opens_span record \<or> pl_span_open plan = None" "plan_fits_table (record_instance record) n plan L"
  shows "\<exists>L'. settle_spans (record_instance record) plan victims n L = Inr L' \<and> span_table_ok L' \<and> spans_bounded L' \<and>
    open_spans L' = filter (\<lambda>s. Some s \<noteq> pl_span_close plan) (open_spans L) @
      (case pl_span_open plan of None \<Rightarrow> [] | Some sp \<Rightarrow> [sp]) \<and>
    span_pkey ` set (db_spans L') \<subseteq> span_pkey ` (set (db_spans L) \<union> set_option (pl_span_open plan)) \<and>
    (\<exists>ss. L' = L\<lparr>db_spans := ss\<rparr>)"
proof -
  let ?i = "record_instance record"
  have b: "length (stream_spans j L) \<le> MAX_HERMES_SPANS_PER_STREAM" for j using assms(2) by (simp add: spans_bounded_def)
  show ?thesis
  proof (cases "pl_span_open plan")
    case None
    show ?thesis
    proof (cases "pl_span_close plan")
      case None
      with \<open>pl_span_open plan = None\<close> assms(1,2) show ?thesis by (auto simp: settle_spans_def apply_spans_def intro: exI [of _ "db_spans L"])
    next
      case (Some sp)
      with assms(5) have c: "sp \<in> set (db_spans L)" "sp_closed_capture_seq sp = None" "sp_occurrence_capture_seq sp \<le> n"
        by (auto simp: plan_fits_table_def)
      note e = close_span_exact [OF assms(1) c]
      have l: "length (stream_spans j (L\<lparr>db_spans := map (\<lambda>s. if s = sp then s\<lparr>sp_closed_capture_seq := Some n\<rparr> else s) (db_spans L)\<rparr>))
          \<le> MAX_HERMES_SPANS_PER_STREAM" for j using b [of j] e(3) [of j] by simp
      then have "settle_spans ?i plan victims n L =
          Inr (L\<lparr>db_spans := map (\<lambda>s. if s = sp then s\<lparr>sp_closed_capture_seq := Some n\<rparr> else s) (db_spans L)\<rparr>)"
        using None Some e(1) by (simp add: settle_spans_def apply_spans_def trim_spans_def Let_def)
      moreover have "span_pkey ` set (map (\<lambda>s. if s = sp then s\<lparr>sp_closed_capture_seq := Some n\<rparr> else s) (db_spans L)) \<subseteq>
          span_pkey ` set (db_spans L)" by (auto simp: span_pkey_def victim_of_def)
      ultimately show ?thesis using e l None Some by (auto simp: spans_bounded_def intro!: exI filter_cong)
    qed
  next
    case (Some sp)
    with assms(4,5) have o: "opens_span record" "gap = None" "pl_span_close plan = None" "sp_bridge_instance_id sp = ?i"
      "sp_closed_capture_seq sp = None" "span_checks sp" "span_pkey sp \<notin> set (map span_pkey (db_spans L))"
      "list_ex (\<lambda>r. sm_bridge_instance_id r = ?i) (db_streams L)" by (auto simp: plan_fits_table_def)
    have v: "\<forall>v \<in> set victims. \<exists>s \<in> set (db_spans L). span_pkey s = (?i, v) \<and> sp_closed_capture_seq s \<noteq> None" "distinct victims"
      using assms(3) o(1,2) closed_victims_found [of _ ?i] distinct_victims [OF assms(1)]
      by (auto simp: prepare_span_capacity_def Let_def split: if_splits)
    define M where "M = delete_spans (\<lambda>s. sp_bridge_instance_id s = ?i \<and> victim_of s \<in> set victims) L"
    note ev = evict_spans_exact [OF assms(1) v(2,1)] and d = delete_victims_frame [OF assms(1) v, folded M_def]
    have room: "length (stream_spans ?i M) < MAX_HERMES_SPANS_PER_STREAM"
      using assms(3) o(1,2) d(3) by (auto simp: prepare_span_capacity_def Let_def split: if_splits)
    have keys: "set (map span_pkey (db_spans M)) \<subseteq> set (map span_pkey (db_spans L))" by (auto simp: M_def delete_spans_def)
    let ?N = "M\<lparr>db_spans := db_spans M @ [sp]\<rparr>"
    have sp: "sp\<lparr>sp_closed_capture_seq := None\<rparr> = sp" using o(5) by simp
    have N: "open_span sp M = Inr ?N" using o keys d(5) by (auto simp: open_span_def Let_def sp)
    have s: "stream_spans j ?N = stream_spans j M @ (if j = ?i then [sp] else [])" for j
      using o(4) by (simp add: stream_spans_def)
    have bounded: "length (stream_spans j ?N) \<le> MAX_HERMES_SPANS_PER_STREAM" for j
      using s [of j] room b [of j] d(4) [of j] by (cases "j = ?i") simp_all
    then have "settle_spans ?i plan victims n L = Inr ?N"
      using Some o(3,4) ev N by (simp add: settle_spans_def apply_spans_def trim_spans_def M_def)
    moreover have "span_table_ok ?N" using d(1) o(6,7) keys by (auto simp: span_table_ok_def)
    moreover have "open_spans ?N = open_spans L @ [sp]" using d(2) o(5) by (simp add: open_spans_def)
    ultimately show ?thesis using bounded Some o(3)
      by (auto simp: spans_bounded_def M_def delete_spans_def)
  qed
qed

section \<open>The plan of a record fits the table\<close>

text \<open>The spans of a stream began before the capture the stream expects next.\<close>

definition spans_before :: "string \<Rightarrow> int \<Rightarrow> database \<Rightarrow> bool" where
  "spans_before i n L \<longleftrightarrow> list_all (\<lambda>s. sp_bridge_instance_id s = i \<longrightarrow> sp_occurrence_capture_seq s < n) (db_spans L)"

lemma mk_span_checks: "mk_span i k x n c a None = Inr s \<Longrightarrow> span_checks s"
proof -
  assume m: "mk_span i k x n c a None = Inr s"
  have "str_len 1 512 y" if "\<not> blank y" "length y \<le> 512" for y using that by (cases y) (auto simp: str_len_def)
  with m show ?thesis
    by (auto simp: mk_span_def span_checks_def rbind_eq_Inr is_sha256_def split: option.splits if_splits)
qed

lemma span_row_unchanged: "span_from_row q = Inr s \<Longrightarrow> s = q"
  by (auto simp: span_from_row_def dest!: mk_span_Inr)

lemma matched_in_table:
  assumes "matched_span L record = Inr (Some s, gap)"
  shows "s \<in> set (db_spans L) \<and> sp_occurrence_capture_seq s < first_capture_seq record"
proof -
  from assms obtain r kind external cs where r: "record = Observation r" "completes r = Some (kind, external)"
    "rmap span_from_row (take (MAX_HERMES_SPANS_PER_STREAM + 1) (sort_key (\<lambda>s. - sp_occurrence_capture_seq s)
      (filter (\<lambda>s. sp_bridge_instance_id s = ho_bridge_instance_id r \<and> sp_span_kind s = kind \<and>
        Some (sp_external_id s) = external \<and> sp_context_fingerprint s = span_context_fingerprint r) (db_spans L)))) = Inr cs"
    "match_hermes_span r cs = (Some s, gap)"
    by (auto simp: matched_span_def rbind_eq_Inr split: bridge_record.splits option.splits prod.splits)
  have "set ys \<subseteq> set xs" if "rmap span_from_row xs = Inr ys" for xs ys
    using that by (induction xs arbitrary: ys) (auto simp: rbind_eq_Inr dest: span_row_unchanged)
  from this [OF r(3)] have "set cs \<subseteq> set (db_spans L)" by (auto dest!: in_set_takeD)
  with matched_eligible [OF r(4)] r(1) show ?thesis by (auto simp: eligible_span_def)
qed

text \<open>A plan opens a span only for a tool call or an API request that no gap is forced on, at its own capture.\<close>

lemma opened_span:
  assumes "build_semantic_plan stream record raw m forced = Inr plan" "pl_span_open plan = Some s"
  shows "forced = None \<and> opens_span record \<and> sp_bridge_instance_id s = record_instance record \<and>
    sp_occurrence_capture_seq s = first_capture_seq record \<and> sp_closed_capture_seq s = None \<and> span_checks s"
proof (cases "record")
  case (Gap g)
  with assms show ?thesis by (auto simp: build_semantic_plan_def dest!: mk_plan_Inr split: if_splits)
next
  case (Observation r)
  have gap: "semantic_gap stream r raw reason close \<noteq> Inr plan" for reason close
    using assms(2) by (auto simp: semantic_gap_def rbind_eq_Inr dest!: mk_plan_Inr)
  show ?thesis
  proof (cases "ho_hook r = PreToolCall")
    case True
    with assms(1) Observation gap have "forced = None" "pre_tool_plan stream r raw = Inr plan"
      by (auto simp: build_semantic_plan_def split: if_splits option.splits)
    then obtain x aid where "forced = None" "mk_span (ho_bridge_instance_id r) ToolSpan x (ho_capture_seq r)
        (span_context_fingerprint r) (Some aid) None = Inr s"
      using assms(2) unfolding pre_tool_plan_def Let_def rbind_eq_Inr by (auto dest!: mk_plan_Inr)
    with mk_span_Inr [OF this(2)] mk_span_checks [OF this(2)] Observation True show ?thesis by (simp add: opens_span_def)
  next
    case False
    have "post_tool_plan stream r raw m \<noteq> Inr plan"
      using gap assms(2) by (auto simp: post_tool_plan_def rbind_eq_Inr Let_def dest!: mk_plan_Inr split: option.splits sum.splits)
    with assms(1) Observation gap False have f: "forced = None" "attributed_plan stream r raw m = Inr plan"
      by (auto simp: build_semantic_plan_def split: if_splits option.splits)
    from f(2) gap assms(2) obtain c n where "api_spans r m = Inr (Some (Some s, c, n))"
      by (auto simp: attributed_plan_def rbind_eq_Inr dest!: mk_plan_Inr split: option.splits)
    then obtain x where h: "ho_hook r = PreApiRequest" "mk_span (ho_bridge_instance_id r) ApiSpan x (ho_capture_seq r)
        (span_context_fingerprint r) None None = Inr s"
      by (auto simp: api_spans_def rbind_eq_Inr split: if_splits option.splits)
    with mk_span_Inr [OF h(2)] mk_span_checks [OF h(2)] Observation f(1) show ?thesis by (simp add: opens_span_def)
  qed
qed

lemma record_span: "valid_record record \<Longrightarrow> first_capture_seq record \<le> last_capture_seq record"
  by (cases "record") (auto simp: valid_observation_def valid_gap_def capture_number_def)

lemma plan_fits:
  assumes "spans_before (record_instance record) (first_capture_seq record) L" "valid_record record"
    and "list_ex (\<lambda>r. sm_bridge_instance_id r = record_instance record) (db_streams L)"
    and "matched_span L record = Inr (m, cgap)" "build_semantic_plan stream record raw m forced = Inr plan"
  shows "plan_fits_table (record_instance record) (last_capture_seq record) plan L"
proof -
  have sound: "pl_span_open plan = None \<or> pl_span_close plan = None"
    "case pl_span_close plan of None \<Rightarrow> True | Some s \<Rightarrow> m = Some s \<and> sp_closed_capture_seq s = None"
    using plan_is_sound [OF assms(5)] by (simp_all add: plan_sound_def)
  have "s \<in> set (db_spans L) \<and> sp_closed_capture_seq s = None \<and> sp_occurrence_capture_seq s \<le> last_capture_seq record"
    if "pl_span_close plan = Some s" for s
    using sound(2) that matched_in_table [of L "record" s cgap] assms(4) record_span [OF assms(2)] by auto
  moreover have "span_pkey s \<notin> set (map span_pkey (db_spans L))" if "pl_span_open plan = Some s" for s
    using assms(1) opened_span [OF assms(5) that] by (auto simp: spans_before_def list_all_iff span_pkey_def victim_of_def)
  ultimately show ?thesis using sound(1) opened_span [OF assms(5)] assms(3)
    by (auto simp: plan_fits_table_def split: option.splits)
qed

text \<open>
  C33. Settling the spans of a commit cannot fail. A valid record of a known stream is planned against the spans the
  store finds, with a gap forced on it when the capacity check finds no room; \<open>M\<close> is the database after the events and
  the cursor of the batch are written, with the same spans. Then the span the plan closes is still open, the one it
  opens is new, the closed spans selected for eviction are there to evict, and the bound of 256 per stream holds
  afterwards. No open span is lost but the one the plan closes, a span the plan opens is the only one added, nothing else
  of the database is touched, and the spans of the stream still began before its next capture.
\<close>

theorem spans_settle:
  assumes "span_table_ok L" "spans_bounded L" "spans_before (record_instance record) (first_capture_seq record) L"
    and "valid_record record" "prepare_span_capacity L record = (gap, victims)" "matched_span L record = Inr (m, cgap)"
    and "build_semantic_plan stream record raw m forced = Inr plan" "gap \<noteq> None \<Longrightarrow> forced \<noteq> None"
    and "db_spans M = db_spans L" "list_ex (\<lambda>r. sm_bridge_instance_id r = record_instance record) (db_streams M)"
  shows "\<exists>L'. settle_spans (sm_bridge_instance_id stream) plan victims (last_capture_seq record) M = Inr L' \<and>
    span_table_ok L' \<and> spans_bounded L' \<and> spans_before (record_instance record) (last_capture_seq record + 1) L' \<and>
    open_spans L' = filter (\<lambda>s. Some s \<noteq> pl_span_close plan) (open_spans L) @
      (case pl_span_open plan of None \<Rightarrow> [] | Some sp \<Rightarrow> [sp]) \<and>
    (\<exists>ss. L' = M\<lparr>db_spans := ss\<rparr>)"
proof -
  let ?i = "record_instance record"
  have same: "span_table_ok M" "spans_bounded M" "open_spans M = open_spans L" "prepare_span_capacity M record = (gap, victims)"
    "matched_span M record = Inr (m, cgap)" "spans_before ?i (first_capture_seq record) M"
  proof -
    have s: "stream_spans j M = stream_spans j L" for j by (simp add: stream_spans_def assms(9))
    then have v: "closed_victims j k M = closed_victims j k L" for j k by (simp add: closed_victims_def)
    show "span_table_ok M" "spans_bounded M" "open_spans M = open_spans L" "spans_before ?i (first_capture_seq record) M"
      using assms(1-3) s by (simp_all add: span_table_ok_def spans_bounded_def open_spans_def spans_before_def assms(9))
    show "prepare_span_capacity M record = (gap, victims)" "matched_span M record = Inr (m, cgap)"
      using assms(5,6) unfolding prepare_span_capacity_def matched_span_def s v assms(9) by simp_all
  qed
  have i: "sm_bridge_instance_id stream = ?i" using assms(7) by (auto simp: build_semantic_plan_def split: if_splits)
  have fresh: "gap = None \<and> opens_span record \<or> pl_span_open plan = None"
    using opened_span [OF assms(7)] assms(8) by (cases "pl_span_open plan"; cases gap) auto
  from settle_spans_exact [OF same(1,2,4) fresh plan_fits [OF same(6) assms(4,10) same(5) assms(7)]] obtain L' where
    L': "settle_spans ?i plan victims (last_capture_seq record) M = Inr L'" "span_table_ok L'" "spans_bounded L'"
      "open_spans L' = filter (\<lambda>s. Some s \<noteq> pl_span_close plan) (open_spans M) @ (case pl_span_open plan of None \<Rightarrow> [] | Some sp \<Rightarrow> [sp])"
      "span_pkey ` set (db_spans L') \<subseteq> span_pkey ` (set (db_spans M) \<union> set_option (pl_span_open plan))"
      "\<exists>ss. L' = M\<lparr>db_spans := ss\<rparr>" by blast
  have "sp_occurrence_capture_seq s < last_capture_seq record + 1" if s: "s \<in> set (db_spans L')" "sp_bridge_instance_id s = ?i" for s
  proof -
    from L'(5) s(1) have "span_pkey s \<in> span_pkey ` (set (db_spans M) \<union> set_option (pl_span_open plan))" by blast
    then obtain q where q: "q \<in> set (db_spans M) \<or> pl_span_open plan = Some q" "span_pkey s = span_pkey q" by auto
    then have "sp_bridge_instance_id q = ?i" "sp_occurrence_capture_seq s = sp_occurrence_capture_seq q"
      using s(2) by (auto simp: span_pkey_def victim_of_def)
    with q(1) same(6) opened_span [OF assms(7), of q] record_span [OF assms(4)] show ?thesis
      by (auto simp: spans_before_def list_all_iff)
  qed
  then have "spans_before ?i (last_capture_seq record + 1) L'" by (simp add: spans_before_def list_all_iff)
  with L' i same(3) show ?thesis by auto
qed

definition spanned_db :: database where
  "spanned_db = empty_database\<lparr>db_spans := [sample_span 1 None],
     db_streams := [bridge_stream.extend sample_stream \<lparr>br_recovery_token_digest = replicate 32 0\<rparr>]\<rparr>"

lemma spans_settle_witness:
  "\<exists>raw plan L' sp. build_semantic_plan sample_stream (Observation (sample_call (Some ''s'') (Some ''c''))) raw None None = Inr plan \<and>
     settle_spans sample_id plan [] 2 spanned_db = Inr L' \<and> open_spans L' = [sample_span 1 None, sp]"
proof -
  let ?c = "sample_call (Some ''s'') (Some ''c'')" and ?r = "Observation (sample_call (Some ''s'') (Some ''c''))"
  have i: "record_instance ?r = sample_id" "opens_span ?r" "first_capture_seq ?r = 2" "last_capture_seq ?r = 2"
    "ho_bridge_instance_id ?c = sample_id" "ho_capture_seq ?c = 2" "sm_bridge_instance_id sample_stream = sample_id" "completes ?c = None" "ho_hook ?c = PreToolCall"
    by (simp_all add: opens_span_def sample_call_def sample_stream_def completes_def)
  have c: "length (span_context_fingerprint sample_completion) = 64"
    using context_sha256 by (simp add: is_sha256_def)
  obtain raw where "build_raw_event sample_stream ?r sample_stamp = Inr raw" using sample_raw by blast
  note raw = raw_event_of [OF this]
  obtain plan where p: "pre_tool_plan sample_stream ?c raw = Inr plan"
    using pre_tool_plan_exists [OF raw sample_call_valid(1)] by (auto simp: sample_call_def context_get_def str_len_def)
  then have b: "build_semantic_plan sample_stream ?r raw None None = Inr plan"
    using raw by (simp add: build_semantic_plan_def raw_of_def sample_call_def)
  obtain sp where sp: "pl_span_open plan = Some sp" "pl_span_close plan = None"
    using p unfolding pre_tool_plan_def Let_def rbind_eq_Inr by (auto dest!: mk_plan_Inr)
  have 1: "span_table_ok spanned_db"
    using c by (simp add: span_table_ok_def spanned_db_def span_checks_def sample_span_def str_len_def)
  have 2: "spans_bounded spanned_db"
    by (simp add: spans_bounded_def spanned_db_def stream_spans_def MAX_HERMES_SPANS_PER_STREAM_def)
  have 3: "spans_before (record_instance ?r) (first_capture_seq ?r) spanned_db" "valid_record ?r"
    using sample_call_valid(1) by (simp_all add: spans_before_def spanned_db_def sample_span_def i)
  have 4: "prepare_span_capacity spanned_db ?r = (None, [])" "matched_span spanned_db ?r = Inr (None, None)"
    "list_ex (\<lambda>r. sm_bridge_instance_id r = record_instance ?r) (db_streams spanned_db)"
    by (simp_all add: prepare_span_capacity_def Let_def i spanned_db_def stream_spans_def MAX_HERMES_SPANS_PER_STREAM_def
      matched_span_def bridge_stream.defs)
  obtain L' where "settle_spans sample_id plan [] 2 spanned_db = Inr L'" "open_spans L' = open_spans spanned_db @ [sp]"
    using spans_settle [OF 1 2 3 4(1,2) b _ refl 4(3)] i sp by auto
  with b show ?thesis by (auto simp: open_spans_def spanned_db_def sample_span_def)
qed

end
