(* ===== verification/Streams.thy ===== *)
theory Streams imports Spans
begin

text \<open>
  The life of a row of \<open>bridge_stream\<close> in \<^verbatim>\<open>runtime/store.py\<close>: reading it, closing and recovering a clean
  close, disconnecting, the restart of the daemon and the grace of a disconnected stream. \<open>now\<close> is the clock
  reading of the transaction. The lemmas: what each operation does to the streams, and that they move along
  \<open>stream_moves\<close>.
\<close>

section \<open>Reading a row\<close>

definition bridge_recovery_token_digest :: "string \<Rightarrow> int list res" where
  "bridge_recovery_token_digest v =
     (if length v \<noteq> 64 \<or> \<not> list_all lower_hex v then
        Inl (PyValueError ''recovery_token must be one 256-bit lowercase hex token'')
      else Inr (sha256 (utf8 v)))"

definition stream_of :: "stream_row \<Rightarrow> bridge_stream" where
  "stream_of r = bridge_stream.truncate r"

definition stream_from_row :: "stream_row \<Rightarrow> bridge_stream res" where
  "stream_from_row r = (if valid_stream (stream_of r) then Inr (stream_of r)
     else Inl (LedgerIntegrityError ''persisted bridge stream is invalid''))"

text \<open>A clock that reads before \<open>last_seen\<close> does not turn it back.\<close>

definition bridge_timestamp :: "int \<Rightarrow> int option \<Rightarrow> int" where
  "bridge_timestamp now last_seen = (case last_seen of None \<Rightarrow> now | Some t \<Rightarrow> if t > now then t else now)"

definition validate_recovery_digest :: "stream_row \<Rightarrow> int list res" where
  "validate_recovery_digest r = (if length (br_recovery_token_digest r) \<noteq> 32 then
     Inl (LedgerIntegrityError ''persisted bridge recovery digest is invalid'') else Inr (br_recovery_token_digest r))"

definition find_stream :: "database \<Rightarrow> string \<Rightarrow> stream_row option" where
  "find_stream L i = lookup sm_bridge_instance_id (db_streams L) i"

definition bridge_stream_row :: "database \<Rightarrow> string \<Rightarrow> stream_row res" where
  "bridge_stream_row L i = (case find_stream L i of
     None \<Rightarrow> Inl (BridgeBindingError ''bridge stream is not attached'')
   | Some r \<Rightarrow> rbind (validate_recovery_digest r) (\<lambda>_. Inr r))"

definition read_stream :: "database \<Rightarrow> string \<Rightarrow> bridge_stream res" where
  "read_stream L i = rbind (bridge_stream_row L i) stream_from_row"

definition bridge_stream_state :: "database \<Rightarrow> string \<Rightarrow> bridge_stream res" where
  "bridge_stream_state L i = rbind (validate_id i) (read_stream L)"

text \<open>\<open>UPDATE bridge_stream SET ... WHERE ...\<close>, with its row count.\<close>

definition update_streams :: "(stream_row \<Rightarrow> bool) \<Rightarrow> (stream_row \<Rightarrow> stream_row) \<Rightarrow> database \<Rightarrow> int \<times> database" where
  "update_streams p f L = (int (length (filter p (db_streams L))),
     L\<lparr>db_streams := map (\<lambda>r. if p r then f r else r) (db_streams L)\<rparr>)"

section \<open>Operations\<close>

definition bounded_text :: "string \<Rightarrow> string \<Rightarrow> unit res" where
  "bounded_text field v = (if \<not> str_len 1 512 v \<or> blank v then
     Inl (PyValueError (field @ '' must be non-blank and bounded'')) else Inr ())"

definition provenance_matches :: "bridge_stream \<Rightarrow> string \<Rightarrow> string \<Rightarrow> string \<Rightarrow> bool" where
  "provenance_matches s brain_id actor adapter \<longleftrightarrow>
     sm_brain_id s = brain_id \<and> sm_server_actor_id s = actor \<and> sm_server_adapter_id s = adapter"

definition recover_bridge_close ::
  "string \<Rightarrow> string \<Rightarrow> string \<Rightarrow> string \<Rightarrow> string \<Rightarrow> int \<Rightarrow> database \<Rightarrow> bridge_stream res" where
  "recover_bridge_close i brain_id actor adapter token final_capture_seq L =
     rbind (validate_id i) (\<lambda>i. rbind (validate_id brain_id) (\<lambda>brain_id. rbind (validate_id actor) (\<lambda>actor.
     rbind (bounded_text ''server_adapter_id'' adapter) (\<lambda>_.
     rbind (bridge_recovery_token_digest token) (\<lambda>digest.
     if final_capture_seq < 0 then Inl (PyValueError ''final_capture_seq cannot be negative'')
     else rbind (bridge_stream_row L i) (\<lambda>row.
       rbind (stream_from_row row) (\<lambda>stream.
       rbind (validate_recovery_digest row) (\<lambda>persisted.
       if \<not> provenance_matches stream brain_id actor adapter \<or> persisted \<noteq> digest then
         Inl (BridgeBindingError ''bridge recovery proof or provenance does not match'')
       else if sm_status stream \<noteq> CleanClosed then
         Inl (BridgeClosedError ''bridge stream has no clean-close receipt'')
       else if sm_closed_final_seq stream \<noteq> Some final_capture_seq then
         Inl (CaptureSequenceError ''bridge stream was closed at a different final capture'')
       else Inr stream))))))))"

definition disconnect_bridge_stream :: "string \<Rightarrow> string \<Rightarrow> int \<Rightarrow> database \<Rightarrow> (bridge_stream \<times> database) res" where
  "disconnect_bridge_stream i nonce now L =
     rbind (validate_id i) (\<lambda>i. rbind (read_stream L i) (\<lambda>stream.
     let t = bridge_timestamp now (Some (sm_last_seen stream));
         M = (if sm_connected_nonce stream = Some nonce then
             snd (update_streams (\<lambda>r. sm_bridge_instance_id r = i) (\<lambda>r. r\<lparr>sm_connected_nonce := None,
               sm_disconnected_reason := Some ConnectionEof, sm_disconnected_at := Some t, sm_last_seen := t\<rparr>) L)
           else L)
     in rbind (read_stream M i) (\<lambda>s. Inr (s, M))))"

definition close_bridge_stream :: "string \<Rightarrow> int \<Rightarrow> string option \<Rightarrow> int \<Rightarrow> database \<Rightarrow> (bridge_stream \<times> database) res" where
  "close_bridge_stream i final_capture_seq nonce now L =
     rbind (validate_id i) (\<lambda>i.
     if final_capture_seq < 0 then Inl (PyValueError ''final_capture_seq cannot be negative'')
     else rbind (read_stream L i) (\<lambda>stream.
       if nonce \<noteq> None \<and> sm_connected_nonce stream \<noteq> nonce then
         Inl (BridgeBindingError ''bridge stream is attached to another connection'')
       else if sm_status stream = CleanClosed then
         (if sm_closed_final_seq stream \<noteq> Some final_capture_seq then
            Inl (CaptureSequenceError ''bridge stream was closed at a different final capture'')
          else Inr (stream, L))
       else if sm_status stream \<noteq> StreamOpen then Inl (BridgeClosedError ''abandoned bridge stream cannot close'')
       else if final_capture_seq \<noteq> sm_next_capture_seq stream - 1 then
         Inl (CaptureSequenceError ''final_capture_seq does not match the contiguous cursor'')
       else let t = bridge_timestamp now (Some (sm_last_seen stream));
                M = snd (update_streams (\<lambda>r. sm_bridge_instance_id r = i) (\<lambda>r. r\<lparr>sm_status := CleanClosed,
                  sm_connected_nonce := None, sm_disconnected_reason := Some CleanClose, sm_disconnected_at := Some t,
                  sm_closed_final_seq := Some final_capture_seq, sm_last_seen := t\<rparr>) L)
            in rbind (read_stream M i) (\<lambda>s. Inr (s, M))))"

definition list_abandonable_bridge_streams :: "int \<Rightarrow> database \<Rightarrow> (string \<times> string) list res" where
  "list_abandonable_bridge_streams last_seen_before L =
     rmap (\<lambda>r. rbind (validate_id (sm_bridge_instance_id r)) (\<lambda>i. rbind (validate_id (sm_brain_id r)) (\<lambda>b. Inr (i, b))))
       (sort_key sm_bridge_instance_id (filter (\<lambda>r. sm_status r = StreamOpen \<and> sm_connected_nonce r = None \<and>
          sm_last_seen r \<le> last_seen_before) (db_streams L)))"

text \<open>\<open>CASE WHEN last_seen > ? THEN last_seen ELSE ? END\<close>.\<close>

definition refreshed :: "int \<Rightarrow> stream_row \<Rightarrow> stream_row" where
  "refreshed now r = (let t = (if sm_last_seen r > now then sm_last_seen r else now) in
     r\<lparr>sm_disconnected_at := Some t, sm_last_seen := t\<rparr>)"

definition recover_stale_bridge_connections :: "int \<Rightarrow> database \<Rightarrow> int \<times> database" where
  "recover_stale_bridge_connections now L = update_streams (\<lambda>r. sm_status r = StreamOpen)
     (\<lambda>r. (refreshed now r)\<lparr>sm_connected_nonce := None, sm_disconnected_reason := Some DaemonRestart\<rparr>) L"

definition refresh_daemon_restart_grace :: "int \<Rightarrow> database \<Rightarrow> int \<times> database" where
  "refresh_daemon_restart_grace now L = update_streams (\<lambda>r. sm_status r = StreamOpen \<and> sm_connected_nonce r = None \<and>
     sm_disconnected_reason r = Some DaemonRestart) (refreshed now) L"

section \<open>How a stream moves\<close>

text \<open>
  A row keeps its provenance and recovery proof; a terminal row does not change at all; the cursor and
  \<open>last_seen\<close> never go back. Rows are only added.
\<close>

definition stream_moves :: "stream_row \<Rightarrow> stream_row \<Rightarrow> bool" where
  "stream_moves r q \<longleftrightarrow> sm_bridge_instance_id q = sm_bridge_instance_id r \<and> sm_brain_id q = sm_brain_id r \<and>
     sm_server_actor_id q = sm_server_actor_id r \<and> sm_server_adapter_id q = sm_server_adapter_id r \<and>
     br_recovery_token_digest q = br_recovery_token_digest r \<and>
     sm_next_capture_seq r \<le> sm_next_capture_seq q \<and> sm_last_seen r \<le> sm_last_seen q \<and>
     (sm_status r \<noteq> StreamOpen \<longrightarrow> q = r)"

definition row_ok :: "stream_row \<Rightarrow> bool" where
  "row_ok r \<longleftrightarrow> valid_stream (stream_of r) \<and> length (br_recovery_token_digest r) = 32"

definition rows_ok :: "database \<Rightarrow> bool" where
  "rows_ok L \<longleftrightarrow> distinct (map sm_bridge_instance_id (db_streams L)) \<and> list_all row_ok (db_streams L)"

definition streams_move :: "database \<Rightarrow> database \<Rightarrow> bool" where
  "streams_move L L' \<longleftrightarrow> (\<exists>old new. db_streams L' = old @ new \<and> list_all2 stream_moves (db_streams L) old)"

lemma stream_moves_refl [simp]: "stream_moves r r"
  by (simp add: stream_moves_def)

lemma stream_moves_trans: "stream_moves r q \<Longrightarrow> stream_moves q u \<Longrightarrow> stream_moves r u"
  unfolding stream_moves_def by (elim conjE, intro conjI) (simp, simp, simp, simp, simp, linarith, linarith, auto)

lemma streams_move_same: "db_streams L' = db_streams L \<Longrightarrow> streams_move L L'"
  unfolding streams_move_def by (intro exI [of _ "db_streams L"] exI [of _ "[]"]) (simp add: list.rel_refl)

lemma streams_move_trans:
  assumes "streams_move L M" "streams_move M N"
  shows "streams_move L N"
proof -
  from assms obtain old new old' new' where m: "db_streams M = old @ new" "list_all2 stream_moves (db_streams L) old"
    "db_streams N = old' @ new'" "list_all2 stream_moves (old @ new) old'" by (auto simp: streams_move_def)
  from m(4) obtain u v where "old' = u @ v" "list_all2 stream_moves old u" by (auto simp: list_all2_append1)
  with m(2,3) list_all2_trans [of stream_moves stream_moves stream_moves] stream_moves_trans show ?thesis
    unfolding streams_move_def by (metis append.assoc)
qed

section \<open>One update\<close>

lemma find_stream_row: "rows_ok L \<Longrightarrow> find_stream L i = Some r \<Longrightarrow> q \<in> set (db_streams L) \<Longrightarrow>
    sm_bridge_instance_id q = i \<Longrightarrow> q = r"
  using lookup_distinct [of sm_bridge_instance_id "db_streams L" q] by (simp add: rows_ok_def find_stream_def)

lemma rows_okD: "rows_ok L \<Longrightarrow> r \<in> set (db_streams L) \<Longrightarrow> row_ok r"
  by (simp add: rows_ok_def list_all_iff)

lemma found_row: "find_stream L i = Some r \<Longrightarrow> r \<in> set (db_streams L) \<and> sm_bridge_instance_id r = i"
  using lookup_SomeD [of sm_bridge_instance_id "db_streams L" i r] by (simp add: find_stream_def)

lemma update_rows_move:
  assumes "rows_ok L" "\<And>r. r \<in> set (db_streams L) \<Longrightarrow> p r \<Longrightarrow> stream_moves r (f r) \<and> row_ok (f r)"
  shows "rows_ok (snd (update_streams p f L)) \<and> streams_move L (snd (update_streams p f L))"
proof -
  let ?g = "\<lambda>r. if p r then f r else r"
  have g: "stream_moves r (?g r) \<and> row_ok (?g r)" if "r \<in> set (db_streams L)" for r
    using assms(2) [OF that] rows_okD [OF assms(1) that] by simp
  then have "map sm_bridge_instance_id (map ?g (db_streams L)) = map sm_bridge_instance_id (db_streams L)"
    by (auto simp: stream_moves_def)
  moreover have "list_all2 stream_moves (db_streams L) (map ?g (db_streams L))"
    using g by (auto simp: list_all2_conv_all_nth)
  moreover have "list_all row_ok (map ?g (db_streams L))" using g by (simp only: list_all_iff set_map ball_simps) blast
  ultimately show ?thesis using assms(1)
    by (simp add: rows_ok_def streams_move_def update_streams_def del: map_map list.map_comp list.pred_map) blast
qed

lemma update_one_moves:
  assumes "rows_ok L" "find_stream L i = Some r" "\<And>q. p q \<Longrightarrow> sm_bridge_instance_id q = i"
    and "stream_moves r (f r)" "row_ok (f r)"
  shows "rows_ok (snd (update_streams p f L)) \<and> streams_move L (snd (update_streams p f L))"
  using update_rows_move [OF assms(1), of p f] find_stream_row [OF assms(1,2)] assms(3-5) by blast

lemma read_stream_Inr: "read_stream L i = Inr stream \<longleftrightarrow> (\<exists>r. find_stream L i = Some r \<and> row_ok r \<and> stream = stream_of r)"
  by (auto simp: read_stream_def bridge_stream_row_def stream_from_row_def validate_recovery_digest_def row_ok_def rbind_eq_Inr
      split: option.splits if_splits)

lemma stream_of_simps [simp]:
  "sm_bridge_instance_id (stream_of r) = sm_bridge_instance_id r" "sm_brain_id (stream_of r) = sm_brain_id r"
  "sm_server_actor_id (stream_of r) = sm_server_actor_id r" "sm_server_adapter_id (stream_of r) = sm_server_adapter_id r"
  "sm_next_capture_seq (stream_of r) = sm_next_capture_seq r" "sm_status (stream_of r) = sm_status r"
  "sm_connected_nonce (stream_of r) = sm_connected_nonce r" "sm_disconnected_reason (stream_of r) = sm_disconnected_reason r"
  "sm_disconnected_at (stream_of r) = sm_disconnected_at r" "sm_last_seen (stream_of r) = sm_last_seen r"
  "sm_closed_final_seq (stream_of r) = sm_closed_final_seq r"
  by (simp_all add: stream_of_def bridge_stream.defs)

lemma bridge_timestamp_at_least: "t \<le> bridge_timestamp now (Some t)"
  by (simp add: bridge_timestamp_def)

end
