(* ===== verification/Dumps.thy ===== *)
theory Dumps imports Semantic
begin

text \<open>
  \<open>model_dump(mode="json")\<close> of the parts of a brain, as the frame projection counts them, and the loop that
  counts the nodes of a value. The lemmas: the loop counts the nodes of the tree; a dump of a valid part is
  frozen.
\<close>

section \<open>Counting nodes\<close>

text \<open>The stack of \<open>json_nodes\<close>, its head the value \<open>pending.pop()\<close> takes.\<close>

fun json_children :: "json \<Rightarrow> json list" where
  "json_children (JObj m) = map snd m"
| "json_children (JArr xs) = xs"
| "json_children _ = []"

fun json_keys :: "json \<Rightarrow> int" where
  "json_keys (JObj m) = int (length m)"
| "json_keys _ = 0"

lemma json_children_size: "sum_list (map size (json_children v)) + length (json_children v) \<le> size v"
proof -
  have "sum_list (map size (map snd m)) + length m \<le> size_list (size_prod (\<lambda>_. 0) size) m" for m :: jobj
    by (induction m) auto
  moreover have "sum_list (map size xs) + length xs \<le> size_list size xs" for xs :: "json list"
    by (induction xs) auto
  ultimately show ?thesis by (cases v) (auto simp: add.commute le_SucI)
qed

function node_loop :: "json list \<Rightarrow> int \<Rightarrow> int" where
  "node_loop [] n = n"
| "node_loop (v # pending) n = node_loop (rev (json_children v) @ pending) (n + 1 + json_keys v)"
  by pat_completeness auto
termination
proof (relation "measure (\<lambda>(pending, n). sum_list (map (\<lambda>v. size v + 1) pending))", goal_cases)
  case (2 v pending n)
  have "sum_list (map (\<lambda>v. size v + 1) (rev (json_children v))) \<le> size v"
    using json_children_size [of v] by (simp add: rev_map [symmetric] sum_list_rev sum_list_Suc)
  then show ?case by simp
qed simp

definition json_nodes :: "json \<Rightarrow> int" where
  "json_nodes v = node_loop [v] 0"

lemma tree_nodes_children: "int (tree_nodes v) = 1 + json_keys v + int (sum_list (map tree_nodes (json_children v)))"
  by (cases v) (simp_all add: o_def)

lemma node_loop_counts: "node_loop pending n = n + int (sum_list (map tree_nodes pending))"
proof (induction pending n rule: node_loop.induct)
  case (2 v pending n)
  then show ?case using tree_nodes_children [of v] by (simp add: rev_map [symmetric] sum_list_rev)
qed simp

lemma json_nodes_tree: "json_nodes v = int (tree_nodes v)"
  by (simp add: json_nodes_def node_loop_counts)

lemma json_nodes_pos: "1 \<le> json_nodes v"
  by (cases v) (simp_all add: json_nodes_tree)

section \<open>Enumerations\<close>

fun layer_value :: "world_layer \<Rightarrow> string" where
  "layer_value Observed = ''observed''"
| "layer_value Believed = ''believed''"
| "layer_value Simulated = ''simulated''"
| "layer_value Ideal = ''ideal''"

fun actor_kind_value :: "actor_kind \<Rightarrow> string" where
  "actor_kind_value KSelf = ''self''"
| "actor_kind_value KHuman = ''human''"
| "actor_kind_value KExternalAgent = ''external_agent''"
| "actor_kind_value KToolAdapter = ''tool_adapter''"
| "actor_kind_value KSystem = ''system''"

fun disposition_value :: "receipt_disposition \<Rightarrow> string" where
  "disposition_value receipt_disposition.Pending = ''pending''"
| "disposition_value Confirmed = ''confirmed''"
| "disposition_value Resolution = ''resolution''"
| "disposition_value Corroboration = ''corroboration''"
| "disposition_value Conflict = ''conflict''"

fun energy_status_value :: "energy_status \<Rightarrow> string" where
  "energy_status_value Unrequested = ''unrequested''"
| "energy_status_value EnergyPending = ''pending''"
| "energy_status_value Assessed = ''assessed''"
| "energy_status_value EnergyFailed = ''failed''"

fun health_value :: "health \<Rightarrow> string" where
  "health_value Healthy = ''healthy''"
| "health_value Degraded = ''degraded''"

section \<open>Dumps\<close>

definition strs :: "string list \<Rightarrow> json" where
  "strs xs = JArr (map JStr xs)"

definition proposition_data :: "world_proposition \<Rightarrow> json" where
  "proposition_data p = JObj [(''action_id'', opt_json JStr (wp_action_id p)), (''confidence'', JFloat (wp_confidence p)),
     (''content'', JObj (wp_content p)), (''layer'', JStr (layer_value (wp_layer p))),
     (''proposition_id'', JStr (wp_proposition_id p)), (''source_actor_id'', JStr (wp_source_actor_id p)),
     (''source_event_id'', JStr (wp_source_event_id p))]"

definition actor_data :: "actor_record \<Rightarrow> json" where
  "actor_data a = JObj [(''actor_id'', JStr (ac_actor_id a)), (''attributes'', JObj (ac_attributes a)),
     (''display_name'', opt_json JStr (ac_display_name a)), (''kind'', JStr (actor_kind_value (ac_kind a))),
     (''parent_actor_id'', opt_json JStr (ac_parent_actor_id a))]"

definition authorization_data :: "provenance_authorization \<Rightarrow> json" where
  "authorization_data p = JObj [(''actor_id'', JStr (pa_actor_id p)), (''adapter_id'', opt_json JStr (pa_adapter_id p))]"

definition rate_data :: "layer_rate_state \<Rightarrow> json" where
  "rate_data r = JObj [(''available'', JFloat (lr_available r)), (''capacity'', JFloat (lr_capacity r)),
     (''logical_clock'', JFloat (lr_logical_clock r)), (''refill_rate'', JFloat (lr_refill_rate r))]"

definition rates_data :: "personality_rate_state \<Rightarrow> json" where
  "rates_data r = JObj [(''adaptations'', rate_data (pr_adaptations r)),
     (''narrative_ideal'', rate_data (pr_narrative_ideal r)), (''traits'', rate_data (pr_traits r))]"

definition energy_data :: "energy_vector \<Rightarrow> json" where
  "energy_data e = JObj [(''action_id'', JStr (en_action_id e)), (''arousal'', JFloat (en_arousal e)),
     (''assessment_source'', opt_json JStr (en_assessment_source e)),
     (''assessment_summary'', opt_json JStr (en_assessment_summary e)), (''control'', JFloat (en_control e)),
     (''cost'', JFloat (en_cost e)), (''deficits'', JObj (en_deficits e)),
     (''evidence_basis'', JObj (en_evidence_basis e)), (''personality_relevance'', JFloat (en_personality_relevance e)),
     (''provenance'', JObj (en_provenance e)), (''resources'', JFloat (en_resources e)),
     (''salience'', JFloat (en_salience e)), (''unknown_dimensions'', strs (en_unknown_dimensions e)),
     (''urgency'', JFloat (en_urgency e)), (''valence'', JFloat (en_valence e))]"

definition branch_data :: "thought_branch \<Rightarrow> json" where
  "branch_data b = JObj [(''algorithm_version'', JStr (tb_algorithm_version b)), (''branch_id'', JStr (tb_branch_id b)),
     (''cognition_mode'', JStr (tb_cognition_mode b)), (''config_version'', JStr (tb_config_version b)),
     (''content'', JObj (tb_content b)),
     (''expected_consequences'', JArr (map JObj (tb_expected_consequences b))),
     (''rd_phase'', JStr (rd_value (tb_rd_phase b))), (''source_ids'', strs (tb_source_ids b)),
     (''stance'', JStr (tb_stance b)), (''uncertainty'', JFloat (tb_uncertainty b))]"

definition receipt_data :: "action_receipt \<Rightarrow> json" where
  "receipt_data r = JObj [(''disposition'', JStr (disposition_value (rc_disposition r))),
     (''effect_observation_ids'', strs (rc_effect_observation_ids r)), (''event_id'', JStr (rc_event_id r)),
     (''execution_confirmed'', opt_json JBool (rc_execution_confirmed r)), (''late'', JBool (rc_late r)),
     (''outcome'', opt_json JStr (map_option outcome_value (rc_outcome r))), (''payload'', JObj (rc_payload r)),
     (''source_error_type'', opt_json JStr (rc_source_error_type r)),
     (''source_status'', opt_json JStr (rc_source_status r)), (''status'', JStr (status_value (rc_status r)))]"

definition reconstruction_data :: "action_reconstruction \<Rightarrow> json" where
  "reconstruction_data r = JObj [(''after_receipt_event_id'', opt_json JStr (rr_after_receipt_event_id r)),
     (''event_id'', JStr (rr_event_id r)), (''payload'', JObj (rr_payload r))]"

definition action_data :: "action_record \<Rightarrow> json" where
  "action_data a = JObj [(''action_id'', JStr (ar_action_id a)),
     (''effect_confirmed'', opt_json JBool (ar_effect_confirmed a)),
     (''energy_assessment_event_id'', opt_json JStr (ar_energy_assessment_event_id a)),
     (''energy_assessment_status'', JStr (energy_status_value (ar_energy_status a))),
     (''energy_failure_code'', opt_json JStr (ar_energy_failure_code a)),
     (''energy_request_event_id'', opt_json JStr (ar_energy_request_event_id a)),
     (''execution_confirmed'', opt_json JBool (ar_execution_confirmed a)), (''intent'', JObj (ar_intent a)),
     (''last_event_id'', JStr (ar_last_event_id a)),
     (''outcome'', opt_json JStr (map_option outcome_value (ar_outcome a))), (''phase'', JStr (phase_value (ar_phase a))),
     (''phase_history'', strs (map phase_value (ar_phase_history a))),
     (''prepared_branch_id'', opt_json JStr (ar_prepared_branch_id a)),
     (''proposed_event_id'', JStr (ar_proposed_event_id a)), (''rd_phase'', JStr (rd_value (ar_rd_phase a))),
     (''receipt'', opt_json JObj (ar_receipt a)),
     (''receipt_conflict_count'', JInt (ar_receipt_conflict_count a)),
     (''receipt_corroboration_count'', JInt (ar_receipt_corroboration_count a)),
     (''receipt_history'', JArr (map receipt_data (ar_receipt_history a))),
     (''receipt_history_evicted'', JInt (ar_receipt_history_evicted a)),
     (''reconstruction'', opt_json JObj (ar_reconstruction a)),
     (''reconstruction_history'', JArr (map reconstruction_data (ar_reconstruction_history a))),
     (''reconstruction_history_evicted'', JInt (ar_reconstruction_history_evicted a))]"

definition memory_data :: "memory_record \<Rightarrow> json" where
  "memory_data m = JObj [(''content'', JObj (mr_content m)), (''memory_id'', JStr (mr_memory_id m)),
     (''salience'', JFloat (mr_salience m)), (''source_ids'', strs (mr_source_ids m))]"

definition cognition_data :: "cognition_state \<Rightarrow> json" where
  "cognition_data c = JObj [(''algorithm_version'', JStr (cg_algorithm_version c)),
     (''cognition_mode'', JStr (cg_cognition_mode c)), (''config_version'', JStr (cg_config_version c)),
     (''reflections'', JArr (map (\<lambda>r. JObj (result_payload r)) (cg_reflections c)))]"

definition failure_data :: "runtime_failure \<Rightarrow> json" where
  "failure_data f = JObj [(''error_type'', JStr (rf_error_type f)), (''message'', JStr (rf_message f)),
     (''phase'', JStr (rf_phase f))]"

definition counter_data :: "ws_counter \<Rightarrow> json" where
  "counter_data c = JObj [(''evicted'', JInt (ct_evicted c)), (''total'', JInt (ct_total c))]"

definition working_set_data :: "working_set_state \<Rightarrow> json" where
  "working_set_data w = (let c = (\<lambda>n. counter_data (wk_counter w n)) in JObj [
     (''action_records'', c WActions), (''capabilities'', c WCapabilities), (''cognition_reflections'', c WReflections),
     (''energy_records'', c WEnergies), (''identity_actors'', c WActors), (''memories'', c WMemories),
     (''personality_adaptations'', c (WPersonality Adaptations)),
     (''personality_narrative_ideal'', c (WPersonality NarrativeIdeal)), (''personality_traits'', c (WPersonality Traits)),
     (''provenance_authorizations'', c WAuthorizations), (''raw_lifecycle_counts'', c WRawKeys),
     (''raw_lifecycle_events_evicted'', JInt (wk_raw_lifecycle_events_evicted w)),
     (''reduced_event_count'', JInt (wk_reduced_event_count w)), (''thought_space'', c WThoughts),
     (''world_believed'', c (WWorld Believed)), (''world_ideal'', c (WWorld Ideal)),
     (''world_observed'', c (WWorld Observed)), (''world_simulated'', c (WWorld Simulated))])"

end
