(* ===== verification/Frames.thy ===== *)
theory Frames imports Dumps
begin

text \<open>
  \<open>_project_bridge_frame\<close> of \<^verbatim>\<open>runtime/store.py\<close> and the frame it returns, from \<^verbatim>\<open>protocol/models.py\<close>: a
  bounded picture of a brain, four records of each kind, with an exact account of what it leaves out. Each
  section of the frame and of its omission counts is a definition. Every number of the projection is an
  integer, and a section becomes a frozen object when the frame is built.
\<close>

section \<open>The frame\<close>

record frame_freshness =
  fh_projected_at_state_sequence :: int
  fh_scheduler_tick :: int
  fh_scheduler_sample :: string
  fh_stream_connected :: bool

record frame_evidence =
  fe_semantic_records :: int
  fe_legacy_raw_only_records :: int
  fe_semantic_gap_records :: int
  fe_dropped_events :: int

record consciousness_frame =
  fr_brain_id :: string
  fr_state_sequence :: int
  fr_through_capture_seq :: int
  fr_logical_clock :: rat
  fr_trace_complete :: bool
  fr_runtime_health :: health
  fr_c0_tick :: int
  fr_pc :: jobj
  fr_energy :: jobj
  fr_st :: jobj
  fr_rd :: jobj
  fr_a :: jobj
  fr_world :: jobj
  fr_self_boundary :: jobj
  fr_memory :: jobj
  fr_capabilities :: jobj
  fr_semantic_context :: jobj
  fr_aggregate_semantic_complete :: bool
  fr_semantic_evidence :: frame_evidence
  fr_unresolved_evidence :: bool
  fr_capture_coverage :: jobj
  fr_freshness :: frame_freshness
  fr_omission_counts :: jobj

definition valid_freshness :: "frame_freshness \<Rightarrow> bool" where
  "valid_freshness h \<longleftrightarrow> 0 \<le> fh_projected_at_state_sequence h \<and> 0 \<le> fh_scheduler_tick h \<and>
     fh_scheduler_sample h \<in> {''running'', ''stopped'', ''not_sampled''}"

definition valid_evidence :: "frame_evidence \<Rightarrow> bool" where
  "valid_evidence e \<longleftrightarrow> 0 \<le> fe_semantic_records e \<and> 0 \<le> fe_legacy_raw_only_records e \<and>
     0 \<le> fe_semantic_gap_records e \<and> 0 \<le> fe_dropped_events e \<and>
     fe_legacy_raw_only_records e \<le> fe_semantic_records e \<and>
     \<not> (fe_dropped_events e \<noteq> 0 \<and> fe_semantic_gap_records e = 0)"

definition frame_sections :: "consciousness_frame \<Rightarrow> jobj list" where
  "frame_sections f = [fr_pc f, fr_energy f, fr_st f, fr_rd f, fr_a f, fr_world f, fr_self_boundary f, fr_memory f,
     fr_capabilities f, fr_semantic_context f, fr_capture_coverage f, fr_omission_counts f]"

definition valid_frame :: "consciousness_frame \<Rightarrow> bool" where
  "valid_frame f \<longleftrightarrow> is_uuid4 (fr_brain_id f) \<and> 0 \<le> fr_state_sequence f \<and> 0 \<le> fr_through_capture_seq f \<and>
     fr_through_capture_seq f \<le> MAX_CAPTURE_SEQUENCE \<and> is_f64 (fr_logical_clock f) \<and> 0 \<le> fr_logical_clock f \<and>
     0 \<le> fr_c0_tick f \<and> list_all (\<lambda>m. frozen (JObj m)) (frame_sections f) \<and> valid_freshness (fr_freshness f) \<and>
     valid_evidence (fr_semantic_evidence f) \<and>
     fr_aggregate_semantic_complete f = (fr_trace_complete f \<and>
       fe_legacy_raw_only_records (fr_semantic_evidence f) = 0 \<and> fe_semantic_gap_records (fr_semantic_evidence f) = 0)"

definition freshness_data :: "frame_freshness \<Rightarrow> json" where
  "freshness_data h = JObj [(''projected_at_state_sequence'', JInt (fh_projected_at_state_sequence h)),
     (''scheduler_sample'', JStr (fh_scheduler_sample h)), (''scheduler_tick'', JInt (fh_scheduler_tick h)),
     (''stream_connection'', JStr (if fh_stream_connected h then ''connected'' else ''disconnected''))]"

definition evidence_data :: "frame_evidence \<Rightarrow> json" where
  "evidence_data e = JObj [(''dropped_events'', JInt (fe_dropped_events e)),
     (''legacy_raw_only_records'', JInt (fe_legacy_raw_only_records e)), (''schema_version'', JInt 1),
     (''semantic_gap_records'', JInt (fe_semantic_gap_records e)), (''semantic_records'', JInt (fe_semantic_records e))]"

definition frame_data :: "consciousness_frame \<Rightarrow> json" where
  "frame_data f = JObj [(''a'', JObj (fr_a f)), (''aggregate_semantic_complete'', JBool (fr_aggregate_semantic_complete f)),
     (''brain_id'', JStr (fr_brain_id f)), (''c0_tick'', JInt (fr_c0_tick f)), (''capabilities'', JObj (fr_capabilities f)),
     (''capture_coverage'', JObj (fr_capture_coverage f)), (''energy'', JObj (fr_energy f)),
     (''freshness'', freshness_data (fr_freshness f)), (''logical_clock'', JFloat (fr_logical_clock f)),
     (''memory'', JObj (fr_memory f)), (''omission_counts'', JObj (fr_omission_counts f)), (''pc'', JObj (fr_pc f)),
     (''rd'', JObj (fr_rd f)), (''runtime_health'', JStr (health_value (fr_runtime_health f))), (''schema_version'', JInt 3),
     (''self_boundary'', JObj (fr_self_boundary f)), (''semantic_context'', JObj (fr_semantic_context f)),
     (''semantic_evidence'', evidence_data (fr_semantic_evidence f)), (''semantic_schema_version'', JInt 1),
     (''st'', JObj (fr_st f)), (''state_sequence'', JInt (fr_state_sequence f)),
     (''through_capture_seq'', JInt (fr_through_capture_seq f)), (''trace_complete'', JBool (fr_trace_complete f)),
     (''unresolved_evidence'', JBool (fr_unresolved_evidence f)), (''world'', JObj (fr_world f))]"

definition frame_text :: "consciousness_frame \<Rightarrow> string" where
  "frame_text f = canonical_json (frame_data f)"

definition enforce_frame_limit :: "consciousness_frame \<Rightarrow> int \<Rightarrow> unit res" where
  "enforce_frame_limit f max_frame_bytes =
     (if max_frame_bytes < 1 then Inl (PyValueError ''max_frame_bytes must be positive'')
      else if int (length (utf8 (frame_text f))) > max_frame_bytes then
        Inl (FrameSizeError ''consciousness frame exceeds negotiated byte limit'')
      else Inr ())"

section \<open>Selections\<close>

definition FRAME_PROJECTION_RECORD_BUDGET :: nat where
  "FRAME_PROJECTION_RECORD_BUDGET = MAX_PERSONALITY_VALUES_PER_LAYER * 3 * 4 + MAX_ENERGY_RECORDS * 3 +
     MAX_WORKSPACE_BROADCAST * 3 + MAX_THOUGHT_BRANCHES * 3 + MAX_ACTION_RECORDS * 8 + MAX_IDENTITY_ACTORS * 4 +
     MAX_PROVENANCE_AUTHORIZATIONS * 2 + MAX_MEMORY_RECORDS * 3 + MAX_CAPABILITIES * 3 +
     MAX_WORLD_PROPOSITIONS_PER_LAYER * 4 * 3 + MAX_COGNITION_REFLECTIONS * 2 + MAX_RAW_LIFECYCLE_KEYS * 2"

text \<open>\<open>limit\<close>, and \<open>xs[:-limit]\<close>.\<close>

definition frame_limit :: nat where "frame_limit = 4"

definition but_last_n :: "nat \<Rightarrow> 'a list \<Rightarrow> 'a list" where
  "but_last_n n xs = take (length xs - n) xs"

definition tally :: "int \<Rightarrow> int \<Rightarrow> jobj" where
  "tally included omitted = [(''included'', JInt included), (''omitted'', JInt omitted)]"

definition omits :: "int \<Rightarrow> json" where
  "omits n = JObj (tally 0 n)"

definition total_nodes :: "('a \<Rightarrow> json) \<Rightarrow> 'a list \<Rightarrow> int" where
  "total_nodes f xs = sum_list (map (\<lambda>x. json_nodes (f x)) xs)"

definition bounded_mapping :: "jobj \<Rightarrow> json" where
  "bounded_mapping m = JArr (map (\<lambda>(k, v). JObj [(''key'', JStr k), (''value'', v)]) (take frame_limit (sort_key fst m)))"

definition energy_ordered :: "brain_state \<Rightarrow> energy_vector list" where
  "energy_ordered s = sort_key (\<lambda>e. (- activation e, en_action_id e)) (bs_energy_records s)"

definition memory_ordered :: "brain_state \<Rightarrow> memory_record list" where
  "memory_ordered s = sort_key (\<lambda>m. (- mr_salience m, mr_memory_id m)) (bs_memories s)"

definition other_actors :: "brain_state \<Rightarrow> actor_record list" where
  "other_actors s = filter (\<lambda>a. ac_actor_id a \<noteq> id_self_actor_id (bs_identity s)) (id_actors (bs_identity s))"

definition branch_items :: "brain_state \<Rightarrow> thought_branch list" where
  "branch_items s = last_n frame_limit (bs_thought_space s)"

definition action_items :: "brain_state \<Rightarrow> action_record list" where
  "action_items s = last_n frame_limit (bs_action_records s)"

definition workspace_items :: "brain_state \<Rightarrow> ws_candidate list" where
  "workspace_items s = take frame_limit (ws_broadcast (bs_workspace s))"

definition energy_items :: "brain_state \<Rightarrow> energy_vector list" where
  "energy_items s = take frame_limit (energy_ordered s)"

definition memory_items :: "brain_state \<Rightarrow> memory_record list" where
  "memory_items s = take frame_limit (memory_ordered s)"

definition layer_items :: "brain_state \<Rightarrow> world_layer \<Rightarrow> world_proposition list" where
  "layer_items s l = last_n frame_limit (world_get l (bs_world s))"

definition capability_items :: "brain_state \<Rightarrow> jobj" where
  "capability_items s = take frame_limit (sort_key fst (bs_capabilities s))"

definition world_layers :: "world_layer list" where
  "world_layers = [Observed, Believed, Simulated, Ideal]"

definition ws_total :: "brain_state \<Rightarrow> ws_name \<Rightarrow> int" where
  "ws_total s n = ct_total (wk_counter (bs_working_set s) n)"

definition ws_evicted :: "brain_state \<Rightarrow> ws_name \<Rightarrow> int" where
  "ws_evicted s n = ct_evicted (wk_counter (bs_working_set s) n)"

definition personality_total :: "brain_state \<Rightarrow> nat" where
  "personality_total s = sum_list (map (\<lambda>l. length (pc_get l (bs_personality s))) pc_layers)"

definition personality_included :: "brain_state \<Rightarrow> nat" where
  "personality_included s = sum_list (map (\<lambda>l. min frame_limit (length (pc_get l (bs_personality s)))) pc_layers)"

definition projection_records_visited :: "brain_state \<Rightarrow> nat" where
  "projection_records_visited s = personality_total s * 4 + length (bs_energy_records s) * 3 +
     length (ws_broadcast (bs_workspace s)) * 3 + length (bs_thought_space s) * 3 + length (bs_action_records s) * 8 +
     length (id_actors (bs_identity s)) * 4 + length (id_authorizations (bs_identity s)) * 2 + length (bs_memories s) * 3 +
     length (bs_capabilities s) * 3 + sum_list (map (\<lambda>l. length (world_get l (bs_world s))) world_layers) * 3 +
     length (cg_reflections (bs_cognition s)) * 2 + length (bs_raw_lifecycle_counts s) * 2"

fun capability_type :: "json \<Rightarrow> string" where
  "capability_type JNull = ''null''"
| "capability_type (JBool b) = ''boolean''"
| "capability_type (JInt i) = ''number''"
| "capability_type (JFloat q) = ''number''"
| "capability_type (JStr s) = ''string''"
| "capability_type (JObj m) = ''object''"
| "capability_type (JArr xs) = ''array''"

definition source_id_fields :: "string list \<Rightarrow> jobj" where
  "source_id_fields ids = [(''source_ids'', strs (take frame_limit ids)),
     (''source_ids_omitted'', JInt (max 0 (int (length ids) - int frame_limit)))]"

definition source_id_items :: "string list list \<Rightarrow> json" where
  "source_id_items idss = JObj (tally (sum_list (map (\<lambda>ids. min (int frame_limit) (int (length ids))) idss))
     (sum_list (map (\<lambda>ids. max 0 (int (length ids) - int frame_limit)) idss)))"

section \<open>The sections of an action\<close>

definition action_evidence_ids :: "action_record \<Rightarrow> string list" where
  "action_evidence_ids a = (case ar_receipt a of None \<Rightarrow> [] | Some r \<Rightarrow>
     (case jget r ''effect_evidence'' of
        JObj evidence \<Rightarrow> (case jget evidence ''observation_ids'' of
            JArr ids \<Rightarrow> List.map_filter (\<lambda>v. case v of JStr s \<Rightarrow> Some s | _ \<Rightarrow> None) ids
          | _ \<Rightarrow> [])
      | _ \<Rightarrow> []))"

definition rd_action :: "action_record \<Rightarrow> json" where
  "rd_action a = (let ids = action_evidence_ids a in JObj
     [(''action_id'', JStr (ar_action_id a)), (''phase'', JStr (phase_value (ar_phase a))),
      (''rd_phase'', JStr (rd_value (ar_rd_phase a))), (''prepared_branch_id'', opt_json JStr (ar_prepared_branch_id a)),
      (''execution_confirmed'', opt_json JBool (ar_execution_confirmed a)),
      (''effect_confirmed'', opt_json JBool (ar_effect_confirmed a)),
      (''last_transition_event_id'', JStr (ar_last_event_id a)),
      (''effect_evidence_ids'', strs (take frame_limit ids)),
      (''effect_evidence_ids_omitted'', JInt (max 0 (int (length ids) - int frame_limit)))])"

definition actual_action :: "action_record \<Rightarrow> json" where
  "actual_action a =
     (let outcome = map_option outcome_value (ar_outcome a);
          status = (case outcome of Some o' \<Rightarrow> JStr o'
            | None \<Rightarrow> (case ar_receipt a of None \<Rightarrow> JNull | Some r \<Rightarrow> jget r ''status''));
          latest = (if ar_receipt_history a = [] then None else Some (last (ar_receipt_history a)));
          blocked = (Blocked \<in> set (ar_phase_history a))
      in JObj ([(''action_id'', JStr (ar_action_id a)),
        (''dispatch_observed'', JBool (Dispatched \<in> set (ar_phase_history a))),
        (''blocked'', if blocked then JBool True else JNull), (''blocked_fact_available'', JBool blocked),
        (''receipt_observed'', JBool (Receipted \<in> set (ar_phase_history a))), (''receipt_status'', status),
        (''latest_receipt_status'', opt_json JStr (map_option (\<lambda>r. status_value (rc_status r)) latest)),
        (''latest_receipt_disposition'', opt_json JStr (map_option (\<lambda>r. disposition_value (rc_disposition r)) latest)),
        (''execution_confirmed'', opt_json JBool (ar_execution_confirmed a)),
        (''effect_confirmed'', opt_json JBool (ar_effect_confirmed a)), (''last_event_id'', JStr (ar_last_event_id a))] @
        (if ar_receipt_corroboration_count a > 0 \<or> ar_receipt_conflict_count a > 0 then
           [(''outcome'', opt_json JStr outcome),
            (''receipt_corroboration_count'', JInt (ar_receipt_corroboration_count a)),
            (''receipt_conflict_count'', JInt (ar_receipt_conflict_count a))]
         else [])))"

definition how_many :: "('a \<Rightarrow> bool) \<Rightarrow> 'a list \<Rightarrow> int" where
  "how_many p xs = int (length (filter p xs))"

definition execution_unknown :: "action_record \<Rightarrow> bool" where
  "execution_unknown a \<longleftrightarrow> ar_execution_confirmed a = None"

definition effect_unknown :: "action_record \<Rightarrow> bool" where
  "effect_unknown a \<longleftrightarrow> ar_effect_confirmed a = None"

definition unresolved_count :: "brain_state \<Rightarrow> int" where
  "unresolved_count s = how_many (\<lambda>a. execution_unknown a \<or> effect_unknown a) (bs_action_records s)"

definition action_phases :: "action_phase list" where
  "action_phases = [Proposed, Prepared, Blocked, Dispatched, Receipted, Reconstructed]"

definition phase_counts :: "action_record list \<Rightarrow> json" where
  "phase_counts actions = JObj (map (\<lambda>p. (phase_value p, JInt (how_many (\<lambda>a. ar_phase a = p) actions))) action_phases)"

definition outcome_counts :: "action_record list \<Rightarrow> json" where
  "outcome_counts actions = JObj [(''failure'', JInt (how_many (\<lambda>a. ar_outcome a = Some OutFailure) actions)),
     (''success'', JInt (how_many (\<lambda>a. ar_outcome a = Some OutSuccess) actions)),
     (''unknown'', JInt (how_many (\<lambda>a. ar_outcome a = None) actions))]"

section \<open>Sections\<close>

definition pc_section :: "brain_state \<Rightarrow> jobj" where
  "pc_section s = (let name = id_name (bs_identity s); layer = (\<lambda>l. bounded_mapping (pc_get l (bs_personality s))) in
     [(''identity_name'', opt_json JStr name), (''naming_status'', JStr (if name \<noteq> None then ''named'' else ''unnamed'')),
      (''traits'', layer Traits), (''adaptations'', layer Adaptations), (''narrative_ideal'', layer NarrativeIdeal)])"

definition energy_section :: "brain_state \<Rightarrow> jobj" where
  "energy_section s = [(''record_count'', JInt (ws_total s WEnergies)),
     (''items'', JArr (map (\<lambda>e. JObj [(''action_id'', JStr (en_action_id e)), (''activation'', JFloat (activation e)),
        (''salience'', JFloat (en_salience e)), (''urgency'', JFloat (en_urgency e)), (''valence'', JFloat (en_valence e)),
        (''control'', JFloat (en_control e)), (''resources'', JFloat (en_resources e)), (''cost'', JFloat (en_cost e))])
       (energy_items s)))]"

definition st_section :: "brain_state \<Rightarrow> jobj" where
  "st_section s = [(''thought_count'', JInt (ws_total s WThoughts)), (''workspace_cycle'', JInt (ws_cycle (bs_workspace s))),
     (''workspace'', JArr (map (\<lambda>c. JObj ([(''candidate_id'', JStr (wc_candidate_id c)),
        (''specialist'', JStr (specialist_name (wc_specialist c))), (''score'', JFloat (wc_score c))] @
        source_id_fields (wc_source_ids c))) (workspace_items s))),
     (''branches'', JArr (map (\<lambda>b. JObj ([(''branch_id'', JStr (tb_branch_id b)), (''stance'', JStr (tb_stance b)),
        (''uncertainty'', JFloat (tb_uncertainty b)), (''rd_phase'', JStr (rd_value (tb_rd_phase b)))] @
        source_id_fields (tb_source_ids b))) (branch_items s)))]"

definition rd_section :: "brain_state \<Rightarrow> jobj" where
  "rd_section s = (let actions = bs_action_records s in
     [(''action_count'', JInt (ws_total s WActions)), (''retained_action_count'', JInt (int (length actions))),
      (''projected_action_count'', JInt (int (length (action_items s)))),
      (''lifecycle_incomplete_count'', JInt (how_many (\<lambda>a. ar_phase a \<noteq> Reconstructed) actions)),
      (''execution_unknown_count'', JInt (how_many execution_unknown actions)),
      (''effect_unknown_count'', JInt (how_many effect_unknown actions)), (''phase_counts'', phase_counts actions),
      (''outcome_counts'', outcome_counts actions), (''unresolved_count'', JInt (unresolved_count s)),
      (''actions'', JArr (map rd_action (action_items s)))])"

definition a_section :: "brain_state \<Rightarrow> jobj" where
  "a_section s = [(''actions'', JArr (map actual_action (action_items s)))]"

definition world_item :: "world_proposition \<Rightarrow> json" where
  "world_item p = JObj [(''proposition_id'', JStr (wp_proposition_id p)), (''layer'', JStr (layer_value (wp_layer p))),
     (''confidence'', JFloat (wp_confidence p)), (''grounded_observation'', JBool (wp_layer p = Observed)),
     (''source_event_id'', JStr (wp_source_event_id p)), (''source_actor_id'', JStr (wp_source_actor_id p)),
     (''action_id'', opt_json JStr (wp_action_id p))]"

definition world_section :: "brain_state \<Rightarrow> jobj" where
  "world_section s = map (\<lambda>l. (layer_value l, JArr (map world_item (layer_items s l)))) world_layers"

definition self_section :: "brain_state \<Rightarrow> jobj" where
  "self_section s = [(''self_actor_id'', JStr (id_self_actor_id (bs_identity s))),
     (''self_name'', opt_json JStr (id_name (bs_identity s))), (''self_kind'', JStr ''self''),
     (''other_actor_ids'', strs (map ac_actor_id (last_n frame_limit (other_actors s)))),
     (''authorization_count'', JInt (ws_total s WAuthorizations)), (''boundary_explicit'', JBool True)]"

definition memory_section :: "brain_state \<Rightarrow> jobj" where
  "memory_section s = [(''selection'', JStr ''most_salient_then_memory_id''),
     (''items'', JArr (map (\<lambda>m. JObj ([(''memory_id'', JStr (mr_memory_id m)), (''salience'', JFloat (mr_salience m))] @
        source_id_fields (mr_source_ids m))) (memory_items s)))]"

definition capability_section :: "brain_state \<Rightarrow> jobj" where
  "capability_section s = [(''items'', JArr (map (\<lambda>(k, v). JObj [(''key'', JStr k),
     (''boolean_value'', case v of JBool b \<Rightarrow> JBool b | _ \<Rightarrow> JNull), (''value_present'', JBool (v \<noteq> JNull)),
     (''value_type'', JStr (capability_type v))]) (capability_items s)))]"

definition no_semantic_context :: jobj where
  "no_semantic_context = [(''available'', JBool False), (''request_id'', JNull), (''turn_id'', JNull),
     (''reason'', JStr ''task4_runtime_has_no_semantic_request_binding'')]"

definition no_capture_coverage :: jobj where
  "no_capture_coverage = [(''policy_version'', JStr ''no-capture-v1''), (''capture_coverage'', JStr ''unobserved''),
     (''redacted_paths'', JInt 0), (''truncated_paths'', JInt 0), (''unsupported_paths'', JInt 0), (''omitted_nodes'', JInt 0),
     (''channels'', JObj [])]"

section \<open>Omission counts\<close>

text \<open>One section: how many of its records are in the frame, how many are not, and what of each is left out.\<close>

definition omission :: "nat \<Rightarrow> int \<Rightarrow> jobj \<Rightarrow> jobj" where
  "omission included whole details = tally (int included) (whole - int included) @ [(''fields'', JObj details)]"

definition pc_omission :: "brain_state \<Rightarrow> jobj" where
  "pc_omission s = omission (personality_included s) (int (personality_total s))
     [(''rate_state_json_nodes'', omits (json_nodes (rates_data (pc_rate_state (bs_personality s))))),
      (''omitted_layer_value_json_nodes'', omits (sum_list (map (\<lambda>l. let m = pc_get l (bs_personality s) in
         total_nodes snd (filter (\<lambda>(k, v). k \<notin> set (take frame_limit (sort (map fst m)))) m)) pc_layers)))]"

definition energy_omission :: "brain_state \<Rightarrow> jobj" where
  "energy_omission s = (let n = length (energy_items s) in omission n (ws_total s WEnergies)
     [(''deficits_json_nodes'', omits (total_nodes (\<lambda>e. JObj (en_deficits e)) (energy_items s))),
      (''arousal_values'', omits (int n)), (''personality_relevance_values'', omits (int n)),
      (''omitted_record_json_nodes'', omits (total_nodes energy_data (drop frame_limit (energy_ordered s)))),
      (''evicted_record_details'', omits (ws_evicted s WEnergies))])"

definition workspace_omission :: "brain_state \<Rightarrow> jobj" where
  "workspace_omission s = (let n = length (workspace_items s) in
     omission n (int (length (ws_broadcast (bs_workspace s))))
     [(''content_json_nodes'', omits (total_nodes (\<lambda>c. JObj (wc_content c)) (workspace_items s))),
      (''cycle_values'', omits (int n)), (''capacity_values'', omits 1),
      (''source_id_items'', source_id_items (map wc_source_ids (workspace_items s))),
      (''omitted_record_json_nodes'', omits (total_nodes candidate_json (drop frame_limit (ws_broadcast (bs_workspace s)))))])"

definition branch_omission :: "brain_state \<Rightarrow> jobj" where
  "branch_omission s = (let n = length (branch_items s) in omission n (ws_total s WThoughts)
     [(''content_json_nodes'', omits (total_nodes (\<lambda>b. JObj (tb_content b)) (branch_items s))),
      (''expected_consequence_json_nodes'',
        omits (total_nodes (\<lambda>b. JArr (map JObj (tb_expected_consequences b))) (branch_items s))),
      (''cognition_metadata_values'', omits (3 * int n)),
      (''source_id_items'', source_id_items (map tb_source_ids (branch_items s))),
      (''omitted_record_json_nodes'', omits (total_nodes branch_data (but_last_n frame_limit (bs_thought_space s)))),
      (''evicted_record_details'', omits (ws_evicted s WThoughts))])"

definition st_omission :: "brain_state \<Rightarrow> jobj" where
  "st_omission s = (let w = int (length (workspace_items s)); b = int (length (branch_items s)) in
     tally (w + b) (int (length (ws_broadcast (bs_workspace s))) - w + ws_total s WThoughts - b) @
     [(''workspace'', JObj (workspace_omission s)), (''branches'', JObj (branch_omission s))])"

definition receipt_nodes :: "action_record list \<Rightarrow> int" where
  "receipt_nodes actions = total_nodes JObj (List.map_filter ar_receipt actions)"

definition reconstruction_nodes :: "action_record list \<Rightarrow> int" where
  "reconstruction_nodes actions = total_nodes JObj (List.map_filter ar_reconstruction actions)"

definition omitted_actions :: "brain_state \<Rightarrow> jobj" where
  "omitted_actions s =
     [(''omitted_record_json_nodes'', omits (total_nodes action_data (but_last_n frame_limit (bs_action_records s)))),
      (''evicted_record_details'', omits (ws_evicted s WActions))]"

definition rd_omission :: "brain_state \<Rightarrow> jobj" where
  "rd_omission s = (let actions = action_items s; n = length actions in omission n (ws_total s WActions)
     ([(''intent_json_nodes'', omits (total_nodes (\<lambda>a. JObj (ar_intent a)) actions)),
       (''phase_history_items'', omits (sum_list (map (\<lambda>a. int (length (ar_phase_history a))) actions))),
       (''receipt_exact_json_nodes'', omits (receipt_nodes actions)),
       (''reconstruction_exact_json_nodes'', omits (reconstruction_nodes actions)),
       (''proposed_event_id_values'', omits (int n)),
       (''effect_evidence_id_items'', source_id_items (map action_evidence_ids actions))] @ omitted_actions s))"

definition a_omission :: "brain_state \<Rightarrow> jobj" where
  "a_omission s = (let actions = action_items s; n = length actions in omission n (ws_total s WActions)
     ([(''intent_json_nodes'', omits (total_nodes (\<lambda>a. JObj (ar_intent a)) actions)), (''phase_values'', omits (int n)),
       (''phase_history_items'', omits (sum_list (map (\<lambda>a. int (length (ar_phase_history a))) actions))),
       (''rd_phase_values'', omits (int n)),
       (''prepared_branch_id_values'', omits (how_many (\<lambda>a. ar_prepared_branch_id a \<noteq> None) actions)),
       (''receipt_exact_json_nodes'', omits (receipt_nodes actions)),
       (''reconstruction_exact_json_nodes'', omits (reconstruction_nodes actions)),
       (''effect_evidence_id_items'', omits (sum_list (map (\<lambda>a. int (length (action_evidence_ids a))) actions))),
       (''proposed_event_id_values'', omits (int n))] @ omitted_actions s))"

definition layer_omission :: "brain_state \<Rightarrow> world_layer \<Rightarrow> jobj" where
  "layer_omission s l = omission (length (layer_items s l)) (ws_total s (WWorld l))
     [(''content_json_nodes'', omits (total_nodes (\<lambda>p. JObj (wp_content p)) (layer_items s l))),
      (''omitted_record_json_nodes'', omits (total_nodes proposition_data (but_last_n frame_limit (world_get l (bs_world s))))),
      (''evicted_record_details'', omits (ws_evicted s (WWorld l)))]"

definition world_omission :: "brain_state \<Rightarrow> jobj" where
  "world_omission s = (let included = sum_list (map (\<lambda>l. int (length (layer_items s l))) world_layers);
       whole = sum_list (map (\<lambda>l. ws_total s (WWorld l)) world_layers)
     in tally included (whole - included) @
        [(''layers'', JObj (map (\<lambda>l. (layer_value l, JObj (layer_omission s l))) world_layers))])"

text \<open>\<open>self\<close> is the actor at the self identifier.\<close>

definition self_omission :: "brain_state \<Rightarrow> actor_record \<Rightarrow> jobj" where
  "self_omission s self = (let others = other_actors s; selected = last_n frame_limit others; i = bs_identity s in
     omission (length selected) (int (length others))
     [(''self_actor_metadata_json_nodes'', omits (json_nodes (JObj [(''display_name'', opt_json JStr (ac_display_name self)),
         (''parent_actor_id'', opt_json JStr (ac_parent_actor_id self)), (''attributes'', JObj (ac_attributes self))]))),
      (''other_actor_metadata_json_nodes'', omits (total_nodes (\<lambda>a. JObj [(''kind'', JStr (actor_kind_value (ac_kind a))),
         (''display_name'', opt_json JStr (ac_display_name a)), (''parent_actor_id'', opt_json JStr (ac_parent_actor_id a)),
         (''attributes'', JObj (ac_attributes a))]) selected)),
      (''authorization_record_json_nodes'', omits (total_nodes authorization_data (id_authorizations i))),
      (''authorization_records'', omits (int (length (id_authorizations i)))),
      (''omitted_actor_record_json_nodes'', omits (total_nodes actor_data (but_last_n frame_limit others)))])"

definition memory_omission :: "brain_state \<Rightarrow> jobj" where
  "memory_omission s = omission (length (memory_items s)) (ws_total s WMemories)
     [(''content_json_nodes'', omits (total_nodes (\<lambda>m. JObj (mr_content m)) (memory_items s))),
      (''source_id_items'', source_id_items (map mr_source_ids (memory_items s))),
      (''omitted_record_json_nodes'', omits (total_nodes memory_data (drop frame_limit (memory_ordered s)))),
      (''evicted_record_details'', omits (ws_evicted s WMemories))]"

definition capability_omission :: "brain_state \<Rightarrow> jobj" where
  "capability_omission s = omission (length (capability_items s)) (int (length (bs_capabilities s)))
     [(''non_boolean_value_json_nodes'', omits (total_nodes snd
         (filter (\<lambda>(k, v). case v of JBool _ \<Rightarrow> False | _ \<Rightarrow> True) (capability_items s)))),
      (''omitted_entry_json_nodes'', omits (total_nodes (\<lambda>(k, v). JObj [(''key'', JStr k), (''value'', v)])
         (drop frame_limit (sort_key fst (bs_capabilities s)))))]"

definition runtime_omission :: "brain_state \<Rightarrow> jobj" where
  "runtime_omission s = (let failure = rt_last_failure (bs_runtime s) in
     tally 2 (3 + (if failure \<noteq> None then 1 else 0)) @ [(''fields'', JObj
     [(''failure_count_values'', omits 1), (''consecutive_failure_values'', omits 1),
      (''last_elapsed_seconds_values'', omits 1),
      (''last_failure_json_nodes'', omits (case failure of None \<Rightarrow> 0 | Some f \<Rightarrow> json_nodes (failure_data f)))])])"

definition cognition_omission :: "brain_state \<Rightarrow> jobj" where
  "cognition_omission s = tally 0 1 @ [(''fields'', JObj
     [(''state_json_nodes'', omits (json_nodes (cognition_data (bs_cognition s)))),
      (''reflection_records'', omits (ws_total s WReflections)),
      (''evicted_reflection_details'', omits (ws_evicted s WReflections))])]"

definition raw_omission :: "brain_state \<Rightarrow> jobj" where
  "raw_omission s = omission 0 (ws_total s WRawKeys)
     [(''entry_json_nodes'', omits (json_nodes (JObj (map (\<lambda>(k, n). (k, JInt n)) (bs_raw_lifecycle_counts s))))),
      (''evicted_key_details'', omits (ws_evicted s WRawKeys)),
      (''evicted_event_counts'', omits (wk_raw_lifecycle_events_evicted (bs_working_set s)))]"

definition working_set_report :: "brain_state \<Rightarrow> jobj" where
  "working_set_report s = [(''projection_records_visited'', JInt (int (projection_records_visited s))),
     (''projection_record_budget'', JInt (int FRAME_PROJECTION_RECORD_BUDGET)), (''ledger_events_scanned'', JInt 0),
     (''counters'', working_set_data (bs_working_set s))]"

definition omission_counts :: "brain_state \<Rightarrow> actor_record \<Rightarrow> jobj" where
  "omission_counts s self = [(''pc'', JObj (pc_omission s)), (''energy'', JObj (energy_omission s)),
     (''st'', JObj (st_omission s)), (''rd'', JObj (rd_omission s)), (''a'', JObj (a_omission s)),
     (''world'', JObj (world_omission s)), (''self_boundary'', JObj (self_omission s self)),
     (''memory'', JObj (memory_omission s)), (''capabilities'', JObj (capability_omission s)),
     (''runtime'', JObj (runtime_omission s)), (''cognition'', JObj (cognition_omission s)),
     (''raw_lifecycle_counts'', JObj (raw_omission s)), (''working_set'', JObj (working_set_report s))]"

section \<open>The projection\<close>

definition no_evidence :: frame_evidence where
  "no_evidence = \<lparr>fe_semantic_records = 0, fe_legacy_raw_only_records = 0, fe_semantic_gap_records = 0, fe_dropped_events = 0\<rparr>"

text \<open>The optional arguments are the ones with a \<open>None\<close> default; the coverage is the dumped object.\<close>

definition build_frame ::
  "brain_state \<Rightarrow> actor_record \<Rightarrow> int \<Rightarrow> jobj option \<Rightarrow> bool option \<Rightarrow> frame_evidence option \<Rightarrow> string \<Rightarrow> bool \<Rightarrow>
    consciousness_frame" where
  "build_frame s self through coverage aggregate evidence sample live = \<lparr>
     fr_brain_id = bs_brain_id s, fr_state_sequence = bs_last_sequence s, fr_through_capture_seq = through,
     fr_logical_clock = bs_logical_clock s, fr_trace_complete = bs_trace_complete s,
     fr_runtime_health = rt_health (bs_runtime s), fr_c0_tick = rt_tick_count (bs_runtime s),
     fr_pc = freeze_items (pc_section s), fr_energy = freeze_items (energy_section s),
     fr_st = freeze_items (st_section s), fr_rd = freeze_items (rd_section s), fr_a = freeze_items (a_section s),
     fr_world = freeze_items (world_section s), fr_self_boundary = freeze_items (self_section s),
     fr_memory = freeze_items (memory_section s), fr_capabilities = freeze_items (capability_section s),
     fr_semantic_context = freeze_items no_semantic_context,
     fr_aggregate_semantic_complete = (case aggregate of None \<Rightarrow> bs_trace_complete s | Some b \<Rightarrow> b),
     fr_semantic_evidence = (case evidence of None \<Rightarrow> no_evidence | Some e \<Rightarrow> e),
     fr_unresolved_evidence = (unresolved_count s > 0),
     fr_capture_coverage = freeze_items (case coverage of None \<Rightarrow> no_capture_coverage | Some c \<Rightarrow> c),
     fr_freshness = \<lparr>fh_projected_at_state_sequence = bs_last_sequence s,
       fh_scheduler_tick = rt_tick_count (bs_runtime s), fh_scheduler_sample = sample, fh_stream_connected = live\<rparr>,
     fr_omission_counts = freeze_items (omission_counts s self)\<rparr>"

definition project_frame ::
  "brain_state \<Rightarrow> int \<Rightarrow> jobj option \<Rightarrow> bool option \<Rightarrow> frame_evidence option \<Rightarrow> string \<Rightarrow> bool \<Rightarrow> consciousness_frame res" where
  "project_frame s through coverage aggregate evidence sample live =
     (if projection_records_visited s > FRAME_PROJECTION_RECORD_BUDGET then
        Inl (LedgerIntegrityError ''bounded frame projection exceeded its fixed record budget'')
      else case lookup ac_actor_id (id_actors (bs_identity s)) (id_self_actor_id (bs_identity s)) of
        None \<Rightarrow> Inl (PyKeyError (id_self_actor_id (bs_identity s)))
      | Some self \<Rightarrow> let f = build_frame s self through coverage aggregate evidence sample live in
          if valid_frame f then Inr f else Inl (ValidationError ''ConsciousnessFrameV3''))"

end
