(* ===== verification/Projection.thy ===== *)
theory Projection imports Frames
begin

text \<open>
  What is proved of the frame projection: on a valid brain it stays within its budget and cannot fail for any
  honest evidence; its counts add up.
\<close>

section \<open>Values that freeze\<close>

definition freezable :: "json \<Rightarrow> bool" where
  "freezable v \<longleftrightarrow> frozen (freeze v)"

lemma freezable_simps [simp]:
  "freezable (JStr s)" "freezable (JInt i)" "freezable (JBool b)" "freezable JNull"
  "freezable (JFloat q) \<longleftrightarrow> is_f64 q" "freezable (JArr xs) \<longleftrightarrow> list_all freezable xs"
  "freezable (strs ss)"
  by (auto simp: freezable_def strs_def list_all_iff)

lemma freezable_obj [simp, intro]: "list_all (\<lambda>p. freezable (snd p)) m \<Longrightarrow> freezable (JObj m)"
  using frozen_item_list [of m] by (simp add: freezable_def del: frozen.simps)

lemma frozen_freezable: "frozen v \<Longrightarrow> freezable v"
  by (simp add: freezable_def freeze_frozen)

lemma freezable_members: "list_all (\<lambda>p. freezable (snd p)) m \<Longrightarrow> frozen (JObj (freeze_items m))"
  using frozen_item_list [of m] by (simp add: freezable_def)

lemma freezable_opt [simp]: "freezable (opt_json JStr x)" "freezable (opt_json JBool b)" "freezable (opt_json JInt i)"
  by (auto simp: opt_json_def split: option.split)

lemma freezable_tally [simp]: "list_all (\<lambda>p. freezable (snd p)) (tally i n)" "freezable (omits n)" "freezable (source_id_items xs)"
  by (simp_all add: tally_def omits_def source_id_items_def)

lemma freezable_source_ids [simp]: "list_all (\<lambda>p. freezable (snd p)) (source_id_fields ids)"
  by (simp add: source_id_fields_def)

lemma freezable_omission [simp]:
  "list_all (\<lambda>p. freezable (snd p)) (omission i n ds) \<longleftrightarrow> list_all (\<lambda>p. freezable (snd p)) ds \<or> freezable (JObj ds)"
  by (auto simp: omission_def)

lemma jget_freezable: "frozen (JObj m) \<Longrightarrow> freezable (jget m k)"
  by (rule frozen_freezable [OF jget_frozen])

section \<open>The sections of a valid brain\<close>

lemma list_all_map [simp]: "list_all p (map f xs) \<longleftrightarrow> list_all (\<lambda>x. p (f x)) xs"
  by (simp add: list.pred_map o_def)

lemma map_freezable: "(\<And>x. x \<in> set xs \<Longrightarrow> freezable (f x)) \<Longrightarrow> freezable (JArr (map f xs))"
  by (auto simp: list_all_iff)

lemma frozen_values: "frozen (JObj m) \<Longrightarrow> (k, v) \<in> set m \<Longrightarrow> freezable v"
  using frozen_freezable [of v] by (auto simp: list_all_iff)

lemma bounded_mapping_freezable: "frozen (JObj m) \<Longrightarrow> freezable (bounded_mapping m)"
proof -
  assume m: "frozen (JObj m)"
  have "freezable v" if "(k, v) \<in> set (take frame_limit (sort_key fst m))" for k v
    using frozen_values [OF m] in_set_takeD [OF that] by simp
  then show ?thesis by (auto simp: bounded_mapping_def list_all_iff)
qed

lemma pc_section_freezes: "valid_state s \<Longrightarrow> frozen (JObj (freeze_items (pc_section s)))"
proof (rule freezable_members)
  assume "valid_state s"
  then have "frozen (JObj (pc_get l (bs_personality s)))" for l
    by (cases l) (auto simp: valid_state_def valid_parts_def valid_personality_def valid_numeric_map_def pc_layers_def)
  then have "freezable (bounded_mapping (pc_get l (bs_personality s)))" for l by (rule bounded_mapping_freezable)
  from this [of Traits] this [of Adaptations] this [of NarrativeIdeal]
  show "list_all (\<lambda>p. freezable (snd p)) (pc_section s)" by (simp add: pc_section_def Let_def)
qed

lemma activation_is_f64: "is_f64 (activation e)"
proof -
  obtain a where "py_round 12 (min 1 (max 0 (activation_raw e))) = Some a" "is_f64 a"
    using py_round_between [of 0 "min 1 (max 0 (activation_raw e))" 1 12] by auto
  then show ?thesis by (simp add: activation_def)
qed

lemma energy_section_freezes: "valid_state s \<Longrightarrow> frozen (JObj (freeze_items (energy_section s)))"
proof (rule freezable_members)
  assume "valid_state s"
  then have "valid_energy e" if "e \<in> set (energy_items s)" for e
    using in_set_takeD [OF that [unfolded energy_items_def]]
    by (simp add: energy_ordered_def valid_state_def valid_parts_def list_all_iff)
  then show "list_all (\<lambda>p. freezable (snd p)) (energy_section s)"
    by (auto simp: energy_section_def activation_is_f64 valid_energy_def unit_float_def signed_unit_float_def
        intro!: map_freezable simp del: freezable_simps(6))
qed

lemma st_section_freezes: "valid_state s \<Longrightarrow> frozen (JObj (freeze_items (st_section s)))"
proof (rule freezable_members)
  assume v: "valid_state s"
  then have "valid_candidate c" if "c \<in> set (workspace_items s)" for c
    using in_set_takeD [OF that [unfolded workspace_items_def]]
    by (simp add: valid_state_def valid_parts_def valid_workspace_def list_all_iff)
  moreover have "valid_branch b" if "b \<in> set (branch_items s)" for b
    using that v set_last_n [of frame_limit "bs_thought_space s"]
    by (auto simp: branch_items_def valid_state_def valid_parts_def list_all_iff)
  ultimately show "list_all (\<lambda>p. freezable (snd p)) (st_section s)"
    by (auto simp: st_section_def valid_candidate_def valid_branch_def unit_float_def intro!: map_freezable
        simp del: freezable_simps(6))
qed

lemma rd_section_freezes: "frozen (JObj (freeze_items (rd_section s)))"
  by (rule freezable_members)
    (auto simp: rd_section_def Let_def rd_action_def phase_counts_def outcome_counts_def action_phases_def
      intro!: map_freezable simp del: freezable_simps(6))

lemma a_section_freezes: "valid_state s \<Longrightarrow> frozen (JObj (freeze_items (a_section s)))"
proof (rule freezable_members)
  assume v: "valid_state s"
  have "freezable (actual_action a)" if "a \<in> set (action_items s)" for a
  proof -
    have "valid_action a" using that v set_last_n [of frame_limit "bs_action_records s"]
      by (auto simp: action_items_def valid_state_def valid_parts_def list_all_iff)
    then have "freezable (jget r k)" if "ar_receipt a = Some r" for r k
      using that jget_freezable by (auto simp: valid_action_def)
    then show ?thesis by (auto simp: actual_action_def Let_def split: option.split intro!: freezable_obj)
  qed
  then show "list_all (\<lambda>p. freezable (snd p)) (a_section s)" by (simp add: a_section_def list_all_iff)
qed

lemma world_section_freezes: "valid_state s \<Longrightarrow> frozen (JObj (freeze_items (world_section s)))"
proof (rule freezable_members)
  assume v: "valid_state s"
  have "valid_proposition p" if "p \<in> set (layer_items s l)" for p l
    using that v set_last_n [of frame_limit "world_get l (bs_world s)"]
    by (cases l) (auto simp: layer_items_def valid_state_def valid_parts_def valid_world_def valid_layer_def list_all_iff)
  then show "list_all (\<lambda>p. freezable (snd p)) (world_section s)"
    by (auto simp: world_section_def list_all_iff world_item_def valid_proposition_def intro!: freezable_obj)
qed

lemma self_section_freezes: "frozen (JObj (freeze_items (self_section s)))"
  by (rule freezable_members) (simp add: self_section_def)

lemma memory_section_freezes: "valid_state s \<Longrightarrow> frozen (JObj (freeze_items (memory_section s)))"
proof (rule freezable_members)
  assume "valid_state s"
  then have "valid_memory m" if "m \<in> set (memory_items s)" for m
    using in_set_takeD [OF that [unfolded memory_items_def]]
    by (simp add: memory_ordered_def valid_state_def valid_parts_def list_all_iff)
  then show "list_all (\<lambda>p. freezable (snd p)) (memory_section s)"
    by (auto simp: memory_section_def valid_memory_def unit_float_def intro!: map_freezable simp del: freezable_simps(6))
qed

lemma capability_section_freezes: "frozen (JObj (freeze_items (capability_section s)))"
  by (rule freezable_members) (auto simp: capability_section_def list_all_iff split: json.split intro!: freezable_obj)

lemma omission_counts_freeze: "frozen (JObj (freeze_items (omission_counts s self)))"
  by (rule freezable_members)
    (simp add: omission_counts_def pc_omission_def energy_omission_def st_omission_def workspace_omission_def branch_omission_def
      rd_omission_def a_omission_def omitted_actions_def world_omission_def layer_omission_def self_omission_def
      memory_omission_def capability_omission_def runtime_omission_def cognition_omission_def raw_omission_def
      working_set_report_def working_set_data_def counter_data_def Let_def world_layers_def)

lemma no_context_freezes: "frozen (JObj (freeze_items no_semantic_context))" "frozen (JObj (freeze_items no_capture_coverage))"
  by (rule freezable_members, simp add: no_semantic_context_def no_capture_coverage_def)+

section \<open>The budget\<close>

lemma retained_capacity: "valid_state s \<Longrightarrow> retained n s \<le> capacity n"
  using valid_state_counted [of s n] by (simp add: counted_def Let_def)

lemma visited_within_budget: "valid_state s \<Longrightarrow> projection_records_visited s \<le> FRAME_PROJECTION_RECORD_BUDGET"
proof -
  assume v: "valid_state s"
  note r = retained_capacity [OF v]
  have "length (ws_broadcast (bs_workspace s)) \<le> MAX_WORKSPACE_BROADCAST"
    using v by (simp add: valid_state_def valid_parts_def valid_workspace_def)
  with r [of WActions] r [of WEnergies] r [of WThoughts] r [of WMemories] r [of WReflections] r [of "WWorld Observed"]
    r [of "WWorld Believed"] r [of "WWorld Simulated"] r [of "WWorld Ideal"] r [of WActors] r [of WAuthorizations]
    r [of "WPersonality Traits"] r [of "WPersonality Adaptations"] r [of "WPersonality NarrativeIdeal"] r [of WRawKeys]
    r [of WCapabilities]
  show ?thesis
    by (simp add: projection_records_visited_def FRAME_PROJECTION_RECORD_BUDGET_def personality_total_def pc_layers_def
        world_layers_def)
qed

lemma find_filter: "find p xs = (case filter p xs of [] \<Rightarrow> None | x # ys \<Rightarrow> Some x)"
  by (induction xs) auto

lemma self_actor_found: "valid_identity i \<Longrightarrow> \<exists>a. lookup ac_actor_id (id_actors i) (id_self_actor_id i) = Some a \<and> ac_kind a = KSelf"
proof -
  assume "valid_identity i"
  then have b: "self_boundary i" by (simp add: valid_identity_def)
  then obtain a where a: "filter (\<lambda>a. ac_actor_id a = id_self_actor_id i) (id_actors i) = [a]"
    "filter (\<lambda>a. ac_kind a = KSelf) (id_actors i) = [a]"
    by (auto simp: self_boundary_def Let_def length_Suc_conv)
  then have "lookup ac_actor_id (id_actors i) (id_self_actor_id i) = Some a"
    by (simp add: lookup_def find_filter)
  moreover have "a \<in> set (filter (\<lambda>a. ac_kind a = KSelf) (id_actors i))" using a(2) by simp
  ultimately show ?thesis by simp
qed

text \<open>
  What the caller passes is honest: the counts are possible and the completeness is what the trace and the
  counts say. Without the arguments the trace has to be whole.
\<close>

definition honest_evidence :: "brain_state \<Rightarrow> bool option \<Rightarrow> frame_evidence option \<Rightarrow> bool" where
  "honest_evidence s aggregate evidence \<longleftrightarrow>
     (let e = (case evidence of None \<Rightarrow> no_evidence | Some e \<Rightarrow> e) in valid_evidence e \<and>
        (case aggregate of None \<Rightarrow> bs_trace_complete s | Some b \<Rightarrow> b) =
          (bs_trace_complete s \<and> fe_legacy_raw_only_records e = 0 \<and> fe_semantic_gap_records e = 0))"

lemma projection_exists:
  assumes "valid_state s" "0 \<le> through" "through \<le> MAX_CAPTURE_SEQUENCE"
    and "case coverage of None \<Rightarrow> True | Some c \<Rightarrow> frozen (JObj (freeze_items c))" "honest_evidence s aggregate evidence"
    and "sample \<in> {''running'', ''stopped'', ''not_sampled''}"
  shows "projection_records_visited s \<le> FRAME_PROJECTION_RECORD_BUDGET \<and>
    (\<exists>f. project_frame s through coverage aggregate evidence sample live = Inr f \<and> valid_frame f \<and>
      fr_state_sequence f = bs_last_sequence s \<and> fr_through_capture_seq f = through)"
proof -
  have i: "valid_identity (bs_identity s)" using assms(1) by (simp add: valid_state_def valid_parts_def)
  obtain self where self: "lookup ac_actor_id (id_actors (bs_identity s)) (id_self_actor_id (bs_identity s)) = Some self"
    using self_actor_found [OF i] by blast
  have "frozen (JObj (freeze_items (case coverage of None \<Rightarrow> no_capture_coverage | Some c \<Rightarrow> c)))"
    using assms(4) no_context_freezes(2) by (cases coverage) (simp_all del: frozen.simps)
  moreover have "is_uuid4 (bs_brain_id s)" "0 \<le> bs_last_sequence s" "is_f64 (bs_logical_clock s)" "0 \<le> bs_logical_clock s"
    "0 \<le> rt_tick_count (bs_runtime s)"
    using assms(1) by (simp_all add: valid_state_def state_shell_def valid_parts_def valid_runtime_def)
  ultimately have "valid_frame (build_frame s self through coverage aggregate evidence sample live)"
    using assms pc_section_freezes energy_section_freezes st_section_freezes rd_section_freezes a_section_freezes
      world_section_freezes self_section_freezes memory_section_freezes capability_section_freezes omission_counts_freeze
      no_context_freezes(1)
    by (simp add: valid_frame_def build_frame_def frame_sections_def valid_freshness_def honest_evidence_def Let_def
        del: frozen.simps)
  with self visited_within_budget [OF assms(1)] show ?thesis
    by (simp add: project_frame_def Let_def) (simp add: build_frame_def)
qed

text \<open>
  C34. The projection of a valid brain cannot fail: it never visits more records than its fixed budget, so the
  integrity error for that is dead code, the self actor is always there, and with an honest account of the
  evidence the frame passes its own validators. The premises are what its callers pass.
\<close>

theorem projection_total:
  assumes "valid_state s" "0 \<le> through" "through \<le> MAX_CAPTURE_SEQUENCE"
    and "case coverage of None \<Rightarrow> True | Some c \<Rightarrow> frozen (JObj (freeze_items c))" "honest_evidence s aggregate evidence"
    and "sample \<in> {''running'', ''stopped'', ''not_sampled''}"
  shows "projection_records_visited s \<le> FRAME_PROJECTION_RECORD_BUDGET \<and>
    (\<exists>f. project_frame s through coverage aggregate evidence sample live = Inr f \<and> valid_frame f \<and>
      fr_state_sequence f = bs_last_sequence s \<and> fr_through_capture_seq f = through)"
  by (rule projection_exists [OF assms])

lemma projection_total_witness:
  "\<exists>f. project_frame (brain_genesis sample_id) 0 None None None ''running'' True = Inr f \<and> valid_frame f"
proof -
  have v: "valid_state (brain_genesis sample_id)" using brain_genesis_valid [OF sample_id_uuid] .
  have h: "honest_evidence (brain_genesis sample_id) None None"
    by (simp add: honest_evidence_def no_evidence_def valid_evidence_def brain_genesis_def)
  show ?thesis
    using projection_total [OF v, of 0 None None None "''running''" True] h
    by (auto simp: MAX_CAPTURE_SEQUENCE_def MAX_BRIDGE_INTEGER_def)
qed

section \<open>What is left out\<close>

definition section_counts :: "consciousness_frame \<Rightarrow> string \<Rightarrow> (json \<times> json) option" where
  "section_counts f k = (case jget (fr_omission_counts f) k of
     JObj m \<Rightarrow> Some (jget m ''included'', jget m ''omitted'') | _ \<Rightarrow> None)"

text \<open>A count among the fields of a section.\<close>

definition field_counts :: "consciousness_frame \<Rightarrow> string \<Rightarrow> string \<Rightarrow> (json \<times> json) option" where
  "field_counts f k d = (case jget (fr_omission_counts f) k of
     JObj m \<Rightarrow> (case jget m ''fields'' of
       JObj fs \<Rightarrow> (case jget fs d of JObj n \<Rightarrow> Some (jget n ''included'', jget n ''omitted'') | _ \<Rightarrow> None)
     | _ \<Rightarrow> None)
   | _ \<Rightarrow> None)"

text \<open>Of \<open>kept\<close> records and \<open>evicted\<close> ones, at most \<open>limit\<close> are shown.\<close>

definition shown_of :: "nat \<Rightarrow> nat \<Rightarrow> int \<Rightarrow> (json \<times> json) option" where
  "shown_of limit kept evicted = Some (JInt (int (min limit kept)), JInt (int (kept - limit) + evicted))"

lemma jget_omission: "jget (omission n w ds) ''included'' = JInt (int n)" "jget (omission n w ds) ''omitted'' = JInt (w - int n)"
  by (simp_all add: omission_def tally_def jget_def jget_or_def)

lemma jget_tally: "jget (tally i n @ ds) ''included'' = JInt i" "jget (tally i n @ ds) ''omitted'' = JInt n"
  by (simp_all add: tally_def jget_def jget_or_def)

lemma section_counts_frozen:
  "fr_omission_counts f = freeze_items ms \<Longrightarrow> jget ms k = JObj m \<Longrightarrow>
   section_counts f k = Some (freeze (jget m ''included''), freeze (jget m ''omitted''))"
  by (simp add: section_counts_def jget_frozen_items)

lemma section_counts_omission:
  assumes "fr_omission_counts f = freeze_items ms" "jget ms k = JObj (omission (min l n) w ds)" "w = int n + e"
  shows "section_counts f k = shown_of l n e"
  using section_counts_frozen [OF assms(1,2)] assms(3) by (auto simp: jget_omission shown_of_def min_def)

lemma field_counts_frozen:
  "fr_omission_counts f = freeze_items ms \<Longrightarrow> jget ms k = JObj m \<Longrightarrow> jget m ''fields'' = JObj fs \<Longrightarrow> jget fs d = omits n \<Longrightarrow>
   field_counts f k d = Some (JInt 0, JInt n)"
  by (simp add: field_counts_def jget_frozen_items omits_def) (simp add: tally_def jget_def jget_or_def)

lemma ws_total_split: "valid_state s \<Longrightarrow> ws_total s n = int (retained n s) + ws_evicted s n"
  using valid_state_counted [of s n] by (simp add: counted_def Let_def ws_total_def ws_evicted_def)

lemma omission_entries:
  "jget (omission_counts s self) ''energy'' = JObj (energy_omission s)"
  "jget (omission_counts s self) ''rd'' = JObj (rd_omission s)"
  "jget (omission_counts s self) ''a'' = JObj (a_omission s)"
  "jget (omission_counts s self) ''memory'' = JObj (memory_omission s)"
  "jget (omission_counts s self) ''capabilities'' = JObj (capability_omission s)"
  "jget (omission_counts s self) ''self_boundary'' = JObj (self_omission s self)"
  "jget (omission_counts s self) ''raw_lifecycle_counts'' = JObj (raw_omission s)"
  "jget (omission_counts s self) ''pc'' = JObj (pc_omission s)"
  "jget (omission_counts s self) ''st'' = JObj (st_omission s)"
  "jget (omission_counts s self) ''world'' = JObj (world_omission s)"
  "jget (omission_counts s self) ''cognition'' = JObj (cognition_omission s)"
  by (simp_all add: omission_counts_def jget_def jget_or_def)

lemma item_lengths:
  "length (energy_items s) = min frame_limit (retained WEnergies s)"
  "length (memory_items s) = min frame_limit (retained WMemories s)"
  "length (action_items s) = min frame_limit (retained WActions s)"
  "length (branch_items s) = min frame_limit (retained WThoughts s)"
  "length (layer_items s l) = min frame_limit (retained (WWorld l) s)"
  "length (capability_items s) = min frame_limit (retained WCapabilities s)"
  "length (workspace_items s) = min frame_limit (length (ws_broadcast (bs_workspace s)))"
  by (simp_all add: energy_items_def energy_ordered_def memory_items_def memory_ordered_def action_items_def branch_items_def
      layer_items_def capability_items_def workspace_items_def min.commute)

text \<open>
  C35. A frame accounts for what it leaves out, for every kind of record the working set counts. Of energies, actions
  (twice), memories, capabilities, other actors, personality values and world propositions of each layer, broadcast
  candidates and thoughts, the omission counts of the frame say that at most four were shown and exactly how many were
  not, the evicted ones included; of raw lifecycle keys, reflections and authorizations, that none was shown and how
  many there ever were, and how many reflections were evicted. So shown and omitted together are all there ever were.
\<close>

theorem frame_accounts:
  assumes "valid_state s" "project_frame s through coverage aggregate evidence sample live = Inr f"
  shows "section_counts f ''energy'' = shown_of 4 (length (bs_energy_records s)) (ws_evicted s WEnergies) \<and>
    section_counts f ''rd'' = shown_of 4 (length (bs_action_records s)) (ws_evicted s WActions) \<and>
    section_counts f ''a'' = section_counts f ''rd'' \<and>
    section_counts f ''memory'' = shown_of 4 (length (bs_memories s)) (ws_evicted s WMemories) \<and>
    section_counts f ''capabilities'' = shown_of 4 (length (bs_capabilities s)) 0 \<and>
    section_counts f ''self_boundary'' = shown_of 4 (length (other_actors s)) 0 \<and>
    section_counts f ''raw_lifecycle_counts'' = shown_of 0 (length (bs_raw_lifecycle_counts s)) (ws_evicted s WRawKeys) \<and>
    section_counts f ''pc'' = Some (JInt (sum_list (map (\<lambda>l. int (min 4 (retained (WPersonality l) s))) pc_layers)),
      JInt (sum_list (map (\<lambda>l. int (retained (WPersonality l) s - 4)) pc_layers))) \<and>
    section_counts f ''st'' = Some (JInt (int (min 4 (length (ws_broadcast (bs_workspace s))) + min 4 (length (bs_thought_space s)))),
      JInt (int (length (ws_broadcast (bs_workspace s)) - 4 + (length (bs_thought_space s) - 4)) + ws_evicted s WThoughts)) \<and>
    section_counts f ''world'' = Some (JInt (sum_list (map (\<lambda>l. int (min 4 (retained (WWorld l) s))) world_layers)),
      JInt (sum_list (map (\<lambda>l. int (retained (WWorld l) s - 4) + ws_evicted s (WWorld l)) world_layers))) \<and>
    field_counts f ''cognition'' ''reflection_records'' =
      shown_of 0 (length (cg_reflections (bs_cognition s))) (ws_evicted s WReflections) \<and>
    field_counts f ''cognition'' ''evicted_reflection_details'' = shown_of 0 0 (ws_evicted s WReflections) \<and>
    field_counts f ''self_boundary'' ''authorization_records'' = shown_of 0 (length (id_authorizations (bs_identity s))) 0"
proof -
  obtain self where self: "fr_omission_counts f = freeze_items (omission_counts s self)"
    using assms(2) by (auto simp: project_frame_def Let_def build_frame_def split: if_splits option.splits)
  note c = section_counts_omission [OF self] section_counts_frozen [OF self] and e = omission_entries [of s self]
  note t = ws_total_split [OF assms(1)] and l = item_lengths [of s] frame_limit_def
  have "section_counts f ''energy'' = shown_of 4 (length (bs_energy_records s)) (ws_evicted s WEnergies)"
    by (rule c(1)) (auto simp: e energy_omission_def l t Let_def)
  moreover have "section_counts f ''rd'' = shown_of 4 (length (bs_action_records s)) (ws_evicted s WActions)"
    by (rule c(1)) (auto simp: e rd_omission_def l t Let_def)
  moreover have "section_counts f ''a'' = shown_of 4 (length (bs_action_records s)) (ws_evicted s WActions)"
    by (rule c(1)) (auto simp: e a_omission_def l t Let_def)
  moreover have "section_counts f ''memory'' = shown_of 4 (length (bs_memories s)) (ws_evicted s WMemories)"
    by (rule c(1)) (auto simp: e memory_omission_def l t)
  moreover have "section_counts f ''capabilities'' = shown_of 4 (length (bs_capabilities s)) 0"
    by (rule c(1)) (auto simp: e capability_omission_def l)
  moreover have "section_counts f ''self_boundary'' = shown_of 4 (length (other_actors s)) 0"
    by (rule c(1)) (auto simp: e self_omission_def l Let_def)
  moreover have "section_counts f ''raw_lifecycle_counts'' = shown_of 0 (length (bs_raw_lifecycle_counts s)) (ws_evicted s WRawKeys)"
    by (rule c(1)) (auto simp: e raw_omission_def t)
  moreover have "section_counts f ''pc'' = Some (JInt (sum_list (map (\<lambda>l. int (min 4 (retained (WPersonality l) s))) pc_layers)),
      JInt (sum_list (map (\<lambda>l. int (retained (WPersonality l) s - 4)) pc_layers)))"
    using c(2) [OF e(8)]
    by (simp add: pc_omission_def jget_omission personality_included_def personality_total_def pc_layers_def frame_limit_def)
  moreover have "section_counts f ''st'' = Some (JInt (int (min 4 (length (ws_broadcast (bs_workspace s))) + min 4 (length (bs_thought_space s)))),
      JInt (int (length (ws_broadcast (bs_workspace s)) - 4 + (length (bs_thought_space s) - 4)) + ws_evicted s WThoughts))"
    using c(2) [OF e(9)] by (simp add: st_omission_def Let_def jget_tally l t)
  moreover have "section_counts f ''world'' = Some (JInt (sum_list (map (\<lambda>l. int (min 4 (retained (WWorld l) s))) world_layers)),
      JInt (sum_list (map (\<lambda>l. int (retained (WWorld l) s - 4) + ws_evicted s (WWorld l)) world_layers)))"
    using c(2) [OF e(10)] by (simp add: world_omission_def Let_def jget_tally l t world_layers_def)
  moreover have "jget (cognition_omission s) ''fields'' = JObj [(''state_json_nodes'', omits (json_nodes (cognition_data (bs_cognition s)))),
      (''reflection_records'', omits (ws_total s WReflections)), (''evicted_reflection_details'', omits (ws_evicted s WReflections))]"
    by (simp add: cognition_omission_def tally_def jget_def jget_or_def)
  note g = field_counts_frozen [OF self e(11) this]
  have "field_counts f ''cognition'' ''reflection_records'' =
      shown_of 0 (length (cg_reflections (bs_cognition s))) (ws_evicted s WReflections)"
    "field_counts f ''cognition'' ''evicted_reflection_details'' = shown_of 0 0 (ws_evicted s WReflections)"
    using g [of "''reflection_records''" "ws_total s WReflections"] g [of "''evicted_reflection_details''" "ws_evicted s WReflections"]
      t [of WReflections] by (simp_all add: jget_def jget_or_def shown_of_def)
  moreover have "\<exists>fs. jget (self_omission s self) ''fields'' = JObj fs \<and>
      jget fs ''authorization_records'' = omits (int (length (id_authorizations (bs_identity s))))"
    by (simp add: self_omission_def Let_def omission_def tally_def jget_def jget_or_def)
  then have "field_counts f ''self_boundary'' ''authorization_records'' = shown_of 0 (length (id_authorizations (bs_identity s))) 0"
    using field_counts_frozen [OF self e(6)] by (auto simp: shown_of_def)
  ultimately show ?thesis by (simp only:)
qed

lemma frame_accounts_witness:
  "\<exists>f. project_frame worn_brain 0 None None None ''running'' True = Inr f \<and>
     section_counts f ''rd'' = Some (JInt 1, JInt 2) \<and> section_counts f ''self_boundary'' = Some (JInt 0, JInt 0) \<and>
     field_counts f ''cognition'' ''reflection_records'' = Some (JInt 0, JInt 5)"
proof -
  have v: "valid_state worn_brain" by (rule brain_ok_valid [OF worn_ok])
  have "honest_evidence worn_brain None None"
    by (simp add: honest_evidence_def no_evidence_def valid_evidence_def worn_brain_def brain_genesis_def)
  with projection_exists [OF v, of 0 None None None "''running''" True]
  obtain f where f: "project_frame worn_brain 0 None None None ''running'' True = Inr f"
    by (auto simp: MAX_CAPTURE_SEQUENCE_def MAX_BRIDGE_INTEGER_def)
  have "length (bs_action_records worn_brain) = 1" "other_actors worn_brain = []" "ws_evicted worn_brain WActions = 2"
    "ws_evicted worn_brain WReflections = 5" "length (cg_reflections (bs_cognition worn_brain)) = 0"
    by (simp_all add: worn_brain_def brain_genesis_def other_actors_def identity_genesis_def ws_evicted_def worn_counter_def
      empty_cognition_def)
  with f frame_accounts [OF v f] show ?thesis by (auto simp: shown_of_def)
qed

end
