(* ===== verification/Records.thy ===== *)
theory Records imports Streams Projection
begin

text \<open>
  The acknowledged records of a bridge stream in \<^verbatim>\<open>runtime/store.py\<close>: the acknowledgement, which a repeated
  record gets again; the check of the last two records of a stream; attaching to a stream; the semantic health
  of a brain and the live frame. Library code is \<open>bridge_reader\<close>: pydantic's JSON reader for a record and for an
  acknowledgement, whose validators are the model's own.
\<close>

section \<open>The acknowledgement\<close>

record bridge_ack =
  ba_record_fingerprint :: string
  ba_raw_event_id :: string
  ba_raw_event_sequence :: int
  ba_derived_event_ids :: "string list"
  ba_derived_event_count :: int
  ba_last_event_sequence :: int
  ba_semantic_status :: semantic_status
  ba_semantic_complete :: bool
  ba_semantic_fingerprint :: string
  ba_frame :: consciousness_frame
  ba_through_capture_seq :: int

definition semantic_batch_ok :: "bridge_ack \<Rightarrow> bool" where
  "semantic_batch_ok a \<longleftrightarrow> ba_derived_event_count a = int (length (ba_derived_event_ids a)) \<and>
     ba_raw_event_id a \<notin> set (ba_derived_event_ids a) \<and>
     ba_last_event_sequence a = ba_raw_event_sequence a + ba_derived_event_count a \<and>
     ba_semantic_complete a = (ba_semantic_status a \<in> {Applied, NotApplicable}) \<and>
     \<not> (ba_semantic_status a = Applied \<and> ba_derived_event_count a = 0) \<and>
     \<not> (ba_semantic_status a \<in> {NotApplicable, LegacyRawOnly} \<and> ba_derived_event_count a \<noteq> 0) \<and>
     \<not> (ba_semantic_status a = SemanticGap \<and> ba_derived_event_count a \<notin> {0, 1}) \<and>
     fr_state_sequence (ba_frame a) = ba_last_event_sequence a \<and>
     fh_projected_at_state_sequence (fr_freshness (ba_frame a)) = ba_last_event_sequence a \<and>
     fr_through_capture_seq (ba_frame a) = ba_through_capture_seq a"

definition valid_ack :: "bridge_ack \<Rightarrow> bool" where
  "valid_ack a \<longleftrightarrow> is_sha256 (ba_record_fingerprint a) \<and> is_uuid4 (ba_raw_event_id a) \<and> 1 \<le> ba_raw_event_sequence a \<and>
     length (ba_derived_event_ids a) \<le> 8 \<and> list_all is_uuid4 (ba_derived_event_ids a) \<and> distinct (ba_derived_event_ids a) \<and>
     0 \<le> ba_derived_event_count a \<and> ba_derived_event_count a \<le> 8 \<and> 1 \<le> ba_last_event_sequence a \<and>
     is_sha256 (ba_semantic_fingerprint a) \<and> valid_frame (ba_frame a) \<and> capture_number (ba_through_capture_seq a) \<and>
     semantic_batch_ok a"

definition ack_data :: "bridge_ack \<Rightarrow> json" where
  "ack_data a = JObj [(''derived_event_count'', JInt (ba_derived_event_count a)),
     (''derived_event_ids'', strs (ba_derived_event_ids a)), (''duplicate'', JBool False), (''frame'', frame_data (ba_frame a)),
     (''last_event_sequence'', JInt (ba_last_event_sequence a)), (''raw_event_id'', JStr (ba_raw_event_id a)),
     (''raw_event_sequence'', JInt (ba_raw_event_sequence a)), (''record_fingerprint'', JStr (ba_record_fingerprint a)),
     (''schema_version'', JInt 2), (''semantic_complete'', JBool (ba_semantic_complete a)),
     (''semantic_fingerprint'', JStr (ba_semantic_fingerprint a)),
     (''semantic_status'', JStr (semantic_status_text (ba_semantic_status a))),
     (''through_capture_seq'', JInt (ba_through_capture_seq a))]"

definition ack_text :: "bridge_ack \<Rightarrow> string" where
  "ack_text a = canonical_json (ack_data a)"

definition mk_ack :: "bridge_ack \<Rightarrow> bridge_ack res" where
  "mk_ack a = (if valid_ack a then Inr a else Inl (ValidationError ''BridgeCommitAckV2''))"

definition enforce_ack_limit :: "string \<Rightarrow> int \<Rightarrow> unit res" where
  "enforce_ack_limit text max_ack_bytes =
     (if max_ack_bytes < 1 then Inl (PyValueError ''max_ack_bytes must be positive'')
      else if int (length (utf8 text)) > max_ack_bytes then
        Inl (ResponseSizeError ''bridge acknowledgement exceeds the negotiated result budget'')
      else Inr ())"

record bridge_reader =
  bt_parse_record :: "string \<Rightarrow> bridge_record option"
  bt_parse_ack :: "string \<Rightarrow> bridge_ack option"

definition validate_bridge_record_json :: "bridge_reader \<Rightarrow> string \<Rightarrow> bridge_record res" where
  "validate_bridge_record_json R t =
     rbind (of_option (ValidationError ''BridgeRecordV1'') (bt_parse_record R t)) normalize_bridge_record"

definition validate_ack_json :: "bridge_reader \<Rightarrow> string \<Rightarrow> bridge_ack res" where
  "validate_ack_json R t = rbind (of_option (ValidationError ''BridgeCommitAckV2'') (bt_parse_ack R t)) mk_ack"

section \<open>Repeated records\<close>

definition record_capture_coverage :: "bridge_record \<Rightarrow> jobj" where
  "record_capture_coverage record = (case record of
     Observation r \<Rightarrow> (case coverage_data (ho_coverage r) of JObj m \<Rightarrow> m | _ \<Rightarrow> [])
   | Gap r \<Rightarrow> [(''policy_version'', JStr ''bridge-gap-v1''), (''capture_coverage'', JStr ''partial''),
       (''redacted_paths'', JInt 0), (''truncated_paths'', JInt 0), (''unsupported_paths'', JInt 0), (''omitted_nodes'', JInt 0),
       (''channels'', JObj [(''dropped_records'', JInt (bg_dropped_count r)), (''omitted_nodes_known'', JBool False),
          (''trace'', JStr ''gap'')])])"

definition raw_bridge_event_matches :: "event_envelope \<Rightarrow> bridge_record \<Rightarrow> bool" where
  "raw_bridge_event_matches e record = (case record of
     Observation r \<Rightarrow> ev_event_type e = HOOK_EVENT_TYPES (ho_hook r) \<and>
       json_eq (JObj (ev_payload e)) (freeze (JObj (observation_data r))) \<and> ev_wall_time e = ho_captured_at r \<and>
       ev_monotonic_ns e = ho_captured_monotonic_ns r \<and> ev_session_id e = context_get (ho_context r) ''session_id'' \<and>
       ev_turn_id e = context_get (ho_context r) ''turn_id'' \<and>
       ev_correlation_id e = context_get (ho_context r) ''api_request_id''
   | Gap r \<Rightarrow> ev_event_type e = ''trace.gap'' \<and>
       json_eq (JObj (ev_payload e)) (freeze (JObj (gap_data r @ [(''exact'', JBool True), (''trace_complete'', JBool False)]))))"

fun is_gap :: "bridge_record \<Rightarrow> bool" where
  "is_gap (Gap _) = True"
| "is_gap (Observation _) = False"

definition row_matches_ack :: "bridge_record_row \<Rightarrow> bridge_ack \<Rightarrow> bool" where
  "row_matches_ack row ack \<longleftrightarrow> (let raw = bd_ledger_sequence row; n = bd_derived_event_count row in
     ack_text ack = bd_ack_json row \<and> bd_semantic_status row = ba_semantic_status ack \<and>
     bd_semantic_complete row = ba_semantic_complete ack \<and> bd_semantic_fingerprint row = ba_semantic_fingerprint ack \<and>
     n = ba_derived_event_count ack \<and>
     \<not> (n = 0 \<and> (bd_derived_first_sequence row \<noteq> None \<or> bd_derived_last_sequence row \<noteq> None)) \<and>
     \<not> (n > 0 \<and> (bd_derived_first_sequence row \<noteq> Some (raw + 1) \<or> bd_derived_last_sequence row \<noteq> Some (raw + n))))"

definition batch_matches :: "bridge_stream \<Rightarrow> bridge_record_row \<Rightarrow> bridge_record \<Rightarrow> bridge_ack \<Rightarrow> event_envelope list \<Rightarrow> bool" where
  "batch_matches stream row persisted ack events = (case events of [] \<Rightarrow> False | raw # derived \<Rightarrow>
     ev_event_id raw = bd_event_id row \<and> ev_event_id raw = ba_raw_event_id ack \<and>
     ev_sequence raw = Some (bd_ledger_sequence row) \<and> ba_raw_event_sequence ack = bd_ledger_sequence row \<and>
     ba_last_event_sequence ack = bd_ledger_sequence row + bd_derived_event_count row \<and>
     map ev_event_id derived = ba_derived_event_ids ack \<and>
     (ba_semantic_status ack = SemanticGap \<longrightarrow>
        (if is_gap persisted then derived = [] else map ev_event_type derived = [''semantic.gap''])) \<and>
     list_all (\<lambda>e. ev_brain_id e = sm_brain_id stream \<and> ev_actor_id e = sm_server_actor_id stream \<and>
       ev_adapter_id e = Some (sm_server_adapter_id stream)) events \<and>
     raw_bridge_event_matches raw persisted)"

definition frame_bound :: "bridge_stream \<Rightarrow> bridge_record_row \<Rightarrow> bridge_record \<Rightarrow> bridge_ack \<Rightarrow> bool" where
  "frame_bound stream row persisted ack \<longleftrightarrow> fr_brain_id (ba_frame ack) = sm_brain_id stream \<and>
     fr_state_sequence (ba_frame ack) = bd_ledger_sequence row + bd_derived_event_count row \<and>
     fr_through_capture_seq (ba_frame ack) = last_capture_seq persisted \<and>
     json_eq (JObj (fr_capture_coverage (ba_frame ack))) (freeze (JObj (record_capture_coverage persisted)))"

definition persisted_record :: "bridge_reader \<Rightarrow> bridge_record_row \<Rightarrow> (bridge_record \<times> bridge_ack) res" where
  "persisted_record R row = (case rbind (validate_bridge_record_json R (bd_record_json row)) (\<lambda>persisted.
       rbind (validate_ack_json R (bd_ack_json row)) (\<lambda>ack. Inr (persisted, ack))) of
     Inl _ \<Rightarrow> Inl (LedgerIntegrityError ''persisted semantic bridge record or acknowledgement is invalid'')
   | Inr x \<Rightarrow> Inr x)"

text \<open>Without the historical state the startup audit passes.\<close>

definition decode_duplicate_bridge_record ::
  "platform \<Rightarrow> bridge_reader \<Rightarrow> database \<Rightarrow> bridge_record_row \<Rightarrow> bridge_record \<Rightarrow> bridge_ack res" where
  "decode_duplicate_bridge_record P R L row requested =
     (if bd_record_fingerprint row \<noteq> record_fingerprint requested \<or> bd_record_json row \<noteq> record_text requested then
        Inl (IdempotencyConflictError ''bridge idempotency key has a different immutable body'')
      else if bd_bridge_instance_id row \<noteq> record_instance requested \<or> bd_first_capture_seq row \<noteq> first_capture_seq requested \<or>
        bd_last_capture_seq row \<noteq> last_capture_seq requested \<or> bd_is_gap row \<noteq> is_gap requested then
        Inl (LedgerIntegrityError ''persisted bridge record keys do not match its canonical body'')
      else rbind (persisted_record R row) (\<lambda>(persisted, ack).
        if persisted \<noteq> requested \<or> record_text persisted \<noteq> bd_record_json row \<or> \<not> row_matches_ack row ack then
          Inl (LedgerIntegrityError ''persisted semantic bridge canonical data does not match'')
        else rbind (read_stream L (record_instance requested)) (\<lambda>stream.
          if bd_accepted_at row > sm_last_seen stream \<or> sm_next_capture_seq stream \<le> last_capture_seq requested then
            Inl (LedgerIntegrityError ''persisted semantic bridge cursor or acceptance is invalid'')
          else let rows = sort_key row_sequence (filter (\<lambda>r. row_brain_id r = sm_brain_id stream \<and>
                 bd_ledger_sequence row \<le> row_sequence r \<and>
                 row_sequence r \<le> bd_ledger_sequence row + bd_derived_event_count row) (db_events L))
               in if int (length rows) \<noteq> bd_derived_event_count row + 1 then
                    Inl (LedgerIntegrityError ''semantic bridge batch events are missing'')
                  else rbind (rmap (decode_event P) rows) (\<lambda>events.
                    if \<not> batch_matches stream row persisted ack events then
                      Inl (LedgerIntegrityError ''persisted semantic bridge events do not match their record'')
                    else if \<not> frame_bound stream row persisted ack then
                      Inl (LedgerIntegrityError ''persisted semantic acknowledgement frame is not bound'')
                    else Inr ack))))"

definition decode_tail_row :: "platform \<Rightarrow> bridge_reader \<Rightarrow> database \<Rightarrow> bridge_record_row \<Rightarrow> bridge_record res" where
  "decode_tail_row P R L row = (case validate_bridge_record_json R (bd_record_json row) of
     Inl _ \<Rightarrow> Inl (LedgerIntegrityError ''persisted bridge tail record is invalid'')
   | Inr record \<Rightarrow> rbind (decode_duplicate_bridge_record P R L row record) (\<lambda>_. Inr record))"

definition stream_records :: "database \<Rightarrow> string \<Rightarrow> bridge_record_row list" where
  "stream_records L i = filter (\<lambda>r. bd_bridge_instance_id r = i) (db_bridge_records L)"

definition validate_bridge_tail :: "platform \<Rightarrow> bridge_reader \<Rightarrow> database \<Rightarrow> bridge_stream \<Rightarrow> bridge_record option res" where
  "validate_bridge_tail P R L stream =
     (let rows = take 2 (sort_key (\<lambda>r. - bd_first_capture_seq r) (stream_records L (sm_bridge_instance_id stream))) in
      if rows = [] then
        (if sm_next_capture_seq stream \<noteq> 1 then
           Inl (LedgerIntegrityError ''persisted bridge cursor has no authoritative tail record'')
         else Inr None)
      else rbind (rmap (decode_tail_row P R L) rows) (\<lambda>decoded.
        let latest = hd decoded in
        if last_capture_seq latest + 1 \<noteq> sm_next_capture_seq stream then
          Inl (LedgerIntegrityError ''persisted bridge cursor does not match its tail record'')
        else if length decoded = 1 then
          (if first_capture_seq latest \<noteq> 1 then
             Inl (LedgerIntegrityError ''persisted bridge tail does not start at capture one'')
           else Inr (Some latest))
        else if last_capture_seq (decoded ! 1) + 1 \<noteq> first_capture_seq latest then
          Inl (LedgerIntegrityError ''persisted bridge tail intervals are not contiguous'')
        else if bd_ledger_sequence (rows ! 1) \<ge> bd_ledger_sequence (rows ! 0) then
          Inl (LedgerIntegrityError ''persisted bridge event order is not strictly increasing'')
        else Inr (Some latest)))"

section \<open>Attaching\<close>

definition attach_bridge_stream ::
  "platform \<Rightarrow> bridge_reader \<Rightarrow> string \<Rightarrow> string \<Rightarrow> string \<Rightarrow> string \<Rightarrow> string \<Rightarrow> string \<Rightarrow> int \<Rightarrow> database \<Rightarrow>
    (bridge_stream \<times> database) res" where
  "attach_bridge_stream P R i brain_id actor adapter nonce token now L =
     rbind (validate_id i) (\<lambda>i. rbind (validate_id brain_id) (\<lambda>brain_id. rbind (validate_id actor) (\<lambda>actor.
     rbind (bounded_text ''server_adapter_id'' adapter) (\<lambda>_. rbind (bounded_text ''connected_nonce'' nonce) (\<lambda>_.
     rbind (bridge_recovery_token_digest token) (\<lambda>digest.
     if db_brains L brain_id = None then Inl (BridgeBindingError ''bridge brain does not exist'')
     else rbind (case find_stream L i of
         None \<Rightarrow> Inr (L\<lparr>db_streams := db_streams L @ [\<lparr>sm_bridge_instance_id = i, sm_brain_id = brain_id,
           sm_server_actor_id = actor, sm_server_adapter_id = adapter, sm_next_capture_seq = 1, sm_status = StreamOpen,
           sm_connected_nonce = Some nonce, sm_disconnected_reason = None, sm_disconnected_at = None,
           sm_last_seen = bridge_timestamp now None, sm_closed_final_seq = None, br_recovery_token_digest = digest\<rparr>]\<rparr>)
       | Some row \<Rightarrow> rbind (stream_from_row row) (\<lambda>stream. rbind (validate_recovery_digest row) (\<lambda>persisted.
           rbind (validate_bridge_tail P R L stream) (\<lambda>_.
           if \<not> provenance_matches stream brain_id actor adapter \<or> persisted \<noteq> digest then
             Inl (BridgeBindingError ''bridge stream provenance does not match its binding'')
           else if sm_status stream = CleanClosed then
             Inl (BridgeCleanClosedError ''clean-closed bridge stream is not resumable'')
           else if sm_status stream = Abandoned then
             Inl (BridgeAbandonedError ''abandoned bridge stream is not resumable'')
           else if sm_connected_nonce stream \<notin> {None, Some nonce} then
             Inl (BridgeBindingError ''bridge stream is attached to another live connection'')
           else Inr (snd (update_streams (\<lambda>r. sm_bridge_instance_id r = i) (\<lambda>r. r\<lparr>sm_connected_nonce := Some nonce,
             sm_disconnected_reason := None, sm_disconnected_at := None,
             sm_last_seen := bridge_timestamp now (Some (sm_last_seen stream))\<rparr>) L))))))
       (\<lambda>L. rbind (read_stream L i) (\<lambda>s. Inr (s, L)))))))))"

section \<open>Semantic health\<close>

definition dropped_count :: "bridge_record \<Rightarrow> int" where
  "dropped_count record = (case record of Gap r \<Rightarrow> bg_dropped_count r | Observation _ \<Rightarrow> 0)"

definition record_semantic_observability :: "string \<Rightarrow> bridge_record \<Rightarrow> semantic_plan \<Rightarrow> database \<Rightarrow> database res" where
  "record_semantic_observability b record plan L =
     (let gap = (if pl_semantic_status plan = SemanticGap then 1 else 0) in
      rbind (observability_row L b) (\<lambda>row.
      rbind (checked_add (ob_dropped_events row) (dropped_count record) ''dropped_events'') (\<lambda>dropped.
      rbind (checked_add (ob_semantic_records row) 1 ''semantic_records'') (\<lambda>records.
      rbind (checked_add (ob_semantic_gap_records row) gap ''semantic_gap_records'') (\<lambda>gaps.
      Inr (L\<lparr>db_observability := (db_observability L)(b \<mapsto> row\<lparr>ob_trace_complete := ob_trace_complete row \<and> gap = 0,
        ob_semantic_complete := ob_semantic_complete row \<and> pl_semantic_complete plan, ob_dropped_events := dropped,
        ob_semantic_records := records, ob_semantic_gap_records := gaps\<rparr>)\<rparr>))))))"

definition evidence_of :: "observability_row \<Rightarrow> frame_evidence" where
  "evidence_of row = \<lparr>fe_semantic_records = ob_semantic_records row,
     fe_legacy_raw_only_records = ob_legacy_raw_only_records row,
     fe_semantic_gap_records = ob_semantic_gap_records row, fe_dropped_events = ob_dropped_events row\<rparr>"

definition semantic_frame_evidence ::
  "database \<Rightarrow> string \<Rightarrow> (bridge_record \<times> semantic_plan) option \<Rightarrow> (bool \<times> frame_evidence) res" where
  "semantic_frame_evidence L b pending = rbind (observability_row L b) (\<lambda>row.
     let values = evidence_of row; complete = (ob_trace_complete row \<and> ob_semantic_complete row) in
     case pending of
       None \<Rightarrow> Inr (complete, values)
     | Some (record, plan) \<Rightarrow>
         rbind (checked_add (fe_semantic_records values) 1 ''semantic_records'') (\<lambda>records.
         rbind (checked_add (fe_legacy_raw_only_records values)
           (if pl_semantic_status plan = LegacyRawOnly then 1 else 0) ''legacy_raw_only_records'') (\<lambda>legacy.
         rbind (checked_add (fe_semantic_gap_records values)
           (if pl_semantic_status plan = SemanticGap then 1 else 0) ''semantic_gap_records'') (\<lambda>gaps.
         rbind (if is_gap record then checked_add (fe_dropped_events values) (dropped_count record) ''dropped_events''
           else Inr (fe_dropped_events values)) (\<lambda>dropped.
         Inr (complete \<and> pl_semantic_complete plan,
           \<lparr>fe_semantic_records = records, fe_legacy_raw_only_records = legacy, fe_semantic_gap_records = gaps,
            fe_dropped_events = dropped\<rparr>))))))"

section \<open>The live frame\<close>

definition project_bridge_frame ::
  "platform \<Rightarrow> bridge_reader \<Rightarrow> string \<Rightarrow> brain_state \<Rightarrow> string option \<Rightarrow> string \<Rightarrow> int \<Rightarrow> database \<Rightarrow> consciousness_frame res" where
  "project_bridge_frame P R i expected_state nonce scheduler_sample max_frame_bytes L =
     rbind (validate_id i) (\<lambda>i. rbind (state_revalidated expected_state) (\<lambda>state.
     if scheduler_sample \<notin> {''running'', ''stopped''} then
       Inl (PyValueError ''scheduler_sample must be running or stopped'')
     else rbind (read_stream L i) (\<lambda>stream.
       if sm_brain_id stream \<noteq> bs_brain_id state then
         Inl (BridgeBindingError ''bridge stream brain does not match projected state'')
       else if nonce \<noteq> None \<and> sm_connected_nonce stream \<noteq> nonce then
         Inl (BridgeBindingError ''bridge stream is attached to another connection'')
       else rbind (authoritative_head L (sm_brain_id stream)) (\<lambda>head.
         if head \<noteq> Some (bs_last_sequence state) then
           Inl (LedgerIntegrityError ''projected engine state does not match authoritative head'')
         else rbind (validate_bridge_tail P R L stream) (\<lambda>latest.
           rbind (semantic_frame_evidence L (sm_brain_id stream) None) (\<lambda>(complete, evidence).
           rbind (project_frame state (sm_next_capture_seq stream - 1) (map_option record_capture_coverage latest)
             (Some complete) (Some evidence) scheduler_sample (sm_connected_nonce stream \<noteq> None)) (\<lambda>f.
           rbind (enforce_frame_limit f max_frame_bytes) (\<lambda>_. Inr f))))))))"

end
