(* ===== verification/Bridge.thy ===== *)
theory Bridge imports Records
begin

text \<open>
  \<open>commit_bridge_record\<close> and \<open>abandon_bridge_stream\<close> of \<^verbatim>\<open>runtime/store.py\<close>, each one transaction, and the
  engine's wrappers of \<^verbatim>\<open>runtime/engine.py\<close>. The stamp is what \<open>new_event\<close> generates; \<open>now\<close> is the clock reading
  of the transaction.
\<close>

section \<open>Committing a record\<close>

definition bridge_head :: "database \<Rightarrow> brain_state \<Rightarrow> string \<Rightarrow> string \<Rightarrow> unit res" where
  "bridge_head L state b lost = (let n = bs_last_sequence state + 1 in
     if db_brains L b \<noteq> Some n \<or> ledger_head L b \<noteq> bs_last_sequence state then Inl (ExpectedSequenceError lost) else Inr ())"

text \<open>Every event is revalidated with its sequence before the first is reduced.\<close>

definition sequence_and_reduce ::
  "brain_state \<Rightarrow> event_envelope \<Rightarrow> semantic_plan \<Rightarrow> (event_envelope list \<times> brain_state) res" where
  "sequence_and_reduce state raw_event plan =
     rbind (rmap event_revalidated (numbered_events (bs_last_sequence state) (raw_event # pl_derived_events plan))) (\<lambda>ps.
     rbind (reduce_many state ps) (\<lambda>t. Inr (ps, t)))"

definition planned_batch ::
  "bridge_stream \<Rightarrow> bridge_record \<Rightarrow> event_envelope \<Rightarrow> hermes_span option \<Rightarrow> string option \<Rightarrow> brain_state \<Rightarrow>
    (semantic_plan \<times> event_envelope list \<times> brain_state) res" where
  "planned_batch stream record raw_event matched forced state =
     rbind (build_semantic_plan stream record raw_event matched forced) (\<lambda>plan.
     case sequence_and_reduce state raw_event plan of
       Inr (ps, t) \<Rightarrow> Inr (plan, ps, t)
     | Inl (DomainCapacityError m) \<Rightarrow>
         if pl_semantic_status plan \<noteq> Applied then Inl (DomainCapacityError m)
         else rbind (build_semantic_plan stream record raw_event matched (Some ''semantic_domain_capacity'')) (\<lambda>plan.
           rbind (sequence_and_reduce state raw_event plan) (\<lambda>(ps, t). Inr (plan, ps, t)))
     | Inl e \<Rightarrow> Inl e)"

text \<open>\<open>capacity_gap or correlation_gap or lifecycle_gap\<close>: no reason is the empty string.\<close>

definition first_reason :: "string option \<Rightarrow> string option \<Rightarrow> string option \<Rightarrow> string option" where
  "first_reason a b c = (case a of Some x \<Rightarrow> Some x | None \<Rightarrow> (case b of Some x \<Rightarrow> Some x | None \<Rightarrow> c))"

definition insert_events ::
  "string \<Rightarrow> int \<Rightarrow> event_envelope list \<Rightarrow> database \<Rightarrow> database res" where
  "insert_events b next_sequence ps L =
     rfold (\<lambda>L p. insert_sequenced p L) (L\<lparr>db_brains := (db_brains L)(b \<mapsto> next_sequence)\<rparr>) ps"

definition advance_cursor :: "string \<Rightarrow> int \<Rightarrow> int \<Rightarrow> int \<Rightarrow> database \<Rightarrow> database res" where
  "advance_cursor i first final accepted_at L =
     (let u = update_streams (\<lambda>r. sm_bridge_instance_id r = i \<and> sm_next_capture_seq r = first)
        (\<lambda>r. r\<lparr>sm_next_capture_seq := final + 1, sm_last_seen := accepted_at\<rparr>) L
      in if fst u \<noteq> 1 then Inl (ExpectedSequenceError ''bridge capture cursor was lost before record insert'')
         else Inr (snd u))"

definition record_row_checks :: "bridge_record_row \<Rightarrow> bool" where
  "record_row_checks r \<longleftrightarrow> 1 \<le> bd_first_capture_seq r \<and> bd_first_capture_seq r \<le> bd_last_capture_seq r \<and>
     1 \<le> bd_ledger_sequence r \<and> length (bd_semantic_fingerprint r) = 64 \<and>
     0 \<le> bd_derived_event_count r \<and> bd_derived_event_count r \<le> 8 \<and>
     (if bd_derived_event_count r = 0 then bd_derived_first_sequence r = None \<and> bd_derived_last_sequence r = None
      else bd_derived_first_sequence r = Some (bd_ledger_sequence r + 1) \<and>
        bd_derived_last_sequence r = Some (bd_ledger_sequence r + bd_derived_event_count r))"

definition insert_bridge_record :: "bridge_record_row \<Rightarrow> database \<Rightarrow> database res" where
  "insert_bridge_record r L =
     (if record_row_checks r \<and>
        \<not> list_ex (\<lambda>q. bd_bridge_instance_id q = bd_bridge_instance_id r \<and> bd_first_capture_seq q = bd_first_capture_seq r \<or>
          bd_event_id q = bd_event_id r) (db_bridge_records L) \<and>
        find_stream L (bd_bridge_instance_id r) \<noteq> None \<and> list_ex (\<lambda>e. row_event_id e = bd_event_id r) (db_events L)
      then Inr (L\<lparr>db_bridge_records := db_bridge_records L @ [r]\<rparr>) else Inl (SqliteIntegrityError ''bridge_record''))"

definition find_record :: "database \<Rightarrow> string \<Rightarrow> int \<Rightarrow> bridge_record_row option" where
  "find_record L i n = find (\<lambda>r. bd_bridge_instance_id r = i \<and> bd_first_capture_seq r = n) (db_bridge_records L)"

text \<open>The acknowledgement of a batch, and the row that keeps it.\<close>

definition ack_of ::
  "bridge_record \<Rightarrow> semantic_plan \<Rightarrow> event_envelope list \<Rightarrow> brain_state \<Rightarrow> consciousness_frame \<Rightarrow> bridge_ack res" where
  "ack_of record plan ps state f = mk_ack \<lparr>ba_record_fingerprint = record_fingerprint record,
     ba_raw_event_id = ev_event_id (hd ps), ba_raw_event_sequence = bs_last_sequence state + 1,
     ba_derived_event_ids = map ev_event_id (tl ps), ba_derived_event_count = int (length (tl ps)),
     ba_last_event_sequence = the (ev_sequence (last ps)), ba_semantic_status = pl_semantic_status plan,
     ba_semantic_complete = pl_semantic_complete plan, ba_semantic_fingerprint = plan_fingerprint plan, ba_frame = f,
     ba_through_capture_seq = last_capture_seq record\<rparr>"

definition record_row_of :: "bridge_record \<Rightarrow> bridge_ack \<Rightarrow> int \<Rightarrow> bridge_record_row" where
  "record_row_of record ack accepted_at = (let n = ba_derived_event_count ack; raw = ba_raw_event_sequence ack in
     \<lparr>bd_bridge_instance_id = record_instance record, bd_first_capture_seq = first_capture_seq record,
      bd_last_capture_seq = last_capture_seq record, bd_is_gap = is_gap record,
      bd_record_fingerprint = record_fingerprint record, bd_record_json = record_text record,
      bd_event_id = ba_raw_event_id ack, bd_ledger_sequence = raw, bd_semantic_status = ba_semantic_status ack,
      bd_semantic_complete = ba_semantic_complete ack, bd_semantic_fingerprint = ba_semantic_fingerprint ack,
      bd_derived_event_count = n, bd_derived_first_sequence = (if n = 0 then None else Some (raw + 1)),
      bd_derived_last_sequence = (if n = 0 then None else Some (ba_last_event_sequence ack)),
      bd_ack_json = ack_text ack, bd_accepted_at = accepted_at\<rparr>)"

text \<open>The writes of a new record.\<close>

definition write_batch ::
  "bridge_stream \<Rightarrow> bridge_record \<Rightarrow> semantic_plan \<Rightarrow> event_envelope list \<Rightarrow> span_victim list \<Rightarrow> bridge_ack \<Rightarrow> int \<Rightarrow> database \<Rightarrow>
    database res" where
  "write_batch stream record plan ps victims ack accepted_at L =
     (let i = sm_bridge_instance_id stream; b = sm_brain_id stream in
      rbind (insert_events b (ba_last_event_sequence ack + 1) ps L) (\<lambda>L.
      rbind (advance_cursor i (first_capture_seq record) (last_capture_seq record) accepted_at L) (\<lambda>L.
      rbind (settle_spans i plan victims (last_capture_seq record) L) (\<lambda>L.
      rbind (record_semantic_observability b record plan L) (\<lambda>L.
      insert_bridge_record (record_row_of record ack accepted_at) L)))))"

definition commit_new ::
  "bridge_stream \<Rightarrow> bridge_record \<Rightarrow> brain_state \<Rightarrow> int \<Rightarrow> int \<Rightarrow> stamp \<Rightarrow> int \<Rightarrow> database \<Rightarrow>
    ((bridge_ack \<times> brain_state option) \<times> database) res" where
  "commit_new stream record state max_frame_bytes max_ack_bytes st accepted_at L =
     rbind (bridge_head L state (sm_brain_id stream) ''bridge engine state does not match the authoritative head'') (\<lambda>_.
     rbind (build_raw_event stream record st) (\<lambda>raw_event.
     let (capacity_gap, victims) = prepare_span_capacity L record in
     rbind (matched_span L record) (\<lambda>(matched, correlation_gap).
     rbind (planned_batch stream record raw_event matched
       (first_reason capacity_gap correlation_gap (semantic_lifecycle_gap state record matched)) state) (\<lambda>(plan, ps, t).
     rbind (semantic_frame_evidence L (sm_brain_id stream) (Some (record, plan))) (\<lambda>(complete, evidence).
     rbind (project_frame t (last_capture_seq record) (Some (record_capture_coverage record)) (Some complete)
       (Some evidence) ''not_sampled'' True) (\<lambda>f.
     rbind (enforce_frame_limit f max_frame_bytes) (\<lambda>_.
     rbind (ack_of record plan ps state f) (\<lambda>ack.
     rbind (enforce_ack_limit (ack_text ack) max_ack_bytes) (\<lambda>_.
     rbind (write_batch stream record plan ps victims ack accepted_at L) (\<lambda>L'.
     Inr ((ack, Some t), L')))))))))))"

definition commit_repeated ::
  "platform \<Rightarrow> bridge_reader \<Rightarrow> bridge_record_row \<Rightarrow> bridge_record \<Rightarrow> int \<Rightarrow> int \<Rightarrow> database \<Rightarrow>
    ((bridge_ack \<times> brain_state option) \<times> database) res" where
  "commit_repeated P R row record max_frame_bytes max_ack_bytes L =
     rbind (decode_duplicate_bridge_record P R L row record) (\<lambda>ack.
     rbind (enforce_frame_limit (ba_frame ack) max_frame_bytes) (\<lambda>_.
     rbind (enforce_ack_limit (ack_text ack) max_ack_bytes) (\<lambda>_. Inr ((ack, None), L))))"

definition commit_bridge_record ::
  "platform \<Rightarrow> bridge_reader \<Rightarrow> string \<Rightarrow> bridge_record \<Rightarrow> string option \<Rightarrow> int \<Rightarrow> int \<Rightarrow> stamp \<Rightarrow> int \<Rightarrow>
    brain_state \<Rightarrow> database \<Rightarrow> ((bridge_ack \<times> brain_state option) \<times> database) res" where
  "commit_bridge_record P R i rec nonce max_frame_bytes max_ack_bytes st now expected_state L =
     rbind (validate_id i) (\<lambda>i. rbind (normalize_bridge_record rec) (\<lambda>record.
     if record_instance record \<noteq> i then Inl (BridgeBindingError ''record bridge instance does not match binding'')
     else rbind (state_revalidated expected_state) (\<lambda>state.
     rbind (read_stream L i) (\<lambda>stream.
     if sm_brain_id stream \<noteq> bs_brain_id state then Inl (BridgeBindingError ''bridge stream brain does not match engine'')
     else if sm_status stream \<noteq> StreamOpen then Inl (BridgeClosedError ''bridge stream is not open'')
     else if nonce \<noteq> None \<and> sm_connected_nonce stream \<noteq> nonce then
       Inl (BridgeBindingError ''bridge stream is attached to another connection'')
     else case find_record L i (first_capture_seq record) of
       Some row \<Rightarrow> commit_repeated P R row record max_frame_bytes max_ack_bytes L
     | None \<Rightarrow>
         if first_capture_seq record \<noteq> sm_next_capture_seq stream then
           (if \<not> is_gap record \<and> first_capture_seq record > sm_next_capture_seq stream then
              Inl (CaptureGapRequiredError ''later observation requires an exact persisted gap'')
            else Inl (CaptureSequenceError ''bridge record does not begin at the capture cursor''))
         else commit_new stream record state max_frame_bytes max_ack_bytes st
           (bridge_timestamp now (Some (sm_last_seen stream))) L))))"

section \<open>Abandoning a stream\<close>

definition abandonment_event :: "bridge_stream \<Rightarrow> stamp \<Rightarrow> event_envelope res" where
  "abandonment_event stream st = new_event ''trace.gap'' (sm_brain_id stream) (sm_server_actor_id stream)
     [(''schema_version'', JInt 1), (''record_kind'', JStr ''gap''),
      (''bridge_instance_id'', JStr (sm_bridge_instance_id stream)),
      (''first_capture_seq'', JInt (sm_next_capture_seq stream)), (''last_capture_seq'', JNull), (''dropped_count'', JNull),
      (''cause_counts'', JObj [(''abandoned_unknown'', JInt 1)]), (''exact'', JBool False), (''unknown_range'', JBool True),
      (''trace_complete'', JBool False)]
     (st_event_id st) (st_wall_time st) (st_monotonic_ns st)
     (no_provenance\<lparr>pv_adapter_id := Some (sm_server_adapter_id stream)\<rparr>)"

definition mark_abandoned :: "string \<Rightarrow> int option \<Rightarrow> int \<Rightarrow> database \<Rightarrow> database res" where
  "mark_abandoned i cutoff now L =
     (let u = update_streams (\<lambda>r. sm_bridge_instance_id r = i \<and> sm_status r = StreamOpen \<and> sm_connected_nonce r = None \<and>
          (case cutoff of None \<Rightarrow> True | Some c \<Rightarrow> sm_last_seen r \<le> c))
        (\<lambda>r. r\<lparr>sm_status := Abandoned, sm_disconnected_reason := Some GraceAbandonment, sm_disconnected_at := Some now,
          sm_last_seen := now\<rparr>) L
      in if fst u \<noteq> 1 then Inl (BridgeBindingError ''bridge stream changed before abandonment commit'') else Inr (snd u))"

definition abandon_bridge_stream ::
  "string \<Rightarrow> int option \<Rightarrow> stamp \<Rightarrow> int \<Rightarrow> brain_state \<Rightarrow> database \<Rightarrow> ((bridge_stream \<times> brain_state option) \<times> database) res" where
  "abandon_bridge_stream i last_seen_not_after st now expected_state L =
     rbind (validate_id i) (\<lambda>i. rbind (state_revalidated expected_state) (\<lambda>state.
     rbind (read_stream L i) (\<lambda>stream.
     let t = bridge_timestamp now (Some (sm_last_seen stream)); b = sm_brain_id stream in
     if b \<noteq> bs_brain_id state then Inl (BridgeBindingError ''bridge stream brain does not match engine'')
     else if sm_status stream = Abandoned then Inr ((stream, None), L)
     else if sm_status stream \<noteq> StreamOpen then Inl (BridgeClosedError ''clean bridge stream cannot be abandoned'')
     else if sm_connected_nonce stream \<noteq> None then
       Inl (BridgeBindingError ''connected bridge stream cannot be abandoned'')
     else if (case last_seen_not_after of None \<Rightarrow> False | Some c \<Rightarrow> c < sm_last_seen stream) then
       Inl (BridgeBindingError ''bridge stream grace was refreshed before abandonment'')
     else rbind (bridge_head L state b ''abandonment engine state does not match authoritative head'') (\<lambda>_.
       rbind (abandonment_event stream st) (\<lambda>event.
       rbind (event_revalidated (sequenced event (bs_last_sequence state + 1))) (\<lambda>provisional.
       rbind (reduce_state state provisional) (\<lambda>successor.
       rbind (insert_events b (bs_last_sequence state + 2) [provisional] L) (\<lambda>L.
       rbind (mark_abandoned i last_seen_not_after t L) (\<lambda>L.
       rbind (record_gap_observability b L) (\<lambda>L.
       rbind (read_stream L i) (\<lambda>abandoned. Inr ((abandoned, Some successor), L))))))))))))"

section \<open>The engine\<close>

text \<open>A successor the acknowledgement does not name would stop the engine; \<open>commit_publishes\<close> below excludes it.\<close>

definition engine_commit_bridge_record ::
  "platform \<Rightarrow> bridge_reader \<Rightarrow> string \<Rightarrow> bridge_record \<Rightarrow> string option \<Rightarrow> int \<Rightarrow> int \<Rightarrow> stamp \<Rightarrow> int \<Rightarrow>
    engine \<Rightarrow> database \<Rightarrow> bridge_ack outcome" where
  "engine_commit_bridge_record P R i record nonce max_frame_bytes max_ack_bytes st now E L =
     (if en_diverged E then (Inl (EventConflictError ''engine sequence divergence requires a replayed restart''), E, L)
      else case commit_bridge_record P R i record nonce max_frame_bytes max_ack_bytes st now (en_state E) L of
        Inl (ExpectedSequenceError _) \<Rightarrow> (Inl (EventConflictError
          ''engine sequence divergence during bridge commit; restart from ledger replay is required''), diverge E, L)
      | Inl (SqliteIntegrityError m) \<Rightarrow> (Inl (SqliteIntegrityError m), diverge E, L)
      | Inl err \<Rightarrow> (Inl err, E, L)
      | Inr ((ack, None), L') \<Rightarrow> (Inr ack, E, L')
      | Inr ((ack, Some t), L') \<Rightarrow>
          if bs_last_sequence t \<noteq> ba_last_event_sequence ack then
            (Inl (EventConflictError ''bridge publication does not match committed sequence''), diverge E, L')
          else (Inr ack, publish_state t E, L'))"

definition engine_abandon_bridge_stream ::
  "string \<Rightarrow> int option \<Rightarrow> stamp \<Rightarrow> int \<Rightarrow> engine \<Rightarrow> database \<Rightarrow> bridge_stream outcome" where
  "engine_abandon_bridge_stream i last_seen_not_after st now E L =
     guarded ''engine sequence divergence during bridge abandonment; restart from ledger replay is required''
       (abandon_bridge_stream i last_seen_not_after st now) E L"

definition engine_project_bridge_frame ::
  "platform \<Rightarrow> bridge_reader \<Rightarrow> string \<Rightarrow> string option \<Rightarrow> string \<Rightarrow> int \<Rightarrow> engine \<Rightarrow> database \<Rightarrow> consciousness_frame outcome" where
  "engine_project_bridge_frame P R i nonce sample max_frame_bytes E L =
     (if en_diverged E then (Inl (EventConflictError ''engine sequence divergence requires a replayed restart''), E, L)
      else (project_bridge_frame P R i (en_state E) nonce sample max_frame_bytes L, E, L))"

end
