(* ===== verification/BridgeLedger.thy ===== *)
theory BridgeLedger imports Bridge
begin

text \<open>
  A commit or an abandonment as a transaction of the engine: it starts from the head of the brain, appends one
  batch, and returns the state the batch reduces to. The contract \<open>state_transaction\<close> is interpreted on both.
\<close>

section \<open>The batch\<close>

lemma reduced_sequence:
  assumes "rmap event_revalidated (numbered_events n es) = Inr ps" "reduce_many s ps = Inr t"
    and "list_all (\<lambda>e. ev_brain_id e = b \<and> ev_sequence e = None) es"
  shows "sequence_events b (n + 1) s es = Inr (ps, t)"
  using assms
proof (induction es arbitrary: n s ps)
  case Nil
  then show ?case by (simp add: numbered_events_def reduce_many_def)
next
  case (Cons e es)
  from Cons.prems(1,2) obtain qs u where q: "ps = sequenced e (n + 1) # qs" "valid_event (sequenced e (n + 1))"
    "rmap event_revalidated (numbered_events (n + 1) es) = Inr qs" "reduce_state s (sequenced e (n + 1)) = Inr u"
    "reduce_many u qs = Inr t"
    by (auto simp: numbered_Cons rbind_eq_Inr reduce_many_def event_revalidated_Inr)
  have "sequence_events b (n + 1 + 1) u es = Inr (qs, t)" using Cons.IH [OF q(3,5)] Cons.prems(3) by simp
  with q Cons.prems(3) show ?case by (simp add: event_revalidated_def)
qed

lemma numbered_last: "es \<noteq> [] \<Longrightarrow> the (ev_sequence (last (numbered_events n es))) = n + int (length es)"
proof (induction es arbitrary: n)
  case (Cons e es)
  show ?case
  proof (cases "es = []")
    case False
    then have "numbered_events (n + 1) es \<noteq> []" by (cases es) (simp_all add: numbered_Cons)
    with Cons.IH [OF False, of "n + 1"] show ?thesis by (simp add: numbered_Cons)
  qed (simp add: numbered_Cons numbered_events_def sequenced_def)
qed simp

lemma revalidated_same: "rmap event_revalidated es = Inr ps \<Longrightarrow> ps = es"
  by (induction es arbitrary: ps) (auto simp: rbind_eq_Inr event_revalidated_Inr)

lemma bridge_head_Inr: "bridge_head L s b lost = Inr u \<longleftrightarrow>
    db_brains L b = Some (bs_last_sequence s + 1) \<and> ledger_head L b = bs_last_sequence s"
  by (auto simp: bridge_head_def Let_def)

text \<open>A batch of events of the brain, written from its head, advances the ledger by what the state reduces.\<close>

lemma batch_advances_ledger:
  assumes "ledger_ok P L" "rmap event_revalidated (numbered_events (bs_last_sequence s) es) = Inr ps"
    and "reduce_many s ps = Inr t" "list_all (\<lambda>e. ev_brain_id e = bs_brain_id s \<and> ev_sequence e = None) es" "es \<noteq> []"
    and "db_brains L (bs_brain_id s) = Some (bs_last_sequence s + 1)"
    and "insert_events (bs_brain_id s) (bs_last_sequence s + 1 + int (length es)) ps L = Inr M"
    and "list_all (reads_event P) (numbered_events (bs_last_sequence s) es)"
  shows "advances P (bs_brain_id s) s L t M" "history M (bs_brain_id s) = history L (bs_brain_id s) @ map row_of ps"
    "bs_last_sequence t = bs_last_sequence s + int (length es)"
proof -
  let ?b = "bs_brain_id s"
  have ps: "ps = numbered_events (bs_last_sequence s) es" using revalidated_same [OF assms(2)] .
  have seq: "sequence_events ?b (bs_last_sequence s + 1) s es = Inr (ps, t)" by (rule reduced_sequence [OF assms(2,3,4)])
  note len = sequence_events_length [OF seq]
  have n: "bs_last_sequence s + 1 = int (length (history L ?b)) + 1" using ledger_okD(3) [OF assms(1,6)] .
  have "rfold (\<lambda>L p. insert_sequenced p L) (L\<lparr>db_brains := (db_brains L)(?b \<mapsto> bs_last_sequence s + 1 + int (length ps))\<rparr>) ps = Inr M"
    using assms(7) len by (simp add: insert_events_def)
  from sequenced_batch_grows [OF assms(1) seq n this] assms(5,6,8) ps
  have g: "ledger_ok P M \<and> (\<forall>c. history M c = history L c @ (if c = ?b then map row_of ps else [])) \<and>
      replay_rows P s (map row_of ps) = Inr t" by simp
  then show "advances P ?b s L t M" "history M ?b = history L ?b @ map row_of ps" by (auto simp: advances_def)
  show "bs_last_sequence t = bs_last_sequence s + int (length es)" using len by simp
qed

section \<open>The other writes\<close>

lemma update_streams_frame: "log_frame L (snd (update_streams p f L))"
  by (simp add: update_streams_def)

lemma evict_span_frame: "evict_span i L v = Inr L' \<Longrightarrow> log_frame L L'"
  by (auto simp: evict_span_def delete_spans_def Let_def split: if_splits)

lemma evict_spans_frame: "evict_spans i vs L = Inr L' \<Longrightarrow> log_frame L L'"
proof (induction vs arbitrary: L)
  case (Cons v vs)
  then obtain M where "evict_span i L v = Inr M" "evict_spans i vs M = Inr L'" by (auto simp: evict_spans_def rbind_eq_Inr)
  with Cons.IH [of M] show ?case by (blast intro: log_frame_trans dest: evict_span_frame)
qed (simp add: evict_spans_def)

lemma apply_spans_frame: "apply_spans plan n L = Inr L' \<Longrightarrow> log_frame L L'"
  by (auto simp: apply_spans_def close_span_def open_span_def trim_spans_def delete_spans_def Let_def rbind_eq_Inr
      split: if_splits option.splits)

lemma settle_spans_frame: "settle_spans i plan vs n L = Inr L' \<Longrightarrow> log_frame L L'"
  by (auto simp: settle_spans_def rbind_eq_Inr split: if_splits dest!: evict_spans_frame apply_spans_frame intro: log_frame_trans)

lemma record_semantic_observability_frame: "record_semantic_observability b r p L = Inr L' \<Longrightarrow> log_frame L L'"
  by (auto simp: record_semantic_observability_def Let_def rbind_eq_Inr)

lemma insert_bridge_record_frame: "insert_bridge_record r L = Inr L' \<Longrightarrow> log_frame L L'"
  by (auto simp: insert_bridge_record_def split: if_splits)

lemma advance_cursor_frame: "advance_cursor i a b c L = Inr L' \<Longrightarrow> log_frame L L'"
  using update_streams_frame by (auto simp: advance_cursor_def Let_def split: if_splits)

lemma write_batch_frame:
  assumes "write_batch stream record plan ps victims ack t L = Inr L'"
  obtains M where "insert_events (sm_brain_id stream) (ba_last_event_sequence ack + 1) ps L = Inr M" "log_frame M L'"
proof -
  from assms obtain M N1 N2 N3 where w: "insert_events (sm_brain_id stream) (ba_last_event_sequence ack + 1) ps L = Inr M"
    "advance_cursor (sm_bridge_instance_id stream) (first_capture_seq record) (last_capture_seq record) t M = Inr N1"
    "settle_spans (sm_bridge_instance_id stream) plan victims (last_capture_seq record) N1 = Inr N2"
    "record_semantic_observability (sm_brain_id stream) record plan N2 = Inr N3"
    "insert_bridge_record (record_row_of record ack t) N3 = Inr L'"
    by (auto simp: write_batch_def Let_def rbind_eq_Inr)
  have "log_frame M L'"
    using advance_cursor_frame [OF w(2)] settle_spans_frame [OF w(3)] record_semantic_observability_frame [OF w(4)]
      insert_bridge_record_frame [OF w(5)] by (blast intro: log_frame_trans)
  with w(1) that show ?thesis by blast
qed

section \<open>A commit\<close>

lemma planned_batch_Inr:
  assumes "planned_batch stream record raw m forced s = Inr (plan, ps, t)"
  shows "\<exists>forced. build_semantic_plan stream record raw m forced = Inr plan \<and> sequence_and_reduce s raw plan = Inr (ps, t)"
proof -
  from assms obtain p where p: "build_semantic_plan stream record raw m forced = Inr p"
    by (auto simp: planned_batch_def rbind_eq_Inr)
  show ?thesis
  proof (cases "sequence_and_reduce s raw p")
    case (Inr x)
    with assms p show ?thesis by (cases x) (auto simp: planned_batch_def)
  next
    case (Inl e)
    with assms p show ?thesis by (cases e) (auto simp: planned_batch_def rbind_eq_Inr split: if_splits)
  qed
qed

lemma plan_events:
  assumes "build_semantic_plan stream record raw m forced = Inr plan"
  shows "list_all (derived_for stream raw) (pl_derived_events plan)" "causal_chain (ev_event_id raw) (pl_derived_events plan)"
    "length (pl_derived_events plan) \<le> 5"
  using plan_is_sound [OF assms] by (simp_all add: plan_sound_def)

lemma raw_event_shape:
  assumes "build_raw_event stream record st = Inr raw"
  shows "ev_brain_id raw = sm_brain_id stream \<and> ev_sequence raw = None \<and> valid_event raw \<and>
    ev_actor_id raw = sm_server_actor_id stream \<and> ev_adapter_id raw = Some (sm_server_adapter_id stream) \<and>
    record_instance record = sm_bridge_instance_id stream \<and> ev_event_id raw = st_event_id st"
  using assms by (auto simp: build_raw_event_def new_event_def split: if_splits bridge_record.splits)

lemma batch_of_brain:
  assumes "build_raw_event stream record st = Inr raw" "build_semantic_plan stream record raw m forced = Inr plan"
  shows "list_all (\<lambda>e. ev_brain_id e = sm_brain_id stream \<and> ev_sequence e = None) (raw # pl_derived_events plan)"
  using raw_event_shape [OF assms(1)] plan_events(1) [OF assms(2)] by (auto simp: list_all_iff derived_for_def)

lemma project_frame_Inr: "project_frame s n c a e sm lv = Inr f \<Longrightarrow> valid_frame f \<and> fr_state_sequence f = bs_last_sequence s \<and>
    fr_through_capture_seq f = n \<and> fr_brain_id f = bs_brain_id s \<and>
    fr_capture_coverage f = freeze_items (case c of None \<Rightarrow> no_capture_coverage | Some c \<Rightarrow> c)"
  by (auto simp: project_frame_def Let_def split: if_splits option.splits) (simp_all add: build_frame_def)

text \<open>What a new commit is made of.\<close>

definition commit_parts ::
  "bridge_stream \<Rightarrow> bridge_record \<Rightarrow> brain_state \<Rightarrow> stamp \<Rightarrow> event_envelope \<Rightarrow> semantic_plan \<Rightarrow> event_envelope list \<Rightarrow>
    brain_state \<Rightarrow> bridge_ack \<Rightarrow> database \<Rightarrow> bool" where
  "commit_parts stream record s st raw plan ps t ack L \<longleftrightarrow>
     db_brains L (sm_brain_id stream) = Some (bs_last_sequence s + 1) \<and> build_raw_event stream record st = Inr raw \<and>
     (\<exists>m forced. build_semantic_plan stream record raw m forced = Inr plan) \<and>
     rmap event_revalidated (numbered_events (bs_last_sequence s) (raw # pl_derived_events plan)) = Inr ps \<and>
     reduce_many s ps = Inr t \<and> (\<exists>f. ack_of record plan ps s f = Inr ack \<and> bs_last_sequence t = fr_state_sequence f \<and>
       fr_brain_id f = bs_brain_id t \<and> fr_through_capture_seq f = last_capture_seq record \<and>
       fr_capture_coverage f = freeze_items (record_capture_coverage record))"

lemma commit_new_parts:
  assumes "commit_new stream record s mf ma st accepted L = Inr ((ack, t'), L')"
  obtains raw plan ps t victims where "t' = Some t" "commit_parts stream record s st raw plan ps t ack L"
    "write_batch stream record plan ps victims ack accepted L = Inr L'" "victims = snd (prepare_span_capacity L record)"
    "enforce_frame_limit (ba_frame ack) mf = Inr ()" "enforce_ack_limit (ack_text ack) ma = Inr ()"
proof -
  obtain g victims where cap: "prepare_span_capacity L record = (g, victims)" by (cases "prepare_span_capacity L record")
  from assms cap obtain raw m c plan ps t where a: "bridge_head L s (sm_brain_id stream) ''bridge engine state does not match the authoritative head'' = Inr ()"
      "build_raw_event stream record st = Inr raw"
      "planned_batch stream record raw m (first_reason g c (semantic_lifecycle_gap s record m)) s = Inr (plan, ps, t)"
    and rest: "rbind (semantic_frame_evidence L (sm_brain_id stream) (Some (record, plan))) (\<lambda>(complete, evidence).
       rbind (project_frame t (last_capture_seq record) (Some (record_capture_coverage record)) (Some complete)
         (Some evidence) ''not_sampled'' True) (\<lambda>f.
       rbind (enforce_frame_limit f mf) (\<lambda>_. rbind (ack_of record plan ps s f) (\<lambda>ack.
       rbind (enforce_ack_limit (ack_text ack) ma) (\<lambda>_. rbind (write_batch stream record plan ps victims ack accepted L) (\<lambda>L'.
       Inr ((ack, Some t), L'))))))) = Inr ((ack, t'), L')"
    unfolding commit_new_def Let_def rbind_eq_Inr prod.case by (auto simp: rbind_eq_Inr)
  from rest obtain complete evidence f where b: "project_frame t (last_capture_seq record) (Some (record_capture_coverage record))
      (Some complete) (Some evidence) ''not_sampled'' True = Inr f" "enforce_frame_limit f mf = Inr ()"
      "ack_of record plan ps s f = Inr ack" "enforce_ack_limit (ack_text ack) ma = Inr ()"
      "write_batch stream record plan ps victims ack accepted L = Inr L'" "t' = Some t"
    by (auto simp: rbind_eq_Inr)
  from planned_batch_Inr [OF a(3)] obtain forced where p: "build_semantic_plan stream record raw m forced = Inr plan"
    "sequence_and_reduce s raw plan = Inr (ps, t)" by blast
  have "ba_frame ack = f" using b(3) by (auto simp: ack_of_def mk_ack_def split: if_splits)
  moreover have "commit_parts stream record s st raw plan ps t ack L"
    unfolding commit_parts_def using a(1,2) p project_frame_Inr [OF b(1)] b(3)
    by (auto simp: bridge_head_Inr sequence_and_reduce_def rbind_eq_Inr)
  ultimately show ?thesis using that b cap by simp
qed

end
