(* ===== verification/BridgeEngine.thy ===== *)
theory BridgeEngine imports BridgeLedger
begin

text \<open>
  An engine under commits and abandonments. A record may be acknowledged twice: a repeated commit, and an
  abandonment of what is abandoned, answer from the ledger without writing and without asking for its head. So
  the contract is weaker than \<open>state_transaction\<close>, which its writing part meets.
\<close>

section \<open>The contract\<close>

definition writing ::
  "(brain_state \<Rightarrow> database \<Rightarrow> (('a \<times> brain_state option) \<times> database) res) \<Rightarrow> brain_state \<Rightarrow> database \<Rightarrow>
    (('a \<times> brain_state option) \<times> database) res" where
  "writing op s L = rbind (op s L) (\<lambda>((x, successor), M).
     if successor = None then Inl (PyRuntimeError ''nothing written'') else Inr ((x, successor), M))"

lemma writing_Inr: "writing op s L = Inr ((x, successor), M) \<longleftrightarrow> op s L = Inr ((x, successor), M) \<and> successor \<noteq> None"
  by (auto simp: writing_def rbind_eq_Inr split: if_splits)

text \<open>
  On success the engine is the replay of the whole ledger, or nothing has been written and it has not changed;
  a failure has changed neither the ledger nor the state.
\<close>

definition keeps_pace :: "platform \<Rightarrow> engine \<Rightarrow> database \<Rightarrow> 'a outcome \<Rightarrow> bool" where
  "keeps_pace P E L out \<longleftrightarrow> (case out of (r, E', L') \<Rightarrow> tracks P E' L' \<and> later_ledger P L L' \<and>
     (case r of Inr _ \<Rightarrow> E' = E \<and> L' = L \<or> synced P E' L' \<and> \<not> en_diverged E'
      | Inl _ \<Rightarrow> L' = L \<and> en_state E' = en_state E))"

locale repeatable_transaction =
  fixes P :: platform and op :: "brain_state \<Rightarrow> database \<Rightarrow> (('a \<times> brain_state option) \<times> database) res"
    and batches :: "brain_state \<Rightarrow> database \<Rightarrow> event_envelope list set"
  assumes repeats: "op s L = Inr ((x, None), L') \<Longrightarrow> L' = L"
    and starts: "op s L = Inr ((x, Some t), L') \<Longrightarrow> authoritative_head L (bs_brain_id s) = Inr (Some (bs_last_sequence s))"
    and appends: "op s L = Inr ((x, Some t), L') \<Longrightarrow> ledger_ok P L \<Longrightarrow> reads_batches P batches s L \<Longrightarrow>
      advances P (bs_brain_id s) s L t L'"

sublocale repeatable_transaction \<subseteq> state_transaction P "writing op" batches
proof
  fix s L r L'
  assume w: "writing op s L = Inr (r, L')"
  obtain x successor where r: "r = (x, successor)" by (cases r)
  from w r show "authoritative_head L (bs_brain_id s) = Inr (Some (bs_last_sequence s))"
    by (cases successor) (auto simp: writing_Inr dest: starts)
next
  fix s L x successor L'
  assume "writing op s L = Inr ((x, successor), L')" "ledger_ok P L" "reads_batches P batches s L"
  then show "advances P (bs_brain_id s) s L (case successor of None \<Rightarrow> s | Some t \<Rightarrow> t) L'"
    by (cases successor) (auto simp: writing_Inr dest: appends)
qed

context repeatable_transaction begin

lemma paced:
  assumes "tracks P E L" "reads_batches P batches (en_state E) L"
  shows "keeps_pace P E L (guarded lost op E L)"
proof (cases "en_diverged E")
  case True
  with assms show ?thesis by (auto simp: keeps_pace_def guarded_def tracks_def)
next
  case False
  show ?thesis
  proof (cases "op (en_state E) L")
    case (Inl err)
    with assms False show ?thesis by (cases err) (auto simp: keeps_pace_def guarded_def tracks_def)
  next
    case (Inr y)
    obtain x successor M where y: "y = ((x, successor), M)" by (metis prod.exhaust)
    show ?thesis
    proof (cases successor)
      case None
      with repeats [of "en_state E" L x M] Inr y False assms(1) show ?thesis
        by (auto simp: keeps_pace_def guarded_def tracks_def)
    next
      case (Some t)
      with Inr y have "writing op (en_state E) L = Inr ((x, Some t), M)" by (simp add: writing_Inr)
      from success [OF assms this] Some Inr y False show ?thesis
        by (auto simp: keeps_pace_def guarded_def synced_def publish_state_def)
    qed
  qed
qed

end

section \<open>The commit meets it\<close>

definition commit_batches :: "string \<Rightarrow> bridge_record \<Rightarrow> stamp \<Rightarrow> brain_state \<Rightarrow> database \<Rightarrow> event_envelope list set" where
  "commit_batches i rec st s L = {raw # pl_derived_events plan | raw plan stream record matched forced.
     normalize_bridge_record rec = Inr record \<and> read_stream L i = Inr stream \<and>
     build_raw_event stream record st = Inr raw \<and> build_semantic_plan stream record raw matched forced = Inr plan}"

definition commit_at_cursor ::
  "platform \<Rightarrow> bridge_reader \<Rightarrow> string \<Rightarrow> bridge_record \<Rightarrow> bridge_stream \<Rightarrow> brain_state \<Rightarrow> int \<Rightarrow> int \<Rightarrow> stamp \<Rightarrow> int \<Rightarrow> database \<Rightarrow>
    ((bridge_ack \<times> brain_state option) \<times> database) res" where
  "commit_at_cursor P R i rd stream s mf ma st now L = (case find_record L i (first_capture_seq rd) of
     Some row \<Rightarrow> commit_repeated P R row rd mf ma L
   | None \<Rightarrow>
       if first_capture_seq rd \<noteq> sm_next_capture_seq stream then
         (if \<not> is_gap rd \<and> first_capture_seq rd > sm_next_capture_seq stream then
            Inl (CaptureGapRequiredError ''later observation requires an exact persisted gap'')
          else Inl (CaptureSequenceError ''bridge record does not begin at the capture cursor''))
       else commit_new stream rd s mf ma st (bridge_timestamp now (Some (sm_last_seen stream))) L)"

lemma commit_unfold: "commit_bridge_record P R i rec nonce mf ma st now s L =
   rbind (validate_id i) (\<lambda>i. rbind (normalize_bridge_record rec) (\<lambda>rd.
   if record_instance rd \<noteq> i then Inl (BridgeBindingError ''record bridge instance does not match binding'')
   else rbind (state_revalidated s) (\<lambda>s. rbind (read_stream L i) (\<lambda>stream.
   if sm_brain_id stream \<noteq> bs_brain_id s then Inl (BridgeBindingError ''bridge stream brain does not match engine'')
   else if sm_status stream \<noteq> StreamOpen then Inl (BridgeClosedError ''bridge stream is not open'')
   else if nonce \<noteq> None \<and> sm_connected_nonce stream \<noteq> nonce then
     Inl (BridgeBindingError ''bridge stream is attached to another connection'')
   else commit_at_cursor P R i rd stream s mf ma st now L))))"
  unfolding commit_bridge_record_def commit_at_cursor_def by (rule refl)

lemma commit_cases:
  assumes "commit_bridge_record P R i rec nonce mf ma st now s L = Inr ((ack, successor), L')"
  obtains rd stream where "normalize_bridge_record rec = Inr rd" "read_stream L i = Inr stream"
    "sm_brain_id stream = bs_brain_id s" "record_instance rd = i" "sm_status stream = StreamOpen"
    "(\<exists>row. find_record L i (first_capture_seq rd) = Some row \<and> successor = None \<and> L' = L) \<or>
      find_record L i (first_capture_seq rd) = None \<and> first_capture_seq rd = sm_next_capture_seq stream \<and>
      commit_new stream rd s mf ma st (bridge_timestamp now (Some (sm_last_seen stream))) L = Inr ((ack, successor), L')"
proof -
  from assms obtain rd stream where c: "normalize_bridge_record rec = Inr rd" "read_stream L i = Inr stream"
    "sm_brain_id stream = bs_brain_id s" "record_instance rd = i" "sm_status stream = StreamOpen"
    and rest: "commit_at_cursor P R i rd stream s mf ma st now L = Inr ((ack, successor), L')"
    unfolding commit_unfold by (auto simp: rbind_eq_Inr split: if_splits)
  from rest have "(\<exists>row. find_record L i (first_capture_seq rd) = Some row \<and> successor = None \<and> L' = L) \<or>
      find_record L i (first_capture_seq rd) = None \<and> first_capture_seq rd = sm_next_capture_seq stream \<and>
      commit_new stream rd s mf ma st (bridge_timestamp now (Some (sm_last_seen stream))) L = Inr ((ack, successor), L')"
    using c(4) by (auto simp: commit_at_cursor_def commit_repeated_def rbind_eq_Inr split: option.splits if_splits)
  with c that show ?thesis by blast
qed

lemma ack_of_sequence: "ack_of rd plan ps s f = Inr ack \<Longrightarrow> 0 \<le> bs_last_sequence s"
  by (auto simp: ack_of_def mk_ack_def valid_ack_def split: if_splits)

lemma parts_length:
  assumes "commit_parts stream record s st raw plan ps t ack L" "sm_brain_id stream = bs_brain_id s"
  shows "ba_last_event_sequence ack = bs_last_sequence s + 1 + int (length (pl_derived_events plan))"
    "bs_last_sequence t = ba_last_event_sequence ack"
proof -
  let ?es = "raw # pl_derived_events plan"
  from assms(1) obtain m forced f where p: "build_raw_event stream record st = Inr raw"
    "build_semantic_plan stream record raw m forced = Inr plan"
    "rmap event_revalidated (numbered_events (bs_last_sequence s) ?es) = Inr ps" "reduce_many s ps = Inr t"
    "ack_of record plan ps s f = Inr ack" by (auto simp: commit_parts_def)
  have "sequence_events (bs_brain_id s) (bs_last_sequence s + 1) s ?es = Inr (ps, t)"
    using reduced_sequence [OF p(3,4)] batch_of_brain [OF p(1,2)] assms(2) by simp
  from sequence_events_length [OF this] have t: "bs_last_sequence t = bs_last_sequence s + int (length ?es)" by simp
  have "ba_last_event_sequence ack = the (ev_sequence (last ps))"
    using p(5) by (auto simp: ack_of_def mk_ack_def split: if_splits)
  also have "\<dots> = bs_last_sequence s + int (length ?es)"
    using numbered_last [of ?es "bs_last_sequence s"] revalidated_same [OF p(3)] by simp
  finally show "ba_last_event_sequence ack = bs_last_sequence s + 1 + int (length (pl_derived_events plan))"
    "bs_last_sequence t = ba_last_event_sequence ack" using t by simp_all
qed

lemma commit_publishes:
  assumes "commit_bridge_record P R i rec nonce mf ma st now s L = Inr ((ack, Some t), L')"
  shows "bs_last_sequence t = ba_last_event_sequence ack"
  using assms
proof (rule commit_cases)
  fix rd stream
  assume b: "sm_brain_id stream = bs_brain_id s"
    and c: "(\<exists>row. find_record L i (first_capture_seq rd) = Some row \<and> Some t = None \<and> L' = L) \<or>
      find_record L i (first_capture_seq rd) = None \<and> first_capture_seq rd = sm_next_capture_seq stream \<and>
      commit_new stream rd s mf ma st (bridge_timestamp now (Some (sm_last_seen stream))) L = Inr ((ack, Some t), L')"
  then have "commit_new stream rd s mf ma st (bridge_timestamp now (Some (sm_last_seen stream))) L = Inr ((ack, Some t), L')"
    by simp
  then obtain raw plan ps where "commit_parts stream rd s st raw plan ps t ack L" by (rule commit_new_parts) simp
  from parts_length(2) [OF this b] show ?thesis .
qed

lemma engine_commit_guarded:
  "engine_commit_bridge_record P R i rec nonce mf ma st now E L =
     guarded ''engine sequence divergence during bridge commit; restart from ledger replay is required''
       (commit_bridge_record P R i rec nonce mf ma st now) E L"
proof (cases "commit_bridge_record P R i rec nonce mf ma st now (en_state E) L")
  case (Inl err)
  then show ?thesis by (cases err) (simp_all add: engine_commit_bridge_record_def guarded_def)
next
  case (Inr y)
  obtain ack successor M where y: "y = ((ack, successor), M)" by (metis prod.exhaust)
  with Inr commit_publishes show ?thesis
    by (cases successor) (auto simp: engine_commit_bridge_record_def guarded_def)
qed

interpretation committing: repeatable_transaction P "commit_bridge_record P R i rec nonce mf ma st now" "commit_batches i rec st"
  for P R i rec nonce mf ma st now
proof
  fix s L x L'
  assume "commit_bridge_record P R i rec nonce mf ma st now s L = Inr ((x, None), L')"
  then show "L' = L"
  proof (rule commit_cases)
    fix rd stream
    assume "(\<exists>row. find_record L i (first_capture_seq rd) = Some row \<and> None = None \<and> L' = L) \<or>
      find_record L i (first_capture_seq rd) = None \<and> first_capture_seq rd = sm_next_capture_seq stream \<and>
      commit_new stream rd s mf ma st (bridge_timestamp now (Some (sm_last_seen stream))) L = Inr ((x, None), L')"
    then show "L' = L" by (auto elim: commit_new_parts)
  qed
next
  fix s L x t L'
  assume "commit_bridge_record P R i rec nonce mf ma st now s L = Inr ((x, Some t), L')"
  then obtain rd stream where c: "normalize_bridge_record rec = Inr rd" "read_stream L i = Inr stream"
    "sm_brain_id stream = bs_brain_id s"
    "commit_new stream rd s mf ma st (bridge_timestamp now (Some (sm_last_seen stream))) L = Inr ((x, Some t), L')"
    by (rule commit_cases) auto
  from c(4) obtain raw plan ps victims where p: "commit_parts stream rd s st raw plan ps t x L"
    "write_batch stream rd plan ps victims x (bridge_timestamp now (Some (sm_last_seen stream))) L = Inr L'"
    by (rule commit_new_parts) simp
  from p(1) c(3) have h: "db_brains L (bs_brain_id s) = Some (bs_last_sequence s + 1)"
    and n: "0 \<le> bs_last_sequence s" by (auto simp: commit_parts_def dest!: ack_of_sequence)
  from h n show "authoritative_head L (bs_brain_id s) = Inr (Some (bs_last_sequence s))" by (simp add: authoritative_head_def)
  assume ok: "ledger_ok P L" and r: "reads_batches P (commit_batches i rec st) s L"
  from p(1) obtain m forced where q: "build_raw_event stream rd st = Inr raw"
    "build_semantic_plan stream rd raw m forced = Inr plan"
    "rmap event_revalidated (numbered_events (bs_last_sequence s) (raw # pl_derived_events plan)) = Inr ps"
    "reduce_many s ps = Inr t" by (auto simp: commit_parts_def)
  from p(2) obtain M where w: "insert_events (sm_brain_id stream) (ba_last_event_sequence x + 1) ps L = Inr M" "log_frame M L'"
    by (rule write_batch_frame)
  have "raw # pl_derived_events plan \<in> commit_batches i rec st s L" using c(1,2) q(1,2) unfolding commit_batches_def by blast
  with r have "list_all (reads_event P) (numbered_events (bs_last_sequence s) (raw # pl_derived_events plan))"
    by (simp add: reads_batches_def)
  moreover have "insert_events (bs_brain_id s) (bs_last_sequence s + 1 + int (length (raw # pl_derived_events plan))) ps L = Inr M"
    using w(1) parts_length(1) [OF p(1) c(3)] c(3) by (simp add: add.commute add.left_commute)
  ultimately have "advances P (bs_brain_id s) s L t M"
    using batch_advances_ledger(1) [OF ok q(3,4) _ _ h] batch_of_brain [OF q(1,2)] c(3) by simp
  with w(2) show "advances P (bs_brain_id s) s L t L'" by (rule advances_frame [rotated -1])
qed

section \<open>The abandonment meets it\<close>

definition abandon_batches :: "string \<Rightarrow> stamp \<Rightarrow> brain_state \<Rightarrow> database \<Rightarrow> event_envelope list set" where
  "abandon_batches i st s L = {[e] | e stream. read_stream L i = Inr stream \<and> abandonment_event stream st = Inr e}"

lemma mark_abandoned_frame: "mark_abandoned i c now L = Inr L' \<Longrightarrow> log_frame L L'"
  using update_streams_frame by (auto simp: mark_abandoned_def Let_def split: if_splits)

lemma abandonment_event_shape:
  "abandonment_event stream st = Inr e \<Longrightarrow> ev_brain_id e = sm_brain_id stream \<and> ev_sequence e = None"
  by (auto simp: abandonment_event_def new_event_def split: if_splits)

lemma abandon_cases:
  assumes "abandon_bridge_stream i cutoff st now s L = Inr ((x, successor), L')"
  obtains "successor = None" "L' = L" | stream event p t M N where "successor = Some t"
    "read_stream L i = Inr stream" "sm_brain_id stream = bs_brain_id s" "sm_status stream = StreamOpen"
    "db_brains L (bs_brain_id s) = Some (bs_last_sequence s + 1)" "abandonment_event stream st = Inr event"
    "event_revalidated (sequenced event (bs_last_sequence s + 1)) = Inr p" "reduce_state s p = Inr t"
    "insert_events (bs_brain_id s) (bs_last_sequence s + 2) [p] L = Inr M"
    "mark_abandoned i cutoff (bridge_timestamp now (Some (sm_last_seen stream))) M = Inr N"
    "record_gap_observability (bs_brain_id s) N = Inr L'" "valid_state s"
  using assms unfolding abandon_bridge_stream_def Let_def
  by (auto simp: rbind_eq_Inr bridge_head_Inr split: if_split_asm)

interpretation abandoning: repeatable_transaction P "abandon_bridge_stream i cutoff st now" "abandon_batches i st" for P i cutoff st now
proof
  fix s L x L'
  assume "abandon_bridge_stream i cutoff st now s L = Inr ((x, None), L')"
  then show "L' = L" by (rule abandon_cases) simp_all
next
  fix s L x t L'
  assume "abandon_bridge_stream i cutoff st now s L = Inr ((x, Some t), L')"
  then obtain stream event p M N where a: "read_stream L i = Inr stream" "sm_brain_id stream = bs_brain_id s"
    "db_brains L (bs_brain_id s) = Some (bs_last_sequence s + 1)" "abandonment_event stream st = Inr event"
    "event_revalidated (sequenced event (bs_last_sequence s + 1)) = Inr p" "reduce_state s p = Inr t"
    "insert_events (bs_brain_id s) (bs_last_sequence s + 2) [p] L = Inr M"
    "mark_abandoned i cutoff (bridge_timestamp now (Some (sm_last_seen stream))) M = Inr N"
    "record_gap_observability (bs_brain_id s) N = Inr L'" "valid_state s"
    by (rule abandon_cases) simp_all
  have "0 \<le> bs_last_sequence s" using a(5) by (simp add: valid_event_def)
  with a(3) show "authoritative_head L (bs_brain_id s) = Inr (Some (bs_last_sequence s))" by (simp add: authoritative_head_def)
  assume ok: "ledger_ok P L" and r: "reads_batches P (abandon_batches i st) s L"
  have "[event] \<in> abandon_batches i st s L" using a(1,4) unfolding abandon_batches_def by blast
  with r have "list_all (reads_event P) (numbered_events (bs_last_sequence s) [event])"
    by (simp add: reads_batches_def)
  moreover have "rmap event_revalidated (numbered_events (bs_last_sequence s) [event]) = Inr [p]"
    using a(5) by (simp add: numbered_Cons numbered_events_def event_revalidated_def)
  moreover have "reduce_many s [p] = Inr t" using a(6) by (simp add: reduce_many_def)
  moreover have "list_all (\<lambda>e. ev_brain_id e = bs_brain_id s \<and> ev_sequence e = None) [event]"
    using abandonment_event_shape [OF a(4)] a(2) by simp
  moreover have "insert_events (bs_brain_id s) (bs_last_sequence s + 1 + int (length [event])) [p] L = Inr M"
    using a(7) by (simp add: add.commute)
  ultimately have "advances P (bs_brain_id s) s L t M" using batch_advances_ledger(1) [OF ok _ _ _ _ a(3)] by blast
  moreover have "log_frame M L'"
    using mark_abandoned_frame [OF a(8)] record_gap_observability_frame [OF a(9)] by (rule log_frame_trans)
  ultimately show "advances P (bs_brain_id s) s L t L'" by (rule advances_frame)
qed

end
