(* ===== verification/Abandonment.thy ===== *)
theory Abandonment imports BridgeEngine
begin

text \<open>
  The abandonment of an idle stream succeeds whenever the engine is at the head of its brain, and an engine under
  commits and abandonments.
\<close>

lemma abandonment_event_exists:
  assumes "valid_stream stream" "\<not> blank (sm_server_adapter_id stream)" "stamp_ok st"
  obtains e where "abandonment_event stream st = Inr e" "valid_event e" "ev_brain_id e = sm_brain_id stream"
    "ev_sequence e = None" "ev_event_type e = ''trace.gap''" "ev_event_id e = st_event_id st" "ev_schema_version e = 1"
proof -
  have "valid_event_type ''trace.gap''" by code_simp
  moreover have "valid_provenance (Some (sm_server_adapter_id stream))"
    using assms(1,2) by (simp add: valid_provenance_def valid_stream_def str_len_def)
  ultimately have "\<exists>e. abandonment_event stream st = Inr e"
    using assms(1,3) unfolding abandonment_event_def new_event_def event_revalidated_Inr
    by (simp add: valid_event_def valid_stream_def stamp_ok_def no_provenance_def valid_provenance_def EVENT_SCHEMA_VERSION_def
      sorted_keys_def)
  then obtain e where e: "abandonment_event stream st = Inr e" by blast
  then have "valid_event e \<and> ev_brain_id e = sm_brain_id stream \<and> ev_sequence e = None \<and> ev_event_type e = ''trace.gap'' \<and>
      ev_event_id e = st_event_id st \<and> ev_schema_version e = 1"
    by (auto simp: abandonment_event_def new_event_def EVENT_SCHEMA_VERSION_def)
  with e that show ?thesis by blast
qed

lemma reduce_gap:
  assumes "brain_ok s" "valid_event e" "event_admitted s e = Inr ()" "ev_event_type e = ''trace.gap''"
  shows "\<exists>t. reduce_state s e = Inr t \<and> brain_ok t \<and> \<not> bs_trace_complete t"
proof -
  from assms(4) obtain v where v: "prepared s e v" "reduce_state s e = rbind (typed_stage s e v) state_from_data"
    using reduce_quiet [OF assms(1-3)] by (auto simp: quiet_events_def untyped_events_def)
  have t: "typed_stage s e v = Inr (v\<lparr>bs_trace_complete := False\<rparr>)" using typed_stage_gap assms(4) by simp
  with v(2) reduce_state_ok [OF assms(1,2)] assms(4) show ?thesis
    by (auto simp: state_from_data_def escapes_def split: if_splits)
qed

section \<open>One row of the table\<close>

lemma one_row:
  assumes "distinct (map key rows)" "lookup key rows i = Some r" "p r" "\<And>q. p q \<Longrightarrow> key q = i"
  shows "filter p rows = [r]"
  using assms
proof (induction rows)
  case (Cons q rows)
  show ?case
  proof (cases "key q = i")
    case True
    with Cons.prems have "q = r" "\<forall>x \<in> set rows. \<not> p x" by (auto simp: image_iff)
    with Cons.prems(3) show ?thesis by simp
  next
    case False
    with Cons show ?thesis by auto
  qed
qed simp

lemma lookup_map_row:
  assumes "lookup key rows i = Some r" "p r" "\<And>q. key (f q) = key q"
  shows "lookup key (map (\<lambda>q. if p q then f q else q) rows) i = Some (f r)"
  using assms by (induction rows) (auto split: if_splits)

lemma mark_abandoned_exact:
  assumes "rows_ok L" "find_stream L i = Some r" "sm_status r = StreamOpen" "sm_connected_nonce r = None"
    and "case cutoff of None \<Rightarrow> True | Some c \<Rightarrow> sm_last_seen r \<le> c"
  shows "\<exists>ss. mark_abandoned i cutoff now L = Inr (L\<lparr>db_streams := ss\<rparr>) \<and> lookup sm_bridge_instance_id ss i =
      Some (r\<lparr>sm_status := Abandoned, sm_disconnected_reason := Some GraceAbandonment, sm_disconnected_at := Some now,
        sm_last_seen := now\<rparr>)"
proof -
  let ?p = "\<lambda>r. sm_bridge_instance_id r = i \<and> sm_status r = StreamOpen \<and> sm_connected_nonce r = None \<and>
      (case cutoff of None \<Rightarrow> True | Some c \<Rightarrow> sm_last_seen r \<le> c)"
  have r: "?p r" using assms(2-5) lookup_SomeD [of sm_bridge_instance_id "db_streams L" i r] by (simp add: find_stream_def)
  have "filter ?p (db_streams L) = [r]"
    by (rule one_row [where key = sm_bridge_instance_id and i = i]) (use assms(1,2) r in \<open>auto simp: rows_ok_def find_stream_def\<close>)
  moreover note lookup_map_row [of sm_bridge_instance_id "db_streams L" i r ?p
    "\<lambda>r. r\<lparr>sm_status := Abandoned, sm_disconnected_reason := Some GraceAbandonment, sm_disconnected_at := Some now,
      sm_last_seen := now\<rparr>"]
  ultimately show ?thesis using r assms(2) by (simp add: mark_abandoned_def update_streams_def Let_def find_stream_def) blast
qed

lemma abandoned_valid:
  "valid_stream (stream_of r) \<Longrightarrow> sm_status r = StreamOpen \<Longrightarrow> sm_connected_nonce r = None \<Longrightarrow>
    valid_stream (stream_of (r\<lparr>sm_status := Abandoned, sm_disconnected_reason := Some GraceAbandonment,
      sm_disconnected_at := Some now, sm_last_seen := now\<rparr>))"
  by (simp add: valid_stream_def)

section \<open>The abandonment\<close>

text \<open>Room for one more gap in the counters of a brain.\<close>

definition counts_gap :: "database \<Rightarrow> string \<Rightarrow> bool" where
  "counts_gap L b \<longleftrightarrow> (case record_gap_observability b L of Inl _ \<Rightarrow> False | Inr _ \<Rightarrow> True)"

lemma counts_gap_frame:
  "counts_gap L b \<Longrightarrow> db_observability M = db_observability L \<Longrightarrow>
    \<exists>o'. record_gap_observability b M = Inr (M\<lparr>db_observability := o'\<rparr>)"
  by (cases "observability_row L b")
    (auto simp: counts_gap_def record_gap_observability_def observability_row_def rbind_eq_Inr split: sum.splits option.splits)

lemma abandon_succeeds:
  assumes "ledger_ok P L" "rows_ok L" "brain_ok s" "authoritative_head L (bs_brain_id s) = Inr (Some (bs_last_sequence s))"
    and "read_stream L i = Inr stream" "sm_brain_id stream = bs_brain_id s" "sm_status stream = StreamOpen"
    and "sm_connected_nonce stream = None" "case cutoff of None \<Rightarrow> True | Some c \<Rightarrow> sm_last_seen stream \<le> c"
    and "\<not> blank (sm_server_adapter_id stream)" "counts_gap L (bs_brain_id s)"
    and "stamp_ok st" "st_event_id st \<notin> row_event_id ` set (db_events L)"
  shows "\<exists>q t L'. abandon_bridge_stream i cutoff st now s L = Inr ((q, Some t), L') \<and> brain_ok t \<and> \<not> bs_trace_complete t \<and>
    sm_status q = Abandoned \<and> sm_next_capture_seq q = sm_next_capture_seq stream \<and>
    sm_last_seen stream \<le> sm_last_seen q \<and> read_stream L' i = Inr q"
proof -
  let ?b = "bs_brain_id s" and ?n = "bs_last_sequence s" and ?t = "bridge_timestamp now (Some (sm_last_seen stream))"
  obtain r where r: "find_stream L i = Some r" "length (br_recovery_token_digest r) = 32" "valid_stream (stream_of r)"
    "stream = stream_of r" using assms(5) by (auto simp: read_stream_Inr row_ok_def)
  have i: "is_uuid4 i" using r(1,3) lookup_SomeD [of sm_bridge_instance_id "db_streams L" i r]
    by (auto simp: find_stream_def valid_stream_def)
  have valid: "valid_state s" by (rule brain_ok_valid [OF assms(3)])
  obtain e where e: "abandonment_event stream st = Inr e" "valid_event e" "ev_brain_id e = ?b" "ev_sequence e = None"
    "ev_event_type e = ''trace.gap''" "ev_event_id e = st_event_id st" "ev_schema_version e = 1"
    using abandonment_event_exists [of stream st] r(3,4) assms(6,10,12) by metis
  have n: "?n = int (length (history L ?b))" by (rule head_numbered [OF assms(1,4)])
  have alloc: "db_brains L ?b = Some (?n + 1)" using assms(4) by (auto simp: authoritative_head_def split: option.splits if_splits)
  let ?p = "sequenced e (?n + 1)"
  have p: "valid_event ?p" using e(2) n by (simp add: sequenced_def valid_event_sequenced)
  have "event_admitted s ?p = Inr ()" using e(3,7) by (simp add: event_admitted_def sequenced_def)
  then obtain t where t: "reduce_state s ?p = Inr t" "brain_ok t" "\<not> bs_trace_complete t"
    using reduce_gap [OF assms(3) p] e(5) by auto
  have head: "bridge_head L s ?b m = Inr ()" for m
    using alloc n ledger_head_length [OF assms(1)] by (simp add: bridge_head_Inr)
  let ?M = "L\<lparr>db_brains := (db_brains L)(?b \<mapsto> ?n + 2)\<rparr>"
  have "fresh_ids [e] ?M" using assms(13) e(6) by (simp add: fresh_ids_def)
  moreover have "\<forall>q \<in> set (db_events ?M). row_brain_id q = ?b \<longrightarrow> row_sequence q \<le> ?n"
    using numbered_bounds [OF ledger_okD(1) [OF assms(1)], of _ ?b] n by (auto simp: history_def)
  ultimately obtain N where "rfold (\<lambda>L p. insert_sequenced p L) ?M (numbered_events ?n [e]) = Inr N"
    using batch_inserts [of ?M ?b ?n "[e]"] e(3) n by auto
  then have N: "insert_events ?b (?n + 2) [?p] L = Inr N" "N = ?M\<lparr>db_events := db_events L @ [row_of ?p]\<rparr>"
    using batch_rows [of ?M "[?p]" N] by (simp_all add: insert_events_def numbered_Cons numbered_events_def)
  have cutr: "case cutoff of None \<Rightarrow> True | Some c \<Rightarrow> sm_last_seen r \<le> c" using assms(9) r(4) by (cases cutoff) simp_all
  have "rows_ok N" "find_stream N i = Some r" using assms(2) r(1) N(2) by (simp_all add: rows_ok_def find_stream_def)
  from mark_abandoned_exact [OF this, where cutoff = cutoff and now = ?t] obtain ss where
    ss: "mark_abandoned i cutoff ?t N = Inr (N\<lparr>db_streams := ss\<rparr>)" "lookup sm_bridge_instance_id ss i =
      Some (r\<lparr>sm_status := Abandoned, sm_disconnected_reason := Some GraceAbandonment, sm_disconnected_at := Some ?t,
        sm_last_seen := ?t\<rparr>)" using cutr assms(7,8) r(4) by auto
  obtain o' where o': "record_gap_observability ?b (N\<lparr>db_streams := ss\<rparr>) = Inr (N\<lparr>db_streams := ss, db_observability := o'\<rparr>)"
    using counts_gap_frame [OF assms(11), of "N\<lparr>db_streams := ss\<rparr>"] N(2) by auto
  let ?q = "stream_of (r\<lparr>sm_status := Abandoned, sm_disconnected_reason := Some GraceAbandonment,
      sm_disconnected_at := Some ?t, sm_last_seen := ?t\<rparr>)"
  have read: "read_stream (N\<lparr>db_streams := ss, db_observability := o'\<rparr>) i = Inr ?q"
    using ss(2) r abandoned_valid [OF r(3)] assms(7,8) by (simp add: read_stream_Inr find_stream_def row_ok_def)
  have cut: "\<not> (case cutoff of None \<Rightarrow> False | Some c \<Rightarrow> c < sm_last_seen stream)" using assms(9) by (cases cutoff) simp_all
  have "abandon_bridge_stream i cutoff st now s L = Inr ((?q, Some t), N\<lparr>db_streams := ss, db_observability := o'\<rparr>)"
    unfolding abandon_bridge_stream_def Let_def
    using i valid assms(5-8) cut head e(1) p t(1) N(1) ss(1) o' read
    by (simp add: validate_ok state_revalidated_def event_revalidated_def)
  with t(2,3) read bridge_timestamp_at_least [of "sm_last_seen stream" now] r(4) show ?thesis
    by (intro exI conjI) (assumption | simp)+
qed

text \<open>
  C32. An idle stream can always be given up. At the head of a consistent brain, the abandonment of an open stream
  without a connection, not seen after the cut-off, succeeds: the gap event reduces to a consistent brain whose
  trace is no longer complete, and the stored stream is abandoned at its cursor, with a \<open>last_seen\<close> that has not
  gone back. Asked of the store: a counter of gaps that is not exhausted, and an unused event identifier.
\<close>

theorem idle_stream_abandons:
  assumes "ledger_ok P L" "rows_ok L" "brain_ok s" "authoritative_head L (bs_brain_id s) = Inr (Some (bs_last_sequence s))"
    and "read_stream L i = Inr stream" "sm_brain_id stream = bs_brain_id s" "sm_status stream = StreamOpen"
    and "sm_connected_nonce stream = None" "case cutoff of None \<Rightarrow> True | Some c \<Rightarrow> sm_last_seen stream \<le> c"
    and "\<not> blank (sm_server_adapter_id stream)" "counts_gap L (bs_brain_id s)"
    and "stamp_ok st" "st_event_id st \<notin> row_event_id ` set (db_events L)"
  shows "\<exists>q t L'. abandon_bridge_stream i cutoff st now s L = Inr ((q, Some t), L') \<and> brain_ok t \<and> \<not> bs_trace_complete t \<and>
    sm_status q = Abandoned \<and> sm_next_capture_seq q = sm_next_capture_seq stream \<and>
    sm_last_seen stream \<le> sm_last_seen q \<and> read_stream L' i = Inr q"
  by (rule abandon_succeeds [OF assms])

section \<open>The engine\<close>

text \<open>
  C30. An engine stays the replay of the ledger under the bridge. Whoever else has written to the ledger before, a
  commit of a record or the abandonment of a stream leaves the engine's state the replay of a prefix of the
  ledger and appends to it alone. When it succeeds, the state is the replay of the whole ledger, or the operation
  was a repetition and has changed nothing; when it fails, neither the ledger nor the state has changed. Asked of
  the JSON reader: it reads the events that the operation may write.
\<close>

theorem engine_follows_bridge:
  assumes "tracks P E L"
  shows "(reads_batches P (commit_batches i rec st) (en_state E) L \<longrightarrow>
      keeps_pace P E L (engine_commit_bridge_record P R i rec nonce mf ma st now E L)) \<and>
    (reads_batches P (abandon_batches i st) (en_state E) L \<longrightarrow>
      keeps_pace P E L (engine_abandon_bridge_stream i cutoff st now E L))"
  unfolding engine_commit_guarded engine_abandon_bridge_stream_def
  using committing.paced [OF assms] abandoning.paced [OF assms] by simp

section \<open>Witnesses\<close>

text \<open>A brain with one event and an idle stream.\<close>

definition idle_stream :: stream_row where
  "idle_stream = \<lparr>sm_bridge_instance_id = sample_id, sm_brain_id = sample_id, sm_server_actor_id = sample_id,
     sm_server_adapter_id = ''hermes'', sm_next_capture_seq = 2, sm_status = StreamOpen, sm_connected_nonce = None,
     sm_disconnected_reason = Some ConnectionEof, sm_disconnected_at = Some 5, sm_last_seen = 5, sm_closed_final_seq = None,
     br_recovery_token_digest = replicate 32 0\<rparr>"

definition bridged_db :: database where
  "bridged_db = leased_db\<lparr>db_streams := [idle_stream], db_observability := [sample_id \<mapsto>
     \<lparr>ob_trace_complete = True, ob_semantic_complete = True, ob_dropped_events = 0, ob_semantic_records = 0,
      ob_legacy_raw_only_records = 0, ob_semantic_gap_records = 0\<rparr>]\<rparr>"

lemma idle_valid: "valid_stream (stream_of idle_stream)"
  by (simp add: valid_stream_def idle_stream_def str_len_def MAX_BRIDGE_INTEGER_def)

lemma bridged_frame: "log_frame leased_db bridged_db"
  unfolding bridged_db_def by (rule log_frame_trans [OF log_frame_simps(7) log_frame_simps(3)])

lemma bridged_ok: "ledger_ok (naming_platform es) bridged_db" "rows_ok bridged_db" "counts_gap bridged_db sample_id"
  "read_stream bridged_db sample_id = Inr (stream_of idle_stream)"
  "authoritative_head bridged_db sample_id = Inr (Some 1)" "row_event_id ` set (db_events bridged_db) = {sample_id}"
  subgoal using log_frame_ok [OF bridged_frame] leased_ok by simp
  subgoal using idle_valid by (simp add: rows_ok_def row_ok_def bridged_db_def) (simp add: idle_stream_def)
  subgoal by (simp add: counts_gap_def record_gap_observability_def observability_row_def checked_add_def persisted_count_def
      MAX_PERSISTED_OBSERVABILITY_COUNT_def bridged_db_def)
  subgoal using idle_valid by (simp add: read_stream_Inr find_stream_def row_ok_def bridged_db_def) (simp add: idle_stream_def)
  subgoal by (simp add: authoritative_head_def bridged_db_def leased_db_def)
  subgoal by (simp add: bridged_db_def leased_db_def request_event_def)
  done

lemma bridged_state:
  "\<exists>s. full_replay (naming_platform es) bridged_db sample_id None = Inr s \<and> brain_ok s \<and> bs_brain_id s = sample_id \<and>
     bs_last_sequence s = 1"
proof -
  have "full_replay P bridged_db = full_replay P leased_db" for P
    by (simp add: fun_eq_iff full_replay_def bridged_db_def)
  with leased_state [of es] show ?thesis by auto
qed

lemma idle_stream_abandons_witness:
  "\<exists>s q t L'. abandon_bridge_stream sample_id (Some 7) (fst naming_stamps) 9 s bridged_db = Inr ((q, Some t), L') \<and>
     sm_status q = Abandoned \<and> brain_ok t"
proof -
  obtain s where s: "brain_ok s" "bs_brain_id s = sample_id" "bs_last_sequence s = 1" using bridged_state by blast
  have f: "sm_brain_id (stream_of idle_stream) = sample_id" "sm_status (stream_of idle_stream) = StreamOpen"
    "sm_connected_nonce (stream_of idle_stream) = None" "sm_last_seen (stream_of idle_stream) \<le> 7"
    "\<not> blank (sm_server_adapter_id (stream_of idle_stream))"
    by (simp_all add: idle_stream_def) code_simp
  have "stamp_ok (fst naming_stamps)" "st_event_id (fst naming_stamps) \<notin> {sample_id}" using naming_stamps_ok by auto
  with idle_stream_abandons [OF bridged_ok(1,2) s(1) _ bridged_ok(4), of "Some 7" "fst naming_stamps" 9] bridged_ok(3,5,6) s(2,3) f
  show ?thesis by auto
qed

lemma engine_follows_bridge_witness:
  "\<exists>P E q E' L'. engine_abandon_bridge_stream sample_id (Some 7) (fst naming_stamps) 9 E bridged_db = (Inr q, E', L') \<and>
     sm_status q = Abandoned \<and> synced P E' L'"
proof -
  let ?st = "fst naming_stamps"
  obtain s where s: "full_replay (naming_platform []) bridged_db sample_id None = Inr s" "brain_ok s" "bs_brain_id s = sample_id"
    "bs_last_sequence s = 1" using bridged_state by blast
  have st: "stamp_ok ?st" "st_event_id ?st \<noteq> sample_id" using naming_stamps_ok by auto
  have "\<not> blank (sm_server_adapter_id (stream_of idle_stream))" by (simp add: idle_stream_def) code_simp
  then obtain e where e: "abandonment_event (stream_of idle_stream) ?st = Inr e" "ev_event_id e = st_event_id ?st"
    using abandonment_event_exists [OF idle_valid _ st(1)] by metis
  let ?P = "naming_platform [sequenced e 2]" and ?E = "young_engine\<lparr>en_state := s\<rparr>"
  have f: "full_replay ?P bridged_db sample_id None = Inr s"
    using s(1) leased_replay [of "[sequenced e 2]"] leased_replay [of "[]"]
    by (simp add: full_replay_def bridged_db_def)
  have ids: "is_uuid4 sample_id" "valid_state s" using brain_ok_valid [OF s(2)] by simp_all
  have "tracks ?P ?E bridged_db"
    using f full_replay_head [OF bridged_ok(1), of "[sequenced e 2]" sample_id] replayed_head [OF bridged_ok(1) f] s(4) bridged_ok(1)
    by (simp add: tracks_def ids)
  moreover have "reads_batches ?P (abandon_batches sample_id ?st) (en_state ?E) bridged_db"
  proof -
    have "distinct (map ev_event_id [sequenced request_event 1, sequenced e 2])"
      using e(2) st(2) by (simp add: request_event_def)
    from reader_reads [OF this] have "reads_event ?P (sequenced e 2)" by (simp add: naming_platform_def reads_event_def)
    with s(4) e(1) show ?thesis
      by (auto simp: reads_batches_def abandon_batches_def numbered_events_def bridged_ok(4))
  qed
  moreover note engine_follows_bridge [of ?P ?E bridged_db sample_id _ ?st _ _ _ _ 9 "Some 7"]
  ultimately have follows: "keeps_pace ?P ?E bridged_db (engine_abandon_bridge_stream sample_id (Some 7) ?st 9 ?E bridged_db)" by blast
  have i: "sm_brain_id (stream_of idle_stream) = sample_id" "sm_status (stream_of idle_stream) = StreamOpen"
    "sm_connected_nonce (stream_of idle_stream) = None" "sm_last_seen (stream_of idle_stream) \<le> 7"
    "\<not> blank (sm_server_adapter_id (stream_of idle_stream))"
    by (simp_all add: idle_stream_def) code_simp
  obtain q t L' where a: "abandon_bridge_stream sample_id (Some 7) ?st 9 s bridged_db = Inr ((q, Some t), L')" "sm_status q = Abandoned"
    using abandon_succeeds [OF bridged_ok(1,2) s(2) _ bridged_ok(4), of "Some 7" ?st 9] bridged_ok(3,5,6) s(3,4) i st by auto
  then have "engine_abandon_bridge_stream sample_id (Some 7) ?st 9 ?E bridged_db = (Inr q, publish_state t ?E, L')"
    by (simp add: engine_abandon_bridge_stream_def guarded_def)
  moreover from this follows have "synced ?P (publish_state t ?E) L' \<or> publish_state t ?E = ?E"
    by (auto simp: keeps_pace_def)
  moreover have "en_published (publish_state t ?E) \<noteq> en_published ?E" by (simp add: publish_state_def)
  then have "publish_state t ?E \<noteq> ?E" by metis
  ultimately show ?thesis using a(2) by blast
qed

end
