(* ===== verification/Lifetimes.thy ===== *)
theory Lifetimes imports Abandonment
begin

text \<open>
  The life of the streams of a store, under every operation that writes them, in any order and with any other
  writes between: rows are only added, they move along \<open>stream_moves\<close>, and an acknowledged record stays as it is.
\<close>

section \<open>What other writes leave alone\<close>

definition bridge_frame :: "database \<Rightarrow> database \<Rightarrow> bool" where
  "bridge_frame L L' \<longleftrightarrow> db_streams L' = db_streams L \<and> db_bridge_records L' = db_bridge_records L"

lemma bridge_frame_simps [simp]:
  "bridge_frame L L" "bridge_frame L (L\<lparr>db_observability := o'\<rparr>)" "bridge_frame L (L\<lparr>db_spans := ss\<rparr>)"
  "bridge_frame L (L\<lparr>db_brains := bs\<rparr>)" "bridge_frame L (L\<lparr>db_events := es\<rparr>)"
  by (simp_all add: bridge_frame_def)

lemma bridge_frame_trans: "bridge_frame L M \<Longrightarrow> bridge_frame M N \<Longrightarrow> bridge_frame L N"
  by (simp add: bridge_frame_def)

lemma insert_events_bridge: "insert_events b n ps L = Inr L' \<Longrightarrow> bridge_frame L L'"
  using batch_rows [of "L\<lparr>db_brains := (db_brains L)(b \<mapsto> n)\<rparr>" ps L'] by (simp add: insert_events_def bridge_frame_def)

lemma evict_spans_bridge: "evict_spans i vs L = Inr L' \<Longrightarrow> bridge_frame L L'"
proof (induction vs arbitrary: L)
  case (Cons v vs)
  then obtain M where m: "evict_span i L v = Inr M" "evict_spans i vs M = Inr L'" by (auto simp: evict_spans_def rbind_eq_Inr)
  then have "bridge_frame L M" by (auto simp: evict_span_def delete_spans_def Let_def split: if_splits)
  with Cons.IH [OF m(2)] show ?case by (rule bridge_frame_trans [rotated])
qed (simp add: evict_spans_def)

lemma apply_spans_bridge: "apply_spans plan n L = Inr L' \<Longrightarrow> bridge_frame L L'"
  by (auto simp: apply_spans_def close_span_def open_span_def trim_spans_def delete_spans_def Let_def rbind_eq_Inr bridge_frame_def
      split: if_splits option.splits)

lemma settle_spans_bridge: "settle_spans i plan vs n L = Inr L' \<Longrightarrow> bridge_frame L L'"
  by (auto simp: settle_spans_def rbind_eq_Inr split: if_splits
      dest!: evict_spans_bridge apply_spans_bridge intro: bridge_frame_trans)

lemma observability_bridge:
  "record_semantic_observability b r p L = Inr L' \<Longrightarrow> bridge_frame L L'"
  "record_gap_observability b L = Inr L' \<Longrightarrow> bridge_frame L L'"
  by (auto simp: record_semantic_observability_def record_gap_observability_def Let_def rbind_eq_Inr)

section \<open>The steps\<close>

text \<open>One step of the store: an operation on the streams that succeeds, or any write that leaves both tables alone.\<close>

inductive bridge_step :: "database \<Rightarrow> database \<Rightarrow> bool" where
  attached: "attach_bridge_stream P R i b actor adapter nonce token now L = Inr (stream, L') \<Longrightarrow> bridge_step L L'"
| disconnected: "disconnect_bridge_stream i nonce now L = Inr (stream, L') \<Longrightarrow> bridge_step L L'"
| closed_clean: "close_bridge_stream i n nonce' now L = Inr (stream, L') \<Longrightarrow> bridge_step L L'"
| restarted: "bridge_step L (snd (recover_stale_bridge_connections now L))"
| graced: "bridge_step L (snd (refresh_daemon_restart_grace now L))"
| abandoned: "abandon_bridge_stream i cutoff st now s L = Inr (x, L') \<Longrightarrow> bridge_step L L'"
| committed: "commit_bridge_record P R i rd nonce' mf ma st now s L = Inr (y, L') \<Longrightarrow> bridge_step L L'"
| elsewhere: "bridge_frame L L' \<Longrightarrow> bridge_step L L'"

definition keeps_bridge :: "database \<Rightarrow> database \<Rightarrow> bool" where
  "keeps_bridge L L' \<longleftrightarrow> (rows_ok L \<longrightarrow> rows_ok L' \<and> streams_move L L') \<and>
     (\<exists>rs. db_bridge_records L' = db_bridge_records L @ rs)"

lemma keeps_frame: "bridge_frame L L' \<Longrightarrow> keeps_bridge L L'"
  by (simp add: keeps_bridge_def bridge_frame_def streams_move_same rows_ok_def)

lemma keeps_trans: "keeps_bridge L M \<Longrightarrow> keeps_bridge M N \<Longrightarrow> keeps_bridge L N"
  unfolding keeps_bridge_def by (auto intro: streams_move_trans)

lemma keeps_update:
  assumes "rows_ok L \<Longrightarrow> rows_ok (snd (update_streams p f L)) \<and> streams_move L (snd (update_streams p f L))"
  shows "keeps_bridge L (snd (update_streams p f L))"
  using assms by (simp add: keeps_bridge_def update_streams_def)

lemma keeps_update_one:
  assumes "read_stream L i = Inr stream" "\<And>q. p q \<Longrightarrow> sm_bridge_instance_id q = i"
    and "\<And>r. row_ok r \<Longrightarrow> sm_bridge_instance_id r = i \<Longrightarrow> stream = stream_of r \<Longrightarrow> stream_moves r (f r) \<and> row_ok (f r)"
  shows "keeps_bridge L (snd (update_streams p f L))"
proof (rule keeps_update)
  assume ok: "rows_ok L"
  from assms(1) obtain r where r: "find_stream L i = Some r" "row_ok r" "stream = stream_of r" by (auto simp: read_stream_Inr)
  from update_one_moves [OF ok r(1) assms(2)] assms(3) [OF r(2)] r(3) found_row [OF r(1)]
  show "rows_ok (snd (update_streams p f L)) \<and> streams_move L (snd (update_streams p f L))" by blast
qed

lemma disconnect_keeps: "disconnect_bridge_stream i nonce now L = Inr (stream, L') \<Longrightarrow> keeps_bridge L L'"
proof -
  assume d: "disconnect_bridge_stream i nonce now L = Inr (stream, L')"
  then obtain q where q: "read_stream L i = Inr q" by (auto simp: disconnect_bridge_stream_def rbind_eq_Inr)
  show ?thesis
  proof (cases "sm_connected_nonce q = Some nonce")
    case False
    with d q have "L' = L" by (auto simp: disconnect_bridge_stream_def Let_def rbind_eq_Inr)
    then show ?thesis by (simp add: keeps_frame)
  next
    case True
    let ?t = "bridge_timestamp now (Some (sm_last_seen q))"
    have L': "L' = snd (update_streams (\<lambda>r. sm_bridge_instance_id r = i) (\<lambda>r. r\<lparr>sm_connected_nonce := None,
               sm_disconnected_reason := Some ConnectionEof, sm_disconnected_at := Some ?t, sm_last_seen := ?t\<rparr>) L)"
      using d q True by (auto simp: disconnect_bridge_stream_def Let_def rbind_eq_Inr)
    show ?thesis unfolding L'
    proof (rule keeps_update_one [OF q])
      fix r assume r: "row_ok r" "q = stream_of r"
      with True have "sm_status r = StreamOpen" by (cases "sm_status r") (auto simp: row_ok_def valid_stream_def)
      with r bridge_timestamp_at_least [of "sm_last_seen r" now]
      show "stream_moves r (r\<lparr>sm_connected_nonce := None, sm_disconnected_reason := Some ConnectionEof,
          sm_disconnected_at := Some ?t, sm_last_seen := ?t\<rparr>) \<and>
        row_ok (r\<lparr>sm_connected_nonce := None, sm_disconnected_reason := Some ConnectionEof,
          sm_disconnected_at := Some ?t, sm_last_seen := ?t\<rparr>)"
        by (simp add: stream_moves_def row_ok_def valid_stream_def)
    qed
  qed
qed

lemma close_keeps: "close_bridge_stream i n nonce now L = Inr (stream, L') \<Longrightarrow> keeps_bridge L L'"
proof -
  assume c: "close_bridge_stream i n nonce now L = Inr (stream, L')"
  then obtain q where q: "read_stream L i = Inr q" "0 \<le> n" by (auto simp: close_bridge_stream_def rbind_eq_Inr split: if_splits)
  let ?t = "bridge_timestamp now (Some (sm_last_seen q))"
  let ?f = "\<lambda>r. r\<lparr>sm_status := CleanClosed, sm_connected_nonce := None, sm_disconnected_reason := Some CleanClose,
     sm_disconnected_at := Some ?t, sm_closed_final_seq := Some n, sm_last_seen := ?t\<rparr>"
  from c q have cases: "L' = L \<or> sm_status q = StreamOpen \<and> n = sm_next_capture_seq q - 1 \<and>
      L' = snd (update_streams (\<lambda>r. sm_bridge_instance_id r = i) ?f L)"
    by (auto simp: close_bridge_stream_def Let_def rbind_eq_Inr split: if_splits)
  then show ?thesis
  proof (elim disjE conjE)
    assume "L' = L" then show ?thesis by (simp add: keeps_frame)
  next
    assume o: "sm_status q = StreamOpen" "n = sm_next_capture_seq q - 1"
      and L': "L' = snd (update_streams (\<lambda>r. sm_bridge_instance_id r = i) ?f L)"
    show ?thesis unfolding L'
    proof (rule keeps_update_one [OF q(1)])
      fix r assume "row_ok r" "q = stream_of r"
      with o q(2) bridge_timestamp_at_least [of "sm_last_seen r" now]
      show "stream_moves r (?f r) \<and> row_ok (?f r)"
        by (simp add: stream_moves_def row_ok_def valid_stream_def MAX_CAPTURE_SEQUENCE_def)
    qed
  qed
qed

lemma refreshed_moves:
  "row_ok r \<Longrightarrow> sm_status r = StreamOpen \<Longrightarrow>
    stream_moves r ((refreshed now r)\<lparr>sm_connected_nonce := None, sm_disconnected_reason := Some DaemonRestart\<rparr>) \<and>
    row_ok ((refreshed now r)\<lparr>sm_connected_nonce := None, sm_disconnected_reason := Some DaemonRestart\<rparr>)"
  "row_ok r \<Longrightarrow> sm_status r = StreamOpen \<Longrightarrow> sm_connected_nonce r = None \<Longrightarrow> sm_disconnected_reason r = Some DaemonRestart \<Longrightarrow>
    stream_moves r (refreshed now r) \<and> row_ok (refreshed now r)"
  by (simp_all add: stream_moves_def row_ok_def valid_stream_def refreshed_def Let_def)

lemma restart_keeps:
  "keeps_bridge L (snd (recover_stale_bridge_connections now L))" "keeps_bridge L (snd (refresh_daemon_restart_grace now L))"
  unfolding recover_stale_bridge_connections_def refresh_daemon_restart_grace_def
proof (rule_tac [!] keeps_update)
  assume ok: "rows_ok L"
  show "rows_ok (snd (update_streams (\<lambda>r. sm_status r = StreamOpen)
      (\<lambda>r. (refreshed now r)\<lparr>sm_connected_nonce := None, sm_disconnected_reason := Some DaemonRestart\<rparr>) L)) \<and>
    streams_move L (snd (update_streams (\<lambda>r. sm_status r = StreamOpen)
      (\<lambda>r. (refreshed now r)\<lparr>sm_connected_nonce := None, sm_disconnected_reason := Some DaemonRestart\<rparr>) L))"
    by (rule update_rows_move [OF ok], rule refreshed_moves(1) [OF rows_okD [OF ok]])
  show "rows_ok (snd (update_streams (\<lambda>r. sm_status r = StreamOpen \<and> sm_connected_nonce r = None \<and>
      sm_disconnected_reason r = Some DaemonRestart) (refreshed now) L)) \<and>
    streams_move L (snd (update_streams (\<lambda>r. sm_status r = StreamOpen \<and> sm_connected_nonce r = None \<and>
      sm_disconnected_reason r = Some DaemonRestart) (refreshed now) L))"
    by (rule update_rows_move [OF ok], rule refreshed_moves(2) [OF rows_okD [OF ok]]) simp_all
qed

lemma stream_of_row: "rows_ok L \<Longrightarrow> read_stream L i = Inr q \<Longrightarrow> r \<in> set (db_streams L) \<Longrightarrow> sm_bridge_instance_id r = i \<Longrightarrow>
    q = stream_of r"
  using find_stream_row [of L i _ r] by (auto simp: read_stream_Inr)

lemma open_status: "sm_status q \<noteq> CleanClosed \<Longrightarrow> sm_status q \<noteq> Abandoned \<Longrightarrow> sm_status q = StreamOpen"
  by (cases "sm_status q") simp_all

lemma advance_keeps:
  assumes "advance_cursor i a n t L = Inr L'" "read_stream L i = Inr q" "sm_status q = StreamOpen"
    and "a \<le> n" "n \<le> MAX_CAPTURE_SEQUENCE" "sm_last_seen q \<le> t"
  shows "keeps_bridge L L'"
proof -
  let ?p = "\<lambda>r. sm_bridge_instance_id r = i \<and> sm_next_capture_seq r = a"
  let ?f = "\<lambda>r. r\<lparr>sm_next_capture_seq := n + 1, sm_last_seen := t\<rparr>"
  have L': "L' = snd (update_streams ?p ?f L)" using assms(1) by (simp add: advance_cursor_def Let_def split: if_splits)
  show ?thesis
  proof (cases "sm_next_capture_seq q = a")
    case True
    show ?thesis unfolding L'
    proof (rule keeps_update_one [OF assms(2)])
      fix r assume "row_ok r" "q = stream_of r"
      with True assms(3-6) show "stream_moves r (?f r) \<and> row_ok (?f r)"
        by (auto simp: stream_moves_def row_ok_def valid_stream_def MAX_CAPTURE_SEQUENCE_def split: option.splits)
    qed simp
  next
    case False
    show ?thesis unfolding L'
    proof (rule keeps_update)
      assume ok: "rows_ok L"
      have "\<not> ?p r" if "r \<in> set (db_streams L)" for r
        using False stream_of_row [OF ok assms(2) that] by auto
      with update_rows_move [OF ok, of ?p ?f]
      show "rows_ok (snd (update_streams ?p ?f L)) \<and> streams_move L (snd (update_streams ?p ?f L))" by blast
    qed
  qed
qed

lemma record_interval: "valid_record rd \<Longrightarrow> first_capture_seq rd \<le> last_capture_seq rd \<and> last_capture_seq rd \<le> MAX_CAPTURE_SEQUENCE"
  by (cases rd) (auto simp: valid_observation_def valid_gap_def capture_number_def)

lemma read_stream_frame: "bridge_frame L L' \<Longrightarrow> read_stream L' i = read_stream L i"
  by (simp add: read_stream_def bridge_stream_row_def find_stream_def bridge_frame_def)

lemma commit_keeps: "commit_bridge_record P R i rec nonce mf ma st now s L = Inr ((ack, successor), L') \<Longrightarrow> keeps_bridge L L'"
proof (erule commit_cases)
  fix rd q
  assume n: "normalize_bridge_record rec = Inr rd" "read_stream L i = Inr q" "record_instance rd = i" "sm_status q = StreamOpen"
    and c: "(\<exists>row. find_record L i (first_capture_seq rd) = Some row \<and> successor = None \<and> L' = L) \<or>
      find_record L i (first_capture_seq rd) = None \<and> first_capture_seq rd = sm_next_capture_seq q \<and>
      commit_new q rd s mf ma st (bridge_timestamp now (Some (sm_last_seen q))) L = Inr ((ack, successor), L')"
  let ?t = "bridge_timestamp now (Some (sm_last_seen q))"
  from c show "keeps_bridge L L'"
  proof (elim disjE conjE exE)
    assume "L' = L" then show ?thesis by (simp add: keeps_frame)
  next
    assume "commit_new q rd s mf ma st ?t L = Inr ((ack, successor), L')"
    then obtain plan ps victims where w: "write_batch q rd plan ps victims ack ?t L = Inr L'" by (rule commit_new_parts) simp
    have i: "sm_bridge_instance_id q = i" using n(2) found_row by (auto simp: read_stream_Inr)
    from w i obtain M N1 N2 N3 where m: "insert_events (sm_brain_id q) (ba_last_event_sequence ack + 1) ps L = Inr M"
      "advance_cursor i (first_capture_seq rd) (last_capture_seq rd) ?t M = Inr N1"
      "settle_spans i plan victims (last_capture_seq rd) N1 = Inr N2"
      "record_semantic_observability (sm_brain_id q) rd plan N2 = Inr N3"
      "insert_bridge_record (record_row_of rd ack ?t) N3 = Inr L'"
      by (auto simp: write_batch_def Let_def rbind_eq_Inr)
    note f = insert_events_bridge [OF m(1)]
    have "keeps_bridge M N1"
      using advance_keeps [OF m(2) _ n(4) _ _ bridge_timestamp_at_least] read_stream_frame [OF f] n(1,2) record_interval [of rd]
      by (auto simp: normalize_bridge_record_def split: if_splits)
    moreover have "keeps_bridge N3 L'"
      using m(5) by (auto simp: insert_bridge_record_def keeps_bridge_def rows_ok_def streams_move_same split: if_splits)
    ultimately show ?thesis
      using keeps_frame [OF f] keeps_frame [OF settle_spans_bridge [OF m(3)]] keeps_frame [OF observability_bridge(1) [OF m(4)]]
      by (blast intro: keeps_trans)
  qed
qed

lemma abandon_keeps: "abandon_bridge_stream i cutoff st now s L = Inr ((x, successor), L') \<Longrightarrow> keeps_bridge L L'"
proof (erule abandon_cases)
  assume "L' = L" then show ?thesis by (simp add: keeps_frame)
next
  fix q event p t M N
  assume a: "read_stream L i = Inr q" "sm_status q = StreamOpen" "insert_events (bs_brain_id s) (bs_last_sequence s + 2) [p] L = Inr M"
    "mark_abandoned i cutoff (bridge_timestamp now (Some (sm_last_seen q))) M = Inr N"
    "record_gap_observability (bs_brain_id s) N = Inr L'"
  let ?t = "bridge_timestamp now (Some (sm_last_seen q))"
  note f = insert_events_bridge [OF a(3)]
  let ?p = "\<lambda>r. sm_bridge_instance_id r = i \<and> sm_status r = StreamOpen \<and> sm_connected_nonce r = None \<and>
    (case cutoff of None \<Rightarrow> True | Some c \<Rightarrow> sm_last_seen r \<le> c)"
  let ?f = "\<lambda>r. r\<lparr>sm_status := Abandoned, sm_disconnected_reason := Some GraceAbandonment, sm_disconnected_at := Some ?t,
    sm_last_seen := ?t\<rparr>"
  have N: "N = snd (update_streams ?p ?f M)" using a(4) by (simp add: mark_abandoned_def Let_def split: if_splits)
  have "keeps_bridge M N" unfolding N
  proof (rule keeps_update)
    assume ok: "rows_ok M"
    show "rows_ok (snd (update_streams ?p ?f M)) \<and> streams_move M (snd (update_streams ?p ?f M))"
    proof (rule update_rows_move [OF ok])
      fix r assume r: "r \<in> set (db_streams M)" "?p r"
      then have "q = stream_of r" using stream_of_row [OF ok _ r(1)] read_stream_frame [OF f] a(1) by simp
      with r rows_okD [OF ok r(1)] abandoned_valid [of r ?t] bridge_timestamp_at_least [of "sm_last_seen r" now]
      show "stream_moves r (?f r) \<and> row_ok (?f r)" by (auto simp: stream_moves_def row_ok_def)
    qed
  qed
  with keeps_frame [OF f] keeps_frame [OF observability_bridge(2) [OF a(5)]] show ?thesis by (blast intro: keeps_trans)
qed

lemma attach_keeps: "attach_bridge_stream P R i b actor adapter nonce token now L = Inr (stream, L') \<Longrightarrow> keeps_bridge L L'"
proof -
  assume a: "attach_bridge_stream P R i b actor adapter nonce token now L = Inr (stream, L')"
  have nonce: "str_len 1 512 nonce" using a
    by (auto simp: attach_bridge_stream_def bounded_text_def rbind_eq_Inr split: if_splits)
  have after: "read_stream L' i = Inr stream" using a by (auto simp: attach_bridge_stream_def rbind_eq_Inr split: if_splits)
  show ?thesis
  proof (cases "find_stream L i")
    case None
    with a obtain r where r: "L' = L\<lparr>db_streams := db_streams L @ [r]\<rparr>" "sm_bridge_instance_id r = i"
      by (auto simp: attach_bridge_stream_def rbind_eq_Inr split: if_splits)
    have new: "i \<notin> sm_bridge_instance_id ` set (db_streams L)" using None by (simp add: find_stream_def lookup_None_iff)
    then have "find_stream L' i = Some r" using r by (simp add: find_stream_def lookup_fresh)
    with after have "row_ok r" by (auto simp: read_stream_Inr)
    moreover have "streams_move L L'" unfolding streams_move_def
      by (intro exI [of _ "db_streams L"] exI [of _ "[r]"]) (simp add: r(1) list.rel_refl)
    ultimately show ?thesis using r new by (auto simp: keeps_bridge_def rows_ok_def)
  next
    case (Some row)
    with a obtain q where q: "stream_from_row row = Inr q" "sm_status q \<noteq> CleanClosed" "sm_status q \<noteq> Abandoned" "length (br_recovery_token_digest row) = 32"
      "L' = snd (update_streams (\<lambda>r. sm_bridge_instance_id r = i) (\<lambda>r. r\<lparr>sm_connected_nonce := Some nonce,
             sm_disconnected_reason := None, sm_disconnected_at := None,
             sm_last_seen := bridge_timestamp now (Some (sm_last_seen q))\<rparr>) L)"
      by (auto simp: attach_bridge_stream_def validate_recovery_digest_def rbind_eq_Inr split: if_splits)
    have rd: "read_stream L i = Inr q" using Some q(1,4)
      by (simp add: read_stream_def bridge_stream_row_def validate_recovery_digest_def)
    show ?thesis unfolding q(5)
    proof (rule keeps_update_one [OF rd])
      fix r assume "row_ok r" "q = stream_of r"
      with open_status [OF q(2,3)] nonce bridge_timestamp_at_least [of "sm_last_seen r" now]
      show "stream_moves r (r\<lparr>sm_connected_nonce := Some nonce, sm_disconnected_reason := None, sm_disconnected_at := None,
             sm_last_seen := bridge_timestamp now (Some (sm_last_seen q))\<rparr>) \<and>
        row_ok (r\<lparr>sm_connected_nonce := Some nonce, sm_disconnected_reason := None, sm_disconnected_at := None,
             sm_last_seen := bridge_timestamp now (Some (sm_last_seen q))\<rparr>)"
        by (simp add: stream_moves_def row_ok_def valid_stream_def)
    qed
  qed
qed

lemma step_keeps: "bridge_step L L' \<Longrightarrow> keeps_bridge L L'"
proof (induction rule: bridge_step.induct)
  case (abandoned i cutoff st now s L x L')
  then show ?case using abandon_keeps by (cases x) blast
next
  case (committed P R i rd nonce' mf ma st now s L y L')
  then show ?case using commit_keeps by (cases y) blast
qed (blast intro: attach_keeps disconnect_keeps close_keeps restart_keeps keeps_frame)+

text \<open>
  C31. Streams only move on. Whatever operations on the streams succeed, in whatever order and with whatever other
  writes between, the rows stay distinct and valid; no row is lost, and each keeps its provenance and its recovery
  proof; its cursor and its \<open>last_seen\<close> never go back; a closed or abandoned stream never changes again; and the
  acknowledged records are only added to.
\<close>

theorem streams_only_move_on:
  assumes "bridge_step\<^sup>*\<^sup>* L L'" "rows_ok L"
  shows "rows_ok L' \<and> streams_move L L' \<and> (\<exists>rs. db_bridge_records L' = db_bridge_records L @ rs)"
proof -
  from assms(1) have "keeps_bridge L L'"
    by (induction rule: rtranclp_induct) (auto intro: keeps_frame keeps_trans step_keeps)
  with assms(2) show ?thesis by (simp add: keeps_bridge_def)
qed

lemma streams_only_move_on_witness:
  "\<exists>L'. bridge_step\<^sup>*\<^sup>* bridged_db L' \<and> rows_ok L' \<and> streams_move bridged_db L' \<and>
     map sm_disconnected_reason (db_streams L') = [Some DaemonRestart] \<and> map sm_last_seen (db_streams L') = [8]"
proof -
  let ?M = "snd (recover_stale_bridge_connections 6 bridged_db)" and ?N = "\<lambda>L. snd (refresh_daemon_restart_grace 8 L)"
  have steps: "bridge_step\<^sup>*\<^sup>* bridged_db (?N ?M)"
    using restarted [of bridged_db 6] graced [of ?M 8] by (meson rtranclp.rtrancl_into_rtrancl rtranclp.rtrancl_refl)
  have M: "db_streams ?M = [(refreshed 6 idle_stream)\<lparr>sm_connected_nonce := None, sm_disconnected_reason := Some DaemonRestart\<rparr>]"
    by (simp add: recover_stale_bridge_connections_def update_streams_def bridged_db_def) (simp add: idle_stream_def)
  have "map sm_disconnected_reason (db_streams (?N ?M)) = [Some DaemonRestart]" "map sm_last_seen (db_streams (?N ?M)) = [8]"
    by (simp_all add: refresh_daemon_restart_grace_def update_streams_def M refreshed_def Let_def idle_stream_def)
  moreover define N where "N = ?N ?M"
  ultimately have "bridge_step\<^sup>*\<^sup>* bridged_db N" "map sm_disconnected_reason (db_streams N) = [Some DaemonRestart]"
    "map sm_last_seen (db_streams N) = [8]" using steps by (simp_all only: N_def)
  with streams_only_move_on [OF this(1) bridged_ok(2)] show ?thesis by (intro exI [of _ N] conjI) simp_all
qed

end
