(* ===== verification/Spec2Isabelle.thy ===== *)
theory Spec2Isabelle imports Snapshots Histories Lifetimes
begin

text \<open>
  Alice Brain Hermes keeps a simulated mind as an event-sourced state machine: an append-only SQLite ledger
  of events is the only truth, a pure reducer turns a prefix of a brain's history into its state, and
  everything else (the engine that appends and reduces, the scheduler that makes the brain tick, the worker
  that checkpoints it, the leases that let a host language model name the brain and assess its actions) has
  to leave the state the replay of the ledger. The development models that core as it is written under
  \<^verbatim>\<open>src/src/alice_brain_hermes\<close> and proves what makes it correct.

  The parts, with the theories that model them and the files they come from:

  \<^item> Values and text. \<open>Prelude\<close>: the exceptions of \<^verbatim>\<open>errors.py\<close> and of the library as one datatype
    \<open>py_error\<close>, the result type \<open>'a res\<close> (\<open>Inl\<close> is a raise) with \<open>rbind\<close>, bounded and keyed collections
    as the locale \<open>keyed_collection\<close>. \<open>Floats\<close>: finite binary64 values as the rationals they denote, with
    rounding after each operation. \<open>Json\<close>, \<open>Digest\<close>, \<open>Texts\<close>: frozen JSON, its canonical text and its
    injectivity, SHA-256 on 32-bit words. \<open>Events\<close>: \<^verbatim>\<open>core/events.py\<close> and \<^verbatim>\<open>ids.py\<close>.
  \<^item> The state of a mind. \<open>World\<close>, \<open>Identity\<close>, \<open>Personality\<close>, \<open>Energy\<close>, \<open>Action\<close> with \<open>Lifecycle\<close>,
    \<open>Cognition\<close>, \<open>Workspace\<close> with \<open>Specialists\<close>, \<open>State\<close>, \<open>Capacity\<close>: the files of \<^verbatim>\<open>core/\<close>, each with
    its record, its validators (a pydantic model's \<open>revalidated\<close> is a definition \<open>*_revalidated\<close> over a
    predicate \<open>valid_*\<close>) and its reducer function.
  \<^item> The reducer. \<open>Reducer\<close> has \<^verbatim>\<open>core/reducer.py\<close> stage by stage; \<open>Successor\<close>, \<open>Typed\<close> and \<open>Replay\<close>
    prove that every accepted event leads from a consistent brain (\<open>brain_ok\<close>) to a consistent brain, and
    which errors a refused event can raise. \<open>Histories\<close> follows an action through whole reductions, the eviction
    from a full collection included; the lemmas of \<open>Lifecycle\<close> are about \<open>reduce_actions\<close> alone.
  \<^item> The ledger. \<open>Tables\<close> is the database as a record of the tables the modelled operations use, with their
    constraints; \<open>Ledger\<close> has the operations of \<^verbatim>\<open>runtime/store.py\<close> on events, snapshots and foundations.
  \<^item> The runtime. \<open>Engine\<close> and \<open>Pulse\<close> (\<^verbatim>\<open>runtime/engine.py\<close>): the engine appends first and publishes what
    it has reduced; other writers are a function \<open>race\<close> on the database, applied between its transactions.
    \<open>Scheduler\<close> (\<^verbatim>\<open>runtime/scheduler.py\<close>) and \<open>Snapshots\<close> (\<^verbatim>\<open>runtime/snapshot.py\<close>), the latter as a step
    relation of the worker thread, registrations and publications.
  \<^item> The leases of the host model. \<open>LeaseTable\<close> states what the two tables share as the locale
    \<open>lease_table\<close>. \<open>Leases\<close> and \<open>Naming\<close> are identity naming (\<^verbatim>\<open>protocol/identity.py\<close> and \<^verbatim>\<open>store.py\<close>),
    \<open>Assessments\<close>, \<open>Assessed\<close> and \<open>AssessedLive\<close> energy assessment (\<^verbatim>\<open>protocol/energy.py\<close> and
    \<^verbatim>\<open>store.py\<close>). \<open>Guarded\<close> is the engine's wrapper around a lease transaction, with the contract between
    them as the locale \<open>state_transaction\<close>; \<open>NamingEngine\<close> and \<open>Assessed\<close> interpret it on the six
    operations.
  \<^item> What the host observes. \<open>Hermes\<close> (\<^verbatim>\<open>protocol/models.py\<close>): the observation of one of sixteen hooks,
    with the fields of the hook's own context and payload models as tables, an interval of dropped
    observations, and the state of a bridge stream. \<open>Semantic\<close> (\<^verbatim>\<open>runtime/semantic_ingest.py\<close>): the span a
    completion is matched with and the plan of derived events an observation stands for; \<open>Plans\<close> proves what
    every plan is and when there is one.
  \<^item> What the host is shown. \<open>Dumps\<close> has the JSON of every part of a state and the loop that counts its nodes;
    \<open>Frames\<close> is \<open>_project_bridge_frame\<close> of \<^verbatim>\<open>store.py\<close> with the frame of \<^verbatim>\<open>protocol/models.py\<close>, one definition
    per section and per section of its omission counts; \<open>Projection\<close> proves that it is total and that its
    counts add up.
  \<^item> The bridge. \<open>Spans\<close>, \<open>Streams\<close> and \<open>Records\<close> are the tables \<^verbatim>\<open>hermes_span\<close>, \<^verbatim>\<open>bridge_stream\<close> and
    \<^verbatim>\<open>bridge_record\<close> with the operations of \<^verbatim>\<open>store.py\<close> on them: span capacity, attaching, disconnecting and
    closing a stream, the check of its last records, the answer to a repeated record. \<open>Bridge\<close> is the commit of a record
    and the abandonment of a stream, each one transaction from the head of the brain to its acknowledgement, and
    the engine around them. \<open>BridgeLedger\<close> and \<open>BridgeEngine\<close> prove that both meet the contract
    \<open>repeatable_transaction\<close>, whose writing part is a \<open>state_transaction\<close>; \<open>Abandonment\<close> that an idle stream
    can always be given up; \<open>Lifetimes\<close> has all of it as a step relation on the database.

  What the lemmas show. The reducer keeps \<open>brain_ok\<close>, counts what it accepts, demands contiguous sequences;
  an event moves only the action it names, along the lifecycle, a blocked action never executes in any accepted
  history that keeps it, the first outcome stays, effects need linked evidence; the epistemic layers are written by their own events only; the personality moves within
  its token bucket; the workspace broadcasts the best bids. The ledger keeps every history numbered and
  readable, appends idempotently, and replays the same state with and without snapshots. The engine refines
  a state that is always a replay of the ledger, stops when another writer has overtaken it, and a cycle of
  a consistent brain cannot fail. The scheduler's health names the error of the last failed step, the snapshot worker never
  loses a due brain. A lease is settled once, a live lease can be completed, and a completion reaches the brain
  through events that cite each other. The tree check of a bridge record is the recursive bound it stands
  for; a completion is never matched with a guessed span; every plan is a well-typed causal chain of events, and the span
  table a commit finds lets its plan settle, because the spans of a stream began before its next capture.

  Modelling conventions. State is passed explicitly. A transaction that raises leaves the database it got, as
  the rollback does. Time is what the callers are given: wall-clock texts inside events, and instants as
  microseconds in the leases. Strings are HOL strings, one character per code point, so the code points are
  those below 256. Library code is a field of the record \<open>platform\<close>, \<open>energy_reader\<close> or \<open>bridge_reader\<close>: the JSON
  readers of the pydantic models, NFKC and case folding, and the character categories of \<open>unicodedata\<close>. A statement
  asks of them only that they read back the texts it names (\<open>reads_event\<close>, \<open>reads_state\<close>,
  \<open>reads_batches\<close>); the witnesses instantiate them with concrete readers. SHA-256 is computed, and where a
  statement rests on the absence of a collision, the collision is a disjunct (\<open>fingerprints_clash\<close>).

  Bounds and fuel. The only fuel is in paging, where the number of rows is enough, and in the rounds of the
  scheduler, which are given as a list because the loop has no end of its own. All other recursions are
  structural or have a proved measure. A frame shows four records of a kind, a stream keeps 256 spans, a plan derives
  at most eight events: the constants of the code.

  Not modelled. SQLite itself (opening, migrations, the authorizer and the mutation seal), the startup audits
  of stored rows and of whole bridge histories, the records and frames that older schemas left behind, the
  retirement of unpublished foundations, and the parsing of records from JSON text; the daemon, its supervisor,
  sockets, locks and discovery files; the pydantic models of the wire; the plugin inside the host; the command line.
  These are operating-system and library behaviour, or code that only checks again what the model proves of the
  operations that wrote the rows.
\<close>

end
